(* ===== verification/Prelude.thy ===== *)
theory Prelude
  imports Main "HOL-Library.Word"
begin

text \<open>
  Shared vocabulary of the development: the ledger environment a Soroban host hands to a
  contract call, the results of fallible code, Rust's fixed-width arithmetic, storage maps, and
  two interfaces (locales) that several contracts share.

  A contract entry point is a function from the environment and the contract's storage to
  \<open>('e, 's \<times> 'a) res\<close>: \<open>Inr\<close> is a completed call with the new storage and the returned value,
  \<open>Inl (Err e)\<close> is an error code returned by the code, \<open>Inl (Panic p)\<close> is a trap. The host rolls a
  failed invocation back, so a failed call carries no storage.
\<close>

section \<open>Addresses, environment, results\<close>

type_synonym address = nat

text \<open>
  \<open>ledger_seq\<close> and \<open>ledger_time\<close> are what \<open>env.ledger()\<close> reports, \<open>this_contract\<close> is
  \<open>env.current_contract_address()\<close>, and \<open>auths\<close> lists the addresses whose authorisation the
  transaction carries, so that \<open>require_auth\<close> succeeds for exactly these.
  \<open>overflow_checks\<close> is the build profile: Rust's \<open>+ - *\<close> panic on overflow when it is set
  (the profile of \<open>cargo test\<close>) and wrap around when it is not (the release profile of the workspace,
  whose manifest does not turn the checks on).
\<close>

record env =
  ledger_seq :: int
  ledger_time :: int
  this_contract :: address
  auths :: "address list"
  overflow_checks :: bool

text \<open>A concrete environment, for examples.\<close>

definition env0 :: "address list \<Rightarrow> env" where
  "env0 as = \<lparr>ledger_seq = 100, ledger_time = 1000, this_contract = 0, auths = as, overflow_checks = True\<rparr>"

datatype panic = Overflow | DivideByZero | AuthFailed | UnwrapNone | Message string | CallFailed

datatype 'e fault = Err 'e | Panic panic

type_synonym ('e, 'a) res = "'e fault + 'a"

text \<open>Sequencing: Rust's \<open>?\<close> operator, and the propagation of a panic.\<close>

definition rbind :: "('e, 'a) res \<Rightarrow> ('a \<Rightarrow> ('e, 'b) res) \<Rightarrow> ('e, 'b) res" where
  "rbind r f = (case r of Inl e \<Rightarrow> Inl e | Inr x \<Rightarrow> f x)"

text \<open>\<open>ok_or\<close>, \<open>expect\<close> and \<open>unwrap\<close> of an \<open>Option\<close>; \<open>map_err\<close> of a \<open>Result\<close>; \<open>expect\<close> of a \<open>Result\<close>.\<close>

definition ok_or :: "'e \<Rightarrow> 'a option \<Rightarrow> ('e, 'a) res" where
  "ok_or e v = (case v of None \<Rightarrow> Inl (Err e) | Some x \<Rightarrow> Inr x)"

definition unwrap :: "'a option \<Rightarrow> ('e, 'a) res" where
  "unwrap v = (case v of None \<Rightarrow> Inl (Panic UnwrapNone) | Some x \<Rightarrow> Inr x)"

definition map_err :: "('d \<Rightarrow> 'e) \<Rightarrow> ('d, 'a) res \<Rightarrow> ('e, 'a) res" where
  "map_err g r = (case r of Inl (Err e) \<Rightarrow> Inl (Err (g e)) | Inl (Panic p) \<Rightarrow> Inl (Panic p) | Inr x \<Rightarrow> Inr x)"

definition expect :: "string \<Rightarrow> ('d, 'a) res \<Rightarrow> ('e, 'a) res" where
  "expect msg r = (case r of Inl (Err e) \<Rightarrow> Inl (Panic (Message msg)) | Inl (Panic p) \<Rightarrow> Inl (Panic p) | Inr x \<Rightarrow> Inr x)"

definition require_auth :: "env \<Rightarrow> address \<Rightarrow> ('e, unit) res" where
  "require_auth E a = (if List.member (auths E) a then Inr () else Inl (Panic AuthFailed))"

definition require :: "bool \<Rightarrow> 'e fault \<Rightarrow> ('e, unit) res" where
  "require c e = (if c then Inr () else Inl e)"

lemma rbind_simps [simp]:
  "rbind (Inl e) f = Inl e"
  "rbind (Inr x) f = f x"
  by (simp_all add: rbind_def)

lemma rbind_Inr_iff [simp]: "rbind r f = Inr y \<longleftrightarrow> (\<exists>x. r = Inr x \<and> f x = Inr y)"
  by (cases r) auto

lemma rbind_Inl_iff: "rbind r f = Inl e \<longleftrightarrow> r = Inl e \<or> (\<exists>x. r = Inr x \<and> f x = Inl e)"
  by (cases r) auto

lemma rbind_assoc: "rbind (rbind r f) g = rbind r (\<lambda>x. rbind (f x) g)"
  by (cases r) auto

lemma ok_or_Inr_iff [simp]: "ok_or e v = Inr x \<longleftrightarrow> v = Some x"
  by (auto simp: ok_or_def split: option.splits)

lemma ok_or_simps [simp]: "ok_or e None = Inl (Err e)" "ok_or e (Some x) = Inr x"
  by (simp_all add: ok_or_def)

lemma unwrap_Inr_iff [simp]: "unwrap v = Inr x \<longleftrightarrow> v = Some x"
  by (auto simp: unwrap_def split: option.splits)

lemma unwrap_simps [simp]: "unwrap None = Inl (Panic UnwrapNone)" "unwrap (Some x) = Inr x"
  by (simp_all add: unwrap_def)

lemma map_err_Inr_iff [simp]: "map_err g r = Inr x \<longleftrightarrow> r = Inr x"
  by (auto simp: map_err_def split: sum.splits fault.splits)

lemma map_err_simps [simp]:
  "map_err g (Inr x) = Inr x" "map_err g (Inl (Err e)) = Inl (Err (g e))"
  "map_err g (Inl (Panic p)) = Inl (Panic p)"
  by (simp_all add: map_err_def)

lemma expect_Inr_iff [simp]: "expect m r = Inr x \<longleftrightarrow> r = Inr x"
  by (auto simp: expect_def split: sum.splits fault.splits)

lemma expect_simps [simp]:
  "expect m (Inr x) = Inr x" "expect m (Inl (Err e)) = Inl (Panic (Message m))"
  "expect m (Inl (Panic p)) = Inl (Panic p)"
  by (simp_all add: expect_def)

lemma require_auth_Inr_iff [simp]: "require_auth E a = Inr u \<longleftrightarrow> a \<in> set (auths E)"
  by (auto simp: require_auth_def)

lemma require_auth_fails: "a \<notin> set (auths E) \<Longrightarrow> require_auth E a = Inl (Panic AuthFailed)"
  by (simp add: require_auth_def)

lemma require_Inr_iff [simp]: "require c e = Inr u \<longleftrightarrow> c"
  by (auto simp: require_def)

lemma require_simps [simp]: "require True e = Inr ()" "require False e = Inl e"
  by (simp_all add: require_def)

lemma if_Inl_Inr_iff [simp]: "(if c then Inl e else r) = Inr y \<longleftrightarrow> \<not> c \<and> r = Inr y"
  by auto

section \<open>Fixed-width integers\<close>

text \<open>
  The code's integers are mathematical integers that the operations keep within their Rust type.
  \<open>fit\<close> is the outcome of a plain \<open>+\<close>, \<open>-\<close> or \<open>*\<close> whose exact value is given, \<open>checked\<close> that of the
  \<open>checked_\<close> family, and \<open>saturate\<close> that of the \<open>saturating_\<close> family.
\<close>

datatype ity = I128 | U128 | I64 | U64 | I32 | U32

fun ity_min :: "ity \<Rightarrow> int" where
  "ity_min I128 = - (2 ^ 127)"
| "ity_min I64 = - (2 ^ 63)"
| "ity_min I32 = - (2 ^ 31)"
| "ity_min U128 = 0"
| "ity_min U64 = 0"
| "ity_min U32 = 0"

fun ity_max :: "ity \<Rightarrow> int" where
  "ity_max I128 = 2 ^ 127 - 1"
| "ity_max I64 = 2 ^ 63 - 1"
| "ity_max I32 = 2 ^ 31 - 1"
| "ity_max U128 = 2 ^ 128 - 1"
| "ity_max U64 = 2 ^ 64 - 1"
| "ity_max U32 = 2 ^ 32 - 1"

definition in_range :: "ity \<Rightarrow> int \<Rightarrow> bool" where
  "in_range t x \<longleftrightarrow> ity_min t \<le> x \<and> x \<le> ity_max t"

definition wrap :: "ity \<Rightarrow> int \<Rightarrow> int" where
  "wrap t x = (x - ity_min t) mod (ity_max t - ity_min t + 1) + ity_min t"

definition fit :: "env \<Rightarrow> ity \<Rightarrow> int \<Rightarrow> ('e, int) res" where
  "fit E t x = (if in_range t x then Inr x
                else if overflow_checks E then Inl (Panic Overflow) else Inr (wrap t x))"

definition checked :: "ity \<Rightarrow> int \<Rightarrow> int option" where
  "checked t x = (if in_range t x then Some x else None)"

definition saturate :: "ity \<Rightarrow> int \<Rightarrow> int" where
  "saturate t x = max (ity_min t) (min (ity_max t) x)"

text \<open>Rust's \<open>/\<close> and \<open>%\<close> truncate towards zero and panic on a zero divisor or an unrepresentable
  quotient in every profile.\<close>

definition tdiv :: "int \<Rightarrow> int \<Rightarrow> int" where
  "tdiv a b = sgn a * sgn b * (\<bar>a\<bar> div \<bar>b\<bar>)"

definition tmod :: "int \<Rightarrow> int \<Rightarrow> int" where
  "tmod a b = a - b * tdiv a b"

definition quot :: "ity \<Rightarrow> int \<Rightarrow> int \<Rightarrow> ('e, int) res" where
  "quot t a b = (if b = 0 then Inl (Panic DivideByZero)
                 else if in_range t (tdiv a b) then Inr (tdiv a b) else Inl (Panic Overflow))"

definition checked_quot :: "ity \<Rightarrow> int \<Rightarrow> int \<Rightarrow> int option" where
  "checked_quot t a b = (if b = 0 then None else checked t (tdiv a b))"

lemma fit_in_range [simp]: "in_range t x \<Longrightarrow> fit E t x = Inr x"
  by (simp add: fit_def)

lemma fit_checked_Inr [simp]:
  "overflow_checks E \<Longrightarrow> fit E t x = Inr y \<longleftrightarrow> y = x \<and> in_range t x"
  by (auto simp: fit_def)

lemma checked_Some [simp]: "checked t x = Some y \<longleftrightarrow> y = x \<and> in_range t x"
  by (auto simp: checked_def)

lemma checked_None [simp]: "checked t x = None \<longleftrightarrow> \<not> in_range t x"
  by (simp add: checked_def)

lemma wrap_in_range: "in_range t (wrap t x)"
  by (cases t) (simp_all add: wrap_def in_range_def pos_mod_bound)

lemma wrap_id: "in_range t x \<Longrightarrow> wrap t x = x"
  by (cases t) (simp_all add: wrap_def in_range_def)

lemma fit_Inr_in_range: "fit E t x = Inr y \<Longrightarrow> in_range t y"
  by (auto simp: fit_def wrap_in_range split: if_splits)

lemma saturate_in_range: "in_range t (saturate t x)"
  by (cases t) (auto simp: saturate_def in_range_def)

lemma saturate_id: "in_range t x \<Longrightarrow> saturate t x = x"
  by (auto simp: saturate_def in_range_def)

lemma tdiv_nonneg [simp]: "0 \<le> a \<Longrightarrow> 0 < b \<Longrightarrow> tdiv a b = a div b"
  by (cases "a = 0") (auto simp: tdiv_def)

lemma tdiv_zero [simp]: "tdiv 0 b = 0"
  by (simp add: tdiv_def)

lemma tmod_nonneg [simp]: "0 \<le> a \<Longrightarrow> 0 < b \<Longrightarrow> tmod a b = a mod b"
  by (simp add: tmod_def minus_mult_div_eq_mod)

text \<open>Floor and ceiling of a quotient by their inequalities.\<close>

lemma div_mult_le_int: "0 < d \<Longrightarrow> n div d * d \<le> (n::int)"
  using pos_mod_sign [of d n] div_mult_mod_eq [of n d] by linarith

lemma less_Suc_div_mult_int:
  assumes "0 < d"
  shows "(n::int) < (n div d + 1) * d"
proof -
  have "n < n div d * d + d" using pos_mod_bound [OF assms, of n] div_mult_mod_eq [of n d] by linarith
  then show ?thesis by (simp add: distrib_right)
qed

lemma ceil_quot_bounds:
  assumes "0 < d" "q = (if n mod d = 0 then n div d else n div d + (1::int))"
  shows "n \<le> q * d \<and> (q - 1) * d < n"
proof (cases "n mod d = 0")
  case True
  then have "n div d * d = n" using div_mult_mod_eq [of n d] by linarith
  with True assms show ?thesis by (simp add: left_diff_distrib)
next
  case False
  then have "0 < n mod d" using pos_mod_sign [OF assms(1), of n] by linarith
  then have "n div d * d < n" using div_mult_mod_eq [of n d] by linarith
  with False assms less_Suc_div_mult_int [OF assms(1), of n] show ?thesis by simp
qed

lemma div_nonneg_int: "0 \<le> n \<Longrightarrow> 0 < d \<Longrightarrow> 0 \<le> (n::int) div d"
  by (simp add: pos_imp_zdiv_nonneg_iff)

lemma quot_pos_Inr: "0 \<le> a \<Longrightarrow> 0 < b \<Longrightarrow> quot t a b = Inr y \<longleftrightarrow> y = a div b \<and> in_range t y"
  by (auto simp: quot_def)

lemma quot_InrD: "quot t a b = Inr y \<Longrightarrow> b \<noteq> 0 \<and> y = tdiv a b \<and> in_range t y"
  by (auto simp: quot_def split: if_splits)

lemma in_range_mono: "in_range t b \<Longrightarrow> ity_min t \<le> a \<Longrightarrow> a \<le> b \<Longrightarrow> in_range t a"
  by (simp add: in_range_def)

lemma in_range_nonneg_le: "in_range t b \<Longrightarrow> 0 \<le> a \<Longrightarrow> a \<le> b \<Longrightarrow> in_range t a"
  by (cases t) (auto simp: in_range_def)

section \<open>Storage maps\<close>

text \<open>\<open>get\<close> with \<open>unwrap_or(d)\<close>, and the sum of an integer map over its finite domain.\<close>

definition get_or :: "('k \<rightharpoonup> 'v) \<Rightarrow> 'k \<Rightarrow> 'v \<Rightarrow> 'v" where
  "get_or m k d = (case m k of None \<Rightarrow> d | Some v \<Rightarrow> v)"

definition map_sum :: "('k \<rightharpoonup> int) \<Rightarrow> int" where
  "map_sum m = (\<Sum>k \<in> dom m. get_or m k 0)"

lemma get_or_simps [simp]:
  "get_or (m(k \<mapsto> v)) k d = v"
  "j \<noteq> k \<Longrightarrow> get_or (m(k \<mapsto> v)) j d = get_or m j d"
  "get_or Map.empty k d = d"
  by (simp_all add: get_or_def)

lemma get_or_upd: "get_or (m(k \<mapsto> v)) j d = (if j = k then v else get_or m j d)"
  by (simp add: get_or_def)

lemma get_or_del: "get_or (m(k := None)) j d = (if j = k then d else get_or m j d)"
  by (simp add: get_or_def)

lemma map_sum_empty [simp]: "map_sum Map.empty = 0"
  by (simp add: map_sum_def)

lemma map_sum_upd [simp]:
  assumes "finite (dom m)"
  shows "map_sum (m(k \<mapsto> v)) = map_sum m - get_or m k 0 + v"
proof -
  have split: "map_sum m = get_or m k 0 + (\<Sum>j \<in> dom m - {k}. get_or m j 0)"
  proof (cases "k \<in> dom m")
    case True
    with assms show ?thesis by (simp add: map_sum_def sum.remove)
  next
    case False
    then have "get_or m k 0 = 0" by (simp add: get_or_def domIff)
    with False show ?thesis by (simp add: map_sum_def)
  qed
  have "map_sum (m(k \<mapsto> v)) = (\<Sum>j \<in> insert k (dom m - {k}). get_or (m(k \<mapsto> v)) j 0)"
    by (simp add: map_sum_def)
  also have "\<dots> = v + (\<Sum>j \<in> dom m - {k}. get_or (m(k \<mapsto> v)) j 0)"
    using assms by (subst sum.insert) auto
  also have "(\<Sum>j \<in> dom m - {k}. get_or (m(k \<mapsto> v)) j 0) = (\<Sum>j \<in> dom m - {k}. get_or m j 0)"
    by (rule sum.cong) (auto simp: get_or_upd)
  finally show ?thesis using split by linarith
qed

lemma map_sum_nonneg: "(\<And>k. 0 \<le> get_or m k 0) \<Longrightarrow> 0 \<le> map_sum m"
  by (simp add: map_sum_def sum_nonneg)

lemma get_or_le_map_sum:
  assumes "finite (dom m)" "\<And>k. 0 \<le> get_or m k (0::int)"
  shows "get_or m k 0 \<le> map_sum m"
proof (cases "k \<in> dom m")
  case True
  then show ?thesis unfolding map_sum_def by (rule member_le_sum) (use assms in auto)
next
  case False
  then have "get_or m k 0 = 0" by (simp add: get_or_def domIff)
  with assms(2) show ?thesis by (simp add: map_sum_nonneg)
qed

section \<open>Interface: a contract as a transition system\<close>

text \<open>
  \<open>step E s op\<close> is one invocation. A ledger applies invocations one after the other, each in its own
  environment, and rolls failed ones back. A predicate that every successful invocation keeps (among
  the calls \<open>ok\<close> admits) therefore holds after any sequence of such calls.
\<close>

definition apply_call :: "(env \<Rightarrow> 's \<Rightarrow> 'op \<Rightarrow> ('e, 's \<times> 'a) res) \<Rightarrow> env \<times> 'op \<Rightarrow> 's \<Rightarrow> 's" where
  "apply_call step c s = (case step (fst c) s (snd c) of Inl e \<Rightarrow> s | Inr (s', v) \<Rightarrow> s')"

definition run_calls :: "(env \<Rightarrow> 's \<Rightarrow> 'op \<Rightarrow> ('e, 's \<times> 'a) res) \<Rightarrow> (env \<times> 'op) list \<Rightarrow> 's \<Rightarrow> 's" where
  "run_calls step cs s = fold (apply_call step) cs s"

lemma run_calls_simps [simp]:
  "run_calls step [] s = s"
  "run_calls step (c # cs) s = run_calls step cs (apply_call step c s)"
  by (simp_all add: run_calls_def)

locale contract_machine =
  fixes step :: "env \<Rightarrow> 's \<Rightarrow> 'op \<Rightarrow> ('e, 's \<times> 'a) res"
    and ok :: "env \<Rightarrow> 'op \<Rightarrow> bool"
    and inv :: "'s \<Rightarrow> bool"
  assumes step_inv: "ok E c \<Longrightarrow> inv s \<Longrightarrow> step E s c = Inr (s', v) \<Longrightarrow> inv s'"
begin

lemma apply_call_inv: "ok (fst c) (snd c) \<Longrightarrow> inv s \<Longrightarrow> inv (apply_call step c s)"
  by (auto simp: apply_call_def intro: step_inv split: sum.splits)

lemma run_inv: "inv s \<Longrightarrow> \<forall>c \<in> set cs. ok (fst c) (snd c) \<Longrightarrow> inv (run_calls step cs s)"
  by (induction cs arbitrary: s) (auto intro: apply_call_inv)

end

end
