(* ===== verification/EmergencyGuard.thy ===== *)
theory EmergencyGuard
  imports Prelude
begin

unbundle bit_operations_syntax

text \<open>
  The \<open>emergency_guard\<close> crate (\<open>contracts/emergency_guard/src/lib.rs\<close>): a pause bitmask, an admin
  list and a signature threshold kept in the instance storage of the contract that embeds it.
  \<open>guard_*\<close> are the functions of \<open>EmergencyGuard\<close>, \<open>dguard_*\<close> those of \<open>DefaultEmergencyGuard\<close>.
  The lemmas characterise the multi-signature check exactly, give the effect of every operation on
  the bitmask and the admin list, and show which membership invariants the two implementations keep.
\<close>

section \<open>Data\<close>

type_synonym u32 = "32 word"

datatype guard_error = NotInitialized | Unauthorized | Paused | InsufficientSignatures
  | InvalidThreshold | AdminNotFound | AlreadyInitialized

datatype guard_action = Initialized | PauseSet | EmergencyPause | Resume | AdminAdded
  | AdminRemoved | AdminRotated

record guard_action_event =
  ev_action :: guard_action
  ev_admin :: "address option"
  ev_operation :: u32
  ev_paused :: bool
  ev_threshold :: nat
  ev_admin_count :: nat
  ev_approver_count :: nat

datatype guard_event =
    GuardAction guard_action_event
  | GuardInitialized "address list" nat
  | PauseStateChanged address u32 bool
  | EmergencyPaused "address list"
  | Resumed "address list"
  | GuardAdminAdded "address list" address
  | GuardAdminRemoved "address list" address

text \<open>One field per \<open>GuardDataKey\<close>; \<open>None\<close> is an absent entry.\<close>

record guard =
  pause_state :: "u32 option"
  guard_admins :: "address list option"
  sig_threshold :: "nat option"
  guard_events :: "guard_event list"

definition empty_guard :: guard where
  "empty_guard = \<lparr>pause_state = None, guard_admins = None, sig_threshold = None, guard_events = []\<rparr>"

text \<open>The bits of \<open>PauseType\<close>.\<close>

definition SWAP :: u32 where "SWAP = push_bit 0 1"
definition DEPOSIT :: u32 where "DEPOSIT = push_bit 1 1"
definition WITHDRAW :: u32 where "WITHDRAW = push_bit 2 1"
definition TRANSFER :: u32 where "TRANSFER = push_bit 3 1"
definition MINT :: u32 where "MINT = push_bit 4 1"
definition BURN :: u32 where "BURN = push_bit 5 1"
definition CREATE_PAIR :: u32 where "CREATE_PAIR = push_bit 6 1"
definition STAKE :: u32 where "STAKE = push_bit 7 1"
definition BORROW :: u32 where "BORROW = push_bit 8 1"

definition u32_MAX :: u32 where "u32_MAX = - 1"

definition pt_is_paused :: "u32 \<Rightarrow> u32 \<Rightarrow> bool" where
  "pt_is_paused m operation \<longleftrightarrow> m AND operation \<noteq> 0"

definition pt_set_paused :: "u32 \<Rightarrow> u32 \<Rightarrow> bool \<Rightarrow> u32" where
  "pt_set_paused m operation paused = (if paused then m OR operation else m AND NOT operation)"

definition pt_pause_all :: "u32 \<Rightarrow> u32" where
  "pt_pause_all m = u32_MAX"

definition pt_unpause_all :: "u32 \<Rightarrow> u32" where
  "pt_unpause_all m = 0"

definition emit_guard :: "guard_event \<Rightarrow> guard \<Rightarrow> guard" where
  "emit_guard ev g = g\<lparr>guard_events := guard_events g @ [ev]\<rparr>"

section \<open>EmergencyGuard\<close>

subsection \<open>Views and internal helpers\<close>

definition guard_mask :: "guard \<Rightarrow> u32" where
  "guard_mask g = (case pause_state g of None \<Rightarrow> 0 | Some m \<Rightarrow> m)"

definition guard_get_pause_state :: "guard \<Rightarrow> u32" where
  "guard_get_pause_state g = guard_mask g"

definition guard_is_paused :: "guard \<Rightarrow> u32 \<Rightarrow> bool" where
  "guard_is_paused g operation \<longleftrightarrow> guard_mask g AND operation \<noteq> 0"

definition guard_ensure_not_paused :: "guard \<Rightarrow> u32 \<Rightarrow> ('e, unit) res" where
  "guard_ensure_not_paused g operation =
     (if guard_is_paused g operation then Inl (Panic (Message ''operation paused'')) else Inr ())"

definition guard_get_admins :: "guard \<Rightarrow> address list" where
  "guard_get_admins g = (case guard_admins g of None \<Rightarrow> [] | Some as \<Rightarrow> as)"

definition guard_get_threshold :: "guard \<Rightarrow> nat" where
  "guard_get_threshold g = (case sig_threshold g of None \<Rightarrow> 0 | Some t \<Rightarrow> t)"

definition guard_is_admin :: "guard \<Rightarrow> address \<Rightarrow> bool" where
  "guard_is_admin g addr = List.member (guard_get_admins g) addr"

text \<open>
  The loop of \<open>check_multi_sig\<close>: repeated approvers are skipped, an approver that is no admin ends
  the loop, an admin must authorise. A host vector has at most \<open>u32::MAX\<close> elements, so the counter
  \<open>valid\<close> cannot overflow.
\<close>

fun multi_sig_loop :: "env \<Rightarrow> guard \<Rightarrow> address list \<Rightarrow> address list \<Rightarrow> nat \<Rightarrow> (guard_error, nat) res" where
  "multi_sig_loop E g [] seen valid = Inr valid"
| "multi_sig_loop E g (addr # rest) seen valid =
     (if List.member seen addr then multi_sig_loop E g rest seen valid
      else if guard_is_admin g addr
      then rbind (require_auth E addr) (\<lambda>_. multi_sig_loop E g rest (seen @ [addr]) (valid + 1))
      else Inl (Err guard_error.Unauthorized))"

definition guard_check_multi_sig :: "env \<Rightarrow> guard \<Rightarrow> address list \<Rightarrow> (guard_error, unit) res" where
  "guard_check_multi_sig E g approvers =
     rbind (ok_or guard_error.NotInitialized (sig_threshold g)) (\<lambda>threshold.
     if length approvers < threshold then Inl (Err InsufficientSignatures)
     else rbind (multi_sig_loop E g approvers [] 0) (\<lambda>valid.
     if valid < threshold then Inl (Err InsufficientSignatures) else Inr ()))"

definition guard_action_ev ::
  "guard_action \<Rightarrow> address option \<Rightarrow> u32 \<Rightarrow> bool \<Rightarrow> nat \<Rightarrow> nat \<Rightarrow> nat \<Rightarrow> guard_event" where
  "guard_action_ev act adm operation paused threshold admin_count approver_count =
     GuardAction \<lparr>ev_action = act, ev_admin = adm, ev_operation = operation, ev_paused = paused,
       ev_threshold = threshold, ev_admin_count = admin_count, ev_approver_count = approver_count\<rparr>"

subsection \<open>Operations\<close>

definition guard_initialize :: "guard \<Rightarrow> address list \<Rightarrow> nat \<Rightarrow> (guard_error, guard) res" where
  "guard_initialize g as threshold =
     (if guard_admins g \<noteq> None then Inl (Err guard_error.AlreadyInitialized)
      else if threshold = 0 \<or> threshold > length as then Inl (Err InvalidThreshold)
      else Inr (emit_guard (GuardInitialized as threshold)
        (g\<lparr>guard_admins := Some as, sig_threshold := Some threshold, pause_state := Some 0\<rparr>)))"

definition guard_set_pause ::
  "env \<Rightarrow> guard \<Rightarrow> address \<Rightarrow> u32 \<Rightarrow> bool \<Rightarrow> (guard_error, guard) res" where
  "guard_set_pause E g admin operation paused =
     rbind (require_auth E admin) (\<lambda>_.
     if \<not> guard_is_admin g admin then Inl (Err guard_error.Unauthorized)
     else
       let g1 = g\<lparr>pause_state := Some (pt_set_paused (guard_mask g) operation paused)\<rparr> in
       Inr (emit_guard (PauseStateChanged admin operation paused)
         (emit_guard (guard_action_ev PauseSet (Some admin) operation paused
            (guard_get_threshold g1) (length (guard_get_admins g1)) 1) g1)))"

definition guard_emergency_pause :: "env \<Rightarrow> guard \<Rightarrow> address list \<Rightarrow> (guard_error, guard) res" where
  "guard_emergency_pause E g approvers =
     rbind (guard_check_multi_sig E g approvers) (\<lambda>_.
       let g1 = g\<lparr>pause_state := Some (pt_pause_all 0)\<rparr> in
       Inr (emit_guard (EmergencyPaused approvers)
         (emit_guard (guard_action_ev EmergencyPause None u32_MAX True
            (guard_get_threshold g1) (length (guard_get_admins g1)) (length approvers)) g1)))"

definition guard_resume :: "env \<Rightarrow> guard \<Rightarrow> address list \<Rightarrow> (guard_error, guard) res" where
  "guard_resume E g approvers =
     rbind (guard_check_multi_sig E g approvers) (\<lambda>_.
       let g1 = g\<lparr>pause_state := Some 0\<rparr> in
       Inr (emit_guard (Resumed approvers)
         (emit_guard (guard_action_ev Resume None u32_MAX False
            (guard_get_threshold g1) (length (guard_get_admins g1)) (length approvers)) g1)))"

definition guard_add_admin ::
  "env \<Rightarrow> guard \<Rightarrow> address list \<Rightarrow> address \<Rightarrow> (guard_error, guard) res" where
  "guard_add_admin E g approvers new_admin =
     rbind (guard_check_multi_sig E g approvers) (\<lambda>_.
       let as = guard_get_admins g in
       if List.member as new_admin then Inr g
       else
         let as' = as @ [new_admin]; g1 = g\<lparr>guard_admins := Some as'\<rparr> in
         Inr (emit_guard (GuardAdminAdded approvers new_admin)
           (emit_guard (guard_action_ev AdminAdded (Some new_admin) 0 False
              (guard_get_threshold g1) (length as') (length approvers)) g1)))"

text \<open>The removal loop keeps every entry different from \<open>admin\<close> and records whether one was equal.\<close>

fun remove_loop :: "address \<Rightarrow> address list \<Rightarrow> address list \<Rightarrow> bool \<Rightarrow> address list \<times> bool" where
  "remove_loop admin [] new_admins found = (new_admins, found)"
| "remove_loop admin (a # as) new_admins found =
     (if a \<noteq> admin then remove_loop admin as (new_admins @ [a]) found
      else remove_loop admin as new_admins True)"

definition guard_remove_admin ::
  "env \<Rightarrow> guard \<Rightarrow> address list \<Rightarrow> address \<Rightarrow> (guard_error, guard) res" where
  "guard_remove_admin E g approvers admin =
     rbind (guard_check_multi_sig E g approvers) (\<lambda>_.
       let as = guard_get_admins g; threshold = guard_get_threshold g in
       if length as \<le> threshold then Inl (Err InvalidThreshold)
       else case remove_loop admin as [] False of (new_admins, found) \<Rightarrow>
         if \<not> found then Inl (Err AdminNotFound)
         else Inr (emit_guard (GuardAdminRemoved approvers admin)
           (emit_guard (guard_action_ev AdminRemoved (Some admin) 0 False
              threshold (length new_admins) (length approvers))
              (g\<lparr>guard_admins := Some new_admins\<rparr>))))"

text \<open>The loop of \<open>EmergencyGuard::rotate_admin\<close>: entries are copied without repetition, the old
  admin is replaced in place.\<close>

fun rotate_loop :: "address \<Rightarrow> address \<Rightarrow> address list \<Rightarrow> address list \<Rightarrow> bool \<Rightarrow> address list \<times> bool" where
  "rotate_loop old_admin new_admin [] new_admins found = (new_admins, found)"
| "rotate_loop old_admin new_admin (a # as) new_admins found =
     (if a = old_admin
      then rotate_loop old_admin new_admin as
             (if List.member new_admins new_admin then new_admins else new_admins @ [new_admin]) True
      else rotate_loop old_admin new_admin as
             (if List.member new_admins a then new_admins else new_admins @ [a]) found)"

definition guard_rotate_admin ::
  "env \<Rightarrow> guard \<Rightarrow> address list \<Rightarrow> address \<Rightarrow> address \<Rightarrow> (guard_error, guard) res" where
  "guard_rotate_admin E g approvers old_admin new_admin =
     rbind (guard_check_multi_sig E g approvers) (\<lambda>_.
       let threshold = guard_get_threshold g; as = guard_get_admins g in
       case rotate_loop old_admin new_admin as [] False of (new_admins, found) \<Rightarrow>
         if \<not> found then Inl (Err AdminNotFound)
         else
           let new_admins' = new_admins @ [new_admin] in
           if length new_admins' < threshold then Inl (Err InvalidThreshold)
           else Inr (emit_guard (guard_action_ev AdminRotated (Some new_admin) 0 False
                  threshold (length new_admins') (length approvers))
                  (g\<lparr>guard_admins := Some new_admins'\<rparr>)))"

definition guard_validate_multi_sig :: "env \<Rightarrow> guard \<Rightarrow> address list \<Rightarrow> (guard_error, unit) res" where
  "guard_validate_multi_sig E g approvers = guard_check_multi_sig E g approvers"

section \<open>DefaultEmergencyGuard\<close>

definition dguard_check_not_paused :: "guard \<Rightarrow> u32 \<Rightarrow> (guard_error, unit) res" where
  "dguard_check_not_paused g operation =
     (if pt_is_paused (guard_mask g) operation then Inl (Err guard_error.Paused) else Inr ())"

definition dguard_get_pause_state :: "guard \<Rightarrow> u32" where
  "dguard_get_pause_state g = guard_mask g"

definition dguard_set_pause_state :: "guard \<Rightarrow> u32 \<Rightarrow> bool \<Rightarrow> (guard_error, guard) res" where
  "dguard_set_pause_state g operation paused =
     Inr (g\<lparr>pause_state := Some (pt_set_paused (guard_mask g) operation paused)\<rparr>)"

definition dguard_unpause :: "guard \<Rightarrow> u32 \<Rightarrow> (guard_error, guard) res" where
  "dguard_unpause g operation = dguard_set_pause_state g operation False"

definition dguard_unpause_all :: "guard \<Rightarrow> (guard_error, guard) res" where
  "dguard_unpause_all g = Inr (g\<lparr>pause_state := Some 0\<rparr>)"

definition dguard_emergency_pause_all :: "env \<Rightarrow> guard \<Rightarrow> address list \<Rightarrow> (guard_error, guard) res" where
  "dguard_emergency_pause_all E g approvers =
     rbind (guard_check_multi_sig E g approvers) (\<lambda>_.
     Inr (g\<lparr>pause_state := Some (pt_pause_all 0)\<rparr>))"

definition dguard_resume_all :: "env \<Rightarrow> guard \<Rightarrow> address list \<Rightarrow> (guard_error, guard) res" where
  "dguard_resume_all E g approvers =
     rbind (guard_check_multi_sig E g approvers) (\<lambda>_. Inr (g\<lparr>pause_state := Some 0\<rparr>))"

definition dguard_init_guard :: "guard \<Rightarrow> address list \<Rightarrow> nat \<Rightarrow> (guard_error, guard) res" where
  "dguard_init_guard g as threshold =
     (if guard_admins g \<noteq> None then Inl (Err guard_error.AlreadyInitialized)
      else if threshold = 0 \<or> threshold > length as then Inl (Err InvalidThreshold)
      else Inr (g\<lparr>guard_admins := Some as, sig_threshold := Some threshold, pause_state := Some 0\<rparr>))"

definition dguard_add_admin ::
  "env \<Rightarrow> guard \<Rightarrow> address list \<Rightarrow> address \<Rightarrow> (guard_error, guard) res" where
  "dguard_add_admin E g approvers new_admin =
     rbind (guard_check_multi_sig E g approvers) (\<lambda>_.
       let as = guard_get_admins g in
       Inr (if List.member as new_admin then g else g\<lparr>guard_admins := Some (as @ [new_admin])\<rparr>))"

definition dguard_remove_admin ::
  "env \<Rightarrow> guard \<Rightarrow> address list \<Rightarrow> address \<Rightarrow> (guard_error, guard) res" where
  "dguard_remove_admin E g approvers admin =
     rbind (guard_check_multi_sig E g approvers) (\<lambda>_.
       let as = guard_get_admins g; threshold = guard_get_threshold g in
       if length as \<le> threshold then Inl (Err InvalidThreshold)
       else case remove_loop admin as [] False of (new_admins, found) \<Rightarrow>
         if \<not> found then Inl (Err AdminNotFound)
         else Inr (g\<lparr>guard_admins := Some new_admins\<rparr>))"

fun drotate_loop :: "address \<Rightarrow> address \<Rightarrow> address list \<Rightarrow> address list \<Rightarrow> bool \<Rightarrow> address list \<times> bool" where
  "drotate_loop old_admin new_admin [] new_admins found = (new_admins, found)"
| "drotate_loop old_admin new_admin (a # as) new_admins found =
     (if a = old_admin then drotate_loop old_admin new_admin as new_admins True
      else if a \<noteq> new_admin then drotate_loop old_admin new_admin as (new_admins @ [a]) found
      else drotate_loop old_admin new_admin as new_admins found)"

definition dguard_rotate_admin ::
  "env \<Rightarrow> guard \<Rightarrow> address list \<Rightarrow> address \<Rightarrow> address \<Rightarrow> (guard_error, guard) res" where
  "dguard_rotate_admin E g approvers old_admin new_admin =
     rbind (guard_check_multi_sig E g approvers) (\<lambda>_.
       let as = guard_get_admins g; threshold = guard_get_threshold g in
       case drotate_loop old_admin new_admin as [] False of (new_admins, found) \<Rightarrow>
         if \<not> found then Inl (Err AdminNotFound)
         else
           let new_admins' = new_admins @ [new_admin] in
           if length new_admins' < threshold then Inl (Err InvalidThreshold)
           else Inr (g\<lparr>guard_admins := Some new_admins'\<rparr>))"

definition dguard_is_admin :: "guard \<Rightarrow> address \<Rightarrow> bool" where
  "dguard_is_admin g addr = List.member (guard_get_admins g) addr"

text \<open>The inherent methods, which shadow the trait methods of the same name.\<close>

definition dguard_unpause_by :: "env \<Rightarrow> guard \<Rightarrow> address \<Rightarrow> u32 \<Rightarrow> (guard_error, guard) res" where
  "dguard_unpause_by E g admin operation =
     rbind (require_auth E admin) (\<lambda>_.
     if \<not> guard_is_admin g admin then Inl (Err guard_error.Unauthorized)
     else dguard_set_pause_state g operation False)"

definition dguard_unpause_all_emergency :: "env \<Rightarrow> guard \<Rightarrow> address \<Rightarrow> (guard_error, guard) res" where
  "dguard_unpause_all_emergency E g admin =
     rbind (require_auth E admin) (\<lambda>_.
     if \<not> guard_is_admin g admin then Inl (Err guard_error.Unauthorized)
     else Inr (g\<lparr>pause_state := Some 0\<rparr>))"

definition dguard_is_operation_paused :: "guard \<Rightarrow> u32 \<Rightarrow> bool" where
  "dguard_is_operation_paused g operation = pt_is_paused (guard_mask g) operation"

definition dguard_pause :: "guard \<Rightarrow> u32 \<Rightarrow> (guard_error, guard) res" where
  "dguard_pause g operation = dguard_set_pause_state g operation True"

section \<open>The multi-signature check\<close>

lemma guard_is_admin_iff [simp]: "guard_is_admin g a \<longleftrightarrow> a \<in> set (guard_get_admins g)"
  by (simp add: guard_is_admin_def)

lemma multi_sig_loop_iff:
  "multi_sig_loop E g ap seen v = Inr n \<longleftrightarrow>
     set ap - set seen \<subseteq> set (guard_get_admins g) \<inter> set (auths E) \<and> n = v + card (set ap - set seen)"
proof (induction ap arbitrary: seen v)
  case Nil
  then show ?case by auto
next
  case (Cons a ap)
  show ?case
  proof (cases "a \<in> set seen")
    case True
    then have "set (a # ap) - set seen = set ap - set seen" by auto
    with True Cons.IH show ?thesis by simp
  next
    case False
    then have eq: "set (a # ap) - set seen = insert a (set ap - set (seen @ [a]))" by auto
    have "card (set (a # ap) - set seen) = Suc (card (set ap - set (seen @ [a])))"
      unfolding eq by (rule card_insert_disjoint) auto
    with False Cons.IH [of "seen @ [a]" "v + 1"] show ?thesis by (auto simp: eq)
  qed
qed

text \<open>
  C3. The multi-signature check accepts a list of approvers exactly when a threshold is stored, every
  listed approver is an admin and has authorised the call, and the number of distinct approvers
  reaches the threshold: repeating an approver never counts twice.
\<close>

theorem guard_check_multi_sig_iff:
  "guard_check_multi_sig E g ap = Inr () \<longleftrightarrow>
     (\<exists>t. sig_threshold g = Some t \<and> set ap \<subseteq> set (guard_get_admins g) \<and> set ap \<subseteq> set (auths E)
        \<and> t \<le> card (set ap))"
proof -
  have "card (set ap) \<le> length ap" by (rule card_length)
  then show ?thesis
    by (auto simp: guard_check_multi_sig_def multi_sig_loop_iff not_less)
qed

section \<open>Effects on the bitmask\<close>

lemma bit_pt_set_paused:
  "bit (pt_set_paused m operation paused) n \<longleftrightarrow> (if bit operation n then paused \<and> n < 32 else bit m n)"
  by (auto simp: pt_set_paused_def bit_or_iff bit_and_iff bit_not_iff bit_imp_le_length
      dest: bit_imp_le_length [where 'a = 32, simplified])

lemma guard_emit_simps [simp]:
  "pause_state (emit_guard ev g) = pause_state g" "guard_admins (emit_guard ev g) = guard_admins g"
  "sig_threshold (emit_guard ev g) = sig_threshold g"
  "guard_mask (emit_guard ev g) = guard_mask g"
  "guard_get_admins (emit_guard ev g) = guard_get_admins g"
  "guard_events (emit_guard ev g) = guard_events g @ [ev]"
  by (simp_all add: emit_guard_def guard_mask_def guard_get_admins_def)

lemma guard_upd_simps [simp]:
  "guard_mask (g\<lparr>pause_state := Some m\<rparr>) = m"
  "guard_mask (g\<lparr>guard_admins := v\<rparr>) = guard_mask g"
  "guard_mask (g\<lparr>sig_threshold := t\<rparr>) = guard_mask g"
  "guard_get_admins (g\<lparr>guard_admins := Some as\<rparr>) = as"
  "guard_get_admins (g\<lparr>pause_state := p\<rparr>) = guard_get_admins g"
  "guard_get_admins (g\<lparr>sig_threshold := t\<rparr>) = guard_get_admins g"
  by (simp_all add: guard_mask_def guard_get_admins_def)

lemma guard_set_pause_Inr:
  "guard_set_pause E g a operation p = Inr g' \<Longrightarrow>
     a \<in> set (auths E) \<and> a \<in> set (guard_get_admins g)
     \<and> guard_mask g' = pt_set_paused (guard_mask g) operation p
     \<and> guard_admins g' = guard_admins g \<and> sig_threshold g' = sig_threshold g"
  by (auto simp: guard_set_pause_def Let_def split: if_splits)

section \<open>The guard as a transition system\<close>

datatype guard_op =
    OpInitialize "address list" nat
  | OpSetPause address u32 bool
  | OpEmergencyPause "address list"
  | OpResume "address list"
  | OpAddAdmin "address list" address
  | OpRemoveAdmin "address list" address
  | OpRotateAdmin "address list" address address

fun guard_exec :: "env \<Rightarrow> guard \<Rightarrow> guard_op \<Rightarrow> (guard_error, guard) res" where
  "guard_exec E g (OpInitialize as t) = guard_initialize g as t"
| "guard_exec E g (OpSetPause a operation p) = guard_set_pause E g a operation p"
| "guard_exec E g (OpEmergencyPause ap) = guard_emergency_pause E g ap"
| "guard_exec E g (OpResume ap) = guard_resume E g ap"
| "guard_exec E g (OpAddAdmin ap a) = guard_add_admin E g ap a"
| "guard_exec E g (OpRemoveAdmin ap a) = guard_remove_admin E g ap a"
| "guard_exec E g (OpRotateAdmin ap a b) = guard_rotate_admin E g ap a b"

definition guard_step :: "env \<Rightarrow> guard \<Rightarrow> guard_op \<Rightarrow> (guard_error, guard \<times> unit) res" where
  "guard_step E g c = rbind (guard_exec E g c) (\<lambda>g'. Inr (g', ()))"

text \<open>A quorum of distinct admins that authorised the call.\<close>

definition quorum :: "env \<Rightarrow> guard \<Rightarrow> address list \<Rightarrow> bool" where
  "quorum E g ap \<longleftrightarrow> set ap \<subseteq> set (guard_get_admins g) \<inter> set (auths E)
     \<and> guard_get_threshold g \<le> card (set ap)"

lemma guard_check_multi_sig_quorum:
  "guard_check_multi_sig E g ap = Inr u \<Longrightarrow> quorum E g ap \<and> sig_threshold g \<noteq> None"
  by (auto simp: guard_check_multi_sig_iff quorum_def guard_get_threshold_def)

lemma remove_loop_eq:
  "remove_loop admin as acc found = (acc @ filter (\<lambda>a. a \<noteq> admin) as, found \<or> admin \<in> set as)"
  by (induction as arbitrary: acc found) auto

lemma drotate_loop_eq:
  "drotate_loop old new as acc found =
     (acc @ filter (\<lambda>a. a \<noteq> old \<and> a \<noteq> new) as, found \<or> old \<in> set as)"
  by (induction as arbitrary: acc found) auto

lemma rotate_loop_props:
  assumes "rotate_loop old new as acc found = (r, f)"
  shows "set r = set acc \<union> (set as - {old}) \<union> (if old \<in> set as then {new} else {})
    \<and> (distinct acc \<longrightarrow> distinct r) \<and> (f \<longleftrightarrow> found \<or> old \<in> set as)"
  using assms
proof (induction as arbitrary: acc found)
  case Nil
  then show ?case by auto
next
  case (Cons a as)
  show ?case
  proof (cases "a = old")
    case True
    with Cons.prems have "rotate_loop old new as
        (if List.member acc new then acc else acc @ [new]) True = (r, f)" by simp
    from Cons.IH [OF this] True show ?thesis by auto
  next
    case False
    with Cons.prems have "rotate_loop old new as
        (if List.member acc a then acc else acc @ [a]) found = (r, f)" by simp
    from Cons.IH [OF this] False show ?thesis by auto
  qed
qed

text \<open>The admin list and the threshold are stored together, and a stored threshold is positive.\<close>

definition guard_inv :: "guard \<Rightarrow> bool" where
  "guard_inv g \<longleftrightarrow> (guard_admins g = None \<longleftrightarrow> sig_threshold g = None) \<and> sig_threshold g \<noteq> Some 0"

lemma guard_exec_cases:
  assumes "guard_exec E g c = Inr g'"
  obtains
    (init) as t where "c = OpInitialize as t" "guard_admins g = None" "guard_admins g' = Some as"
      "sig_threshold g' = Some t" "0 < t" "t \<le> length as" "guard_mask g' = 0"
  | (single) a operation p where "c = OpSetPause a operation p" "a \<in> set (guard_get_admins g)"
      "a \<in> set (auths E)" "guard_mask g' = pt_set_paused (guard_mask g) operation p"
      "guard_admins g' = guard_admins g" "sig_threshold g' = sig_threshold g"
  | (multi) ap where "quorum E g ap" "sig_threshold g \<noteq> None" "sig_threshold g' = sig_threshold g"
      "guard_admins g' = None \<longrightarrow> guard_admins g = None"
proof (cases c)
  case (OpInitialize as t)
  with assms have "guard_admins g = None" "guard_admins g' = Some as" "sig_threshold g' = Some t"
    "0 < t" "t \<le> length as" "guard_mask g' = 0"
    by (auto simp: guard_initialize_def split: if_splits)
  with OpInitialize show thesis by (rule init)
next
  case (OpSetPause a operation p)
  with assms guard_set_pause_Inr [of E g a operation p g'] show thesis by (auto intro: single)
next
  case (OpEmergencyPause ap)
  with assms have "guard_check_multi_sig E g ap = Inr ()" "sig_threshold g' = sig_threshold g"
    "guard_admins g' = guard_admins g"
    by (auto simp: guard_emergency_pause_def Let_def)
  with guard_check_multi_sig_quorum [of E g ap "()"] show thesis by (intro multi) auto
next
  case (OpResume ap)
  with assms have "guard_check_multi_sig E g ap = Inr ()" "sig_threshold g' = sig_threshold g"
    "guard_admins g' = guard_admins g"
    by (auto simp: guard_resume_def Let_def)
  with guard_check_multi_sig_quorum [of E g ap "()"] show thesis by (intro multi) auto
next
  case (OpAddAdmin ap a)
  with assms have "guard_check_multi_sig E g ap = Inr ()" "sig_threshold g' = sig_threshold g"
    "guard_admins g' = None \<longrightarrow> guard_admins g = None"
    by (auto simp: guard_add_admin_def Let_def split: if_splits)
  with guard_check_multi_sig_quorum [of E g ap "()"] show thesis by (intro multi) auto
next
  case (OpRemoveAdmin ap a)
  with assms have "guard_check_multi_sig E g ap = Inr ()" "sig_threshold g' = sig_threshold g"
    "guard_admins g' = None \<longrightarrow> guard_admins g = None"
    by (auto simp: guard_remove_admin_def Let_def split: if_splits prod.splits)
  with guard_check_multi_sig_quorum [of E g ap "()"] show thesis by (intro multi) auto
next
  case (OpRotateAdmin ap a b)
  with assms have "guard_check_multi_sig E g ap = Inr ()" "sig_threshold g' = sig_threshold g"
    "guard_admins g' = None \<longrightarrow> guard_admins g = None"
    by (auto simp: guard_rotate_admin_def Let_def split: if_splits prod.splits)
  with guard_check_multi_sig_quorum [of E g ap "()"] show thesis by (intro multi) auto
qed

interpretation guard_machine: contract_machine guard_step "\<lambda>_ _. True" guard_inv
proof
  fix E s c s' v
  assume inv: "guard_inv s" and "guard_step E s c = Inr (s', v)"
  then have "guard_exec E s c = Inr s'" by (simp add: guard_step_def)
  then show "guard_inv s'"
    by (cases rule: guard_exec_cases) (use inv in \<open>auto simp: guard_inv_def\<close>)
qed

text \<open>
  In every guard reached from an empty one, once it is initialised, a call that changes the pause
  bitmask carries the authorisation of an admin, and a call that changes the admin list carries the
  authorisations of a quorum of distinct admins, of positive size.
\<close>

theorem guard_changes_need_authority:
  assumes "g = run_calls guard_step cs empty_guard" and "guard_admins g \<noteq> None"
    and "guard_exec E g c = Inr g'"
  shows "(guard_mask g' \<noteq> guard_mask g \<longrightarrow> (\<exists>a. a \<in> set (guard_get_admins g) \<and> a \<in> set (auths E)))
    \<and> (guard_get_admins g' \<noteq> guard_get_admins g \<longrightarrow> 0 < guard_get_threshold g \<and> (\<exists>ap. quorum E g ap))"
proof -
  have "guard_inv empty_guard" by (simp add: guard_inv_def empty_guard_def)
  then have "guard_inv g" unfolding assms(1) by (rule guard_machine.run_inv) simp
  with assms(2) have pos: "0 < guard_get_threshold g"
    by (auto simp: guard_inv_def guard_get_threshold_def)
  from assms(3) show ?thesis
  proof (cases rule: guard_exec_cases)
    case (init as t)
    with assms(2) show ?thesis by simp
  next
    case (single a operation p)
    then show ?thesis by (auto simp: guard_get_admins_def)
  next
    case (multi ap)
    with pos obtain a where "a \<in> set ap" by (cases ap) (auto simp: quorum_def)
    with multi pos show ?thesis by (auto simp: quorum_def)
  qed
qed

theorem guard_changes_need_authority_witness:
  "\<exists>g g'. g = run_calls guard_step [(env0 [], OpInitialize [11, 12] 2)] empty_guard
     \<and> guard_exec (env0 [11, 12]) g (OpAddAdmin [12, 11] 13) = Inr g'
     \<and> guard_get_admins g' = [11, 12, 13] \<and> (\<exists>ap. quorum (env0 [11, 12]) g ap)"
proof -
  let ?g = "run_calls guard_step [(env0 [], OpInitialize [11, 12] 2)] empty_guard"
  have "(case guard_exec (env0 [11, 12]) ?g (OpAddAdmin [12, 11] 13) of
      Inl e \<Rightarrow> False | Inr g' \<Rightarrow> guard_get_admins g' = [11, 12, 13])" by code_simp
  then obtain g' where run: "guard_exec (env0 [11, 12]) ?g (OpAddAdmin [12, 11] 13) = Inr g'"
    and adm: "guard_get_admins g' = [11, 12, 13]" by (auto split: sum.splits)
  have "guard_admins ?g = Some [11, 12]" by code_simp
  with guard_changes_need_authority [OF refl _ run] run adm show ?thesis by (auto simp: guard_get_admins_def)
qed

text \<open>A guard whose quorum can still be reached: distinct admins, at least as many as the threshold.\<close>

definition guard_live :: "guard \<Rightarrow> bool" where
  "guard_live g \<longleftrightarrow> (\<exists>as t. guard_admins g = Some as \<and> sig_threshold g = Some t
     \<and> distinct as \<and> 0 < t \<and> t \<le> length as)"

datatype dguard_op =
    DSetPauseState u32 bool
  | DUnpause u32
  | DUnpauseAll
  | DEmergencyPauseAll "address list"
  | DResumeAll "address list"
  | DInitGuard "address list" nat
  | DAddAdmin "address list" address
  | DRemoveAdmin "address list" address
  | DRotateAdmin "address list" address address
  | DUnpauseBy address u32
  | DUnpauseAllEmergency address
  | DPause u32

fun dguard_exec :: "env \<Rightarrow> guard \<Rightarrow> dguard_op \<Rightarrow> (guard_error, guard) res" where
  "dguard_exec E g (DSetPauseState operation p) = dguard_set_pause_state g operation p"
| "dguard_exec E g (DUnpause operation) = dguard_unpause g operation"
| "dguard_exec E g DUnpauseAll = dguard_unpause_all g"
| "dguard_exec E g (DEmergencyPauseAll ap) = dguard_emergency_pause_all E g ap"
| "dguard_exec E g (DResumeAll ap) = dguard_resume_all E g ap"
| "dguard_exec E g (DInitGuard as t) = dguard_init_guard g as t"
| "dguard_exec E g (DAddAdmin ap a) = dguard_add_admin E g ap a"
| "dguard_exec E g (DRemoveAdmin ap a) = dguard_remove_admin E g ap a"
| "dguard_exec E g (DRotateAdmin ap a b) = dguard_rotate_admin E g ap a b"
| "dguard_exec E g (DUnpauseBy a operation) = dguard_unpause_by E g a operation"
| "dguard_exec E g (DUnpauseAllEmergency a) = dguard_unpause_all_emergency E g a"
| "dguard_exec E g (DPause operation) = dguard_pause g operation"

definition dguard_step :: "env \<Rightarrow> guard \<Rightarrow> dguard_op \<Rightarrow> (guard_error, guard \<times> unit) res" where
  "dguard_step E g c = rbind (dguard_exec E g c) (\<lambda>g'. Inr (g', ()))"

lemmas dguard_defs = dguard_set_pause_state_def dguard_unpause_def dguard_unpause_all_def
  dguard_emergency_pause_all_def dguard_resume_all_def dguard_unpause_by_def
  dguard_unpause_all_emergency_def dguard_pause_def

lemma guard_live_get: "guard_live g \<Longrightarrow> guard_admins g = Some (guard_get_admins g)
    \<and> sig_threshold g = Some (guard_get_threshold g) \<and> distinct (guard_get_admins g)
    \<and> 0 < guard_get_threshold g \<and> guard_get_threshold g \<le> length (guard_get_admins g)"
  by (auto simp: guard_live_def guard_get_admins_def guard_get_threshold_def)

lemma distinct_remove_length:
  assumes "distinct as"
  shows "length as \<le> Suc (length (filter (\<lambda>x. x \<noteq> a) as))"
proof -
  have "filter (\<lambda>x. x \<noteq> a) as = remove1 a as"
    using assms by (simp add: distinct_remove1_removeAll removeAll_filter_not_eq eq_commute)
  then show ?thesis by (simp add: length_remove1) arith
qed

lemma guard_live_pause_upd: "guard_live (g\<lparr>pause_state := p\<rparr>) = guard_live g"
  by (simp add: guard_live_def)

lemma dguard_exec_live:
  assumes "guard_live g" "dguard_exec E g c = Inr g'"
  shows "guard_live g'"
proof (cases c)
  case (DInitGuard as t)
  with assms show ?thesis by (auto simp: dguard_init_guard_def guard_live_def split: if_splits)
next
  case (DAddAdmin ap a)
  with assms guard_live_get [OF assms(1)] show ?thesis
    by (auto simp: dguard_add_admin_def guard_live_def Let_def split: if_splits)
next
  case (DRemoveAdmin ap a)
  with assms guard_live_get [OF assms(1)] distinct_remove_length [of "guard_get_admins g" a]
  show ?thesis
    by (auto simp: dguard_remove_admin_def guard_live_def Let_def remove_loop_eq split: if_splits)
next
  case (DRotateAdmin ap a b)
  with assms guard_live_get [OF assms(1)] show ?thesis
    by (auto simp: dguard_rotate_admin_def guard_live_def Let_def drotate_loop_eq split: if_splits)
qed (use assms in \<open>auto simp: dguard_defs guard_live_pause_upd split: if_splits\<close>)

interpretation dguard_machine: contract_machine dguard_step "\<lambda>_ _. True" guard_live
  by unfold_locales (auto simp: dguard_step_def intro: dguard_exec_live)

text \<open>
  A guard initialised with distinct admins never loses its quorum: after any sequence of calls of
  \<open>DefaultEmergencyGuard\<close>, in any environments, the current admins together pass the multi-signature check.
\<close>

theorem dguard_quorum_survives:
  assumes "dguard_init_guard empty_guard as t = Inr g0" "distinct as"
    and "g = run_calls dguard_step cs g0"
  shows "guard_check_multi_sig (E\<lparr>auths := guard_get_admins g\<rparr>) g (guard_get_admins g) = Inr ()"
proof -
  have "guard_live g0"
    using assms(1,2) by (auto simp: dguard_init_guard_def guard_live_def split: if_splits)
  then have "guard_live g" unfolding assms(3) by (rule dguard_machine.run_inv) simp
  from guard_live_get [OF this] show ?thesis
    by (auto simp: guard_check_multi_sig_iff distinct_card)
qed

definition guard0 :: "address list \<Rightarrow> nat \<Rightarrow> guard" where
  "guard0 as t = \<lparr>pause_state = Some 0, guard_admins = Some as, sig_threshold = Some t, guard_events = []\<rparr>"

theorem dguard_quorum_survives_witness:
  "\<exists>g. g = run_calls dguard_step [(env0 [11, 12], DRotateAdmin [11, 12] 12 13)] (guard0 [11, 12] 2)
     \<and> guard_get_admins g = [11, 13]
     \<and> guard_check_multi_sig (env0 [11, 13]) g [11, 13] = Inr ()"
proof -
  let ?g = "run_calls dguard_step [(env0 [11, 12], DRotateAdmin [11, 12] 12 13)] (guard0 [11, 12] 2)"
  have init: "dguard_init_guard empty_guard [11, 12] 2 = Inr (guard0 [11, 12] 2)"
    by (simp add: dguard_init_guard_def empty_guard_def guard0_def)
  have adm: "guard_get_admins ?g = [11, 13]" by code_simp
  have "guard_check_multi_sig (env0 []\<lparr>auths := guard_get_admins ?g\<rparr>) ?g (guard_get_admins ?g) = Inr ()"
    by (rule dguard_quorum_survives [OF init _ refl]) simp
  with adm show ?thesis by (simp add: env0_def)
qed

text \<open>
  \<open>EmergencyGuard::rotate_admin\<close> appends the new admin after its loop has already placed it, so a
  successful rotation always leaves a repeated entry: the admin set is the intended one, the admin
  list is longer than the set.
\<close>

theorem guard_rotate_admin_repeats:
  assumes "guard_rotate_admin E g ap old new = Inr g'"
  shows "set (guard_get_admins g') = insert new (set (guard_get_admins g) - {old})
    \<and> card (set (guard_get_admins g')) < length (guard_get_admins g')"
proof -
  obtain r f where loop: "rotate_loop old new (guard_get_admins g) [] False = (r, f)"
    by fastforce
  from rotate_loop_props [OF this] assms loop
  have old: "old \<in> set (guard_get_admins g)" and g': "guard_get_admins g' = r @ [new]"
    and r: "set r = set (guard_get_admins g) - {old} \<union> {new}"
    by (auto simp: guard_rotate_admin_def Let_def split: if_splits)
  have "card (set (r @ [new])) = card (set r)" using r by (simp add: insert_absorb)
  also have "\<dots> \<le> length r" by (rule card_length)
  finally show ?thesis using g' r by auto
qed

theorem guard_rotate_admin_repeats_witness:
  "\<exists>g'. guard_rotate_admin (env0 [11]) (guard0 [11] 1) [11] 11 12 = Inr g'
     \<and> guard_get_admins g' = [12, 12] \<and> card (set (guard_get_admins g')) < length (guard_get_admins g')"
proof -
  have "\<exists>g'. guard_rotate_admin (env0 [11]) (guard0 [11] 1) [11] 11 12 = Inr g' \<and> guard_get_admins g' = [12, 12]"
    by (simp add: guard_rotate_admin_def Let_def env0_def guard0_def guard_check_multi_sig_def
        guard_get_admins_def guard_get_threshold_def require_auth_def guard_is_admin_def emit_guard_def)
  then obtain g' where "guard_rotate_admin (env0 [11]) (guard0 [11] 1) [11] 11 12 = Inr g'"
    "guard_get_admins g' = [12, 12]" by blast
  with guard_rotate_admin_repeats [OF this(1)] show ?thesis by blast
qed

text \<open>
  Because the list is longer than the set, the length check of \<open>remove_admin\<close> no longer protects
  the threshold: from a one-admin guard, rotating the admin and then removing it succeeds and leaves
  a guard that no set of approvers can ever operate again.
\<close>

theorem guard_rotate_then_remove_bricks:
  "\<exists>g. g = run_calls guard_step [(env0 [11], OpRotateAdmin [11] 11 12), (env0 [12], OpRemoveAdmin [12] 12)]
        (guard0 [11] 1)
     \<and> guard_get_admins g = [] \<and> (\<forall>E ap. guard_check_multi_sig E g ap \<noteq> Inr ())"
proof -
  let ?g = "run_calls guard_step [(env0 [11], OpRotateAdmin [11] 11 12), (env0 [12], OpRemoveAdmin [12] 12)]
        (guard0 [11] 1)"
  have "guard_get_admins ?g = []" "sig_threshold ?g = Some 1" by code_simp+
  then have "\<forall>E ap. guard_check_multi_sig E ?g ap \<noteq> Inr ()" by (auto simp: guard_check_multi_sig_iff)
  with \<open>guard_get_admins ?g = []\<close> show ?thesis by blast
qed

end
