(* ===== verification/TokenInterface.thy ===== *)
theory TokenInterface
  imports Prelude
begin

text \<open>
  The interface through which contracts use a fungible token (\<open>soroban_sdk::token::Client\<close>): which token
  contract answers a call is decided at run time, so the client contracts take the transfer function
  as a parameter. \<open>xfer E t from to n w\<close> is \<open>Client::new(t).transfer(from, to, n)\<close> made by the contract
  \<open>this_contract E\<close> in the token world \<open>w\<close>; \<open>None\<close> means the token contract trapped.
  The laws are what the clients rely on; the token contract of this repository provides them
  (\<open>Token\<close>).
\<close>

type_synonym 'w token_xfer = "env \<Rightarrow> address \<Rightarrow> address \<Rightarrow> address \<Rightarrow> int \<Rightarrow> 'w \<Rightarrow> 'w option"

text \<open>A cross-contract call: a trap of the callee traps the caller.\<close>

definition call :: "'a option \<Rightarrow> ('e, 'a) res" where
  "call v = (case v of None \<Rightarrow> Inl (Panic CallFailed) | Some x \<Rightarrow> Inr x)"

lemma call_Inr_iff [simp]: "call v = Inr x \<longleftrightarrow> v = Some x"
  by (auto simp: call_def split: option.splits)

lemma call_simps [simp]: "call None = Inl (Panic CallFailed)" "call (Some x) = Inr x"
  by (simp_all add: call_def)

text \<open>What one transfer of \<open>n\<close> from \<open>f\<close> to \<open>to\<close> adds to the balance of \<open>a\<close>.\<close>

definition delta :: "address \<Rightarrow> address \<Rightarrow> int \<Rightarrow> address \<Rightarrow> int" where
  "delta f to n a = (if a = to then n else 0) - (if a = f then n else 0)"

locale token_ledger =
  fixes xfer :: "'w token_xfer"
    and bal :: "address \<Rightarrow> address \<Rightarrow> 'w \<Rightarrow> int"
  assumes xfer_bal: "overflow_checks E \<Longrightarrow> xfer E t f to n w = Some w' \<Longrightarrow>
        bal t' a w' = bal t' a w + (if t' = t then delta f to n a else 0)"
    and xfer_funds: "xfer E t f to n w = Some w' \<Longrightarrow> n \<le> bal t f w"
    and xfer_auth: "xfer E t f to n w = Some w' \<Longrightarrow> f = this_contract E \<or> f \<in> set (auths E)"
begin

lemma xfer_in:
  "overflow_checks E \<Longrightarrow> xfer E t f p n w = Some w' \<Longrightarrow> f \<noteq> p \<Longrightarrow> bal t p w' = bal t p w + n"
  by (simp add: xfer_bal delta_def)

lemma xfer_out:
  "overflow_checks E \<Longrightarrow> xfer E t p to n w = Some w' \<Longrightarrow> p \<noteq> to \<Longrightarrow> bal t p w' = bal t p w - n"
  by (simp add: xfer_bal delta_def)

lemma xfer_self: "overflow_checks E \<Longrightarrow> xfer E t p p n w = Some w' \<Longrightarrow> bal t a w' = bal t a w"
  by (simp add: xfer_bal delta_def)

lemma xfer_other_token:
  "overflow_checks E \<Longrightarrow> xfer E t f to n w = Some w' \<Longrightarrow> t' \<noteq> t \<Longrightarrow> bal t' a w' = bal t' a w"
  by (simp add: xfer_bal)

lemma xfer_other_holder:
  "overflow_checks E \<Longrightarrow> xfer E t f to n w = Some w' \<Longrightarrow> a \<noteq> f \<Longrightarrow> a \<noteq> to \<Longrightarrow> bal t' a w' = bal t' a w"
  by (simp add: xfer_bal delta_def)

text \<open>A third party never pays: an address that neither makes nor authorises the call is not debited
  by a transfer of a non-negative amount.\<close>

lemma xfer_protects:
  assumes "overflow_checks E" "xfer E t f to n w = Some w'" "0 \<le> n"
    and "a \<noteq> this_contract E" "a \<notin> set (auths E)"
  shows "bal t' a w \<le> bal t' a w'"
  using xfer_auth [OF assms(2)] assms by (auto simp: xfer_bal delta_def)

end

end
