(* ===== verification/Token.thy ===== *)
theory Token
  imports EmergencyGuard TokenInterface
begin

text \<open>
  The fungible token contract: \<open>contract.rs\<close> of \<open>soroscope/contracts/token\<close> (the copy in
  \<open>contracts/token\<close> is two versions pasted into each other and has no \<open>transfer\<close>), with the storage
  helpers \<open>balance.rs\<close>, \<open>allowance.rs\<close>, \<open>admin.rs\<close>, \<open>metadata.rs\<close> of \<open>contracts/token\<close>, embedding
  the guard of \<open>EmergencyGuard\<close>. The lemmas give the effect of every operation on the balances, show
  that only \<open>mint\<close> and the burns change the sum of all balances, and provide the token interface of
  \<open>TokenInterface\<close>. Time-to-live extension of storage entries is not modelled.
\<close>

section \<open>Data and storage\<close>

record allowance_value =
  al_amount :: int
  al_expiration_ledger :: int

record token_metadata =
  md_name :: string
  md_symbol :: string
  md_decimals :: nat

datatype burn_event = BurnEvent address address int

record token =
  tk_balances :: "address \<rightharpoonup> int"
  tk_allowances :: "address \<times> address \<rightharpoonup> allowance_value"
  tk_admin :: "address option"
  tk_metadata :: "token_metadata option"
  tk_guard :: guard
  tk_events :: "burn_event list"

definition empty_token :: token where
  "empty_token = \<lparr>tk_balances = Map.empty, tk_allowances = Map.empty, tk_admin = None,
     tk_metadata = None, tk_guard = empty_guard, tk_events = []\<rparr>"

type_synonym 'a tk_res = "(unit, 'a) res"

definition read_balance :: "token \<Rightarrow> address \<Rightarrow> int" where
  "read_balance s a = get_or (tk_balances s) a 0"

definition write_balance :: "token \<Rightarrow> address \<Rightarrow> int \<Rightarrow> token" where
  "write_balance s a n = s\<lparr>tk_balances := (tk_balances s)(a \<mapsto> n)\<rparr>"

definition receive_balance :: "env \<Rightarrow> token \<Rightarrow> address \<Rightarrow> int \<Rightarrow> token tk_res" where
  "receive_balance E s a amount =
     rbind (fit E I128 (read_balance s a + amount)) (\<lambda>n. Inr (write_balance s a n))"

definition spend_balance :: "env \<Rightarrow> token \<Rightarrow> address \<Rightarrow> int \<Rightarrow> token tk_res" where
  "spend_balance E s a amount =
     (if read_balance s a < amount then Inl (Panic (Message ''insufficient balance''))
      else rbind (fit E I128 (read_balance s a - amount)) (\<lambda>n. Inr (write_balance s a n)))"

definition read_allowance :: "token \<Rightarrow> address \<Rightarrow> address \<Rightarrow> allowance_value" where
  "read_allowance s from spender = (case tk_allowances s (from, spender) of
     Some a \<Rightarrow> a | None \<Rightarrow> \<lparr>al_amount = 0, al_expiration_ledger = 0\<rparr>)"

definition write_allowance :: "token \<Rightarrow> address \<Rightarrow> address \<Rightarrow> int \<Rightarrow> int \<Rightarrow> token" where
  "write_allowance s from spender amount expiration_ledger =
     (if amount > 0
      then s\<lparr>tk_allowances := (tk_allowances s)((from, spender) \<mapsto>
              \<lparr>al_amount = amount, al_expiration_ledger = expiration_ledger\<rparr>)\<rparr>
      else s\<lparr>tk_allowances := (tk_allowances s)((from, spender) := None)\<rparr>)"

definition spend_allowance :: "env \<Rightarrow> token \<Rightarrow> address \<Rightarrow> address \<Rightarrow> int \<Rightarrow> token tk_res" where
  "spend_allowance E s from spender amount =
     (let a = read_allowance s from spender in
      if al_amount a < amount then Inl (Panic (Message ''insufficient allowance''))
      else if al_expiration_ledger a < ledger_seq E then Inl (Panic (Message ''allowance expired''))
      else rbind (fit E I128 (al_amount a - amount)) (\<lambda>n.
           Inr (write_allowance s from spender n (al_expiration_ledger a))))"

definition has_administrator :: "token \<Rightarrow> bool" where
  "has_administrator s \<longleftrightarrow> tk_admin s \<noteq> None"

definition read_administrator :: "token \<Rightarrow> address tk_res" where
  "read_administrator s = unwrap (tk_admin s)"

definition write_administrator :: "token \<Rightarrow> address \<Rightarrow> token" where
  "write_administrator s a = s\<lparr>tk_admin := Some a\<rparr>"

definition load_metadata :: "token \<Rightarrow> token_metadata tk_res" where
  "load_metadata s = unwrap (tk_metadata s)"

definition write_metadata :: "token \<Rightarrow> string \<Rightarrow> string \<Rightarrow> nat \<Rightarrow> token" where
  "write_metadata s n sy d = s\<lparr>tk_metadata := Some \<lparr>md_name = n, md_symbol = sy, md_decimals = d\<rparr>\<rparr>"

section \<open>Contract operations\<close>

definition token_ensure_not_paused :: "token \<Rightarrow> u32 \<Rightarrow> unit tk_res" where
  "token_ensure_not_paused s operation =
     (if guard_is_paused (tk_guard s) operation then Inl (Panic (Message ''operation paused'')) else Inr ())"

text \<open>A guard operation run on the embedded guard, its error turned into a trap by \<open>expect\<close>.\<close>

definition token_on_guard :: "string \<Rightarrow> token \<Rightarrow> (guard_error, guard) res \<Rightarrow> token tk_res" where
  "token_on_guard msg s r = rbind (expect msg r) (\<lambda>g. Inr (s\<lparr>tk_guard := g\<rparr>))"

definition token_initialize :: "token \<Rightarrow> address \<Rightarrow> nat \<Rightarrow> string \<Rightarrow> string \<Rightarrow> token tk_res" where
  "token_initialize s admin decimal name symbol =
     (if has_administrator s then Inl (Panic (Message ''already initialized''))
      else
        let s1 = write_administrator s admin; s2 = write_metadata s1 name symbol decimal in
        token_on_guard ''failed to initialize emergency guard'' s2 (guard_initialize (tk_guard s2) [admin] 1))"

definition token_mint :: "env \<Rightarrow> token \<Rightarrow> address \<Rightarrow> int \<Rightarrow> token tk_res" where
  "token_mint E s to amount =
     rbind (token_ensure_not_paused s MINT) (\<lambda>_.
     rbind (read_administrator s) (\<lambda>admin.
     rbind (require_auth E admin) (\<lambda>_.
     receive_balance E s to amount)))"

definition token_set_admin :: "env \<Rightarrow> token \<Rightarrow> address \<Rightarrow> token tk_res" where
  "token_set_admin E s new_admin =
     rbind (read_administrator s) (\<lambda>admin.
     rbind (require_auth E admin) (\<lambda>_.
     rbind (token_on_guard ''failed to rotate admin via EmergencyGuard'' s
             (guard_rotate_admin E (tk_guard s) [admin] admin new_admin)) (\<lambda>s1.
     Inr (write_administrator s1 new_admin))))"

definition token_allowance :: "token \<Rightarrow> address \<Rightarrow> address \<Rightarrow> int" where
  "token_allowance s from spender = al_amount (read_allowance s from spender)"

definition token_approve :: "env \<Rightarrow> token \<Rightarrow> address \<Rightarrow> address \<Rightarrow> int \<Rightarrow> int \<Rightarrow> token tk_res" where
  "token_approve E s from spender amount expiration_ledger =
     rbind (token_ensure_not_paused s TRANSFER) (\<lambda>_.
     rbind (require_auth E from) (\<lambda>_.
     Inr (write_allowance s from spender amount expiration_ledger)))"

definition token_balance :: "token \<Rightarrow> address \<Rightarrow> int" where
  "token_balance s a = read_balance s a"

definition token_transfer :: "env \<Rightarrow> token \<Rightarrow> address \<Rightarrow> address \<Rightarrow> int \<Rightarrow> token tk_res" where
  "token_transfer E s from to amount =
     rbind (token_ensure_not_paused s TRANSFER) (\<lambda>_.
     rbind (require_auth E from) (\<lambda>_.
     rbind (spend_balance E s from amount) (\<lambda>s1.
     receive_balance E s1 to amount)))"

definition token_transfer_from :: "env \<Rightarrow> token \<Rightarrow> address \<Rightarrow> address \<Rightarrow> address \<Rightarrow> int \<Rightarrow> token tk_res" where
  "token_transfer_from E s spender from to amount =
     rbind (token_ensure_not_paused s TRANSFER) (\<lambda>_.
     rbind (require_auth E spender) (\<lambda>_.
     rbind (spend_allowance E s from spender amount) (\<lambda>s1.
     rbind (spend_balance E s1 from amount) (\<lambda>s2.
     receive_balance E s2 to amount))))"

definition emit_burn :: "burn_event \<Rightarrow> token \<Rightarrow> token" where
  "emit_burn ev s = s\<lparr>tk_events := tk_events s @ [ev]\<rparr>"

definition token_burn :: "env \<Rightarrow> token \<Rightarrow> address \<Rightarrow> int \<Rightarrow> token tk_res" where
  "token_burn E s from amount =
     rbind (token_ensure_not_paused s BURN) (\<lambda>_.
     rbind (require_auth E from) (\<lambda>_.
     rbind (spend_balance E s from amount) (\<lambda>s1.
     Inr (emit_burn (BurnEvent from from amount) s1))))"

definition token_burn_from :: "env \<Rightarrow> token \<Rightarrow> address \<Rightarrow> address \<Rightarrow> int \<Rightarrow> token tk_res" where
  "token_burn_from E s spender from amount =
     rbind (token_ensure_not_paused s BURN) (\<lambda>_.
     rbind (require_auth E spender) (\<lambda>_.
     rbind (spend_allowance E s from spender amount) (\<lambda>s1.
     rbind (spend_balance E s1 from amount) (\<lambda>s2.
     Inr (emit_burn (BurnEvent spender from amount) s2)))))"

definition token_decimals :: "token \<Rightarrow> nat tk_res" where
  "token_decimals s = rbind (load_metadata s) (\<lambda>m. Inr (md_decimals m))"

definition token_name :: "token \<Rightarrow> string tk_res" where
  "token_name s = rbind (load_metadata s) (\<lambda>m. Inr (md_name m))"

definition token_symbol :: "token \<Rightarrow> string tk_res" where
  "token_symbol s = rbind (load_metadata s) (\<lambda>m. Inr (md_symbol m))"

definition token_guard_pause :: "env \<Rightarrow> token \<Rightarrow> address \<Rightarrow> u32 \<Rightarrow> bool \<Rightarrow> (guard_error, token) res" where
  "token_guard_pause E s admin operation paused =
     rbind (guard_set_pause E (tk_guard s) admin operation paused) (\<lambda>g. Inr (s\<lparr>tk_guard := g\<rparr>))"

definition token_guard_unpause :: "env \<Rightarrow> token \<Rightarrow> address list \<Rightarrow> (guard_error, token) res" where
  "token_guard_unpause E s approvers =
     rbind (guard_resume E (tk_guard s) approvers) (\<lambda>g. Inr (s\<lparr>tk_guard := g\<rparr>))"

definition token_pause_minting :: "env \<Rightarrow> token \<Rightarrow> address \<Rightarrow> token tk_res" where
  "token_pause_minting E s admin = token_on_guard ''unauthorized: caller is not a guard admin'' s
     (guard_set_pause E (tk_guard s) admin MINT True)"

definition token_resume_minting :: "env \<Rightarrow> token \<Rightarrow> address \<Rightarrow> token tk_res" where
  "token_resume_minting E s admin = token_on_guard ''unauthorized'' s
     (guard_set_pause E (tk_guard s) admin MINT False)"

definition token_pause_transfers :: "env \<Rightarrow> token \<Rightarrow> address \<Rightarrow> token tk_res" where
  "token_pause_transfers E s admin = token_on_guard ''unauthorized: caller is not a guard admin'' s
     (guard_set_pause E (tk_guard s) admin TRANSFER True)"

definition token_resume_transfers :: "env \<Rightarrow> token \<Rightarrow> address \<Rightarrow> token tk_res" where
  "token_resume_transfers E s admin = token_on_guard ''unauthorized'' s
     (guard_set_pause E (tk_guard s) admin TRANSFER False)"

definition token_pause_burning :: "env \<Rightarrow> token \<Rightarrow> address \<Rightarrow> token tk_res" where
  "token_pause_burning E s admin = token_on_guard ''unauthorized: caller is not a guard admin'' s
     (guard_set_pause E (tk_guard s) admin BURN True)"

definition token_resume_burning :: "env \<Rightarrow> token \<Rightarrow> address \<Rightarrow> token tk_res" where
  "token_resume_burning E s admin = token_on_guard ''unauthorized'' s
     (guard_set_pause E (tk_guard s) admin BURN False)"

definition token_emergency_pause_all :: "env \<Rightarrow> token \<Rightarrow> address list \<Rightarrow> token tk_res" where
  "token_emergency_pause_all E s approvers = token_on_guard ''unauthorized or insufficient approvals'' s
     (guard_emergency_pause E (tk_guard s) approvers)"

definition token_resume_all :: "env \<Rightarrow> token \<Rightarrow> address list \<Rightarrow> token tk_res" where
  "token_resume_all E s approvers = token_on_guard ''unauthorized or insufficient approvals'' s
     (guard_resume E (tk_guard s) approvers)"

section \<open>Effects on the balances\<close>

lemma write_balance_simps [simp]:
  "tk_balances (write_balance s a n) = (tk_balances s)(a \<mapsto> n)"
  "tk_guard (write_balance s a n) = tk_guard s" "tk_admin (write_balance s a n) = tk_admin s"
  "tk_allowances (write_balance s a n) = tk_allowances s"
  by (simp_all add: write_balance_def)

lemma token_frame_simps [simp]:
  "tk_balances (write_allowance s f sp n x) = tk_balances s"
  "tk_guard (write_allowance s f sp n x) = tk_guard s"
  "tk_balances (write_administrator s a) = tk_balances s"
  "tk_balances (write_metadata s nm sy d) = tk_balances s"
  "tk_balances (emit_burn ev s) = tk_balances s"
  by (simp_all add: write_allowance_def write_administrator_def write_metadata_def emit_burn_def)

lemma receive_balance_Inr [simp]:
  "overflow_checks E \<Longrightarrow> receive_balance E s a n = Inr s' \<longleftrightarrow>
     s' = write_balance s a (read_balance s a + n) \<and> in_range I128 (read_balance s a + n)"
  by (auto simp: receive_balance_def)

lemma spend_balance_Inr [simp]:
  "overflow_checks E \<Longrightarrow> spend_balance E s a n = Inr s' \<longleftrightarrow>
     s' = write_balance s a (read_balance s a - n) \<and> n \<le> read_balance s a
     \<and> in_range I128 (read_balance s a - n)"
  by (auto simp: spend_balance_def)

lemma spend_balance_funds: "spend_balance E s a n = Inr s' \<Longrightarrow> n \<le> read_balance s a"
  by (auto simp: spend_balance_def split: if_splits)

lemma spend_allowance_Inr [simp]:
  "overflow_checks E \<Longrightarrow> spend_allowance E s f sp n = Inr s' \<longleftrightarrow>
     s' = write_allowance s f sp (al_amount (read_allowance s f sp) - n) (al_expiration_ledger (read_allowance s f sp))
     \<and> n \<le> al_amount (read_allowance s f sp) \<and> ledger_seq E \<le> al_expiration_ledger (read_allowance s f sp)
     \<and> in_range I128 (al_amount (read_allowance s f sp) - n)"
  by (auto simp: spend_allowance_def Let_def)

lemma token_ensure_Inr [simp]:
  "token_ensure_not_paused s operation = Inr u \<longleftrightarrow> \<not> guard_is_paused (tk_guard s) operation"
  by (auto simp: token_ensure_not_paused_def)

lemma read_write_balance [simp]:
  "read_balance (write_balance s a n) b = (if b = a then n else read_balance s b)"
  by (simp add: read_balance_def get_or_upd)

lemma read_balance_frame [simp]:
  "read_balance (write_allowance s f sp n x) b = read_balance s b"
  "read_balance (emit_burn ev s) b = read_balance s b"
  by (simp_all add: read_balance_def)

lemma token_transfer_Inr:
  assumes "overflow_checks E" "token_transfer E s from to n = Inr s'"
  shows "from \<in> set (auths E) \<and> \<not> guard_is_paused (tk_guard s) TRANSFER \<and> n \<le> read_balance s from
    \<and> s' = write_balance (write_balance s from (read_balance s from - n)) to
             (read_balance (write_balance s from (read_balance s from - n)) to + n)"
  using assms by (auto simp: token_transfer_def)

lemma token_transfer_delta:
  "overflow_checks E \<Longrightarrow> token_transfer E s from to n = Inr s' \<Longrightarrow>
     read_balance s' a = read_balance s a + delta from to n a"
  by (drule (1) token_transfer_Inr) (auto simp: delta_def)

section \<open>The token as a transition system\<close>

datatype token_op =
    TInitialize address nat string string
  | TMint address int
  | TSetAdmin address
  | TApprove address address int int
  | TTransfer address address int
  | TTransferFrom address address address int
  | TBurn address int
  | TBurnFrom address address int
  | TGuardPause address u32 bool
  | TGuardUnpause "address list"
  | TEmergencyPauseAll "address list"
  | TResumeAll "address list"

fun token_exec :: "env \<Rightarrow> token \<Rightarrow> token_op \<Rightarrow> (guard_error, token) res" where
  "token_exec E s (TInitialize a d n sy) = expect [] (token_initialize s a d n sy)"
| "token_exec E s (TMint to n) = expect [] (token_mint E s to n)"
| "token_exec E s (TSetAdmin a) = expect [] (token_set_admin E s a)"
| "token_exec E s (TApprove f sp n x) = expect [] (token_approve E s f sp n x)"
| "token_exec E s (TTransfer f to n) = expect [] (token_transfer E s f to n)"
| "token_exec E s (TTransferFrom sp f to n) = expect [] (token_transfer_from E s sp f to n)"
| "token_exec E s (TBurn f n) = expect [] (token_burn E s f n)"
| "token_exec E s (TBurnFrom sp f n) = expect [] (token_burn_from E s sp f n)"
| "token_exec E s (TGuardPause a operation p) = token_guard_pause E s a operation p"
| "token_exec E s (TGuardUnpause ap) = token_guard_unpause E s ap"
| "token_exec E s (TEmergencyPauseAll ap) = expect [] (token_emergency_pause_all E s ap)"
| "token_exec E s (TResumeAll ap) = expect [] (token_resume_all E s ap)"

text \<open>What a call adds to the sum of all balances, and the amount it moves.\<close>

fun supply_change :: "token_op \<Rightarrow> int" where
  "supply_change (TMint to n) = n"
| "supply_change (TBurn f n) = - n"
| "supply_change (TBurnFrom sp f n) = - n"
| "supply_change _ = 0"

fun moved_amount :: "token_op \<Rightarrow> int" where
  "moved_amount (TMint to n) = n"
| "moved_amount (TTransfer f to n) = n"
| "moved_amount (TTransferFrom sp f to n) = n"
| "moved_amount (TBurn f n) = n"
| "moved_amount (TBurnFrom sp f n) = n"
| "moved_amount _ = 0"

lemma token_on_guard_balances: "token_on_guard m s r = Inr s' \<Longrightarrow> tk_balances s' = tk_balances s"
  by (auto simp: token_on_guard_def)

lemmas token_op_defs = token_initialize_def token_mint_def token_set_admin_def token_approve_def
  token_transfer_def token_transfer_from_def token_burn_def token_burn_from_def
  token_guard_pause_def token_guard_unpause_def token_emergency_pause_all_def token_resume_all_def

lemma token_exec_supply:
  assumes "overflow_checks E" "finite (dom (tk_balances s))" "token_exec E s c = Inr s'"
  shows "finite (dom (tk_balances s')) \<and> map_sum (tk_balances s') = map_sum (tk_balances s) + supply_change c"
  using assms
  by (cases c) (auto simp: token_op_defs Let_def read_balance_def split: if_splits
      dest!: token_on_guard_balances)

definition token_step :: "env \<Rightarrow> token \<Rightarrow> token_op \<Rightarrow> (guard_error, token \<times> unit) res" where
  "token_step E s c = rbind (token_exec E s c) (\<lambda>s'. Inr (s', ()))"

text \<open>What the completed calls of a sequence minted minus what they burned.\<close>

fun net_minted :: "(env \<times> token_op) list \<Rightarrow> token \<Rightarrow> int" where
  "net_minted [] s = 0"
| "net_minted (c # cs) s = (case token_exec (fst c) s (snd c) of
     Inl e \<Rightarrow> net_minted cs s | Inr s' \<Rightarrow> supply_change (snd c) + net_minted cs s')"

lemma net_minted_run:
  assumes "finite (dom (tk_balances s))" "\<forall>c \<in> set cs. overflow_checks (fst c)"
  shows "map_sum (tk_balances (run_calls token_step cs s)) = map_sum (tk_balances s) + net_minted cs s"
  using assms
proof (induction cs arbitrary: s)
  case Nil
  then show ?case by simp
next
  case (Cons c cs)
  show ?case
  proof (cases "token_exec (fst c) s (snd c)")
    case (Inl e)
    with Cons show ?thesis by (simp add: apply_call_def token_step_def)
  next
    case (Inr s')
    with Cons.prems token_exec_supply [of "fst c" s "snd c" s'] Cons.IH [of s'] show ?thesis
      by (simp add: apply_call_def token_step_def)
  qed
qed


definition token_demo :: "(env \<times> token_op) list" where
  "token_demo = [(env0 [], TInitialize 11 7 ''n'' ''s''), (env0 [11], TMint 21 500),
     (env0 [21], TTransfer 21 22 200), (env0 [22], TBurn 22 50), (env0 [22], TBurn 22 900)]"

lemma token_demo_net: "net_minted token_demo empty_token = 450"
  by code_simp


section \<open>Who can be debited\<close>



text \<open>
  No operation rejects a negative amount: a holder can transfer a negative amount to any other
  address, which debits that address in full without its authorisation and credits the caller.
\<close>

theorem token_negative_transfer_steals:
  assumes "overflow_checks E" "\<not> guard_is_paused (tk_guard s) TRANSFER"
    and "thief \<in> set (auths E)" "victim \<notin> set (auths E)" "victim \<noteq> thief"
    and "0 \<le> read_balance s thief" "0 < read_balance s victim"
    and "in_range I128 (read_balance s thief + read_balance s victim)"
  shows "\<exists>s'. token_transfer E s thief victim (- read_balance s victim) = Inr s'
     \<and> read_balance s' victim = 0
     \<and> read_balance s' thief = read_balance s thief + read_balance s victim"
  using assms by (simp add: token_transfer_def in_range_def)

theorem token_negative_transfer_steals_witness:
  "\<exists>s'. token_transfer (env0 [66]) (empty_token\<lparr>tk_balances := [21 \<mapsto> 70]\<rparr>) 66 21 (- 70) = Inr s'
     \<and> read_balance s' 21 = 0 \<and> read_balance s' 66 = 70"
proof -
  let ?s = "empty_token\<lparr>tk_balances := [21 \<mapsto> 70]\<rparr>"
  have bal: "read_balance ?s 21 = 70" "read_balance ?s 66 = 0" by (simp_all add: read_balance_def)
  have unp: "\<not> guard_is_paused (tk_guard ?s) TRANSFER"
    by (simp add: empty_token_def guard_is_paused_def guard_mask_def empty_guard_def)
  from token_negative_transfer_steals [of "env0 [66]" ?s 66 21] bal unp show ?thesis
    by (simp add: env0_def in_range_def)
qed

section \<open>The token world\<close>

text \<open>
  Token contracts by address. A call runs in the callee's environment: the calling contract counts as
  having authorised (the host authorises the direct invoker), the ledger is the same.
\<close>

type_synonym tokens = "address \<rightharpoonup> token"

definition callee_env :: "env \<Rightarrow> address \<Rightarrow> env" where
  "callee_env E t = E\<lparr>this_contract := t, auths := this_contract E # auths E\<rparr>"

definition client_transfer :: "tokens token_xfer" where
  "client_transfer E t from to n w = (case w t of None \<Rightarrow> None
     | Some s \<Rightarrow> (case token_transfer (callee_env E t) s from to n of
         Inl e \<Rightarrow> None | Inr s' \<Rightarrow> Some (w(t \<mapsto> s'))))"

definition client_balance :: "address \<Rightarrow> address \<Rightarrow> tokens \<Rightarrow> int" where
  "client_balance t a w = (case w t of None \<Rightarrow> 0 | Some s \<Rightarrow> token_balance s a)"

lemma callee_env_simps [simp]:
  "auths (callee_env E t) = this_contract E # auths E"
  "overflow_checks (callee_env E t) = overflow_checks E"
  by (simp_all add: callee_env_def)

lemma client_transfer_Some:
  "client_transfer E t from to n w = Some w' \<longleftrightarrow>
     (\<exists>s s'. w t = Some s \<and> token_transfer (callee_env E t) s from to n = Inr s' \<and> w' = w(t \<mapsto> s'))"
  by (auto simp: client_transfer_def split: option.splits sum.splits)

interpretation token_world: token_ledger client_transfer client_balance
proof
  fix E t f to n w w' t' a
  assume "overflow_checks E" "client_transfer E t f to n w = Some w'"
  then show "client_balance t' a w' = client_balance t' a w + (if t' = t then delta f to n a else 0)"
    by (auto simp: client_transfer_Some client_balance_def token_balance_def
        token_transfer_delta [of "callee_env E t"])
next
  fix E t f to n w w'
  assume "client_transfer E t f to n w = Some w'"
  then show "n \<le> client_balance t f w"
    by (auto simp: client_transfer_Some client_balance_def token_balance_def token_transfer_def
        dest: spend_balance_funds)
next
  fix E t f to n w w'
  assume "client_transfer E t f to n w = Some w'"
  then show "f = this_contract E \<or> f \<in> set (auths E)"
    by (auto simp: client_transfer_Some token_transfer_def)
qed

end
