(* ===== verification/LiquidityPool.thy ===== *)
theory LiquidityPool
  imports EmergencyGuard TokenInterface
begin

text \<open>
  The constant-product pool (\<open>contracts/liquidity_pool/src/lib.rs\<close>): its storage, every entry point,
  and the arithmetic the swaps rest on. The token contracts of the pair are the parameter \<open>xfer\<close> (see
  \<open>TokenInterface\<close>), the price oracle is the parameter \<open>price\<close>, and \<open>claim_bit\<close> stands for
  \<open>PauseType::CLAIM_REWARDS\<close>, which the pool uses and the guard crate does not define.
  Properties of these definitions are in \<open>PoolMath\<close> and \<open>PoolProperties\<close>.
\<close>

section \<open>Data\<close>

datatype pool_error = AlreadyInitialized | NotInitialized | Unauthorized | InsufficientBalance
  | InsufficientLiquidity | InsufficientShares | InsufficientAllowance | SlippageExceeded | InvalidFee
  | OracleNotConfigured | InvalidOraclePrice | TimelockNotElapsed | NoPendingFeeUpdate | Paused
  | InvalidAmount

datatype pool_event =
    DepositEvent address int int int
  | SwapEvent address address address int int
  | WithdrawEvent address int int int
  | LpBurnEvent address int
  | StakeEvent address int
  | UnstakeEvent address int
  | ClaimRewardsEvent address int
  | FeeChangedEvent address int int
  | FeeUpdateScheduledEvent address int int int int
  | LpDepositFeeEvent address int
  | LpWithdrawFeeEvent address int int
  | JitPenaltyEvent address int int

definition MAX_FEE_BPS :: int where "MAX_FEE_BPS = 100"
definition DEFAULT_BASE_FEE_BPS :: int where "DEFAULT_BASE_FEE_BPS = 30"
definition DEFAULT_LP_FEE_BPS :: int where "DEFAULT_LP_FEE_BPS = 5"
definition MAX_LP_FEE_BPS :: int where "MAX_LP_FEE_BPS = 100"
definition MIN_HOLDING_PERIOD :: int where "MIN_HOLDING_PERIOD = 10"
definition EARLY_WITHDRAWAL_PENALTY_BPS :: int where "EARLY_WITHDRAWAL_PENALTY_BPS = 100"
definition LOW_VOLATILITY_THRESHOLD_BPS :: int where "LOW_VOLATILITY_THRESHOLD_BPS = 100"
definition MEDIUM_VOLATILITY_THRESHOLD_BPS :: int where "MEDIUM_VOLATILITY_THRESHOLD_BPS = 250"
definition HIGH_VOLATILITY_THRESHOLD_BPS :: int where "HIGH_VOLATILITY_THRESHOLD_BPS = 500"
definition LOW_VOLATILITY_FEE_BPS :: int where "LOW_VOLATILITY_FEE_BPS = 40"
definition MEDIUM_VOLATILITY_FEE_BPS :: int where "MEDIUM_VOLATILITY_FEE_BPS = 70"
definition HIGH_VOLATILITY_FEE_BPS :: int where "HIGH_VOLATILITY_FEE_BPS = 100"
definition REWARDS_PER_LEDGER :: int where "REWARDS_PER_LEDGER = 10000000"
definition REWARD_PRECISION :: int where "REWARD_PRECISION = 1000000000000"

lemmas pool_consts = MAX_FEE_BPS_def DEFAULT_BASE_FEE_BPS_def DEFAULT_LP_FEE_BPS_def MAX_LP_FEE_BPS_def
  MIN_HOLDING_PERIOD_def EARLY_WITHDRAWAL_PENALTY_BPS_def LOW_VOLATILITY_THRESHOLD_BPS_def
  MEDIUM_VOLATILITY_THRESHOLD_BPS_def HIGH_VOLATILITY_THRESHOLD_BPS_def LOW_VOLATILITY_FEE_BPS_def
  MEDIUM_VOLATILITY_FEE_BPS_def HIGH_VOLATILITY_FEE_BPS_def

record pool_state =
  token_a :: address
  token_b :: address
  reserve_a :: int
  reserve_b :: int
  total_shares :: int
  fee_bps :: int
  base_fee_bps :: int
  pool_admin :: address

record oracle_config =
  oc_oracle :: address
  oc_last_price :: int
  oc_last_volatility_bps :: int
  oc_timelock_ledgers :: int

record pending_fee_update =
  pf_new_fee_bps :: int
  pf_executable_after_ledger :: int
  pf_based_on_volatility_bps :: int

record lp_allowance_value =
  lpa_amount :: int
  lpa_expiration_ledger :: int

text \<open>One field per \<open>DataKey\<close>, the embedded guard, and the events published so far.\<close>

record lp =
  lp_pool :: "pool_state option"
  lp_admin :: "address option"
  lp_balances :: "address \<rightharpoonup> int"
  lp_allowances :: "address \<times> address \<rightharpoonup> lp_allowance_value"
  lp_oracle :: "oracle_config option"
  lp_pending_fee :: "pending_fee_update option"
  lp_staked :: "address \<rightharpoonup> int"
  lp_total_staked :: "int option"
  lp_user_rewards :: "address \<rightharpoonup> int"
  lp_last_reward_ledger :: "int option"
  lp_acc_reward :: "int option"
  lp_fee_bps_entry :: "int option"
  lp_deposit_ledger :: "address \<rightharpoonup> int"
  lp_guard :: guard
  lp_events :: "pool_event list"

definition empty_lp :: lp where
  "empty_lp = \<lparr>lp_pool = None, lp_admin = None, lp_balances = Map.empty, lp_allowances = Map.empty,
     lp_oracle = None, lp_pending_fee = None, lp_staked = Map.empty, lp_total_staked = None,
     lp_user_rewards = Map.empty, lp_last_reward_ledger = None, lp_acc_reward = None,
     lp_fee_bps_entry = None, lp_deposit_ledger = Map.empty, lp_guard = empty_guard, lp_events = []\<rparr>"

type_synonym 'a lp_res = "(pool_error, 'a) res"

definition opt_or :: "'a option \<Rightarrow> 'a \<Rightarrow> 'a" where
  "opt_or v d = (case v of None \<Rightarrow> d | Some x \<Rightarrow> x)"

definition emit_lp :: "pool_event \<Rightarrow> lp \<Rightarrow> lp" where
  "emit_lp ev s = s\<lparr>lp_events := lp_events s @ [ev]\<rparr>"

section \<open>Helpers\<close>

text \<open>
  \<open>sqrt\<close>: Newton's iteration. The last test of the guard holds of every \<open>i128\<close>; it is there because the
  loop's variables are mathematical integers here.
\<close>

function sqrt_loop :: "env \<Rightarrow> int \<Rightarrow> int \<Rightarrow> int \<Rightarrow> int lp_res" where
  "sqrt_loop E x z y =
     (if z < y \<and> ity_min I128 \<le> z
      then (case rbind (quot I128 x z) (\<lambda>q. rbind (fit E I128 (q + z)) (\<lambda>d. quot I128 d 2)) of
              Inl e \<Rightarrow> Inl e
            | Inr z' \<Rightarrow> sqrt_loop E x z' z)
      else Inr y)"
  by pat_completeness auto
termination
  by (relation "measure (\<lambda>(E, x, z, y). nat (y - ity_min I128))") auto

declare sqrt_loop.simps [simp del]

definition sqrt_i128 :: "env \<Rightarrow> int \<Rightarrow> int lp_res" where
  "sqrt_i128 E x =
     (if x = 0 then Inr 0
      else rbind (fit E I128 (x + 1)) (\<lambda>d. rbind (quot I128 d 2) (\<lambda>z. sqrt_loop E x z x)))"

definition load_pool :: "lp \<Rightarrow> pool_state lp_res" where
  "load_pool s = ok_or NotInitialized (lp_pool s)"

definition save_pool :: "lp \<Rightarrow> pool_state \<Rightarrow> lp" where
  "save_pool s p = s\<lparr>lp_pool := Some p\<rparr>"

definition load_admin :: "lp \<Rightarrow> address lp_res" where
  "load_admin s = ok_or NotInitialized (lp_admin s)"

fun map_guard_err :: "guard_error \<Rightarrow> pool_error" where
  "map_guard_err guard_error.Paused = Paused"
| "map_guard_err guard_error.NotInitialized = NotInitialized"
| "map_guard_err guard_error.Unauthorized = Unauthorized"
| "map_guard_err InsufficientSignatures = Unauthorized"
| "map_guard_err AdminNotFound = Unauthorized"
| "map_guard_err InvalidThreshold = Unauthorized"
| "map_guard_err guard_error.AlreadyInitialized = AlreadyInitialized"

definition lp_require_not_paused :: "lp \<Rightarrow> u32 \<Rightarrow> unit lp_res" where
  "lp_require_not_paused s operation =
     (if guard_is_paused (lp_guard s) operation then Inl (Err Paused) else Inr ())"

fun as_unauthorized :: "guard_error \<Rightarrow> guard_error" where
  "as_unauthorized AdminNotFound = guard_error.Unauthorized"
| "as_unauthorized InvalidThreshold = guard_error.Unauthorized"
| "as_unauthorized other = other"

record swap_sides =
  sd_reserve_in :: int
  sd_reserve_out :: int
  sd_token_in :: address
  sd_token_out :: address

definition mk_swap_sides :: "pool_state \<Rightarrow> bool \<Rightarrow> swap_sides" where
  "mk_swap_sides p buy_a =
     (if buy_a then \<lparr>sd_reserve_in = reserve_b p, sd_reserve_out = reserve_a p,
                     sd_token_in = token_b p, sd_token_out = token_a p\<rparr>
      else \<lparr>sd_reserve_in = reserve_a p, sd_reserve_out = reserve_b p,
            sd_token_in = token_a p, sd_token_out = token_b p\<rparr>)"

definition amount_out_for_in :: "env \<Rightarrow> int \<Rightarrow> int \<Rightarrow> int \<Rightarrow> int \<Rightarrow> int lp_res" where
  "amount_out_for_in E amount_in reserve_in reserve_out fee =
     (if amount_in \<le> 0 \<or> reserve_in \<le> 0 \<or> reserve_out \<le> 0 then Inl (Err InsufficientLiquidity)
      else
        rbind (fit E I128 (10000 - fee)) (\<lambda>k.
        rbind (ok_or InsufficientLiquidity (checked I128 (amount_in * k))) (\<lambda>in_after_fee.
        rbind (ok_or InsufficientLiquidity (checked I128 (in_after_fee * reserve_out))) (\<lambda>numerator.
        rbind (ok_or InsufficientLiquidity (checked I128 (reserve_in * 10000))) (\<lambda>scaled.
        rbind (ok_or InsufficientLiquidity (checked I128 (scaled + in_after_fee))) (\<lambda>denominator.
        quot I128 numerator denominator))))))"

definition amount_in_for_out :: "env \<Rightarrow> int \<Rightarrow> int \<Rightarrow> int \<Rightarrow> int \<Rightarrow> int lp_res" where
  "amount_in_for_out E amount_out reserve_in reserve_out fee =
     (if amount_out \<le> 0 \<or> amount_out \<ge> reserve_out \<or> reserve_in \<le> 0 \<or> reserve_out \<le> 0
      then Inl (Err InsufficientLiquidity)
      else
        rbind (ok_or InsufficientLiquidity (checked I128 (reserve_in * amount_out))) (\<lambda>prod.
        rbind (ok_or InsufficientLiquidity (checked I128 (prod * 10000))) (\<lambda>numerator.
        rbind (fit E I128 (reserve_out - amount_out)) (\<lambda>left.
        rbind (fit E I128 (10000 - fee)) (\<lambda>k.
        rbind (ok_or InsufficientLiquidity (checked I128 (left * k))) (\<lambda>denominator.
        rbind (quot I128 numerator denominator) (\<lambda>quotient.
        if tmod numerator denominator = 0 then Inr quotient
        else fit E I128 (quotient + 1))))))))"

definition reassign_primary_admin_if :: "lp \<Rightarrow> address \<Rightarrow> address option \<Rightarrow> lp" where
  "reassign_primary_admin_if s departing replacement = (case replacement of
     None \<Rightarrow> s
   | Some r \<Rightarrow>
       if lp_admin s \<noteq> Some departing then s
       else
         let s1 = s\<lparr>lp_admin := Some r\<rparr> in
         (case lp_pool s1 of None \<Rightarrow> s1 | Some p \<Rightarrow> save_pool s1 (p\<lparr>pool_admin := r\<rparr>)))"

definition target_fee_from_volatility :: "int \<Rightarrow> int \<Rightarrow> int" where
  "target_fee_from_volatility base volatility_bps =
     (let dynamic = (if volatility_bps \<ge> HIGH_VOLATILITY_THRESHOLD_BPS then HIGH_VOLATILITY_FEE_BPS
                     else if volatility_bps \<ge> MEDIUM_VOLATILITY_THRESHOLD_BPS then MEDIUM_VOLATILITY_FEE_BPS
                     else if volatility_bps \<ge> LOW_VOLATILITY_THRESHOLD_BPS then LOW_VOLATILITY_FEE_BPS
                     else base)
      in if dynamic > MAX_FEE_BPS then MAX_FEE_BPS else dynamic)"

definition core_pause_ops :: "u32 \<Rightarrow> u32" where
  "core_pause_ops claim_bit = SWAP OR DEPOSIT OR WITHDRAW OR BURN OR STAKE OR claim_bit"

text \<open>A guard operation on the embedded guard, with the error mapped.\<close>

definition lp_on_guard :: "lp \<Rightarrow> (guard_error, guard) res \<Rightarrow> lp lp_res" where
  "lp_on_guard s r = rbind (map_err map_guard_err r) (\<lambda>g. Inr (s\<lparr>lp_guard := g\<rparr>))"

section \<open>Initialisation and guard interface\<close>

definition lp_initialize :: "lp \<Rightarrow> address \<Rightarrow> address \<Rightarrow> address \<Rightarrow> lp lp_res" where
  "lp_initialize s admin ta tb =
     (if lp_pool s \<noteq> None then Inl (Err AlreadyInitialized)
      else
        let s1 = save_pool (s\<lparr>lp_admin := Some admin\<rparr>)
              \<lparr>token_a = ta, token_b = tb, reserve_a = 0, reserve_b = 0, total_shares = 0,
               fee_bps = DEFAULT_BASE_FEE_BPS, base_fee_bps = DEFAULT_BASE_FEE_BPS, pool_admin = admin\<rparr>
        in lp_on_guard s1 (guard_initialize (lp_guard s1) [admin] 1))"

definition lp_get_admin :: "lp \<Rightarrow> address lp_res" where
  "lp_get_admin s = expect ''not initialized'' (load_admin s)"

definition lp_guard_pause :: "env \<Rightarrow> lp \<Rightarrow> address \<Rightarrow> u32 \<Rightarrow> bool \<Rightarrow> lp lp_res" where
  "lp_guard_pause E s admin operation paused =
     lp_on_guard s (guard_set_pause E (lp_guard s) admin operation paused)"

definition lp_set_operation_paused :: "env \<Rightarrow> lp \<Rightarrow> address \<Rightarrow> u32 \<Rightarrow> bool \<Rightarrow> lp lp_res" where
  "lp_set_operation_paused E s admin operation paused =
     lp_on_guard s (guard_set_pause E (lp_guard s) admin operation paused)"

text \<open>The entry points that act for the stored admin.\<close>

definition lp_admin_pause :: "env \<Rightarrow> lp \<Rightarrow> u32 \<Rightarrow> bool \<Rightarrow> lp lp_res" where
  "lp_admin_pause E s operation paused =
     rbind (load_admin s) (\<lambda>admin.
     lp_on_guard s (guard_set_pause E (lp_guard s) admin operation paused))"

definition lp_set_paused :: "u32 \<Rightarrow> env \<Rightarrow> lp \<Rightarrow> bool \<Rightarrow> lp lp_res" where
  "lp_set_paused claim_bit E s paused = lp_admin_pause E s (core_pause_ops claim_bit) paused"

definition lp_pause_swaps :: "env \<Rightarrow> lp \<Rightarrow> lp lp_res" where
  "lp_pause_swaps E s = lp_admin_pause E s SWAP True"

definition lp_resume_swaps :: "env \<Rightarrow> lp \<Rightarrow> lp lp_res" where
  "lp_resume_swaps E s = lp_admin_pause E s SWAP False"

definition lp_pause_deposits :: "env \<Rightarrow> lp \<Rightarrow> lp lp_res" where
  "lp_pause_deposits E s = lp_admin_pause E s DEPOSIT True"

definition lp_resume_deposits :: "env \<Rightarrow> lp \<Rightarrow> lp lp_res" where
  "lp_resume_deposits E s = lp_admin_pause E s DEPOSIT False"

definition lp_pause_withdrawals :: "env \<Rightarrow> lp \<Rightarrow> lp lp_res" where
  "lp_pause_withdrawals E s = lp_admin_pause E s WITHDRAW True"

definition lp_resume_withdrawals :: "env \<Rightarrow> lp \<Rightarrow> lp lp_res" where
  "lp_resume_withdrawals E s = lp_admin_pause E s WITHDRAW False"

definition lp_emergency_pause :: "env \<Rightarrow> lp \<Rightarrow> address list \<Rightarrow> lp lp_res" where
  "lp_emergency_pause E s approvers = lp_on_guard s (guard_emergency_pause E (lp_guard s) approvers)"

definition lp_resume :: "env \<Rightarrow> lp \<Rightarrow> address list \<Rightarrow> lp lp_res" where
  "lp_resume E s approvers = lp_on_guard s (guard_resume E (lp_guard s) approvers)"

definition lp_guard_unpause :: "env \<Rightarrow> lp \<Rightarrow> address list \<Rightarrow> lp lp_res" where
  "lp_guard_unpause E s approvers = lp_on_guard s (guard_resume E (lp_guard s) approvers)"

definition lp_add_guard_admin :: "env \<Rightarrow> lp \<Rightarrow> address list \<Rightarrow> address \<Rightarrow> lp lp_res" where
  "lp_add_guard_admin E s approvers new_admin =
     lp_on_guard s (guard_add_admin E (lp_guard s) approvers new_admin)"

definition lp_remove_guard_admin :: "env \<Rightarrow> lp \<Rightarrow> address list \<Rightarrow> address \<Rightarrow> lp lp_res" where
  "lp_remove_guard_admin E s approvers admin =
     lp_on_guard s (guard_remove_admin E (lp_guard s) approvers admin)"

section \<open>Fees\<close>

definition lp_get_fee :: "lp \<Rightarrow> int" where
  "lp_get_fee s = (case lp_pool s of None \<Rightarrow> DEFAULT_BASE_FEE_BPS | Some p \<Rightarrow> fee_bps p)"

definition lp_set_fee :: "env \<Rightarrow> lp \<Rightarrow> int \<Rightarrow> lp lp_res" where
  "lp_set_fee E s fee =
     (if \<not> (0 \<le> fee \<and> fee \<le> MAX_FEE_BPS) then Inl (Err InvalidFee)
      else
        rbind (load_admin s) (\<lambda>admin.
        rbind (require_auth E admin) (\<lambda>_.
        rbind (load_pool s) (\<lambda>p.
        Inr (emit_lp (FeeChangedEvent admin (fee_bps p) fee) (save_pool s (p\<lparr>fee_bps := fee\<rparr>)))))))"

definition lp_get_lp_fee_bps :: "lp \<Rightarrow> int" where
  "lp_get_lp_fee_bps s = opt_or (lp_fee_bps_entry s) DEFAULT_LP_FEE_BPS"

definition lp_set_lp_fee_bps :: "env \<Rightarrow> lp \<Rightarrow> int \<Rightarrow> lp lp_res" where
  "lp_set_lp_fee_bps E s fee =
     (if \<not> (0 \<le> fee \<and> fee \<le> MAX_LP_FEE_BPS) then Inl (Err InvalidFee)
      else
        rbind (load_admin s) (\<lambda>admin.
        rbind (require_auth E admin) (\<lambda>_.
        Inr (s\<lparr>lp_fee_bps_entry := Some fee\<rparr>))))"

definition lp_configure_fee_oracle :: "env \<Rightarrow> lp \<Rightarrow> address \<Rightarrow> int \<Rightarrow> int \<Rightarrow> lp lp_res" where
  "lp_configure_fee_oracle E s oracle base_fee timelock =
     (if \<not> (0 \<le> base_fee \<and> base_fee \<le> MAX_FEE_BPS) then Inl (Err InvalidFee)
      else
        rbind (load_pool s) (\<lambda>p.
        rbind (require_auth E (pool_admin p)) (\<lambda>_.
        Inr ((save_pool s (p\<lparr>base_fee_bps := base_fee\<rparr>))
             \<lparr>lp_oracle := Some \<lparr>oc_oracle = oracle, oc_last_price = 0, oc_last_volatility_bps = 0,
                                oc_timelock_ledgers = timelock\<rparr>\<rparr>))))"

definition lp_get_last_volatility_bps :: "lp \<Rightarrow> int" where
  "lp_get_last_volatility_bps s =
     (case lp_oracle s of None \<Rightarrow> 0 | Some cfg \<Rightarrow> oc_last_volatility_bps cfg)"

text \<open>\<open>price o\<close> is the answer of \<open>latest_price\<close> of the oracle contract \<open>o\<close>, \<open>None\<close> when it traps.\<close>

definition lp_sync_fee_from_oracle ::
  "(address \<Rightarrow> int option) \<Rightarrow> env \<Rightarrow> lp \<Rightarrow> (lp \<times> pending_fee_update option) lp_res" where
  "lp_sync_fee_from_oracle price E s =
     rbind (ok_or OracleNotConfigured (lp_oracle s)) (\<lambda>cfg.
     rbind (call (price (oc_oracle cfg))) (\<lambda>current_price.
     if current_price \<le> 0 then Inl (Err InvalidOraclePrice)
     else
       let previous_price = oc_last_price cfg; cfg1 = cfg\<lparr>oc_last_price := current_price\<rparr> in
       if previous_price \<le> 0
       then Inr (s\<lparr>lp_oracle := Some (cfg1\<lparr>oc_last_volatility_bps := 0\<rparr>)\<rparr>, None)
       else
         rbind (fit E I128 (if current_price \<ge> previous_price then current_price - previous_price
                            else previous_price - current_price)) (\<lambda>price_delta.
         rbind (ok_or InvalidOraclePrice (checked I128 (price_delta * 10000))) (\<lambda>scaled.
         rbind (quot I128 scaled previous_price) (\<lambda>volatility_bps.
         let s1 = s\<lparr>lp_oracle := Some (cfg1\<lparr>oc_last_volatility_bps := volatility_bps\<rparr>)\<rparr> in
         rbind (load_pool s1) (\<lambda>p.
         let target_fee = target_fee_from_volatility (base_fee_bps p) volatility_bps in
         if target_fee = fee_bps p then Inr (s1, None)
         else
           let execute_after = saturate U32 (ledger_seq E + oc_timelock_ledgers cfg);
               pending = \<lparr>pf_new_fee_bps = target_fee, pf_executable_after_ledger = execute_after,
                          pf_based_on_volatility_bps = volatility_bps\<rparr> in
           Inr (emit_lp (FeeUpdateScheduledEvent (this_contract E) (fee_bps p) target_fee
                          execute_after volatility_bps)
                  (s1\<lparr>lp_pending_fee := Some pending\<rparr>), Some pending)))))))"

definition lp_execute_fee_update :: "env \<Rightarrow> lp \<Rightarrow> (lp \<times> int) lp_res" where
  "lp_execute_fee_update E s =
     rbind (ok_or NoPendingFeeUpdate (lp_pending_fee s)) (\<lambda>pending.
     if ledger_seq E < pf_executable_after_ledger pending then Inl (Err TimelockNotElapsed)
     else if \<not> (0 \<le> pf_new_fee_bps pending \<and> pf_new_fee_bps pending \<le> MAX_FEE_BPS) then Inl (Err InvalidFee)
     else
       rbind (load_pool s) (\<lambda>p.
       Inr (emit_lp (FeeChangedEvent (pool_admin p) (fee_bps p) (pf_new_fee_bps pending))
              ((save_pool s (p\<lparr>fee_bps := pf_new_fee_bps pending\<rparr>))\<lparr>lp_pending_fee := None\<rparr>),
            pf_new_fee_bps pending)))"

section \<open>Staking\<close>

definition projected_reward_per_share :: "env \<Rightarrow> lp \<Rightarrow> int" where
  "projected_reward_per_share E s =
     (let accumulated = opt_or (lp_acc_reward s) 0 in
      case lp_last_reward_ledger s of
        None \<Rightarrow> accumulated
      | Some last_reward_ledger \<Rightarrow>
          let total_staked = opt_or (lp_total_staked s) 0 in
          if ledger_seq E \<le> last_reward_ledger \<or> total_staked \<le> 0 then accumulated
          else
            let ledgers_elapsed = ledger_seq E - last_reward_ledger;
                increment = (case Option.bind (checked I128 (ledgers_elapsed * REWARDS_PER_LEDGER))
                                 (\<lambda>new_rewards. checked I128 (new_rewards * REWARD_PRECISION)) of
                               None \<Rightarrow> 0 | Some scaled \<Rightarrow> tdiv scaled total_staked)
            in saturate I128 (accumulated + increment))"

definition update_reward_state :: "env \<Rightarrow> lp \<Rightarrow> lp" where
  "update_reward_state E s =
     (if lp_last_reward_ledger s = None then s\<lparr>lp_last_reward_ledger := Some (ledger_seq E)\<rparr>
      else s\<lparr>lp_acc_reward := Some (projected_reward_per_share E s),
             lp_last_reward_ledger := Some (ledger_seq E)\<rparr>)"

definition earned_rewards :: "env \<Rightarrow> lp \<Rightarrow> int \<Rightarrow> int" where
  "earned_rewards E s staked_amount =
     (case checked I128 (staked_amount * projected_reward_per_share E s) of
        None \<Rightarrow> 0 | Some v \<Rightarrow> tdiv v REWARD_PRECISION)"

definition calculate_pending_rewards :: "env \<Rightarrow> lp \<Rightarrow> address \<Rightarrow> int \<Rightarrow> int" where
  "calculate_pending_rewards E s user staked_amount =
     saturate I128 (earned_rewards E s staked_amount - get_or (lp_user_rewards s) user 0)"

definition lp_stake :: "env \<Rightarrow> lp \<Rightarrow> address \<Rightarrow> int \<Rightarrow> lp lp_res" where
  "lp_stake E s user amount =
     rbind (lp_require_not_paused s STAKE) (\<lambda>_.
     rbind (require_auth E user) (\<lambda>_.
     let user_balance = get_or (lp_balances s) user 0 in
     if user_balance < amount then Inl (Err InsufficientBalance)
     else
       let s1 = update_reward_state E s; current_staked = get_or (lp_staked s1) user 0 in
       rbind (fit E I128 (user_balance - amount)) (\<lambda>b.
       rbind (fit E I128 (current_staked + amount)) (\<lambda>st.
       rbind (fit E I128 (opt_or (lp_total_staked s1) 0 + amount)) (\<lambda>tot.
       Inr (emit_lp (StakeEvent user amount)
         (s1\<lparr>lp_balances := (lp_balances s1)(user \<mapsto> b), lp_staked := (lp_staked s1)(user \<mapsto> st),
             lp_total_staked := Some tot\<rparr>)))))))"

definition lp_unstake :: "env \<Rightarrow> lp \<Rightarrow> address \<Rightarrow> int \<Rightarrow> lp lp_res" where
  "lp_unstake E s user amount =
     rbind (lp_require_not_paused s STAKE) (\<lambda>_.
     rbind (require_auth E user) (\<lambda>_.
     let current_staked = get_or (lp_staked s) user 0 in
     if current_staked < amount then Inl (Err InsufficientShares)
     else
       let s1 = update_reward_state E s; user_balance = get_or (lp_balances s1) user 0 in
       rbind (fit E I128 (user_balance + amount)) (\<lambda>b.
       rbind (fit E I128 (current_staked - amount)) (\<lambda>st.
       rbind (fit E I128 (opt_or (lp_total_staked s1) 0 - amount)) (\<lambda>tot.
       Inr (emit_lp (UnstakeEvent user amount)
         (s1\<lparr>lp_balances := (lp_balances s1)(user \<mapsto> b), lp_staked := (lp_staked s1)(user \<mapsto> st),
             lp_total_staked := Some tot\<rparr>)))))))"

definition lp_claim_rewards :: "u32 \<Rightarrow> env \<Rightarrow> lp \<Rightarrow> address \<Rightarrow> (lp \<times> int) lp_res" where
  "lp_claim_rewards claim_bit E s user =
     rbind (lp_require_not_paused s claim_bit) (\<lambda>_.
     rbind (require_auth E user) (\<lambda>_.
     let s1 = update_reward_state E s;
         staked_amount = get_or (lp_staked s1) user 0;
         pending = calculate_pending_rewards E s1 user staked_amount in
     if pending \<le> 0 then Inr (s1, 0)
     else
       let new_claimed = earned_rewards E s1 staked_amount in
       Inr (emit_lp (ClaimRewardsEvent user pending)
              (s1\<lparr>lp_user_rewards := (lp_user_rewards s1)(user \<mapsto> new_claimed)\<rparr>), pending)))"

definition lp_get_staked_balance :: "lp \<Rightarrow> address \<Rightarrow> int" where
  "lp_get_staked_balance s user = get_or (lp_staked s) user 0"

definition lp_get_pending_rewards :: "env \<Rightarrow> lp \<Rightarrow> address \<Rightarrow> int" where
  "lp_get_pending_rewards E s user = calculate_pending_rewards E s user (get_or (lp_staked s) user 0)"

definition lp_get_total_staked :: "lp \<Rightarrow> int" where
  "lp_get_total_staked s = opt_or (lp_total_staked s) 0"

section \<open>Deposits, swaps, withdrawals\<close>

text \<open>The shares a deposit is worth before the liquidity-provider fee.\<close>

definition deposit_gross_shares :: "env \<Rightarrow> pool_state \<Rightarrow> int \<Rightarrow> int \<Rightarrow> int lp_res" where
  "deposit_gross_shares E p amount_a amount_b =
     (if total_shares p = 0
      then rbind (ok_or InsufficientLiquidity (checked I128 (amount_a * amount_b))) (\<lambda>product.
           sqrt_i128 E product)
      else
        rbind (ok_or InsufficientLiquidity (checked I128 (amount_a * total_shares p))) (\<lambda>na.
        rbind (quot I128 na (reserve_a p)) (\<lambda>share_a.
        rbind (ok_or InsufficientLiquidity (checked I128 (amount_b * total_shares p))) (\<lambda>nb.
        rbind (quot I128 nb (reserve_b p)) (\<lambda>share_b.
        Inr (if share_a < share_b then share_a else share_b))))))"

definition lp_deposit :: "'w token_xfer \<Rightarrow> env \<Rightarrow> lp \<times> 'w \<Rightarrow> address \<Rightarrow> int \<Rightarrow> int \<Rightarrow> ((lp \<times> 'w) \<times> int) lp_res" where
  "lp_deposit xfer E sw to amount_a amount_b =
     (let s = fst sw; w = snd sw; here = this_contract E in
     rbind (lp_require_not_paused s DEPOSIT) (\<lambda>_.
     rbind (require_auth E to) (\<lambda>_.
     if amount_a \<le> 0 \<or> amount_b \<le> 0 then Inl (Err InvalidAmount)
     else
       rbind (load_pool s) (\<lambda>p.
       rbind (call (xfer E (token_a p) to here amount_a w)) (\<lambda>w1.
       rbind (call (xfer E (token_b p) to here amount_b w1)) (\<lambda>w2.
       rbind (deposit_gross_shares E p amount_a amount_b) (\<lambda>gross_shares.
       if gross_shares \<le> 0 then Inl (Err InsufficientLiquidity)
       else
         rbind (fit E I128 (gross_shares * lp_get_lp_fee_bps s)) (\<lambda>scaled.
         rbind (quot I128 scaled 10000) (\<lambda>fee_shares.
         rbind (fit E I128 (gross_shares - fee_shares)) (\<lambda>net_shares.
         rbind (fit E I128 (get_or (lp_balances s) to 0 + net_shares)) (\<lambda>b.
         rbind (fit E I128 (total_shares p + net_shares)) (\<lambda>tot.
         rbind (fit E I128 (reserve_a p + amount_a)) (\<lambda>ra.
         rbind (fit E I128 (reserve_b p + amount_b)) (\<lambda>rb.
         let s1 = s\<lparr>lp_balances := (lp_balances s)(to \<mapsto> b),
                    lp_deposit_ledger := (lp_deposit_ledger s)(to \<mapsto> ledger_seq E)\<rparr>;
             s2 = save_pool s1 (p\<lparr>total_shares := tot, reserve_a := ra, reserve_b := rb\<rparr>);
             s3 = (if fee_shares > 0 then emit_lp (LpDepositFeeEvent to fee_shares) s2 else s2) in
         Inr ((emit_lp (DepositEvent to amount_a amount_b net_shares) s3, w2), net_shares)))))))))))))))"

definition settle_swap ::
  "'w token_xfer \<Rightarrow> env \<Rightarrow> lp \<times> 'w \<Rightarrow> address \<Rightarrow> pool_state \<Rightarrow> bool \<Rightarrow> swap_sides \<Rightarrow> int \<Rightarrow> int \<Rightarrow> (lp \<times> 'w) lp_res" where
  "settle_swap xfer E sw to p buy_a sides amount_in amount_out =
     (let s = fst sw; w = snd sw; here = this_contract E in
     rbind (call (xfer E (sd_token_in sides) to here amount_in w)) (\<lambda>w1.
     rbind (call (xfer E (sd_token_out sides) here to amount_out w1)) (\<lambda>w2.
     rbind (if buy_a
            then rbind (fit E I128 (reserve_a p - amount_out)) (\<lambda>ra.
                 rbind (fit E I128 (reserve_b p + amount_in)) (\<lambda>rb. Inr (p\<lparr>reserve_a := ra, reserve_b := rb\<rparr>)))
            else rbind (fit E I128 (reserve_a p + amount_in)) (\<lambda>ra.
                 rbind (fit E I128 (reserve_b p - amount_out)) (\<lambda>rb. Inr (p\<lparr>reserve_a := ra, reserve_b := rb\<rparr>)))) (\<lambda>p'.
     Inr (emit_lp (SwapEvent to (sd_token_in sides) (sd_token_out sides) amount_in amount_out)
            (save_pool s p'), w2)))))"

definition lp_swap :: "'w token_xfer \<Rightarrow> env \<Rightarrow> lp \<times> 'w \<Rightarrow> address \<Rightarrow> bool \<Rightarrow> int \<Rightarrow> int \<Rightarrow> ((lp \<times> 'w) \<times> int) lp_res" where
  "lp_swap xfer E sw to buy_a out in_max =
     (let s = fst sw in
     rbind (lp_require_not_paused s SWAP) (\<lambda>_.
     rbind (require_auth E to) (\<lambda>_.
     if out \<le> 0 \<or> in_max < 0 then Inl (Err InvalidAmount)
     else
       rbind (load_pool s) (\<lambda>p.
       let sides = mk_swap_sides p buy_a in
       rbind (amount_in_for_out E out (sd_reserve_in sides) (sd_reserve_out sides) (fee_bps p)) (\<lambda>amount_in.
       if amount_in > in_max then Inl (Err SlippageExceeded)
       else
         rbind (settle_swap xfer E sw to p buy_a sides amount_in out) (\<lambda>sw'.
         Inr (sw', amount_in)))))))"

definition lp_swap_exact_in ::
  "'w token_xfer \<Rightarrow> env \<Rightarrow> lp \<times> 'w \<Rightarrow> address \<Rightarrow> bool \<Rightarrow> int \<Rightarrow> int \<Rightarrow> ((lp \<times> 'w) \<times> int) lp_res" where
  "lp_swap_exact_in xfer E sw to buy_a amount_in min_amount_out =
     (let s = fst sw in
     rbind (lp_require_not_paused s SWAP) (\<lambda>_.
     if amount_in \<le> 0 \<or> min_amount_out < 0 then Inl (Err InvalidAmount)
     else
       rbind (require_auth E to) (\<lambda>_.
       rbind (load_pool s) (\<lambda>p.
       let sides = mk_swap_sides p buy_a in
       rbind (amount_out_for_in E amount_in (sd_reserve_in sides) (sd_reserve_out sides) (fee_bps p)) (\<lambda>amount_out.
       if amount_out \<le> 0 \<or> amount_out \<ge> sd_reserve_out sides then Inl (Err InsufficientLiquidity)
       else if amount_out < min_amount_out then Inl (Err SlippageExceeded)
       else
         rbind (settle_swap xfer E sw to p buy_a sides amount_in amount_out) (\<lambda>sw'.
         Inr (sw', amount_out)))))))"

definition lp_get_amount_out :: "env \<Rightarrow> lp \<Rightarrow> bool \<Rightarrow> int \<Rightarrow> int lp_res" where
  "lp_get_amount_out E s buy_a amount_in =
     (if amount_in \<le> 0 then Inl (Err InvalidAmount)
      else
        rbind (load_pool s) (\<lambda>p.
        let sides = mk_swap_sides p buy_a in
        amount_out_for_in E amount_in (sd_reserve_in sides) (sd_reserve_out sides) (fee_bps p)))"

definition lp_get_amount_in :: "env \<Rightarrow> lp \<Rightarrow> bool \<Rightarrow> int \<Rightarrow> int lp_res" where
  "lp_get_amount_in E s buy_a amount_out =
     (if amount_out \<le> 0 then Inl (Err InvalidAmount)
      else
        rbind (load_pool s) (\<lambda>p.
        let sides = mk_swap_sides p buy_a in
        amount_in_for_out E amount_out (sd_reserve_in sides) (sd_reserve_out sides) (fee_bps p)))"

definition lp_get_reserves :: "lp \<Rightarrow> (int \<times> int) lp_res" where
  "lp_get_reserves s = rbind (load_pool s) (\<lambda>p. Inr (reserve_a p, reserve_b p))"

text \<open>One side of a withdrawal: the pro-rata amount, the fee, the early-withdrawal penalty, what is left.\<close>

definition muldiv :: "env \<Rightarrow> int \<Rightarrow> int \<Rightarrow> int \<Rightarrow> ('e, int) res" where
  "muldiv E x y z = rbind (fit E I128 (x * y)) (\<lambda>n. quot I128 n z)"

definition lp_withdraw :: "'w token_xfer \<Rightarrow> env \<Rightarrow> lp \<times> 'w \<Rightarrow> address \<Rightarrow> int \<Rightarrow> ((lp \<times> 'w) \<times> (int \<times> int)) lp_res" where
  "lp_withdraw xfer E sw to share_amount =
     (let s = fst sw; w = snd sw; here = this_contract E in
     rbind (lp_require_not_paused s WITHDRAW) (\<lambda>_.
     rbind (require_auth E to) (\<lambda>_.
     if share_amount \<le> 0 then Inl (Err InvalidAmount)
     else
       rbind (load_pool s) (\<lambda>p.
       let current = get_or (lp_balances s) to 0 in
       if share_amount > current then Inl (Err InsufficientShares)
       else if total_shares p \<le> 0 then Inl (Err InsufficientLiquidity)
       else
         rbind (muldiv E share_amount (reserve_a p) (total_shares p)) (\<lambda>gross_a.
         rbind (muldiv E share_amount (reserve_b p) (total_shares p)) (\<lambda>gross_b.
         rbind (muldiv E gross_a (lp_get_lp_fee_bps s) 10000) (\<lambda>fee_a.
         rbind (muldiv E gross_b (lp_get_lp_fee_bps s) 10000) (\<lambda>fee_b.
         let deposit_ledger = get_or (lp_deposit_ledger s) to 0 in
         rbind (if deposit_ledger > 0
                then rbind (fit E U32 (deposit_ledger + MIN_HOLDING_PERIOD)) (\<lambda>until. Inr (ledger_seq E < until))
                else Inr False) (\<lambda>early.
         rbind (if early
                then rbind (muldiv E gross_a EARLY_WITHDRAWAL_PENALTY_BPS 10000) (\<lambda>pa.
                     rbind (muldiv E gross_b EARLY_WITHDRAWAL_PENALTY_BPS 10000) (\<lambda>pb. Inr (pa, pb)))
                else Inr (0, 0)) (\<lambda>(penalty_a, penalty_b).
         rbind (fit E I128 (gross_a - fee_a)) (\<lambda>ga.
         rbind (fit E I128 (ga - penalty_a)) (\<lambda>net_a.
         rbind (fit E I128 (gross_b - fee_b)) (\<lambda>gb.
         rbind (fit E I128 (gb - penalty_b)) (\<lambda>net_b.
         rbind (fit E I128 (current - share_amount)) (\<lambda>b.
         rbind (fit E I128 (total_shares p - share_amount)) (\<lambda>tot.
         rbind (fit E I128 (reserve_a p - net_a)) (\<lambda>ra.
         rbind (fit E I128 (reserve_b p - net_b)) (\<lambda>rb.
         let s1 = s\<lparr>lp_balances := (lp_balances s)(to \<mapsto> b)\<rparr>;
             s2 = save_pool s1 (p\<lparr>total_shares := tot, reserve_a := ra, reserve_b := rb\<rparr>) in
         rbind (call (xfer E (token_a p) here to net_a w)) (\<lambda>w1.
         rbind (call (xfer E (token_b p) here to net_b w1)) (\<lambda>w2.
         let s3 = (if fee_a > 0 \<or> fee_b > 0 then emit_lp (LpWithdrawFeeEvent to fee_a fee_b) s2 else s2);
             s4 = (if penalty_a > 0 \<or> penalty_b > 0 then emit_lp (JitPenaltyEvent to penalty_a penalty_b) s3 else s3) in
         Inr ((emit_lp (WithdrawEvent to share_amount net_a net_b) s4, w2), (net_a, net_b))))))))))))))))))))))"

definition lp_burn :: "env \<Rightarrow> lp \<Rightarrow> address \<Rightarrow> int \<Rightarrow> lp lp_res" where
  "lp_burn E s from amount =
     rbind (lp_require_not_paused s BURN) (\<lambda>_.
     rbind (require_auth E from) (\<lambda>_.
     rbind (load_pool s) (\<lambda>p.
     let current = get_or (lp_balances s) from 0 in
     if amount > current then Inl (Err InsufficientShares)
     else
       rbind (fit E I128 (current - amount)) (\<lambda>b.
       rbind (fit E I128 (total_shares p - amount)) (\<lambda>tot.
       Inr (emit_lp (LpBurnEvent from amount)
         (save_pool (s\<lparr>lp_balances := (lp_balances s)(from \<mapsto> b)\<rparr>) (p\<lparr>total_shares := tot\<rparr>))))))))"

section \<open>The share token\<close>

definition lp_balance :: "lp \<Rightarrow> address \<Rightarrow> int" where
  "lp_balance s a = get_or (lp_balances s) a 0"

definition lp_total_supply :: "lp \<Rightarrow> int" where
  "lp_total_supply s = (case lp_pool s of None \<Rightarrow> 0 | Some p \<Rightarrow> total_shares p)"

definition lp_transfer :: "env \<Rightarrow> lp \<Rightarrow> address \<Rightarrow> address \<Rightarrow> int \<Rightarrow> lp lp_res" where
  "lp_transfer E s from to amount =
     rbind (lp_require_not_paused s TRANSFER) (\<lambda>_.
     rbind (require_auth E from) (\<lambda>_.
     let from_balance = get_or (lp_balances s) from 0 in
     if from_balance < amount then Inl (Err InsufficientBalance)
     else
       rbind (fit E I128 (from_balance - amount)) (\<lambda>b.
       let s1 = s\<lparr>lp_balances := (lp_balances s)(from \<mapsto> b)\<rparr>; to_balance = get_or (lp_balances s1) to 0 in
       rbind (fit E I128 (to_balance + amount)) (\<lambda>b'.
       Inr (s1\<lparr>lp_balances := (lp_balances s1)(to \<mapsto> b')\<rparr>)))))"

definition lp_approve :: "env \<Rightarrow> lp \<Rightarrow> address \<Rightarrow> address \<Rightarrow> int \<Rightarrow> int \<Rightarrow> lp lp_res" where
  "lp_approve E s from spender amount expiration_ledger =
     rbind (require_auth E from) (\<lambda>_.
     Inr (s\<lparr>lp_allowances := (lp_allowances s)((from, spender) \<mapsto>
            \<lparr>lpa_amount = amount, lpa_expiration_ledger = expiration_ledger\<rparr>)\<rparr>))"

definition lp_allowance :: "env \<Rightarrow> lp \<Rightarrow> address \<Rightarrow> address \<Rightarrow> int" where
  "lp_allowance E s from spender = (case lp_allowances s (from, spender) of
     Some a \<Rightarrow> (if ledger_seq E \<le> lpa_expiration_ledger a then lpa_amount a else 0) | None \<Rightarrow> 0)"

definition lp_transfer_from :: "env \<Rightarrow> lp \<Rightarrow> address \<Rightarrow> address \<Rightarrow> address \<Rightarrow> int \<Rightarrow> lp lp_res" where
  "lp_transfer_from E s spender from to amount =
     rbind (lp_require_not_paused s TRANSFER) (\<lambda>_.
     rbind (require_auth E spender) (\<lambda>_.
     let current_allowance = lp_allowance E s from spender in
     if current_allowance < amount then Inl (Err InsufficientAllowance)
     else
       rbind (fit E I128 (current_allowance - amount)) (\<lambda>new_allowance.
       rbind (if new_allowance > 0
              then rbind (unwrap (lp_allowances s (from, spender))) (\<lambda>current_val.
                   Inr (s\<lparr>lp_allowances := (lp_allowances s)((from, spender) \<mapsto>
                     \<lparr>lpa_amount = new_allowance,
                      lpa_expiration_ledger = lpa_expiration_ledger current_val\<rparr>)\<rparr>))
              else Inr (s\<lparr>lp_allowances := (lp_allowances s)((from, spender) := None)\<rparr>)) (\<lambda>s1.
       lp_transfer E s1 from to amount))))"

section \<open>The guard trait of the pool\<close>

definition lpg_check_not_paused :: "lp \<Rightarrow> u32 \<Rightarrow> (guard_error, unit) res" where
  "lpg_check_not_paused s operation = dguard_check_not_paused (lp_guard s) operation"

definition lpg_lift :: "lp \<Rightarrow> (guard_error, guard) res \<Rightarrow> (guard_error, lp) res" where
  "lpg_lift s r = rbind r (\<lambda>g. Inr (s\<lparr>lp_guard := g\<rparr>))"

definition lpg_set_pause_state :: "lp \<Rightarrow> u32 \<Rightarrow> bool \<Rightarrow> (guard_error, lp) res" where
  "lpg_set_pause_state s operation paused = lpg_lift s (dguard_set_pause_state (lp_guard s) operation paused)"

definition lpg_unpause :: "lp \<Rightarrow> u32 \<Rightarrow> (guard_error, lp) res" where
  "lpg_unpause s operation = lpg_lift s (dguard_unpause (lp_guard s) operation)"

definition lpg_unpause_all :: "lp \<Rightarrow> (guard_error, lp) res" where
  "lpg_unpause_all s = lpg_lift s (dguard_unpause_all (lp_guard s))"

definition lpg_emergency_pause_all :: "env \<Rightarrow> lp \<Rightarrow> address list \<Rightarrow> (guard_error, lp) res" where
  "lpg_emergency_pause_all E s approvers = lpg_lift s (dguard_emergency_pause_all E (lp_guard s) approvers)"

definition lpg_resume_all :: "env \<Rightarrow> lp \<Rightarrow> address list \<Rightarrow> (guard_error, lp) res" where
  "lpg_resume_all E s approvers = lpg_lift s (dguard_resume_all E (lp_guard s) approvers)"

definition lpg_init_guard :: "lp \<Rightarrow> address list \<Rightarrow> nat \<Rightarrow> (guard_error, lp) res" where
  "lpg_init_guard s as threshold = lpg_lift s (dguard_init_guard (lp_guard s) as threshold)"

definition lpg_add_admin :: "env \<Rightarrow> lp \<Rightarrow> address list \<Rightarrow> address \<Rightarrow> (guard_error, lp) res" where
  "lpg_add_admin E s approvers new_admin = lpg_lift s (dguard_add_admin E (lp_guard s) approvers new_admin)"

definition first_admin :: "guard \<Rightarrow> address option" where
  "first_admin g = (case guard_get_admins g of [] \<Rightarrow> None | a # as \<Rightarrow> Some a)"

definition lpg_remove_admin :: "env \<Rightarrow> lp \<Rightarrow> address list \<Rightarrow> address \<Rightarrow> (guard_error, lp) res" where
  "lpg_remove_admin E s approvers admin =
     rbind (lpg_lift s (map_err as_unauthorized (dguard_remove_admin E (lp_guard s) approvers admin))) (\<lambda>s1.
     Inr (reassign_primary_admin_if s1 admin (first_admin (lp_guard s1))))"

definition lpg_rotate_admin :: "env \<Rightarrow> lp \<Rightarrow> address list \<Rightarrow> address \<Rightarrow> address \<Rightarrow> (guard_error, lp) res" where
  "lpg_rotate_admin E s approvers old_admin new_admin =
     rbind (lpg_lift s (map_err as_unauthorized
              (dguard_rotate_admin E (lp_guard s) approvers old_admin new_admin))) (\<lambda>s1.
     Inr (reassign_primary_admin_if s1 old_admin (Some new_admin)))"

end
