(* ===== verification/PoolMath.thy ===== *)
theory PoolMath
  imports LiquidityPool
begin

text \<open>
  The arithmetic of the pool: Newton's square root is the integer square root and always returns,
  both swap formulas keep the constant product from falling, and the two formulas are inverse up
  to rounding in the pool's favour.
\<close>

section \<open>Integer square root\<close>

lemma newton_above:
  assumes "0 < z" "0 \<le> (x::int)"
  shows "x < ((x div z + z) div 2 + 1)\<^sup>2"
proof -
  let ?q = "x div z" let ?m = "(?q + z) div 2"
  have "x < z * (?q + 1)"
    using less_Suc_div_mult_int [OF assms(1), of x] by (simp add: mult.commute)
  moreover have "4 * (z * (?q + 1)) \<le> (?q + 1 + z)\<^sup>2"
  proof -
    have "(?q + 1 + z)\<^sup>2 - 4 * (z * (?q + 1)) = (?q + 1 - z)\<^sup>2" by (simp add: power2_eq_square algebra_simps)
    then show ?thesis using zero_le_power2 [of "?q + 1 - z"] by linarith
  qed
  moreover have "(?q + 1 + z)\<^sup>2 \<le> (2 * (?m + 1))\<^sup>2"
  proof (rule power_mono)
    have "k + 1 \<le> 2 * (k div 2 + 1)" for k :: int by presburger
    from this [of "?q + z"] show "?q + 1 + z \<le> 2 * (?m + 1)" by (simp add: ac_simps)
    show "0 \<le> ?q + 1 + z" using assms div_nonneg_int [of x z] by simp
  qed
  moreover have "(2 * (?m + 1))\<^sup>2 = 4 * (?m + 1)\<^sup>2" by (simp add: power_mult_distrib del: distrib_left_numeral)
  ultimately have "4 * x < 4 * (?m + 1)\<^sup>2" by linarith
  then show ?thesis by simp
qed

lemma sum_quot_bound:
  assumes "1 \<le> z" "z \<le> (x::int)"
  shows "0 < x div z \<and> x div z + z \<le> x + 1"
proof -
  have q: "0 < x div z" using assms by (simp add: pos_imp_zdiv_pos_iff)
  then have "0 \<le> (z - 1) * (x div z - 1)" using assms by simp
  then have "x div z + z \<le> z * (x div z) + 1" by (simp add: algebra_simps)
  also have "z * (x div z) \<le> x" using assms div_mult_le_int [of z x] by (simp add: mult.commute)
  finally show ?thesis using q by simp
qed

lemma sqrt_loop_correct:
  assumes "0 < y" "y \<le> x" "x < (y + 1)\<^sup>2" "z = (x div y + y) div 2" "in_range I128 (x + 1)"
  shows "\<exists>r. sqrt_loop E x z y = Inr r \<and> 0 \<le> r \<and> r\<^sup>2 \<le> x \<and> x < (r + 1)\<^sup>2"
  using assms
proof (induction E x z y rule: sqrt_loop.induct)
  case (1 E x z y)
  from sum_quot_bound [of y x] "1.prems" have qy: "0 < x div y" by simp
  have "1 \<le> (k + y) div 2" if "0 < k" for k using that "1.prems"(1) by simp
  with qy have z: "1 \<le> z" using "1.prems"(4) by blast
  show ?case
  proof (cases "z < y")
    case True
    then have zx: "z \<le> x" using "1.prems" by simp
    from sum_quot_bound [OF z zx] have q: "0 < x div z" "x div z + z \<le> x + 1" by auto
    have rng: "in_range I128 n" if "0 \<le> n" "n \<le> x + 1" for n
      using that "1.prems"(5) in_range_nonneg_le by blast
    have zmin: "ity_min I128 \<le> z" using z by simp
    have step: "rbind (quot I128 x z) (\<lambda>q. rbind (fit E I128 (q + z)) (\<lambda>d. quot I128 d 2))
        = Inr ((x div z + z) div 2)"
      using q z zx rng [of "x div z"] rng [of "x div z + z"] rng [of "(x div z + z) div 2"]
      by (simp add: quot_def)
    have above: "x < (z + 1)\<^sup>2" using newton_above [of y x] "1.prems" by simp
    from "1.IH" [OF conjI [OF True zmin] step] z zx above "1.prems"(5)
    have "\<exists>r. sqrt_loop E x ((x div z + z) div 2) z = Inr r \<and> 0 \<le> r \<and> r\<^sup>2 \<le> x \<and> x < (r + 1)\<^sup>2"
      by simp
    moreover have "sqrt_loop E x z y = sqrt_loop E x ((x div z + z) div 2) z"
      by (subst sqrt_loop.simps) (simp only: step True zmin if_True sum.case simp_thms)
    ultimately show ?thesis by simp
  next
    case False
    have "2 * y \<le> k + y" if "\<not> (k + y) div 2 < y" for k using that by linarith
    with False "1.prems"(4) have "2 * y \<le> x div y + y" by blast
    then have "y * y \<le> x div y * y" using "1.prems"(1) by simp
    also have "\<dots> \<le> x" using "1.prems" by (simp add: div_mult_le_int)
    finally have "y\<^sup>2 \<le> x" by (simp add: power2_eq_square)
    with False "1.prems" show ?thesis by (subst sqrt_loop.simps) simp
  qed
qed

text \<open>
  The pool's Newton iteration always returns the integer square root: for every non-negative
  argument whose successor is an \<open>i128\<close> it yields the \<open>r\<close> with \<open>r\<^sup>2 \<le> x < (r + 1)\<^sup>2\<close>, in either build profile.
\<close>

theorem sqrt_i128_correct:
  assumes "0 \<le> x" "in_range I128 (x + 1)"
  shows "\<exists>r. sqrt_i128 E x = Inr r \<and> 0 \<le> r \<and> r\<^sup>2 \<le> x \<and> x < (r + 1)\<^sup>2"
proof (cases "x = 0")
  case True
  then show ?thesis by (simp add: sqrt_i128_def)
next
  case False
  with assms have x: "0 < x" by simp
  have half: "in_range I128 ((x + 1) div 2)" using assms by (intro in_range_nonneg_le [OF assms(2)]) auto
  have "\<exists>r. sqrt_loop E x ((x + 1) div 2) x = Inr r \<and> 0 \<le> r \<and> r\<^sup>2 \<le> x \<and> x < (r + 1)\<^sup>2"
    by (rule sqrt_loop_correct) (use x assms in \<open>auto simp: power2_eq_square algebra_simps add_pos_pos\<close>)
  with x assms half show ?thesis by (simp add: sqrt_i128_def quot_def)
qed

theorem sqrt_i128_correct_witness:
  "\<exists>r. sqrt_i128 (env0 []) 1000000 = Inr r \<and> 0 \<le> r \<and> r\<^sup>2 \<le> 1000000 \<and> 1000000 < (r + 1)\<^sup>2"
  by (rule sqrt_i128_correct) (simp_all add: in_range_def)

section \<open>Swap formulas\<close>

lemma amount_out_for_in_Inr:
  assumes "amount_out_for_in E ain rin rout fee = Inr out" "0 \<le> fee" "fee \<le> 10000"
  shows "0 < ain \<and> 0 < rin \<and> 0 < rout \<and> out = (ain * (10000 - fee) * rout) div (rin * 10000 + ain * (10000 - fee))"
proof -
  have k: "fit E I128 (10000 - fee) = (Inr (10000 - fee) :: (pool_error, int) res)"
    by (rule fit_in_range) (use assms in \<open>simp add: in_range_def\<close>)
  from assms k show ?thesis
    by (auto simp: amount_out_for_in_def not_le quot_def add_pos_nonneg zero_less_mult_iff split: if_splits)
qed

text \<open>Trading \<open>ain\<close> for \<open>out\<close> keeps the product of the reserves when \<open>out\<close> is at most the fair share.\<close>

lemma product_kept:
  assumes "out * (rin + ain) \<le> ain * (rout::int)"
  shows "rin * rout \<le> (rin + ain) * (rout - out)"
  using assms by (simp add: algebra_simps)

lemma amount_out_fair:
  fixes ain rin rout fee :: int
  assumes "0 < ain" "0 < rin" "0 < rout" "0 \<le> fee" "fee \<le> 10000"
    and out: "out = (ain * (10000 - fee) * rout) div (rin * 10000 + ain * (10000 - fee))"
  shows "0 \<le> out \<and> out \<le> rout \<and> out * (rin + ain) \<le> ain * rout"
proof -
  let ?w = "ain * (10000 - fee)" and ?d = "rin * 10000 + ain * (10000 - fee)"
  have w: "0 \<le> ?w" "?w \<le> 10000 * ain" using assms by (auto simp: mult.commute [of _ ain])
  have d: "0 < ?d" using w assms by linarith
  have "0 \<le> ?w * rout" using w assms by simp
  then have nn: "0 \<le> out" using d out by (simp add: pos_imp_zdiv_nonneg_iff)
  have le: "out * ?d \<le> ?w * rout" unfolding out using d
    by (rule div_mult_le_int)
  have "out \<le> rout"
  proof (rule ccontr)
    assume "\<not> out \<le> rout"
    then have "rout * ?d < out * ?d" using d by simp
    with le have "rout * ?d < ?w * rout" by linarith
    then have "rout * (rin * 10000) < 0" by (simp add: algebra_simps)
    with assms show False by (simp add: mult_less_0_iff)
  qed
  have "out * (rin * 10000) \<le> ?w * (rout - out)" using le by (simp add: algebra_simps)
  also have "\<dots> \<le> (10000 * ain) * (rout - out)" using w \<open>out \<le> rout\<close> by (intro mult_right_mono) auto
  finally have "10000 * (out * (rin + ain)) \<le> 10000 * (ain * rout)" by (simp add: algebra_simps)
  with nn \<open>out \<le> rout\<close> show ?thesis by simp
qed

lemma amount_in_for_out_Inr:
  assumes "overflow_checks E" "amount_in_for_out E out rin rout fee = Inr ain" "0 \<le> fee" "fee < 10000"
  shows "0 < out \<and> out < rout \<and> 0 < rin \<and> rin * out * 10000 \<le> ain * ((rout - out) * (10000 - fee))
    \<and> (ain - 1) * ((rout - out) * (10000 - fee)) < rin * out * 10000"
proof -
  define n where "n = rin * out * 10000"
  define d where "d = (rout - out) * (10000 - fee)"
  from assms have g: "0 < out" "out < rout" "0 < rin"
    by (auto simp: amount_in_for_out_def not_le split: if_splits)
  then have nd: "0 \<le> n" "0 < d" using assms by (auto simp: n_def d_def)
  from assms(1,2) g have "\<exists>q. (quot I128 n d :: int lp_res) = Inr q
      \<and> (if tmod n d = 0 then Inr q else fit E I128 (q + 1)) = (Inr ain :: int lp_res)"
    by (auto simp: amount_in_for_out_def n_def d_def split: if_splits)
  then have "ain = (if n mod d = 0 then n div d else n div d + 1)"
    using nd assms(1) by (auto simp: quot_pos_Inr split: if_splits)
  from ceil_quot_bounds [OF nd(2) this] g show ?thesis by (simp add: n_def d_def)
qed

lemma quotient_ge_iff: "0 < d \<Longrightarrow> (m::int) \<le> n div d \<longleftrightarrow> m * d \<le> n"
  using div_mult_le_int [of d n] less_Suc_div_mult_int [of d n]
  by (metis add1_zle_eq linorder_not_le mult_less_cancel_right_pos mult_le_cancel_right_pos
      order_le_less_trans order_trans zless_add1_eq zle_add1_eq_le)

lemma out_reached_iff:
  fixes x rin rout fee out :: int
  assumes "0 < x" "0 < rin" "0 \<le> fee" "fee \<le> 10000"
  shows "out \<le> (x * (10000 - fee) * rout) div (rin * 10000 + x * (10000 - fee))
     \<longleftrightarrow> rin * out * 10000 \<le> x * ((rout - out) * (10000 - fee))"
proof -
  have "0 < rin * 10000 + x * (10000 - fee)" using assms by (intro add_pos_nonneg) auto
  then show ?thesis by (simp add: quotient_ge_iff) (simp add: algebra_simps)
qed

lemma amount_out_product:
  assumes "amount_out_for_in E ain rin rout fee = Inr out" "0 \<le> fee" "fee \<le> 10000"
  shows "0 \<le> out \<and> out \<le> rout \<and> rin * rout \<le> (rin + ain) * (rout - out)"
  using amount_out_for_in_Inr [OF assms] amount_out_fair [of ain rin rout fee out] assms product_kept
  by blast

lemma amount_in_product:
  assumes "overflow_checks E" "amount_in_for_out E out rin rout fee = Inr ain" "0 \<le> fee" "fee < 10000"
  shows "rin * rout \<le> (rin + ain) * (rout - out)"
proof -
  from amount_in_for_out_Inr [OF assms]
  have g: "0 < out" "out < rout" "0 < rin" and lo: "rin * out * 10000 \<le> ain * ((rout - out) * (10000 - fee))"
    by auto
  then have ain: "0 < ain" using assms by (smt (verit) mult_pos_pos mult_nonneg_nonpos2)
  then have "ain * ((rout - out) * (10000 - fee)) \<le> ain * ((rout - out) * 10000)"
    using g assms by (intro mult_left_mono) auto
  with lo have "10000 * (rin * out) \<le> 10000 * (ain * (rout - out))" by (simp add: ac_simps)
  then show ?thesis by (simp add: algebra_simps)
qed

lemma amount_in_pos:
  assumes "overflow_checks E" "amount_in_for_out E out rin rout fee = Inr ain" "0 \<le> fee" "fee < 10000"
  shows "0 < ain \<and> out < rout"
proof -
  from amount_in_for_out_Inr [OF assms]
  have g: "0 < out" "out < rout" "0 < rin" and lo: "rin * out * 10000 \<le> ain * ((rout - out) * (10000 - fee))"
    by auto
  then show ?thesis using assms by (smt (verit) mult_pos_pos mult_nonneg_nonpos2)
qed

text \<open>
  A swap with a given input never lowers the product of the reserves: whatever fee between 0
  and 100 percent, the output leaves \<open>reserve_in * reserve_out\<close> at least as large, and never exceeds
  the output reserve.
\<close>

theorem swap_exact_in_product:
  assumes "amount_out_for_in E ain rin rout fee = Inr out" "0 \<le> fee" "fee \<le> 10000"
  shows "0 \<le> out \<and> out \<le> rout \<and> rin * rout \<le> (rin + ain) * (rout - out)"
  by (rule amount_out_product [OF assms])

theorem swap_exact_in_product_witness:
  "amount_out_for_in (env0 []) 1000 50000 80000 30 = Inr 1564 \<and> (0 :: int) \<le> 1564 \<and> (1564 :: int) \<le> 80000
     \<and> (50000 :: int) * 80000 \<le> (50000 + 1000) * (80000 - 1564)"
proof -
  have run: "amount_out_for_in (env0 []) 1000 50000 80000 30 = Inr 1564"
    by (simp add: amount_out_for_in_def env0_def quot_def in_range_def)
  from swap_exact_in_product [OF run] run show ?thesis by simp
qed

text \<open>
  The input computed for a requested output is the least sufficient one: among all inputs the
  forward formula accepts, exactly those at least as large yield the requested output. So the two
  formulas form a Galois connection, with the rounding in the pool's favour, and a swap for a fixed
  output does not lower the product of the reserves either.
\<close>

theorem amount_in_is_least:
  assumes "overflow_checks E" "amount_in_for_out E out rin rout fee = Inr ain" "0 \<le> fee" "fee < 10000"
  shows "(\<forall>x y. amount_out_for_in E x rin rout fee = Inr y \<longrightarrow> (out \<le> y \<longleftrightarrow> ain \<le> x))
    \<and> 0 < ain \<and> rin * rout \<le> (rin + ain) * (rout - out)"
proof (intro conjI allI impI)
  let ?d = "(rout - out) * (10000 - fee)"
  from amount_in_for_out_Inr [OF assms]
  have g: "0 < out" "out < rout" "0 < rin" and lo: "rin * out * 10000 \<le> ain * ?d"
    and hi: "(ain - 1) * ?d < rin * out * 10000" by auto
  have d: "0 < ?d" using g assms by simp
  have "0 < rin * out * 10000" using g by simp
  with lo d show pos: "0 < ain" by (smt (verit) mult_nonneg_nonpos2)
  fix x y
  assume "amount_out_for_in E x rin rout fee = Inr y"
  from amount_out_for_in_Inr [OF this] assms(3,4)
  have x: "0 < x" and y: "y = (x * (10000 - fee) * rout) div (rin * 10000 + x * (10000 - fee))" by auto
  have "out \<le> y \<longleftrightarrow> rin * out * 10000 \<le> x * ?d"
    unfolding y by (rule out_reached_iff) (use x g assms in auto)
  also have "\<dots> \<longleftrightarrow> ain \<le> x"
  proof
    assume "rin * out * 10000 \<le> x * ?d"
    with hi have "(ain - 1) * ?d < x * ?d" by linarith
    with d show "ain \<le> x" by (simp add: mult_less_cancel_right_pos)
  next
    assume "ain \<le> x"
    then have "ain * ?d \<le> x * ?d" using d by (intro mult_right_mono) auto
    with lo show "rin * out * 10000 \<le> x * ?d" by linarith
  qed
  finally show "out \<le> y \<longleftrightarrow> ain \<le> x" .
next
  show "rin * rout \<le> (rin + ain) * (rout - out)" by (rule amount_in_product [OF assms])
qed

theorem amount_in_is_least_witness:
  "amount_in_for_out (env0 []) 1564 50000 80000 30 = Inr 1000
   \<and> amount_out_for_in (env0 []) 999 50000 80000 30 = Inr 1562 \<and> \<not> (1564 :: int) \<le> 1562"
proof -
  have run: "amount_in_for_out (env0 []) 1564 50000 80000 30 = Inr 1000"
    by (simp add: amount_in_for_out_def env0_def quot_def in_range_def)
  have fwd: "amount_out_for_in (env0 []) 999 50000 80000 30 = Inr 1562"
    by (simp add: amount_out_for_in_def env0_def quot_def in_range_def)
  from amount_in_is_least [OF _ run] fwd have "(1564 :: int) \<le> 1562 \<longleftrightarrow> (1000 :: int) \<le> 999"
    by (auto simp: env0_def)
  with run fwd show ?thesis by simp
qed

end
