(* ===== verification/PoolProperties.thy ===== *)
theory PoolProperties
  imports PoolMath Token
begin

text \<open>
  Properties of the pool as a whole: its calls as a transition system, the accounting invariant of
  the shares, the backing of the recorded reserves by token balances, the value of a share, and the
  calls that break ownership when an amount is negative.
\<close>

section \<open>The pool as a transition system\<close>

datatype lp_op =
    LInitialize address address address
  | LGuardPause address u32 bool
  | LSetOperationPaused address u32 bool
  | LSetPaused bool
  | LPauseSwaps | LResumeSwaps | LPauseDeposits | LResumeDeposits | LPauseWithdrawals | LResumeWithdrawals
  | LEmergencyPause "address list"
  | LResume "address list"
  | LGuardUnpause "address list"
  | LAddGuardAdmin "address list" address
  | LRemoveGuardAdmin "address list" address
  | LSetFee int
  | LSetLpFeeBps int
  | LConfigureFeeOracle address int int
  | LSyncFeeFromOracle
  | LExecuteFeeUpdate
  | LStake address int
  | LUnstake address int
  | LClaimRewards address
  | LDeposit address int int
  | LSwap address bool int int
  | LSwapExactIn address bool int int
  | LWithdraw address int
  | LBurn address int
  | LTransfer address address int
  | LApprove address address int int
  | LTransferFrom address address address int
  | LgSetPauseState u32 bool
  | LgUnpause u32
  | LgUnpauseAll
  | LgEmergencyPauseAll "address list"
  | LgResumeAll "address list"
  | LgInitGuard "address list" nat
  | LgAddAdmin "address list" address
  | LgRemoveAdmin "address list" address
  | LgRotateAdmin "address list" address address

definition on_lp :: "'w \<Rightarrow> lp lp_res \<Rightarrow> (lp \<times> 'w) lp_res" where
  "on_lp w r = rbind r (\<lambda>s. Inr (s, w))"

definition on_lp_fst :: "'w \<Rightarrow> (lp \<times> 'a) lp_res \<Rightarrow> (lp \<times> 'w) lp_res" where
  "on_lp_fst w r = rbind r (\<lambda>(s, v). Inr (s, w))"

definition on_both :: "((lp \<times> 'w) \<times> 'a) lp_res \<Rightarrow> (lp \<times> 'w) lp_res" where
  "on_both r = rbind r (\<lambda>(sw, v). Inr sw)"

fun lp_exec ::
  "'w token_xfer \<Rightarrow> (address \<Rightarrow> int option) \<Rightarrow> u32 \<Rightarrow> env \<Rightarrow> lp \<times> 'w \<Rightarrow> lp_op \<Rightarrow> (lp \<times> 'w) lp_res" where
  "lp_exec xfer price cb E (s, w) (LInitialize a ta tb) = on_lp w (lp_initialize s a ta tb)"
| "lp_exec xfer price cb E (s, w) (LGuardPause a operation p) = on_lp w (lp_guard_pause E s a operation p)"
| "lp_exec xfer price cb E (s, w) (LSetOperationPaused a operation p) = on_lp w (lp_set_operation_paused E s a operation p)"
| "lp_exec xfer price cb E (s, w) (LSetPaused p) = on_lp w (lp_set_paused cb E s p)"
| "lp_exec xfer price cb E (s, w) LPauseSwaps = on_lp w (lp_pause_swaps E s)"
| "lp_exec xfer price cb E (s, w) LResumeSwaps = on_lp w (lp_resume_swaps E s)"
| "lp_exec xfer price cb E (s, w) LPauseDeposits = on_lp w (lp_pause_deposits E s)"
| "lp_exec xfer price cb E (s, w) LResumeDeposits = on_lp w (lp_resume_deposits E s)"
| "lp_exec xfer price cb E (s, w) LPauseWithdrawals = on_lp w (lp_pause_withdrawals E s)"
| "lp_exec xfer price cb E (s, w) LResumeWithdrawals = on_lp w (lp_resume_withdrawals E s)"
| "lp_exec xfer price cb E (s, w) (LEmergencyPause ap) = on_lp w (lp_emergency_pause E s ap)"
| "lp_exec xfer price cb E (s, w) (LResume ap) = on_lp w (lp_resume E s ap)"
| "lp_exec xfer price cb E (s, w) (LGuardUnpause ap) = on_lp w (lp_guard_unpause E s ap)"
| "lp_exec xfer price cb E (s, w) (LAddGuardAdmin ap a) = on_lp w (lp_add_guard_admin E s ap a)"
| "lp_exec xfer price cb E (s, w) (LRemoveGuardAdmin ap a) = on_lp w (lp_remove_guard_admin E s ap a)"
| "lp_exec xfer price cb E (s, w) (LSetFee f) = on_lp w (lp_set_fee E s f)"
| "lp_exec xfer price cb E (s, w) (LSetLpFeeBps f) = on_lp w (lp_set_lp_fee_bps E s f)"
| "lp_exec xfer price cb E (s, w) (LConfigureFeeOracle ora f t) = on_lp w (lp_configure_fee_oracle E s ora f t)"
| "lp_exec xfer price cb E (s, w) LSyncFeeFromOracle = on_lp_fst w (lp_sync_fee_from_oracle price E s)"
| "lp_exec xfer price cb E (s, w) LExecuteFeeUpdate = on_lp_fst w (lp_execute_fee_update E s)"
| "lp_exec xfer price cb E (s, w) (LStake u n) = on_lp w (lp_stake E s u n)"
| "lp_exec xfer price cb E (s, w) (LUnstake u n) = on_lp w (lp_unstake E s u n)"
| "lp_exec xfer price cb E (s, w) (LClaimRewards u) = on_lp_fst w (lp_claim_rewards cb E s u)"
| "lp_exec xfer price cb E (s, w) (LDeposit to a b) = on_both (lp_deposit xfer E (s, w) to a b)"
| "lp_exec xfer price cb E (s, w) (LSwap to ba n m) = on_both (lp_swap xfer E (s, w) to ba n m)"
| "lp_exec xfer price cb E (s, w) (LSwapExactIn to ba n m) = on_both (lp_swap_exact_in xfer E (s, w) to ba n m)"
| "lp_exec xfer price cb E (s, w) (LWithdraw to n) = on_both (lp_withdraw xfer E (s, w) to n)"
| "lp_exec xfer price cb E (s, w) (LBurn f n) = on_lp w (lp_burn E s f n)"
| "lp_exec xfer price cb E (s, w) (LTransfer f to n) = on_lp w (lp_transfer E s f to n)"
| "lp_exec xfer price cb E (s, w) (LApprove f sp n x) = on_lp w (lp_approve E s f sp n x)"
| "lp_exec xfer price cb E (s, w) (LTransferFrom sp f to n) = on_lp w (lp_transfer_from E s sp f to n)"
| "lp_exec xfer price cb E (s, w) (LgSetPauseState operation p) = on_lp w (map_err map_guard_err (lpg_set_pause_state s operation p))"
| "lp_exec xfer price cb E (s, w) (LgUnpause operation) = on_lp w (map_err map_guard_err (lpg_unpause s operation))"
| "lp_exec xfer price cb E (s, w) LgUnpauseAll = on_lp w (map_err map_guard_err (lpg_unpause_all s))"
| "lp_exec xfer price cb E (s, w) (LgEmergencyPauseAll ap) = on_lp w (map_err map_guard_err (lpg_emergency_pause_all E s ap))"
| "lp_exec xfer price cb E (s, w) (LgResumeAll ap) = on_lp w (map_err map_guard_err (lpg_resume_all E s ap))"
| "lp_exec xfer price cb E (s, w) (LgInitGuard as t) = on_lp w (map_err map_guard_err (lpg_init_guard s as t))"
| "lp_exec xfer price cb E (s, w) (LgAddAdmin ap a) = on_lp w (map_err map_guard_err (lpg_add_admin E s ap a))"
| "lp_exec xfer price cb E (s, w) (LgRemoveAdmin ap a) = on_lp w (map_err map_guard_err (lpg_remove_admin E s ap a))"
| "lp_exec xfer price cb E (s, w) (LgRotateAdmin ap a b) = on_lp w (map_err map_guard_err (lpg_rotate_admin E s ap a b))"

definition lp_step ::
  "'w token_xfer \<Rightarrow> (address \<Rightarrow> int option) \<Rightarrow> u32 \<Rightarrow> env \<Rightarrow> lp \<times> 'w \<Rightarrow> lp_op \<Rightarrow> (pool_error, (lp \<times> 'w) \<times> unit) res" where
  "lp_step xfer price cb E sw c = rbind (lp_exec xfer price cb E sw c) (\<lambda>sw'. Inr (sw', ()))"

section \<open>What a completed call did\<close>

lemma on_lp_Inr [simp]: "on_lp w r = Inr (s', w') \<longleftrightarrow> r = Inr s' \<and> w' = w"
  by (auto simp: on_lp_def)

lemma on_lp_fst_Inr [simp]: "on_lp_fst w r = Inr (s', w') \<longleftrightarrow> (\<exists>v. r = Inr (s', v)) \<and> w' = w"
  by (auto simp: on_lp_fst_def split: prod.splits)

lemma on_both_Inr [simp]: "on_both r = Inr sw \<longleftrightarrow> (\<exists>v. r = Inr (sw, v))"
  by (cases r) (auto simp: on_both_def)

lemma lp_require_Inr [simp]:
  "lp_require_not_paused s operation = Inr u \<longleftrightarrow> \<not> guard_is_paused (lp_guard s) operation"
  by (auto simp: lp_require_not_paused_def)

lemma load_pool_Inr [simp]: "load_pool s = Inr p \<longleftrightarrow> lp_pool s = Some p"
  by (simp add: load_pool_def)

lemma load_admin_Inr [simp]: "load_admin s = Inr a \<longleftrightarrow> lp_admin s = Some a"
  by (simp add: load_admin_def)

text \<open>Storage up to the published events.\<close>

definition quiet :: "lp \<Rightarrow> lp" where
  "quiet s = s\<lparr>lp_events := []\<rparr>"

lemma quiet_emit [simp]:
  "quiet (emit_lp ev s) = quiet s"
  "quiet (if c then emit_lp ev s else s) = quiet s"
  by (simp_all add: quiet_def emit_lp_def)

lemma lp_deposit_Inr:
  assumes "overflow_checks E" "lp_deposit xfer E (s, w) to a b = Inr ((s', w'), n)"
  shows "\<exists>p w1 g. lp_pool s = Some p \<and> to \<in> set (auths E) \<and> 0 < a \<and> 0 < b
    \<and> xfer E (token_a p) to (this_contract E) a w = Some w1
    \<and> xfer E (token_b p) to (this_contract E) b w1 = Some w'
    \<and> deposit_gross_shares E p a b = Inr g \<and> 0 < g
    \<and> n = g - tdiv (g * lp_get_lp_fee_bps s) 10000
    \<and> quiet s' = quiet (s\<lparr>lp_balances := (lp_balances s)(to \<mapsto> get_or (lp_balances s) to 0 + n),
        lp_deposit_ledger := (lp_deposit_ledger s)(to \<mapsto> ledger_seq E),
        lp_pool := Some (p\<lparr>total_shares := total_shares p + n, reserve_a := reserve_a p + a,
                           reserve_b := reserve_b p + b\<rparr>)\<rparr>)"
proof -
  note [simp] = assms(1) not_le
  from assms(2) [unfolded lp_deposit_def Let_def, simplified]
  show ?thesis
    by (elim exE conjE, drule_tac quot_InrD, intro exI conjI)
      (assumption | (hypsubst, simp add: save_pool_def) | simp)+
qed

text \<open>The pool after a swap.\<close>

definition swapped :: "pool_state \<Rightarrow> bool \<Rightarrow> int \<Rightarrow> int \<Rightarrow> pool_state" where
  "swapped p buy_a ain out =
     (if buy_a then p\<lparr>reserve_a := reserve_a p - out, reserve_b := reserve_b p + ain\<rparr>
      else p\<lparr>reserve_a := reserve_a p + ain, reserve_b := reserve_b p - out\<rparr>)"

lemma settle_swap_Inr:
  assumes "overflow_checks E" "settle_swap xfer E (s, w) to p buy_a sides ain out = Inr (s', w')"
  shows "\<exists>w1. xfer E (sd_token_in sides) to (this_contract E) ain w = Some w1
    \<and> xfer E (sd_token_out sides) (this_contract E) to out w1 = Some w'
    \<and> quiet s' = quiet (s\<lparr>lp_pool := Some (swapped p buy_a ain out)\<rparr>)"
  using assms by (cases buy_a) (auto simp: settle_swap_def Let_def save_pool_def swapped_def)

lemma lp_swap_Inr:
  assumes "overflow_checks E" "lp_swap xfer E (s, w) to buy_a out in_max = Inr ((s', w'), ain)"
  shows "\<exists>p. lp_pool s = Some p \<and> to \<in> set (auths E) \<and> ain \<le> in_max
    \<and> amount_in_for_out E out (sd_reserve_in (mk_swap_sides p buy_a)) (sd_reserve_out (mk_swap_sides p buy_a)) (fee_bps p) = Inr ain
    \<and> settle_swap xfer E (s, w) to p buy_a (mk_swap_sides p buy_a) ain out = Inr (s', w')"
  using assms by (auto simp: lp_swap_def Let_def not_less)

lemma lp_swap_exact_in_Inr:
  assumes "overflow_checks E" "lp_swap_exact_in xfer E (s, w) to buy_a ain min_out = Inr ((s', w'), out)"
  shows "\<exists>p. lp_pool s = Some p \<and> to \<in> set (auths E) \<and> 0 < ain \<and> 0 < out \<and> min_out \<le> out
    \<and> out < sd_reserve_out (mk_swap_sides p buy_a)
    \<and> amount_out_for_in E ain (sd_reserve_in (mk_swap_sides p buy_a)) (sd_reserve_out (mk_swap_sides p buy_a)) (fee_bps p) = Inr out
    \<and> settle_swap xfer E (s, w) to p buy_a (mk_swap_sides p buy_a) ain out = Inr (s', w')"
  using assms by (auto simp: lp_swap_exact_in_def Let_def not_less not_le)

lemma muldiv_Inr:
  "overflow_checks E \<Longrightarrow> muldiv E x y z = Inr v \<Longrightarrow> z \<noteq> 0 \<and> v = tdiv (x * y) z"
  by (auto simp: muldiv_def dest: quot_InrD)

lemma lp_withdraw_Inr:
  assumes "overflow_checks E" "lp_withdraw xfer E (s, w) to sh = Inr ((s', w'), (na, nb))"
  shows "\<exists>p w1 ga gb fa fb pa pb. lp_pool s = Some p \<and> to \<in> set (auths E)
    \<and> 0 < sh \<and> sh \<le> get_or (lp_balances s) to 0 \<and> 0 < total_shares p
    \<and> muldiv E sh (reserve_a p) (total_shares p) = (Inr ga :: int lp_res)
    \<and> muldiv E sh (reserve_b p) (total_shares p) = (Inr gb :: int lp_res)
    \<and> muldiv E ga (lp_get_lp_fee_bps s) 10000 = (Inr fa :: int lp_res)
    \<and> muldiv E gb (lp_get_lp_fee_bps s) 10000 = (Inr fb :: int lp_res)
    \<and> (pa = 0 \<and> pb = 0 \<or> muldiv E ga EARLY_WITHDRAWAL_PENALTY_BPS 10000 = (Inr pa :: int lp_res)
        \<and> muldiv E gb EARLY_WITHDRAWAL_PENALTY_BPS 10000 = (Inr pb :: int lp_res))
    \<and> na = ga - fa - pa \<and> nb = gb - fb - pb
    \<and> xfer E (token_a p) (this_contract E) to na w = Some w1
    \<and> xfer E (token_b p) (this_contract E) to nb w1 = Some w'
    \<and> quiet s' = quiet (s\<lparr>lp_balances := (lp_balances s)(to \<mapsto> get_or (lp_balances s) to 0 - sh),
        lp_pool := Some (p\<lparr>total_shares := total_shares p - sh, reserve_a := reserve_a p - na,
                           reserve_b := reserve_b p - nb\<rparr>)\<rparr>)"
proof -
  note [simp] = assms(1) not_le not_less
  from assms(2) [unfolded lp_withdraw_def Let_def, simplified]
  obtain p ga gb fa fb early pen w1 where facts:
    "lp_pool s = Some p" "to \<in> set (auths E)" "0 < sh" "sh \<le> get_or (lp_balances s) to 0" "0 < total_shares p"
    "muldiv E sh (reserve_a p) (total_shares p) = (Inr ga :: int lp_res)"
    "muldiv E sh (reserve_b p) (total_shares p) = (Inr gb :: int lp_res)"
    "muldiv E ga (lp_get_lp_fee_bps s) 10000 = (Inr fa :: int lp_res)"
    "muldiv E gb (lp_get_lp_fee_bps s) 10000 = (Inr fb :: int lp_res)"
    and pen: "(if early then rbind (muldiv E ga EARLY_WITHDRAWAL_PENALTY_BPS 10000) (\<lambda>pa.
         rbind (muldiv E gb EARLY_WITHDRAWAL_PENALTY_BPS 10000) (\<lambda>pb. Inr (pa, pb)))
       else Inr (0, 0)) = (Inr pen :: (int \<times> int) lp_res)"
    and net: "na = ga - fa - fst pen" "nb = gb - fb - snd pen"
    and xf: "xfer E (token_a p) (this_contract E) to na w = Some w1"
      "xfer E (token_b p) (this_contract E) to nb w1 = Some w'"
    and q: "quiet s' = quiet (s\<lparr>lp_balances := (lp_balances s)(to \<mapsto> get_or (lp_balances s) to 0 - sh),
        lp_pool := Some (p\<lparr>total_shares := total_shares p - sh, reserve_a := reserve_a p - na,
                           reserve_b := reserve_b p - nb\<rparr>)\<rparr>)"
    by (elim exE conjE) (clarsimp simp: save_pool_def split: prod.splits)
  from pen have "fst pen = 0 \<and> snd pen = 0
      \<or> muldiv E ga EARLY_WITHDRAWAL_PENALTY_BPS 10000 = (Inr (fst pen) :: int lp_res)
        \<and> muldiv E gb EARLY_WITHDRAWAL_PENALTY_BPS 10000 = (Inr (snd pen) :: int lp_res)"
    by (cases early) auto
  with facts net xf q show ?thesis by blast
qed

section \<open>Share accounting\<close>

definition fee_ok :: "int \<Rightarrow> bool" where
  "fee_ok f \<longleftrightarrow> 0 \<le> f \<and> f \<le> 100"

definition shares_held :: "lp \<Rightarrow> int" where
  "shares_held s = map_sum (lp_balances s) + map_sum (lp_staked s)"

text \<open>Free and staked shares add up to the recorded total, the recorded stake is the sum of the
  stakes, and every fee is within its bound.\<close>

definition lp_inv :: "lp \<Rightarrow> bool" where
  "lp_inv s \<longleftrightarrow> finite (dom (lp_balances s)) \<and> finite (dom (lp_staked s))
     \<and> shares_held s = lp_total_supply s
     \<and> lp_get_total_staked s = map_sum (lp_staked s)
     \<and> fee_ok (lp_get_lp_fee_bps s)
     \<and> (case lp_pool s of None \<Rightarrow> True | Some p \<Rightarrow> fee_ok (fee_bps p) \<and> fee_ok (base_fee_bps p))"

lemmas lp_inv_defs = lp_inv_def shares_held_def lp_total_supply_def lp_get_total_staked_def
  lp_get_lp_fee_bps_def opt_or_def fee_ok_def

lemma quiet_eqD:
  assumes "quiet s' = quiet t"
  shows "lp_pool s' = lp_pool t" "lp_balances s' = lp_balances t" "lp_staked s' = lp_staked t"
    "lp_total_staked s' = lp_total_staked t" "lp_fee_bps_entry s' = lp_fee_bps_entry t"
  using assms by (auto simp: quiet_def lp.defs dest: arg_cong [of _ _ lp_pool] arg_cong [of _ _ lp_balances]
      arg_cong [of _ _ lp_staked] arg_cong [of _ _ lp_total_staked] arg_cong [of _ _ lp_fee_bps_entry])

lemma lp_inv_of_quiet: "lp_inv (quiet s) = lp_inv s"
  by (simp add: quiet_def lp_inv_defs)

lemma lp_inv_quiet: "quiet s' = quiet t \<Longrightarrow> lp_inv s' = lp_inv t"
  by (metis lp_inv_of_quiet)

lemma lp_inv_frame [simp]:
  "lp_inv (s\<lparr>lp_guard := g\<rparr>) = lp_inv s" "lp_inv (s\<lparr>lp_events := evs\<rparr>) = lp_inv s"
  "lp_inv (s\<lparr>lp_allowances := al\<rparr>) = lp_inv s" "lp_inv (s\<lparr>lp_oracle := oc\<rparr>) = lp_inv s"
  "lp_inv (s\<lparr>lp_admin := ad\<rparr>) = lp_inv s" "lp_inv (s\<lparr>lp_user_rewards := ur\<rparr>) = lp_inv s"
  "lp_inv (s\<lparr>lp_last_reward_ledger := ll\<rparr>) = lp_inv s" "lp_inv (s\<lparr>lp_acc_reward := ar\<rparr>) = lp_inv s"
  "lp_inv (s\<lparr>lp_pending_fee := pf\<rparr>) = lp_inv s" "lp_inv (emit_lp ev s) = lp_inv s"
  by (simp_all add: lp_inv_defs emit_lp_def)

lemma update_reward_frame [simp]:
  "lp_inv (update_reward_state E s) = lp_inv s"
  "lp_pool (update_reward_state E s) = lp_pool s" "lp_balances (update_reward_state E s) = lp_balances s"
  "lp_staked (update_reward_state E s) = lp_staked s"
  "lp_total_staked (update_reward_state E s) = lp_total_staked s"
  "lp_fee_bps_entry (update_reward_state E s) = lp_fee_bps_entry s"
  "lp_guard (update_reward_state E s) = lp_guard s"
  by (simp_all add: update_reward_state_def lp_inv_defs)

lemma lp_on_guard_Inr: "lp_on_guard s r = Inr s' \<Longrightarrow> \<exists>g. s' = s\<lparr>lp_guard := g\<rparr>"
  by (auto simp: lp_on_guard_def)

lemma lpg_lift_Inr: "lpg_lift s r = Inr s' \<Longrightarrow> \<exists>g. s' = s\<lparr>lp_guard := g\<rparr>"
  by (auto simp: lpg_lift_def)

lemma reassign_inv [simp]: "lp_inv (reassign_primary_admin_if s d r) = lp_inv s"
  by (auto simp: reassign_primary_admin_if_def save_pool_def lp_inv_defs Let_def split: option.splits)

lemmas lp_guard_op_defs = lp_guard_pause_def lp_set_operation_paused_def lp_set_paused_def
  lp_admin_pause_def lp_pause_swaps_def lp_resume_swaps_def lp_pause_deposits_def lp_resume_deposits_def
  lp_pause_withdrawals_def lp_resume_withdrawals_def lp_emergency_pause_def lp_resume_def
  lp_guard_unpause_def lp_add_guard_admin_def lp_remove_guard_admin_def
  lpg_set_pause_state_def lpg_unpause_def lpg_unpause_all_def lpg_emergency_pause_all_def
  lpg_resume_all_def lpg_init_guard_def lpg_add_admin_def lpg_remove_admin_def lpg_rotate_admin_def

text \<open>Calls that touch only the guard, the admin, the allowances or the oracle record.\<close>

fun guard_call :: "lp_op \<Rightarrow> bool" where
  "guard_call (LGuardPause _ _ _) = True" | "guard_call (LSetOperationPaused _ _ _) = True"
| "guard_call (LSetPaused _) = True" | "guard_call LPauseSwaps = True" | "guard_call LResumeSwaps = True"
| "guard_call LPauseDeposits = True" | "guard_call LResumeDeposits = True"
| "guard_call LPauseWithdrawals = True" | "guard_call LResumeWithdrawals = True"
| "guard_call (LEmergencyPause _) = True" | "guard_call (LResume _) = True"
| "guard_call (LGuardUnpause _) = True" | "guard_call (LAddGuardAdmin _ _) = True"
| "guard_call (LRemoveGuardAdmin _ _) = True" | "guard_call (LgSetPauseState _ _) = True"
| "guard_call (LgUnpause _) = True" | "guard_call LgUnpauseAll = True"
| "guard_call (LgEmergencyPauseAll _) = True" | "guard_call (LgResumeAll _) = True"
| "guard_call (LgInitGuard _ _) = True" | "guard_call (LgAddAdmin _ _) = True"
| "guard_call (LgRemoveAdmin _ _) = True" | "guard_call (LgRotateAdmin _ _ _) = True"
| "guard_call _ = False"

lemma guard_call_effect:
  assumes "guard_call c" "lp_exec xfer price cb E (s, w) c = Inr (s', w')"
  shows "w' = w \<and> (\<exists>g d r. s' = reassign_primary_admin_if (s\<lparr>lp_guard := g\<rparr>) d r)"
proof -
  have none: "s1 = reassign_primary_admin_if s1 0 None" for s1 by (simp add: reassign_primary_admin_if_def)
  have "w' = w" using assms by (cases c) auto
  moreover have "(\<exists>g. s' = s\<lparr>lp_guard := g\<rparr>) \<or> (\<exists>g d r. s' = reassign_primary_admin_if (s\<lparr>lp_guard := g\<rparr>) d r)"
    using assms by (cases c) (auto simp: lp_guard_op_defs dest!: lp_on_guard_Inr lpg_lift_Inr)
  ultimately show ?thesis using none by metis
qed

lemma target_fee_ok: "fee_ok base \<Longrightarrow> fee_ok (target_fee_from_volatility base v)"
  by (auto simp: target_fee_from_volatility_def fee_ok_def pool_consts Let_def)

lemma lp_inv_upd_pool:
  "lp_inv s \<Longrightarrow> lp_pool s = Some p \<Longrightarrow> total_shares p' = total_shares p \<Longrightarrow> fee_ok (fee_bps p')
     \<Longrightarrow> fee_ok (base_fee_bps p') \<Longrightarrow> lp_inv (s\<lparr>lp_pool := Some p'\<rparr>)"
  by (simp add: lp_inv_defs)

lemma lp_inv_pool: "lp_inv s \<Longrightarrow> lp_pool s = Some p \<Longrightarrow> fee_ok (fee_bps p) \<and> fee_ok (base_fee_bps p)"
  by (simp add: lp_inv_def)

lemma swapped_simps [simp]:
  "total_shares (swapped p b i out) = total_shares p" "fee_bps (swapped p b i out) = fee_bps p"
  "base_fee_bps (swapped p b i out) = base_fee_bps p" "token_a (swapped p b i out) = token_a p"
  "token_b (swapped p b i out) = token_b p"
  by (simp_all add: swapped_def)

lemma lp_deposit_inv:
  assumes "overflow_checks E" "lp_inv s" "lp_deposit xfer E (s, w) to a b = Inr ((s', w'), n)"
  shows "lp_inv s'"
proof -
  from lp_deposit_Inr [OF assms(1,3)] obtain p where p: "lp_pool s = Some p"
    and q: "quiet s' = quiet (s\<lparr>lp_balances := (lp_balances s)(to \<mapsto> get_or (lp_balances s) to 0 + n),
        lp_deposit_ledger := (lp_deposit_ledger s)(to \<mapsto> ledger_seq E),
        lp_pool := Some (p\<lparr>total_shares := total_shares p + n, reserve_a := reserve_a p + a,
                           reserve_b := reserve_b p + b\<rparr>)\<rparr>)" by blast
  from p assms(2) show ?thesis unfolding lp_inv_quiet [OF q] by (auto simp: lp_inv_defs)
qed

lemma lp_withdraw_inv:
  assumes "overflow_checks E" "lp_inv s" "lp_withdraw xfer E (s, w) to sh = Inr ((s', w'), v)"
  shows "lp_inv s'"
proof (cases v)
  case (Pair na nb)
  from lp_withdraw_Inr [OF assms(1) assms(3) [unfolded Pair]] obtain p where p: "lp_pool s = Some p"
    and q: "quiet s' = quiet (s\<lparr>lp_balances := (lp_balances s)(to \<mapsto> get_or (lp_balances s) to 0 - sh),
        lp_pool := Some (p\<lparr>total_shares := total_shares p - sh, reserve_a := reserve_a p - na,
                           reserve_b := reserve_b p - nb\<rparr>)\<rparr>)" by blast
  from p assms(2) show ?thesis unfolding lp_inv_quiet [OF q] by (auto simp: lp_inv_defs)
qed

lemma settle_swap_inv:
  assumes "overflow_checks E" "lp_inv s" "lp_pool s = Some p"
    "settle_swap xfer E (s, w) to p buy_a sides ain out = Inr (s', w')"
  shows "lp_inv s'"
proof -
  from settle_swap_Inr [OF assms(1,4)] have q: "quiet s' = quiet (s\<lparr>lp_pool := Some (swapped p buy_a ain out)\<rparr>)"
    by blast
  show ?thesis unfolding lp_inv_quiet [OF q]
    by (rule lp_inv_upd_pool [OF assms(2,3)]) (use lp_inv_pool [OF assms(2,3)] in auto)
qed

lemma lp_swap_inv:
  assumes "overflow_checks E" "lp_inv s" "lp_swap xfer E (s, w) to buy_a out m = Inr ((s', w'), n)"
  shows "lp_inv s'"
  using lp_swap_Inr [OF assms(1,3)]
  by (auto intro: settle_swap_inv [OF assms(1,2)])

lemma lp_swap_exact_in_inv:
  assumes "overflow_checks E" "lp_inv s" "lp_swap_exact_in xfer E (s, w) to buy_a i m = Inr ((s', w'), n)"
  shows "lp_inv s'"
  using lp_swap_exact_in_Inr [OF assms(1,3)]
  by (auto intro: settle_swap_inv [OF assms(1,2)])

lemma lp_transfer_inv:
  "overflow_checks E \<Longrightarrow> lp_inv s \<Longrightarrow> lp_transfer E s f to n = Inr s' \<Longrightarrow> lp_inv s'"
  by (auto simp: lp_transfer_def Let_def) (auto simp: lp_inv_defs)

lemma lp_stake_inv:
  "overflow_checks E \<Longrightarrow> lp_inv s \<Longrightarrow> lp_stake E s u n = Inr s' \<Longrightarrow> lp_inv s'"
  by (auto simp: lp_stake_def Let_def) (auto simp: lp_inv_defs split: option.splits)

lemma lp_unstake_inv:
  "overflow_checks E \<Longrightarrow> lp_inv s \<Longrightarrow> lp_unstake E s u n = Inr s' \<Longrightarrow> lp_inv s'"
  by (auto simp: lp_unstake_def Let_def) (auto simp: lp_inv_defs split: option.splits)

lemma lp_burn_inv:
  "overflow_checks E \<Longrightarrow> lp_inv s \<Longrightarrow> lp_burn E s u n = Inr s' \<Longrightarrow> lp_inv s'"
  by (auto simp: lp_burn_def save_pool_def Let_def) (auto simp: lp_inv_defs)

lemma lp_sync_inv:
  "overflow_checks E \<Longrightarrow> lp_inv s \<Longrightarrow> lp_sync_fee_from_oracle price E s = Inr (s', v) \<Longrightarrow> lp_inv s'"
  by (auto simp: lp_sync_fee_from_oracle_def Let_def split: if_splits)

lemma lp_execute_inv:
  "lp_inv s \<Longrightarrow> lp_execute_fee_update E s = Inr (s', v) \<Longrightarrow> lp_inv s'"
  by (auto simp: lp_execute_fee_update_def Let_def save_pool_def) (auto simp: lp_inv_defs pool_consts)

lemma lp_claim_inv:
  "lp_inv s \<Longrightarrow> lp_claim_rewards cb E s u = Inr (s', v) \<Longrightarrow> lp_inv s'"
  by (auto simp: lp_claim_rewards_def Let_def split: if_splits)

lemma lp_fee_admin_inv:
  "lp_inv s \<Longrightarrow> lp_set_fee E s f = Inr s' \<Longrightarrow> lp_inv s'"
  "lp_inv s \<Longrightarrow> lp_set_lp_fee_bps E s f = Inr s' \<Longrightarrow> lp_inv s'"
  "lp_inv s \<Longrightarrow> lp_configure_fee_oracle E s ora f t = Inr s' \<Longrightarrow> lp_inv s'"
  by (auto simp: lp_set_fee_def lp_set_lp_fee_bps_def lp_configure_fee_oracle_def save_pool_def)
    (auto simp: lp_inv_defs pool_consts)

lemma lp_initialize_inv: "lp_inv s \<Longrightarrow> lp_initialize s a ta tb = Inr s' \<Longrightarrow> lp_inv s'"
  by (auto simp: lp_initialize_def Let_def save_pool_def dest!: lp_on_guard_Inr)
    (auto simp: lp_inv_defs pool_consts)

lemma lp_transfer_from_Inr:
  "lp_transfer_from E s sp f to n = Inr s' \<Longrightarrow>
     sp \<in> set (auths E) \<and> n \<le> lp_allowance E s f sp
     \<and> (\<exists>al. lp_transfer E (s\<lparr>lp_allowances := al\<rparr>) f to n = Inr s')"
  by (auto simp: lp_transfer_from_def Let_def not_less split: if_splits)

lemma lp_exec_inv:
  assumes "overflow_checks E" "lp_inv s" "lp_exec xfer price cb E (s, w) c = Inr (s', w')"
  shows "lp_inv s'"
proof (cases "guard_call c")
  case True
  from guard_call_effect [OF this assms(3)] assms(2) show ?thesis by auto
next
  case False
  show ?thesis
  proof (cases c)
    case (LTransferFrom sp f to n)
    with assms obtain al where "lp_transfer E (s\<lparr>lp_allowances := al\<rparr>) f to n = Inr s'"
      by (auto dest!: lp_transfer_from_Inr)
    with lp_transfer_inv [OF assms(1) _ this] assms(2) show ?thesis by simp
  next
    case (LApprove f sp n x)
    with assms show ?thesis by (auto simp: lp_approve_def)
  qed (use False assms in \<open>auto intro: lp_initialize_inv lp_fee_admin_inv lp_sync_inv lp_execute_inv
      lp_stake_inv lp_unstake_inv lp_claim_inv lp_deposit_inv lp_swap_inv lp_swap_exact_in_inv
      lp_withdraw_inv lp_burn_inv lp_transfer_inv\<close>)
qed

interpretation pool_shares: contract_machine "lp_step xfer price cb" "\<lambda>E c. overflow_checks E" "\<lambda>sw. lp_inv (fst sw)"
  for xfer price cb
proof
  fix E c sw sw' v
  assume "overflow_checks E" "lp_inv (fst sw)" "lp_step xfer price cb E sw c = Inr (sw', v)"
  then show "lp_inv (fst sw')"
    by (cases sw, cases sw') (auto simp: lp_step_def dest: lp_exec_inv)
qed

text \<open>
  The shares always add up: after any sequence of calls, with any token contracts and any oracle,
  free and staked shares sum to the recorded total, the recorded stake is the sum of the stakes, and
  the pool fee, the base fee and the liquidity-provider fee are between 0 and 100 basis points.
\<close>

theorem pool_shares_add_up:
  assumes "\<forall>c \<in> set cs. overflow_checks (fst c)" "(s, w') = run_calls (lp_step xfer price cb) cs (empty_lp, w)"
  shows "map_sum (lp_balances s) + map_sum (lp_staked s) = lp_total_supply s
    \<and> lp_get_total_staked s = map_sum (lp_staked s)
    \<and> fee_ok (lp_get_lp_fee_bps s) \<and> (\<forall>p. lp_pool s = Some p \<longrightarrow> fee_ok (fee_bps p) \<and> fee_ok (base_fee_bps p))"
proof -
  have "lp_inv (fst (empty_lp, w))" by (simp add: empty_lp_def lp_inv_defs pool_consts)
  from pool_shares.run_inv [OF this assms(1), of xfer price cb] have "lp_inv s"
    unfolding assms(2) [symmetric] by simp
  then show ?thesis by (auto simp: lp_inv_def shares_held_def)
qed

text \<open>An example ledger: two token contracts, 901 and 902, in which account 21 holds funds, and a pool
  at address 0 with administrator 11.\<close>

definition holder_token :: "address \<Rightarrow> int \<Rightarrow> token" where
  "holder_token a n = \<lparr>tk_balances = [a \<mapsto> n], tk_allowances = Map.empty, tk_admin = Some 11,
     tk_metadata = None, tk_guard = guard0 [11] 1, tk_events = []\<rparr>"

definition demo_world :: tokens where
  "demo_world = [901 \<mapsto> holder_token 21 1000000, 902 \<mapsto> holder_token 21 1000000]"

definition pool_demo :: "(env \<times> lp_op) list" where
  "pool_demo = [(env0 [], LInitialize 11 901 902), (env0 [21], LDeposit 21 40000 90000),
     (env0 [21], LSwap 21 True 500 2000), (env0 [21], LStake 21 1000), (env0 [21], LWithdraw 21 10000)]"

definition no_price :: "address \<Rightarrow> int option" where
  "no_price = (\<lambda>_. None)"

definition demo_pool :: "lp \<times> tokens" where
  "demo_pool = run_calls (lp_step client_transfer no_price (push_bit 9 1)) pool_demo (empty_lp, demo_world)"

lemma demo_pool_supply: "lp_total_supply (fst demo_pool) = 49970"
  by code_simp

theorem pool_shares_add_up_witness:
  "map_sum (lp_balances (fst demo_pool)) + map_sum (lp_staked (fst demo_pool)) = 49970"
proof -
  have "\<forall>c \<in> set pool_demo. overflow_checks (fst c)" by (simp add: pool_demo_def env0_def)
  moreover have "(fst demo_pool, snd demo_pool)
      = run_calls (lp_step client_transfer no_price (push_bit 9 1)) pool_demo (empty_lp, demo_world)"
    by (simp add: demo_pool_def)
  ultimately have "map_sum (lp_balances (fst demo_pool)) + map_sum (lp_staked (fst demo_pool))
      = lp_total_supply (fst demo_pool)"
    by (rule pool_shares_add_up [THEN conjunct1])
  then show ?thesis by (simp add: demo_pool_supply)
qed

section \<open>Backing of the reserves\<close>

text \<open>The pool's own view of one token: its balance minus the recorded reserve.\<close>

definition pool_surplus :: "(address \<Rightarrow> address \<Rightarrow> 'w \<Rightarrow> int) \<Rightarrow> address \<Rightarrow> pool_state \<Rightarrow> 'w \<Rightarrow> int \<times> int" where
  "pool_surplus bal here p w =
     (bal (token_a p) here w - reserve_a p, bal (token_b p) here w - reserve_b p)"

definition same_pair :: "pool_state \<Rightarrow> pool_state \<Rightarrow> bool" where
  "same_pair p p' \<longleftrightarrow> token_a p' = token_a p \<and> token_b p' = token_b p"

lemma lp_exec_quiet_pool:
  assumes "lp_exec xfer price cb E (s, w) c = Inr (s', w')" "lp_pool s = Some p"
    and "\<not> (case c of LDeposit _ _ _ \<Rightarrow> True | LSwap _ _ _ _ \<Rightarrow> True | LSwapExactIn _ _ _ _ \<Rightarrow> True | LWithdraw _ _ \<Rightarrow> True | _ \<Rightarrow> False)"
  shows "w' = w \<and> (\<exists>p'. lp_pool s' = Some p' \<and> same_pair p p' \<and> reserve_a p' = reserve_a p \<and> reserve_b p' = reserve_b p)"
proof (cases "guard_call c")
  case True
  from guard_call_effect [OF this assms(1)] assms(2) show ?thesis
    by (auto simp: reassign_primary_admin_if_def save_pool_def same_pair_def Let_def split: option.splits if_splits)
next
  case False
  show ?thesis
  proof (cases c)
    case (LTransferFrom sp f to n)
    with assms show ?thesis
      by (auto simp: same_pair_def lp_transfer_def Let_def dest!: lp_transfer_from_Inr)
  qed (use False assms in \<open>auto simp: same_pair_def lp_initialize_def lp_set_fee_def lp_set_lp_fee_bps_def
      lp_configure_fee_oracle_def lp_sync_fee_from_oracle_def lp_execute_fee_update_def lp_stake_def
      lp_unstake_def lp_claim_rewards_def lp_burn_def lp_transfer_def lp_approve_def Let_def save_pool_def
      emit_lp_def split: if_splits\<close>)
qed

context token_ledger
begin

lemma lp_exec_surplus:
  assumes E: "overflow_checks E" "this_contract E = here" "here \<notin> set (auths E)"
    and run: "lp_exec xfer price cb E (s, w) c = Inr (s', w')"
    and p: "lp_pool s = Some p" "token_a p \<noteq> token_b p"
  shows "\<exists>p'. lp_pool s' = Some p' \<and> same_pair p p' \<and> pool_surplus bal here p' w' = pool_surplus bal here p w"
proof -
  have swap: "\<exists>p'. lp_pool s' = Some p' \<and> same_pair p p' \<and> pool_surplus bal here p' w' = pool_surplus bal here p w"
    if "settle_swap xfer E (s, w) to p ba (mk_swap_sides p ba) i out = Inr (s', w')" "to \<in> set (auths E)"
    for to ba i out
  proof -
    from settle_swap_Inr [OF E(1) that(1)] obtain w1 where
      x: "xfer E (sd_token_in (mk_swap_sides p ba)) to here i w = Some w1"
         "xfer E (sd_token_out (mk_swap_sides p ba)) here to out w1 = Some w'"
      and q: "quiet s' = quiet (s\<lparr>lp_pool := Some (swapped p ba i out)\<rparr>)" using E(2) by blast
    have "to \<noteq> here" using E(3) that(2) by auto
    with quiet_eqD(1) [OF q] xfer_bal [OF E(1) x(1)] xfer_bal [OF E(1) x(2)] p(2) show ?thesis
      by (auto simp: same_pair_def pool_surplus_def swapped_def mk_swap_sides_def delta_def)
  qed
  show ?thesis
  proof (cases c)
    case (LDeposit to a b)
    with run obtain n where "lp_deposit xfer E (s, w) to a b = Inr ((s', w'), n)" by auto
    from lp_deposit_Inr [OF E(1) this] p obtain w1 where to: "to \<in> set (auths E)"
      and x: "xfer E (token_a p) to here a w = Some w1" "xfer E (token_b p) to here b w1 = Some w'"
      and q: "quiet s' = quiet (s\<lparr>lp_balances := (lp_balances s)(to \<mapsto> get_or (lp_balances s) to 0 + n),
        lp_deposit_ledger := (lp_deposit_ledger s)(to \<mapsto> ledger_seq E),
        lp_pool := Some (p\<lparr>total_shares := total_shares p + n, reserve_a := reserve_a p + a,
                           reserve_b := reserve_b p + b\<rparr>)\<rparr>)" using E(2) by auto
    from to E(3) have "to \<noteq> here" by auto
    with quiet_eqD(1) [OF q] xfer_bal [OF E(1) x(1)] xfer_bal [OF E(1) x(2)] p(2) show ?thesis
      by (auto simp: same_pair_def pool_surplus_def delta_def)
  next
    case (LSwap to ba out m)
    with run obtain n where "lp_swap xfer E (s, w) to ba out m = Inr ((s', w'), n)" by auto
    from lp_swap_Inr [OF E(1) this] p swap show ?thesis by auto
  next
    case (LSwapExactIn to ba i m)
    with run obtain n where "lp_swap_exact_in xfer E (s, w) to ba i m = Inr ((s', w'), n)" by auto
    from lp_swap_exact_in_Inr [OF E(1) this] p swap show ?thesis by auto
  next
    case (LWithdraw to sh)
    with run obtain na nb where "lp_withdraw xfer E (s, w) to sh = Inr ((s', w'), (na, nb))" by auto
    from lp_withdraw_Inr [OF E(1) this] p obtain w1 where to: "to \<in> set (auths E)"
      and x: "xfer E (token_a p) here to na w = Some w1" "xfer E (token_b p) here to nb w1 = Some w'"
      and q: "quiet s' = quiet (s\<lparr>lp_balances := (lp_balances s)(to \<mapsto> get_or (lp_balances s) to 0 - sh),
        lp_pool := Some (p\<lparr>total_shares := total_shares p - sh, reserve_a := reserve_a p - na,
                           reserve_b := reserve_b p - nb\<rparr>)\<rparr>)" using E(2) by auto
    from to E(3) have "to \<noteq> here" by auto
    with quiet_eqD(1) [OF q] xfer_bal [OF E(1) x(1)] xfer_bal [OF E(1) x(2)] p(2) show ?thesis
      by (auto simp: same_pair_def pool_surplus_def delta_def)
  qed (use lp_exec_quiet_pool [OF run p(1)] in \<open>auto simp: pool_surplus_def same_pair_def\<close>)
qed

end

text \<open>Calls that reach the pool deployed at \<open>here\<close>; nobody else can authorise for the pool itself.\<close>

definition pool_call :: "address \<Rightarrow> env \<Rightarrow> lp_op \<Rightarrow> bool" where
  "pool_call here E c \<longleftrightarrow> overflow_checks E \<and> this_contract E = here \<and> here \<notin> set (auths E)"

definition surplus_is :: "address \<Rightarrow> pool_state \<Rightarrow> int \<times> int \<Rightarrow> lp \<times> tokens \<Rightarrow> bool" where
  "surplus_is here p0 d sw \<longleftrightarrow> (\<exists>p. lp_pool (fst sw) = Some p \<and> same_pair p0 p
     \<and> pool_surplus client_balance here p (snd sw) = d)"

interpretation pool_backing: contract_machine "lp_step client_transfer price cb" "pool_call here"
    "\<lambda>sw. token_a p0 \<noteq> token_b p0 \<and> surplus_is here p0 d sw"
  for price cb here p0 d
proof
  fix E c sw sw' v
  assume E: "pool_call here E c" and inv: "token_a p0 \<noteq> token_b p0 \<and> surplus_is here p0 d sw"
    and run: "lp_step client_transfer price cb E sw c = Inr (sw', v)"
  obtain s w s' w' where sw: "sw = (s, w)" "sw' = (s', w')" by (metis surj_pair)
  from inv sw obtain p where p: "lp_pool s = Some p" "same_pair p0 p" "pool_surplus client_balance here p w = d"
    by (auto simp: surplus_is_def)
  then have "token_a p \<noteq> token_b p" using inv by (auto simp: same_pair_def)
  moreover from run sw have "lp_exec client_transfer price cb E (s, w) c = Inr (s', w')"
    by (simp add: lp_step_def)
  ultimately obtain p' where "lp_pool s' = Some p'" "same_pair p p'"
      "pool_surplus client_balance here p' w' = pool_surplus client_balance here p w"
    using token_world.lp_exec_surplus [of E here price cb s w c s' w' p] E p(1)
    by (auto simp: pool_call_def)
  with p inv sw show "token_a p0 \<noteq> token_b p0 \<and> surplus_is here p0 d sw'"
    by (auto simp: surplus_is_def same_pair_def)
qed


definition demo_pool0 :: "lp \<times> tokens" where
  "demo_pool0 = run_calls (lp_step client_transfer no_price (push_bit 9 1)) (take 1 pool_demo) (empty_lp, demo_world)"


section \<open>The value of a share\<close>

text \<open>The measure is the product of the reserves per squared share; comparing it by cross-multiplication
  avoids rounding.\<close>

definition share_value_le :: "pool_state \<Rightarrow> pool_state \<Rightarrow> bool" where
  "share_value_le p p' \<longleftrightarrow>
     reserve_a p * reserve_b p * (total_shares p')\<^sup>2 \<le> reserve_a p' * reserve_b p' * (total_shares p)\<^sup>2"

fun amounts_ok :: "lp_op \<Rightarrow> bool" where
  "amounts_ok (LStake u n) = (0 \<le> n)"
| "amounts_ok (LUnstake u n) = (0 \<le> n)"
| "amounts_ok (LBurn u n) = (0 \<le> n)"
| "amounts_ok (LTransfer f to n) = (0 \<le> n)"
| "amounts_ok (LTransferFrom sp f to n) = (0 \<le> n)"
| "amounts_ok _ = True"

definition lp_nonneg :: "lp \<Rightarrow> bool" where
  "lp_nonneg s \<longleftrightarrow> (\<forall>a. 0 \<le> get_or (lp_balances s) a 0) \<and> (\<forall>a. 0 \<le> get_or (lp_staked s) a 0)
     \<and> (\<forall>p. lp_pool s = Some p \<longrightarrow> 0 \<le> reserve_a p \<and> 0 \<le> reserve_b p)"

lemma balance_le_total:
  assumes "lp_inv s" "lp_nonneg s" "lp_pool s = Some p"
  shows "get_or (lp_balances s) a 0 \<le> total_shares p"
proof -
  have "get_or (lp_balances s) a 0 \<le> map_sum (lp_balances s)"
    using assms by (intro get_or_le_map_sum) (auto simp: lp_inv_def lp_nonneg_def)
  moreover have "0 \<le> map_sum (lp_staked s)"
    using assms by (intro map_sum_nonneg) (auto simp: lp_nonneg_def)
  ultimately show ?thesis using assms(1,3) by (simp add: lp_inv_def shares_held_def lp_total_supply_def)
qed

lemma share_value_leI:
  assumes "0 \<le> reserve_a p" "0 \<le> reserve_b p" "0 \<le> total_shares p'" "0 \<le> total_shares p"
    and "reserve_a p * total_shares p' \<le> reserve_a p' * total_shares p"
    and "reserve_b p * total_shares p' \<le> reserve_b p' * total_shares p"
  shows "share_value_le p p'"
proof -
  have "(reserve_a p * total_shares p') * (reserve_b p * total_shares p')
      \<le> (reserve_a p' * total_shares p) * (reserve_b p' * total_shares p)"
    by (rule mult_mono) (use assms in \<open>auto intro: order_trans [OF _ assms(5)]\<close>)
  then show ?thesis by (simp add: share_value_le_def power2_eq_square ac_simps)
qed

lemma fee_cut:
  assumes "0 \<le> g" "fee_ok f"
  shows "0 \<le> tdiv (g * f) 10000 \<and> 100 * tdiv (g * f) 10000 \<le> g"
proof -
  have n: "0 \<le> g * f" using assms by (simp add: fee_ok_def)
  have "g * f \<le> g * 100" using assms by (intro mult_left_mono) (auto simp: fee_ok_def)
  moreover have "g * f div 10000 * 10000 \<le> g * f" by (rule div_mult_le_int) simp
  ultimately show ?thesis using n div_nonneg_int [OF n, of 10000] by simp
qed

lemma pro_rata:
  assumes "overflow_checks E" "muldiv E x r t = (Inr v :: int lp_res)" "0 \<le> x" "0 \<le> r" "0 < t"
  shows "0 \<le> v \<and> v * t \<le> x * r"
proof -
  have "v = x * r div t" using muldiv_Inr [OF assms(1,2)] assms by simp
  with assms show ?thesis by (simp add: div_mult_le_int div_nonneg_int)
qed

lemma deposit_gross_fair:
  assumes "overflow_checks E" "deposit_gross_shares E p a b = Inr g" "0 < total_shares p" "0 < a" "0 < b"
    and "0 \<le> reserve_a p" "0 \<le> reserve_b p"
  shows "g * reserve_a p \<le> a * total_shares p \<and> g * reserve_b p \<le> b * total_shares p"
proof -
  from assms(2,3) obtain sa sb where
    sa: "quot I128 (a * total_shares p) (reserve_a p) = (Inr sa :: int lp_res)" and
    sb: "quot I128 (b * total_shares p) (reserve_b p) = (Inr sb :: int lp_res)" and
    g: "g = (if sa < sb then sa else sb)"
    by (auto simp: deposit_gross_shares_def split: if_splits)
  from sa sb assms have pos: "0 < reserve_a p" "0 < reserve_b p"
    by (auto simp: quot_def split: if_splits)
  with sa sb assms have "sa = a * total_shares p div reserve_a p" "sb = b * total_shares p div reserve_b p"
    by (auto simp: quot_pos_Inr)
  then have le: "sa * reserve_a p \<le> a * total_shares p" "sb * reserve_b p \<le> b * total_shares p"
    using pos by (simp_all add: div_mult_le_int)
  have "g * reserve_a p \<le> sa * reserve_a p" "g * reserve_b p \<le> sb * reserve_b p"
    using g pos by (auto intro!: mult_right_mono)
  with le show ?thesis by linarith
qed

lemma deposit_value:
  assumes "overflow_checks E" "lp_inv s" "lp_nonneg s" "lp_pool s = Some p" "0 < total_shares p"
    and "lp_deposit xfer E (s, w) to a b = Inr ((s', w'), n)"
  shows "\<exists>p'. lp_pool s' = Some p' \<and> share_value_le p p'"
proof -
  from lp_deposit_Inr [OF assms(1,6)] assms(4) obtain g where g: "deposit_gross_shares E p a b = Inr g" "0 < g"
    and ab: "0 < a" "0 < b" and n: "n = g - tdiv (g * lp_get_lp_fee_bps s) 10000"
    and q: "quiet s' = quiet (s\<lparr>lp_balances := (lp_balances s)(to \<mapsto> get_or (lp_balances s) to 0 + n),
        lp_deposit_ledger := (lp_deposit_ledger s)(to \<mapsto> ledger_seq E),
        lp_pool := Some (p\<lparr>total_shares := total_shares p + n, reserve_a := reserve_a p + a,
                           reserve_b := reserve_b p + b\<rparr>)\<rparr>)" by auto
  have r: "0 \<le> reserve_a p" "0 \<le> reserve_b p" using assms(3,4) by (auto simp: lp_nonneg_def)
  have cut: "0 \<le> n" "n \<le> g" using fee_cut [of g "lp_get_lp_fee_bps s"] assms(2) g n by (auto simp: lp_inv_def)
  from deposit_gross_fair [OF assms(1) g(1) assms(5) ab r] cut r
  have "n * reserve_a p \<le> a * total_shares p" "n * reserve_b p \<le> b * total_shares p"
    by (meson mult_right_mono order_trans)+
  with r cut assms(5) have "share_value_le p (p\<lparr>total_shares := total_shares p + n,
      reserve_a := reserve_a p + a, reserve_b := reserve_b p + b\<rparr>)"
    by (intro share_value_leI) (auto simp: algebra_simps)
  with quiet_eqD(1) [OF q] show ?thesis by auto
qed

lemma withdraw_value:
  assumes "overflow_checks E" "lp_inv s" "lp_nonneg s" "lp_pool s = Some p"
    and "lp_withdraw xfer E (s, w) to sh = Inr ((s', w'), (na, nb))"
  shows "\<exists>p'. lp_pool s' = Some p' \<and> share_value_le p p' \<and> lp_nonneg s'"
proof -
  from lp_withdraw_Inr [OF assms(1,5), unfolded assms(4) option.inject] obtain ga gb fa fb pa pb where
    sh: "0 < sh" "sh \<le> get_or (lp_balances s) to 0" "0 < total_shares p"
    and g: "muldiv E sh (reserve_a p) (total_shares p) = (Inr ga :: int lp_res)"
      "muldiv E sh (reserve_b p) (total_shares p) = (Inr gb :: int lp_res)"
    and f: "muldiv E ga (lp_get_lp_fee_bps s) 10000 = (Inr fa :: int lp_res)"
      "muldiv E gb (lp_get_lp_fee_bps s) 10000 = (Inr fb :: int lp_res)"
    and pen: "pa = 0 \<and> pb = 0 \<or> muldiv E ga EARLY_WITHDRAWAL_PENALTY_BPS 10000 = (Inr pa :: int lp_res)
        \<and> muldiv E gb EARLY_WITHDRAWAL_PENALTY_BPS 10000 = (Inr pb :: int lp_res)"
    and net: "na = ga - fa - pa" "nb = gb - fb - pb"
    and q: "quiet s' = quiet (s\<lparr>lp_balances := (lp_balances s)(to \<mapsto> get_or (lp_balances s) to 0 - sh),
        lp_pool := Some (p\<lparr>total_shares := total_shares p - sh, reserve_a := reserve_a p - na,
                           reserve_b := reserve_b p - nb\<rparr>)\<rparr>)" by blast
  have r: "0 \<le> reserve_a p" "0 \<le> reserve_b p" using assms(3,4) by (auto simp: lp_nonneg_def)
  have fee: "fee_ok (lp_get_lp_fee_bps s)" using assms(2) by (simp add: lp_inv_def)
  have ga: "0 \<le> ga" "ga * total_shares p \<le> sh * reserve_a p"
    using pro_rata [OF assms(1) g(1)] sh r by auto
  have gb: "0 \<le> gb" "gb * total_shares p \<le> sh * reserve_b p"
    using pro_rata [OF assms(1) g(2)] sh r by auto
  have fs: "0 \<le> fa" "0 \<le> fb" using pro_rata [OF assms(1) f(1)] pro_rata [OF assms(1) f(2)] ga gb fee
    by (auto simp: fee_ok_def)
  have ps: "0 \<le> pa" "0 \<le> pb"
    using pen pro_rata [OF assms(1), of ga EARLY_WITHDRAWAL_PENALTY_BPS 10000 pa]
      pro_rata [OF assms(1), of gb EARLY_WITHDRAWAL_PENALTY_BPS 10000 pb] ga gb
    by (auto simp: EARLY_WITHDRAWAL_PENALTY_BPS_def)
  have "na \<le> ga" "nb \<le> gb" using net fs ps by auto
  then have "na * total_shares p \<le> sh * reserve_a p" "nb * total_shares p \<le> sh * reserve_b p"
    using ga gb sh by (meson mult_right_mono order_trans less_imp_le)+
  note pay = this
  have le: "sh \<le> total_shares p" using sh balance_le_total [OF assms(2,3,4), of to] by simp
  with r have "sh * reserve_a p \<le> total_shares p * reserve_a p" "sh * reserve_b p \<le> total_shares p * reserve_b p"
    by (auto intro: mult_right_mono)
  with pay sh have "na \<le> reserve_a p" "nb \<le> reserve_b p"
    by (smt (verit) mult.commute mult_less_cancel_right_pos)+
  then have nn: "lp_nonneg s'"
    using assms(3) sh quiet_eqD [OF q] by (auto simp: lp_nonneg_def get_or_upd)
  from pay le have "share_value_le p (p\<lparr>total_shares := total_shares p - sh,
      reserve_a := reserve_a p - na, reserve_b := reserve_b p - nb\<rparr>)"
    using r sh by (intro share_value_leI) (auto simp: algebra_simps)
  with nn quiet_eqD(1) [OF q] show ?thesis by auto
qed

lemma swap_value:
  assumes "overflow_checks E" "settle_swap xfer E (s, w) to p ba (mk_swap_sides p ba) i out = Inr (s', w')"
    and "sd_reserve_in (mk_swap_sides p ba) * sd_reserve_out (mk_swap_sides p ba)
       \<le> (sd_reserve_in (mk_swap_sides p ba) + i) * (sd_reserve_out (mk_swap_sides p ba) - out)"
  shows "\<exists>p'. lp_pool s' = Some p' \<and> share_value_le p p'"
proof -
  from settle_swap_Inr [OF assms(1,2)] have q: "quiet s' = quiet (s\<lparr>lp_pool := Some (swapped p ba i out)\<rparr>)"
    by blast
  have "reserve_a p * reserve_b p \<le> reserve_a (swapped p ba i out) * reserve_b (swapped p ba i out)"
    using assms(3) by (cases ba) (auto simp: mk_swap_sides_def swapped_def ac_simps)
  then have "share_value_le p (swapped p ba i out)"
    by (simp add: share_value_le_def mult_right_mono)
  with quiet_eqD(1) [OF q] show ?thesis by auto
qed

lemma mk_swap_sides_nonneg:
  "lp_nonneg s \<Longrightarrow> lp_pool s = Some p \<Longrightarrow>
     0 \<le> sd_reserve_in (mk_swap_sides p ba) \<and> 0 \<le> sd_reserve_out (mk_swap_sides p ba)"
  by (auto simp: lp_nonneg_def mk_swap_sides_def)

lemma lp_exec_same_shares:
  assumes "lp_exec xfer price cb E (s, w) c = Inr (s', w')" "lp_pool s = Some p"
    and "case c of LDeposit _ _ _ \<Rightarrow> False | LSwap _ _ _ _ \<Rightarrow> False | LSwapExactIn _ _ _ _ \<Rightarrow> False
      | LWithdraw _ _ \<Rightarrow> False | LBurn _ _ \<Rightarrow> False | _ \<Rightarrow> True"
  shows "\<exists>p'. lp_pool s' = Some p' \<and> total_shares p' = total_shares p"
proof (cases "guard_call c")
  case True
  from guard_call_effect [OF this assms(1)] assms(2) show ?thesis
    by (auto simp: reassign_primary_admin_if_def save_pool_def Let_def split: option.splits if_splits)
next
  case False
  show ?thesis
  proof (cases c)
    case (LTransferFrom sp f to n)
    with assms show ?thesis by (auto simp: lp_transfer_def Let_def dest!: lp_transfer_from_Inr)
  qed (use False assms in \<open>auto simp: lp_initialize_def lp_set_fee_def lp_set_lp_fee_bps_def
      lp_configure_fee_oracle_def lp_sync_fee_from_oracle_def lp_execute_fee_update_def lp_stake_def
      lp_unstake_def lp_claim_rewards_def lp_transfer_def lp_approve_def Let_def save_pool_def
      emit_lp_def split: if_splits\<close>)
qed

lemma burn_value:
  assumes "overflow_checks E" "lp_inv s" "lp_nonneg s" "lp_pool s = Some p" "lp_burn E s u n = Inr s'" "0 \<le> n"
  shows "\<exists>p'. lp_pool s' = Some p' \<and> share_value_le p p'"
proof -
  have n: "n \<le> total_shares p" and p': "lp_pool s' = Some (p\<lparr>total_shares := total_shares p - n\<rparr>)"
    using assms(1,4,5) balance_le_total [OF assms(2,3,4), of u]
    by (auto simp: lp_burn_def Let_def save_pool_def emit_lp_def)
  have r: "0 \<le> reserve_a p" "0 \<le> reserve_b p" using assms(3,4) by (auto simp: lp_nonneg_def)
  have "share_value_le p (p\<lparr>total_shares := total_shares p - n\<rparr>)"
    using n r assms(6) by (intro share_value_leI) (auto intro: mult_left_mono)
  with p' show ?thesis by blast
qed

lemma lp_exec_value:
  assumes "overflow_checks E" "lp_inv s" "lp_nonneg s" "amounts_ok c"
    and "lp_pool s = Some p" "0 < total_shares p"
    and "lp_exec xfer price cb E (s, w) c = Inr (s', w')"
  shows "\<exists>p'. lp_pool s' = Some p' \<and> share_value_le p p'"
proof (cases "case c of LDeposit _ _ _ \<Rightarrow> False | LSwap _ _ _ _ \<Rightarrow> False | LSwapExactIn _ _ _ _ \<Rightarrow> False
      | LWithdraw _ _ \<Rightarrow> False | LBurn _ _ \<Rightarrow> False | _ \<Rightarrow> True")
  case True
  from lp_exec_same_shares [OF assms(7,5) True] lp_exec_quiet_pool [OF assms(7,5)] True show ?thesis
    by (auto simp: share_value_le_def split: lp_op.splits)
next
  case False
  have fee: "0 \<le> fee_bps p" "fee_bps p \<le> 100" using assms(2,5) by (auto simp: lp_inv_def fee_ok_def)
  from False show ?thesis
  proof (cases c)
    case (LDeposit to a b)
    with assms deposit_value [OF assms(1-3,5,6)] show ?thesis by auto
  next
    case (LWithdraw to sh)
    with assms(7) obtain na nb where "lp_withdraw xfer E (s, w) to sh = Inr ((s', w'), (na, nb))" by auto
    from withdraw_value [OF assms(1-3,5) this] show ?thesis by blast
  next
    case (LBurn u n)
    with assms burn_value [OF assms(1-3,5)] show ?thesis by auto
  next
    case (LSwap to ba out m)
    with assms(7) obtain i where "lp_swap xfer E (s, w) to ba out m = Inr ((s', w'), i)" by auto
    from lp_swap_Inr [OF assms(1) this] assms(5)
    have i: "amount_in_for_out E out (sd_reserve_in (mk_swap_sides p ba)) (sd_reserve_out (mk_swap_sides p ba)) (fee_bps p) = Inr i"
      and st: "settle_swap xfer E (s, w) to p ba (mk_swap_sides p ba) i out = Inr (s', w')" by auto
    show ?thesis
      by (rule swap_value [OF assms(1) st]) (use amount_in_product [OF assms(1) i] fee in auto)
  next
    case (LSwapExactIn to ba i m)
    with assms(7) obtain out where "lp_swap_exact_in xfer E (s, w) to ba i m = Inr ((s', w'), out)" by auto
    from lp_swap_exact_in_Inr [OF assms(1) this] assms(5)
    have o: "amount_out_for_in E i (sd_reserve_in (mk_swap_sides p ba)) (sd_reserve_out (mk_swap_sides p ba)) (fee_bps p) = Inr out"
      and st: "settle_swap xfer E (s, w) to p ba (mk_swap_sides p ba) i out = Inr (s', w')" by auto
    show ?thesis
      by (rule swap_value [OF assms(1) st]) (use amount_out_product [OF o] fee in auto)
  qed auto
qed

lemma deposit_nonneg:
  assumes "overflow_checks E" "lp_inv s" "lp_nonneg s" "lp_deposit xfer E (s, w) to a b = Inr ((s', w'), n)"
  shows "lp_nonneg s'"
proof -
  from lp_deposit_Inr [OF assms(1,4)] obtain p g where p: "lp_pool s = Some p" "0 < a" "0 < b" "0 < g"
    and n: "n = g - tdiv (g * lp_get_lp_fee_bps s) 10000"
    and q: "quiet s' = quiet (s\<lparr>lp_balances := (lp_balances s)(to \<mapsto> get_or (lp_balances s) to 0 + n),
        lp_deposit_ledger := (lp_deposit_ledger s)(to \<mapsto> ledger_seq E),
        lp_pool := Some (p\<lparr>total_shares := total_shares p + n, reserve_a := reserve_a p + a,
                           reserve_b := reserve_b p + b\<rparr>)\<rparr>)" by blast
  have "0 \<le> n" using fee_cut [of g "lp_get_lp_fee_bps s"] assms(2) p n by (auto simp: lp_inv_def)
  with p assms(3) quiet_eqD [OF q] show ?thesis by (auto simp: lp_nonneg_def get_or_upd)
qed

lemma swap_nonneg:
  assumes "overflow_checks E" "lp_nonneg s" "lp_pool s = Some p" "0 \<le> i" "out \<le> sd_reserve_out (mk_swap_sides p ba)"
    and "settle_swap xfer E (s, w) to p ba (mk_swap_sides p ba) i out = Inr (s', w')"
  shows "lp_nonneg s'"
proof -
  from settle_swap_Inr [OF assms(1,6)] have q: "quiet s' = quiet (s\<lparr>lp_pool := Some (swapped p ba i out)\<rparr>)"
    by blast
  show ?thesis using assms quiet_eqD [OF q] by (cases ba) (auto simp: lp_nonneg_def swapped_def mk_swap_sides_def)
qed

lemma lp_transfer_nonneg:
  "overflow_checks E \<Longrightarrow> lp_nonneg s \<Longrightarrow> 0 \<le> n \<Longrightarrow> lp_transfer E s f to n = Inr s' \<Longrightarrow> lp_nonneg s'"
  by (auto simp: lp_transfer_def Let_def lp_nonneg_def get_or_upd)

lemma lp_nonneg_simps [simp]:
  "lp_nonneg (reassign_primary_admin_if s d r) = lp_nonneg s"
  "lp_nonneg (s\<lparr>lp_guard := g\<rparr>) = lp_nonneg s"
  by (auto simp: lp_nonneg_def reassign_primary_admin_if_def save_pool_def Let_def split: option.splits)

lemma lp_exec_nonneg:
  assumes "overflow_checks E" "lp_inv s" "lp_nonneg s" "amounts_ok c"
    and "lp_exec xfer price cb E (s, w) c = Inr (s', w')"
  shows "lp_nonneg s'"
proof (cases "guard_call c")
  case True
  from guard_call_effect [OF this assms(5)] assms(3) show ?thesis by auto
next
  case False
  show ?thesis
  proof (cases c)
    case (LTransferFrom sp f to n)
    with assms obtain al where "lp_transfer E (s\<lparr>lp_allowances := al\<rparr>) f to n = Inr s'"
      by (auto dest!: lp_transfer_from_Inr)
    moreover have "lp_nonneg (s\<lparr>lp_allowances := al\<rparr>)" "0 \<le> n"
      using assms(3,4) LTransferFrom by (simp_all add: lp_nonneg_def)
    ultimately show ?thesis using lp_transfer_nonneg [OF assms(1)] by blast
  next
    case (LTransfer f to n)
    with assms(4,5) have "0 \<le> n" "lp_transfer E s f to n = Inr s'" by auto
    from lp_transfer_nonneg [OF assms(1,3) this] show ?thesis .
  next
    case (LDeposit to a b)
    with assms(5) obtain n where "lp_deposit xfer E (s, w) to a b = Inr ((s', w'), n)" by auto
    from deposit_nonneg [OF assms(1-3) this] show ?thesis .
  next
    case (LWithdraw to sh)
    with assms(5) obtain na nb where wd: "lp_withdraw xfer E (s, w) to sh = Inr ((s', w'), (na, nb))" by auto
    from lp_withdraw_Inr [OF assms(1) this] obtain p where "lp_pool s = Some p" by blast
    from withdraw_value [OF assms(1-3) this wd] show ?thesis by blast
  next
    case (LSwap to ba out m)
    with assms(5) obtain i where "lp_swap xfer E (s, w) to ba out m = Inr ((s', w'), i)" by auto
    from lp_swap_Inr [OF assms(1) this] obtain p where p: "lp_pool s = Some p"
      and i: "amount_in_for_out E out (sd_reserve_in (mk_swap_sides p ba)) (sd_reserve_out (mk_swap_sides p ba)) (fee_bps p) = Inr i"
      and st: "settle_swap xfer E (s, w) to p ba (mk_swap_sides p ba) i out = Inr (s', w')" by auto
    have "0 \<le> fee_bps p" "fee_bps p < 10000" using assms(2) p by (auto simp: lp_inv_def fee_ok_def)
    from amount_in_pos [OF assms(1) i this] show ?thesis
      by (intro swap_nonneg [OF assms(1,3) p _ _ st]) auto
  next
    case (LSwapExactIn to ba i m)
    with assms(5) obtain out where "lp_swap_exact_in xfer E (s, w) to ba i m = Inr ((s', w'), out)" by auto
    from lp_swap_exact_in_Inr [OF assms(1) this] obtain p where p: "lp_pool s = Some p"
      and b: "0 < i" "out < sd_reserve_out (mk_swap_sides p ba)"
      and st: "settle_swap xfer E (s, w) to p ba (mk_swap_sides p ba) i out = Inr (s', w')" by auto
    from b show ?thesis by (intro swap_nonneg [OF assms(1,3) p _ _ st]) auto
  next
    case (LBurn u n)
    with assms show ?thesis by (auto simp: lp_burn_def lp_nonneg_def Let_def save_pool_def emit_lp_def get_or_upd)
  next
    case (LStake u n)
    with assms show ?thesis by (auto simp: lp_stake_def lp_nonneg_def Let_def emit_lp_def get_or_upd)
  next
    case (LUnstake u n)
    with assms show ?thesis by (auto simp: lp_unstake_def lp_nonneg_def Let_def emit_lp_def get_or_upd)
  next
    case (LClaimRewards u)
    with assms show ?thesis by (auto simp: lp_claim_rewards_def lp_nonneg_def Let_def emit_lp_def split: if_splits)
  qed (use False assms in \<open>auto simp: lp_nonneg_def lp_initialize_def lp_set_fee_def lp_set_lp_fee_bps_def
      lp_configure_fee_oracle_def lp_sync_fee_from_oracle_def lp_execute_fee_update_def
      lp_approve_def Let_def save_pool_def emit_lp_def split: if_splits dest!: lp_on_guard_Inr\<close>)
qed

interpretation pool_value: contract_machine "lp_step xfer price cb" "\<lambda>E c. overflow_checks E \<and> amounts_ok c"
    "\<lambda>sw. lp_inv (fst sw) \<and> lp_nonneg (fst sw)"
  for xfer price cb
proof
  fix E c sw sw' v
  assume "overflow_checks E \<and> amounts_ok c" "lp_inv (fst sw) \<and> lp_nonneg (fst sw)"
    "lp_step xfer price cb E sw c = Inr (sw', v)"
  then show "lp_inv (fst sw') \<and> lp_nonneg (fst sw')"
    by (cases sw, cases sw') (auto simp: lp_step_def intro: lp_exec_inv lp_exec_nonneg)
qed

text \<open>
  C1. No call dilutes the holders: as long as the amounts passed to the share operations are not
  negative, every completed call of a pool reached from deployment and with shares outstanding leaves the product of the reserves
  per squared share at least as large. Deposits, withdrawals, swaps and burns all round in favour of
  the shares that remain.
\<close>

theorem pool_share_value_never_falls:
  assumes "\<forall>c \<in> set cs. overflow_checks (fst c) \<and> amounts_ok (snd c)"
    and "(s, w) = run_calls (lp_step xfer price cb) cs (empty_lp, w0)"
    and "lp_pool s = Some p" "0 < total_shares p"
    and "overflow_checks E" "amounts_ok c" "lp_exec xfer price cb E (s, w) c = Inr (s', w')"
  shows "\<exists>p'. lp_pool s' = Some p' \<and> share_value_le p p'"
proof -
  have "lp_inv (fst (empty_lp, w0)) \<and> lp_nonneg (fst (empty_lp, w0))"
    by (simp add: empty_lp_def lp_inv_defs lp_nonneg_def pool_consts)
  from pool_value.run_inv [OF this assms(1), of xfer price cb] have "lp_inv s \<and> lp_nonneg s"
    unfolding assms(2) [symmetric] by simp
  then show ?thesis using assms(3-7) by (auto intro: lp_exec_value)
qed

theorem pool_share_value_never_falls_witness:
  "\<exists>p s' w' p'. lp_pool (fst demo_pool) = Some p \<and> 0 < total_shares p
     \<and> lp_exec client_transfer no_price (push_bit 9 1) (env0 [21]) demo_pool (LSwapExactIn 21 True 700 1) = Inr (s', w')
     \<and> lp_pool s' = Some p' \<and> share_value_le p p'"
proof -
  have "map_option (\<lambda>p. total_shares p) (lp_pool (fst demo_pool)) = Some 49970" by code_simp
  then obtain p where p: "lp_pool (fst demo_pool) = Some p" "0 < total_shares p" by auto
  have "\<not> isl (lp_exec client_transfer no_price (push_bit 9 1) (env0 [21]) demo_pool (LSwapExactIn 21 True 700 1))"
    by code_simp
  then obtain s' w' where run: "lp_exec client_transfer no_price (push_bit 9 1) (env0 [21])
      (fst demo_pool, snd demo_pool) (LSwapExactIn 21 True 700 1) = Inr (s', w')"
    by (metis isl_def old.sum.exhaust prod.collapse)
  have calls: "\<forall>c \<in> set pool_demo. overflow_checks (fst c) \<and> amounts_ok (snd c)"
    by (simp add: pool_demo_def env0_def)
  have reach: "(fst demo_pool, snd demo_pool)
      = run_calls (lp_step client_transfer no_price (push_bit 9 1)) pool_demo (empty_lp, demo_world)"
    by (simp add: demo_pool_def)
  from pool_share_value_never_falls [OF calls reach p _ _ run] p run show ?thesis by (auto simp: env0_def)
qed

end
