(* ===== verification/PoolDefects.thy ===== *)
theory PoolDefects
  imports PoolProperties
begin

text \<open>
  Two behaviours of the pool that a holder of shares would not expect: a burn of a negative amount
  creates shares, and a stake earns the rewards accumulated before it was made.
\<close>

text \<open>
  Burning a negative amount mints: no branch of \<open>burn\<close> checks the sign, so while the result fits an
  \<open>i128\<close> any account that authorises the call adds the absolute value to its own shares and to the
  total, and pays nothing into the reserves.
\<close>

theorem lp_negative_burn_mints:
  assumes "lp_pool s = Some p" "\<not> guard_is_paused (lp_guard s) BURN" "u \<in> set (auths E)" "0 < n"
    and "0 \<le> lp_balance s u"
    and "lp_balance s u + n \<le> ity_max I128" "0 \<le> total_shares p" "total_shares p + n \<le> ity_max I128"
  shows "\<exists>s'. lp_burn E s u (- n) = Inr s' \<and> lp_balance s' u = lp_balance s u + n
    \<and> lp_pool s' = Some (p\<lparr>total_shares := total_shares p + n\<rparr>)"
proof -
  have "in_range I128 (lp_balance s u + n)" "in_range I128 (total_shares p + n)"
    using assms by (auto simp: in_range_def)
  then show ?thesis using assms
    by (auto simp: lp_burn_def lp_require_not_paused_def require_auth_def load_pool_def Let_def
        save_pool_def emit_lp_def lp_balance_def fit_in_range get_or_def)
qed

theorem lp_negative_burn_mints_witness:
  "\<exists>s'. lp_burn (env0 [77]) (fst demo_pool) 77 (- 1000000) = Inr s' \<and> lp_balance s' 77 = 1000000"
proof -
  have "map_option total_shares (lp_pool (fst demo_pool)) = Some 49970" by code_simp
  then obtain p where p: "lp_pool (fst demo_pool) = Some p" "total_shares p = 49970" by auto
  have "\<not> guard_is_paused (lp_guard (fst demo_pool)) BURN" "lp_balance (fst demo_pool) 77 = 0" by code_simp+
  with lp_negative_burn_mints [OF p(1), of 77 "env0 [77]" 1000000] p(2) show ?thesis
    by (auto simp: env0_def)
qed

lemma stake_then_claim_state:
  assumes "overflow_checks E" "lp_stake E s u n = Inr s'"
  shows "lp_staked s' = (lp_staked s)(u \<mapsto> get_or (lp_staked s) u 0 + n)
    \<and> lp_user_rewards s' = lp_user_rewards s \<and> lp_guard s' = lp_guard s
    \<and> lp_last_reward_ledger s' = Some (ledger_seq E)
    \<and> (lp_last_reward_ledger s \<noteq> None \<longrightarrow> lp_acc_reward s' = Some (projected_reward_per_share E s))"
  using assms by (auto simp: lp_stake_def update_reward_state_def Let_def emit_lp_def)

lemma projected_settled:
  "lp_last_reward_ledger s = Some (ledger_seq E) \<Longrightarrow> projected_reward_per_share E s = opt_or (lp_acc_reward s) 0"
  by (simp add: projected_reward_per_share_def Let_def)

lemma update_reward_settled:
  "lp_last_reward_ledger s = Some (ledger_seq E) \<Longrightarrow> lp_acc_reward s = Some r \<Longrightarrow> update_reward_state E s = s"
  by (simp add: update_reward_state_def projected_settled opt_or_def)

text \<open>
  Rewards are not settled when a stake is made: a user with neither stake nor claims who stakes
  \<open>n\<close> shares and claims in the same ledger is paid \<open>n\<close> times the whole reward per share accumulated since
  the first stake of anybody, although the new stake was held for no time at all.
\<close>

theorem lp_late_stake_earns_past:
  assumes "overflow_checks E" "lp_stake E s u n = Inr s'" "u \<in> set (auths E)"
    and "lp_last_reward_ledger s \<noteq> None" "get_or (lp_staked s) u 0 = 0" "get_or (lp_user_rewards s) u 0 = 0"
    and "\<not> guard_is_paused (lp_guard s) claim_bit"
    and "r = projected_reward_per_share E s" "REWARD_PRECISION \<le> n * r" "n * r \<le> ity_max I128"
  shows "\<exists>s''. lp_claim_rewards claim_bit E s' u = Inr (s'', n * r div REWARD_PRECISION)
    \<and> 0 < n * r div REWARD_PRECISION"
proof -
  note st = stake_then_claim_state [OF assms(1,2)]
  have acc: "lp_acc_reward s' = Some r" using st assms(4,8) by auto
  have settled: "update_reward_state E s' = s'" "projected_reward_per_share E s' = r"
    using update_reward_settled [OF _ acc] projected_settled [of s' E] st acc by (auto simp: opt_or_def)
  have P: "0 < REWARD_PRECISION" by (simp add: REWARD_PRECISION_def)
  have pos: "0 < n * r div REWARD_PRECISION"
    using div_le_mono2 assms(9) P by (simp add: pos_imp_zdiv_pos_iff)
  have "in_range I128 (n * r)" using assms(9,10) P by (simp add: in_range_def)
  then have e: "earned_rewards E s' n = n * r div REWARD_PRECISION"
    using assms(9) P by (simp add: earned_rewards_def settled checked_def tdiv_def)
  have "n * r div REWARD_PRECISION \<le> n * r" using assms(9) P zdiv_mono2 [of "n * r" 1 REWARD_PRECISION] by simp
  with assms(10) pos have "in_range I128 (n * r div REWARD_PRECISION)" by (simp add: in_range_def)
  then have "calculate_pending_rewards E s' u n = n * r div REWARD_PRECISION"
    using st assms(6) by (simp add: calculate_pending_rewards_def e saturate_def in_range_def)
  then show ?thesis using st assms(3,5,7) pos
    by (simp add: lp_claim_rewards_def lp_require_not_paused_def require_auth_def settled Let_def get_or_def)
qed

text \<open>The example pool, after account 21 has given 500 free shares to account 77.\<close>

definition gifted_pool :: "lp \<times> tokens" where
  "gifted_pool = run_calls (lp_step client_transfer no_price (push_bit 9 1))
     [(env0 [21], LTransfer 21 77 500)] demo_pool"

theorem lp_late_stake_earns_past_witness:
  "\<exists>E s' s''. E = (env0 [77])\<lparr>ledger_seq := 5100\<rparr> \<and> lp_stake E (fst gifted_pool) 77 500 = Inr s'
     \<and> lp_claim_rewards (push_bit 9 1) E s' 77 = Inr (s'', 25000000000)"
proof -
  let ?E = "(env0 [77])\<lparr>ledger_seq := 5100\<rparr>" and ?s = "fst gifted_pool"
  have "\<not> isl (lp_stake ?E ?s 77 500)" by code_simp
  then obtain s' where run: "lp_stake ?E ?s 77 500 = Inr s'" by (metis isl_def old.sum.exhaust)
  have "lp_last_reward_ledger ?s = Some 100" "get_or (lp_staked ?s) 77 0 = 0" "get_or (lp_user_rewards ?s) 77 0 = 0"
    "\<not> guard_is_paused (lp_guard ?s) (push_bit 9 1)" "500 * projected_reward_per_share ?E ?s = 25000000000000000000000"
    by code_simp+
  with lp_late_stake_earns_past [OF _ run, of "push_bit 9 1"] run show ?thesis
    by (auto simp: env0_def REWARD_PRECISION_def)
qed

end
