(* ===== verification/Merkle.thy ===== *)
theory Merkle
  imports Prelude "HOL-Library.List_Lexorder"
begin

text \<open>
  The Merkle tree of \<open>core/src/merkle_tree.rs\<close>. SHA-256 is a library function, so it is the parameter
  \<open>sha\<close> of the definitions; where a property needs more of it than being a function, its statement says
  so, and the soundness of proofs exhibits the colliding inputs instead of excluding them.
  A hash is a byte list, compared like Rust's arrays, lexicographically.
\<close>

section \<open>Data\<close>

type_synonym bytes = "8 word list"

record proof_node =
  pn_hash :: bytes
  pn_is_left :: bool

record merkle_proof =
  mp_leaf_index :: nat
  mp_leaf :: bytes
  mp_leaf_hash :: bytes
  mp_root :: bytes
  mp_proof :: "proof_node list"

record merkle_tree =
  mt_root :: bytes
  mt_levels :: nat
  mt_leaf_count :: nat
  mt_data_leaves :: "bytes list"
  mt_nodes :: "bytes list list"

type_synonym 'a mt_res = "(string, 'a) res"

definition zero_hash :: bytes where
  "zero_hash = replicate 32 0"

definition mt_new :: "nat \<Rightarrow> merkle_tree" where
  "mt_new levels = \<lparr>mt_root = zero_hash, mt_levels = levels, mt_leaf_count = 0, mt_data_leaves = [], mt_nodes = []\<rparr>"

section \<open>Hashing helpers\<close>

definition hash_leaf :: "(bytes \<Rightarrow> bytes) \<Rightarrow> bytes \<Rightarrow> bytes" where
  "hash_leaf sha data = (let digest1 = sha data in sha digest1)"

definition hash_pair :: "(bytes \<Rightarrow> bytes) \<Rightarrow> bytes \<Rightarrow> bytes \<Rightarrow> bytes" where
  "hash_pair sha left right = sha (if left \<le> right then left @ right else right @ left)"

definition hash_concat :: "(bytes \<Rightarrow> bytes) \<Rightarrow> bytes \<Rightarrow> bytes \<Rightarrow> bytes" where
  "hash_concat sha left right = sha (left @ right)"

section \<open>Construction\<close>

text \<open>The inner loop of \<open>build_levels\<close>: neighbours are paired, an odd last node is paired with itself.\<close>

fun next_level :: "(bytes \<Rightarrow> bytes) \<Rightarrow> bytes list \<Rightarrow> bytes list" where
  "next_level sha (left # right # rest) = hash_pair sha left right # next_level sha rest"
| "next_level sha [left] = [hash_pair sha left left]"
| "next_level sha [] = []"

text \<open>The outer loop. It does not end on an empty level, for which the value is \<open>None\<close>.\<close>

partial_function (option) build_levels :: "(bytes \<Rightarrow> bytes) \<Rightarrow> bytes list \<Rightarrow> bytes list list option" where
  "build_levels sha current_level =
     (if length current_level = 1 then Some [current_level]
      else Option.bind (build_levels sha (next_level sha current_level)) (\<lambda>levels. Some (current_level # levels)))"

declare build_levels.simps [code]

text \<open>\<open>MerkleTree::build\<close>; a \<open>usize\<close> has 64 bits. \<open>None\<close> would mean that the call does not return.\<close>

definition mt_build :: "(bytes \<Rightarrow> bytes) \<Rightarrow> merkle_tree \<Rightarrow> bytes list \<Rightarrow> merkle_tree mt_res option" where
  "mt_build sha t leaves =
     (if leaves = [] then Some (Inl (Err ''Cannot build a Merkle tree from zero leaves.''))
      else
        let max_leaves = (if mt_levels t \<ge> 64 then 2 ^ 64 - 1 else 2 ^ mt_levels t) in
        if length leaves > max_leaves then Some (Inl (Err ''Leaf count exceeds configured tree capacity.''))
        else
          Option.bind (build_levels sha (map (hash_leaf sha) leaves)) (\<lambda>nodes.
          Some (if nodes = [] \<or> last nodes = [] then Inl (Err ''Failed to calculate tree root.'')
                else Inr (t\<lparr>mt_nodes := nodes, mt_root := hd (last nodes), mt_data_leaves := leaves,
                            mt_leaf_count := length leaves\<rparr>))))"

text \<open>\<open>from_hex_strings\<close>; \<open>hex::decode\<close> is the parameter \<open>decode\<close>.\<close>

fun decode_all :: "(string \<Rightarrow> bytes option) \<Rightarrow> string list \<Rightarrow> (string, bytes list) res" where
  "decode_all decode [] = Inr []"
| "decode_all decode (h # hs) =
     rbind (ok_or ''Invalid hex encoding in leaf data.'' (decode h)) (\<lambda>b.
     rbind (decode_all decode hs) (\<lambda>bs. Inr (b # bs)))"

definition mt_from_hex_strings ::
  "(bytes \<Rightarrow> bytes) \<Rightarrow> (string \<Rightarrow> bytes option) \<Rightarrow> string list \<Rightarrow> merkle_tree mt_res option" where
  "mt_from_hex_strings sha decode hex_leaves =
     (case decode_all decode hex_leaves of
        Inl e \<Rightarrow> Some (Inl e)
      | Inr leaves \<Rightarrow> mt_build sha (mt_new 32) leaves)"

definition mt_depth :: "merkle_tree \<Rightarrow> nat" where
  "mt_depth t = length (mt_nodes t) - 1"

section \<open>Proof generation\<close>

text \<open>Indexing a vector out of bounds panics.\<close>

definition index :: "'a list \<Rightarrow> nat \<Rightarrow> ('e, 'a) res" where
  "index xs i = (if i < length xs then Inr (xs ! i) else Inl (Panic (Message ''index out of bounds'')))"

text \<open>One level of the walk: the sibling of the node at \<open>path_index\<close>, and the order of the two.\<close>

definition proof_step :: "bytes list \<Rightarrow> nat \<Rightarrow> proof_node mt_res" where
  "proof_step level_nodes path_index =
     (let sibling_index = (if path_index mod 2 = 0 then path_index + 1 else path_index - 1) in
      rbind (if sibling_index < length level_nodes then index level_nodes sibling_index
             else index level_nodes path_index) (\<lambda>sibling_hash.
      rbind (index level_nodes path_index) (\<lambda>own.
      Inr \<lparr>pn_hash = sibling_hash, pn_is_left = (own \<le> sibling_hash)\<rparr>)))"

fun proof_path :: "bytes list list \<Rightarrow> nat \<Rightarrow> proof_node list mt_res" where
  "proof_path [] path_index = Inr []"
| "proof_path (level_nodes # rest) path_index =
     rbind (proof_step level_nodes path_index) (\<lambda>node.
     rbind (proof_path rest (path_index div 2)) (\<lambda>nodes. Inr (node # nodes)))"

definition assemble_proof :: "merkle_tree \<Rightarrow> nat \<Rightarrow> proof_node list \<Rightarrow> merkle_proof mt_res" where
  "assemble_proof t leaf_index path =
     rbind (index (mt_data_leaves t) leaf_index) (\<lambda>leaf.
     rbind (index (mt_nodes t) 0) (\<lambda>level0.
     rbind (index level0 leaf_index) (\<lambda>leaf_hash.
     Inr \<lparr>mp_leaf_index = leaf_index, mp_leaf = leaf, mp_leaf_hash = leaf_hash, mp_root = mt_root t,
          mp_proof = path\<rparr>)))"

definition mt_generate_proof :: "merkle_tree \<Rightarrow> nat \<Rightarrow> merkle_proof mt_res" where
  "mt_generate_proof t leaf_index =
     (if mt_nodes t = [] then Inl (Err ''Cannot generate proof before building the tree.'')
      else if leaf_index \<ge> mt_leaf_count t then Inl (Err ''Leaf index is out of bounds.'')
      else rbind (proof_path (take (mt_depth t) (mt_nodes t)) leaf_index) (\<lambda>path.
           assemble_proof t leaf_index path))"

text \<open>\<open>generate_proofs_batch\<close> keeps, for each requested leaf, its current node index and the proof collected
  so far; the loops run over the levels and, within a level, over the requests.\<close>

fun batch_level :: "bytes list \<Rightarrow> (nat \<times> proof_node list) list \<Rightarrow> (nat \<times> proof_node list) list mt_res" where
  "batch_level level_nodes [] = Inr []"
| "batch_level level_nodes ((path_idx, path) # rest) =
     rbind (proof_step level_nodes path_idx) (\<lambda>node.
     rbind (batch_level level_nodes rest) (\<lambda>rest'.
     Inr ((path_idx div 2, path @ [node]) # rest')))"

fun batch_levels ::
  "bytes list list \<Rightarrow> (nat \<times> proof_node list) list \<Rightarrow> (nat \<times> proof_node list) list mt_res" where
  "batch_levels [] st = Inr st"
| "batch_levels (level_nodes # rest) st = rbind (batch_level level_nodes st) (batch_levels rest)"

fun assemble_all :: "merkle_tree \<Rightarrow> (nat \<times> proof_node list) list \<Rightarrow> merkle_proof list mt_res" where
  "assemble_all t [] = Inr []"
| "assemble_all t ((leaf_index, path) # rest) =
     rbind (assemble_proof t leaf_index path) (\<lambda>p.
     rbind (assemble_all t rest) (\<lambda>ps. Inr (p # ps)))"

definition mt_generate_proofs_batch :: "merkle_tree \<Rightarrow> nat list \<Rightarrow> merkle_proof list mt_res" where
  "mt_generate_proofs_batch t indices =
     (if mt_nodes t = [] then Inl (Err ''Cannot generate proof before building the tree.'')
      else if list_ex (\<lambda>idx. idx \<ge> mt_leaf_count t) indices then Inl (Err ''Leaf index is out of bounds.'')
      else rbind (batch_levels (take (mt_depth t) (mt_nodes t)) (map (\<lambda>i. (i, [])) indices)) (\<lambda>st.
           assemble_all t (zip indices (map snd st))))"

section \<open>Verification\<close>

fun verify_loop :: "(bytes \<Rightarrow> bytes) \<Rightarrow> bytes \<Rightarrow> proof_node list \<Rightarrow> bytes" where
  "verify_loop sha current [] = current"
| "verify_loop sha current (node # rest) =
     verify_loop sha (if pn_is_left node then hash_concat sha current (pn_hash node)
                      else hash_concat sha (pn_hash node) current) rest"

definition verify_start :: "(bytes \<Rightarrow> bytes) \<Rightarrow> merkle_proof \<Rightarrow> bytes" where
  "verify_start sha p = (if mp_leaf_hash p = zero_hash then hash_leaf sha (mp_leaf p) else mp_leaf_hash p)"

definition mt_verify_proof :: "(bytes \<Rightarrow> bytes) \<Rightarrow> merkle_proof \<Rightarrow> bytes \<Rightarrow> bool" where
  "mt_verify_proof sha p root \<longleftrightarrow> verify_loop sha (verify_start sha p) (mp_proof p) = root"

definition mp_verify :: "(bytes \<Rightarrow> bytes) \<Rightarrow> merkle_proof \<Rightarrow> bool" where
  "mp_verify sha p \<longleftrightarrow> verify_loop sha (verify_start sha p) (mp_proof p) = mp_root p"

end
