(* ===== verification/MerkleProperties.thy ===== *)
theory MerkleProperties
  imports Merkle
begin

unbundle bit_operations_syntax

text \<open>
  Properties of the Merkle tree: construction terminates with levels of the right height, generated
  proofs verify, batch generation agrees with single generation, and a proof that verifies either
  starts at a node of the tree or exhibits a collision of the hash function.
\<close>

section \<open>Construction\<close>

lemma length_next_level [simp]: "length (next_level sha L) = (length L + 1) div 2"
  by (induction sha L rule: next_level.induct) auto

lemma next_level_Nil [simp]: "next_level sha L = [] \<longleftrightarrow> L = []"
  by (induction sha L rule: next_level.induct) auto

text \<open>The children of a node: a node and its sibling, the last node of an odd level being its own sibling.\<close>

definition sibling :: "'a list \<Rightarrow> nat \<Rightarrow> 'a" where
  "sibling L i = (let s = (if even i then i + 1 else i - 1) in if s < length L then L ! s else L ! i)"

lemma hash_pair_commute: "hash_pair sha a b = hash_pair sha b a"
  by (auto simp: hash_pair_def)

lemma next_level_nth:
  "i < length L \<Longrightarrow> next_level sha L ! (i div 2) = hash_pair sha (L ! i) (sibling L i)"
proof (induction sha L arbitrary: i rule: next_level.induct)
  case (1 sha l r rest)
  consider "i = 0" | "i = 1" | j where "i = Suc (Suc j)" by (cases i; cases "i - 1") auto
  then show ?case
  proof cases
    case 3
    with 1(2) have "j < length rest" by simp
    from 1(1) [OF this] 3 show ?thesis by (auto simp: sibling_def Let_def nth_Cons')
  qed (auto simp: sibling_def hash_pair_commute)
qed (auto simp: sibling_def)

fun linked :: "(bytes \<Rightarrow> bytes) \<Rightarrow> bytes list list \<Rightarrow> bool" where
  "linked sha [] = False"
| "linked sha [L] = (length L = 1)"
| "linked sha (L # M # Ls) = (2 \<le> length L \<and> M = next_level sha L \<and> linked sha (M # Ls))"

lemma build_levels_linked:
  assumes "L \<noteq> []"
  shows "\<exists>Ls. build_levels sha L = Some (L # Ls) \<and> linked sha (L # Ls)"
  using assms
proof (induction "length L" arbitrary: L rule: less_induct)
  case less
  show ?case
  proof (cases "length L = 1")
    case True
    then show ?thesis by (simp add: build_levels.simps)
  next
    case False
    with less.prems have n: "2 \<le> length L" by (cases L) (auto simp: neq_Nil_conv)
    then have "length (next_level sha L) < length L" by simp
    moreover have "next_level sha L \<noteq> []" using less.prems by simp
    ultimately obtain Ls where "build_levels sha (next_level sha L) = Some (next_level sha L # Ls)"
      "linked sha (next_level sha L # Ls)" using less.hyps by blast
    moreover have "build_levels sha L = Option.bind (build_levels sha (next_level sha L)) (\<lambda>levels. Some (L # levels))"
      using False by (subst build_levels.simps) simp
    ultimately show ?thesis using n by auto
  qed
qed

lemma linked_last: "linked sha Ls \<Longrightarrow> Ls \<noteq> [] \<and> length (last Ls) = 1"
  by (induction sha Ls rule: linked.induct) auto

lemma mt_build_ok:
  assumes "leaves \<noteq> []" "length leaves \<le> (if mt_levels t \<ge> 64 then 2 ^ 64 - 1 else 2 ^ mt_levels t)"
  shows "\<exists>Ls t'. mt_build sha t leaves = Some (Inr t')
    \<and> t' = t\<lparr>mt_nodes := map (hash_leaf sha) leaves # Ls, mt_root := hd (last (map (hash_leaf sha) leaves # Ls)),
             mt_data_leaves := leaves, mt_leaf_count := length leaves\<rparr>
    \<and> linked sha (map (hash_leaf sha) leaves # Ls)"
proof -
  from assms(1) obtain Ls where Ls: "build_levels sha (map (hash_leaf sha) leaves) = Some (map (hash_leaf sha) leaves # Ls)"
    "linked sha (map (hash_leaf sha) leaves # Ls)" using build_levels_linked by (metis map_is_Nil_conv)
  moreover from linked_last [OF Ls(2)] have "last (map (hash_leaf sha) leaves # Ls) \<noteq> []"
    by (metis list.size(3) zero_neq_one)
  ultimately have "mt_build sha t leaves = Some (Inr (t\<lparr>mt_nodes := map (hash_leaf sha) leaves # Ls,
      mt_root := hd (last (map (hash_leaf sha) leaves # Ls)), mt_data_leaves := leaves,
      mt_leaf_count := length leaves\<rparr>))"
    using assms by (simp add: mt_build_def Let_def del: last.simps)
  with Ls(2) show ?thesis by blast
qed

text \<open>What a successful build leaves behind.\<close>

definition built :: "(bytes \<Rightarrow> bytes) \<Rightarrow> merkle_tree \<Rightarrow> bool" where
  "built sha t \<longleftrightarrow> linked sha (mt_nodes t) \<and> hd (mt_nodes t) = map (hash_leaf sha) (mt_data_leaves t)
     \<and> mt_root t = hd (last (mt_nodes t)) \<and> mt_leaf_count t = length (mt_data_leaves t)"

lemma mt_build_built:
  assumes "mt_build sha t leaves = Some (Inr t')"
  shows "built sha t' \<and> mt_data_leaves t' = leaves"
proof -
  from assms have "leaves \<noteq> []" "length leaves \<le> (if mt_levels t \<ge> 64 then 2 ^ 64 - 1 else 2 ^ mt_levels t)"
    by (auto simp: mt_build_def Let_def split: if_splits)
  from mt_build_ok [OF this, of sha] assms show ?thesis by (auto simp: built_def)
qed

text \<open>The height: the least depth whose power of two holds all leaves.\<close>

lemma linked_height:
  "linked sha (L # Ls) \<Longrightarrow> length L \<le> 2 ^ length Ls \<and> (Ls \<noteq> [] \<longrightarrow> 2 ^ (length Ls - 1) < length L)"
proof (induction Ls arbitrary: L)
  case (Cons M Ls)
  from Cons.prems have M: "2 \<le> length L" "length M = (length L + 1) div 2" and "linked sha (M # Ls)" by auto
  with Cons.IH have IH: "length M \<le> 2 ^ length Ls" "Ls \<noteq> [] \<longrightarrow> 2 ^ (length Ls - 1) < length M" by blast+
  show ?case
  proof (cases Ls)
    case Nil
    with M IH show ?thesis by simp
  next
    case (Cons K Ks)
    with IH M have "2 ^ length Ks < (length L + 1) div 2" "(length L + 1) div 2 \<le> 2 * 2 ^ length Ks" by simp_all
    then have "2 * 2 ^ length Ks < length L" "length L \<le> 2 * (2 * 2 ^ length Ks)" by linarith+
    with Cons show ?thesis by simp
  qed
qed simp

section \<open>Generated proofs verify\<close>

lemma proof_step_Inr:
  "i < length L \<Longrightarrow> proof_step L i = Inr \<lparr>pn_hash = sibling L i, pn_is_left = (L ! i \<le> sibling L i)\<rparr>"
  by (simp add: proof_step_def index_def sibling_def Let_def even_iff_mod_2_eq_zero)

lemma verify_loop_step:
  "verify_loop sha a (\<lparr>pn_hash = b, pn_is_left = (a \<le> b)\<rparr> # ns) = verify_loop sha (hash_pair sha a b) ns"
  by (simp add: hash_pair_def hash_concat_def)

lemma proof_path_ok:
  assumes "linked sha Ls" "i < length (hd Ls)"
  shows "\<exists>ns. proof_path (take (length Ls - 1) Ls) i = Inr ns \<and> length ns = length Ls - 1
    \<and> verify_loop sha (hd Ls ! i) ns = hd (last Ls)"
  using assms
proof (induction sha Ls arbitrary: i rule: linked.induct)
  case (2 sha L)
  then show ?case by (cases L) auto
next
  case (3 sha L M Ls)
  then have M: "M = next_level sha L" and i: "i < length L" "i div 2 < length M" by auto
  with 3 obtain ns where ns: "proof_path (take (length Ls) (M # Ls)) (i div 2) = Inr ns" "length ns = length Ls"
    "verify_loop sha (M ! (i div 2)) ns = hd (last (M # Ls))" by auto
  let ?n = "\<lparr>pn_hash = sibling L i, pn_is_left = (L ! i \<le> sibling L i)\<rparr>"
  have "proof_path (take (length (L # M # Ls) - 1) (L # M # Ls)) i = Inr (?n # ns)"
    using ns i by (simp add: proof_step_Inr)
  moreover have "verify_loop sha (L ! i) (?n # ns) = hd (last (M # Ls))"
    using ns M i by (simp only: verify_loop_step next_level_nth)
  ultimately show ?case using ns(2) by (intro exI [of _ "?n # ns"]) (simp del: verify_loop.simps)
qed simp

lemma generate_proof_ok:
  assumes "built sha t" "i < mt_leaf_count t"
  shows "\<exists>ns. proof_path (take (mt_depth t) (mt_nodes t)) i = Inr ns \<and> length ns = mt_depth t
    \<and> verify_loop sha (hash_leaf sha (mt_data_leaves t ! i)) ns = mt_root t
    \<and> (\<forall>path. assemble_proof t i path = Inr \<lparr>mp_leaf_index = i, mp_leaf = mt_data_leaves t ! i,
         mp_leaf_hash = hash_leaf sha (mt_data_leaves t ! i), mp_root = mt_root t, mp_proof = path\<rparr>)"
proof -
  have h: "linked sha (mt_nodes t)" "hd (mt_nodes t) = map (hash_leaf sha) (mt_data_leaves t)"
    "i < length (mt_data_leaves t)" using assms by (auto simp: built_def)
  from h(1) have ne: "mt_nodes t \<noteq> []" by auto
  then have z: "mt_nodes t ! 0 = map (hash_leaf sha) (mt_data_leaves t)" using h(2) by (simp add: hd_conv_nth)
  from h have "i < length (hd (mt_nodes t))" by simp
  from proof_path_ok [OF h(1) this] assms h z ne show ?thesis
    by (auto simp: mt_depth_def built_def assemble_proof_def index_def)
qed


text \<open>A concrete stand-in for the hash function, for examples.\<close>

definition toy_sha :: "bytes \<Rightarrow> bytes" where
  "toy_sha x = (case x of [] \<Rightarrow> 1 | b # bs \<Rightarrow> b XOR 5) # replicate 31 7"

definition toy_tree :: merkle_tree where
  "toy_tree = (case mt_build toy_sha (mt_new 32) [[1], [2], [3]] of Some (Inr t) \<Rightarrow> t | _ \<Rightarrow> mt_new 32)"

lemma toy_tree_build: "mt_build toy_sha (mt_new 32) [[1], [2], [3]] = Some (Inr toy_tree)"
proof -
  have "\<exists>t. mt_build toy_sha (mt_new 32) [[1], [2], [3]] = Some (Inr t)"
    using mt_build_ok [of "[[1], [2], [3]]" "mt_new 32" toy_sha] by (auto simp: mt_new_def)
  then show ?thesis by (auto simp: toy_tree_def)
qed


section \<open>Batch generation\<close>

lemma batch_levels_ok:
  "\<forall>ip \<in> set st. \<exists>ns. proof_path Ls (fst ip) = Inr ns \<Longrightarrow>
   \<exists>st'. batch_levels Ls st = Inr st' \<and> length st' = length st
     \<and> (\<forall>k < length st. \<exists>ns. proof_path Ls (fst (st ! k)) = Inr ns \<and> snd (st' ! k) = snd (st ! k) @ ns)"
proof (induction Ls arbitrary: st)
  case Nil
  then show ?case by simp
next
  case (Cons L Ls)
  have step: "\<exists>st1. batch_level L st = Inr st1 \<and> length st1 = length st
    \<and> (\<forall>k < length st. \<exists>n. proof_step L (fst (st ! k)) = Inr n
         \<and> st1 ! k = (fst (st ! k) div 2, snd (st ! k) @ [n]))" using Cons.prems
  proof (induction st)
    case (Cons ip st)
    obtain i path where ip: "ip = (i, path)" by (cases ip)
    with Cons.prems obtain n where n: "proof_step L i = Inr n" by auto
    from Cons obtain st1 where st1: "batch_level L st = Inr st1" "length st1 = length st"
      "\<forall>k < length st. \<exists>n. proof_step L (fst (st ! k)) = Inr n
         \<and> st1 ! k = (fst (st ! k) div 2, snd (st ! k) @ [n])" by (meson list.set_intros(2))
    then show ?case using n ip by (auto simp: nth_Cons split: nat.splits)
  qed simp
  then obtain st1 where st1: "batch_level L st = Inr st1" "length st1 = length st"
    "\<And>k. k < length st \<Longrightarrow> \<exists>n. proof_step L (fst (st ! k)) = Inr n
         \<and> st1 ! k = (fst (st ! k) div 2, snd (st ! k) @ [n])" by blast
  have nxt: "\<exists>ns. proof_path Ls i = Inr ns" if "(i, path) \<in> set st1" for i path
  proof -
    from that obtain k where k: "k < length st" "st1 ! k = (i, path)" by (metis in_set_conv_nth st1(2))
    moreover from k(1) Cons.prems have "\<exists>ns. proof_path (L # Ls) (fst (st ! k)) = Inr ns" by (metis nth_mem)
    ultimately show ?thesis using st1(3) [of k] by auto
  qed
  obtain st' where st': "batch_levels Ls st1 = Inr st'" "length st' = length st"
    "\<forall>k < length st. \<exists>ns. proof_path Ls (fst (st1 ! k)) = Inr ns \<and> snd (st' ! k) = snd (st1 ! k) @ ns"
    using Cons.IH [of st1] nxt unfolding st1(2) by fastforce
  have "\<exists>ns. proof_path (L # Ls) (fst (st ! k)) = Inr ns \<and> snd (st' ! k) = snd (st ! k) @ ns" if "k < length st" for k
    using st'(3) st1(3) [OF that] that by fastforce
  with st1(1) st'(1,2) show ?case by auto
qed

text \<open>The sequential reference: one call after another, stopping at the first error.\<close>

fun collect :: "('a \<Rightarrow> ('e, 'b) res) \<Rightarrow> 'a list \<Rightarrow> ('e, 'b list) res" where
  "collect f [] = Inr []"
| "collect f (x # xs) = rbind (f x) (\<lambda>y. rbind (collect f xs) (\<lambda>ys. Inr (y # ys)))"

lemma collect_cong: "(\<And>x. x \<in> set xs \<Longrightarrow> f x = g x) \<Longrightarrow> collect f xs = collect g xs"
  by (induction xs) auto

lemma assemble_all_zip:
  "list_all2 (\<lambda>i path. proof_path Ls i = Inr path) is paths \<Longrightarrow>
     assemble_all t (zip is paths) = collect (\<lambda>i. rbind (proof_path Ls i) (assemble_proof t i)) is"
  by (induction rule: list_all2_induct) auto

lemma collect_single_error:
  "\<exists>x \<in> set xs. f x = Inl e \<Longrightarrow> \<forall>x \<in> set xs. f x = Inl e \<or> (\<exists>y. f x = Inr y) \<Longrightarrow> collect f xs = Inl e"
proof (induction xs)
  case (Cons x xs)
  show ?case
  proof (cases "f x = Inl e")
    case False
    with Cons.prems obtain y where "f x = Inr y" by auto
    with Cons False show ?thesis by auto
  qed simp
qed simp

text \<open>
  Batch generation is single generation: on a built tree \<open>generate_proofs_batch\<close> returns exactly
  what calling \<open>generate_proof\<close> on each index in turn returns, errors included.
\<close>

theorem merkle_batch_is_sequential:
  assumes "mt_build sha t leaves = Some (Inr t')"
  shows "mt_generate_proofs_batch t' is = collect (mt_generate_proof t') is"
proof -
  from mt_build_built [OF assms] have b: "built sha t'" by simp
  then have ne: "mt_nodes t' \<noteq> []" by (auto simp: built_def)
  let ?Ls = "take (mt_depth t') (mt_nodes t')" and ?oob = "Err ''Leaf index is out of bounds.''"
  let ?one = "\<lambda>i. rbind (proof_path ?Ls i) (assemble_proof t' i)"
  note ok = generate_proof_ok [OF b]
  have single: "mt_generate_proof t' i = (if mt_leaf_count t' \<le> i then Inl ?oob else ?one i)" for i
    using ne by (simp add: mt_generate_proof_def)
  show ?thesis
  proof (cases "\<forall>i \<in> set is. i < mt_leaf_count t'")
    case True
    with ok have "\<forall>ip \<in> set (map (\<lambda>i. (i, [])) is). \<exists>ns. proof_path ?Ls (fst ip) = Inr ns"
      by fastforce
    from batch_levels_ok [OF this] obtain st' where st':
      "batch_levels ?Ls (map (\<lambda>i. (i, [])) is) = Inr st'" "length st' = length is"
      "\<forall>k < length is. proof_path ?Ls (is ! k) = Inr (snd (st' ! k))" by auto
    then have "list_all2 (\<lambda>i path. proof_path ?Ls i = Inr path) is (map snd st')"
      by (simp add: list_all2_conv_all_nth)
    from assemble_all_zip [OF this, of t'] have "mt_generate_proofs_batch t' is = collect ?one is"
      using ne True st'(1) by (auto simp: mt_generate_proofs_batch_def list_ex_iff not_le)
    moreover have "collect ?one is = collect (mt_generate_proof t') is"
      by (rule collect_cong) (use True in \<open>fastforce simp: single\<close>)
    ultimately show ?thesis by simp
  next
    case False
    then have "\<exists>i \<in> set is. mt_generate_proof t' i = Inl ?oob" using single by (meson not_less)
    moreover have "\<forall>i \<in> set is. mt_generate_proof t' i = Inl ?oob \<or> (\<exists>p. mt_generate_proof t' i = Inr p)"
    proof
      fix i
      show "mt_generate_proof t' i = Inl ?oob \<or> (\<exists>p. mt_generate_proof t' i = Inr p)"
        using single [of i] ok [of i] by (cases "mt_leaf_count t' \<le> i") auto
    qed
    ultimately have "collect (mt_generate_proof t') is = Inl ?oob" by (rule collect_single_error)
    with ne False show ?thesis by (auto simp: mt_generate_proofs_batch_def list_ex_iff not_less)
  qed
qed

theorem merkle_batch_is_sequential_witness:
  "mt_generate_proofs_batch toy_tree [2, 0, 2] = collect (mt_generate_proof toy_tree) [2, 0, 2]
   \<and> mt_generate_proofs_batch toy_tree [0, 3] = collect (mt_generate_proof toy_tree) [0, 3]"
  using merkle_batch_is_sequential [OF toy_tree_build] by blast

section \<open>Soundness of verification\<close>

text \<open>The strings hashed while a proof is checked, and those hashed while a level is paired up.\<close>

fun proof_inputs :: "(bytes \<Rightarrow> bytes) \<Rightarrow> bytes \<Rightarrow> proof_node list \<Rightarrow> bytes list" where
  "proof_inputs sha current [] = []"
| "proof_inputs sha current (node # rest) =
     (let x = (if pn_is_left node then current @ pn_hash node else pn_hash node @ current)
      in x # proof_inputs sha (sha x) rest)"

definition sorted_pair :: "bytes \<Rightarrow> bytes \<Rightarrow> bytes" where
  "sorted_pair l r = (if l \<le> r then l @ r else r @ l)"

fun level_inputs :: "bytes list \<Rightarrow> bytes list" where
  "level_inputs (l # r # rest) = sorted_pair l r # level_inputs rest"
| "level_inputs [l] = [l @ l]"
| "level_inputs [] = []"

definition tree_inputs :: "merkle_tree \<Rightarrow> bytes list" where
  "tree_inputs t = concat (map level_inputs (mt_nodes t))"

text \<open>Two different strings, one from each list, with the same hash.\<close>

definition collide :: "(bytes \<Rightarrow> bytes) \<Rightarrow> bytes list \<Rightarrow> bytes list \<Rightarrow> bool" where
  "collide sha xs ys \<longleftrightarrow> list_ex (\<lambda>x. list_ex (\<lambda>y. x \<noteq> y \<and> sha x = sha y) ys) xs"

lemma next_level_inputs: "next_level sha L = map sha (level_inputs L)"
  by (induction sha L rule: next_level.induct) (auto simp: hash_pair_def sorted_pair_def)

lemma level_inputs_parts: "x \<in> set (level_inputs L) \<Longrightarrow> \<exists>l \<in> set L. \<exists>r \<in> set L. x = l @ r"
  by (induction L rule: level_inputs.induct) (auto simp: sorted_pair_def split: if_splits)

lemma collideI: "x \<in> set xs \<Longrightarrow> y \<in> set ys \<Longrightarrow> sha x = sha y \<Longrightarrow> x = y \<or> collide sha xs ys"
  by (auto simp: collide_def list_ex_iff)

lemma collide_mono: "collide sha xs ys \<Longrightarrow> set xs \<subseteq> set xs' \<Longrightarrow> set ys \<subseteq> set ys' \<Longrightarrow> collide sha xs' ys'"
  by (fastforce simp: collide_def list_ex_iff)

definition node_input :: "bytes \<Rightarrow> proof_node \<Rightarrow> bytes" where
  "node_input c n = (if pn_is_left n then c @ pn_hash n else pn_hash n @ c)"

lemma verify_loop_snoc: "verify_loop sha c (ns @ [n]) = sha (node_input (verify_loop sha c ns) n)"
  by (induction sha c ns rule: verify_loop.induct) (simp_all add: node_input_def hash_concat_def)

lemma proof_inputs_snoc:
  "proof_inputs sha c (ns @ [n]) = proof_inputs sha c ns @ [node_input (verify_loop sha c ns) n]"
  by (induction sha c ns rule: proof_inputs.induct) (simp_all add: node_input_def hash_concat_def Let_def)

lemma verify_loop_length:
  "\<forall>x. length (sha x) = 32 \<Longrightarrow> length c = 32 \<Longrightarrow> length (verify_loop sha c ns) = 32"
  by (induction ns rule: rev_induct) (simp_all add: verify_loop_snoc)

lemma linked_nth: "linked sha Ls \<Longrightarrow> Suc m < length Ls \<Longrightarrow> Ls ! Suc m = next_level sha (Ls ! m)"
proof (induction sha Ls arbitrary: m rule: linked.induct)
  case (3 sha L M Ls)
  then show ?case by (cases m) auto
qed auto

lemma node_input_part:
  assumes "node_input c n = l @ r" "length c = 32" "length (pn_hash n) = 32" "length l = 32" "length r = 32"
  shows "c = l \<or> c = r"
  using assms by (auto simp: node_input_def split: if_splits)

lemma verify_loop_sound:
  assumes "linked sha Ls" "\<forall>x. length (sha x) = 32" "\<forall>L \<in> set Ls. \<forall>h \<in> set L. length h = 32" "length start = 32"
  shows "\<lbrakk>\<forall>n \<in> set ns. length (pn_hash n) = 32; length ns \<le> m; m < length Ls; verify_loop sha start ns \<in> set (Ls ! m)\<rbrakk>
    \<Longrightarrow> start \<in> set (Ls ! (m - length ns))
      \<or> collide sha (proof_inputs sha start ns) (concat (map level_inputs Ls))"
proof (induction ns arbitrary: m rule: rev_induct)
  case (snoc n ns)
  then obtain k where m: "m = Suc k" "k < length Ls" by (cases m) auto
  let ?c = "verify_loop sha start ns"
  from snoc.prems m obtain x where x: "x \<in> set (level_inputs (Ls ! k))" "sha (node_input ?c n) = sha x"
    by (auto simp: verify_loop_snoc linked_nth [OF assms(1)] next_level_inputs)
  have "x \<in> set (concat (map level_inputs Ls))" using x(1) m(2) by auto
  from collideI [OF _ this x(2)] have or: "node_input ?c n = x
      \<or> collide sha (proof_inputs sha start (ns @ [n])) (concat (map level_inputs Ls))"
    by (simp add: proof_inputs_snoc)
  show ?case
  proof (cases "node_input ?c n = x")
    case True
    from level_inputs_parts [OF x(1)] obtain l r where lr: "l \<in> set (Ls ! k)" "r \<in> set (Ls ! k)" "x = l @ r" by blast
    with assms(3) m(2) have "length l = 32" "length r = 32" by (meson nth_mem)+
    with node_input_part [of ?c n l r] True lr snoc.prems(1) verify_loop_length [OF assms(2,4)]
    have "?c \<in> set (Ls ! k)" by auto
    from snoc.IH [OF _ _ m(2) this] snoc.prems m(1) show ?thesis
      by (auto simp: proof_inputs_snoc intro: collide_mono)
  qed (use or in blast)
qed simp

lemma linked_lengths:
  "\<lbrakk>linked sha Ls; \<forall>x. length (sha x) = 32; \<forall>h \<in> set (hd Ls). length h = 32\<rbrakk>
   \<Longrightarrow> \<forall>L \<in> set Ls. \<forall>h \<in> set L. length h = 32"
  by (induction sha Ls rule: linked.induct) (auto simp: next_level_inputs)

lemma proof_path_lengths:
  "\<forall>L \<in> set Ls. \<forall>h \<in> set L. length h = 32 \<Longrightarrow> proof_path Ls i = Inr ns \<Longrightarrow> \<forall>n \<in> set ns. length (pn_hash n) = 32"
  by (induction Ls arbitrary: i ns) (auto simp: proof_step_def index_def Let_def split: if_splits)

lemma built_sound:
  assumes "built sha t" "\<forall>x. length (sha x) = 32" "length start = 32" "\<forall>n \<in> set ns. length (pn_hash n) = 32"
    and "length ns \<le> mt_depth t" "verify_loop sha start ns = mt_root t"
  shows "start \<in> set (mt_nodes t ! (mt_depth t - length ns)) \<or> collide sha (proof_inputs sha start ns) (tree_inputs t)"
proof -
  have l: "linked sha (mt_nodes t)" and r: "mt_root t = hd (last (mt_nodes t))"
    and h: "hd (mt_nodes t) = map (hash_leaf sha) (mt_data_leaves t)" using assms(1) by (auto simp: built_def)
  note last = linked_last [OF l]
  then have "mt_root t \<in> set (mt_nodes t ! mt_depth t)" "mt_depth t < length (mt_nodes t)"
    unfolding r mt_depth_def by (cases "last (mt_nodes t)"; force simp: last_conv_nth)+
  with verify_loop_sound [OF l assms(2) linked_lengths [OF l assms(2)] assms(3,4,5)] assms(2,6) show ?thesis
    by (simp add: h hash_leaf_def tree_inputs_def)
qed

text \<open>
  C12. Verified proofs are sound: if a proof of full length verifies against the root of a built tree, and
  its leaf hash is the hash of its payload or left to be computed, then its payload is one of the
  leaves, or the check has produced a SHA-256 collision: two different strings, one hashed in the
  check and one in the construction of the tree, with the same digest. All hashes are 32 bytes long.
\<close>

theorem merkle_proof_sound:
  assumes "\<forall>x. length (sha x) = 32" "mt_build sha t leaves = Some (Inr t')"
    and "mt_verify_proof sha p (mt_root t')" "length (mp_proof p) = mt_depth t'"
    and "mp_leaf_hash p = zero_hash \<or> mp_leaf_hash p = hash_leaf sha (mp_leaf p)"
    and "\<forall>n \<in> set (mp_proof p). length (pn_hash n) = 32"
  shows "mp_leaf p \<in> set leaves
    \<or> collide sha (mp_leaf p # sha (mp_leaf p) # proof_inputs sha (hash_leaf sha (mp_leaf p)) (mp_proof p))
        (leaves @ map sha leaves @ tree_inputs t')" (is "_ \<or> collide sha ?X ?Y")
proof -
  from mt_build_built [OF assms(2)] have b: "built sha t'" and l: "mt_data_leaves t' = leaves" by auto
  let ?start = "hash_leaf sha (mp_leaf p)"
  have len: "length ?start = 32" using assms(1) by (simp add: hash_leaf_def)
  have v: "verify_loop sha ?start (mp_proof p) = mt_root t'"
    using assms(3,5) by (auto simp: mt_verify_proof_def verify_start_def split: if_splits)
  have z: "mt_nodes t' ! 0 = map (hash_leaf sha) leaves" using b l by (cases "mt_nodes t'") (auto simp: built_def)
  from built_sound [OF b assms(1) len assms(6) _ v] assms(4) z
  consider y where "y \<in> set leaves" "?start = hash_leaf sha y"
    | "collide sha (proof_inputs sha ?start (mp_proof p)) (tree_inputs t')" by auto
  then show ?thesis
  proof cases
    case 1
    then have e: "sha (sha (mp_leaf p)) = sha (sha y)" by (simp add: hash_leaf_def)
    from collideI [of "sha (mp_leaf p)" ?X "sha y" ?Y sha] e 1 have "sha (mp_leaf p) = sha y \<or> collide sha ?X ?Y" by simp
    with collideI [of "mp_leaf p" ?X y ?Y sha] 1 show ?thesis by auto
  next
    case 2
    then have "collide sha ?X ?Y" by (rule collide_mono) auto
    then show ?thesis ..
  qed
qed

lemma toy_sha_length: "\<forall>x. length (toy_sha x) = 32"
  by (simp add: toy_sha_def)

theorem merkle_proof_sound_witness:
  "\<exists>p. mt_generate_proof toy_tree 1 = Inr p \<and> mp_leaf p = [2] \<and> mt_verify_proof toy_sha p (mt_root toy_tree)
    \<and> ([2] \<in> set [[1 :: 8 word], [2], [3]]
      \<or> collide toy_sha ([2] # toy_sha [2] # proof_inputs toy_sha (hash_leaf toy_sha [2]) (mp_proof p))
          ([[1], [2], [3]] @ map toy_sha [[1], [2], [3]] @ tree_inputs toy_tree))"
proof -
  from mt_build_built [OF toy_tree_build] have b: "built toy_sha toy_tree" "mt_data_leaves toy_tree = [[1], [2], [3]]"
    "1 < mt_leaf_count toy_tree" "mt_nodes toy_tree \<noteq> []" by (auto simp: built_def)
  from generate_proof_ok [OF b(1,3)] obtain ns where
    ns: "proof_path (take (mt_depth toy_tree) (mt_nodes toy_tree)) 1 = Inr ns" "length ns = mt_depth toy_tree"
      "verify_loop toy_sha (hash_leaf toy_sha [2]) ns = mt_root toy_tree" and
    p: "mt_generate_proof toy_tree 1 = Inr \<lparr>mp_leaf_index = 1, mp_leaf = [2],
      mp_leaf_hash = hash_leaf toy_sha [2], mp_root = mt_root toy_tree, mp_proof = ns\<rparr>" (is "_ = Inr ?p")
    using b by (auto simp: mt_generate_proof_def)
  have "\<forall>h \<in> set (hd (mt_nodes toy_tree)). length h = 32" "linked toy_sha (mt_nodes toy_tree)"
    using b toy_sha_length by (auto simp: built_def hash_leaf_def)
  then have "\<forall>L \<in> set (take (mt_depth toy_tree) (mt_nodes toy_tree)). \<forall>h \<in> set L. length h = 32"
    using linked_lengths toy_sha_length by (meson in_set_takeD)
  from proof_path_lengths [OF this ns(1)] have l: "\<forall>n \<in> set (mp_proof ?p). length (pn_hash n) = 32" by simp
  have v: "mt_verify_proof toy_sha ?p (mt_root toy_tree)" using ns(3) by (auto simp: mt_verify_proof_def verify_start_def)
  from merkle_proof_sound [OF toy_sha_length toy_tree_build v _ _ l] ns(2) p v show ?thesis by auto
qed

text \<open>
  The payload of a proof is not bound by its check: because \<open>verify\<close> starts from the leaf hash stored
  in the proof whenever that is not all zeros, every generated proof still verifies, and against the
  same root, after its payload has been replaced by any other data.
\<close>

theorem merkle_payload_unbound:
  assumes "mt_build sha t leaves = Some (Inr t')" "i < length leaves" "hash_leaf sha (leaves ! i) \<noteq> zero_hash"
  shows "\<exists>p. mt_generate_proof t' i = Inr p
    \<and> (\<forall>data. mp_verify sha (p\<lparr>mp_leaf := data\<rparr>) \<and> mt_verify_proof sha (p\<lparr>mp_leaf := data\<rparr>) (mt_root t'))"
proof -
  from mt_build_built [OF assms(1)] assms(2) have b: "built sha t'" "mt_data_leaves t' = leaves" "i < mt_leaf_count t'"
    "mt_nodes t' \<noteq> []" by (auto simp: built_def)
  from generate_proof_ok [OF b(1,3)] b assms(3) show ?thesis
    by (auto simp: mt_generate_proof_def mp_verify_def mt_verify_proof_def verify_start_def not_le)
qed

theorem merkle_payload_unbound_witness:
  "\<exists>p. mt_generate_proof toy_tree 0 = Inr p \<and> mp_verify toy_sha (p\<lparr>mp_leaf := [66, 66]\<rparr>)"
proof -
  have "hash_leaf toy_sha [1] \<noteq> zero_hash" by code_simp
  with merkle_payload_unbound [OF toy_tree_build, of 0] show ?thesis by auto
qed

end
