(* ===== verification/Escrow.thy ===== *)
theory Escrow
  imports TokenInterface
begin

unbundle bit_operations_syntax

text \<open>
  The time-locked escrow of \<open>contracts/timelocked_escrow\<close> (\<open>contract.rs\<close>, \<open>guardian.rs\<close>, \<open>escrow.rs\<close>,
  \<open>storage_types.rs\<close>): one deposit, five guardians of whom three must approve, a time lock, and the ways
  the money leaves again. The token contract is the parameter \<open>xfer\<close> with its world, as in
  \<open>TokenInterface\<close>. Ledger numbers and basis points are integers, the approvals a 32-bit word.
\<close>

section \<open>Data\<close>

record escrow_config =
  ec_depositor :: address
  ec_beneficiary :: address
  ec_token :: address
  ec_amount :: int
  ec_unlock_ledger :: int
  ec_is_released :: bool
  ec_is_cancelled :: bool
  ec_cancellation_fee_bps :: int
  ec_protocol_vault :: address

datatype escrow_error = EscrowAlreadyInitialized | EscrowNotInitialized | AlreadyDeposited | NoDeposit
  | TimelockNotExpired | InsufficientApprovals | NotGuardian | AlreadyApproved | AlreadyFinalized
  | EscrowUnauthorized | InvalidGuardianCount | DuplicateGuardian | CancellationFeeTooHigh

datatype escrow_event =
    EscrowDepositEvent address address int int
  | ApprovalEvent address nat nat
  | ReleaseEvent address address int nat
  | CancelEvent address address int int address
  | MutualCancelEvent address address address int int address
  | GuardianRotationEvent "address list" "address list" int

record escrow =
  es_config :: "escrow_config option"
  es_guardians :: "address list option"
  es_approvals :: "32 word option"
  es_epoch :: "int option"
  es_events :: "escrow_event list"

definition empty_escrow :: escrow where
  "empty_escrow = \<lparr>es_config = None, es_guardians = None, es_approvals = None, es_epoch = None, es_events = []\<rparr>"

type_synonym 'a es_res = "(escrow_error, 'a) res"

section \<open>Storage helpers (\<open>escrow.rs\<close>, \<open>guardian.rs\<close>)\<close>

definition es_has_config :: "escrow \<Rightarrow> bool" where
  "es_has_config s \<longleftrightarrow> es_config s \<noteq> None"

definition read_config :: "escrow \<Rightarrow> escrow_config es_res" where
  "read_config s = ok_or EscrowNotInitialized (es_config s)"

definition write_config :: "escrow \<Rightarrow> escrow_config \<Rightarrow> escrow" where
  "write_config s c = s\<lparr>es_config := Some c\<rparr>"

definition require_active :: "escrow_config \<Rightarrow> unit es_res" where
  "require_active c = (if ec_is_released c \<or> ec_is_cancelled c then Inl (Err AlreadyFinalized) else Inr ())"

definition require_funded :: "escrow_config \<Rightarrow> unit es_res" where
  "require_funded c = (if ec_amount c = 0 then Inl (Err NoDeposit) else Inr ())"

definition REQUIRED_GUARDIANS :: nat where "REQUIRED_GUARDIANS = 5"
definition REQUIRED_APPROVALS :: nat where "REQUIRED_APPROVALS = 3"

definition read_guardians :: "escrow \<Rightarrow> address list" where
  "read_guardians s = (case es_guardians s of None \<Rightarrow> [] | Some gs \<Rightarrow> gs)"

definition write_guardians :: "escrow \<Rightarrow> address list \<Rightarrow> escrow" where
  "write_guardians s gs = s\<lparr>es_guardians := Some gs\<rparr>"

fun guardian_index_from :: "nat \<Rightarrow> address list \<Rightarrow> address \<Rightarrow> nat es_res" where
  "guardian_index_from i [] addr = Inl (Err NotGuardian)"
| "guardian_index_from i (g # gs) addr = (if g = addr then Inr i else guardian_index_from (i + 1) gs addr)"

definition guardian_index :: "address list \<Rightarrow> address \<Rightarrow> nat es_res" where
  "guardian_index gs addr = guardian_index_from 0 gs addr"

text \<open>The two nested loops over the pairs \<open>i < j\<close>.\<close>

fun no_duplicates :: "address list \<Rightarrow> bool" where
  "no_duplicates [] = True"
| "no_duplicates (g # gs) = (\<not> list_ex (\<lambda>h. g = h) gs \<and> no_duplicates gs)"

definition validate_guardians :: "address list \<Rightarrow> unit es_res" where
  "validate_guardians gs =
     (if length gs \<noteq> REQUIRED_GUARDIANS then Inl (Err InvalidGuardianCount)
      else if \<not> no_duplicates gs then Inl (Err DuplicateGuardian)
      else Inr ())"

definition read_approvals :: "escrow \<Rightarrow> 32 word" where
  "read_approvals s = (case es_approvals s of None \<Rightarrow> 0 | Some b \<Rightarrow> b)"

definition write_approvals :: "escrow \<Rightarrow> 32 word \<Rightarrow> escrow" where
  "write_approvals s b = s\<lparr>es_approvals := Some b\<rparr>"

definition read_epoch :: "escrow \<Rightarrow> int" where
  "read_epoch s = (case es_epoch s of None \<Rightarrow> 0 | Some e \<Rightarrow> e)"

definition write_epoch :: "escrow \<Rightarrow> int \<Rightarrow> escrow" where
  "write_epoch s e = s\<lparr>es_epoch := Some e\<rparr>"

text \<open>\<open>1u32 << index\<close>: a shift by 32 or more panics, or is taken modulo 32 without overflow checks.\<close>

definition mask_of :: "env \<Rightarrow> nat \<Rightarrow> 32 word es_res" where
  "mask_of E index =
     (if index < 32 then Inr (push_bit index 1)
      else if overflow_checks E then Inl (Panic Overflow)
      else Inr (push_bit (index mod 32) 1))"

definition set_approval :: "env \<Rightarrow> 32 word \<Rightarrow> nat \<Rightarrow> 32 word es_res" where
  "set_approval E bitmap index =
     rbind (mask_of E index) (\<lambda>mask.
     if bitmap AND mask \<noteq> 0 then Inl (Err AlreadyApproved) else Inr (bitmap OR mask))"

text \<open>The counting loop; the count stays at most 32, so its addition cannot overflow.\<close>

function approval_loop :: "32 word \<Rightarrow> nat \<Rightarrow> nat" where
  "approval_loop n count = (if n \<noteq> 0 then approval_loop (drop_bit 1 n) (count + unat (n AND 1)) else count)"
  by auto
termination
  by (relation "measure (\<lambda>(n, count). unat n)") (auto simp: unat_drop_bit_eq drop_bit_eq_div unat_div_distrib unat_gt_0 intro!: div_less_dividend)

declare approval_loop.simps [simp del]

definition approval_count :: "32 word \<Rightarrow> nat" where
  "approval_count bitmap = approval_loop bitmap 0"

definition has_quorum :: "32 word \<Rightarrow> bool" where
  "has_quorum bitmap \<longleftrightarrow> approval_count bitmap \<ge> REQUIRED_APPROVALS"

definition emit_es :: "escrow_event \<Rightarrow> escrow \<Rightarrow> escrow" where
  "emit_es ev s = s\<lparr>es_events := es_events s @ [ev]\<rparr>"

section \<open>Entry points (\<open>contract.rs\<close>)\<close>

definition es_initialize ::
  "env \<Rightarrow> escrow \<Rightarrow> address \<Rightarrow> address \<Rightarrow> address \<Rightarrow> address list \<Rightarrow> int \<Rightarrow> int \<Rightarrow> address \<Rightarrow> escrow es_res" where
  "es_initialize E s depositor beneficiary token guardians lock_ledgers cancellation_fee_bps protocol_vault =
     (if es_has_config s then Inl (Err EscrowAlreadyInitialized)
      else
        rbind (validate_guardians guardians) (\<lambda>_.
        if cancellation_fee_bps > 10000 then Inl (Err CancellationFeeTooHigh)
        else
          let config = \<lparr>ec_depositor = depositor, ec_beneficiary = beneficiary, ec_token = token, ec_amount = 0,
                ec_unlock_ledger = saturate U32 (ledger_seq E + lock_ledgers), ec_is_released = False,
                ec_is_cancelled = False, ec_cancellation_fee_bps = cancellation_fee_bps,
                ec_protocol_vault = protocol_vault\<rparr> in
          Inr (write_epoch (write_approvals (write_guardians (write_config s config) guardians) 0) 0)))"

definition es_deposit :: "'w token_xfer \<Rightarrow> env \<Rightarrow> escrow \<times> 'w \<Rightarrow> int \<Rightarrow> (escrow \<times> 'w) es_res" where
  "es_deposit xfer E sw amount =
     (let s = fst sw; w = snd sw in
     rbind (read_config s) (\<lambda>config.
     rbind (require_active config) (\<lambda>_.
     if ec_amount config > 0 then Inl (Err AlreadyDeposited)
     else
       rbind (require_auth E (ec_depositor config)) (\<lambda>_.
       rbind (call (xfer E (ec_token config) (ec_depositor config) (this_contract E) amount w)) (\<lambda>w'.
       Inr (emit_es (EscrowDepositEvent (ec_depositor config) (ec_token config) amount (ec_unlock_ledger config))
              (write_config s (config\<lparr>ec_amount := amount\<rparr>)), w'))))))"

definition es_approve :: "env \<Rightarrow> escrow \<Rightarrow> address \<Rightarrow> (escrow \<times> nat) es_res" where
  "es_approve E s guardian =
     rbind (read_config s) (\<lambda>config.
     rbind (require_active config) (\<lambda>_.
     rbind (require_funded config) (\<lambda>_.
     rbind (require_auth E guardian) (\<lambda>_.
     rbind (guardian_index (read_guardians s) guardian) (\<lambda>idx.
     rbind (set_approval E (read_approvals s) idx) (\<lambda>new_bitmap.
     let count = approval_count new_bitmap in
     Inr (emit_es (ApprovalEvent guardian idx count) (write_approvals s new_bitmap), count)))))))"

definition es_release :: "'w token_xfer \<Rightarrow> env \<Rightarrow> escrow \<times> 'w \<Rightarrow> (escrow \<times> 'w) es_res" where
  "es_release xfer E sw =
     (let s = fst sw; w = snd sw in
     rbind (read_config s) (\<lambda>config.
     rbind (require_active config) (\<lambda>_.
     rbind (require_funded config) (\<lambda>_.
     if ledger_seq E < ec_unlock_ledger config then Inl (Err TimelockNotExpired)
     else if \<not> has_quorum (read_approvals s) then Inl (Err InsufficientApprovals)
     else
       rbind (call (xfer E (ec_token config) (this_contract E) (ec_beneficiary config) (ec_amount config) w)) (\<lambda>w'.
       Inr (emit_es (ReleaseEvent (ec_beneficiary config) (ec_token config) (ec_amount config)
                       (approval_count (read_approvals s)))
              (write_config s (config\<lparr>ec_amount := 0, ec_is_released := True\<rparr>)), w'))))))"

text \<open>The fee and the refund of both cancellations, and their two transfers.\<close>

definition es_fee :: "env \<Rightarrow> escrow_config \<Rightarrow> int es_res" where
  "es_fee E config =
     rbind (fit E I128 (ec_amount config * ec_cancellation_fee_bps config)) (\<lambda>scaled. quot I128 scaled 10000)"

definition es_pay_back ::
  "'w token_xfer \<Rightarrow> env \<Rightarrow> escrow_config \<Rightarrow> int \<Rightarrow> int \<Rightarrow> 'w \<Rightarrow> 'w es_res" where
  "es_pay_back xfer E config fee refund w =
     rbind (if fee > 0 then call (xfer E (ec_token config) (this_contract E) (ec_protocol_vault config) fee w)
            else Inr w) (\<lambda>w1.
     call (xfer E (ec_token config) (this_contract E) (ec_depositor config) refund w1))"

definition es_cancel :: "'w token_xfer \<Rightarrow> env \<Rightarrow> escrow \<times> 'w \<Rightarrow> (escrow \<times> 'w) es_res" where
  "es_cancel xfer E sw =
     (let s = fst sw; w = snd sw in
     rbind (read_config s) (\<lambda>config.
     rbind (require_active config) (\<lambda>_.
     rbind (require_funded config) (\<lambda>_.
     rbind (require_auth E (ec_depositor config)) (\<lambda>_.
     if ledger_seq E \<ge> ec_unlock_ledger config \<and> approval_count (read_approvals s) > 0
     then Inl (Err AlreadyFinalized)
     else
       rbind (es_fee E config) (\<lambda>fee.
       rbind (fit E I128 (ec_amount config - fee)) (\<lambda>refund.
       rbind (es_pay_back xfer E config fee refund w) (\<lambda>w'.
       Inr (emit_es (CancelEvent (ec_depositor config) (ec_token config) (ec_amount config) fee
                       (ec_protocol_vault config))
              (write_config s (config\<lparr>ec_amount := 0, ec_is_cancelled := True\<rparr>)), w')))))))))"

definition es_mutual_cancel :: "'w token_xfer \<Rightarrow> env \<Rightarrow> escrow \<times> 'w \<Rightarrow> (escrow \<times> 'w) es_res" where
  "es_mutual_cancel xfer E sw =
     (let s = fst sw; w = snd sw in
     rbind (read_config s) (\<lambda>config.
     rbind (require_active config) (\<lambda>_.
     rbind (require_funded config) (\<lambda>_.
     rbind (require_auth E (ec_depositor config)) (\<lambda>_.
     rbind (require_auth E (ec_beneficiary config)) (\<lambda>_.
     rbind (es_fee E config) (\<lambda>fee.
     rbind (fit E I128 (ec_amount config - fee)) (\<lambda>refund.
     rbind (es_pay_back xfer E config fee refund w) (\<lambda>w'.
     Inr (emit_es (MutualCancelEvent (ec_depositor config) (ec_beneficiary config) (ec_token config)
                     (ec_amount config) fee (ec_protocol_vault config))
            (write_config s (config\<lparr>ec_amount := 0, ec_is_cancelled := True\<rparr>)), w'))))))))))"

text \<open>The loop of \<open>rotate_guardians\<close> over the approving guardians.\<close>

fun rotation_approvals :: "env \<Rightarrow> address list \<Rightarrow> address list \<Rightarrow> 32 word \<Rightarrow> 32 word es_res" where
  "rotation_approvals E current [] bitmap = Inr bitmap"
| "rotation_approvals E current (g # gs) bitmap =
     rbind (require_auth E g) (\<lambda>_.
     rbind (guardian_index current g) (\<lambda>idx.
     rbind (mask_of E idx) (\<lambda>mask.
     if bitmap AND mask \<noteq> 0 then Inl (Err DuplicateGuardian)
     else rotation_approvals E current gs (bitmap OR mask))))"

definition es_rotate_guardians :: "env \<Rightarrow> escrow \<Rightarrow> address list \<Rightarrow> address list \<Rightarrow> escrow es_res" where
  "es_rotate_guardians E s new_guardians approving_guardians =
     rbind (read_config s) (\<lambda>config.
     rbind (require_active config) (\<lambda>_.
     rbind (validate_guardians new_guardians) (\<lambda>_.
     if length approving_guardians \<noteq> REQUIRED_APPROVALS then Inl (Err InsufficientApprovals)
     else
       rbind (rotation_approvals E (read_guardians s) approving_guardians 0) (\<lambda>_.
       rbind (fit E U32 (read_epoch s + 1)) (\<lambda>new_epoch.
       Inr (emit_es (GuardianRotationEvent (read_guardians s) new_guardians new_epoch)
              (write_epoch (write_approvals (write_guardians s new_guardians) 0) new_epoch)))))))"

section \<open>Views\<close>

definition es_get_approval_count :: "escrow \<Rightarrow> nat" where
  "es_get_approval_count s = approval_count (read_approvals s)"

definition es_is_releasable :: "env \<Rightarrow> escrow \<Rightarrow> bool" where
  "es_is_releasable E s \<longleftrightarrow>
     (case read_config s of
        Inr config \<Rightarrow> \<not> ec_is_released config \<and> \<not> ec_is_cancelled config \<and> ec_amount config > 0
          \<and> ledger_seq E \<ge> ec_unlock_ledger config \<and> has_quorum (read_approvals s)
      | Inl _ \<Rightarrow> False)"

end
