(* ===== verification/EscrowProperties.thy ===== *)
theory EscrowProperties
  imports Escrow Token
begin

unbundle bit_operations_syntax

text \<open>
  Properties of the escrow: the counting loop is the population count, a release needs the time lock
  and three current guardians who approved since the last rotation, the recorded amount is backed
  until it is paid out, and a settled escrow accepts no further call.
\<close>

section \<open>The approval bitmap\<close>

lemma approval_loop_zero [simp]: "approval_loop 0 c = c"
  by (simp add: approval_loop.simps [of 0])

lemma finite_bits [simp]: "finite {i. bit (n :: 32 word) i}"
  by (rule finite_subset [of _ "{..< 32}"]) (auto dest: bit_imp_le_length)

lemma card_bits_shift:
  "card {i. bit (n :: 32 word) i} = card {i. bit (drop_bit 1 n) i} + (if bit n 0 then 1 else 0)"
proof -
  have "{i. bit n i} = Suc ` {i. bit (drop_bit 1 n) i} \<union> (if bit n 0 then {0} else {})"
  proof (rule set_eqI)
    fix i
    show "i \<in> {i. bit n i} \<longleftrightarrow> i \<in> Suc ` {i. bit (drop_bit 1 n) i} \<union> (if bit n 0 then {0} else {})"
      by (cases i) (auto simp: bit_drop_bit_eq image_iff)
  qed
  then show ?thesis by (subst card_Un_disjoint [THEN trans, symmetric]) (auto simp: card_image card_insert_if)
qed

lemma approval_loop_card: "approval_loop n c = c + card {i. bit n i}"
proof (induction n c rule: approval_loop.induct)
  case (1 n c)
  show ?case
  proof (cases "n = 0")
    case False
    have "unat (n AND 1) = (if bit n 0 then 1 else 0)"
      by (simp add: and_one_eq bit_0 odd_iff_mod_2_eq_one)
    moreover have "approval_loop n c = approval_loop (drop_bit 1 n) (c + unat (n AND 1))"
      using False by (subst approval_loop.simps) simp
    ultimately show ?thesis using 1 False card_bits_shift [of n] by simp
  qed simp
qed

lemma approval_count_card: "approval_count n = card {i. bit n i}"
  by (simp add: approval_count_def approval_loop_card)

text \<open>
  The counting loop returns the number of set bits of any 32-bit word, so a quorum is at least three
  set bits; setting an approval fails exactly when its bit is set and otherwise raises the count by one.
\<close>

theorem escrow_approval_count_correct:
  "approval_count b = card {i. bit b i} \<and> has_quorum b = (3 \<le> card {i. bit b i})
   \<and> (\<forall>i \<in> {0..<32}. set_approval E b i = (if bit b i then Inl (Err AlreadyApproved)
        else Inr (set_bit i b)) \<and> (\<not> bit b i \<longrightarrow> approval_count (set_bit i b) = approval_count b + 1))"
proof -
  have "approval_count (set_bit i b) = approval_count b + 1" if "i < 32" "\<not> bit b i" for i
  proof -
    have "{j. bit (set_bit i b) j} = insert i {j. bit b j}"
      using that by (auto simp: bit_set_bit_iff)
    with that show ?thesis by (simp add: approval_count_card)
  qed
  moreover have "set_approval E b i = (if bit b i then Inl (Err AlreadyApproved) else Inr (set_bit i b))"
    if "i < 32" for i
    using that by (simp add: set_approval_def mask_of_def set_bit_eq_or and_exp_eq_0_iff_not_bit push_bit_eq_mult)
  ultimately show ?thesis by (auto simp: approval_count_card has_quorum_def REQUIRED_APPROVALS_def)
qed

theorem escrow_approval_count_correct_witness:
  "approval_count 21 = card {i. bit (21 :: 32 word) i} \<and> approval_count 21 = 3
   \<and> set_approval (env0 []) 21 1 = Inr (set_bit 1 21) \<and> approval_count (set_bit 1 21) = 4"
proof -
  have b: "\<not> bit (21 :: 32 word) 1" by simp
  have three: "approval_count 21 = 3" by code_simp
  have r: "(1 :: nat) \<in> {0..<32}" by simp
  note all = escrow_approval_count_correct [of 21 "env0 []"]
  from bspec [OF all [THEN conjunct2, THEN conjunct2] r] b three show ?thesis
    using all [THEN conjunct1] by simp
qed

section \<open>The escrow as a transition system\<close>

datatype es_op =
    EInitialize address address address "address list" int int address
  | EDeposit int
  | EApprove address
  | ERelease
  | ECancel
  | EMutualCancel
  | ERotate "address list" "address list"

fun es_exec :: "'w token_xfer \<Rightarrow> env \<Rightarrow> escrow \<times> 'w \<Rightarrow> es_op \<Rightarrow> (escrow \<times> 'w) es_res" where
  "es_exec xfer E sw (EInitialize d b t gs l f v) =
     rbind (es_initialize E (fst sw) d b t gs l f v) (\<lambda>s. Inr (s, snd sw))"
| "es_exec xfer E sw (EDeposit n) = es_deposit xfer E sw n"
| "es_exec xfer E sw (EApprove g) = rbind (es_approve E (fst sw) g) (\<lambda>(s, n). Inr (s, snd sw))"
| "es_exec xfer E sw ERelease = es_release xfer E sw"
| "es_exec xfer E sw ECancel = es_cancel xfer E sw"
| "es_exec xfer E sw EMutualCancel = es_mutual_cancel xfer E sw"
| "es_exec xfer E sw (ERotate gs ap) = rbind (es_rotate_guardians E (fst sw) gs ap) (\<lambda>s. Inr (s, snd sw))"

definition es_step :: "'w token_xfer \<Rightarrow> env \<Rightarrow> escrow \<times> 'w \<Rightarrow> es_op \<Rightarrow> (escrow_error, (escrow \<times> 'w) \<times> unit) res" where
  "es_step xfer E sw c = rbind (es_exec xfer E sw c) (\<lambda>sw'. Inr (sw', ()))"

text \<open>The guardians who approved, with their authorisation, in the calls that completed since the
  guardians were last set; the run is the one of \<open>run_calls\<close>.\<close>

fun approvers ::
  "'w token_xfer \<Rightarrow> (env \<times> es_op) list \<Rightarrow> escrow \<times> 'w \<Rightarrow> address list \<Rightarrow> address list" where
  "approvers xfer [] sw acc = acc"
| "approvers xfer ((E, c) # cs) sw acc =
     (case es_exec xfer E sw c of
        Inl _ \<Rightarrow> approvers xfer cs sw acc
      | Inr sw' \<Rightarrow> approvers xfer cs sw'
          (case c of
             EApprove g \<Rightarrow> (if List.member (auths E) g then g # acc else acc)
           | EInitialize _ _ _ _ _ _ _ \<Rightarrow> []
           | ERotate _ _ \<Rightarrow> []
           | _ \<Rightarrow> acc))"

definition approvals_match :: "escrow \<Rightarrow> address list \<Rightarrow> bool" where
  "approvals_match s acc \<longleftrightarrow>
     (case es_config s of
        None \<Rightarrow> acc = []
      | Some config \<Rightarrow>
          length (read_guardians s) = 5 \<and> distinct (read_guardians s) \<and> set acc \<subseteq> set (read_guardians s)
          \<and> (\<forall>i. bit (read_approvals s) i \<longleftrightarrow> i < 5 \<and> read_guardians s ! i \<in> set acc))"

lemma no_duplicates_distinct: "no_duplicates gs = distinct gs"
  by (induction gs) (auto simp: list_ex_iff)

lemma validate_guardians_Inr [simp]: "validate_guardians gs = Inr u \<longleftrightarrow> length gs = 5 \<and> distinct gs"
  by (auto simp: validate_guardians_def no_duplicates_distinct REQUIRED_GUARDIANS_def)

lemma guardian_index_from_Inr:
  "guardian_index_from k gs g = Inr i \<Longrightarrow> \<exists>j. i = k + j \<and> j < length gs \<and> gs ! j = g"
proof (induction k gs g rule: guardian_index_from.induct)
  case (2 k h gs g)
  show ?case
  proof (cases "h = g")
    case False
    with 2 obtain j where "i = k + 1 + j" "j < length gs" "gs ! j = g" by auto
    then show ?thesis by (intro exI [of _ "Suc j"]) auto
  qed (use 2 in auto)
qed simp

lemma guardian_index_Inr: "guardian_index gs g = Inr i \<Longrightarrow> i < length gs \<and> gs ! i = g"
  using guardian_index_from_Inr [of 0 gs g i] by (auto simp: guardian_index_def)

lemma set_approval_Inr:
  "i < 32 \<Longrightarrow> set_approval E b i = Inr b' \<longleftrightarrow> \<not> bit b i \<and> b' = set_bit i b"
  by (auto simp: set_approval_def mask_of_def set_bit_eq_or and_exp_eq_0_iff_not_bit push_bit_eq_mult)

lemma es_reads [simp]:
  "read_config s = Inr c \<longleftrightarrow> es_config s = Some c"
  "require_active c = Inr u \<longleftrightarrow> \<not> ec_is_released c \<and> \<not> ec_is_cancelled c"
  "require_funded c = Inr u \<longleftrightarrow> ec_amount c \<noteq> 0"
  by (auto simp: read_config_def require_active_def require_funded_def)

lemma es_writes [simp]:
  "es_config (write_config s c) = Some c" "es_config (write_guardians s gs) = es_config s"
  "es_config (write_approvals s b) = es_config s" "es_config (write_epoch s e) = es_config s"
  "es_config (emit_es ev s) = es_config s"
  "read_guardians (write_config s c) = read_guardians s" "read_guardians (write_guardians s gs) = gs"
  "read_guardians (write_approvals s b) = read_guardians s" "read_guardians (write_epoch s e) = read_guardians s"
  "read_guardians (emit_es ev s) = read_guardians s"
  "read_approvals (write_config s c) = read_approvals s" "read_approvals (write_guardians s gs) = read_approvals s"
  "read_approvals (write_approvals s b) = b" "read_approvals (write_epoch s e) = read_approvals s"
  "read_approvals (emit_es ev s) = read_approvals s"
  by (simp_all add: write_config_def write_guardians_def write_approvals_def write_epoch_def emit_es_def
      read_guardians_def read_approvals_def)

lemma es_approve_Inr:
  "es_approve E s g = Inr (s', n) \<Longrightarrow> \<exists>config i b. es_config s = Some config \<and> g \<in> set (auths E)
     \<and> guardian_index (read_guardians s) g = Inr i \<and> set_approval E (read_approvals s) i = Inr b
     \<and> \<not> ec_is_released config \<and> \<not> ec_is_cancelled config \<and> ec_amount config \<noteq> 0
     \<and> s' = emit_es (ApprovalEvent g i (approval_count b)) (write_approvals s b)"
  by (auto simp: es_approve_def Let_def)

lemma approve_matches:
  assumes "approvals_match s acc" "es_approve E s g = Inr (s', n)"
  shows "approvals_match s' (g # acc)"
proof -
  from es_approve_Inr [OF assms(2)] obtain config i b where
    c: "es_config s = Some config" and i: "guardian_index (read_guardians s) g = Inr i"
    and b: "set_approval E (read_approvals s) i = Inr b"
    and s': "s' = emit_es (ApprovalEvent g i (approval_count b)) (write_approvals s b)" by blast
  from assms(1) c have m: "length (read_guardians s) = 5" "distinct (read_guardians s)" "set acc \<subseteq> set (read_guardians s)"
    "\<And>j. bit (read_approvals s) j \<longleftrightarrow> j < 5 \<and> read_guardians s ! j \<in> set acc"
    by (auto simp: approvals_match_def)
  from guardian_index_Inr [OF i] m(1) have i: "i < 5" "read_guardians s ! i = g" by auto
  with b have b: "b = set_bit i (read_approvals s)" by (simp add: set_approval_Inr)
  have "bit b j \<longleftrightarrow> j < 5 \<and> read_guardians s ! j \<in> set (g # acc)" for j
    using i m nth_eq_iff_index_eq [OF m(2), of i j] by (auto simp: b bit_set_bit_iff)
  moreover have "g \<in> set (read_guardians s)" using i m(1) by (metis nth_mem)
  ultimately show ?thesis using m c s' by (simp add: approvals_match_def)
qed

lemma approvals_match_step:
  assumes "approvals_match s acc" "es_exec xfer E (s, w) c = Inr (s', w')"
  shows "approvals_match s' (case c of
             EApprove g \<Rightarrow> (if List.member (auths E) g then g # acc else acc)
           | EInitialize _ _ _ _ _ _ _ \<Rightarrow> []
           | ERotate _ _ \<Rightarrow> []
           | _ \<Rightarrow> acc)"
proof (cases c)
  case (EApprove g)
  with assms(2) obtain n where a: "es_approve E s g = Inr (s', n)" by (auto split: prod.splits)
  from es_approve_Inr [OF a] approve_matches [OF assms(1) a] EApprove show ?thesis by auto
qed (use assms in \<open>auto simp: approvals_match_def es_initialize_def es_deposit_def es_release_def es_cancel_def
      es_mutual_cancel_def es_rotate_guardians_def Let_def split: if_splits\<close>)

lemma approvals_match_run:
  "approvals_match (fst sw) acc \<Longrightarrow>
     approvals_match (fst (run_calls (es_step xfer) cs sw)) (approvers xfer cs sw acc)"
proof (induction cs arbitrary: sw acc)
  case (Cons ec cs)
  obtain E c where ec: "ec = (E, c)" by (cases ec)
  show ?case
  proof (cases "es_exec xfer E sw c")
    case (Inl e)
    with Cons ec show ?thesis by (simp add: run_calls_def apply_call_def es_step_def)
  next
    case (Inr sw')
    from approvals_match_step [of "fst sw" acc xfer E "snd sw" c "fst sw'" "snd sw'"] Cons.prems Inr
    have "approvals_match (fst sw') (case c of
             EApprove g \<Rightarrow> (if List.member (auths E) g then g # acc else acc)
           | EInitialize _ _ _ _ _ _ _ \<Rightarrow> [] | ERotate _ _ \<Rightarrow> [] | _ \<Rightarrow> acc)" by simp
    from Cons.IH [OF this] Inr ec show ?thesis by (simp add: run_calls_def apply_call_def es_step_def)
  qed
qed (simp add: run_calls_def)

section \<open>Releases\<close>

lemma es_release_Inr:
  "es_release xfer E (s, w) = Inr (s', w') \<longleftrightarrow> (\<exists>config. es_config s = Some config
     \<and> \<not> ec_is_released config \<and> \<not> ec_is_cancelled config \<and> ec_amount config \<noteq> 0
     \<and> ec_unlock_ledger config \<le> ledger_seq E \<and> has_quorum (read_approvals s)
     \<and> xfer E (ec_token config) (this_contract E) (ec_beneficiary config) (ec_amount config) w = Some w'
     \<and> s' = emit_es (ReleaseEvent (ec_beneficiary config) (ec_token config) (ec_amount config)
                (approval_count (read_approvals s))) (write_config s (config\<lparr>ec_amount := 0, ec_is_released := True\<rparr>)))"
  by (auto simp: es_release_def Let_def not_less)

lemma bits_are_approvers:
  assumes "approvals_match s acc" "es_config s = Some config"
  shows "card {i. bit (read_approvals s) i} = card (set acc)"
proof -
  let ?gs = "read_guardians s"
  from assms have m: "length ?gs = 5" "distinct ?gs" "set acc \<subseteq> set ?gs"
    "\<And>i. bit (read_approvals s) i \<longleftrightarrow> i < 5 \<and> ?gs ! i \<in> set acc" by (auto simp: approvals_match_def)
  have "bij_betw (\<lambda>i. ?gs ! i) {i. bit (read_approvals s) i} (set acc)"
  proof (rule bij_betw_imageI)
    show "inj_on (\<lambda>i. ?gs ! i) {i. bit (read_approvals s) i}"
      using m by (auto simp: inj_on_def nth_eq_iff_index_eq)
    show "(\<lambda>i. ?gs ! i) ` {i. bit (read_approvals s) i} = set acc"
      using m by (auto simp: image_iff) (metis in_set_conv_nth subsetD)
  qed
  then show ?thesis by (rule bij_betw_same_card)
qed

text \<open>
  C38. No early and no unapproved release: if a release completes in a state reached from deployment, the
  time lock has expired and at least three different members of the current guardian set have each
  completed an authorised approval since that set was installed; the beneficiary is paid the whole
  recorded amount.
\<close>

theorem escrow_release_needs_quorum:
  assumes "(s, w) = run_calls (es_step xfer) cs (empty_escrow, w0)"
    and "es_release xfer E (s, w) = Inr (s', w')"
  shows "\<exists>config. es_config s = Some config \<and> ec_unlock_ledger config \<le> ledger_seq E
    \<and> set (approvers xfer cs (empty_escrow, w0) []) \<subseteq> set (read_guardians s)
    \<and> 3 \<le> card (set (approvers xfer cs (empty_escrow, w0) []))
    \<and> xfer E (ec_token config) (this_contract E) (ec_beneficiary config) (ec_amount config) w = Some w'"
proof -
  let ?acc = "approvers xfer cs (empty_escrow, w0) []"
  have "approvals_match (fst (empty_escrow, w0)) []" by (simp add: approvals_match_def empty_escrow_def)
  from approvals_match_run [OF this, of xfer cs] have m: "approvals_match s ?acc"
    unfolding assms(1) [symmetric] by simp
  from assms(2) obtain config where c: "es_config s = Some config" "has_quorum (read_approvals s)"
    "ec_unlock_ledger config \<le> ledger_seq E"
    "xfer E (ec_token config) (this_contract E) (ec_beneficiary config) (ec_amount config) w = Some w'"
    by (auto simp: es_release_Inr)
  with bits_are_approvers [OF m c(1)] have "3 \<le> card (set ?acc)"
    by (simp add: has_quorum_def REQUIRED_APPROVALS_def approval_count_card)
  with m c show ?thesis by (auto simp: approvals_match_def)
qed

text \<open>An example: depositor 21 locks 500 units for beneficiary 22, guardians 31 to 35, vault 41.\<close>

definition escrow_demo :: "(env \<times> es_op) list" where
  "escrow_demo = [(env0 [], EInitialize 21 22 901 [31, 32, 33, 34, 35] 50 200 41), (env0 [21], EDeposit 500),
     (env0 [31], EApprove 31), (env0 [34], EApprove 34), (env0 [31], EApprove 31), (env0 [33], EApprove 33)]"

definition escrow_world :: tokens where
  "escrow_world = [901 \<mapsto> \<lparr>tk_balances = [21 \<mapsto> 1000], tk_allowances = Map.empty, tk_admin = Some 11,
     tk_metadata = None, tk_guard = empty_guard, tk_events = []\<rparr>]"

definition escrow_demo_end :: "escrow \<times> tokens" where
  "escrow_demo_end = run_calls (es_step client_transfer) escrow_demo (empty_escrow, escrow_world)"

theorem escrow_release_needs_quorum_witness:
  "\<exists>s' w'. es_release client_transfer (env0 []\<lparr>ledger_seq := 151\<rparr>) escrow_demo_end = Inr (s', w')
    \<and> 3 \<le> card (set (approvers client_transfer escrow_demo (empty_escrow, escrow_world) []))"
proof -
  have "\<not> isl (es_release client_transfer (env0 []\<lparr>ledger_seq := 151\<rparr>) escrow_demo_end)" by code_simp
  then obtain s' w' where r: "es_release client_transfer (env0 []\<lparr>ledger_seq := 151\<rparr>)
      (fst escrow_demo_end, snd escrow_demo_end) = Inr (s', w')" by (metis isl_def old.sum.exhaust prod.collapse)
  have "(fst escrow_demo_end, snd escrow_demo_end) = run_calls (es_step client_transfer) escrow_demo (empty_escrow, escrow_world)"
    by (simp add: escrow_demo_end_def)
  from escrow_release_needs_quorum [OF this r] r show ?thesis by auto
qed

section \<open>Settlement\<close>

lemma es_settled_fails:
  assumes "es_config s = Some c" "ec_is_released c \<or> ec_is_cancelled c"
  shows "\<exists>e. es_exec xfer E (s, w) operation = Inl e"
  using assms by (cases operation) (auto simp: es_initialize_def es_has_config_def es_deposit_def es_approve_def
      es_release_def es_cancel_def es_mutual_cancel_def es_rotate_guardians_def require_active_def read_config_def
      ok_or_def)

lemma es_cancels_Inr:
  assumes "es_exec xfer E (s, w) c = Inr (s', w')" "c = ECancel \<or> c = EMutualCancel"
  shows "\<exists>config fee refund. es_config s = Some config \<and> ec_depositor config \<in> set (auths E)
    \<and> \<not> ec_is_released config \<and> \<not> ec_is_cancelled config \<and> ec_amount config \<noteq> 0
    \<and> es_fee E config = Inr fee \<and> fit E I128 (ec_amount config - fee) = (Inr refund :: int es_res)
    \<and> es_pay_back xfer E config fee refund w = Inr w'
    \<and> es_config s' = Some (config\<lparr>ec_amount := 0, ec_is_cancelled := True\<rparr>)"
  using assms by (auto simp: es_cancel_def es_mutual_cancel_def Let_def split: if_splits)

text \<open>
  The escrow settles at most once: after a release or a cancellation has completed, no sequence of
  calls, whoever authorises them, changes the escrow or moves any token through it again.
\<close>

theorem escrow_settles_once:
  assumes "es_exec xfer E (s, w) c = Inr (s', w')" "c = ERelease \<or> c = ECancel \<or> c = EMutualCancel"
  shows "run_calls (es_step xfer) cs (s', w') = (s', w')"
proof -
  have "\<exists>config. es_config s' = Some config \<and> (ec_is_released config \<or> ec_is_cancelled config)"
  proof (cases "c = ERelease")
    case True
    with assms(1) show ?thesis by (auto simp: es_release_Inr)
  next
    case False
    with assms(2) have "c = ECancel \<or> c = EMutualCancel" by simp
    from es_cancels_Inr [OF assms(1) this] show ?thesis by auto
  qed
  then obtain config where "es_config s' = Some config" "ec_is_released config \<or> ec_is_cancelled config" by blast
  then have fails: "\<exists>e. es_exec xfer E (s', w') operation = Inl e" for E operation
    by (rule es_settled_fails)
  have "apply_call (es_step xfer) d (s', w') = (s', w')" for d
    using fails [of "fst d" "snd d"] by (auto simp: apply_call_def es_step_def)
  then show ?thesis by (induction cs) auto
qed

theorem escrow_settles_once_witness:
  "\<exists>s' w'. es_exec client_transfer (env0 []\<lparr>ledger_seq := 151\<rparr>) escrow_demo_end ERelease = Inr (s', w')
    \<and> run_calls (es_step client_transfer) [(env0 [21, 22], EMutualCancel), (env0 [21], EDeposit 9)] (s', w') = (s', w')"
proof -
  have "\<not> isl (es_exec client_transfer (env0 []\<lparr>ledger_seq := 151\<rparr>) escrow_demo_end ERelease)" by code_simp
  then obtain s' w' where r: "es_exec client_transfer (env0 []\<lparr>ledger_seq := 151\<rparr>)
      (fst escrow_demo_end, snd escrow_demo_end) ERelease = Inr (s', w')" by (metis isl_def old.sum.exhaust prod.collapse)
  from escrow_settles_once [OF r] r show ?thesis by (auto simp del: run_calls_simps)
qed

section \<open>Accounting\<close>

lemma es_fee_Inr:
  assumes "overflow_checks E" "es_fee E config = Inr fee" "0 \<le> ec_amount config"
    and "0 \<le> ec_cancellation_fee_bps config" "ec_cancellation_fee_bps config \<le> 10000"
  shows "fee = ec_amount config * ec_cancellation_fee_bps config div 10000 \<and> 0 \<le> fee \<and> fee \<le> ec_amount config"
proof -
  let ?n = "ec_amount config * ec_cancellation_fee_bps config"
  have n: "0 \<le> ?n" "?n \<le> ec_amount config * 10000" using assms by (auto intro: mult_left_mono)
  with assms have "fee = ?n div 10000" by (auto simp: es_fee_def quot_pos_Inr)
  moreover have "?n div 10000 \<le> ec_amount config * 10000 div 10000" using n by (intro zdiv_mono1) auto
  ultimately show ?thesis using n by (simp add: div_nonneg_int)
qed

text \<open>The parties of an escrow that is not one of them.\<close>

definition parties_ok :: "address \<Rightarrow> escrow_config \<Rightarrow> bool" where
  "parties_ok here config \<longleftrightarrow> here \<notin> {ec_depositor config, ec_beneficiary config, ec_protocol_vault config}
     \<and> 0 \<le> ec_amount config \<and> 0 \<le> ec_cancellation_fee_bps config \<and> ec_cancellation_fee_bps config \<le> 10000"

definition escrow_call :: "address \<Rightarrow> env \<Rightarrow> es_op \<Rightarrow> bool" where
  "escrow_call here E c \<longleftrightarrow> overflow_checks E \<and> this_contract E = here
     \<and> (case c of EDeposit n \<Rightarrow> 0 \<le> n | _ \<Rightarrow> True)"

text \<open>Configurations that differ at most in the amount and the two flags.\<close>

definition deal_terms :: "escrow_config \<Rightarrow> escrow_config" where
  "deal_terms c = c\<lparr>ec_amount := 0, ec_is_released := False, ec_is_cancelled := False\<rparr>"

lemma deal_terms_simps [simp]:
  "deal_terms (c\<lparr>ec_amount := n\<rparr>) = deal_terms c" "deal_terms (c\<lparr>ec_is_released := b\<rparr>) = deal_terms c"
  "deal_terms (c\<lparr>ec_is_cancelled := b\<rparr>) = deal_terms c"
  by (simp_all add: deal_terms_def)

lemma deal_terms_token: "deal_terms c = deal_terms c' \<Longrightarrow> ec_token c = ec_token c'"
  by (cases c; cases c') (simp add: deal_terms_def)

context token_ledger
begin

lemma pay_back_bal:
  assumes "overflow_checks E" "es_pay_back xfer E config fee refund w = Inr w'" "0 \<le> fee"
  shows "bal t a w' = bal t a w + (if t = ec_token config
    then delta (this_contract E) (ec_protocol_vault config) fee a + delta (this_contract E) (ec_depositor config) refund a
    else 0)"
proof (cases "fee > 0")
  case True
  with assms(2) obtain w1 where
    x: "xfer E (ec_token config) (this_contract E) (ec_protocol_vault config) fee w = Some w1"
       "xfer E (ec_token config) (this_contract E) (ec_depositor config) refund w1 = Some w'"
    by (auto simp: es_pay_back_def)
  show ?thesis using xfer_bal [OF assms(1) x(1)] xfer_bal [OF assms(1) x(2)] by simp
next
  case False
  with assms(2) have x: "xfer E (ec_token config) (this_contract E) (ec_depositor config) refund w = Some w'"
    by (auto simp: es_pay_back_def)
  from False assms(3) have "fee = 0" by simp
  with xfer_bal [OF assms(1) x] show ?thesis by (simp add: delta_def)
qed

lemma es_exec_backed:
  assumes run: "es_exec xfer E (s, w) c = Inr (s', w')" and c: "escrow_call here E c"
    and s: "es_config s = Some config" "parties_ok here config"
  shows "\<exists>config'. es_config s' = Some config' \<and> deal_terms config' = deal_terms config \<and> parties_ok here config'
    \<and> bal (ec_token config) here w' - ec_amount config' = bal (ec_token config) here w - ec_amount config"
proof -
  have E: "overflow_checks E" "this_contract E = here" using c by (auto simp: escrow_call_def)
  show ?thesis
  proof (cases "c = ECancel \<or> c = EMutualCancel")
    case True
    from es_cancels_Inr [OF run this] s(1) obtain fee refund where
      f: "es_fee E config = Inr fee" "fit E I128 (ec_amount config - fee) = (Inr refund :: int es_res)"
         "es_pay_back xfer E config fee refund w = Inr w'"
      and s': "es_config s' = Some (config\<lparr>ec_amount := 0, ec_is_cancelled := True\<rparr>)" by auto
    have p: "0 \<le> fee" "fee \<le> ec_amount config" using es_fee_Inr [OF E(1) f(1)] s(2) by (auto simp: parties_ok_def)
    have r: "refund = ec_amount config - fee" using f(2) E(1) by simp
    from pay_back_bal [OF E(1) f(3) p(1), of "ec_token config" here] r s(2) E(2)
    have "bal (ec_token config) here w' = bal (ec_token config) here w - ec_amount config"
      by (auto simp: delta_def parties_ok_def)
    with s' s(2) show ?thesis by (auto simp: parties_ok_def)
  next
    case False
    show ?thesis
    proof (cases c)
      case (EDeposit n)
      with run s obtain x where a: "ec_amount config \<le> 0"
          "xfer E (ec_token config) (ec_depositor config) here n w = Some w'"
        and s': "es_config s' = Some (config\<lparr>ec_amount := n\<rparr>)"
        by (auto simp: es_deposit_def Let_def E(2) split: if_splits)
      have "0 \<le> n" "ec_amount config = 0" using c EDeposit a(1) s(2) by (auto simp: escrow_call_def parties_ok_def)
      with xfer_bal [OF E(1) a(2)] s s' show ?thesis by (auto simp: delta_def parties_ok_def)
    next
      case ERelease
      with run s E(2) have a: "xfer E (ec_token config) here (ec_beneficiary config) (ec_amount config) w = Some w'"
        and s': "es_config s' = Some (config\<lparr>ec_amount := 0, ec_is_released := True\<rparr>)" by (auto simp: es_release_Inr)
      from xfer_bal [OF E(1) a] s s' show ?thesis by (auto simp: delta_def parties_ok_def)
    qed (use False run s in \<open>auto simp: es_initialize_def es_has_config_def es_approve_def es_rotate_guardians_def Let_def
        split: if_splits\<close>)
  qed
qed

end

definition escrow_holds :: "address \<Rightarrow> escrow_config \<Rightarrow> int \<Rightarrow> escrow \<times> tokens \<Rightarrow> bool" where
  "escrow_holds here c0 d sw \<longleftrightarrow> (\<exists>c. es_config (fst sw) = Some c \<and> deal_terms c = deal_terms c0 \<and> parties_ok here c
     \<and> client_balance (ec_token c0) here (snd sw) - ec_amount c = d)"

interpretation escrow_backing: contract_machine "es_step client_transfer" "escrow_call here" "escrow_holds here c0 d"
  for here c0 d
proof
  fix E c sw sw' v
  assume E: "escrow_call here E c" and inv: "escrow_holds here c0 d sw"
    and run: "es_step client_transfer E sw c = Inr (sw', v)"
  obtain s w s' w' where sw: "sw = (s, w)" "sw' = (s', w')" by (metis surj_pair)
  from inv sw obtain config where p: "es_config s = Some config" "deal_terms config = deal_terms c0" "parties_ok here config"
    "client_balance (ec_token c0) here w - ec_amount config = d" by (auto simp: escrow_holds_def)
  from run sw have "es_exec client_transfer E (s, w) c = Inr (s', w')" by (simp add: es_step_def)
  from token_world.es_exec_backed [OF this E p(1,3)] p sw show "escrow_holds here c0 d sw'"
    by (auto simp: escrow_holds_def dest: deal_terms_token)
qed

text \<open>
  The recorded amount is backed: with token contracts of this repository and deposits that are not
  negative, no sequence of calls changes the difference between the escrow's token balance and its
  recorded amount, and the terms of the deal (parties, token, time lock, fee) never change.
\<close>

theorem escrow_amount_backed:
  assumes "es_config s0 = Some c0" "parties_ok here c0" "\<forall>c \<in> set cs. escrow_call here (fst c) (snd c)"
    and "(s, w) = run_calls (es_step client_transfer) cs (s0, w0)"
  shows "\<exists>c. es_config s = Some c \<and> deal_terms c = deal_terms c0 \<and> 0 \<le> ec_amount c
    \<and> client_balance (ec_token c0) here w - ec_amount c = client_balance (ec_token c0) here w0 - ec_amount c0"
proof -
  let ?d = "client_balance (ec_token c0) here w0 - ec_amount c0"
  have "escrow_holds here c0 ?d (s0, w0)" using assms(1,2) by (auto simp: escrow_holds_def)
  from escrow_backing.run_inv [OF this assms(3)] have "escrow_holds here c0 ?d (s, w)" unfolding assms(4) .
  then show ?thesis by (auto simp: escrow_holds_def parties_ok_def)
qed

theorem escrow_amount_backed_witness:
  "\<exists>c. es_config (fst escrow_demo_end) = Some c \<and> ec_amount c = 500
     \<and> client_balance 901 0 (snd escrow_demo_end) = ec_amount c"
proof -
  let ?sw = "run_calls (es_step client_transfer) (take 1 escrow_demo) (empty_escrow, escrow_world)"
  have "map_option (\<lambda>c. (parties_ok 0 c, ec_token c, ec_amount c)) (es_config (fst ?sw)) = Some (True, 901, 0)"
    by code_simp
  then obtain c0 where c0: "es_config (fst ?sw) = Some c0" "parties_ok 0 c0" "ec_token c0 = 901" "ec_amount c0 = 0" by auto
  have calls: "\<forall>c \<in> set (drop 1 escrow_demo). escrow_call 0 (fst c) (snd c)"
    by (simp add: escrow_demo_def escrow_call_def env0_def)
  have "(fst escrow_demo_end, snd escrow_demo_end)
      = run_calls (es_step client_transfer) (drop 1 escrow_demo) (fst ?sw, snd ?sw)"
    by (simp add: escrow_demo_end_def escrow_demo_def)
  from escrow_amount_backed [OF c0(1,2) calls this] c0 obtain c where
    c: "es_config (fst escrow_demo_end) = Some c"
      "client_balance 901 0 (snd escrow_demo_end) - ec_amount c = client_balance 901 0 (snd ?sw)" by auto
  moreover have "client_balance 901 0 (snd ?sw) = 0" "map_option ec_amount (es_config (fst escrow_demo_end)) = Some 500"
    by code_simp+
  ultimately show ?thesis by auto
qed

end
