(* ===== verification/EnglishAuction.thy ===== *)
theory EnglishAuction
  imports TokenInterface
begin

text \<open>
  The English auction of \<open>contracts/english_auction/src/lib.rs\<close>. It moves the token on sale and the
  payments by \<open>invoke_contract(address, "transfer", [from, to, value])\<close>, whatever contract the address
  names, so one function \<open>xfer\<close> stands for both. Every failure of this contract is a panic.
\<close>

section \<open>Data\<close>

definition ANTI_SNIPE_WINDOW_LEDGERS :: int where "ANTI_SNIPE_WINDOW_LEDGERS = 60"
definition ANTI_SNIPE_EXTENSION_LEDGERS :: int where "ANTI_SNIPE_EXTENSION_LEDGERS = 60"
definition ANTI_SNIPE_WINDOW_SECONDS :: int where "ANTI_SNIPE_WINDOW_SECONDS = 300"
definition ANTI_SNIPE_EXTENSION_SECONDS :: int where "ANTI_SNIPE_EXTENSION_SECONDS = 300"
definition SECONDS_PER_LEDGER :: int where "SECONDS_PER_LEDGER = 5"

record bid =
  bid_bidder :: address
  bid_amount :: int

text \<open>One field per \<open>DataKey\<close>.\<close>

record auction =
  ea_seller :: "address option"
  ea_nft_contract :: "address option"
  ea_token_id :: "int option"
  ea_payment_token :: "address option"
  ea_starting_price :: "int option"
  ea_reserve_price :: "int option"
  ea_end_ledger :: "int option"
  ea_end_timestamp :: "int option"
  ea_highest_bidder :: "address option"
  ea_highest_bid :: "int option"
  ea_bids :: "bid list option"

definition empty_auction :: auction where
  "empty_auction = \<lparr>ea_seller = None, ea_nft_contract = None, ea_token_id = None, ea_payment_token = None,
     ea_starting_price = None, ea_reserve_price = None, ea_end_ledger = None, ea_end_timestamp = None,
     ea_highest_bidder = None, ea_highest_bid = None, ea_bids = None\<rparr>"

type_synonym 'a ea_res = "(unit, 'a) res"

definition ea_panic :: "string \<Rightarrow> 'a ea_res" where
  "ea_panic msg = Inl (Panic (Message msg))"

section \<open>Operations\<close>

definition ea_initialize ::
  "'w token_xfer \<Rightarrow> env \<Rightarrow> auction \<times> 'w \<Rightarrow> address \<Rightarrow> address \<Rightarrow> int \<Rightarrow> address \<Rightarrow> int \<Rightarrow> int \<Rightarrow> int
     \<Rightarrow> (auction \<times> 'w) ea_res" where
  "ea_initialize xfer E sw seller nft_contract token_id payment_token starting_price reserve_price duration_ledgers =
     (let s = fst sw; w = snd sw in
      if ea_seller s \<noteq> None then ea_panic ''Already initialized''
      else if duration_ledgers = 0 then ea_panic ''duration_ledgers must be greater than zero''
      else
        rbind (require_auth E seller) (\<lambda>_.
        rbind (fit E U32 (ledger_seq E + duration_ledgers)) (\<lambda>end_ledger.
        rbind (fit E U64 (ledger_time E + saturate U64 (duration_ledgers * SECONDS_PER_LEDGER))) (\<lambda>end_timestamp.
        rbind (call (xfer E nft_contract seller (this_contract E) token_id w)) (\<lambda>w'.
        Inr (s\<lparr>ea_seller := Some seller, ea_nft_contract := Some nft_contract, ea_token_id := Some token_id,
               ea_payment_token := Some payment_token, ea_starting_price := Some starting_price,
               ea_reserve_price := Some reserve_price, ea_end_ledger := Some end_ledger,
               ea_end_timestamp := Some end_timestamp, ea_highest_bid := Some 0, ea_bids := Some []\<rparr>, w'))))))"

definition maybe_extend_deadline :: "env \<Rightarrow> auction \<Rightarrow> int \<Rightarrow> auction" where
  "maybe_extend_deadline E s end_ledger =
     (let remaining_ledgers = saturate U32 (end_ledger - ledger_seq E);
          end_timestamp = (case ea_end_timestamp s of None \<Rightarrow> 0 | Some t \<Rightarrow> t);
          remaining_seconds = saturate U64 (end_timestamp - ledger_time E) in
      if remaining_ledgers \<le> ANTI_SNIPE_WINDOW_LEDGERS \<or> remaining_seconds \<le> ANTI_SNIPE_WINDOW_SECONDS
      then s\<lparr>ea_end_ledger := Some (saturate U32 (end_ledger + ANTI_SNIPE_EXTENSION_LEDGERS)),
             ea_end_timestamp := Some (saturate U64 (end_timestamp + ANTI_SNIPE_EXTENSION_SECONDS))\<rparr>
      else s)"

definition ea_bid :: "'w token_xfer \<Rightarrow> env \<Rightarrow> auction \<times> 'w \<Rightarrow> address \<Rightarrow> int \<Rightarrow> (auction \<times> 'w) ea_res" where
  "ea_bid xfer E sw bidder amount =
     (let s = fst sw; w = snd sw; here = this_contract E in
     rbind (require_auth E bidder) (\<lambda>_.
     rbind (unwrap (ea_end_ledger s)) (\<lambda>end_ledger.
     if ledger_seq E \<ge> end_ledger then ea_panic ''Auction ended''
     else
       rbind (unwrap (ea_starting_price s)) (\<lambda>starting_price.
       if amount < starting_price then ea_panic ''Bid too low''
       else
         rbind (unwrap (ea_highest_bid s)) (\<lambda>highest_bid.
         if amount \<le> highest_bid then ea_panic ''Bid not higher than current highest''
         else
           rbind (unwrap (ea_payment_token s)) (\<lambda>payment_token.
           rbind (call (xfer E payment_token bidder here amount w)) (\<lambda>w1.
           rbind (if highest_bid > 0
                  then rbind (unwrap (ea_highest_bidder s)) (\<lambda>prev_bidder.
                       call (xfer E payment_token here prev_bidder highest_bid w1))
                  else Inr w1) (\<lambda>w2.
           rbind (unwrap (ea_bids s)) (\<lambda>bids.
           Inr (maybe_extend_deadline E
                  (s\<lparr>ea_highest_bidder := Some bidder, ea_highest_bid := Some amount,
                     ea_bids := Some (bids @ [\<lparr>bid_bidder = bidder, bid_amount = amount\<rparr>])\<rparr>) end_ledger, w2))))))))))"

definition ea_end_auction :: "'w token_xfer \<Rightarrow> env \<Rightarrow> auction \<times> 'w \<Rightarrow> (auction \<times> 'w) ea_res" where
  "ea_end_auction xfer E sw =
     (let s = fst sw; w = snd sw; here = this_contract E in
     rbind (unwrap (ea_end_ledger s)) (\<lambda>end_ledger.
     if ledger_seq E < end_ledger then ea_panic ''Auction not ended yet''
     else
       rbind (unwrap (ea_highest_bid s)) (\<lambda>highest_bid.
       rbind (unwrap (ea_reserve_price s)) (\<lambda>reserve_price.
       if highest_bid \<ge> reserve_price then
         rbind (unwrap (ea_seller s)) (\<lambda>seller.
         rbind (unwrap (ea_highest_bidder s)) (\<lambda>highest_bidder.
         rbind (unwrap (ea_nft_contract s)) (\<lambda>nft_contract.
         rbind (unwrap (ea_token_id s)) (\<lambda>token_id.
         rbind (unwrap (ea_payment_token s)) (\<lambda>payment_token.
         rbind (call (xfer E nft_contract here highest_bidder token_id w)) (\<lambda>w1.
         rbind (call (xfer E payment_token here seller highest_bid w1)) (\<lambda>w2.
         Inr (s, w2))))))))
       else
         rbind (if highest_bid > 0
                then rbind (unwrap (ea_highest_bidder s)) (\<lambda>highest_bidder.
                     rbind (unwrap (ea_payment_token s)) (\<lambda>payment_token.
                     call (xfer E payment_token here highest_bidder highest_bid w)))
                else Inr w) (\<lambda>w1.
         rbind (unwrap (ea_seller s)) (\<lambda>seller.
         rbind (unwrap (ea_nft_contract s)) (\<lambda>nft_contract.
         rbind (unwrap (ea_token_id s)) (\<lambda>token_id.
         rbind (call (xfer E nft_contract here seller token_id w1)) (\<lambda>w2.
         Inr (s, w2))))))))))"

section \<open>Views\<close>

definition ea_get_seller :: "auction \<Rightarrow> address ea_res" where
  "ea_get_seller s = unwrap (ea_seller s)"

definition ea_get_highest_bid :: "auction \<Rightarrow> int ea_res" where
  "ea_get_highest_bid s = unwrap (ea_highest_bid s)"

definition ea_get_highest_bidder :: "auction \<Rightarrow> address option" where
  "ea_get_highest_bidder s = ea_highest_bidder s"

definition ea_get_end_ledger :: "auction \<Rightarrow> int ea_res" where
  "ea_get_end_ledger s = unwrap (ea_end_ledger s)"

definition ea_get_end_timestamp :: "auction \<Rightarrow> int ea_res" where
  "ea_get_end_timestamp s = unwrap (ea_end_timestamp s)"

end
