(* ===== verification/EnglishAuctionProperties.thy ===== *)
theory EnglishAuctionProperties
  imports EnglishAuction Token
begin

text \<open>
  Properties of the English auction, for any payment token that keeps its books: bids are refunded when
  outbid, the contract always holds exactly the highest bid, a late bid leaves a full window, the
  settlement pays who it should, and an auction without a positive reserve can lock the token on sale.
\<close>

section \<open>The payment token\<close>

text \<open>What the auction needs of the one token it is paid in; a ledger of tokens gives it for each token.\<close>

locale payment_token =
  fixes xfer :: "'w token_xfer" and P :: address and bal :: "address \<Rightarrow> 'w \<Rightarrow> int"
  assumes pay_bal: "overflow_checks E \<Longrightarrow> xfer E t f to n w = Some w' \<Longrightarrow>
    bal a w' = bal a w + (if t = P then delta f to n a else 0)"

sublocale token_ledger \<subseteq> payment: payment_token xfer t "bal t" for t
  by unfold_locales (simp add: xfer_bal)

section \<open>What a completed call did\<close>

lemma ea_panic_not [simp]: "ea_panic m \<noteq> Inr x"
  by (simp add: ea_panic_def)

lemma extend_simps [simp]:
  "ea_highest_bid (maybe_extend_deadline E s e) = ea_highest_bid s"
  "ea_highest_bidder (maybe_extend_deadline E s e) = ea_highest_bidder s"
  "ea_payment_token (maybe_extend_deadline E s e) = ea_payment_token s"
  "ea_reserve_price (maybe_extend_deadline E s e) = ea_reserve_price s"
  "ea_starting_price (maybe_extend_deadline E s e) = ea_starting_price s"
  "ea_seller (maybe_extend_deadline E s e) = ea_seller s"
  "ea_nft_contract (maybe_extend_deadline E s e) = ea_nft_contract s"
  "ea_token_id (maybe_extend_deadline E s e) = ea_token_id s"
  "ea_bids (maybe_extend_deadline E s e) = ea_bids s"
  by (simp_all add: maybe_extend_deadline_def Let_def)

lemma ea_bid_Inr:
  "ea_bid xfer E (s, w) b n = Inr (s', w') \<Longrightarrow>
   \<exists>e sp h P bs w1. b \<in> set (auths E) \<and> ea_end_ledger s = Some e \<and> ledger_seq E < e
     \<and> ea_starting_price s = Some sp \<and> sp \<le> n \<and> ea_highest_bid s = Some h \<and> h < n
     \<and> ea_payment_token s = Some P \<and> xfer E P b (this_contract E) n w = Some w1
     \<and> (if h > 0 then \<exists>b0. ea_highest_bidder s = Some b0 \<and> xfer E P (this_contract E) b0 h w1 = Some w' else w' = w1)
     \<and> s' = maybe_extend_deadline E (s\<lparr>ea_highest_bidder := Some b, ea_highest_bid := Some n,
              ea_bids := Some (bs @ [\<lparr>bid_bidder = b, bid_amount = n\<rparr>])\<rparr>) e"
  by (auto simp: ea_bid_def Let_def not_le not_less split: if_splits)

text \<open>
  A bid cannot snipe: a completed bid was made before the deadline, is at least the starting price
  and more than the highest bid so far, becomes the highest bid, and leaves more than the 60-ledger
  window to the new deadline, which is never earlier than the old one (as long as ledger numbers are
  an extension away from the 32-bit limit).
\<close>

theorem auction_bid_leaves_window:
  assumes "ea_bid xfer E (s, w) b n = Inr (s', w')" "ea_end_ledger s = Some e"
    and "0 \<le> ledger_seq E" "e + 60 \<le> ity_max U32"
  shows "ledger_seq E < e \<and> b \<in> set (auths E) \<and> ea_highest_bid s' = Some n \<and> ea_highest_bidder s' = Some b
    \<and> (\<exists>sp h. ea_starting_price s = Some sp \<and> sp \<le> n \<and> ea_highest_bid s = Some h \<and> h < n)
    \<and> (\<exists>e'. ea_end_ledger s' = Some e' \<and> e \<le> e' \<and> e' \<le> e + 60 \<and> 60 < e' - ledger_seq E)"
proof -
  from ea_bid_Inr [OF assms(1)] assms(2) obtain sp h bs where
    h: "b \<in> set (auths E)" "ledger_seq E < e" "ea_starting_price s = Some sp" "sp \<le> n" "ea_highest_bid s = Some h" "h < n"
    and s': "s' = maybe_extend_deadline E (s\<lparr>ea_highest_bidder := Some b, ea_highest_bid := Some n,
              ea_bids := Some (bs @ [\<lparr>bid_bidder = b, bid_amount = n\<rparr>])\<rparr>) e" by auto
  have "saturate U32 (e - ledger_seq E) = e - ledger_seq E" "saturate U32 (e + 60) = e + 60"
    using h(2) assms(3,4) by (simp_all add: saturate_id in_range_def)
  then have "\<exists>e'. ea_end_ledger s' = Some e' \<and> e \<le> e' \<and> e' \<le> e + 60 \<and> 60 < e' - ledger_seq E"
    using h(2) assms(2) by (auto simp: s' maybe_extend_deadline_def Let_def ANTI_SNIPE_WINDOW_LEDGERS_def
        ANTI_SNIPE_EXTENSION_LEDGERS_def)
  with h s' show ?thesis by simp
qed

section \<open>Money\<close>

context payment_token
begin

lemma bid_moves:
  assumes "ea_bid xfer E (s, w) b n = Inr (s', w')" "overflow_checks E" "ea_payment_token s = Some P"
  shows "\<exists>h. ea_highest_bid s = Some h \<and> ea_highest_bid s' = Some n \<and> ea_payment_token s' = Some P
    \<and> (if 0 < h then \<exists>b0. ea_highest_bidder s = Some b0 \<and>
          (\<forall>a. bal a w' = bal a w + delta b (this_contract E) n a + delta (this_contract E) b0 h a)
       else \<forall>a. bal a w' = bal a w + delta b (this_contract E) n a)"
proof -
  from ea_bid_Inr [OF assms(1)] assms(3) obtain e bs h w1 where
    h: "ea_highest_bid s = Some h" and x: "xfer E P b (this_contract E) n w = Some w1"
    and y: "if h > 0 then \<exists>b0. ea_highest_bidder s = Some b0 \<and> xfer E P (this_contract E) b0 h w1 = Some w' else w' = w1"
    and s': "s' = maybe_extend_deadline E (s\<lparr>ea_highest_bidder := Some b, ea_highest_bid := Some n,
              ea_bids := Some (bs @ [\<lparr>bid_bidder = b, bid_amount = n\<rparr>])\<rparr>) e" by auto
  have x': "bal a w1 = bal a w + delta b (this_contract E) n a" for a using pay_bal [OF assms(2) x] by simp
  show ?thesis
  proof (cases "0 < h")
    case True
    with y obtain b0 where b0: "ea_highest_bidder s = Some b0" "xfer E P (this_contract E) b0 h w1 = Some w'" by auto
    have "bal a w' = bal a w1 + delta (this_contract E) b0 h a" for a using pay_bal [OF assms(2) b0(2)] by simp
    with True h s' assms(3) b0 x' show ?thesis by auto
  qed (use h s' assms(3) x' y in auto)
qed

end

text \<open>The auction as a transition system, and the calls of its open phase: nobody can authorise for the
  contract itself, and it has not been settled.\<close>

datatype ea_op =
    EaInitialize address address int address int int int
  | EaBid address int
  | EaEnd

fun ea_exec :: "'w token_xfer \<Rightarrow> env \<Rightarrow> auction \<times> 'w \<Rightarrow> ea_op \<Rightarrow> (auction \<times> 'w) ea_res" where
  "ea_exec xfer E sw (EaInitialize se nc i pt sp rp d) = ea_initialize xfer E sw se nc i pt sp rp d"
| "ea_exec xfer E sw (EaBid b n) = ea_bid xfer E sw b n"
| "ea_exec xfer E sw EaEnd = ea_end_auction xfer E sw"

definition ea_step :: "'w token_xfer \<Rightarrow> env \<Rightarrow> auction \<times> 'w \<Rightarrow> ea_op \<Rightarrow> (unit, (auction \<times> 'w) \<times> unit) res" where
  "ea_step xfer E sw c = rbind (ea_exec xfer E sw c) (\<lambda>sw'. Inr (sw', ()))"

definition open_call :: "address \<Rightarrow> env \<Rightarrow> ea_op \<Rightarrow> bool" where
  "open_call here E c \<longleftrightarrow> overflow_checks E \<and> this_contract E = here \<and> here \<notin> set (auths E) \<and> c \<noteq> EaEnd"

definition auction_terms :: "auction \<Rightarrow> address option \<times> address option \<times> address option \<times> int option \<times> int option" where
  "auction_terms s = (ea_seller s, ea_nft_contract s, ea_payment_token s, ea_token_id s, ea_reserve_price s)"

definition auction_holds ::
  "(address \<Rightarrow> 'w \<Rightarrow> int) \<Rightarrow> address \<Rightarrow> address \<Rightarrow> auction \<Rightarrow> int \<Rightarrow> auction \<times> 'w \<Rightarrow> bool" where
  "auction_holds bal here P s0 d sw \<longleftrightarrow>
     (let s = fst sw in ea_payment_token s = Some P \<and> ea_seller s \<noteq> None \<and> auction_terms s = auction_terms s0
      \<and> (\<exists>h. ea_highest_bid s = Some h \<and> 0 \<le> h \<and> bal here (snd sw) - h = d
           \<and> (0 < h \<longrightarrow> (\<exists>b. ea_highest_bidder s = Some b \<and> b \<noteq> here))))"

context payment_token
begin

lemma bid_holds:
  assumes "ea_bid xfer E (s, w) b n = Inr (s', w')" "open_call here E (EaBid b n)" "auction_holds bal here P s0 d (s, w)"
  shows "auction_holds bal here P s0 d (s', w')"
proof -
  have E: "overflow_checks E" "this_contract E = here" "here \<notin> set (auths E)" using assms(2) by (auto simp: open_call_def)
  from assms(3) obtain h where s: "ea_payment_token s = Some P" "ea_highest_bid s = Some h" "0 \<le> h" "bal here w - h = d"
    "0 < h \<longrightarrow> (\<exists>b. ea_highest_bidder s = Some b \<and> b \<noteq> here)" "ea_seller s \<noteq> None" "auction_terms s = auction_terms s0"
    by (auto simp: auction_holds_def Let_def)
  from ea_bid_Inr [OF assms(1)] s(2) have b: "b \<in> set (auths E)" "h < n" "ea_seller s' = ea_seller s"
    "ea_highest_bidder s' = Some b" "auction_terms s' = auction_terms s" by (auto simp: auction_terms_def)
  then have "b \<noteq> here" using E(3) by auto
  moreover from bid_moves [OF assms(1) E(1) s(1)] s(2-5) E(2) \<open>b \<noteq> here\<close>
  have "bal here w' - n = d" "ea_highest_bid s' = Some n" "ea_payment_token s' = Some P"
    by (auto simp: delta_def split: if_splits)
  ultimately show ?thesis using b s by (simp add: auction_holds_def)
qed

lemma end_pays:
  assumes "ea_end_auction xfer E (s, w) = Inr (s', w')" "overflow_checks E" "this_contract E = here"
    and "auction_holds bal here P s0 d (s, w)" "ea_nft_contract s \<noteq> Some P" "ea_seller s \<noteq> Some here"
  shows "s' = s \<and> (\<exists>h r se nc i e. ea_highest_bid s = Some h \<and> ea_reserve_price s = Some r \<and> ea_seller s = Some se
    \<and> ea_nft_contract s = Some nc \<and> ea_token_id s = Some i \<and> ea_end_ledger s = Some e \<and> e \<le> ledger_seq E
    \<and> (if r \<le> h then \<exists>hb w1. ea_highest_bidder s = Some hb \<and> xfer E nc here hb i w = Some w1
          \<and> (\<forall>a. bal a w' = bal a w + delta here se h a)
       else \<exists>w1. xfer E nc here se i w1 = Some w'
          \<and> (if 0 < h then \<exists>hb. ea_highest_bidder s = Some hb \<and> (\<forall>a. bal a w' = bal a w + delta here hb h a)
             else \<forall>a. bal a w' = bal a w)))"
proof -
  from assms(4) obtain h where s: "ea_payment_token s = Some P" "ea_highest_bid s = Some h"
    by (auto simp: auction_holds_def Let_def)
  from assms(1) s obtain r e se nc i where v: "ea_end_ledger s = Some e" "e \<le> ledger_seq E" "ea_reserve_price s = Some r"
    "s' = s" "ea_seller s = Some se" "ea_nft_contract s = Some nc" "ea_token_id s = Some i"
    by (auto simp: ea_end_auction_def Let_def not_less split: if_splits)
  have nc: "nc \<noteq> P" using assms(5) v by auto
  show ?thesis
  proof (cases "r \<le> h")
    case True
    with assms(1,3) s v obtain hb w1 where hb: "ea_highest_bidder s = Some hb" "xfer E nc here hb i w = Some w1"
      "xfer E P here se h w1 = Some w'" by (auto simp: ea_end_auction_def Let_def)
    then have "bal a w' = bal a w + delta here se h a" for a
      using pay_bal [OF assms(2) hb(2)] pay_bal [OF assms(2) hb(3)] nc by simp
    with True s v hb show ?thesis by auto
  next
    case False
    with assms(1,3) s v obtain w1 where x: "xfer E nc here se i w1 = Some w'"
      and y: "if 0 < h then \<exists>hb. ea_highest_bidder s = Some hb \<and> xfer E P here hb h w = Some w1 else w1 = w"
      by (auto simp: ea_end_auction_def Let_def split: if_splits)
    have "bal a w' = bal a w1" for a using pay_bal [OF assms(2) x] nc by simp
    with False s v x y show ?thesis using pay_bal [OF assms(2)] by (fastforce split: if_splits)
  qed
qed

end

sublocale payment_token \<subseteq> auction_open: contract_machine "ea_step xfer" "open_call here" "auction_holds bal here P s0 d"
  for here s0 d
proof
  fix E c sw sw' v
  assume o: "open_call here E c" and inv: "auction_holds bal here P s0 d sw" and run: "ea_step xfer E sw c = Inr (sw', v)"
  obtain s w s' w' where sw: "sw = (s, w)" "sw' = (s', w')" by (metis surj_pair)
  from run sw have run: "ea_exec xfer E (s, w) c = Inr (s', w')" by (simp add: ea_step_def)
  show "auction_holds bal here P s0 d sw'"
  proof (cases c)
    case (EaBid b n)
    with run bid_holds [of E s w b n s' w' here s0 d] o inv sw show ?thesis by simp
  next
    case (EaInitialize se nc i pt sp rp dl)
    with run inv sw show ?thesis by (auto simp: ea_initialize_def Let_def auction_holds_def split: if_splits)
  qed (use o in \<open>simp add: open_call_def\<close>)
qed

context payment_token
begin

lemmas open_run = auction_open.run_inv

lemma pays_out:
  assumes "ea_payment_token s0 = Some P" "ea_highest_bid s0 = Some 0" "ea_seller s0 = Some se" "se \<noteq> here"
    and "ea_nft_contract s0 = Some nc" "nc \<noteq> P"
    and "\<forall>c \<in> set cs. open_call here (fst c) (snd c)" "(s, w) = run_calls (ea_step xfer) cs (s0, w0)"
    and E: "overflow_checks E" "this_contract E = here" and fin: "ea_end_auction xfer E (s, w) = Inr (s', w')"
  shows "\<exists>h r. ea_highest_bid s = Some h \<and> ea_reserve_price s = Some r \<and> bal here w = bal here w0 + h
    \<and> bal here w' = bal here w0
    \<and> (if r \<le> h then bal se w' = bal se w + h
       else 0 < h \<longrightarrow> (\<exists>b. ea_highest_bidder s = Some b \<and> bal b w' = bal b w + h))"
proof -
  have "auction_holds bal here P s0 (bal here w0) (s0, w0)" using assms(1-3) by (simp add: auction_holds_def)
  from open_run [OF this assms(7)] have inv: "auction_holds bal here P s0 (bal here w0) (s, w)"
    unfolding assms(8) .
  then obtain h where h: "ea_highest_bid s = Some h" "0 \<le> h" "bal here w - h = bal here w0" "auction_terms s = auction_terms s0"
    "0 < h \<longrightarrow> (\<exists>b. ea_highest_bidder s = Some b \<and> b \<noteq> here)" by (auto simp: auction_holds_def Let_def)
  from h(4) assms(3,5) have s: "ea_seller s = Some se" "ea_nft_contract s = Some nc" by (auto simp: auction_terms_def)
  have "ea_nft_contract s \<noteq> Some P" "ea_seller s \<noteq> Some here" using s assms(4,6) by auto
  note pays = end_pays [OF fin E inv this]
  from pays s h(1) obtain r where r: "ea_reserve_price s = Some r" "r \<le> h \<Longrightarrow> \<forall>a. bal a w' = bal a w + delta here se h a"
    "\<not> r \<le> h \<Longrightarrow> if 0 < h then \<exists>hb. ea_highest_bidder s = Some hb \<and> (\<forall>a. bal a w' = bal a w + delta here hb h a)
             else \<forall>a. bal a w' = bal a w" by (auto split: if_splits)
  show ?thesis
  proof (cases "r \<le> h")
    case True
    with r(1,2) h(1,3) assms(4) show ?thesis by (auto simp: delta_def)
  next
    case False
    with r(1,3) h show ?thesis by (cases "0 < h") (auto simp: delta_def)
  qed
qed

end


text \<open>
  A concrete market for examples: the token contracts of this repository, and at address 950 a registry
  that records the owner of each identifier.
\<close>

type_synonym market = "tokens \<times> (int \<rightharpoonup> address)"

definition market_transfer :: "market token_xfer" where
  "market_transfer E t f to n m =
     (if t = 950
      then if snd m n = Some f \<and> (f = this_contract E \<or> List.member (auths E) f) then Some (fst m, (snd m)(n \<mapsto> to)) else None
      else map_option (\<lambda>w. (w, snd m)) (client_transfer E t f to n (fst m)))"

definition market_balance :: "address \<Rightarrow> market \<Rightarrow> int" where
  "market_balance a m = client_balance 901 a (fst m)"

interpretation market_pay: payment_token market_transfer 901 market_balance
proof
  fix E t f to n w w' a
  assume E: "overflow_checks E" and x: "market_transfer E t f to n w = Some w'"
  show "market_balance a w' = market_balance a w + (if t = 901 then delta f to n a else 0)"
  proof (cases "t = 950")
    case False
    with x obtain v where "client_transfer E t f to n (fst w) = Some v" "w' = (v, snd w)"
      by (auto simp: market_transfer_def)
    with token_world.xfer_bal [OF E this(1)] show ?thesis by (simp add: market_balance_def)
  qed (use x in \<open>auto simp: market_transfer_def market_balance_def split: if_splits\<close>)
qed

definition market0 :: market where
  "market0 = ([901 \<mapsto> \<lparr>tk_balances = [51 \<mapsto> 1000, 52 \<mapsto> 1000], tk_allowances = Map.empty, tk_admin = Some 11,
     tk_metadata = None, tk_guard = empty_guard, tk_events = []\<rparr>], [7 \<mapsto> 50])"

text \<open>Account 50 offers item 7 from 100 units up with a reserve of 150, for 200 ledgers.\<close>

definition auction_opened :: "auction \<times> market" where
  "auction_opened = run_calls (ea_step market_transfer)
     [(env0 [50], EaInitialize 50 950 7 901 100 150 200)] (empty_auction, market0)"

definition auction_bids :: "(env \<times> ea_op) list" where
  "auction_bids = [(env0 [51], EaBid 51 120), (env0 [52], EaBid 52 120), (env0 [52], EaBid 52 180)]"

definition auction_closed :: "auction \<times> market" where
  "auction_closed = run_calls (ea_step market_transfer) auction_bids auction_opened"

definition settlement_env :: env where
  "settlement_env = (env0 [])\<lparr>ledger_seq := 400\<rparr>"

definition late_env :: env where
  "late_env = (env0 [51])\<lparr>ledger_seq := 250\<rparr>"

theorem auction_bid_leaves_window_witness:
  "\<exists>s' w'. ea_bid market_transfer late_env auction_opened 51 120 = Inr (s', w') \<and> ea_highest_bidder s' = Some 51
     \<and> (\<exists>e'. ea_end_ledger s' = Some e' \<and> 60 < e' - 250)"
proof -
  have "\<not> isl (ea_bid market_transfer late_env auction_opened 51 120)" by code_simp
  then obtain s' w' where r: "ea_bid market_transfer late_env (fst auction_opened, snd auction_opened) 51 120
      = Inr (s', w')" by (metis isl_def old.sum.exhaust prod.collapse)
  have "ea_end_ledger (fst auction_opened) = Some 300" by code_simp
  from auction_bid_leaves_window [OF r this] r show ?thesis by (auto simp: late_env_def)
qed


section \<open>An auction that cannot end\<close>

text \<open>
  With a reserve price of zero or less and no bid before the deadline, the token on sale is locked
  for good: \<open>end_auction\<close> takes the branch for a met reserve and fails for want of a highest bidder, no
  bid is accepted any more, and so no sequence of later calls, whoever makes them, changes anything.
\<close>

theorem auction_unsold_without_reserve_is_stuck:
  assumes "ea_seller s \<noteq> None" "ea_highest_bid s = Some 0" "ea_highest_bidder s = None" "ea_reserve_price s = Some r" "r \<le> 0"
    and "ea_end_ledger s = Some e" "\<forall>c \<in> set cs. e \<le> ledger_seq (fst c)"
  shows "run_calls (ea_step xfer) cs (s, w) = (s, w)"
  using assms(7)
proof (induction cs)
  case (Cons c cs)
  have "\<exists>x. ea_exec xfer (fst c) (s, w) (snd c) = Inl x"
    using assms(1-6) Cons.prems
    by (cases "snd c") (auto simp: ea_initialize_def ea_bid_def ea_end_auction_def ea_panic_def require_auth_def Let_def)
  then have "apply_call (ea_step xfer) c (s, w) = (s, w)" by (auto simp: apply_call_def ea_step_def)
  with Cons show ?case by simp
qed simp

theorem auction_unsold_without_reserve_is_stuck_witness:
  "\<exists>s w. (s, w) = run_calls (ea_step market_transfer)
        [(env0 [50], EaInitialize 50 950 7 901 100 0 200)] (empty_auction, market0)
     \<and> snd w 7 = Some 0 \<and> run_calls (ea_step market_transfer) [(settlement_env, EaEnd)] (s, w) = (s, w)"
proof -
  let ?sw = "run_calls (ea_step market_transfer)
        [(env0 [50], EaInitialize 50 950 7 901 100 0 200)] (empty_auction, market0)"
  have "ea_seller (fst ?sw) \<noteq> None" "ea_highest_bid (fst ?sw) = Some 0" "ea_highest_bidder (fst ?sw) = None"
    "ea_reserve_price (fst ?sw) = Some 0" "ea_end_ledger (fst ?sw) = Some 300" "snd (snd ?sw) 7 = Some 0" by code_simp+
  with auction_unsold_without_reserve_is_stuck [of "fst ?sw" 0 300 "[(settlement_env, EaEnd)]" market_transfer "snd ?sw"]
  show ?thesis by (intro exI [of _ "fst ?sw"] exI [of _ "snd ?sw"])
      (simp add: settlement_env_def env0_def del: run_calls_simps)
qed

end
