(* ===== verification/FixedMath.thy ===== *)
theory FixedMath
  imports Prelude
begin

unbundle bit_operations_syntax

text \<open>
  The fixed-point library \<open>contracts/math/src/lib.rs\<close>: 18-decimal numbers held in an \<open>i128\<close>. The 256-bit
  multiply-and-divide works on 128-bit words as the code does; signed values are integers in the range
  of an \<open>i128\<close>, with the range checks the code makes.
\<close>

section \<open>Data\<close>

text \<open>The error codes of \<open>contracts/error_codes\<close>, which the library re-exports as \<open>MathError\<close>.\<close>

datatype contract_error = AlreadyInitialized | NotInitialized | Unauthorized | InsufficientBalance
  | InsufficientLiquidity | InsufficientShares | InsufficientAllowance | SlippageExceeded | InvalidFee
  | NoPendingFeeUpdate | TimelockNotElapsed | OracleNotConfigured | InvalidOraclePrice | Paused | Overflow
  | DivisionByZero | InvalidInput | InvalidAmount

type_synonym 'a math_res = "(contract_error, 'a) res"

definition SCALE :: int where "SCALE = 1000000000000000000"
definition LN2 :: int where "LN2 = 693147180559945309"
definition WAD :: int where "WAD = SCALE"
definition RAY :: int where "RAY = 1000000000000000000000000000"

section \<open>Multiplication followed by division\<close>

text \<open>The loop over the bits of the low half, from bit \<open>i - 1\<close> down to bit 0.\<close>

fun div_loop :: "128 word \<Rightarrow> 128 word \<Rightarrow> nat \<Rightarrow> 128 word \<Rightarrow> 128 word \<Rightarrow> 128 word" where
  "div_loop d low 0 quo remainder = quo"
| "div_loop d low (Suc i) quo remainder =
     (let r1 = push_bit 1 remainder OR (drop_bit i low AND 1) in
      if r1 \<ge> d then div_loop d low i (quo OR push_bit i 1) (r1 - d)
      else div_loop d low i quo r1)"

definition mask64 :: "128 word" where
  "mask64 = 0xFFFFFFFFFFFFFFFF"

definition mul_div_u128 :: "128 word \<Rightarrow> 128 word \<Rightarrow> 128 word \<Rightarrow> 128 word \<times> bool" where
  "mul_div_u128 a b d =
     (if unat a * unat b < 2 ^ 128 then (a * b div d, False)
      else
        let a_low = a AND mask64; a_high = drop_bit 64 a;
            b_low = b AND mask64; b_high = drop_bit 64 b;
            p0 = a_low * b_low; p1 = a_low * b_high; p2 = a_high * b_low; p3 = a_high * b_high;
            mid = (p1 AND mask64) + (p2 AND mask64) + drop_bit 64 p0;
            high = p3 + drop_bit 64 p1 + drop_bit 64 p2 + drop_bit 64 mid;
            low = push_bit 64 mid OR (p0 AND mask64) in
        if high \<ge> d then (0, True)
        else (div_loop d low 128 0 high, False))"

text \<open>\<open>unsigned_abs\<close> of an \<open>i128\<close>.\<close>

definition unsigned_abs :: "int \<Rightarrow> 128 word" where
  "unsigned_abs x = of_int \<bar>x\<bar>"

definition mul_div :: "int \<Rightarrow> int \<Rightarrow> int \<Rightarrow> int option" where
  "mul_div a b d =
     (if d = 0 then None
      else
        let (res_abs, overflow) = mul_div_u128 (unsigned_abs a) (unsigned_abs b) (unsigned_abs d) in
        if overflow \<or> uint res_abs > ity_max I128 then None
        else
          let res = uint res_abs in
          if (a < 0) \<noteq> ((b < 0) \<noteq> (d < 0)) then Some (- res) else Some res)"

section \<open>Arithmetic\<close>

definition fx_from_int :: "int \<Rightarrow> int math_res" where
  "fx_from_int v = ok_or contract_error.Overflow (checked I128 (v * SCALE))"

definition fx_to_int :: "int \<Rightarrow> int" where
  "fx_to_int x = tdiv x SCALE"

definition fx_add :: "int \<Rightarrow> int \<Rightarrow> int math_res" where
  "fx_add x y = ok_or contract_error.Overflow (checked I128 (x + y))"

definition fx_sub :: "int \<Rightarrow> int \<Rightarrow> int math_res" where
  "fx_sub x y = ok_or contract_error.Overflow (checked I128 (x - y))"

definition fx_mul :: "int \<Rightarrow> int \<Rightarrow> int math_res" where
  "fx_mul x y = ok_or contract_error.Overflow (mul_div x y SCALE)"

definition fx_div :: "int \<Rightarrow> int \<Rightarrow> int math_res" where
  "fx_div x y =
     (if y = 0 then Inl (Err DivisionByZero) else ok_or contract_error.Overflow (mul_div x SCALE y))"

definition wad_mul :: "int \<Rightarrow> int \<Rightarrow> int math_res" where
  "wad_mul a b = ok_or contract_error.Overflow (mul_div a b WAD)"

definition wad_div :: "int \<Rightarrow> int \<Rightarrow> int math_res" where
  "wad_div a b = (if b = 0 then Inl (Err DivisionByZero) else ok_or contract_error.Overflow (mul_div a WAD b))"

definition ray_mul :: "int \<Rightarrow> int \<Rightarrow> int math_res" where
  "ray_mul a b = ok_or contract_error.Overflow (mul_div a b RAY)"

definition ray_div :: "int \<Rightarrow> int \<Rightarrow> int math_res" where
  "ray_div a b = (if b = 0 then Inl (Err DivisionByZero) else ok_or contract_error.Overflow (mul_div a RAY b))"

section \<open>Exponential\<close>

text \<open>The Taylor loop over the indices \<open>1..25\<close> (the upper end excluded).\<close>

fun exp_terms :: "int \<Rightarrow> int list \<Rightarrow> int \<Rightarrow> int \<Rightarrow> int math_res" where
  "exp_terms r [] term result = Inr result"
| "exp_terms r (i # is) term result =
     rbind (ok_or contract_error.Overflow (mul_div term r (i * SCALE))) (\<lambda>term'.
     if term' = 0 then Inr result
     else rbind (ok_or contract_error.Overflow (checked I128 (result + term'))) (\<lambda>result'.
          exp_terms r is term' result'))"

text \<open>\<open>checked_shl\<close> only checks the distance; the bits shifted out are lost. \<open>>>\<close> on an \<open>i128\<close> rounds down.\<close>

definition checked_shl :: "int \<Rightarrow> int \<Rightarrow> int option" where
  "checked_shl x n = (if n < 128 then Some (wrap I128 (x * 2 ^ nat n)) else None)"

definition fx_exp :: "int \<Rightarrow> int math_res" where
  "fx_exp x =
     (if x = 0 then Inr SCALE
      else if x < - 42 * SCALE then Inr 0
      else if x > 88 * SCALE then Inl (Err contract_error.Overflow)
      else
        let n = tdiv x LN2; r = tmod x LN2 in
        rbind (exp_terms r [1..24] SCALE SCALE) (\<lambda>result.
        if n \<ge> 0 then ok_or contract_error.Overflow (checked_shl result n)
        else Inr (result div 2 ^ nat (- n))))"

section \<open>Logarithm and powers\<close>

text \<open>The two range-reduction loops. Their argument is positive; the second loop says so in its test, for
  without it the doubling of a number that is not positive would not end.\<close>

function ln_halve :: "int \<Rightarrow> int \<Rightarrow> int \<times> int" where
  "ln_halve x n = (if x > 2 * SCALE then ln_halve (x div 2) (n + 1) else (x, n))"
  by auto
termination
  by (relation "measure (\<lambda>(x, n). nat x)") (auto simp: SCALE_def)

function ln_double :: "int \<Rightarrow> int \<Rightarrow> int \<times> int" where
  "ln_double x n = (if 0 < x \<and> x < SCALE then ln_double (x * 2) (n - 1) else (x, n))"
  by auto
termination
  by (relation "measure (\<lambda>(x, n). nat (SCALE - x))") auto

declare ln_halve.simps [simp del] ln_double.simps [simp del]

text \<open>At most eight Newton steps; \<open>k\<close> counts the remaining ones.\<close>

fun ln_newton :: "env \<Rightarrow> int \<Rightarrow> nat \<Rightarrow> int \<Rightarrow> int math_res" where
  "ln_newton E x 0 y = Inr y"
| "ln_newton E x (Suc k) y =
     rbind (fx_exp y) (\<lambda>ey.
     rbind (fit E I128 (x - ey)) (\<lambda>diff.
     rbind (ok_or contract_error.Overflow (checked I128 (diff * 2))) (\<lambda>num.
     rbind (fit E I128 (x + ey)) (\<lambda>den.
     rbind (ok_or contract_error.Overflow (mul_div num SCALE den)) (\<lambda>delta.
     rbind (ok_or contract_error.Overflow (checked I128 (y + delta))) (\<lambda>y'.
     if \<bar>delta\<bar> \<le> 1 then Inr y' else ln_newton E x k y'))))))"

definition fx_ln :: "env \<Rightarrow> int \<Rightarrow> int math_res" where
  "fx_ln E x0 =
     (if x0 \<le> 0 then Inl (Err InvalidInput)
      else
        let (x1, n1) = ln_halve x0 0; (x, n) = ln_double x1 n1 in
        rbind (ln_newton E x 8 0) (\<lambda>y.
        rbind (ok_or contract_error.Overflow (checked I128 (n * LN2))) (\<lambda>nln2.
        ok_or contract_error.Overflow (checked I128 (y + nln2)))))"

definition fx_pow :: "env \<Rightarrow> int \<Rightarrow> int \<Rightarrow> int math_res" where
  "fx_pow E x y =
     (if x = 0 then (if y = 0 then Inr SCALE else Inr 0)
      else if x < 0 then Inl (Err InvalidInput)
      else rbind (fx_ln E x) (\<lambda>lnx. rbind (fx_mul y lnx) fx_exp))"

end
