(* ===== verification/FixedMathProperties.thy ===== *)
theory FixedMathProperties
  imports FixedMath
begin

unbundle bit_operations_syntax

text \<open>
  Properties of the fixed-point library: the word-level multiply-and-divide is exact 256-bit
  arithmetic, the exponential of a moderate argument is at least one, and beyond that range it wraps.
\<close>

section \<open>Multiplication followed by division\<close>

lemma unat_or_disjoint: "(x :: 'a :: len word) AND y = 0 \<Longrightarrow> unat (x OR y) = unat x + unat y"
proof -
  assume "x AND y = 0"
  then have "unat x AND unat y = 0" by (metis unsigned_and_eq unsigned_0)
  then show ?thesis by (simp add: unsigned_or_eq disjunctive_add_eq_or)
qed

lemma mask64_mask: "mask64 = mask 64"
  by (simp add: mask64_def mask_eq_exp_minus_1)

lemma low_half: "unat (x AND mask64) = unat x mod 2 ^ 64"
  using unsigned_take_bit_eq [of 64 x, where ?'a = nat]
  by (simp add: mask64_mask take_bit_eq_mask [symmetric] take_bit_eq_mod)

lemma high_half: "unat (drop_bit 64 (x :: 128 word)) = unat x div 2 ^ 64"
  using unat_drop_bit_eq [of 64 x] by (simp add: drop_bit_eq_div)

lemma next_bit: "unat (drop_bit i (x :: 128 word) AND 1) = (unat x div 2 ^ i) mod 2"
proof -
  have "unat (drop_bit i x AND 1) = unat (drop_bit i x) AND unat (1 :: 128 word)" by (rule unsigned_and_eq)
  also have "\<dots> = drop_bit i (unat x) mod 2" by (simp only: unat_drop_bit_eq unat_1 and_one_eq)
  finally show ?thesis by (simp only: drop_bit_eq_div)
qed

lemma unat_double: "unat (r :: 128 word) < 2 ^ 127 \<Longrightarrow> unat (push_bit 1 r) = 2 * unat r"
proof -
  assume "unat r < 2 ^ 127"
  then have "unat (2 :: 128 word) * unat r < 2 ^ LENGTH(128)" by simp
  then have "unat (2 * r) = unat (2 :: 128 word) * unat r" by (simp only: unat_mult_lem)
  then show ?thesis by (simp add: push_bit_eq_mult mult.commute)
qed

lemma shift_in:
  fixes r b :: "128 word"
  assumes "unat r < 2 ^ 127" "unat b < 2"
  shows "unat (push_bit 1 r OR b) = 2 * unat r + unat b"
proof -
  from assms(2) have "unat b = 0 \<or> unat b = 1" by linarith
  then have "b = 0 \<or> b = 1" by (auto simp: word_unat_eq_iff)
  moreover have "push_bit 1 r AND 2 ^ 0 = 0" unfolding and_exp_eq_0_iff_not_bit by (simp only: bit_push_bit_iff) simp
  ultimately have "push_bit 1 r AND b = 0" by (elim disjE) (simp_all only: power_0 and_zero_eq)
  from unat_or_disjoint [OF this] unat_double [OF assms(1)] show ?thesis by simp
qed

lemma set_low_bit:
  fixes q :: "128 word"
  assumes "2 ^ Suc i dvd unat q" "i < 128"
  shows "unat (q OR push_bit i 1) = unat q + 2 ^ i"
proof -
  have "\<not> bit (unat q) i"
  proof -
    from assms(1) obtain k where "unat q = 2 ^ Suc i * k" by blast
    then have "unat q = 2 ^ i * (2 * k)" by simp
    then show ?thesis by (simp add: bit_iff_odd)
  qed
  then have "q AND push_bit i 1 = 0"
    by (simp add: bit_unsigned_iff push_bit_eq_mult and_exp_eq_0_iff_not_bit)
  moreover have "unat (push_bit i (1 :: 128 word)) = 2 ^ i"
  proof -
    have "push_bit i (1 :: 128 word) = of_nat (2 ^ i)" by (simp add: push_bit_eq_mult)
    then have "unat (push_bit i (1 :: 128 word)) = 2 ^ i mod 2 ^ LENGTH(128)" by (simp only: unat_of_nat)
    moreover have "(2 :: nat) ^ i < 2 ^ LENGTH(128)" using assms(2) by (intro power_strict_increasing) simp_all
    ultimately show ?thesis by (simp only: mod_less)
  qed
  ultimately show ?thesis by (simp add: unat_or_disjoint)
qed

lemma bit_of_rest: "i < k \<Longrightarrow> (n :: nat) mod 2 ^ k div 2 ^ i mod 2 = n div 2 ^ i mod 2"
proof -
  assume "i < k"
  then have "bit (take_bit k n) i = bit n i" by (simp add: bit_take_bit_iff)
  then show ?thesis by (simp add: bit_iff_odd take_bit_eq_mod mod_2_eq_odd)
qed

text \<open>One round: after bit \<open>i\<close>, quotient and remainder are those of the number cut off at that bit.\<close>

lemma div_loop_correct:
  fixes d low q r :: "128 word"
  assumes "0 < unat d" "unat d \<le> 2 ^ 127"
  shows "\<lbrakk>i \<le> 128; unat r < unat d; 2 ^ i dvd unat q; n mod 2 ^ 128 = unat low;
    n div 2 ^ i = unat q div 2 ^ i * unat d + unat r\<rbrakk>
   \<Longrightarrow> unat (div_loop d low i q r) = n div unat d"
proof (induction i arbitrary: q r)
  case 0
  then have "n = unat r + unat q * unat d" by simp
  then show ?case using 0(2) by simp
next
  case (Suc i)
  let ?b = "drop_bit i low AND 1" and ?D = "unat d"
  let ?r = "push_bit 1 r OR ?b" and ?Q = "unat q div 2 ^ Suc i"
  have i: "i < 128" using Suc.prems(1) by simp
  have b: "unat ?b = n div 2 ^ i mod 2"
    using next_bit [of i low] bit_of_rest [OF i, of n] Suc.prems(4) by simp
  have r: "unat ?r = 2 * unat r + unat ?b"
    by (rule shift_in) (use assms(2) Suc.prems(2) b in simp_all)
  have q: "unat q = ?Q * 2 * 2 ^ i"
    using dvd_div_mult_self [OF Suc.prems(3)] by (simp only: power_Suc mult.assoc)
  have h: "n div 2 ^ Suc i = n div 2 ^ i div 2" by (simp add: div_mult2_eq [symmetric] mult.commute)
  have "n div 2 ^ i = 2 * (n div 2 ^ Suc i) + unat ?b" unfolding h b by simp
  then have n: "n div 2 ^ i = 2 * (?Q * ?D + unat r) + unat ?b" by (simp only: Suc.prems(5))
  show ?case
  proof (cases "d \<le> ?r")
    case True
    then have le: "?D \<le> unat ?r" by (simp add: word_le_nat_alt)
    then have r': "unat (?r - d) = unat ?r - ?D" by (simp add: unat_sub_if_size)
    have q': "unat (q OR push_bit i 1) = (?Q * 2 + 1) * 2 ^ i"
      using set_low_bit [OF Suc.prems(3) i] q by simp
    have "unat (div_loop d low i (q OR push_bit i 1) (?r - d)) = n div ?D"
    proof (rule Suc.IH)
      show "unat (?r - d) < ?D" using r' le r Suc.prems(2) b by auto
      show "n div 2 ^ i = unat (q OR push_bit i 1) div 2 ^ i * ?D + unat (?r - d)"
        unfolding q' r' using n r le by (simp add: algebra_simps)
    qed (use i q' Suc.prems(4) in simp_all)
    with True show ?thesis by (simp add: Let_def)
  next
    case False
    then have lt: "unat ?r < ?D" by (simp add: word_le_nat_alt)
    have "unat (div_loop d low i q ?r) = n div ?D"
    proof (rule Suc.IH)
      show "2 ^ i dvd unat q" using q by (metis dvd_triv_right)
      have "unat q div 2 ^ i = ?Q * 2" using q by (metis nonzero_mult_div_cancel_right power_not_zero zero_neq_numeral)
      then show "n div 2 ^ i = unat q div 2 ^ i * ?D + unat ?r" using n r by (simp add: algebra_simps)
    qed (use i lt Suc.prems(4) in simp_all)
    with False show ?thesis by (simp add: Let_def)
  qed
qed

lemma divmod_cases: obtains q r where "(x :: nat) = M * q + r" "x div M = q" "x mod M = r"
  by (metis mult_div_mod_eq)

lemma carries:
  fixes p0 p1 p2 p3 M :: nat
  shows "p3 * (M * M) + (p1 + p2) * M + p0
    = (p3 + p1 div M + p2 div M + (p1 mod M + p2 mod M + p0 div M) div M) * (M * M)
      + ((p1 mod M + p2 mod M + p0 div M) mod M * M + p0 mod M)"
proof -
  obtain q0 r0 where p0: "p0 = M * q0 + r0" "p0 div M = q0" "p0 mod M = r0" by (rule divmod_cases)
  obtain q1 r1 where p1: "p1 = M * q1 + r1" "p1 div M = q1" "p1 mod M = r1" by (rule divmod_cases)
  obtain q2 r2 where p2: "p2 = M * q2 + r2" "p2 div M = q2" "p2 mod M = r2" by (rule divmod_cases)
  obtain c m where mid: "r1 + r2 + q0 = M * c + m" "(r1 + r2 + q0) div M = c" "(r1 + r2 + q0) mod M = m"
    by (rule divmod_cases)
  have "p3 * (M * M) + (p1 + p2) * M + p0 = (p3 + q1 + q2) * (M * M) + (r1 + r2 + q0) * M + r0"
    unfolding p0(1) p1(1) p2(1) by (simp add: algebra_simps)
  also have "\<dots> = (p3 + q1 + q2 + c) * (M * M) + (m * M + r0)" unfolding mid(1) by (simp add: algebra_simps)
  finally show ?thesis unfolding p0(2,3) p1(2,3) p2(2,3) mid(2,3) .
qed

text \<open>Schoolbook multiplication with digits in base \<open>M\<close>.\<close>

lemma schoolbook:
  fixes A B M :: nat
  assumes "0 < M" "A < M * M" "B < M * M"
  defines "al \<equiv> A mod M" and "ah \<equiv> A div M" and "bl \<equiv> B mod M" and "bh \<equiv> B div M"
  defines "mid \<equiv> al * bh mod M + ah * bl mod M + al * bl div M"
  shows "A * B = (ah * bh + al * bh div M + ah * bl div M + mid div M) * (M * M) + (mid mod M * M + al * bl mod M)"
    and "al < M" "ah < M" "bl < M" "bh < M" "mid < 3 * M" "mid mod M * M + al * bl mod M < M * M"
    and "ah * bh + al * bh div M + ah * bl div M + mid div M < M * M"
proof -
  have d: "x = M * (x div M) + x mod M" for x by simp
  have A: "A = M * ah + al" and B: "B = M * bh + bl" by (simp_all add: al_def ah_def bl_def bh_def)
  show al: "al < M" and bl: "bl < M" using assms(1) by (simp_all add: al_def bl_def)
  show ah: "ah < M" and bh: "bh < M"
    using assms(2,3) by (simp_all add: ah_def bh_def less_mult_imp_div_less)
  have "al * bl < M * M" using al bl by (simp add: mult_strict_mono)
  then have "al * bl div M < M" by (simp add: less_mult_imp_div_less)
  moreover have "al * bh mod M < M" "ah * bl mod M < M" using assms(1) by simp_all
  ultimately show "mid < 3 * M" unfolding mid_def by linarith
  have "(mid mod M + 1) * M \<le> M * M" using assms(1) by (intro mult_right_mono) (simp_all add: Suc_leI)
  moreover have "al * bl mod M < M" using assms(1) by simp
  ultimately show "mid mod M * M + al * bl mod M < M * M" by (simp add: algebra_simps)
  have "A * B = ah * bh * (M * M) + (al * bh + ah * bl) * M + al * bl"
    unfolding A B by (simp add: algebra_simps)
  then show eq: "A * B = (ah * bh + al * bh div M + ah * bl div M + mid div M) * (M * M) + (mid mod M * M + al * bl mod M)"
    unfolding mid_def carries [of "ah * bh" M "al * bh" "ah * bl" "al * bl"] .
  have "A * B < (M * M) * (M * M)" using assms by (intro mult_strict_mono) auto
  then have "(ah * bh + al * bh div M + ah * bl div M + mid div M) * (M * M) < (M * M) * (M * M)"
    unfolding eq by linarith
  then show "ah * bh + al * bh div M + ah * bl div M + mid div M < M * M" by simp
qed

lemma prod_ok: "unat x = k \<Longrightarrow> unat y = l \<Longrightarrow> k * l < 2 ^ 128 \<Longrightarrow> unat (x * y :: 128 word) = k * l"
  using unat_mult_lem [of x y] by simp

lemma sum_ok: "unat x = k \<Longrightarrow> unat y = l \<Longrightarrow> k + l < 2 ^ 128 \<Longrightarrow> unat (x + y :: 128 word) = k + l"
  using unat_add_lem [of x y] by simp

lemma unat_shift_high: "unat (push_bit 64 (x :: 128 word)) = unat x mod 2 ^ 64 * 2 ^ 64"
proof -
  have "unat (push_bit 64 x) = unat x * unat (2 ^ 64 :: 128 word) mod 2 ^ LENGTH(128)"
    by (simp only: push_bit_eq_mult unat_word_ariths(2))
  also have "unat (2 ^ 64 :: 128 word) = 2 ^ 64" by simp
  also have "unat x * 2 ^ 64 mod 2 ^ LENGTH(128) = unat x * 2 ^ 64 mod (2 ^ 64 * 2 ^ 64)" by simp
  also have "\<dots> = unat x mod 2 ^ 64 * 2 ^ 64" by (rule mult_mod_left [symmetric])
  finally show ?thesis .
qed

lemma join_halves:
  fixes x y :: "128 word"
  shows "unat (push_bit 64 x OR (y AND mask64)) = unat x mod 2 ^ 64 * 2 ^ 64 + unat y mod 2 ^ 64"
proof -
  have "push_bit 64 x AND (y AND mask64) = 0"
    by (rule bit_word_eqI) (auto simp: mask64_mask bit_simps)
  from unat_or_disjoint [OF this] show ?thesis by (simp only: unat_shift_high low_half)
qed

text \<open>The words the code computes hold the schoolbook digits.\<close>

lemma wide_product:
  fixes a b :: "128 word"
  defines "a_low \<equiv> a AND mask64" and "a_high \<equiv> drop_bit 64 a" and "b_low \<equiv> b AND mask64" and "b_high \<equiv> drop_bit 64 b"
  defines "mid \<equiv> (a_low * b_high AND mask64) + (a_high * b_low AND mask64) + drop_bit 64 (a_low * b_low)"
  defines "high \<equiv> a_high * b_high + drop_bit 64 (a_low * b_high) + drop_bit 64 (a_high * b_low) + drop_bit 64 mid"
  shows "unat a * unat b = unat high * 2 ^ 128 + unat (push_bit 64 mid OR (a_low * b_low AND mask64))"
proof -
  let ?M = "2 ^ 64 :: nat"
  define al ah bl bh where "al = unat a mod ?M" and "ah = unat a div ?M" and "bl = unat b mod ?M" and "bh = unat b div ?M"
  define m where "m = al * bh mod ?M + ah * bl mod ?M + al * bl div ?M"
  define h where "h = ah * bh + al * bh div ?M + ah * bl div ?M + m div ?M"
  have MM: "?M * ?M = 2 ^ 128" by simp
  have lt: "unat a < ?M * ?M" "unat b < ?M * ?M" using unsigned_less [of a] unsigned_less [of b] by simp_all
  note sb = schoolbook [of ?M "unat a" "unat b", OF _ lt, folded al_def ah_def bl_def bh_def, folded m_def, folded h_def,
      OF zero_less_power [OF zero_less_numeral], unfolded MM]
  have u: "unat a_low = al" "unat a_high = ah" "unat b_low = bl" "unat b_high = bh"
    by (simp_all only: a_low_def a_high_def b_low_def b_high_def al_def ah_def bl_def bh_def low_half high_half)
  have lt2: "x * y < 2 ^ 128" if "x < ?M" "y < ?M" for x y :: nat
    using mult_strict_mono [OF that] MM by simp
  note p = prod_ok [OF u(1,3) lt2 [OF sb(2,4)]] prod_ok [OF u(1,4) lt2 [OF sb(2,5)]]
    prod_ok [OF u(2,3) lt2 [OF sb(3,4)]] prod_ok [OF u(2,4) lt2 [OF sb(3,5)]]
  have m_lt: "m < 2 ^ 128" by (rule less_trans [OF sb(6)]) simp
  have mid: "unat mid = m" unfolding mid_def m_def
  proof (intro sum_ok)
    show "unat (a_low * b_high AND mask64) = al * bh mod ?M" "unat (a_high * b_low AND mask64) = ah * bl mod ?M"
      "unat (drop_bit 64 (a_low * b_low)) = al * bl div ?M"
      by (simp_all only: low_half high_half p)
    show "al * bh mod ?M + ah * bl mod ?M + al * bl div ?M < 2 ^ 128" using m_lt by (simp only: m_def)
    then show "al * bh mod ?M + ah * bl mod ?M < 2 ^ 128" by (rule le_less_trans [OF le_add1])
  qed
  have "unat high = h" unfolding high_def h_def
  proof (intro sum_ok)
    show "unat (a_high * b_high) = ah * bh" "unat (drop_bit 64 (a_low * b_high)) = al * bh div ?M"
      "unat (drop_bit 64 (a_high * b_low)) = ah * bl div ?M" "unat (drop_bit 64 mid) = m div ?M"
      by (simp_all only: high_half p mid)
    show "ah * bh + al * bh div ?M + ah * bl div ?M + m div ?M < 2 ^ 128" using sb(8) by (simp only: h_def)
    then show 2: "ah * bh + al * bh div ?M + ah * bl div ?M < 2 ^ 128" by (rule le_less_trans [OF le_add1])
    then show "ah * bh + al * bh div ?M < 2 ^ 128" by (rule le_less_trans [OF le_add1])
  qed
  then show ?thesis using sb(1) by (simp only: join_halves mid p)
qed

lemma mul_div_u128_correct:
  assumes "0 < unat d" "unat d \<le> 2 ^ 127"
  shows "\<exists>q overflow. mul_div_u128 a b d = (q, overflow) \<and> (overflow \<longleftrightarrow> 2 ^ 128 \<le> unat a * unat b div unat d)
    \<and> (\<not> overflow \<longrightarrow> unat q = unat a * unat b div unat d)"
proof (cases "unat a * unat b < 2 ^ 128")
  case True
  have "unat (a * b div d) = unat a * unat b div unat d"
    by (simp only: unat_div_distrib prod_ok [OF refl refl True])
  moreover have "unat a * unat b div unat d < 2 ^ 128" by (rule le_less_trans [OF div_le_dividend True])
  ultimately show ?thesis using True
    by (intro exI [of _ "a * b div d"] exI [of _ False]) (simp add: mul_div_u128_def)
next
  case False
  let ?n = "unat a * unat b"
  obtain high low where
    n: "?n = unat high * 2 ^ 128 + unat low"
    and r: "mul_div_u128 a b d = (if high \<ge> d then (0, True) else (div_loop d low 128 0 high, False))"
    using wide_product [of a b] False unfolding mul_div_u128_def Let_def by (simp only: if_False)
  have low: "unat low < 2 ^ 128" using unsigned_less [of low] by simp
  show ?thesis
  proof (cases "d \<le> high")
    case True
    then have "unat d * 2 ^ 128 \<le> unat high * 2 ^ 128" by (simp add: word_le_nat_alt)
    then have "2 ^ 128 * unat d \<le> ?n" unfolding n by (metis mult.commute trans_le_add1)
    with assms(1) have "2 ^ 128 \<le> ?n div unat d" by (simp add: less_eq_div_iff_mult_less_eq)
    with True r show ?thesis by (intro exI [of _ 0] exI [of _ True]) simp
  next
    case False
    then have lt: "unat high < unat d" by (simp add: word_le_nat_alt)
    have "?n < (unat high + 1) * 2 ^ 128" using n low by simp
    also have "\<dots> \<le> unat d * 2 ^ 128" using lt by (intro mult_right_mono) simp_all
    finally have "?n div unat d < 2 ^ 128" by (simp add: less_mult_imp_div_less mult.commute)
    moreover have "unat (div_loop d low 128 0 high) = ?n div unat d"
      by (rule div_loop_correct [OF assms]) (use n low lt in simp_all)
    ultimately show ?thesis using False r
      by (intro exI [of _ "div_loop d low 128 0 high"] exI [of _ False]) simp
  qed
qed

lemma mul_div_value:
  assumes "in_range I128 a" "in_range I128 b" "in_range I128 d"
  shows "mul_div a b d = (if d = 0 \<or> ity_max I128 < \<bar>tdiv (a * b) d\<bar> then None else Some (tdiv (a * b) d))"
proof (cases "d = 0")
  case False
  have abs: "\<bar>x\<bar> < 2 ^ 128" "\<bar>x\<bar> \<le> 2 ^ 127" if "in_range I128 x" for x using that by (auto simp: in_range_def)
  have u: "unat (unsigned_abs x) = nat \<bar>x\<bar>" if "in_range I128 x" for x
    using abs(1) [OF that] by (simp add: unsigned_abs_def unat_eq_nat_uint uint_word_of_int)
  let ?q = "\<bar>a\<bar> * \<bar>b\<bar> div \<bar>d\<bar>"
  have nq: "nat \<bar>a\<bar> * nat \<bar>b\<bar> div nat \<bar>d\<bar> = nat ?q" by (simp add: nat_div_distrib nat_mult_distrib)
  have "0 < unat (unsigned_abs d)" "unat (unsigned_abs d) \<le> 2 ^ 127"
    using False abs(2) [OF assms(3)] by (simp_all add: u assms)
  from mul_div_u128_correct [OF this, of "unsigned_abs a" "unsigned_abs b"] obtain q overflow where
    m: "mul_div_u128 (unsigned_abs a) (unsigned_abs b) (unsigned_abs d) = (q, overflow)"
      "overflow \<longleftrightarrow> 2 ^ 128 \<le> nat ?q" "\<not> overflow \<longrightarrow> unat q = nat ?q" by (auto simp: u assms nq)
  have q0: "0 \<le> ?q" by (simp add: pos_imp_zdiv_nonneg_iff False)
  have t: "tdiv (a * b) d = sgn a * sgn b * sgn d * ?q" by (simp add: tdiv_def sgn_mult abs_mult)
  have mag: "\<bar>tdiv (a * b) d\<bar> = ?q"
    using q0 False by (auto simp: t abs_mult abs_sgn_eq)
  have uq: "uint q = ?q" if "\<not> overflow"
    using m(3) that q0 by (metis int_nat_eq uint_nat)
  show ?thesis
  proof (cases "ity_max I128 < ?q")
    case True
    have "overflow \<or> ity_max I128 < uint q" using uq True by (cases overflow) simp_all
    then have "mul_div a b d = None" using m(1) by (simp only: mul_div_def Let_def prod.case if_True) simp
    with True mag show ?thesis by simp
  next
    case le: False
    have "nat ?q < 2 ^ 128" using le by (simp only: ity_max.simps nat_less_iff [OF q0]) simp
    then have no: "\<not> overflow" using m(2) by simp
    have "(if (a < 0) \<noteq> ((b < 0) \<noteq> (d < 0)) then - ?q else ?q) = tdiv (a * b) d"
      using False by (simp only: t sgn_if) simp
    with no False m(1) uq [OF no] le mag show ?thesis
      by (simp only: mul_div_def Let_def prod.case if_False) (auto split: if_splits)
  qed
qed (simp add: mul_div_def)

text \<open>In range, evaluation takes the exact quotient instead of the 128-bit words.\<close>

lemma mul_div_code [code]:
  "mul_div a b d =
     (if in_range I128 a \<and> in_range I128 b \<and> in_range I128 d
      then (if d = 0 \<or> ity_max I128 < \<bar>tdiv (a * b) d\<bar> then None else Some (tdiv (a * b) d))
      else if d = 0 then None
      else
        let (res_abs, overflow) = mul_div_u128 (unsigned_abs a) (unsigned_abs b) (unsigned_abs d) in
        if overflow \<or> uint res_abs > ity_max I128 then None
        else
          let res = uint res_abs in
          if (a < 0) \<noteq> ((b < 0) \<noteq> (d < 0)) then Some (- res) else Some res)"
proof (cases "in_range I128 a \<and> in_range I128 b \<and> in_range I128 d")
  case True
  then show ?thesis by (simp only: mul_div_value if_True simp_thms)
next
  case False
  then show ?thesis by (simp only: mul_div_def if_False)
qed

text \<open>The exact result: the quotient rounded towards zero, or an overflow error.\<close>

definition exact_quot :: "int \<Rightarrow> int \<Rightarrow> int math_res" where
  "exact_quot n d = (if ity_max I128 < \<bar>tdiv n d\<bar> then Inl (Err contract_error.Overflow) else Inr (tdiv n d))"



section \<open>The exponential\<close>

lemma exp_terms_bounds:
  assumes "0 \<le> r" "r \<le> LN2"
  shows "\<lbrakk>set is \<subseteq> {1..24}; 0 \<le> term; term \<le> SCALE; 0 \<le> result; result + 3 * term \<le> 4 * SCALE\<rbrakk>
    \<Longrightarrow> \<exists>v. exp_terms r is term result = Inr v \<and> result \<le> v \<and> v \<le> result + 3 * term"
proof (induction "is" arbitrary: "term" result)
  case (Cons i "is")
  let ?t = "term * r div (i * SCALE)"
  have i: "1 \<le> i" "i \<le> 24" using Cons.prems(1) by auto
  have S: "0 < SCALE" by (simp add: SCALE_def)
  have iS: "0 < i * SCALE" using i S by simp
  have n: "0 \<le> term * r" using Cons.prems(2) assms(1) by simp
  have t0: "0 \<le> ?t" using n iS by (rule div_nonneg_int)
  have "term * r \<le> term * LN2" using Cons.prems(2) assms(2) by (rule mult_left_mono [rotated])
  moreover have "?t * (i * SCALE) \<le> term * r" using iS by (rule div_mult_le_int)
  moreover have "?t * SCALE \<le> ?t * (i * SCALE)" using i t0 S by (intro mult_left_mono) auto
  ultimately have "?t * SCALE \<le> term * LN2" by linarith
  then have t7: "10 * ?t \<le> 7 * term" using Cons.prems(2) unfolding SCALE_def LN2_def by linarith
  have rng: "in_range I128 term" "in_range I128 r" "in_range I128 (i * SCALE)"
    using Cons.prems(2,3) assms i by (auto simp: in_range_def SCALE_def LN2_def)
  have "?t \<le> SCALE" using t7 Cons.prems(2,3) by linarith
  then have m: "mul_div term r (i * SCALE) = Some ?t"
    using mul_div_value [OF rng] n iS t0 by (simp add: SCALE_def)
  show ?case
  proof (cases "?t = 0")
    case True
    with m Cons.prems show ?thesis by simp
  next
    case False
    have "in_range I128 (result + ?t)"
      using t0 t7 Cons.prems by (simp add: in_range_def SCALE_def)
    moreover have "\<exists>v. exp_terms r is ?t (result + ?t) = Inr v \<and> result + ?t \<le> v \<and> v \<le> result + ?t + 3 * ?t"
      by (rule Cons.IH) (use Cons.prems t0 t7 in auto)
    ultimately show ?thesis using m False t0 t7 by (auto simp: checked_def ok_or_def)
  qed
qed simp

lemma fx_exp_moderate:
  assumes "0 \<le> x" "x \<le> 45 * SCALE"
  shows "\<exists>v. fx_exp x = Inr v \<and> SCALE * 2 ^ nat (x div LN2) \<le> v \<and> v \<le> 4 * SCALE * 2 ^ nat (x div LN2)"
proof (cases "x = 0")
  case False
  let ?n = "x div LN2" and ?r = "x mod LN2"
  have L: "0 < LN2" by (simp add: LN2_def)
  have n: "tdiv x LN2 = ?n" "tmod x LN2 = ?r"
    using assms(1) L by (simp_all add: tmod_def minus_mult_div_eq_mod)
  have n0: "0 \<le> ?n" using assms(1) L by (rule div_nonneg_int)
  have n64: "?n \<le> 64"
  proof -
    have "?n \<le> 45 * SCALE div LN2" using assms(2) L by (intro zdiv_mono1)
    then show ?thesis by (simp add: SCALE_def LN2_def)
  qed
  have "\<exists>v. exp_terms ?r [1..24] SCALE SCALE = Inr v \<and> SCALE \<le> v \<and> v \<le> SCALE + 3 * SCALE"
    by (rule exp_terms_bounds) (use L pos_mod_bound [of LN2 x, THEN less_imp_le] in \<open>auto simp: SCALE_def\<close>)
  then obtain v where v: "exp_terms ?r [1..24] SCALE SCALE = Inr v" "SCALE \<le> v" "v \<le> 4 * SCALE" by auto
  have "v * 2 ^ nat ?n \<le> 4 * SCALE * 2 ^ nat ?n" "SCALE * 2 ^ nat ?n \<le> v * 2 ^ nat ?n"
    using v by simp_all
  moreover have "4 * SCALE * 2 ^ nat ?n \<le> 4 * SCALE * 2 ^ 64"
    using n64 by (intro mult_left_mono power_increasing) (simp_all add: SCALE_def)
  moreover have "4 * SCALE * 2 ^ 64 \<le> ity_max I128" by (simp add: SCALE_def)
  moreover have "0 \<le> v * 2 ^ nat ?n" using v(2) by (intro mult_nonneg_nonneg) (simp_all add: SCALE_def)
  moreover have "ity_min I128 \<le> 0" by simp
  ultimately have "in_range I128 (v * 2 ^ nat ?n)" unfolding in_range_def by linarith
  then have "checked_shl v ?n = Some (v * 2 ^ nat ?n)" using n64 by (simp add: checked_shl_def wrap_id)
  moreover have "fx_exp x = ok_or contract_error.Overflow (checked_shl v ?n)"
    using assms False n0 v(1) by (simp add: fx_exp_def n SCALE_def)
  ultimately show ?thesis using v by auto
qed (simp add: fx_exp_def SCALE_def)

text \<open>
  The exponential of a moderate argument is what it should be up to a factor of four: for every
  argument between 0 and 45 it returns a value between \<open>2\<^sup>n\<close> and \<open>4 * 2\<^sup>n\<close>, where \<open>n\<close> is the argument
  divided by \<open>ln 2\<close> rounded down; in particular it never fails there and is never below one.
\<close>

theorem exp_moderate_range:
  assumes "0 \<le> x" "x \<le> 45 * SCALE"
  shows "\<exists>v. fx_exp x = Inr v \<and> SCALE * 2 ^ nat (x div LN2) \<le> v \<and> v \<le> 4 * SCALE * 2 ^ nat (x div LN2) \<and> SCALE \<le> v"
proof -
  from fx_exp_moderate [OF assms] obtain v where v: "fx_exp x = Inr v" "SCALE * 2 ^ nat (x div LN2) \<le> v"
    "v \<le> 4 * SCALE * 2 ^ nat (x div LN2)" by blast
  have "SCALE * 1 \<le> SCALE * 2 ^ nat (x div LN2)" by (intro mult_left_mono) (simp_all add: SCALE_def)
  with v show ?thesis by auto
qed

theorem exp_moderate_range_witness:
  "\<exists>v. fx_exp (20 * SCALE) = Inr v \<and> SCALE * 2 ^ 28 \<le> v \<and> v \<le> SCALE * 2 ^ 30"
proof -
  have "0 \<le> 20 * SCALE" "20 * SCALE \<le> 45 * SCALE" "nat (20 * SCALE div LN2) = 28"
    by (simp_all add: SCALE_def LN2_def)
  with exp_moderate_range [of "20 * SCALE"] show ?thesis by auto
qed

lemma upto_24: "[1..24::int] = [1,2,3,4,5,6,7,8,9,10,11,12,13,14,15,16,17,18,19,20,21,22,23,24]"
  by (simp add: upto.simps)

text \<open>
  Beyond that range the exponential wraps: \<open>checked_shl\<close> only checks the distance of the shift, so
  \<open>exp(47)\<close> returns a negative number and \<open>exp(88)\<close> returns zero, both as successful results, where the
  code means to report an overflow.
\<close>

theorem exp_overflow_undetected:
  "fx_exp (47 * SCALE) = Inr (- 82151078301931717902810754159891972096) \<and> fx_exp (88 * SCALE) = Inr 0"
  by (simp add: fx_exp_def SCALE_def LN2_def tdiv_def tmod_def mul_div_value in_range_def checked_def ok_or_def
      checked_shl_def wrap_def upto_24)

end
