(* ===== verification/ProviderRegistry.thy ===== *)
theory ProviderRegistry
  imports Prelude "HOL-Library.AList"
begin

text \<open>
  The RPC provider registry of the server, \<open>core/src/rpc_provider.rs\<close>: latency statistics, health
  scores, the circuit breaker, and the gossip of provider health between peers. Times of the monotonic
  clock (\<open>Instant\<close>) are naturals and times of the wall clock (\<open>DateTime\<close>) integers, both in
  nanoseconds. A \<open>HashMap\<close> is an association list whose order is the order of its iteration; the order
  is not specified by the library, so the properties allow it to change at any time. Each operation is
  one atomic step; counters of events are naturals.
\<close>

section \<open>Constants\<close>

definition CIRCUIT_BREAKER_THRESHOLD :: nat where "CIRCUIT_BREAKER_THRESHOLD = 3"
definition CIRCUIT_BREAKER_COOLDOWN :: nat where "CIRCUIT_BREAKER_COOLDOWN = 5 * 60 * 10 ^ 9"
definition REMOTE_OBSERVATION_TTL :: int where "REMOTE_OBSERVATION_TTL = 5 * 60 * 10 ^ 9"
definition PEER_STALE_AFTER :: int where "PEER_STALE_AFTER = 10 * 60 * 10 ^ 9"
definition MAX_HEALTH_SCORE :: int where "MAX_HEALTH_SCORE = 100"
definition MIN_HEALTH_SCORE :: int where "MIN_HEALTH_SCORE = 0"
definition LOCAL_PROVIDER_STARTING_SCORE :: int where "LOCAL_PROVIDER_STARTING_SCORE = 70"
definition DISCOVERED_PROVIDER_STARTING_SCORE :: int where "DISCOVERED_PROVIDER_STARTING_SCORE = 55"
definition PEER_STARTING_SCORE :: int where "PEER_STARTING_SCORE = 60"
definition LOCAL_SUCCESS_BONUS :: int where "LOCAL_SUCCESS_BONUS = 12"
definition LOCAL_FAILURE_PENALTY :: int where "LOCAL_FAILURE_PENALTY = 25"
definition PROBE_SUCCESS_BONUS :: int where "PROBE_SUCCESS_BONUS = 6"
definition PROBE_FAILURE_PENALTY :: int where "PROBE_FAILURE_PENALTY = 15"
definition PEER_SUCCESS_BONUS :: int where "PEER_SUCCESS_BONUS = 8"
definition PEER_FAILURE_PENALTY :: int where "PEER_FAILURE_PENALTY = 20"
definition MIN_PROVIDER_SCORE :: int where "MIN_PROVIDER_SCORE = 25"
definition MAX_GOSSIP_PROVIDERS :: nat where "MAX_GOSSIP_PROVIDERS = 64"
definition MAX_GOSSIP_PEERS :: nat where "MAX_GOSSIP_PEERS = 64"
definition MIN_SAMPLES_FOR_EMA :: nat where "MIN_SAMPLES_FOR_EMA = 5"

lemmas registry_consts = CIRCUIT_BREAKER_THRESHOLD_def CIRCUIT_BREAKER_COOLDOWN_def
  REMOTE_OBSERVATION_TTL_def PEER_STALE_AFTER_def MAX_HEALTH_SCORE_def MIN_HEALTH_SCORE_def
  LOCAL_PROVIDER_STARTING_SCORE_def DISCOVERED_PROVIDER_STARTING_SCORE_def PEER_STARTING_SCORE_def
  LOCAL_SUCCESS_BONUS_def LOCAL_FAILURE_PENALTY_def PROBE_SUCCESS_BONUS_def PROBE_FAILURE_PENALTY_def
  PEER_SUCCESS_BONUS_def PEER_FAILURE_PENALTY_def MIN_PROVIDER_SCORE_def MAX_GOSSIP_PROVIDERS_def
  MAX_GOSSIP_PEERS_def MIN_SAMPLES_FOR_EMA_def

section \<open>Latency statistics\<close>

record provider_stats =
  ema_rtt_us :: nat
  sample_count :: nat
  window :: nat

definition stats_new :: "nat \<Rightarrow> provider_stats" where
  "stats_new w = \<lparr>ema_rtt_us = 0, sample_count = 0, window = max w 1\<rparr>"

definition stats_record :: "nat \<Rightarrow> provider_stats \<Rightarrow> provider_stats" where
  "stats_record rtt_us s =
     (let s' = s\<lparr>sample_count := sample_count s + 1\<rparr> in
      if sample_count s = 0 then s'\<lparr>ema_rtt_us := rtt_us\<rparr>
      else
        let alpha_num = 2; alpha_den = window s + 1;
            next_ema = (rtt_us * alpha_num + ema_rtt_us s * (alpha_den - alpha_num)) div alpha_den in
        s'\<lparr>ema_rtt_us := next_ema mod 2 ^ 64\<rparr>)"

definition stats_is_warmed :: "provider_stats \<Rightarrow> bool" where
  "stats_is_warmed s \<longleftrightarrow> sample_count s \<ge> MIN_SAMPLES_FOR_EMA"

record provider_stats_snapshot =
  snap_name :: string
  snap_url :: string
  snap_ema_rtt_us :: nat
  snap_sample_count :: nat

section \<open>Providers, peers and gossip messages\<close>

record rpc_provider =
  prov_name :: string
  prov_url :: string
  prov_auth_header :: "string option"
  prov_auth_value :: "string option"
  prov_advertise :: "bool option"

record public_rpc_provider =
  pub_name :: string
  pub_url :: string

definition should_advertise :: "rpc_provider \<Rightarrow> bool" where
  "should_advertise p = (case prov_advertise p of Some a \<Rightarrow> a | None \<Rightarrow> prov_auth_value p = None)"

definition public_provider :: "rpc_provider \<Rightarrow> public_rpc_provider" where
  "public_provider p = \<lparr>pub_name = prov_name p, pub_url = prov_url p\<rparr>"

record registry_config =
  cfg_instance_id :: string
  cfg_public_base_url :: "string option"
  cfg_seed_peers :: "string list"

record peer_advertisement =
  adv_instance_id :: "string option"
  adv_base_url :: string

record gossip_provider_snapshot =
  gs_provider :: public_rpc_provider
  gs_score :: int
  gs_latest_ledger :: "nat option"
  gs_consecutive_failures :: nat
  gs_healthy :: bool
  gs_observed_at :: int

record registry_snapshot =
  rs_instance_id :: string
  rs_base_url :: "string option"
  rs_generated_at :: int
  rs_peers :: "peer_advertisement list"
  rs_providers :: "gossip_provider_snapshot list"

record provider_health_report =
  rep_name :: string
  rep_url :: string
  rep_effective_score :: int
  rep_local_score :: int
  rep_peer_score :: int
  rep_latest_ledger :: nat
  rep_consecutive_failures :: nat
  rep_healthy :: bool
  rep_source :: string
  rep_observation_count :: nat

record peer_health_report =
  prep_base_url :: string
  prep_instance_id :: "string option"
  prep_score :: int
  prep_consecutive_failures :: nat
  prep_healthy :: bool
  prep_last_seen_at :: "int option"
  prep_discovered_from :: "string set"
  prep_last_error :: "string option"

record remote_observation =
  ro_score :: int
  ro_latest_ledger :: nat
  ro_consecutive_failures :: nat
  ro_healthy :: bool
  ro_observed_at :: int

record provider_state =
  ps_provider :: rpc_provider
  ps_source :: string
  ps_stats :: provider_stats
  ps_local_score :: int
  ps_consecutive_failures :: nat
  ps_tripped_at :: "nat option"
  ps_latest_ledger :: nat
  ps_last_local_observed_at :: "int option"
  ps_remote_observations :: "(string \<times> remote_observation) list"

definition provider_state_new :: "rpc_provider \<Rightarrow> string \<Rightarrow> int \<Rightarrow> provider_state" where
  "provider_state_new p source score =
     \<lparr>ps_provider = p, ps_source = source, ps_stats = stats_new 20, ps_local_score = score,
      ps_consecutive_failures = 0, ps_tripped_at = None, ps_latest_ledger = 0,
      ps_last_local_observed_at = None, ps_remote_observations = []\<rparr>"

record peer_state =
  peer_base_url :: string
  peer_instance_id :: "string option"
  peer_score :: int
  peer_consecutive_failures :: nat
  peer_last_seen_at :: "int option"
  peer_discovered_from :: "string set"
  peer_last_error :: "string option"

definition peer_state_new :: "string \<Rightarrow> string option \<Rightarrow> peer_state" where
  "peer_state_new u i =
     \<lparr>peer_base_url = u, peer_instance_id = i, peer_score = PEER_STARTING_SCORE,
      peer_consecutive_failures = 0, peer_last_seen_at = None, peer_discovered_from = {},
      peer_last_error = None\<rparr>"

record registry =
  reg_states :: "(string \<times> provider_state) list"
  reg_peers :: "(string \<times> peer_state) list"
  reg_instance_id :: string
  reg_public_base_url :: "string option"
  reg_latency_cursor :: nat

section \<open>Helpers\<close>

text \<open>URLs are ASCII; the white space that \<open>trim\<close> removes is that of the ASCII range.\<close>

definition is_white :: "char \<Rightarrow> bool" where
  "is_white c \<longleftrightarrow> c \<in> {CHR '' '', CHR 0x09, CHR 0x0A, CHR 0x0B, CHR 0x0C, CHR 0x0D}"

definition trim_end_while :: "(char \<Rightarrow> bool) \<Rightarrow> string \<Rightarrow> string" where
  "trim_end_while P s = rev (dropWhile P (rev s))"

definition normalize_base_url :: "string \<Rightarrow> string" where
  "normalize_base_url u = trim_end_while (\<lambda>c. c = CHR ''/'') (trim_end_while is_white (dropWhile is_white u))"

definition clamp_score :: "int \<Rightarrow> int" where
  "clamp_score s = max MIN_HEALTH_SCORE (min MAX_HEALTH_SCORE s)"

definition adjust_score :: "int \<Rightarrow> int \<Rightarrow> int" where
  "adjust_score current delta = clamp_score (current + delta)"

text \<open>A time in the future counts as just seen: the conversion of a negative duration fails and the code
  falls back to the zero duration.\<close>

definition age :: "int \<Rightarrow> int \<Rightarrow> int" where
  "age utc seen = (if utc - seen < 0 then 0 else utc - seen)"

definition is_observation_stale :: "int \<Rightarrow> int \<Rightarrow> bool" where
  "is_observation_stale utc observed_at \<longleftrightarrow> age utc observed_at \<ge> REMOTE_OBSERVATION_TTL"

definition is_retryable_status :: "nat \<Rightarrow> bool" where
  "is_retryable_status status \<longleftrightarrow> status = 429 \<or> status \<ge> 500"

section \<open>Construction\<close>

definition seed_states :: "rpc_provider list \<Rightarrow> (string \<times> provider_state) list" where
  "seed_states ps =
     fold (\<lambda>p. AList.update (prov_url p) (provider_state_new p ''seed'' LOCAL_PROVIDER_STARTING_SCORE)) ps []"

definition seed_peer_states :: "registry_config \<Rightarrow> (string \<times> peer_state) list" where
  "seed_peer_states c =
     fold (\<lambda>u m. if cfg_public_base_url c = Some u then m else AList.update u (peer_state_new u None) m)
       (filter (\<lambda>u. u \<noteq> []) (map normalize_base_url (cfg_seed_peers c))) []"

definition new_with_config :: "rpc_provider list \<Rightarrow> registry_config \<Rightarrow> registry" where
  "new_with_config ps c =
     \<lparr>reg_states = seed_states ps, reg_peers = seed_peer_states c, reg_instance_id = cfg_instance_id c,
      reg_public_base_url = map_option normalize_base_url (cfg_public_base_url c), reg_latency_cursor = 0\<rparr>"

definition default_config :: registry_config where
  "default_config = \<lparr>cfg_instance_id = ''local'', cfg_public_base_url = None, cfg_seed_peers = []\<rparr>"

definition registry_new :: "rpc_provider list \<Rightarrow> registry" where
  "registry_new ps = new_with_config ps default_config"

section \<open>The circuit breaker of one provider\<close>

definition on_success :: "int \<Rightarrow> provider_state \<Rightarrow> provider_state" where
  "on_success utc st =
     st\<lparr>ps_consecutive_failures := 0,
        ps_local_score := clamp_score (max (ps_local_score st) DISCOVERED_PROVIDER_STARTING_SCORE + LOCAL_SUCCESS_BONUS),
        ps_last_local_observed_at := Some utc, ps_tripped_at := None\<rparr>"

text \<open>The failure path, shared by failed requests and failed probes up to the penalty.\<close>

definition on_failure :: "int \<Rightarrow> nat \<Rightarrow> int \<Rightarrow> provider_state \<Rightarrow> provider_state" where
  "on_failure penalty now utc st =
     (let prev = ps_consecutive_failures st;
          st' = st\<lparr>ps_consecutive_failures := prev + 1,
                   ps_local_score := adjust_score (ps_local_score st) (- penalty),
                   ps_last_local_observed_at := Some utc\<rparr> in
      if prev + 1 \<ge> CIRCUIT_BREAKER_THRESHOLD then st'\<lparr>ps_tripped_at := Some now\<rparr> else st')"

definition on_probe_success :: "nat \<Rightarrow> int \<Rightarrow> provider_state \<Rightarrow> provider_state" where
  "on_probe_success ledger utc st =
     st\<lparr>ps_latest_ledger := ledger, ps_consecutive_failures := 0,
        ps_local_score := adjust_score (ps_local_score st) PROBE_SUCCESS_BONUS,
        ps_last_local_observed_at := Some utc, ps_tripped_at := None\<rparr>"

text \<open>The test of the breaker resets it once the cooldown has passed. The elapsed time saturates at zero.\<close>

definition is_provider_tripped :: "nat \<Rightarrow> provider_state \<Rightarrow> bool \<times> provider_state" where
  "is_provider_tripped now st =
     (case ps_tripped_at st of
        None \<Rightarrow> (False, st)
      | Some t \<Rightarrow> if now - t \<ge> CIRCUIT_BREAKER_COOLDOWN then (False, st\<lparr>ps_tripped_at := None\<rparr>) else (True, st))"

definition is_available :: "nat \<Rightarrow> provider_state \<Rightarrow> bool \<times> provider_state" where
  "is_available now st =
     (let (tripped, st') = is_provider_tripped now st in
      if tripped then (False, st')
      else (ps_local_score st' \<ge> MIN_PROVIDER_SCORE \<or> ps_consecutive_failures st' < CIRCUIT_BREAKER_THRESHOLD, st'))"

section \<open>Operations of the registry\<close>

definition map_states :: "(provider_state \<Rightarrow> provider_state) \<Rightarrow> registry \<Rightarrow> registry" where
  "map_states f R = R\<lparr>reg_states := map (\<lambda>(u, st). (u, f st)) (reg_states R)\<rparr>"

definition available_states :: "nat \<Rightarrow> registry \<Rightarrow> provider_state list \<times> registry" where
  "available_states now R =
     (map (\<lambda>(u, st). snd (is_available now st)) (filter (\<lambda>(u, st). fst (is_available now st)) (reg_states R)),
      map_states (\<lambda>st. snd (is_available now st)) R)"

definition healthy_providers :: "nat \<Rightarrow> registry \<Rightarrow> rpc_provider list \<times> registry" where
  "healthy_providers now R = (let (available, R') = available_states now R in (map ps_provider available, R'))"

definition providers_by_latency :: "nat \<Rightarrow> registry \<Rightarrow> rpc_provider list \<times> registry" where
  "providers_by_latency now R =
     (let (available, R') = available_states now R in
      if available = [] then ([], R')
      else if list_all (\<lambda>st. stats_is_warmed (ps_stats st)) available
        then (map ps_provider (sort_key (\<lambda>st. ema_rtt_us (ps_stats st)) available), R')
      else (map ps_provider (rotate (reg_latency_cursor R' mod length available) available),
            R'\<lparr>reg_latency_cursor := (reg_latency_cursor R' + 1) mod 2 ^ 64\<rparr>))"

text \<open>An operation on the state of the provider with a URL, if there is one (\<open>find_by_url\<close>).\<close>

definition with_state :: "string \<Rightarrow> (provider_state \<Rightarrow> provider_state) \<Rightarrow> registry \<Rightarrow> registry" where
  "with_state u f R =
     (case map_of (reg_states R) u of
        None \<Rightarrow> R
      | Some st \<Rightarrow> R\<lparr>reg_states := AList.update u (f st) (reg_states R)\<rparr>)"

text \<open>\<open>lock\<close> says whether \<open>try_read\<close> obtains the lock of the table of states.\<close>

definition record_rtt :: "bool \<Rightarrow> string \<Rightarrow> nat \<Rightarrow> registry \<Rightarrow> registry" where
  "record_rtt lock u rtt R =
     (if lock then with_state u (\<lambda>st. st\<lparr>ps_stats := stats_record rtt (ps_stats st)\<rparr>) R else R)"

definition stats_snapshot :: "bool \<Rightarrow> (string \<Rightarrow> bool) \<Rightarrow> registry \<Rightarrow> provider_stats_snapshot list" where
  "stats_snapshot lock locks R =
     (if lock then
        map (\<lambda>(u, st). \<lparr>snap_name = prov_name (ps_provider st), snap_url = prov_url (ps_provider st),
                        snap_ema_rtt_us = ema_rtt_us (ps_stats st), snap_sample_count = sample_count (ps_stats st)\<rparr>)
          (filter (\<lambda>(u, st). locks u) (reg_states R))
      else [])"

definition report_success :: "int \<Rightarrow> string \<Rightarrow> registry \<Rightarrow> registry" where
  "report_success utc u R = with_state u (on_success utc) R"

definition report_failure :: "nat \<Rightarrow> int \<Rightarrow> string \<Rightarrow> registry \<Rightarrow> registry" where
  "report_failure now utc u R = with_state u (on_failure LOCAL_FAILURE_PENALTY now utc) R"

text \<open>\<open>probe\<close> is the answer of the network to the probe of a provider: an error text or a ledger number.\<close>

definition run_health_checks :: "(rpc_provider \<Rightarrow> string + nat) \<Rightarrow> nat \<Rightarrow> int \<Rightarrow> registry \<Rightarrow> registry" where
  "run_health_checks probe now utc R =
     map_states (\<lambda>st. case probe (ps_provider st) of
         Inr ledger \<Rightarrow> on_probe_success ledger utc st
       | Inl e \<Rightarrow> on_failure PROBE_FAILURE_PENALTY now utc st) R"

subsection \<open>Reports\<close>

type_synonym 'a reg_res = "(unit, 'a) res"

text \<open>The sum of the remote scores is an \<open>i64\<close>; the scores are whatever a peer has sent.\<close>

fun sum_scores :: "env \<Rightarrow> remote_observation list \<Rightarrow> int \<Rightarrow> int reg_res" where
  "sum_scores E [] acc = Inr acc"
| "sum_scores E (ob # obs) acc = rbind (fit E I64 (acc + ro_score ob)) (sum_scores E obs)"

definition fresh_observations :: "int \<Rightarrow> provider_state \<Rightarrow> remote_observation list" where
  "fresh_observations utc st =
     filter (\<lambda>ob. \<not> is_observation_stale utc (ro_observed_at ob)) (map snd (ps_remote_observations st))"

definition build_provider_report ::
    "env \<Rightarrow> nat \<Rightarrow> int \<Rightarrow> rpc_provider \<Rightarrow> provider_state \<Rightarrow> provider_state \<times> provider_health_report reg_res" where
  "build_provider_report E now utc p st =
     (let local_score = ps_local_score st; latest_ledger = ps_latest_ledger st;
          failures = ps_consecutive_failures st; (tripped, st') = is_provider_tripped now st;
          fresh = fresh_observations utc st' in
      (st',
       rbind (if fresh = [] then Inr 0 else rbind (sum_scores E fresh 0) (\<lambda>s. quot I64 s (int (length fresh)))) (\<lambda>peer_score.
       let remote_healthy = list_ex ro_healthy fresh;
           best_remote_ledger = foldr max (map ro_latest_ledger fresh) 0;
           remote_failure_floor = (case map ro_consecutive_failures fresh of [] \<Rightarrow> failures | n # ns \<Rightarrow> foldr min ns n) in
       rbind (fit E I64 (local_score * 2)) (\<lambda>twice.
       rbind (fit E I64 (twice + peer_score)) (\<lambda>total.
       let effective_score = clamp_score (tdiv total 3);
           healthy = (\<not> tripped \<and> (effective_score \<ge> MIN_PROVIDER_SCORE \<or> remote_healthy)
                      \<and> (failures < CIRCUIT_BREAKER_THRESHOLD \<or> remote_healthy)) in
       Inr \<lparr>rep_name = prov_name p, rep_url = prov_url p, rep_effective_score = effective_score,
            rep_local_score = local_score, rep_peer_score = peer_score,
            rep_latest_ledger = max latest_ledger best_remote_ledger,
            rep_consecutive_failures = min failures remote_failure_floor, rep_healthy = healthy,
            rep_source = ps_source st', rep_observation_count = length fresh\<rparr>)))))"

text \<open>The reports of all providers. A trap ends the loop; the breakers tested before it stay reset.\<close>

fun collect_reports ::
    "env \<Rightarrow> nat \<Rightarrow> int \<Rightarrow> (string \<times> provider_state) list
      \<Rightarrow> (string \<times> provider_state) list \<times> (rpc_provider \<times> provider_health_report) list reg_res" where
  "collect_reports E now utc [] = ([], Inr [])"
| "collect_reports E now utc ((u, st) # rest) =
     (let (st', r) = build_provider_report E now utc (ps_provider st) st in
      case r of
        Inl f \<Rightarrow> ((u, st') # rest, Inl f)
      | Inr report \<Rightarrow>
          let (rest', reports) = collect_reports E now utc rest in
          ((u, st') # rest', rbind reports (\<lambda>rs. Inr ((ps_provider st, report) # rs))))"

definition collect_provider_reports ::
    "env \<Rightarrow> nat \<Rightarrow> int \<Rightarrow> registry \<Rightarrow> registry \<times> (rpc_provider \<times> provider_health_report) list reg_res" where
  "collect_provider_reports E now utc R =
     (let (states, reports) = collect_reports E now utc (reg_states R) in (R\<lparr>reg_states := states\<rparr>, reports))"

definition provider_reports :: "env \<Rightarrow> nat \<Rightarrow> int \<Rightarrow> registry \<Rightarrow> registry \<times> provider_health_report list reg_res" where
  "provider_reports E now utc R =
     (let (R', reports) = collect_provider_reports E now utc R in (R', rbind reports (\<lambda>rs. Inr (map snd rs))))"

definition build_peer_report :: "int \<Rightarrow> peer_state \<Rightarrow> peer_health_report" where
  "build_peer_report utc p =
     \<lparr>prep_base_url = peer_base_url p, prep_instance_id = peer_instance_id p, prep_score = peer_score p,
      prep_consecutive_failures = peer_consecutive_failures p,
      prep_healthy = (peer_score p \<ge> tdiv PEER_STARTING_SCORE 2
        \<and> (case peer_last_seen_at p of None \<Rightarrow> True | Some seen \<Rightarrow> age utc seen < PEER_STALE_AFTER)),
      prep_last_seen_at = peer_last_seen_at p, prep_discovered_from = peer_discovered_from p,
      prep_last_error = peer_last_error p\<rparr>"

definition peer_reports :: "int \<Rightarrow> registry \<Rightarrow> peer_health_report list" where
  "peer_reports utc R = map (\<lambda>(u, p). build_peer_report utc p) (reg_peers R)"

subsection \<open>Gossip\<close>

definition gossip_entry :: "int \<Rightarrow> rpc_provider \<times> provider_health_report \<Rightarrow> gossip_provider_snapshot" where
  "gossip_entry utc pr =
     \<lparr>gs_provider = public_provider (fst pr), gs_score = rep_effective_score (snd pr),
      gs_latest_ledger = Some (rep_latest_ledger (snd pr)),
      gs_consecutive_failures = rep_consecutive_failures (snd pr), gs_healthy = rep_healthy (snd pr),
      gs_observed_at = utc\<rparr>"

definition make_snapshot :: "env \<Rightarrow> nat \<Rightarrow> int \<Rightarrow> registry \<Rightarrow> registry \<times> registry_snapshot reg_res" where
  "make_snapshot E now utc R =
     (let (R', reports) = collect_provider_reports E now utc R in
      (R', rbind reports (\<lambda>rs.
       let providers = map (gossip_entry utc)
             (take MAX_GOSSIP_PROVIDERS (filter (\<lambda>(p, r). should_advertise p \<and> rep_healthy r) rs));
           peers = map (\<lambda>p. \<lparr>adv_instance_id = prep_instance_id p, adv_base_url = prep_base_url p\<rparr>)
             (take MAX_GOSSIP_PEERS (filter prep_healthy (peer_reports utc R'))) in
       Inr \<lparr>rs_instance_id = reg_instance_id R', rs_base_url = reg_public_base_url R', rs_generated_at = utc,
            rs_peers = peers, rs_providers = providers\<rparr>)))"

definition register_peer :: "string \<Rightarrow> string option \<Rightarrow> string option \<Rightarrow> registry \<Rightarrow> registry" where
  "register_peer base_url instance_id discovered_from R =
     (let u = normalize_base_url base_url in
      if u = [] \<or> reg_public_base_url R = Some u then R
      else
        let peer = (case map_of (reg_peers R) u of Some p \<Rightarrow> p | None \<Rightarrow> peer_state_new u instance_id);
            peer1 = (case instance_id of Some i \<Rightarrow> peer\<lparr>peer_instance_id := Some i\<rparr> | None \<Rightarrow> peer);
            peer2 = (case discovered_from of
                       Some d \<Rightarrow> peer1\<lparr>peer_discovered_from := insert d (peer_discovered_from peer1)\<rparr>
                     | None \<Rightarrow> peer1) in
        R\<lparr>reg_peers := AList.update u peer2 (reg_peers R)\<rparr>)"

definition with_peer :: "string \<Rightarrow> (peer_state \<Rightarrow> peer_state) \<Rightarrow> registry \<Rightarrow> registry" where
  "with_peer u f R =
     (case map_of (reg_peers R) u of
        None \<Rightarrow> R
      | Some p \<Rightarrow> R\<lparr>reg_peers := AList.update u (f p) (reg_peers R)\<rparr>)"

definition report_peer_success :: "int \<Rightarrow> string \<Rightarrow> registry \<Rightarrow> registry" where
  "report_peer_success utc base_url R =
     (let u = normalize_base_url base_url in
      with_peer u (\<lambda>p. p\<lparr>peer_consecutive_failures := 0,
                         peer_score := adjust_score (peer_score p) PEER_SUCCESS_BONUS,
                         peer_last_seen_at := Some utc, peer_last_error := None\<rparr>) (register_peer u None None R))"

definition report_peer_failure :: "string \<Rightarrow> string \<Rightarrow> registry \<Rightarrow> registry" where
  "report_peer_failure base_url msg R =
     (let u = normalize_base_url base_url in
      with_peer u (\<lambda>p. p\<lparr>peer_consecutive_failures := peer_consecutive_failures p + 1,
                         peer_score := adjust_score (peer_score p) (- PEER_FAILURE_PENALTY),
                         peer_last_error := Some msg\<rparr>) (register_peer u None None R))"

definition get_or_insert_provider :: "rpc_provider \<Rightarrow> string \<Rightarrow> int \<Rightarrow> registry \<Rightarrow> registry" where
  "get_or_insert_provider p source score R =
     (case map_of (reg_states R) (prov_url p) of
        Some st \<Rightarrow> R
      | None \<Rightarrow> R\<lparr>reg_states := AList.update (prov_url p) (provider_state_new p source score) (reg_states R)\<rparr>)"

definition gossiped_provider :: "gossip_provider_snapshot \<Rightarrow> rpc_provider" where
  "gossiped_provider g =
     \<lparr>prov_name = pub_name (gs_provider g), prov_url = pub_url (gs_provider g), prov_auth_header = None,
      prov_auth_value = None, prov_advertise = Some True\<rparr>"

definition observation_of :: "gossip_provider_snapshot \<Rightarrow> remote_observation" where
  "observation_of g =
     \<lparr>ro_score = gs_score g, ro_latest_ledger = (case gs_latest_ledger g of Some l \<Rightarrow> l | None \<Rightarrow> 0),
      ro_consecutive_failures = gs_consecutive_failures g, ro_healthy = gs_healthy g,
      ro_observed_at = gs_observed_at g\<rparr>"

definition merge_provider :: "string \<Rightarrow> gossip_provider_snapshot \<Rightarrow> registry \<Rightarrow> registry" where
  "merge_provider source g R =
     with_state (pub_url (gs_provider g))
       (\<lambda>st. st\<lparr>ps_remote_observations := AList.update source (observation_of g) (ps_remote_observations st)\<rparr>)
       (get_or_insert_provider (gossiped_provider g) ''gossip'' DISCOVERED_PROVIDER_STARTING_SCORE R)"

definition merge_snapshot :: "registry_snapshot \<Rightarrow> registry \<Rightarrow> registry" where
  "merge_snapshot s R =
     (let R1 = (case rs_base_url s of Some u \<Rightarrow> register_peer u (Some (rs_instance_id s)) None R | None \<Rightarrow> R);
          R2 = fold (\<lambda>p. register_peer (adv_base_url p) (adv_instance_id p) (rs_base_url s)) (rs_peers s) R1;
          source = (case rs_base_url s of Some u \<Rightarrow> u | None \<Rightarrow> rs_instance_id s) in
      fold (merge_provider source) (rs_providers s) R2)"

text \<open>What a peer answers to the posted snapshot.\<close>

datatype gossip_reply =
    Reply registry_snapshot
  | BadPayload string
  | HttpStatus nat
  | SendError string

definition show_status :: "nat \<Rightarrow> string" where
  "show_status n = map (\<lambda>d. char_of (48 + d)) (map (\<lambda>k. n div 10 ^ k mod 10) [2, 1, 0])"

definition gossip_with :: "(string \<Rightarrow> registry_snapshot \<Rightarrow> gossip_reply) \<Rightarrow> int \<Rightarrow> registry_snapshot \<Rightarrow> string \<Rightarrow> registry \<Rightarrow> registry" where
  "gossip_with post utc local_snapshot base_url R =
     (case post (base_url @ ''/registry/gossip'') local_snapshot of
        Reply s \<Rightarrow> report_peer_success utc base_url (merge_snapshot s R)
      | BadPayload e \<Rightarrow> report_peer_failure base_url (''invalid gossip payload: '' @ e) R
      | HttpStatus n \<Rightarrow> report_peer_failure base_url (''HTTP '' @ show_status n) R
      | SendError e \<Rightarrow> report_peer_failure base_url e R)"

definition run_gossip_round ::
    "env \<Rightarrow> (string \<Rightarrow> registry_snapshot \<Rightarrow> gossip_reply) \<Rightarrow> nat \<Rightarrow> int \<Rightarrow> registry \<Rightarrow> registry" where
  "run_gossip_round E post now utc R =
     (let peers = map (\<lambda>(u, p). peer_base_url p) (reg_peers R) in
      if peers = [] then R
      else
        let (R', snapshot) = make_snapshot E now utc R in
        case snapshot of
          Inl f \<Rightarrow> R'
        | Inr s \<Rightarrow> fold (gossip_with post utc s) peers R')"

end
