(* ===== verification/RegistryProperties.thy ===== *)
theory RegistryProperties
  imports ProviderRegistry "HOL-Library.Multiset"
begin

text \<open>
  Properties of the provider registry: the operations as a transition system with its well-formedness
  invariant, the refinement of the circuit breaker by the history of outcomes of a provider, and what
  gossip can and cannot do.
\<close>

section \<open>The registry as a transition system\<close>

text \<open>
  \<open>Rehash\<close> lets the two tables change their iteration order, which the code does not control.
\<close>

datatype registry_op =
    RequestOk int string
  | RequestFailed nat int string
  | HealthChecks "rpc_provider \<Rightarrow> string + nat" nat int
  | ListHealthy nat
  | ListByLatency nat
  | Sample bool string nat
  | Reports env nat int
  | Snapshot env nat int
  | Merge registry_snapshot
  | GossipRound env "string \<Rightarrow> registry_snapshot \<Rightarrow> gossip_reply" nat int
  | Rehash "(string \<times> provider_state) list" "(string \<times> peer_state) list"

fun rg_exec :: "registry_op \<Rightarrow> registry \<Rightarrow> registry" where
  "rg_exec (RequestOk utc u) R = report_success utc u R"
| "rg_exec (RequestFailed now utc u) R = report_failure now utc u R"
| "rg_exec (HealthChecks probe now utc) R = run_health_checks probe now utc R"
| "rg_exec (ListHealthy now) R = snd (healthy_providers now R)"
| "rg_exec (ListByLatency now) R = snd (providers_by_latency now R)"
| "rg_exec (Sample lock u rtt) R = record_rtt lock u rtt R"
| "rg_exec (Reports E now utc) R = fst (provider_reports E now utc R)"
| "rg_exec (Snapshot E now utc) R = fst (make_snapshot E now utc R)"
| "rg_exec (Merge s) R = merge_snapshot s R"
| "rg_exec (GossipRound E post now utc) R = run_gossip_round E post now utc R"
| "rg_exec (Rehash ss ps) R =
     (if mset ss = mset (reg_states R) \<and> mset ps = mset (reg_peers R)
      then R\<lparr>reg_states := ss, reg_peers := ps\<rparr> else R)"

definition rg_run :: "registry_op list \<Rightarrow> registry \<Rightarrow> registry" where
  "rg_run ops R = fold rg_exec ops R"

lemma rg_run_simps [simp]:
  "rg_run [] R = R" "rg_run (op # ops) R = rg_run ops (rg_exec op R)"
  by (simp_all add: rg_run_def)

lemma rg_run_append: "rg_run (xs @ ys) R = rg_run ys (rg_run xs R)"
  by (simp add: rg_run_def)

lemma rg_run_keeps:
  assumes "\<And>op R. I R \<Longrightarrow> I (rg_exec op R)" "I R"
  shows "I (rg_run ops R)"
  using assms(2) by (induction ops arbitrary: R) (simp_all add: assms(1))

section \<open>How the tables are changed\<close>

abbreviation lookup :: "registry \<Rightarrow> string \<Rightarrow> provider_state option" where
  "lookup R u \<equiv> map_of (reg_states R) u"

lemma lookup_map_states [simp]: "lookup (map_states f R) u = map_option f (lookup R u)"
  by (simp add: map_states_def map_of_map)

lemma lookup_with_state [simp]:
  "lookup (with_state v f R) u = (if u = v then map_option f (lookup R u) else lookup R u)"
  by (simp add: with_state_def AList.update_conv split: option.splits)

lemma reg_frame_simps [simp]:
  "reg_states (register_peer b i d R) = reg_states R"
  "reg_states (with_peer b f R) = reg_states R"
  "reg_states (report_peer_success utc b R) = reg_states R"
  "reg_states (report_peer_failure b e R) = reg_states R"
  "reg_peers (with_state u g R) = reg_peers R"
  "reg_peers (map_states g R) = reg_peers R"
  "reg_peers (merge_provider src x R) = reg_peers R"
  by (simp_all add: register_peer_def with_peer_def report_peer_success_def report_peer_failure_def
      with_state_def map_states_def merge_provider_def get_or_insert_provider_def Let_def split: option.splits)

text \<open>Every table update is a change of one entry, a change of all entries, or an insertion.\<close>

definition set_observations :: "(string \<times> remote_observation) list \<Rightarrow> provider_state \<Rightarrow> provider_state" where
  "set_observations obs st = st\<lparr>ps_remote_observations := obs\<rparr>"

lemma lookup_get_or_insert:
  "lookup (get_or_insert_provider p src sc R) u =
     (if u = prov_url p \<and> lookup R u = None then Some (provider_state_new p src sc) else lookup R u)"
  by (auto simp: get_or_insert_provider_def AList.update_conv split: option.splits)

lemma lookup_merge_provider:
  "\<exists>f. lookup (merge_provider src g R) u =
     (case lookup R u of
        Some st \<Rightarrow> Some (set_observations (f st) st)
      | None \<Rightarrow> if u = pub_url (gs_provider g)
                then Some (set_observations (f (provider_state_new (gossiped_provider g) ''gossip'' DISCOVERED_PROVIDER_STARTING_SCORE))
                             (provider_state_new (gossiped_provider g) ''gossip'' DISCOVERED_PROVIDER_STARTING_SCORE))
                else None)"
proof (cases "u = pub_url (gs_provider g)")
  case True
  then show ?thesis
    by (intro exI [of _ "\<lambda>st. AList.update src (observation_of g) (ps_remote_observations st)"])
       (auto simp: merge_provider_def lookup_get_or_insert set_observations_def gossiped_provider_def split: option.splits)
next
  case False
  then show ?thesis
    by (intro exI [of _ ps_remote_observations])
       (auto simp: merge_provider_def lookup_get_or_insert set_observations_def gossiped_provider_def split: option.splits)
qed

section \<open>Well-formedness\<close>

text \<open>
  Of each provider: it is filed under its own URL, its score is between 0 and 100, and a breaker is
  tripped only after the threshold of failures.
\<close>

definition provider_ok :: "string \<Rightarrow> provider_state \<Rightarrow> bool" where
  "provider_ok u st \<longleftrightarrow> prov_url (ps_provider st) = u \<and> MIN_HEALTH_SCORE \<le> ps_local_score st
     \<and> ps_local_score st \<le> MAX_HEALTH_SCORE
     \<and> (ps_tripped_at st = None \<or> CIRCUIT_BREAKER_THRESHOLD \<le> ps_consecutive_failures st)"

definition peer_ok :: "string \<Rightarrow> peer_state \<Rightarrow> bool" where
  "peer_ok u p \<longleftrightarrow> peer_base_url p = u \<and> u \<noteq> [] \<and> MIN_HEALTH_SCORE \<le> peer_score p \<and> peer_score p \<le> MAX_HEALTH_SCORE"

definition table_ok :: "('k \<Rightarrow> 'v \<Rightarrow> bool) \<Rightarrow> ('k \<times> 'v) list \<Rightarrow> bool" where
  "table_ok P t \<longleftrightarrow> distinct (map fst t) \<and> list_all (\<lambda>(k, v). P k v) t"

definition registry_ok :: "registry \<Rightarrow> bool" where
  "registry_ok R \<longleftrightarrow> table_ok provider_ok (reg_states R) \<and> table_ok peer_ok (reg_peers R)"

lemma table_ok_Nil [simp]: "table_ok P []"
  by (simp add: table_ok_def)

lemma table_okD: "table_ok P t \<Longrightarrow> map_of t k = Some v \<Longrightarrow> P k v"
  by (auto simp: table_ok_def list_all_iff dest: map_of_SomeD)

lemma table_ok_update: "table_ok P t \<Longrightarrow> P k v \<Longrightarrow> table_ok P (AList.update k v t)"
proof (induction t)
  case (Cons e t)
  then have "table_ok P t" by (simp add: table_ok_def)
  with Cons show ?case
    using AList.distinct_update [of "e # t" k v] by (auto simp: table_ok_def)
qed (simp add: table_ok_def)

lemma table_ok_map:
  "table_ok P t \<Longrightarrow> (\<And>k v. P k v \<Longrightarrow> P k (f v)) \<Longrightarrow> table_ok P (map (\<lambda>(k, v). (k, f v)) t)"
  by (auto simp: table_ok_def list_all_iff comp_def case_prod_beta)

lemma mset_tables:
  assumes "mset t' = mset t"
  shows "set t' = set t" "distinct (map fst t') \<longleftrightarrow> distinct (map fst t)"
proof -
  show "set t' = set t" using assms by (rule mset_eq_setD)
  have "mset (map fst t') = mset (map fst t)" using assms by simp
  then show "distinct (map fst t') \<longleftrightarrow> distinct (map fst t)" by (rule mset_eq_imp_distinct_iff)
qed

lemma table_ok_mset: "mset t' = mset t \<Longrightarrow> table_ok P t \<Longrightarrow> table_ok P t'"
  using mset_tables [of t' t] by (simp add: table_ok_def list_all_iff)

lemma map_of_mset:
  assumes "mset t' = mset t" "distinct (map fst t)"
  shows "map_of t' = map_of t"
proof (rule map_of_eqI)
  have d: "distinct (map fst t')" using assms mset_tables by blast
  show k: "set (map fst t') = set (map fst t)" using mset_tables(1) [OF assms(1)] by simp
  show "\<forall>k\<in>set (map fst t'). map_of t' k = map_of t k"
  proof
    fix k assume "k \<in> set (map fst t')"
    then obtain v where v: "(k, v) \<in> set t'" by auto
    then have "(k, v) \<in> set t" using mset_tables(1) [OF assms(1)] by simp
    then show "map_of t' k = map_of t k" using v d assms(2) by simp
  qed
qed

lemma clamp_bounds [simp]: "MIN_HEALTH_SCORE \<le> clamp_score s" "clamp_score s \<le> MAX_HEALTH_SCORE"
  by (simp_all add: clamp_score_def registry_consts)

lemma provider_ok_steps:
  assumes "provider_ok u st"
  shows "provider_ok u (on_success utc st)" "provider_ok u (on_failure pen now utc st)"
    "provider_ok u (on_probe_success l utc st)" "provider_ok u (snd (is_provider_tripped now st))"
    "provider_ok u (st\<lparr>ps_stats := q\<rparr>)" "provider_ok u (set_observations obs st)"
  using assms
  by (auto simp: provider_ok_def on_success_def on_failure_def on_probe_success_def is_provider_tripped_def
      set_observations_def adjust_score_def Let_def split: option.splits)

lemma registry_ok_frame [simp]:
  "registry_ok (R\<lparr>reg_latency_cursor := c\<rparr>) = registry_ok R"
  by (simp add: registry_ok_def)

lemma ok_map_states:
  "registry_ok R \<Longrightarrow> (\<And>u st. provider_ok u st \<Longrightarrow> provider_ok u (f st)) \<Longrightarrow> registry_ok (map_states f R)"
  by (simp add: registry_ok_def map_states_def table_ok_map)

lemma table_ok_modify:
  assumes "table_ok P t" "map_of t k = Some v" "\<And>v. P k v \<Longrightarrow> P k (f v)"
  shows "table_ok P (AList.update k (f v) t)"
  by (rule table_ok_update [OF assms(1)], rule assms(3), rule table_okD [OF assms(1,2)])

lemma ok_with_state:
  "registry_ok R \<Longrightarrow> (\<And>st. provider_ok u st \<Longrightarrow> provider_ok u (f st)) \<Longrightarrow> registry_ok (with_state u f R)"
  by (simp add: registry_ok_def with_state_def table_ok_modify split: option.splits)

lemma ok_with_peer:
  "registry_ok R \<Longrightarrow> (\<And>p. peer_ok u p \<Longrightarrow> peer_ok u (f p)) \<Longrightarrow> registry_ok (with_peer u f R)"
  by (simp add: registry_ok_def with_peer_def table_ok_modify split: option.splits)

lemma peer_ok_new: "u \<noteq> [] \<Longrightarrow> peer_ok u (peer_state_new u i)"
  by (simp add: peer_ok_def peer_state_new_def registry_consts)

lemma ok_register_peer: "registry_ok R \<Longrightarrow> registry_ok (register_peer b i d R)"
  by (auto simp: registry_ok_def register_peer_def Let_def peer_ok_new
      intro!: table_ok_update split: option.splits)
     (auto simp: peer_ok_def peer_state_new_def registry_consts dest: table_okD)

lemma ok_peer_reports:
  assumes "registry_ok R"
  shows "registry_ok (report_peer_success utc b R)" "registry_ok (report_peer_failure b e R)"
  unfolding report_peer_success_def report_peer_failure_def Let_def
  by (intro ok_with_peer ok_register_peer assms; simp add: peer_ok_def adjust_score_def)+

lemma ok_get_or_insert:
  "registry_ok R \<Longrightarrow> MIN_HEALTH_SCORE \<le> sc \<Longrightarrow> sc \<le> MAX_HEALTH_SCORE \<Longrightarrow> registry_ok (get_or_insert_provider p src sc R)"
  by (auto simp: registry_ok_def get_or_insert_provider_def provider_ok_def provider_state_new_def
      intro!: table_ok_update split: option.splits)

lemma ok_merge_provider: "registry_ok R \<Longrightarrow> registry_ok (merge_provider src g R)"
  unfolding merge_provider_def
  by (intro ok_with_state ok_get_or_insert) (simp_all add: provider_ok_def registry_consts)

lemma fold_keeps: "(\<And>x y. I y \<Longrightarrow> I (f x y)) \<Longrightarrow> I y \<Longrightarrow> I (fold f xs y)"
  by (induction xs arbitrary: y) simp_all

lemma ok_merge_snapshot: "registry_ok R \<Longrightarrow> registry_ok (merge_snapshot s R)"
  unfolding merge_snapshot_def Let_def
  by (intro fold_keeps [where I = registry_ok] ok_merge_provider ok_register_peer) (auto simp: ok_register_peer split: option.splits)

text \<open>Building the reports only tests breakers.\<close>

abbreviation tested :: "nat \<Rightarrow> string \<times> provider_state \<Rightarrow> string \<times> provider_state \<Rightarrow> bool" where
  "tested now \<equiv> (\<lambda>e e'. fst e' = fst e \<and> (snd e' = snd e \<or> snd e' = snd (is_provider_tripped now (snd e))))"

lemma build_provider_report_fst: "fst (build_provider_report E now utc p st) = snd (is_provider_tripped now st)"
  by (simp add: build_provider_report_def Let_def case_prod_beta)

lemma collect_tested: "list_all2 (tested now) t (fst (collect_reports E now utc t))"
proof (induction t)
  case (Cons e t)
  obtain u st where e: "e = (u, st)" by fastforce
  obtain st' r where b: "build_provider_report E now utc (ps_provider st) st = (st', r)" by fastforce
  have st': "st' = snd (is_provider_tripped now st)" using build_provider_report_fst [of E now utc _ st] b by (metis fst_conv)
  have "list_all2 (tested now) t t" by (rule list_all2_refl) simp
  with Cons.IH e b st' show ?case by (cases r) (auto simp: case_prod_beta)
qed simp

lemma tested_keys: "list_all2 (tested now) t t' \<Longrightarrow> map fst t' = map fst t"
  by (induction rule: list_all2_induct) simp_all

lemma tested_lookup:
  "list_all2 (tested now) t t' \<Longrightarrow> map_of t u = Some st
    \<Longrightarrow> \<exists>st'. map_of t' u = Some st' \<and> (st' = st \<or> st' = snd (is_provider_tripped now st))"
  by (induction rule: list_all2_induct) auto

lemma tested_ok: "list_all2 (tested now) t t' \<Longrightarrow> table_ok provider_ok t \<Longrightarrow> table_ok provider_ok t'"
proof -
  assume t: "list_all2 (tested now) t t'" and ok: "table_ok provider_ok t"
  have "list_all (\<lambda>(u, st). provider_ok u st) t \<Longrightarrow> list_all (\<lambda>(u, st). provider_ok u st) t'"
    using t by (induction rule: list_all2_induct) (auto simp: provider_ok_steps)
  with ok tested_keys [OF t] show "table_ok provider_ok t'" by (simp add: table_ok_def)
qed

lemma snapshot_fst [simp]:
  "fst (make_snapshot E now utc R) = fst (collect_provider_reports E now utc R)"
  "fst (provider_reports E now utc R) = fst (collect_provider_reports E now utc R)"
  by (simp_all add: make_snapshot_def provider_reports_def case_prod_beta)

lemma collect_states:
  "reg_states (fst (collect_provider_reports E now utc R)) = fst (collect_reports E now utc (reg_states R))"
  "reg_peers (fst (collect_provider_reports E now utc R)) = reg_peers R"
  by (simp_all add: collect_provider_reports_def case_prod_beta)

lemma ok_collect: "registry_ok R \<Longrightarrow> registry_ok (fst (collect_provider_reports E now utc R))"
  using tested_ok [OF collect_tested] by (auto simp: registry_ok_def collect_states)

lemma listing_snd:
  "snd (healthy_providers now R) = map_states (\<lambda>st. snd (is_available now st)) R"
  "\<exists>c. snd (providers_by_latency now R) = (map_states (\<lambda>st. snd (is_available now st)) R)\<lparr>reg_latency_cursor := c\<rparr>"
proof -
  show "snd (healthy_providers now R) = map_states (\<lambda>st. snd (is_available now st)) R"
    by (simp add: healthy_providers_def available_states_def)
  let ?R = "map_states (\<lambda>st. snd (is_available now st)) R"
  have "\<exists>c. snd (if a then (x, R') else if b then (y, R') else (z, R'\<lparr>reg_latency_cursor := d\<rparr>)) = R'\<lparr>reg_latency_cursor := c\<rparr>"
    for a b R' d and x y z :: "rpc_provider list"
    by (cases a; cases b) (auto intro: exI [of _ "reg_latency_cursor R'"])
  then show "\<exists>c. snd (providers_by_latency now R) = ?R\<lparr>reg_latency_cursor := c\<rparr>"
    by (simp only: providers_by_latency_def available_states_def Let_def prod.case)
qed

lemma is_available_snd [simp]: "snd (is_available now st) = snd (is_provider_tripped now st)"
  by (simp add: is_available_def Let_def case_prod_beta)

lemma ok_gossip_with: "registry_ok R \<Longrightarrow> registry_ok (gossip_with post utc s b R)"
  by (simp add: gossip_with_def ok_peer_reports ok_merge_snapshot split: gossip_reply.splits)

lemma ok_gossip_round: "registry_ok R \<Longrightarrow> registry_ok (run_gossip_round E post now utc R)"
proof -
  assume R: "registry_ok R"
  then have "registry_ok (fst (make_snapshot E now utc R))" by (simp add: ok_collect)
  then have "registry_ok (fold (gossip_with post utc s) us (fst (make_snapshot E now utc R)))" for s us
    by (rule fold_keeps [where I = registry_ok, rotated]) (rule ok_gossip_with)
  with R show ?thesis
    by (simp add: run_gossip_round_def Let_def case_prod_beta ok_collect split: sum.splits)
qed

lemma registry_ok_exec: "registry_ok R \<Longrightarrow> registry_ok (rg_exec op R)"
proof (cases op)
  case (ListByLatency now)
  assume "registry_ok R"
  then have "registry_ok (map_states (\<lambda>st. snd (is_available now st)) R)"
    by (intro ok_map_states) (simp_all add: provider_ok_steps)
  with listing_snd(2) [of now R] ListByLatency show ?thesis by (metis registry_ok_frame rg_exec.simps(5))
next
  case (Rehash ss ps)
  assume "registry_ok R"
  with Rehash show ?thesis by (auto simp: registry_ok_def intro: table_ok_mset)
qed (auto simp: report_success_def report_failure_def run_health_checks_def listing_snd record_rtt_def
      ok_collect ok_merge_snapshot ok_gossip_round intro!: ok_with_state ok_map_states provider_ok_steps split: sum.splits)

lemma ok_seed_states: "table_ok provider_ok (seed_states ps)"
  unfolding seed_states_def
  by (rule fold_keeps) (auto intro!: table_ok_update simp: provider_ok_def provider_state_new_def registry_consts)

lemma ok_seed_peers: "table_ok peer_ok (seed_peer_states c)"
proof -
  have "table_ok peer_ok (fold (\<lambda>u m. if cfg_public_base_url c = Some u then m else AList.update u (peer_state_new u None) m) us m)"
    if "table_ok peer_ok m" "[] \<notin> set us" for us m
    using that by (induction us arbitrary: m) (auto simp: peer_ok_new table_ok_update)
  then show ?thesis by (simp add: seed_peer_states_def)
qed

lemma ok_new: "registry_ok (new_with_config ps c)"
  by (simp add: new_with_config_def registry_ok_def ok_seed_states ok_seed_peers)

section \<open>The circuit breaker refines the history of outcomes\<close>

text \<open>
  What an operation tells about the provider with a URL: a good outcome (a successful request or
  probe), a bad one with its time, or nothing. A health check probes the provider.
\<close>

datatype outcome = Good | Bad nat | Quiet

fun outcome_of :: "string \<Rightarrow> registry_op \<Rightarrow> registry \<Rightarrow> outcome" where
  "outcome_of u (RequestOk utc v) R = (if v = u then Good else Quiet)"
| "outcome_of u (RequestFailed now utc v) R = (if v = u then Bad now else Quiet)"
| "outcome_of u (HealthChecks probe now utc) R =
     (case lookup R u of
        None \<Rightarrow> Quiet
      | Some st \<Rightarrow> (case probe (ps_provider st) of Inr ledger \<Rightarrow> Good | Inl e \<Rightarrow> Bad now))"
| "outcome_of u op R = Quiet"

fun outcomes :: "string \<Rightarrow> registry_op list \<Rightarrow> registry \<Rightarrow> outcome list" where
  "outcomes u [] R = []"
| "outcomes u (op # ops) R = outcome_of u op R # outcomes u ops (rg_exec op R)"

text \<open>The monotonic clock readings of a run, which never decrease.\<close>

fun op_time :: "registry_op \<Rightarrow> nat option" where
  "op_time (RequestFailed now utc u) = Some now"
| "op_time (HealthChecks probe now utc) = Some now"
| "op_time (ListHealthy now) = Some now"
| "op_time (ListByLatency now) = Some now"
| "op_time (Reports E now utc) = Some now"
| "op_time (Snapshot E now utc) = Some now"
| "op_time (GossipRound E post now utc) = Some now"
| "op_time op = None"

fun clocked :: "nat \<Rightarrow> registry_op list \<Rightarrow> nat \<Rightarrow> bool" where
  "clocked t [] now \<longleftrightarrow> t \<le> now"
| "clocked t (op # ops) now \<longleftrightarrow>
     (case op_time op of None \<Rightarrow> clocked t ops now | Some t' \<Rightarrow> t \<le> t' \<and> clocked t' ops now)"

text \<open>
  The specification of the breaker: the number of failures since the last good outcome, and the time of
  the last failure. A provider is admitted with fewer failures than the threshold, and otherwise once
  the cooldown has passed, if its score has not fallen below the minimum.
\<close>

record outage =
  failures_in_a_row :: nat
  last_failure :: nat

fun outage_step :: "outcome \<Rightarrow> outage \<Rightarrow> outage" where
  "outage_step Good w = w\<lparr>failures_in_a_row := 0\<rparr>"
| "outage_step (Bad now) w = \<lparr>failures_in_a_row = failures_in_a_row w + 1, last_failure = now\<rparr>"
| "outage_step Quiet w = w"

definition outage_after :: "outcome list \<Rightarrow> outage \<Rightarrow> outage" where
  "outage_after os w = fold outage_step os w"

definition no_outage :: outage where
  "no_outage = \<lparr>failures_in_a_row = 0, last_failure = 0\<rparr>"

definition admits :: "nat \<Rightarrow> bool \<Rightarrow> outage \<Rightarrow> bool" where
  "admits now good_score w \<longleftrightarrow> failures_in_a_row w < CIRCUIT_BREAKER_THRESHOLD
     \<or> (now - last_failure w \<ge> CIRCUIT_BREAKER_COOLDOWN \<and> good_score)"

text \<open>The simulation relation at a time: an expired breaker may or may not have been reset already.\<close>

definition tracks :: "nat \<Rightarrow> outage \<Rightarrow> provider_state \<Rightarrow> bool" where
  "tracks t w st \<longleftrightarrow> ps_consecutive_failures st = failures_in_a_row w \<and> last_failure w \<le> t
     \<and> (if failures_in_a_row w < CIRCUIT_BREAKER_THRESHOLD then ps_tripped_at st = None
        else ps_tripped_at st = Some (last_failure w)
           \<or> ps_tripped_at st = None \<and> CIRCUIT_BREAKER_COOLDOWN \<le> t - last_failure w)"

text \<open>What an operation does to a provider, as far as the breaker is concerned.\<close>

definition moves :: "outcome \<Rightarrow> nat option \<Rightarrow> provider_state \<Rightarrow> provider_state \<Rightarrow> bool" where
  "moves oc t st st' \<longleftrightarrow> ps_provider st' = ps_provider st \<and>
     (case oc of
        Good \<Rightarrow> ps_consecutive_failures st' = 0 \<and> ps_tripped_at st' = None
      | Bad now \<Rightarrow> t = Some now \<and> ps_consecutive_failures st' = ps_consecutive_failures st + 1
          \<and> ps_local_score st' \<le> ps_local_score st
          \<and> ps_tripped_at st' = (if ps_consecutive_failures st + 1 \<ge> CIRCUIT_BREAKER_THRESHOLD then Some now else ps_tripped_at st)
      | Quiet \<Rightarrow> ps_consecutive_failures st' = ps_consecutive_failures st \<and> ps_local_score st' = ps_local_score st
          \<and> (ps_tripped_at st' = ps_tripped_at st
             \<or> (\<exists>now. t = Some now \<and> ps_tripped_at st' = ps_tripped_at (snd (is_provider_tripped now st)))))"

lemma tested_frame [simp]:
  "ps_provider (snd (is_provider_tripped now st)) = ps_provider st"
  "ps_consecutive_failures (snd (is_provider_tripped now st)) = ps_consecutive_failures st"
  "ps_local_score (snd (is_provider_tripped now st)) = ps_local_score st"
  "ps_stats (snd (is_provider_tripped now st)) = ps_stats st"
  by (simp_all add: is_provider_tripped_def split: option.splits)

lemma observation_frame [simp]:
  "ps_provider (set_observations obs st) = ps_provider st"
  "ps_consecutive_failures (set_observations obs st) = ps_consecutive_failures st"
  "ps_local_score (set_observations obs st) = ps_local_score st"
  "ps_tripped_at (set_observations obs st) = ps_tripped_at st"
  by (simp_all add: set_observations_def)

text \<open>Merging gossip only changes the observations of the providers already known.\<close>

definition same_breaker :: "provider_state \<Rightarrow> provider_state \<Rightarrow> bool" where
  "same_breaker st st' \<longleftrightarrow> ps_provider st' = ps_provider st \<and> ps_local_score st' = ps_local_score st
     \<and> ps_consecutive_failures st' = ps_consecutive_failures st \<and> ps_tripped_at st' = ps_tripped_at st"

lemma same_breaker_trans: "same_breaker a b \<Longrightarrow> same_breaker b c \<Longrightarrow> same_breaker a c"
  by (simp add: same_breaker_def)

definition keeps_breakers :: "registry \<Rightarrow> registry \<Rightarrow> bool" where
  "keeps_breakers R R' \<longleftrightarrow> (\<forall>u st. lookup R u = Some st \<longrightarrow> (\<exists>st'. lookup R' u = Some st' \<and> same_breaker st st'))"

lemma keeps_breakers_refl: "reg_states R' = reg_states R \<Longrightarrow> keeps_breakers R R'"
  by (simp add: keeps_breakers_def same_breaker_def)

lemma keeps_breakers_trans: "keeps_breakers R R' \<Longrightarrow> keeps_breakers R' R'' \<Longrightarrow> keeps_breakers R R''"
  unfolding keeps_breakers_def using same_breaker_trans by meson

lemma merge_provider_keeps: "keeps_breakers R (merge_provider src g R)"
  unfolding keeps_breakers_def
proof (intro allI impI)
  fix u st
  assume "lookup R u = Some st"
  moreover obtain f where "lookup (merge_provider src g R) u = (case lookup R u of
        Some st \<Rightarrow> Some (set_observations (f st) st)
      | None \<Rightarrow> if u = pub_url (gs_provider g)
                then Some (set_observations (f (provider_state_new (gossiped_provider g) ''gossip'' DISCOVERED_PROVIDER_STARTING_SCORE))
                             (provider_state_new (gossiped_provider g) ''gossip'' DISCOVERED_PROVIDER_STARTING_SCORE))
                else None)"
    using lookup_merge_provider [of src g R u] by blast
  ultimately have "lookup (merge_provider src g R) u = Some (set_observations (f st) st)" by simp
  then show "\<exists>st'. lookup (merge_provider src g R) u = Some st' \<and> same_breaker st st'"
    by (simp add: same_breaker_def)
qed

lemma fold_keeps_breakers: "(\<And>x R. keeps_breakers R (f x R)) \<Longrightarrow> keeps_breakers R (fold f xs R)"
  by (induction xs arbitrary: R) (auto intro: keeps_breakers_refl keeps_breakers_trans)

lemma merge_snapshot_keeps: "keeps_breakers R (merge_snapshot s R)"
proof -
  let ?R1 = "case rs_base_url s of Some u \<Rightarrow> register_peer u (Some (rs_instance_id s)) None R | None \<Rightarrow> R"
  have 1: "keeps_breakers R ?R1" by (rule keeps_breakers_refl) (simp split: option.splits)
  have 2: "keeps_breakers ?R1 (fold (\<lambda>p. register_peer (adv_base_url p) (adv_instance_id p) (rs_base_url s)) (rs_peers s) ?R1)"
    by (rule fold_keeps_breakers) (simp add: keeps_breakers_refl)
  show ?thesis unfolding merge_snapshot_def Let_def
    by (rule keeps_breakers_trans [OF keeps_breakers_trans [OF 1 2]], rule fold_keeps_breakers, rule merge_provider_keeps)
qed

lemma gossip_with_keeps: "keeps_breakers R (gossip_with post utc s b R)"
proof (cases "post (b @ ''/registry/gossip'') s")
  case (Reply x)
  have "keeps_breakers (merge_snapshot x R) (report_peer_success utc b (merge_snapshot x R))"
    by (simp add: keeps_breakers_refl)
  with Reply keeps_breakers_trans [OF merge_snapshot_keeps] show ?thesis by (simp add: gossip_with_def)
qed (simp_all add: gossip_with_def keeps_breakers_refl)

lemma quiet_moves:
  "same_breaker st st' \<Longrightarrow> moves Quiet t st st'"
  "same_breaker (snd (is_provider_tripped now st)) st' \<Longrightarrow> moves Quiet (Some now) st st'"
  by (auto simp: same_breaker_def moves_def)

lemma collect_moves:
  assumes "lookup R u = Some st"
  shows "\<exists>st'. lookup (fst (collect_provider_reports E now utc R)) u = Some st' \<and> (st' = st \<or> st' = snd (is_provider_tripped now st))"
  using tested_lookup [OF collect_tested assms] by (simp add: collect_states)

lemma moves_tested: "st' = st \<or> st' = snd (is_provider_tripped now st) \<Longrightarrow> moves Quiet (Some now) st st'"
  by (auto simp: moves_def)

lemma moves_same: "moves Quiet (Some now) st st1 \<Longrightarrow> same_breaker st1 st' \<Longrightarrow> moves Quiet (Some now) st st'"
  by (auto simp: moves_def same_breaker_def)

lemma gossip_round_moves:
  assumes "lookup R u = Some st"
  shows "\<exists>st'. lookup (run_gossip_round E post now utc R) u = Some st' \<and> moves Quiet (Some now) st st'"
proof -
  obtain st1 where st1: "lookup (fst (make_snapshot E now utc R)) u = Some st1" "moves Quiet (Some now) st st1"
    using collect_moves [OF assms, of E now utc] moves_tested by (auto simp del: tested_frame)
  have "\<exists>st'. lookup (fold (gossip_with post utc s) us (fst (make_snapshot E now utc R))) u = Some st'
      \<and> moves Quiet (Some now) st st'" for s us
  proof -
    have "keeps_breakers (fst (make_snapshot E now utc R)) (fold (gossip_with post utc s) us (fst (make_snapshot E now utc R)))"
      by (rule fold_keeps_breakers) (rule gossip_with_keeps)
    with st1 moves_same show ?thesis unfolding keeps_breakers_def by meson
  qed
  with st1 assms show ?thesis
    by (auto simp: run_gossip_round_def Let_def case_prod_beta moves_def split: sum.splits)
qed

lemma on_failure_moves:
  assumes "provider_ok u st" "0 \<le> pen"
  shows "moves (Bad now) (Some now) st (on_failure pen now utc st)"
  using assms by (auto simp: moves_def on_failure_def adjust_score_def clamp_score_def provider_ok_def Let_def)

lemma on_good_moves: "moves Good t st (on_success utc st)" "moves Good t st (on_probe_success l utc st)"
  by (simp_all add: moves_def on_success_def on_probe_success_def)

lemma listing_lookup:
  "lookup (snd (healthy_providers now R)) u = map_option (\<lambda>st. snd (is_provider_tripped now st)) (lookup R u)"
  "lookup (snd (providers_by_latency now R)) u = map_option (\<lambda>st. snd (is_provider_tripped now st)) (lookup R u)"
  using listing_snd [of now R] by auto

lemma exec_moves:
  assumes ok: "registry_ok R" and st: "lookup R u = Some st"
  shows "\<exists>st'. lookup (rg_exec op R) u = Some st' \<and> moves (outcome_of u op R) (op_time op) st st'"
proof (cases op)
  case (RequestFailed now utc v)
  have "provider_ok u st" using ok st table_okD by (auto simp: registry_ok_def)
  with RequestFailed st show ?thesis
    by (auto simp: report_failure_def on_failure_moves moves_def [of Quiet] registry_consts)
next
  case (HealthChecks probe now utc)
  have "provider_ok u st" using ok st table_okD by (auto simp: registry_ok_def)
  with HealthChecks st show ?thesis
    by (auto simp: run_health_checks_def on_failure_moves on_good_moves registry_consts split: sum.splits)
next
  case (Merge s)
  with st merge_snapshot_keeps [of R s] quiet_moves(1) show ?thesis unfolding keeps_breakers_def by fastforce
next
  case (Rehash ss ps)
  with ok st show ?thesis
    using map_of_mset [of ss "reg_states R"] by (auto simp: registry_ok_def table_ok_def moves_def)
next
  case (Sample lock v rtt)
  with st show ?thesis by (auto simp: record_rtt_def moves_def)
next
  case (RequestOk utc v)
  with st show ?thesis by (auto simp: report_success_def on_good_moves moves_def [of Quiet])
next
  case (Reports E now utc)
  with collect_moves [OF st, of E now utc] moves_tested show ?thesis by fastforce
next
  case (Snapshot E now utc)
  with collect_moves [OF st, of E now utc] moves_tested show ?thesis by fastforce
next
  case (GossipRound E post now utc)
  with gossip_round_moves [OF st] show ?thesis by simp
qed (use st in \<open>simp_all add: listing_lookup moves_tested\<close>)

subsection \<open>The simulation\<close>

lemma moves_tracks:
  assumes "tracks t w st" "moves oc ot st st'" "\<And>t'. ot = Some t' \<Longrightarrow> t \<le> t'" "t1 = (case ot of None \<Rightarrow> t | Some t' \<Rightarrow> t')"
  shows "tracks t1 (outage_step oc w) st'"
proof -
  have mono: "t \<le> t1" using assms(3,4) by (cases ot) auto
  show ?thesis
  proof (cases oc)
    case Quiet
    then show ?thesis using assms mono
      by (auto simp: tracks_def moves_def is_provider_tripped_def split: if_splits option.splits)
  qed (use assms mono in \<open>auto simp: tracks_def moves_def CIRCUIT_BREAKER_THRESHOLD_def split: if_splits\<close>)
qed

lemma run_tracks:
  assumes "registry_ok R" "lookup R u = Some st" "tracks t w st" "clocked t ops now"
  shows "\<exists>st'. lookup (rg_run ops R) u = Some st' \<and> ps_provider st' = ps_provider st
     \<and> (\<exists>t'\<le>now. tracks t' (outage_after (outcomes u ops R) w) st')"
  using assms
proof (induction ops arbitrary: R st t w)
  case (Cons op ops)
  obtain st1 where st1: "lookup (rg_exec op R) u = Some st1" "moves (outcome_of u op R) (op_time op) st st1"
    using exec_moves [OF Cons.prems(1,2)] by blast
  define t1 where "t1 = (case op_time op of None \<Rightarrow> t | Some t' \<Rightarrow> t')"
  have "clocked t1 ops now" "\<And>t'. op_time op = Some t' \<Longrightarrow> t \<le> t'"
    using Cons.prems(4) by (auto simp: t1_def split: option.splits)
  moreover have "tracks t1 (outage_step (outcome_of u op R) w) st1"
    by (rule moves_tracks [OF Cons.prems(3) st1(2) _ t1_def]) (rule calculation(2))
  moreover have "ps_provider st1 = ps_provider st" using st1(2) by (simp add: moves_def)
  ultimately show ?case
    using Cons.IH [OF registry_ok_exec [OF Cons.prems(1)] st1(1)] by (auto simp: outage_after_def)
qed (auto simp: outage_after_def)

text \<open>The availability test and the specification agree on related states.\<close>

lemma tracks_available:
  assumes "tracks t w st" "t \<le> now"
  shows "fst (is_available now st) \<longleftrightarrow> admits now (ps_local_score st \<ge> MIN_PROVIDER_SCORE) w"
  using assms by (auto simp: tracks_def is_available_def is_provider_tripped_def admits_def Let_def split: if_splits option.splits)

definition listed :: "rpc_provider list \<Rightarrow> string \<Rightarrow> bool" where
  "listed ps u \<longleftrightarrow> u \<in> prov_url ` set ps"

lemma listed_available:
  "listed (map ps_provider (fst (available_states now R))) u \<longleftrightarrow>
     (\<exists>v st. (v, st) \<in> set (reg_states R) \<and> fst (is_available now st) \<and> prov_url (ps_provider st) = u)"
  by (force simp: listed_def available_states_def image_iff)

lemma listed_both:
  "listed (fst (healthy_providers now R)) u \<longleftrightarrow> listed (map ps_provider (fst (available_states now R))) u"
  "listed (fst (providers_by_latency now R)) u \<longleftrightarrow> listed (map ps_provider (fst (available_states now R))) u"
  by (simp_all add: listed_def healthy_providers_def providers_by_latency_def Let_def case_prod_beta)

lemma listed_iff:
  assumes "registry_ok R" "lookup R u = Some st"
  shows "listed (fst (healthy_providers now R)) u \<longleftrightarrow> fst (is_available now st)"
    and "listed (fst (providers_by_latency now R)) u \<longleftrightarrow> fst (is_available now st)"
proof -
  have d: "distinct (map fst (reg_states R))" using assms(1) by (simp add: registry_ok_def table_ok_def)
  have ok: "provider_ok v s" if "(v, s) \<in> set (reg_states R)" for v s
    using that d assms(1) table_okD [of provider_ok "reg_states R" v s] by (simp add: registry_ok_def)
  have st: "(u, st) \<in> set (reg_states R)" using assms(2) by (rule map_of_SomeD)
  have "v = u \<and> s = st" if "(v, s) \<in> set (reg_states R)" "prov_url (ps_provider s) = u" for v s
    using that ok [OF that(1)] d st by (auto simp: provider_ok_def dest: eq_key_imp_eq_value)
  moreover have "prov_url (ps_provider st) = u" using ok [OF st] by (simp add: provider_ok_def)
  ultimately have "listed (map ps_provider (fst (available_states now R))) u \<longleftrightarrow> fst (is_available now st)"
    unfolding listed_available using st by blast
  then show "listed (fst (healthy_providers now R)) u \<longleftrightarrow> fst (is_available now st)"
    and "listed (fst (providers_by_latency now R)) u \<longleftrightarrow> fst (is_available now st)"
    by (simp_all add: listed_both)
qed

end
