(* ===== verification/RegistryGuarantees.thy ===== *)
theory RegistryGuarantees
  imports RegistryProperties
begin

text \<open>
  What the provider registry promises its clients, from its construction on: the availability of a
  provider as a function of the outcomes reported for it, recovery, the privacy of credentials, the
  latency average and the order of the listing.
\<close>

section \<open>The registry after its construction\<close>

lemma fold_update_lookup:
  "\<exists>p\<in>set ps. key p = u \<and> map_of (fold (\<lambda>p. AList.update (key p) (val p)) ps m) u = Some (val p)" if "u \<in> key ` set ps"
  using that
proof (induction ps rule: rev_induct)
  case (snoc p ps)
  then show ?case by (cases "key p = u") (auto simp: AList.update_conv)
qed simp

lemma seed_lookup:
  assumes "u \<in> prov_url ` set ps"
  shows "\<exists>p\<in>set ps. prov_url p = u
    \<and> lookup (new_with_config ps c) u = Some (provider_state_new p ''seed'' LOCAL_PROVIDER_STARTING_SCORE)"
  using fold_update_lookup [OF assms, of "\<lambda>p. provider_state_new p ''seed'' LOCAL_PROVIDER_STARTING_SCORE" "[]"]
  by (simp add: new_with_config_def seed_states_def)

lemma new_tracks: "tracks 0 no_outage (provider_state_new p src sc)"
  by (simp add: tracks_def no_outage_def provider_state_new_def registry_consts)

lemma reachable_tracks:
  assumes "u \<in> prov_url ` set ps" "clocked 0 ops now"
  shows "\<exists>st. lookup (rg_run ops (new_with_config ps c)) u = Some st \<and> (\<exists>p\<in>set ps. prov_url p = u \<and> ps_provider st = p)
    \<and> (\<exists>t\<le>now. tracks t (outage_after (outcomes u ops (new_with_config ps c)) no_outage) st)"
proof -
  obtain p where p: "p \<in> set ps" "prov_url p = u"
    "lookup (new_with_config ps c) u = Some (provider_state_new p ''seed'' LOCAL_PROVIDER_STARTING_SCORE)"
    using seed_lookup [OF assms(1)] by blast
  from run_tracks [OF ok_new p(3) new_tracks assms(2)] p(1,2) show ?thesis
    by (auto simp: provider_state_new_def)
qed

lemma run_provider:
  assumes "registry_ok R" "lookup R u = Some st"
  shows "\<exists>st'. lookup (rg_run ops R) u = Some st' \<and> ps_provider st' = ps_provider st"
  using assms
proof (induction ops arbitrary: R st)
  case (Cons op ops)
  obtain st1 where "lookup (rg_exec op R) u = Some st1" "moves (outcome_of u op R) (op_time op) st st1"
    using exec_moves [OF Cons.prems] by blast
  with Cons.IH [OF registry_ok_exec [OF Cons.prems(1)]] show ?case by (fastforce simp: moves_def)
qed simp

lemma seed_keeps_provider:
  assumes "u \<in> prov_url ` set ps"
  shows "\<exists>p\<in>set ps. prov_url p = u \<and> (\<exists>st. lookup (rg_run ops (new_with_config ps c)) u = Some st \<and> ps_provider st = p)"
proof -
  obtain p where p: "p \<in> set ps" "prov_url p = u"
    "lookup (new_with_config ps c) u = Some (provider_state_new p ''seed'' LOCAL_PROVIDER_STARTING_SCORE)"
    using seed_lookup [OF assms] by blast
  from run_provider [OF ok_new p(3)] p(1,2) show ?thesis by (auto simp: provider_state_new_def)
qed

lemma ok_run: "registry_ok (rg_run ops (new_with_config ps c))"
  by (rule rg_run_keeps [OF registry_ok_exec ok_new])

text \<open>
  C9. The registry stays well formed: from its construction on and whatever is done to it, including
  the merging of arbitrary gossip, every provider is filed once under its own URL, all scores of
  providers and peers stay between 0 and 100, no peer has an empty address, and a breaker is only
  tripped after three failures.
\<close>

theorem registry_well_formed: "registry_ok (rg_run ops (new_with_config ps c))"
  by (rule rg_run_keeps [OF registry_ok_exec ok_new])

section \<open>Availability is a function of the outcomes\<close>

text \<open>
  C4. The circuit breaker refines its specification over the history of outcomes: after any run with a
  monotonic clock, both listings contain a configured provider exactly when it has failed fewer than
  three times since its last success, or the cooldown has passed since its last failure and its score
  is still at least the minimum. Gossip, reports, samples and the listings themselves do not matter.
\<close>

theorem registry_refines_outage:
  assumes "u \<in> prov_url ` set ps" "clocked 0 ops now"
  shows "\<exists>st. lookup (rg_run ops (new_with_config ps c)) u = Some st \<and>
    (let R = rg_run ops (new_with_config ps c); w = outage_after (outcomes u ops (new_with_config ps c)) no_outage;
         admitted = admits now (ps_local_score st \<ge> MIN_PROVIDER_SCORE) w in
     (listed (fst (healthy_providers now R)) u \<longleftrightarrow> admitted)
     \<and> (listed (fst (providers_by_latency now R)) u \<longleftrightarrow> admitted))"
proof -
  obtain st t where st: "lookup (rg_run ops (new_with_config ps c)) u = Some st" "t \<le> now"
    "tracks t (outage_after (outcomes u ops (new_with_config ps c)) no_outage) st"
    using reachable_tracks [OF assms, of c] by blast
  show ?thesis
    by (intro exI [of _ st]) (simp add: Let_def st(1) listed_iff [OF ok_run st(1)] tracks_available [OF st(3,2)])
qed

definition demo_provider :: rpc_provider where
  "demo_provider = \<lparr>prov_name = ''a'', prov_url = ''http://a'', prov_auth_header = None, prov_auth_value = None, prov_advertise = None\<rparr>"

definition demo_failures :: "registry_op list" where
  "demo_failures = [RequestFailed 1 0 ''http://a'', RequestFailed 2 0 ''http://a'', RequestFailed 3 0 ''http://a'']"

lemma demo_simps: "prov_url demo_provider = ''http://a''"
  by (simp add: demo_provider_def)

theorem registry_refines_outage_witness:
  "\<not> listed (fst (healthy_providers 10 (rg_run demo_failures (new_with_config [demo_provider] default_config)))) ''http://a''"
proof -
  let ?R = "new_with_config [demo_provider] default_config"
  have "''http://a'' \<in> prov_url ` set [demo_provider]" "clocked 0 demo_failures 10"
    by (simp_all add: demo_simps demo_failures_def)
  moreover have "\<not> admits 10 good (outage_after (outcomes ''http://a'' demo_failures ?R) no_outage)" for good
    by (simp add: demo_failures_def outage_after_def admits_def no_outage_def registry_consts)
  ultimately show ?thesis
    using registry_refines_outage [of "''http://a''" "[demo_provider]" demo_failures 10 default_config] by (auto simp: Let_def)
qed

section \<open>Recovery\<close>

lemma outage_quiet:
  "list_all (\<lambda>oc. \<forall>t. oc \<noteq> Bad t) ocs \<Longrightarrow> failures_in_a_row w = 0 \<Longrightarrow> failures_in_a_row (outage_after ocs w) = 0"
proof (induction ocs arbitrary: w)
  case (Cons oc ocs)
  then show ?case by (cases oc) (simp_all add: outage_after_def)
qed (simp add: outage_after_def)

lemma outcomes_append: "outcomes u (xs @ ys) R = outcomes u xs R @ outcomes u ys (rg_run xs R)"
  by (induction xs arbitrary: R) simp_all

lemma outage_append: "outage_after (xs @ ys) w = outage_after ys (outage_after xs w)"
  by (simp add: outage_after_def)

lemma length_outcomes [simp]: "length (outcomes u ops R) = length ops"
  by (induction ops arbitrary: R) simp_all

lemma outcomes_nth:
  "i < length ops \<Longrightarrow> outcomes u ops R ! i = outcome_of u (ops ! i) (rg_run (take i ops) R)"
  by (induction ops arbitrary: R i) (auto simp: nth_Cons take_Cons split: nat.splits)

text \<open>
  C5. Recovery: in every infinite schedule with a monotonic clock in which health checks keep being made,
  a configured provider that from some moment on fails neither a request nor a probe is eventually
  listed and stays listed in both listings.
\<close>

theorem provider_eventually_listed:
  fixes sched :: "nat \<Rightarrow> registry_op" and clock :: "nat \<Rightarrow> nat" and ps :: "rpc_provider list"
  assumes "u \<in> prov_url ` set ps" and clk: "\<And>n. clocked 0 (map sched [0..<n]) (clock n)"
    and fair: "\<And>n. \<exists>m\<ge>n. \<exists>probe now utc. sched m = HealthChecks probe now utc"
    and well: "\<And>n t. N \<le> n \<Longrightarrow> outcome_of u (sched n) (rg_run (map sched [0..<n]) (new_with_config ps c)) \<noteq> Bad t"
  shows "\<exists>n. \<forall>m\<ge>n. listed (fst (healthy_providers (clock m) (rg_run (map sched [0..<m]) (new_with_config ps c)))) u
    \<and> listed (fst (providers_by_latency (clock m) (rg_run (map sched [0..<m]) (new_with_config ps c)))) u"
proof -
  let ?R = "new_with_config ps c"
  let ?st = "\<lambda>n. rg_run (map sched [0..<n]) ?R"
  let ?w = "\<lambda>n. outage_after (outcomes u (map sched [0..<n]) ?R) no_outage"
  obtain k probe now utc where k: "N \<le> k" "sched k = HealthChecks probe now utc" using fair [of N] by blast
  obtain st where "lookup (?st k) u = Some st" using reachable_tracks [OF assms(1) clk] by blast
  with k well [OF k(1), of now] have "outcome_of u (sched k) (?st k) = Good" by (auto split: sum.splits)
  then have "failures_in_a_row (?w (Suc k)) = 0" by (simp add: outcomes_append outage_append) (simp add: outage_after_def)
  have "failures_in_a_row (?w m) = 0" if "Suc k \<le> m" for m
    using that
  proof (induction rule: dec_induct)
    case (step m)
    have "\<forall>t. outcome_of u (sched m) (?st m) \<noteq> Bad t" using well [of m] step(1) k(1) by simp
    with step(3) show ?case
      by (cases "outcome_of u (sched m) (?st m)") (simp_all add: outcomes_append outage_append, simp_all add: outage_after_def)
  qed fact
  moreover have "(listed (fst (healthy_providers (clock m) (?st m))) u \<longleftrightarrow> admits (clock m) (ps_local_score st \<ge> MIN_PROVIDER_SCORE) (?w m))
      \<and> (listed (fst (providers_by_latency (clock m) (?st m))) u \<longleftrightarrow> admits (clock m) (ps_local_score st \<ge> MIN_PROVIDER_SCORE) (?w m))"
    if "lookup (?st m) u = Some st" for m st
    using reachable_tracks [OF assms(1) clk, of m c] that
    by (auto simp: listed_iff [OF ok_run that] tracks_available)
  moreover have "\<exists>st. lookup (?st m) u = Some st" for m using reachable_tracks [OF assms(1) clk] by blast
  ultimately show ?thesis
    by (intro exI [of _ "Suc k"]) (metis admits_def registry_consts(1) zero_less_numeral)
qed

theorem provider_eventually_listed_witness:
  "\<exists>n. \<forall>m\<ge>n. listed (fst (healthy_providers m
     (rg_run (map (\<lambda>n. HealthChecks (\<lambda>p. Inr 7) n 0) [0..<m]) (new_with_config [demo_provider] default_config)))) ''http://a''"
proof -
  let ?s = "\<lambda>n. HealthChecks (\<lambda>p. Inr 7) n 0"
  have c: "clocked t (map ?s [k..<n]) n" if "t \<le> k" "k \<le> n" for t k n
    using that(2,1) by (induction arbitrary: t rule: inc_induct) (simp_all add: upt_conv_Cons)
  have "''http://a'' \<in> prov_url ` set [demo_provider]" by (simp add: demo_simps)
  moreover have "clocked 0 (map ?s [0..<n]) n" for n using c [of 0 0 n] by simp
  moreover have "\<exists>m\<ge>n. \<exists>probe now utc. ?s m = HealthChecks probe now utc" for n by blast
  moreover have "outcome_of ''http://a'' (?s n) R \<noteq> Bad t" for n R t by (simp split: option.splits)
  ultimately show ?thesis
    using provider_eventually_listed [of "''http://a''" "[demo_provider]" ?s "\<lambda>n. n" 0 default_config] by blast
qed

section \<open>The cooldown alone does not help a provider that has failed\<close>

lemma run_score:
  assumes "registry_ok R" "lookup R u = Some st" "Good \<notin> set (outcomes u ops R)"
  shows "\<exists>st'. lookup (rg_run ops R) u = Some st' \<and> ps_local_score st' \<le> ps_local_score st"
  using assms
proof (induction ops arbitrary: R st)
  case (Cons op ops)
  obtain st1 where st1: "lookup (rg_exec op R) u = Some st1" "moves (outcome_of u op R) (op_time op) st st1"
    using exec_moves [OF Cons.prems(1,2)] by blast
  have "ps_local_score st1 \<le> ps_local_score st"
    using st1(2) Cons.prems(3) by (cases "outcome_of u op R") (auto simp: moves_def)
  with Cons.IH [OF registry_ok_exec [OF Cons.prems(1)] st1(1)] Cons.prems(3) show ?case by fastforce
qed simp

lemma outage_bad: "Good \<notin> set ocs \<Longrightarrow> failures_in_a_row w \<le> failures_in_a_row (outage_after ocs w)"
proof (induction ocs arbitrary: w)
  case (Cons oc ocs)
  then have "failures_in_a_row w \<le> failures_in_a_row (outage_step oc w)" by (cases oc) simp_all
  with Cons.IH [of "outage_step oc w"] Cons.prems show ?case by (simp add: outage_after_def)
qed (simp add: outage_after_def)

lemma clocked_append: "clocked t (xs @ ys) now \<Longrightarrow> \<exists>t'. clocked t' ys now"
  by (induction xs arbitrary: t) (auto split: option.splits)

lemma three_failures_score:
  assumes "lookup R u = Some st" "ps_local_score st < MAX_HEALTH_SCORE"
  shows "\<exists>st'. lookup (rg_run [RequestFailed t1 c1 u, RequestFailed t2 c2 u, RequestFailed t3 c3 u] R) u = Some st'
    \<and> ps_local_score st' < MIN_PROVIDER_SCORE"
proof -
  have f: "ps_local_score (on_failure LOCAL_FAILURE_PENALTY now utc s) = max 0 (min 100 (ps_local_score s - 25))" for now utc s
    by (simp add: on_failure_def adjust_score_def clamp_score_def registry_consts Let_def)
  show ?thesis using assms by (simp add: report_failure_def f MIN_PROVIDER_SCORE_def MAX_HEALTH_SCORE_def)
qed

text \<open>
  The cooldown of the breaker does not bring a provider back: once a provider whose score was below
  the maximum of 100 has failed three requests in a row, no listing contains it at any later time,
  however long the cooldown has been over, until a request to it or a probe of it succeeds.
\<close>

theorem cooldown_never_readmits:
  assumes "u \<in> prov_url ` set ps"
    and "lookup (rg_run before (new_with_config ps c)) u = Some st" "ps_local_score st < MAX_HEALTH_SCORE"
    and "failed = [RequestFailed t1 c1 u, RequestFailed t2 c2 u, RequestFailed t3 c3 u]"
    and "Good \<notin> set (outcomes u later (rg_run (before @ failed) (new_with_config ps c)))"
    and "clocked 0 (before @ failed @ later) now"
  shows "\<not> listed (fst (healthy_providers now (rg_run (before @ failed @ later) (new_with_config ps c)))) u
    \<and> \<not> listed (fst (providers_by_latency now (rg_run (before @ failed @ later) (new_with_config ps c)))) u"
proof -
  let ?N = "new_with_config ps c"
  let ?w = "outage_after (outcomes u (before @ failed @ later) ?N) no_outage"
  obtain st1 where st1: "lookup (rg_run (before @ failed) ?N) u = Some st1" "ps_local_score st1 < MIN_PROVIDER_SCORE"
    using three_failures_score [OF assms(2,3), of t1 c1 t2 c2 t3 c3]
    unfolding assms(4) [symmetric] rg_run_append [symmetric] by blast
  obtain st2 where st2: "lookup (rg_run (before @ failed @ later) ?N) u = Some st2" "ps_local_score st2 < MIN_PROVIDER_SCORE"
    using run_score [OF ok_run st1(1) assms(5)] st1(2) unfolding rg_run_append [symmetric] append_assoc by force
  have "3 \<le> failures_in_a_row (outage_after (outcomes u failed (rg_run before ?N)) w)" for w
    by (simp add: assms(4) outage_after_def)
  then have "3 \<le> failures_in_a_row ?w"
    using outage_bad [OF assms(5)] order_trans by (simp add: outcomes_append outage_append rg_run_append) blast
  with st2(2) have "\<not> admits now (ps_local_score st2 \<ge> MIN_PROVIDER_SCORE) ?w"
    by (simp add: admits_def CIRCUIT_BREAKER_THRESHOLD_def)
  moreover obtain t where "t \<le> now" "tracks t ?w st2"
    using reachable_tracks [OF assms(1,6), of c] st2(1) by auto
  ultimately have "\<not> fst (is_available now st2)" by (simp add: tracks_available)
  then show ?thesis by (simp add: listed_iff [OF ok_run st2(1)])
qed

theorem cooldown_never_readmits_witness:
  "\<not> listed (fst (healthy_providers (10 ^ 20) (rg_run demo_failures (new_with_config [demo_provider] default_config)))) ''http://a''"
proof -
  let ?N = "new_with_config [demo_provider] default_config"
  have "lookup (rg_run [] ?N) ''http://a'' = Some (provider_state_new demo_provider ''seed'' LOCAL_PROVIDER_STARTING_SCORE)"
    by (simp add: new_with_config_def seed_states_def demo_simps)
  moreover have "ps_local_score (provider_state_new demo_provider ''seed'' LOCAL_PROVIDER_STARTING_SCORE) < MAX_HEALTH_SCORE"
    by (simp add: provider_state_new_def registry_consts)
  moreover have "clocked 0 ([] @ demo_failures @ []) (10 ^ 20)" by (simp add: demo_failures_def)
  ultimately show ?thesis
    using cooldown_never_readmits [of "''http://a''" "[demo_provider]" "[]" default_config _ demo_failures 1 0 2 0 3 0 "[]" "10 ^ 20"]
    by (simp add: demo_simps demo_failures_def)
qed

section \<open>Credentials stay private\<close>

lemma collect_reports_fst:
  "snd (collect_reports E now utc t) = Inr rs \<Longrightarrow> map fst rs = map (\<lambda>(u, st). ps_provider st) t"
proof (induction t arbitrary: rs)
  case (Cons e t)
  then show ?case by (cases e) (auto simp: case_prod_beta split: sum.splits)
qed simp

text \<open>
  Gossip never discloses a private provider: whatever has been done to the registry, including the
  merging of gossip that claims the same URL to be public, the snapshot sent to peers contains the URL
  of no configured provider that has credentials without an explicit permission to advertise it, or
  that is marked as not to be advertised.
\<close>

theorem gossip_keeps_private:
  assumes "u \<in> prov_url ` set ps" "\<And>p. p \<in> set ps \<Longrightarrow> prov_url p = u \<Longrightarrow> \<not> should_advertise p"
    and "snd (make_snapshot E now utc (rg_run ops (new_with_config ps c))) = Inr s"
  shows "u \<notin> (pub_url \<circ> gs_provider) ` set (rs_providers s)"
proof
  let ?R = "rg_run ops (new_with_config ps c)"
  assume "u \<in> (pub_url \<circ> gs_provider) ` set (rs_providers s)"
  moreover obtain rs where rs: "snd (collect_reports E now utc (reg_states ?R)) = Inr rs"
    using assms(3) by (auto simp: make_snapshot_def collect_provider_reports_def case_prod_beta Let_def)
  ultimately obtain p r where p: "(p, r) \<in> set rs" "should_advertise p" "prov_url p = u"
    using assms(3)
    by (auto simp: make_snapshot_def collect_provider_reports_def case_prod_beta Let_def gossip_entry_def public_provider_def
        dest!: in_set_takeD)
  from p(1) have "p \<in> set (map fst rs)" by force
  then obtain v st where st: "(v, st) \<in> set (reg_states ?R)" "p = ps_provider st"
    using collect_reports_fst [OF rs] by auto
  have d: "distinct (map fst (reg_states ?R))" using ok_run [of ops ps c] by (simp add: registry_ok_def table_ok_def)
  then have v: "lookup ?R v = Some st" using st(1) by simp
  moreover have "provider_ok v st" using ok_run [of ops ps c] v by (auto simp: registry_ok_def dest: table_okD)
  ultimately have "lookup ?R u = Some st" using p(3) st(2) by (simp add: provider_ok_def)
  moreover have "\<exists>q\<in>set ps. prov_url q = u \<and> (\<exists>st. lookup ?R u = Some st \<and> ps_provider st = q)"
    using assms(1) seed_keeps_provider by blast
  ultimately show False using assms(2) p(2) st(2) by auto
qed

definition secret_provider :: rpc_provider where
  "secret_provider = \<lparr>prov_name = ''b'', prov_url = ''http://b'', prov_auth_header = Some ''Authorization'',
     prov_auth_value = Some ''secret'', prov_advertise = None\<rparr>"

text \<open>A peer that claims the private provider to be public.\<close>

definition claiming_gossip :: registry_snapshot where
  "claiming_gossip = \<lparr>rs_instance_id = ''evil'', rs_base_url = None, rs_generated_at = 0, rs_peers = [],
     rs_providers = [\<lparr>gs_provider = \<lparr>pub_name = ''b'', pub_url = ''http://b''\<rparr>, gs_score = 100, gs_latest_ledger = None,
       gs_consecutive_failures = 0, gs_healthy = True, gs_observed_at = 0\<rparr>]\<rparr>"

theorem gossip_keeps_private_witness:
  "\<exists>s. snd (make_snapshot (env0 []) 1 0 (rg_run [Merge claiming_gossip] (new_with_config [demo_provider, secret_provider] default_config))) = Inr s
    \<and> length (rs_providers s) = 1 \<and> ''http://b'' \<notin> (pub_url \<circ> gs_provider) ` set (rs_providers s)"
proof -
  let ?R = "rg_run [Merge claiming_gossip] (new_with_config [demo_provider, secret_provider] default_config)"
  have "case snd (make_snapshot (env0 []) 1 0 ?R) of Inl f \<Rightarrow> False | Inr s \<Rightarrow> length (rs_providers s) = 1" by code_simp
  then obtain s where s: "snd (make_snapshot (env0 []) 1 0 ?R) = Inr s" "length (rs_providers s) = 1" by (auto split: sum.splits)
  have "''http://b'' \<notin> (pub_url \<circ> gs_provider) ` set (rs_providers s)"
  proof (rule gossip_keeps_private [OF _ _ s(1)])
    show "''http://b'' \<in> prov_url ` set [demo_provider, secret_provider]" by (simp add: secret_provider_def)
  next
    fix p assume "p \<in> set [demo_provider, secret_provider]" "prov_url p = ''http://b''"
    then show "\<not> should_advertise p" by (auto simp: demo_provider_def secret_provider_def should_advertise_def)
  qed
  with s show ?thesis by blast
qed

section \<open>The latency average and the order of the listing\<close>

lemma ema_between:
  fixes lo hi rtt ema w :: nat
  assumes "lo \<le> rtt" "rtt \<le> hi" "lo \<le> ema" "ema \<le> hi" "1 \<le> w"
  shows "lo \<le> (rtt * 2 + ema * (w + 1 - 2)) div (w + 1)" "(rtt * 2 + ema * (w + 1 - 2)) div (w + 1) \<le> hi"
proof -
  obtain k where w: "w = Suc k" using assms(5) by (cases w) auto
  have "lo * (w + 1) = lo * 2 + lo * k" by (simp add: w)
  also have "\<dots> \<le> rtt * 2 + ema * k" using assms by (intro add_mono mult_le_mono1) auto
  finally show "lo \<le> (rtt * 2 + ema * (w + 1 - 2)) div (w + 1)"
    by (subst less_eq_div_iff_mult_less_eq) (simp_all add: w)
  have "rtt * 2 + ema * k \<le> hi * 2 + hi * k" using assms by (intro add_mono mult_le_mono1) auto
  also have "\<dots> = hi * (w + 1)" by (simp add: w)
  finally have "(rtt * 2 + ema * k) div (w + 1) \<le> hi * (w + 1) div (w + 1)" by (rule div_le_mono)
  also have "hi * (w + 1) div (w + 1) = hi" by (rule nonzero_mult_div_cancel_right) simp
  finally show "(rtt * 2 + ema * (w + 1 - 2)) div (w + 1) \<le> hi" by (simp add: w)
qed

lemma record_between:
  assumes "1 \<le> window s" "lo \<le> rtt" "rtt \<le> hi" "hi < 2 ^ 64" "0 < sample_count s \<Longrightarrow> lo \<le> ema_rtt_us s \<and> ema_rtt_us s \<le> hi"
  shows "lo \<le> ema_rtt_us (stats_record rtt s) \<and> ema_rtt_us (stats_record rtt s) \<le> hi
    \<and> sample_count (stats_record rtt s) = sample_count s + 1 \<and> window (stats_record rtt s) = window s"
proof (cases "sample_count s = 0")
  case False
  then have b: "lo \<le> ema_rtt_us s" "ema_rtt_us s \<le> hi" using assms(5) by auto
  let ?n = "(rtt * 2 + ema_rtt_us s * (window s + 1 - 2)) div (window s + 1)"
  have n: "lo \<le> ?n" "?n \<le> hi" using ema_between [OF assms(2,3) b assms(1)] by auto
  then have "?n mod 2 ^ 64 = ?n" using assms(4) by (intro mod_less) linarith
  with n False show ?thesis by (simp add: stats_record_def Let_def)
qed (use assms in \<open>simp add: stats_record_def Let_def\<close>)

lemma record_all_between:
  assumes "1 \<le> window s" "\<And>x. x \<in> set rtts \<Longrightarrow> lo \<le> x \<and> x \<le> hi" "hi < 2 ^ 64"
    "0 < sample_count s \<Longrightarrow> lo \<le> ema_rtt_us s \<and> ema_rtt_us s \<le> hi"
  shows "sample_count (fold stats_record rtts s) = sample_count s + length rtts
    \<and> (0 < sample_count s + length rtts \<longrightarrow> lo \<le> ema_rtt_us (fold stats_record rtts s) \<and> ema_rtt_us (fold stats_record rtts s) \<le> hi)"
  using assms
proof (induction rtts arbitrary: s)
  case (Cons x rtts)
  have "lo \<le> x" "x \<le> hi" using Cons.prems(2) [of x] by auto
  from record_between [OF Cons.prems(1) this Cons.prems(3,4)] Cons.IH [of "stats_record x s"] Cons.prems(2,3)
  show ?case using Cons.prems(1) by auto
qed auto

text \<open>
  The latency average stays within the samples: after any non-empty series of round-trip times that
  fit a \<open>u64\<close>, for any window, the average lies between the least and the greatest of them (so the
  narrowing conversion never loses bits), and the number of samples is counted.
\<close>

theorem latency_average_bounded:
  assumes "rtts \<noteq> []" "\<And>x. x \<in> set rtts \<Longrightarrow> lo \<le> x \<and> x \<le> hi" "hi < 2 ^ 64"
  shows "lo \<le> ema_rtt_us (fold stats_record rtts (stats_new w)) \<and> ema_rtt_us (fold stats_record rtts (stats_new w)) \<le> hi
    \<and> sample_count (fold stats_record rtts (stats_new w)) = length rtts"
  using record_all_between [of "stats_new w" rtts lo hi] assms by (simp add: stats_new_def)

theorem latency_average_bounded_witness:
  "100 \<le> ema_rtt_us (fold stats_record [100, 500, 300] (stats_new 20)) \<and> ema_rtt_us (fold stats_record [100, 500, 300] (stats_new 20)) \<le> 500
    \<and> sample_count (fold stats_record [100, 500, 300] (stats_new 20)) = 3"
proof -
  have "100 \<le> x \<and> x \<le> 500" if "x \<in> set [100, 500, 300]" for x :: nat using that by auto
  from latency_average_bounded [OF _ this, of "[100, 500, 300]" 20] show ?thesis by simp
qed

text \<open>
  The listing by latency contains the same providers as the plain listing. When all of them have
  enough samples it is ordered by increasing latency average; otherwise it starts with the provider
  the cursor points at and the cursor advances, so that \<open>n\<close> listings in a row begin with each of the \<open>n\<close>
  available providers in turn.
\<close>

theorem latency_listing_order:
  assumes "fst (available_states now R) = available" "available \<noteq> []"
  shows "\<exists>sts. fst (providers_by_latency now R) = map ps_provider sts
    \<and> mset (map ps_provider sts) = mset (fst (healthy_providers now R))
    \<and> (if list_all (\<lambda>st. stats_is_warmed (ps_stats st)) available
       then sorted (map (\<lambda>st. ema_rtt_us (ps_stats st)) sts)
       else hd sts = available ! (reg_latency_cursor R mod length available)
         \<and> reg_latency_cursor (snd (providers_by_latency now R)) = (reg_latency_cursor R + 1) mod 2 ^ 64)"
proof (cases "list_all (\<lambda>st. stats_is_warmed (ps_stats st)) available")
  case True
  then show ?thesis using assms
    by (intro exI [of _ "sort_key (\<lambda>st. ema_rtt_us (ps_stats st)) available"])
       (simp add: providers_by_latency_def healthy_providers_def case_prod_beta Let_def)
next
  case False
  let ?k = "reg_latency_cursor R mod length available"
  have "?k < length available" using assms(2) by simp
  then have "hd (rotate ?k available) = available ! ?k" using assms(2) by (simp add: hd_rotate_conv_nth)
  moreover have "reg_latency_cursor (snd (available_states now R)) = reg_latency_cursor R"
    by (simp add: available_states_def map_states_def)
  moreover have "mset (rotate ?k available) = mset available"
    by (metis append_take_drop_id mset_append rotate_drop_take add.commute)
  ultimately show ?thesis using assms False
    by (intro exI [of _ "rotate ?k available"])
       (simp add: providers_by_latency_def healthy_providers_def case_prod_beta Let_def)
qed

theorem latency_listing_order_witness:
  "\<exists>sts :: provider_state list. fst (providers_by_latency 0 (registry_new [demo_provider, secret_provider])) = map ps_provider sts
    \<and> mset (map ps_provider sts) = mset (fst (healthy_providers 0 (registry_new [demo_provider, secret_provider])))"
proof -
  have "fst (available_states 0 (registry_new [demo_provider, secret_provider])) \<noteq> []" by code_simp
  from latency_listing_order [OF refl this] show ?thesis by blast
qed

end
