(* ===== verification/Dispatch.thy ===== *)
theory Dispatch
  imports ProviderRegistry
begin

text \<open>
  How the simulation engine (\<open>core/src/simulation.rs\<close>) sends a simulation to the RPC providers: the
  failover loop, the consensus mode that compares three providers, and the search for the least
  resource limits. What a node answers to a request, the decoding of XDR and the arithmetic on \<open>f64\<close> are
  parameters.
\<close>

section \<open>Results and errors\<close>

record soroban_resources =
  cpu_instructions :: nat
  ram_bytes :: nat
  ledger_read_bytes :: nat
  ledger_write_bytes :: nat
  transaction_size_bytes :: nat

text \<open>
  A result. The record is extensible by the fields that hold the structures of other modules: the state
  dependencies, the TTL analysis, the call graph, the state snapshot and the protocol version.
\<close>

record simulation_result =
  sim_resources :: soroban_resources
  sim_transaction_hash :: "string option"
  sim_latest_ledger :: nat
  sim_cost_stroops :: nat
  sim_transaction_data :: string

text \<open>The errors; errors of libraries are carried as their display text.\<close>

datatype simulation_error =
    IoError string
  | RpcRequestFailed string
  | NodeTimeout
  | NodeError string
  | SerializationError string
  | NetworkError string
  | Base64Error string
  | XdrError string
  | InvalidContract string
  | ParseError string
  | LocalUnavailable
  | ExecutionFailed string
  | InsufficientConsensusProviders string
  | ConsensusMismatch string

fun show_error :: "simulation_error \<Rightarrow> string" where
  "show_error (IoError m) = ''IO error: '' @ m"
| "show_error (RpcRequestFailed m) = ''RPC request failed: '' @ m"
| "show_error NodeTimeout = ''RPC node timeout''"
| "show_error (NodeError m) = ''Node returned an error: '' @ m"
| "show_error (SerializationError m) = ''Serialization error: '' @ m"
| "show_error (NetworkError m) = ''Network error: '' @ m"
| "show_error (Base64Error m) = ''Base64 decode error: '' @ m"
| "show_error (XdrError m) = ''XDR decode error: '' @ m"
| "show_error (InvalidContract m) = ''Invalid contract: '' @ m"
| "show_error (ParseError m) = ''Parse error: '' @ m"
| "show_error LocalUnavailable = ''Local WASM execution unavailable''"
| "show_error (ExecutionFailed m) = ''Contract execution failed: '' @ m"
| "show_error (InsufficientConsensusProviders m) = ''Insufficient consensus providers: '' @ m"
| "show_error (ConsensusMismatch m) = ''Consensus mismatch: '' @ m"

definition is_retriable :: "simulation_error \<Rightarrow> bool" where
  "is_retriable e \<longleftrightarrow> e = LocalUnavailable"

section \<open>Strings\<close>

definition starts_with :: "string \<Rightarrow> string \<Rightarrow> bool" where
  "starts_with p s \<longleftrightarrow> take (length p) s = p"

text \<open>\<open>split_whitespace().last()\<close>.\<close>

definition last_word :: "string \<Rightarrow> string option" where
  "last_word s =
     (let t = dropWhile is_white (rev s) in
      if t = [] then None else Some (rev (takeWhile (\<lambda>c. \<not> is_white c) t)))"

fun digits_value :: "string \<Rightarrow> nat \<Rightarrow> nat option" where
  "digits_value [] acc = Some acc"
| "digits_value (c # cs) acc =
     (let d = (of_char c :: nat) in if 48 \<le> d \<and> d \<le> 57 then digits_value cs (acc * 10 + (d - 48)) else None)"

text \<open>\<open>parse::<u16>\<close>: an optional plus sign and digits, within the range of the type.\<close>

definition parse_u16 :: "string \<Rightarrow> nat option" where
  "parse_u16 s =
     (let ds = (case s of c # cs \<Rightarrow> if c = CHR ''+'' then cs else s | [] \<Rightarrow> []) in
      if ds = [] then None
      else case digits_value ds 0 of Some n \<Rightarrow> if n < 2 ^ 16 then Some n else None | None \<Rightarrow> None)"

fun show_nat :: "nat \<Rightarrow> string" where
  "show_nat n = (if n < 10 then [char_of (48 + n)] else show_nat (n div 10) @ [char_of (48 + n mod 10)])"

declare show_nat.simps [simp del]

fun join_with :: "string \<Rightarrow> string list \<Rightarrow> string" where
  "join_with sep [] = []"
| "join_with sep [s] = s"
| "join_with sep (s # ss) = s @ sep @ join_with sep ss"

section \<open>Failover\<close>

text \<open>\<open>attempt url auth\<close> is the answer of the node to the request sent to it; \<open>auth\<close> is the pair of the
  header and its value, if both are configured.\<close>

type_synonym 'a attempt = "string \<Rightarrow> (string \<times> string) option \<Rightarrow> simulation_error + 'a"

definition auth_of :: "rpc_provider \<Rightarrow> (string \<times> string) option" where
  "auth_of p = (case (prov_auth_header p, prov_auth_value p) of (Some h, Some v) \<Rightarrow> Some (h, v) | _ \<Rightarrow> None)"

text \<open>The readings of the clocks around one attempt, and whether \<open>try_read\<close> finds the table unlocked.\<close>

record attempt_times =
  at_now :: nat
  at_utc :: int
  at_rtt_us :: nat
  at_lock :: bool

definition takes_sample :: "simulation_error \<Rightarrow> bool" where
  "takes_sample e = (case e of NodeTimeout \<Rightarrow> False | NetworkError m \<Rightarrow> False | _ \<Rightarrow> True)"

definition should_retry :: "simulation_error \<Rightarrow> bool" where
  "should_retry e =
     (case e of
        NodeTimeout \<Rightarrow> True
      | NetworkError m \<Rightarrow> True
      | RpcRequestFailed msg \<Rightarrow>
          if starts_with ''HTTP error:'' msg
          then (case Option.bind (last_word msg) parse_u16 of Some status \<Rightarrow> is_retryable_status status | None \<Rightarrow> False)
          else False
      | _ \<Rightarrow> False)"

fun failover_loop ::
    "'a attempt \<Rightarrow> (string \<Rightarrow> attempt_times) \<Rightarrow> rpc_provider list \<Rightarrow> simulation_error option \<Rightarrow> registry
      \<Rightarrow> registry \<times> (simulation_error + 'a)" where
  "failover_loop attempt clk [] last_error R =
     (R, Inl (case last_error of Some e \<Rightarrow> e | None \<Rightarrow> RpcRequestFailed ''All providers exhausted''))"
| "failover_loop attempt clk (p # ps) last_error R =
     (let u = prov_url p; c = clk u in
      case attempt u (auth_of p) of
        Inr result \<Rightarrow> (report_success (at_utc c) u (record_rtt (at_lock c) u (at_rtt_us c) R), Inr result)
      | Inl e \<Rightarrow>
          let R1 = (if takes_sample e then record_rtt (at_lock c) u (at_rtt_us c) R else R);
              R2 = report_failure (at_now c) (at_utc c) u R1 in
          if should_retry e then failover_loop attempt clk ps (Some e) R2 else (R2, Inl e))"

definition simulate_with_failover ::
    "'a attempt \<Rightarrow> (string \<Rightarrow> attempt_times) \<Rightarrow> nat \<Rightarrow> registry \<Rightarrow> registry \<times> (simulation_error + 'a)" where
  "simulate_with_failover attempt clk now R =
     (let (providers, R') = providers_by_latency now R in
      if providers = []
      then (R', Inl (RpcRequestFailed ''All RPC providers are unavailable (circuit breaker tripped)''))
      else failover_loop attempt clk providers None R')"

section \<open>Consensus\<close>

record consensus_fingerprint =
  fp_resources :: soroban_resources
  fp_touched_ledger_keys :: "string list"

text \<open>\<open>touched\<close> extracts the touched ledger keys from the transaction data (XDR).\<close>

definition consensus_fingerprint_of ::
    "(string \<Rightarrow> string list) \<Rightarrow> 'b simulation_result_scheme \<Rightarrow> consensus_fingerprint" where
  "consensus_fingerprint_of touched r =
     \<lparr>fp_resources = sim_resources r, fp_touched_ledger_keys = touched (sim_transaction_data r)\<rparr>"

definition diff_field :: "string \<Rightarrow> nat \<Rightarrow> nat \<Rightarrow> string list" where
  "diff_field name b c = (if b \<noteq> c then [name @ '' ('' @ show_nat b @ '' != '' @ show_nat c @ '')''] else [])"

definition diff_fingerprints :: "consensus_fingerprint \<Rightarrow> consensus_fingerprint \<Rightarrow> string list" where
  "diff_fingerprints baseline candidate =
     (let b = fp_resources baseline; c = fp_resources candidate;
          kb = fp_touched_ledger_keys baseline; kc = fp_touched_ledger_keys candidate in
      diff_field ''cpu_instructions'' (cpu_instructions b) (cpu_instructions c)
      @ diff_field ''ram_bytes'' (ram_bytes b) (ram_bytes c)
      @ diff_field ''ledger_read_bytes'' (ledger_read_bytes b) (ledger_read_bytes c)
      @ diff_field ''ledger_write_bytes'' (ledger_write_bytes b) (ledger_write_bytes c)
      @ diff_field ''transaction_size_bytes'' (transaction_size_bytes b) (transaction_size_bytes c)
      @ (if kb \<noteq> kc then [''touched_ledger_keys ('' @ show_nat (length kb) @ '' keys vs '' @ show_nat (length kc) @ '' keys)'']
         else []))"

text \<open>The reports of the three answers, in the order of the providers.\<close>

fun report_results ::
    "(string \<Rightarrow> attempt_times) \<Rightarrow> (rpc_provider \<times> (simulation_error + 'a)) list \<Rightarrow> registry
      \<Rightarrow> registry \<times> (rpc_provider \<times> 'a) list \<times> string list" where
  "report_results clk [] R = (R, [], [])"
| "report_results clk ((p, r) # rest) R =
     (let c = clk (prov_url p) in
      case r of
        Inr result \<Rightarrow>
          let (R', successes, failures) = report_results clk rest (report_success (at_utc c) (prov_url p) R) in
          (R', (p, result) # successes, failures)
      | Inl e \<Rightarrow>
          let (R', successes, failures) = report_results clk rest (report_failure (at_now c) (at_utc c) (prov_url p) R) in
          (R', successes, (prov_name p @ '': '' @ show_error e) # failures))"

definition divergences ::
    "(string \<Rightarrow> string list) \<Rightarrow> (rpc_provider \<times> 'b simulation_result_scheme) list \<Rightarrow> string list" where
  "divergences touched successes =
     (let (baseline_provider, baseline) = hd successes; fb = consensus_fingerprint_of touched baseline in
      map (\<lambda>(p, r). [CHR 0x27] @ prov_name baseline_provider @ [CHR 0x27] @ '' vs '' @ [CHR 0x27] @ prov_name p @ [CHR 0x27]
             @ '': '' @ join_with '', '' (diff_fingerprints fb (consensus_fingerprint_of touched r)))
        (filter (\<lambda>(p, r). fb \<noteq> consensus_fingerprint_of touched r) (tl successes)))"

definition simulate_with_consensus ::
    "(string \<Rightarrow> string list) \<Rightarrow> 'b simulation_result_scheme attempt \<Rightarrow> (string \<Rightarrow> attempt_times) \<Rightarrow> nat \<Rightarrow> registry
      \<Rightarrow> registry \<times> (simulation_error + 'b simulation_result_scheme)" where
  "simulate_with_consensus touched attempt clk now R =
     (let (healthy, R0) = healthy_providers now R; providers = take 3 healthy in
      if length providers < 3
      then (R0, Inl (InsufficientConsensusProviders
                 (''Consensus mode requires 3 healthy RPC providers, found '' @ show_nat (length providers))))
      else
        let answers = map (\<lambda>p. (p, attempt (prov_url p) (auth_of p))) providers;
            (R1, successes, failures) = report_results clk answers R0 in
        if failures \<noteq> []
        then (R1, Inl (RpcRequestFailed (''Consensus simulation failed because at least one provider errored: ''
                                         @ join_with ''; '' failures)))
        else
          let diffs = divergences touched successes in
          if diffs \<noteq> [] then (R1, Inl (ConsensusMismatch (join_with '' | '' diffs)))
          else (R1, Inr (snd (hd successes))))"

text \<open>The dispatcher; \<open>single\<close> is the answer of the one configured URL when there is no registry.\<close>

datatype simulation_mode = Failover | Consensus

definition simulate_transaction ::
    "(string \<Rightarrow> string list) \<Rightarrow> 'b simulation_result_scheme attempt \<Rightarrow> (string \<Rightarrow> attempt_times) \<Rightarrow> nat
      \<Rightarrow> string \<Rightarrow> simulation_mode \<Rightarrow> registry option \<Rightarrow> registry option \<times> (simulation_error + 'b simulation_result_scheme)" where
  "simulate_transaction touched attempt clk now rpc_url mode registry =
     (case registry of
        None \<Rightarrow> (None, attempt rpc_url None)
      | Some R \<Rightarrow>
          (case mode of
             Failover \<Rightarrow> (case simulate_with_failover attempt clk now R of (R', r) \<Rightarrow> (Some R', r))
           | Consensus \<Rightarrow> (case simulate_with_consensus touched attempt clk now R of (R', r) \<Rightarrow> (Some R', r))))"

section \<open>The search for the least resource limits\<close>

datatype search_kind = Cpu | Ram | LedgerRead | LedgerWrite

fun search_label :: "search_kind \<Rightarrow> string" where
  "search_label Cpu = ''cpu''"
| "search_label Ram = ''ram''"
| "search_label LedgerRead = ''ledger_read''"
| "search_label LedgerWrite = ''ledger_write''"

fun estimated_value :: "search_kind \<Rightarrow> soroban_resources \<Rightarrow> nat" where
  "estimated_value Cpu r = cpu_instructions r"
| "estimated_value Ram r = ram_bytes r"
| "estimated_value LedgerRead r = ledger_read_bytes r"
| "estimated_value LedgerWrite r = ledger_write_bytes r"

definition observed_value :: "search_kind \<Rightarrow> soroban_resources \<Rightarrow> nat" where
  "observed_value k r = estimated_value k r"

fun apply_candidate :: "search_kind \<Rightarrow> nat \<Rightarrow> soroban_resources \<Rightarrow> soroban_resources" where
  "apply_candidate Cpu n r = r\<lparr>cpu_instructions := n\<rparr>"
| "apply_candidate Ram n r = r"
| "apply_candidate LedgerRead n r = r\<lparr>ledger_read_bytes := n\<rparr>"
| "apply_candidate LedgerWrite n r = r\<lparr>ledger_write_bytes := n\<rparr>"

definition cancelled_search_error :: "search_kind \<Rightarrow> simulation_error" where
  "cancelled_search_error k =
     RpcRequestFailed (''Optimization search cancelled while '' @ search_label k @ '' search was running'')"

definition is_cancelled_search_error :: "simulation_error \<Rightarrow> bool" where
  "is_cancelled_search_error e =
     (case e of RpcRequestFailed msg \<Rightarrow> starts_with ''Optimization search cancelled'' msg | _ \<Rightarrow> False)"

definition is_significant_search_failure :: "simulation_error \<Rightarrow> bool" where
  "is_significant_search_failure e =
     (case e of
        NodeTimeout \<Rightarrow> True
      | NetworkError m \<Rightarrow> True
      | RpcRequestFailed msg \<Rightarrow>
          starts_with ''HTTP error:'' msg \<or> starts_with ''Network error:'' msg
          \<or> starts_with ''Failed to parse response:'' msg \<or> starts_with ''Internal error:'' msg
          \<or> starts_with ''Method not found'' msg \<or> starts_with ''All RPC providers'' msg
          \<or> starts_with ''All providers exhausted'' msg \<or> starts_with ''Optimization search cancelled'' msg
      | _ \<Rightarrow> False)"

text \<open>\<open>simulate\<close> is the simulation under exact limits.\<close>

definition evaluate_candidate ::
    "(soroban_resources \<Rightarrow> simulation_error + 'b simulation_result_scheme) \<Rightarrow> search_kind \<Rightarrow> soroban_resources \<Rightarrow> nat
      \<Rightarrow> simulation_error + bool" where
  "evaluate_candidate simulate k base n =
     (case simulate (apply_candidate k n base) of
        Inr r \<Rightarrow> Inr (observed_value k (sim_resources r) \<le> n)
      | Inl e \<Rightarrow> if is_significant_search_failure e then Inl e else Inr False)"

text \<open>
  The bisection. \<open>cancelled i\<close> says whether the shared token is set when the \<open>i\<close>-th iteration starts, or is
  set before its simulation has answered. The bounds are \<open>u64\<close> values; \<open>mid + 1\<close> leaves that range only
  for an estimate of \<open>u64::MAX\<close>, which is excluded here.
\<close>

function bisect ::
    "(nat \<Rightarrow> simulation_error + bool) \<Rightarrow> (nat \<Rightarrow> bool) \<Rightarrow> search_kind \<Rightarrow> nat \<Rightarrow> nat \<Rightarrow> nat \<Rightarrow> nat \<Rightarrow> simulation_error + nat" where
  "bisect evaluate cancelled k i low high min_success =
     (if low \<le> high then
        if cancelled i then Inl (cancelled_search_error k)
        else
          let mid = low + (high - low) div 2 in
          case evaluate mid of
            Inr True \<Rightarrow> if mid = 0 then Inr mid else bisect evaluate cancelled k (i + 1) low (mid - 1) mid
          | Inr False \<Rightarrow> bisect evaluate cancelled k (i + 1) (mid + 1) high min_success
          | Inl e \<Rightarrow> Inl e
      else Inr min_success)"
  by auto
termination
  by (relation "measure (\<lambda>(ev, c, k, i, low, high, m). high + 1 - low)") (auto simp: less_Suc_eq_le)

declare bisect.simps [simp del]

definition binary_search_resource ::
    "(soroban_resources \<Rightarrow> simulation_error + 'b simulation_result_scheme) \<Rightarrow> (nat \<Rightarrow> bool) \<Rightarrow> search_kind \<Rightarrow> soroban_resources
      \<Rightarrow> simulation_error + nat" where
  "binary_search_resource simulate cancelled k base =
     (let high = estimated_value k base in bisect (evaluate_candidate simulate k base) cancelled k 0 0 high high)"

section \<open>The optimisation of all limits\<close>

text \<open>The outcome of a spawned search: its result, or the text of the failure of its task.\<close>

definition resolve_search_result :: "string + (simulation_error + nat) \<Rightarrow> search_kind \<Rightarrow> simulation_error + nat" where
  "resolve_search_result r k =
     (case r of
        Inr (Inr v) \<Rightarrow> Inr v
      | Inr (Inl e) \<Rightarrow> Inl e
      | Inl e \<Rightarrow> Inl (RpcRequestFailed (search_label k @ '' optimization task failed: '' @ e)))"

record 'f optimization_buffer =
  buf_estimated :: nat
  buf_absolute_minimum :: nat
  buf_percentage :: 'f

record 'f optimization_report =
  opt_cpu :: "'f optimization_buffer"
  opt_ram :: "'f optimization_buffer"
  opt_ledger_read :: "'f optimization_buffer"
  opt_ledger_write :: "'f optimization_buffer"
  opt_recommended :: soroban_resources

text \<open>\<open>percentage\<close> is the quotient of the saving in \<open>f64\<close>, \<open>zero\<close> the constant.\<close>

definition build_optimization_buffer :: "'f \<Rightarrow> (nat \<Rightarrow> nat \<Rightarrow> 'f) \<Rightarrow> nat \<Rightarrow> nat \<Rightarrow> 'f optimization_buffer" where
  "build_optimization_buffer zero percentage est least =
     \<lparr>buf_estimated = est, buf_absolute_minimum = least,
      buf_percentage = (if est = 0 then zero else percentage est least)\<rparr>"

text \<open>One \<open>match\<close> on a search result: the value, with the cancellation remembered so far.\<close>

definition settle_search ::
    "simulation_error option \<Rightarrow> simulation_error + nat \<Rightarrow> simulation_error + simulation_error option \<times> nat" where
  "settle_search cancelled_error r =
     (case r of
        Inr v \<Rightarrow> Inr (cancelled_error, v)
      | Inl e \<Rightarrow>
          if is_cancelled_search_error e
          then Inr (case cancelled_error of Some e0 \<Rightarrow> Some e0 | None \<Rightarrow> Some e, 0)
          else Inl e)"

definition ebind :: "'e + 'a \<Rightarrow> ('a \<Rightarrow> 'e + 'b) \<Rightarrow> 'e + 'b" where
  "ebind r f = (case r of Inl e \<Rightarrow> Inl e | Inr x \<Rightarrow> f x)"

text \<open>\<open>scale n\<close> is \<open>n\<close> enlarged by the safety margin in \<open>f64\<close>; \<open>joined k\<close> is the joined outcome of a search.\<close>

definition optimize_limits ::
    "'f \<Rightarrow> (nat \<Rightarrow> nat \<Rightarrow> 'f) \<Rightarrow> (nat \<Rightarrow> nat) \<Rightarrow> soroban_resources \<Rightarrow> (search_kind \<Rightarrow> string + (simulation_error + nat))
      \<Rightarrow> simulation_error + 'f optimization_report" where
  "optimize_limits zero percentage scale estimate joined =
     ebind (settle_search None (resolve_search_result (joined Cpu) Cpu)) (\<lambda>(c1, min_cpu).
     ebind (settle_search c1 (resolve_search_result (joined Ram) Ram)) (\<lambda>(c2, min_ram).
     ebind (settle_search c2 (resolve_search_result (joined LedgerRead) LedgerRead)) (\<lambda>(c3, min_read).
     ebind (settle_search c3 (resolve_search_result (joined LedgerWrite) LedgerWrite)) (\<lambda>(c4, min_write).
     case c4 of
       Some e \<Rightarrow> Inl e
     | None \<Rightarrow>
         Inr \<lparr>opt_cpu = build_optimization_buffer zero percentage (cpu_instructions estimate) min_cpu,
              opt_ram = build_optimization_buffer zero percentage (ram_bytes estimate) min_ram,
              opt_ledger_read = build_optimization_buffer zero percentage (ledger_read_bytes estimate) min_read,
              opt_ledger_write = build_optimization_buffer zero percentage (ledger_write_bytes estimate) min_write,
              opt_recommended =
                \<lparr>cpu_instructions = scale min_cpu, ram_bytes = scale min_ram, ledger_read_bytes = scale min_read,
                 ledger_write_bytes = scale min_write, transaction_size_bytes = transaction_size_bytes estimate\<rparr>\<rparr>))))"

end
