(* ===== verification/DispatchProperties.thy ===== *)
theory DispatchProperties
  imports Dispatch RegistryProperties
begin

text \<open>
  Properties of the dispatch of simulations: the failover loop against its specification, what is and
  what is not retried, the agreement that consensus mode guarantees, and the search for resource
  limits.
\<close>

section \<open>Failover\<close>

definition answer_of :: "'a attempt \<Rightarrow> rpc_provider \<Rightarrow> simulation_error + 'a" where
  "answer_of attempt p = attempt (prov_url p) (auth_of p)"

definition passes_on :: "'a attempt \<Rightarrow> rpc_provider \<Rightarrow> bool" where
  "passes_on attempt p = (case answer_of attempt p of Inl e \<Rightarrow> should_retry e | Inr r \<Rightarrow> False)"

text \<open>The providers contacted: those whose failure is passed on, and the first whose answer is final.\<close>

definition contacted :: "'a attempt \<Rightarrow> rpc_provider list \<Rightarrow> rpc_provider list" where
  "contacted attempt ps = takeWhile (passes_on attempt) ps @ take 1 (dropWhile (passes_on attempt) ps)"

definition record_answer :: "'a attempt \<Rightarrow> (string \<Rightarrow> attempt_times) \<Rightarrow> rpc_provider \<Rightarrow> registry \<Rightarrow> registry" where
  "record_answer attempt clk p R =
     (let u = prov_url p; c = clk u in
      case answer_of attempt p of
        Inr r \<Rightarrow> report_success (at_utc c) u (record_rtt (at_lock c) u (at_rtt_us c) R)
      | Inl e \<Rightarrow> report_failure (at_now c) (at_utc c) u
                  (if takes_sample e then record_rtt (at_lock c) u (at_rtt_us c) R else R))"

lemma failover_loop_spec:
  "failover_loop attempt clk ps last_error R =
     (fold (record_answer attempt clk) (contacted attempt ps) R,
      case dropWhile (passes_on attempt) ps of
        p # rest \<Rightarrow> answer_of attempt p
      | [] \<Rightarrow> if ps = [] then Inl (case last_error of Some e \<Rightarrow> e | None \<Rightarrow> RpcRequestFailed ''All providers exhausted'')
              else answer_of attempt (last ps))"
proof (induction ps arbitrary: last_error R)
  case (Cons p ps)
  show ?case
  proof (cases "passes_on attempt p")
    case True
    then obtain e where e: "attempt (prov_url p) (auth_of p) = Inl e" "should_retry e"
      by (auto simp: passes_on_def answer_of_def split: sum.splits)
    have c: "contacted attempt (p # ps) = p # contacted attempt ps" using True by (simp add: contacted_def)
    have r: "record_answer attempt clk p R = report_failure (at_now (clk (prov_url p))) (at_utc (clk (prov_url p))) (prov_url p)
        (if takes_sample e then record_rtt (at_lock (clk (prov_url p))) (prov_url p) (at_rtt_us (clk (prov_url p))) R else R)"
      by (simp add: record_answer_def answer_of_def e Let_def)
    show ?thesis
    proof (cases "ps = []")
      case True
      with e r \<open>passes_on attempt p\<close> show ?thesis by (simp add: Let_def contacted_def answer_of_def)
    next
      case False
      with e r \<open>passes_on attempt p\<close> show ?thesis by (simp add: Let_def Cons.IH c del: dropWhile_eq_Nil_conv split: list.split)
    qed
  next
    case False
    then have "contacted attempt (p # ps) = [p]" by (simp add: contacted_def)
    with False show ?thesis
      by (auto simp: passes_on_def answer_of_def record_answer_def Let_def split: sum.splits)
  qed
qed (simp add: contacted_def)

text \<open>
  C6. Failover does what it promises: with a non-empty listing it contacts the providers in the order of
  the listing up to and including the first whose answer is a result or an error that is not to be
  retried, returns exactly that answer, or the error of the last provider when all are to be retried,
  and records each contacted provider once and no other.
\<close>

theorem failover_correct:
  assumes "fst (providers_by_latency now R) = ps" "ps \<noteq> []"
  shows "simulate_with_failover attempt clk now R =
    (fold (record_answer attempt clk) (contacted attempt ps) (snd (providers_by_latency now R)),
     case dropWhile (passes_on attempt) ps of p # rest \<Rightarrow> answer_of attempt p | [] \<Rightarrow> answer_of attempt (last ps))"
  using assms by (simp add: simulate_with_failover_def failover_loop_spec case_prod_beta)

definition two_providers :: registry where
  "two_providers = registry_new
     [\<lparr>prov_name = ''a'', prov_url = ''http://a'', prov_auth_header = None, prov_auth_value = None, prov_advertise = None\<rparr>,
      \<lparr>prov_name = ''b'', prov_url = ''http://b'', prov_auth_header = None, prov_auth_value = None, prov_advertise = None\<rparr>]"

definition demo_clock :: "string \<Rightarrow> attempt_times" where
  "demo_clock u = \<lparr>at_now = 1, at_utc = 0, at_rtt_us = 5, at_lock = True\<rparr>"

lemma two_providers_listing: "map prov_url (fst (providers_by_latency 0 two_providers)) = [''http://a'', ''http://b'']"
  by (simp add: two_providers_def registry_new_def new_with_config_def seed_states_def providers_by_latency_def
      available_states_def map_states_def is_available_def is_provider_tripped_def provider_state_new_def stats_new_def
      stats_is_warmed_def registry_consts)

theorem failover_correct_witness:
  "snd (simulate_with_failover (\<lambda>u a. if u = ''http://a'' then Inl NodeTimeout else Inr (7::nat)) demo_clock 0 two_providers) = Inr 7"
proof -
  let ?attempt = "\<lambda>u a. if u = ''http://a'' then Inl NodeTimeout else Inr (7::nat)"
  let ?ps = "fst (providers_by_latency 0 two_providers)"
  obtain p q where pq: "?ps = [p, q]" "prov_url p = ''http://a''" "prov_url q = ''http://b''"
    using two_providers_listing by auto
  from failover_correct [OF pq(1), of ?attempt demo_clock] show ?thesis
    by (simp add: pq passes_on_def answer_of_def should_retry_def)
qed

section \<open>The retry of HTTP errors\<close>

definition is_digit :: "char \<Rightarrow> bool" where
  "is_digit c \<longleftrightarrow> 48 \<le> (of_char c :: nat) \<and> (of_char c :: nat) \<le> 57"

lemma digits_value_bad: "\<not> is_digit c \<Longrightarrow> digits_value (xs @ [c]) acc = None"
  by (induction xs arbitrary: acc) (auto simp: is_digit_def Let_def)

lemma parse_u16_bad:
  assumes "\<not> is_digit c"
  shows "parse_u16 (xs @ [c]) = None"
proof -
  let ?ds = "case xs @ [c] of d # ds \<Rightarrow> if d = CHR ''+'' then ds else xs @ [c] | [] \<Rightarrow> []"
  have "?ds = [] \<or> (\<exists>ys. ?ds = ys @ [c])" by (cases xs) auto
  then show ?thesis using digits_value_bad [OF assms] by (auto simp: parse_u16_def Let_def)
qed

lemma last_word_ends: "\<not> is_white c \<Longrightarrow> \<exists>w. last_word (xs @ [c]) = Some (w @ [c])"
  by (simp add: last_word_def)

lemma http_error_not_retried:
  assumes "\<not> is_white c" "\<not> is_digit c"
  shows "\<not> should_retry (RpcRequestFailed (''HTTP error: '' @ xs @ [c]))"
proof -
  obtain w where "last_word ((''HTTP error: '' @ xs) @ [c]) = Some (w @ [c])" using last_word_ends [OF assms(1)] by blast
  then have "last_word (''HTTP error: '' @ xs @ [c]) = Some (w @ [c])" by simp
  with parse_u16_bad [OF assms(2)] show ?thesis by (simp add: should_retry_def)
qed

text \<open>
  An HTTP error status never leads to a failover: the error text ends with the reason phrase of the
  status (as in \<open>503 Service Unavailable\<close>), but the retry test parses the last word of the text as the
  status code. So if the first provider of the listing answers with any HTTP error status whose phrase
  does not end in a digit, 429 and 5xx included, its error is returned and no other provider is asked.
\<close>

theorem failover_stops_at_http_status:
  assumes "fst (providers_by_latency now R) = p # rest"
    and "attempt (prov_url p) (auth_of p) = Inl (RpcRequestFailed (''HTTP error: '' @ code @ '' '' @ reason))"
    and "reason \<noteq> []" "\<not> is_white (last reason)" "\<not> is_digit (last reason)"
  shows "snd (simulate_with_failover attempt clk now R) = Inl (RpcRequestFailed (''HTTP error: '' @ code @ '' '' @ reason))"
proof -
  have "reason = butlast reason @ [last reason]" using assms(3) by simp
  then have "''HTTP error: '' @ code @ '' '' @ reason = ''HTTP error: '' @ (code @ '' '' @ butlast reason) @ [last reason]"
    by (metis append_assoc)
  then have "\<not> should_retry (RpcRequestFailed (''HTTP error: '' @ code @ '' '' @ reason))"
    using http_error_not_retried [OF assms(4,5)] by metis
  with assms(1,2) show ?thesis
    by (simp add: simulate_with_failover_def case_prod_beta Let_def)
qed

theorem failover_stops_at_http_status_witness:
  "snd (simulate_with_failover
     (\<lambda>u a. if u = ''http://a'' then Inl (RpcRequestFailed (''HTTP error: '' @ ''503'' @ '' '' @ ''Service Unavailable'')) else Inr (7::nat))
     demo_clock 0 two_providers) = Inl (RpcRequestFailed (''HTTP error: '' @ ''503'' @ '' '' @ ''Service Unavailable''))"
proof -
  obtain p q where pq: "fst (providers_by_latency 0 two_providers) = [p, q]" "prov_url p = ''http://a''"
    using two_providers_listing by auto
  show ?thesis
    by (rule failover_stops_at_http_status [OF pq(1)]) (simp_all add: pq(2) is_white_def is_digit_def)
qed

section \<open>A rejected request counts against the provider\<close>

definition rejecting :: "string \<Rightarrow> simulation_result attempt" where
  "rejecting m u a = Inl (NodeError m)"

definition failover_at :: "'a attempt \<Rightarrow> nat \<Rightarrow> registry \<Rightarrow> registry" where
  "failover_at attempt t R = fst (simulate_with_failover attempt (\<lambda>u. (demo_clock u)\<lparr>at_now := t\<rparr>) t R)"

text \<open>A registry with one provider, as far as its breaker is concerned.\<close>

definition one_provider :: "rpc_provider \<Rightarrow> nat \<Rightarrow> int \<Rightarrow> nat option \<Rightarrow> registry \<Rightarrow> bool" where
  "one_provider p n score tripped R \<longleftrightarrow> (\<exists>st. reg_states R = [(prov_url p, st)] \<and> ps_provider st = p
     \<and> ps_consecutive_failures st = n \<and> ps_local_score st = score \<and> ps_tripped_at st = tripped)"

lemma one_provider_new: "one_provider p 0 70 None (registry_new [p])"
  by (simp add: one_provider_def registry_new_def new_with_config_def seed_states_def provider_state_new_def registry_consts)

lemma one_provider_listing:
  assumes "one_provider p n score None R" "n < 3"
  shows "fst (providers_by_latency t R) = [p]" "one_provider p n score None (snd (providers_by_latency t R))"
  using assms
  by (auto simp: one_provider_def providers_by_latency_def available_states_def map_states_def is_available_def
      is_provider_tripped_def registry_consts)

lemma one_provider_sample: "one_provider p n score tr R \<Longrightarrow> one_provider p n score tr (record_rtt l (prov_url p) rtt R)"
  by (auto simp: one_provider_def record_rtt_def with_state_def)

lemma one_provider_failure:
  "one_provider p n score tr R \<Longrightarrow>
     one_provider p (n + 1) (max 0 (min 100 (score - 25))) (if n + 1 \<ge> 3 then Some now else tr) (report_failure now utc (prov_url p) R)"
  by (auto simp: one_provider_def report_failure_def with_state_def on_failure_def adjust_score_def clamp_score_def
      registry_consts Let_def)

lemma rejected_once:
  assumes "one_provider p n score None R" "n < 3"
  shows "one_provider p (n + 1) (max 0 (min 100 (score - 25))) (if n + 1 \<ge> 3 then Some t else None) (failover_at (rejecting m) t R)"
  using one_provider_failure [OF one_provider_sample [OF one_provider_listing(2) [OF assms]]] one_provider_listing(1) [OF assms]
  by (simp add: failover_at_def simulate_with_failover_def case_prod_beta rejecting_def should_retry_def takes_sample_def
      demo_clock_def Let_def del: One_nat_def add_Suc_right)

text \<open>
  Requests that a node rejects as invalid are not retried, as they should, but each counts as a
  failure of the node: three of them in a row make a new registry with one provider refuse every
  request from then on, however long it waits, although the node has answered all of them.
\<close>

theorem rejected_requests_disable_provider:
  "snd (simulate_with_failover attempt clk now
     (failover_at (rejecting m) t3 (failover_at (rejecting m) t2 (failover_at (rejecting m) t1 (registry_new [p])))))
   = Inl (RpcRequestFailed ''All RPC providers are unavailable (circuit breaker tripped)'')"
proof -
  let ?R3 = "failover_at (rejecting m) t3 (failover_at (rejecting m) t2 (failover_at (rejecting m) t1 (registry_new [p])))"
  have "one_provider p 1 45 None (failover_at (rejecting m) t1 (registry_new [p]))"
    using rejected_once [OF one_provider_new, where t = t1 and m = m] by simp
  then have "one_provider p 2 20 None (failover_at (rejecting m) t2 (failover_at (rejecting m) t1 (registry_new [p])))"
    using rejected_once [where p = p and n = 1 and score = 45 and t = t2 and m = m] by (simp add: numeral_2_eq_2)
  then have "one_provider p 3 0 (Some t3) ?R3"
    using rejected_once [where p = p and n = 2 and score = 20 and t = t3 and m = m] by (simp add: numeral_3_eq_3 numeral_2_eq_2)
  then have "fst (providers_by_latency now ?R3) = []"
    by (auto simp: one_provider_def providers_by_latency_def available_states_def is_available_def is_provider_tripped_def
        registry_consts Let_def split: if_splits)
  then show ?thesis by (simp add: simulate_with_failover_def case_prod_beta)
qed

section \<open>Consensus\<close>

lemma report_results_all_ok:
  "report_results clk answers R = (R', successes, []) \<Longrightarrow>
     map fst successes = map fst answers \<and> map (Inr \<circ> snd) successes = map snd answers"
proof (induction answers arbitrary: R successes)
  case (Cons a answers)
  obtain p r where a: "a = (p, r)" by fastforce
  with Cons.prems obtain x where x: "r = Inr x" by (cases r) (auto simp: case_prod_beta Let_def)
  from Cons.prems a x obtain ss where ss: "successes = (p, x) # ss"
      "report_results clk answers (report_success (at_utc (clk (prov_url p))) (prov_url p) R) = (R', ss, [])"
    by (auto simp: Let_def split: prod.splits)
  with Cons.IH [OF ss(2)] a x show ?case by simp
qed simp

lemma distinct_healthy:
  assumes "registry_ok R"
  shows "distinct (map prov_url (fst (healthy_providers now R)))"
proof -
  have "map prov_url (fst (healthy_providers now R)) = map fst (filter (\<lambda>(u, st). fst (is_available now st)) (reg_states R))"
    using assms
    by (auto simp: healthy_providers_def available_states_def registry_ok_def table_ok_def provider_ok_def list_all_iff)
  with assms show ?thesis by (simp add: registry_ok_def table_ok_def distinct_map_filter)
qed

lemma three_elements: "length xs = 3 \<Longrightarrow> \<exists>p q s. xs = [p, q, s]"
  by (auto simp: numeral_3_eq_3 length_Suc_conv)

text \<open>
  C7. Consensus mode only accepts what three nodes agree on: whenever it returns a result, the first
  three providers of the listing have three different URLs, all of them answered with a result, the
  returned one is that of the first, and the three results have equal resources and touched keys.
\<close>

theorem consensus_agreement:
  assumes "registry_ok R" "snd (simulate_with_consensus touched attempt clk now R) = Inr r"
  shows "\<exists>p q s r2 r3. take 3 (fst (healthy_providers now R)) = [p, q, s] \<and> distinct [prov_url p, prov_url q, prov_url s]
    \<and> answer_of attempt p = Inr r \<and> answer_of attempt q = Inr r2 \<and> answer_of attempt s = Inr r3
    \<and> consensus_fingerprint_of touched r2 = consensus_fingerprint_of touched r
    \<and> consensus_fingerprint_of touched r3 = consensus_fingerprint_of touched r"
proof -
  let ?ps = "take 3 (fst (healthy_providers now R))"
  let ?answers = "map (\<lambda>p. (p, attempt (prov_url p) (auth_of p))) ?ps"
  have len: "length ?ps = 3" using assms(2) by (auto simp: simulate_with_consensus_def case_prod_beta Let_def split: if_splits)
  then obtain p q s where ps: "?ps = [p, q, s]" using three_elements by blast
  obtain R1 ss fs where rr: "report_results clk ?answers (snd (healthy_providers now R)) = (R1, ss, fs)" by (rule prod_cases3)
  have fs: "fs = []" and ds: "divergences touched ss = []" and r: "r = snd (hd ss)"
    using assms(2) len rr by (auto simp: simulate_with_consensus_def case_prod_beta Let_def split: if_splits)
  from report_results_all_ok [OF rr [unfolded fs]] ps obtain x2 x3 where
    x: "ss = [(p, r), (q, x2), (s, x3)]" "answer_of attempt p = Inr r" "answer_of attempt q = Inr x2" "answer_of attempt s = Inr x3"
    using r by (auto simp: map_eq_Cons_conv answer_of_def)
  have "consensus_fingerprint_of touched x2 = consensus_fingerprint_of touched r"
    "consensus_fingerprint_of touched x3 = consensus_fingerprint_of touched r"
    using ds by (auto simp: divergences_def x(1) Let_def split: if_splits)
  moreover have "distinct (map prov_url ?ps)"
    using distinct_healthy [OF assms(1), of now] by (simp flip: take_map)
  ultimately show ?thesis using x ps by auto
qed

definition three_providers :: registry where
  "three_providers = registry_new (map (\<lambda>n. \<lparr>prov_name = n, prov_url = ''http://'' @ n, prov_auth_header = None,
     prov_auth_value = None, prov_advertise = None\<rparr>) [''a'', ''b'', ''c''])"

definition demo_result :: simulation_result where
  "demo_result = \<lparr>sim_resources = \<lparr>cpu_instructions = 1, ram_bytes = 2, ledger_read_bytes = 3, ledger_write_bytes = 4,
     transaction_size_bytes = 5\<rparr>, sim_transaction_hash = None, sim_latest_ledger = 6, sim_cost_stroops = 7, sim_transaction_data = ''x''\<rparr>"

theorem consensus_agreement_witness:
  "\<exists>p q s. take 3 (fst (healthy_providers 0 three_providers)) = [p, q, s] \<and> distinct [prov_url p, prov_url q, prov_url s]"
proof -
  have ok: "registry_ok three_providers" unfolding three_providers_def registry_new_def by (rule ok_new)
  have "snd (simulate_with_consensus (\<lambda>d. [d]) (\<lambda>u a. Inr demo_result) demo_clock 0 three_providers) = Inr demo_result"
    by code_simp
  from consensus_agreement [OF ok this] show ?thesis by blast
qed

section \<open>The search for the least limit\<close>

lemma bisect_least:
  assumes "high + 1 - low < 2 ^ n" "\<And>j. i \<le> j \<Longrightarrow> j < i + n \<Longrightarrow> \<not> cancelled j"
    and "\<And>x. x \<le> high \<Longrightarrow> evaluate x = Inr (P x)" "\<And>x y. x \<le> y \<Longrightarrow> P x \<Longrightarrow> P y"
    and "\<And>x. x < low \<Longrightarrow> \<not> P x" "P m" "m \<le> high + 1"
  shows "\<exists>r. bisect evaluate cancelled k i low high m = Inr r \<and> P r \<and> (\<forall>x<r. \<not> P x)"
  using assms
proof (induction n arbitrary: i low high m)
  case 0
  then have "high < low" by simp
  moreover have "\<not> P x" if "x < m" for x using 0(5)[of x] 0(7) that \<open>high < low\<close> by linarith
  ultimately show ?case using 0(6) by (auto simp: bisect.simps [of _ _ _ _ low])
next
  case (Suc n)
  note c = Suc.prems(2) and ev = Suc.prems(3) and mono = Suc.prems(4) and below = Suc.prems(5)
  show ?case
  proof (cases "low \<le> high")
    case False
    then have "\<not> P x" if "x < m" for x using below [of x] Suc.prems(7) that by linarith
    with False Suc.prems(6) show ?thesis by (auto simp: bisect.simps [of _ _ _ _ low])
  next
    case True
    define mid where "mid = low + (high - low) div 2"
    have mid: "low \<le> mid" "mid \<le> high" using True by (auto simp: mid_def)
    have small: "mid - low < 2 ^ n" "high - mid < 2 ^ n"
      using Suc.prems(1) True by (auto simp: mid_def)
    have step: "bisect evaluate cancelled k i low high m =
        (if P mid then if mid = 0 then Inr mid else bisect evaluate cancelled k (i + 1) low (mid - 1) mid
         else bisect evaluate cancelled k (i + 1) (mid + 1) high m)"
      using True c [of i] ev [OF mid(2)] by (subst bisect.simps, unfold Let_def, fold mid_def) simp
    have c': "\<not> cancelled j" if "i + 1 \<le> j" "j < i + 1 + n" for j using c [of j] that by simp
    show ?thesis
    proof (cases "P mid")
      case True
      show ?thesis
      proof (cases "mid = 0")
        case False
        have "\<exists>r. bisect evaluate cancelled k (i + 1) low (mid - 1) mid = Inr r \<and> P r \<and> (\<forall>x<r. \<not> P x)"
          by (rule Suc.IH) (use small(1) c' ev mono below True False mid in auto)
        with step True False show ?thesis by simp
      qed (use step True in auto)
    next
      case False
      have "\<not> P x" if "x < mid + 1" for x using mono [of x mid] that False by auto
      then have "\<exists>r. bisect evaluate cancelled k (i + 1) (mid + 1) high m = Inr r \<and> P r \<and> (\<forall>x<r. \<not> P x)"
        by (intro Suc.IH) (use small(2) c' ev mono Suc.prems(6,7) in auto)
      with step False show ?thesis by simp
    qed
  qed
qed


definition demo_simulate :: "soroban_resources \<Rightarrow> simulation_error + simulation_result" where
  "demo_simulate r =
     (if 3 \<le> ledger_read_bytes r then Inr (demo_result\<lparr>sim_resources := r\<lparr>ledger_read_bytes := 3\<rparr>\<rparr>)
      else Inl (NodeError ''resource limit exceeded''))"


text \<open>The hypothesis on the estimate is needed: the search reports an estimate that never succeeds as the minimum.\<close>

lemma search_reports_unverified:
  assumes "\<And>n. n \<le> estimated_value k base \<Longrightarrow> evaluate_candidate simulate k base n = Inr False" "\<And>i. \<not> cancelled i"
  shows "binary_search_resource simulate cancelled k base = Inr (estimated_value k base)"
proof -
  have "bisect (evaluate_candidate simulate k base) cancelled k i low high m = Inr m"
    if "high \<le> estimated_value k base" for i low high m
    using that
  proof (induction "high + 1 - low" arbitrary: i low rule: less_induct)
    case less
    show ?case
    proof (cases "low \<le> high")
      case True
      let ?mid = "low + (high - low) div 2"
      have m: "?mid \<le> high" "high + 1 - (?mid + 1) < high + 1 - low" using True by auto
      have "bisect (evaluate_candidate simulate k base) cancelled k (i + 1) (?mid + 1) high m = Inr m"
        by (rule less.hyps [OF m(2) less.prems])
      with True assms(1) [of ?mid] assms(2) m less.prems show ?thesis by (subst bisect.simps) (simp add: Let_def)
    qed (simp add: bisect.simps [of _ _ _ _ low])
  qed
  then show ?thesis by (simp add: binary_search_resource_def)
qed

section \<open>The cause of a failed optimisation\<close>

definition search_errors :: "(simulation_error \<Rightarrow> bool) \<Rightarrow> (simulation_error + nat) list \<Rightarrow> simulation_error list" where
  "search_errors Q rs = filter Q (concat (map (\<lambda>r. case r of Inl e \<Rightarrow> [e] | Inr v \<Rightarrow> []) rs))"

lemma ebind_simps [simp]: "ebind (Inl e) f = Inl e" "ebind (Inr x) f = f x"
  by (simp_all add: ebind_def)

lemma settle_simps:
  "settle_search c (Inr v) = Inr (c, v)"
  "\<not> is_cancelled_search_error e \<Longrightarrow> settle_search c (Inl e) = Inl e"
  "is_cancelled_search_error e \<Longrightarrow> settle_search c (Inl e) = Inr (case c of Some e0 \<Rightarrow> Some e0 | None \<Rightarrow> Some e, 0)"
  by (simp_all add: settle_search_def)

text \<open>An optimisation reports the first genuine error of the four searches, and a cancellation, which one search
  causes in the others, only when there is no genuine error.\<close>

lemma optimize_reports_cause:
  assumes "rs = map (\<lambda>k. resolve_search_result (joined k) k) [Cpu, Ram, LedgerRead, LedgerWrite]"
  shows "case optimize_limits zero percentage scale estimate joined of
      Inl e \<Rightarrow> (case search_errors (\<lambda>e. \<not> is_cancelled_search_error e) rs of
                  g # gs \<Rightarrow> e = g
                | [] \<Rightarrow> \<exists>cs. search_errors is_cancelled_search_error rs = e # cs)
    | Inr report \<Rightarrow> search_errors (\<lambda>e. True) rs = []"
  using assms
  by (cases "resolve_search_result (joined Cpu) Cpu"; cases "resolve_search_result (joined Ram) Ram";
      cases "resolve_search_result (joined LedgerRead) LedgerRead"; cases "resolve_search_result (joined LedgerWrite) LedgerWrite")
     (auto simp: optimize_limits_def search_errors_def settle_search_def)

end
