(* ===== verification/Staking.thy ===== *)
theory Staking
  imports FixedMath EmergencyGuard TokenInterface
begin

unbundle bit_operations_syntax

text \<open>
  The staking contract \<open>contracts/staking_rewards/src/lib.rs\<close>: stakes of one token that earn rewards in
  another (or the same), compounded with a rate that decays from epoch to epoch. It embeds the emergency guard and computes with
  the fixed-point library; its private copy of \<open>mul_div\<close> is the text of the library's. The token contracts are
  the parameter \<open>xfer\<close> with its world; \<open>claim_bit\<close> stands for \<open>PauseType::CLAIM_REWARDS\<close>, which the
  guard crate does not define. Ledger numbers and epochs are \<open>u32\<close> values, kept in their range by explicit
  tests.
\<close>

section \<open>Data\<close>

record staking_config =
  sc_owner :: address
  sc_staking_token :: address
  sc_reward_token :: address
  sc_initial_rate :: int
  sc_epoch_decay_percent :: int
  sc_epoch_length :: int
  sc_start_block :: int
  sc_is_paused :: bool

record epoch_snapshot =
  es_rate :: int
  es_start_block :: int

record user_staking_state =
  staked_amount :: int
  accrued_rewards :: int
  last_update_block :: int

datatype staking_event =
    StakeEvent address int
  | WithdrawEvent address int
  | ClaimEvent address int
  | EmergencyWithdrawEvent address int
  | PausedEvent string bool

record staking =
  sr_guard :: guard
  sr_config :: "staking_config option"
  sr_user_state :: "address \<rightharpoonup> user_staking_state"
  sr_total_staked :: "int option"
  sr_epoch_snapshot :: "int \<rightharpoonup> epoch_snapshot"
  sr_penalty_fee_bps :: "int option"
  sr_events :: "staking_event list"

definition empty_staking :: staking where
  "empty_staking = \<lparr>sr_guard = empty_guard, sr_config = None, sr_user_state = Map.empty, sr_total_staked = None,
     sr_epoch_snapshot = Map.empty, sr_penalty_fee_bps = None, sr_events = []\<rparr>"

type_synonym 'a sr_res = "(contract_error, 'a) res"

definition emit_sr :: "staking_event \<Rightarrow> staking \<Rightarrow> staking" where
  "emit_sr ev s = s\<lparr>sr_events := sr_events s @ [ev]\<rparr>"

section \<open>Helper mathematics\<close>

text \<open>The square-and-multiply loop.\<close>

fun fixed_pow_loop :: "int \<Rightarrow> nat \<Rightarrow> int \<Rightarrow> int sr_res" where
  "fixed_pow_loop temp exponent ans =
     (if exponent > 0 then
        rbind (if exponent mod 2 = 1 then map_err (\<lambda>_. contract_error.Overflow) (fx_mul ans temp) else Inr ans) (\<lambda>ans'.
        rbind (map_err (\<lambda>_. contract_error.Overflow) (fx_mul temp temp)) (\<lambda>temp'.
        fixed_pow_loop temp' (exponent div 2) ans'))
      else Inr ans)"

declare fixed_pow_loop.simps [simp del]

definition fixed_pow_int :: "int \<Rightarrow> nat \<Rightarrow> int sr_res" where
  "fixed_pow_int base exponent = fixed_pow_loop base exponent SCALE"

definition multiply_amount :: "int \<Rightarrow> int \<Rightarrow> int sr_res" where
  "multiply_amount amount multiplier = ok_or contract_error.Overflow (mul_div amount multiplier SCALE)"

definition compute_reward_index :: "int \<Rightarrow> int \<Rightarrow> int \<Rightarrow> int sr_res" where
  "compute_reward_index staked accrued multiplier =
     (if staked \<le> 0 \<or> accrued < 0 then Inl (Err InvalidAmount)
      else
        rbind (ok_or contract_error.Overflow (checked I128 (staked + accrued))) (\<lambda>v_old.
        rbind (multiply_amount v_old multiplier) (\<lambda>v_new.
        ok_or InvalidAmount (checked I128 (v_new - staked)))))"

section \<open>Epochs\<close>

definition epoch_for_block :: "int \<Rightarrow> int \<Rightarrow> int \<Rightarrow> int sr_res" where
  "epoch_for_block start_block epoch_length block =
     (if block \<le> start_block then Inr 0 else quot U32 (block - start_block) epoch_length)"

definition epoch_start_block :: "env \<Rightarrow> int \<Rightarrow> int \<Rightarrow> int \<Rightarrow> int sr_res" where
  "epoch_start_block E start_block epoch_length epoch =
     rbind (fit E U32 (epoch * epoch_length)) (\<lambda>off. fit E U32 (start_block + off))"

definition compute_epoch_rate :: "int \<Rightarrow> int \<Rightarrow> int \<Rightarrow> int sr_res" where
  "compute_epoch_rate initial_rate epoch_decay_percent epoch =
     (if epoch = 0 then Inr initial_rate
      else
        rbind (map_err (\<lambda>_. contract_error.Overflow) (fx_sub SCALE epoch_decay_percent)) (\<lambda>base.
        if base < 0 \<or> base > SCALE then Inl (Err InvalidInput)
        else
          rbind (fixed_pow_int base (nat epoch)) (\<lambda>decay_factor.
          map_err (\<lambda>_. contract_error.Overflow) (fx_mul initial_rate decay_factor))))"

text \<open>The loop of \<open>ensure_epoch_snapshots\<close>; the snapshots it has stored stay stored when it fails.\<close>

fun snapshot_loop ::
    "env \<Rightarrow> staking_config \<Rightarrow> int list \<Rightarrow> (int \<rightharpoonup> epoch_snapshot) \<Rightarrow> (int \<rightharpoonup> epoch_snapshot) \<times> unit sr_res" where
  "snapshot_loop E c [] m = (m, Inr ())"
| "snapshot_loop E c (epoch # epochs) m =
     (if m epoch \<noteq> None then snapshot_loop E c epochs m
      else
        case rbind (compute_epoch_rate (sc_initial_rate c) (sc_epoch_decay_percent c) epoch) (\<lambda>rate.
             rbind (epoch_start_block E (sc_start_block c) (sc_epoch_length c) epoch) (\<lambda>start.
             Inr \<lparr>es_rate = rate, es_start_block = start\<rparr>)) of
          Inl f \<Rightarrow> (m, Inl f)
        | Inr snapshot \<Rightarrow> snapshot_loop E c epochs (m(epoch \<mapsto> snapshot)))"

definition ensure_epoch_snapshots :: "env \<Rightarrow> staking_config \<Rightarrow> int \<Rightarrow> staking \<Rightarrow> staking \<times> unit sr_res" where
  "ensure_epoch_snapshots E c up_to_block s =
     (case epoch_for_block (sc_start_block c) (sc_epoch_length c) up_to_block of
        Inl f \<Rightarrow> (s, Inl f)
      | Inr up_to_epoch \<Rightarrow>
          let (m, r) = snapshot_loop E c [0..up_to_epoch] (sr_epoch_snapshot s) in (s\<lparr>sr_epoch_snapshot := m\<rparr>, r))"

definition get_epoch_rate :: "staking \<Rightarrow> int \<Rightarrow> int sr_res" where
  "get_epoch_rate s epoch =
     rbind (ok_or contract_error.NotInitialized (sr_epoch_snapshot s epoch)) (\<lambda>snapshot. Inr (es_rate snapshot))"

section \<open>The compounding multiplier\<close>

fun multiplier_loop :: "env \<Rightarrow> staking_config \<Rightarrow> staking \<Rightarrow> int \<Rightarrow> int \<Rightarrow> int list \<Rightarrow> int \<Rightarrow> int sr_res" where
  "multiplier_loop E c s t1_eff t2_eff [] mult = Inr mult"
| "multiplier_loop E c s t1_eff t2_eff (epoch # epochs) mult =
     rbind (get_epoch_rate s epoch) (\<lambda>rate.
     rbind (epoch_start_block E (sc_start_block c) (sc_epoch_length c) epoch) (\<lambda>epoch_start.
     rbind (fit E U32 (epoch_start + sc_epoch_length c)) (\<lambda>epoch_end.
     let overlap_start = max t1_eff epoch_start; overlap_end = min t2_eff epoch_end in
     if overlap_end > overlap_start then
       rbind (map_err (\<lambda>_. contract_error.Overflow) (fx_from_int (overlap_end - overlap_start))) (\<lambda>blocks_fixed.
       rbind (map_err (\<lambda>_. contract_error.Overflow) (fx_mul rate blocks_fixed)) (\<lambda>exponent.
       rbind (map_err (\<lambda>_. contract_error.Overflow) (fx_exp exponent)) (\<lambda>factor.
       rbind (map_err (\<lambda>_. contract_error.Overflow) (fx_mul mult factor)) (\<lambda>mult'.
       multiplier_loop E c s t1_eff t2_eff epochs mult'))))
     else multiplier_loop E c s t1_eff t2_eff epochs mult)))"

definition calculate_multiplier :: "env \<Rightarrow> staking_config \<Rightarrow> int \<Rightarrow> int \<Rightarrow> staking \<Rightarrow> staking \<times> int sr_res" where
  "calculate_multiplier E c t1 t2 s =
     (if t2 \<le> t1 then (s, Inr SCALE)
      else
        let t_start = sc_start_block c; t1_eff = max t1 t_start; t2_eff = max t2 t_start in
        if t2_eff \<le> t1_eff then (s, Inr SCALE)
        else
          let (s', r) = ensure_epoch_snapshots E c t2_eff s in
          (s', rbind r (\<lambda>_.
               rbind (epoch_for_block t_start (sc_epoch_length c) t1_eff) (\<lambda>e1.
               rbind (epoch_for_block t_start (sc_epoch_length c) t2_eff) (\<lambda>e2.
               multiplier_loop E c s' t1_eff t2_eff [e1..e2] SCALE)))))"

section \<open>The accrual of rewards\<close>

definition sr_get_config :: "staking \<Rightarrow> staking_config sr_res" where
  "sr_get_config s = ok_or contract_error.NotInitialized (sr_config s)"

definition update_user_rewards_internal ::
    "env \<Rightarrow> staking_config \<Rightarrow> address \<Rightarrow> staking \<Rightarrow> (staking \<times> user_staking_state) sr_res" where
  "update_user_rewards_internal E c user s =
     (let t_curr = ledger_seq E;
          state = (case sr_user_state s user of
                     Some st \<Rightarrow> st
                   | None \<Rightarrow> \<lparr>staked_amount = 0, accrued_rewards = 0, last_update_block = max t_curr (sc_start_block c)\<rparr>) in
      rbind (if staked_amount state > 0 \<and> t_curr > last_update_block state then
               let (s', r) = calculate_multiplier E c (last_update_block state) t_curr s in
               rbind r (\<lambda>multiplier.
               rbind (compute_reward_index (staked_amount state) (accrued_rewards state) multiplier) (\<lambda>rewards.
               Inr (s', state\<lparr>accrued_rewards := rewards\<rparr>)))
             else Inr (s, state)) (\<lambda>(s', state').
      Inr (s', state'\<lparr>last_update_block := max t_curr (sc_start_block c)\<rparr>)))"

section \<open>Entry points\<close>

definition sr_initialize ::
    "staking \<Rightarrow> address \<Rightarrow> address \<Rightarrow> address \<Rightarrow> int \<Rightarrow> int \<Rightarrow> int \<Rightarrow> int \<Rightarrow> staking sr_res" where
  "sr_initialize s owner staking_token reward_token initial_rate epoch_decay_percent epoch_length start_block =
     (if sr_config s \<noteq> None then Inl (Err contract_error.AlreadyInitialized)
      else if epoch_decay_percent < 0 \<or> epoch_decay_percent > SCALE then Inl (Err InvalidInput)
      else if epoch_length = 0 then Inl (Err InvalidInput)
      else if initial_rate < 0 then Inl (Err InvalidInput)
      else
        let config = \<lparr>sc_owner = owner, sc_staking_token = staking_token, sc_reward_token = reward_token,
              sc_initial_rate = initial_rate, sc_epoch_decay_percent = epoch_decay_percent,
              sc_epoch_length = epoch_length, sc_start_block = start_block, sc_is_paused = False\<rparr> in
        rbind (compute_epoch_rate initial_rate epoch_decay_percent 0) (\<lambda>rate0.
        let s1 = s\<lparr>sr_epoch_snapshot := (sr_epoch_snapshot s)(0 \<mapsto> \<lparr>es_rate = rate0, es_start_block = start_block\<rparr>),
                   sr_config := Some config, sr_total_staked := Some 0\<rparr> in
        rbind (map_err (\<lambda>_. contract_error.AlreadyInitialized) (guard_initialize (sr_guard s1) [owner] 1)) (\<lambda>g.
        Inr (s1\<lparr>sr_guard := g\<rparr>))))"

definition sr_total :: "staking \<Rightarrow> int" where
  "sr_total s = (case sr_total_staked s of Some n \<Rightarrow> n | None \<Rightarrow> 0)"

definition sr_stake :: "'w token_xfer \<Rightarrow> env \<Rightarrow> staking \<times> 'w \<Rightarrow> address \<Rightarrow> int \<Rightarrow> (staking \<times> 'w) sr_res" where
  "sr_stake xfer E sw user amount =
     (let s = fst sw; w = snd sw in
      rbind (map_err (\<lambda>_. contract_error.Paused) (dguard_check_not_paused (sr_guard s) STAKE)) (\<lambda>_.
      if amount \<le> 0 then Inl (Err InvalidInput)
      else
        rbind (require_auth E user) (\<lambda>_.
        rbind (sr_get_config s) (\<lambda>config.
        rbind (update_user_rewards_internal E config user s) (\<lambda>(s1, state).
        rbind (call (xfer E (sc_staking_token config) user (this_contract E) amount w)) (\<lambda>w'.
        rbind (ok_or contract_error.Overflow (checked I128 (staked_amount state + amount))) (\<lambda>new_stake.
        rbind (ok_or contract_error.Overflow (checked I128 (sr_total s1 + amount))) (\<lambda>new_total.
        Inr (emit_sr (StakeEvent user amount)
               (s1\<lparr>sr_total_staked := Some new_total,
                   sr_user_state := (sr_user_state s1)(user \<mapsto> state\<lparr>staked_amount := new_stake\<rparr>)\<rparr>), w')))))))))"

definition sr_withdraw :: "'w token_xfer \<Rightarrow> env \<Rightarrow> staking \<times> 'w \<Rightarrow> address \<Rightarrow> int \<Rightarrow> (staking \<times> 'w) sr_res" where
  "sr_withdraw xfer E sw user amount =
     (let s = fst sw; w = snd sw in
      rbind (map_err (\<lambda>_. contract_error.Paused) (dguard_check_not_paused (sr_guard s) STAKE)) (\<lambda>_.
      if amount \<le> 0 then Inl (Err InvalidInput)
      else
        rbind (require_auth E user) (\<lambda>_.
        rbind (sr_get_config s) (\<lambda>config.
        rbind (update_user_rewards_internal E config user s) (\<lambda>(s1, state).
        if staked_amount state < amount then Inl (Err contract_error.InsufficientBalance)
        else
          rbind (ok_or contract_error.Overflow (checked I128 (staked_amount state - amount))) (\<lambda>new_stake.
          rbind (ok_or contract_error.Overflow (checked I128 (sr_total s1 - amount))) (\<lambda>new_total.
          let state' = state\<lparr>staked_amount := new_stake\<rparr>;
              users' = (if new_stake = 0 \<and> accrued_rewards state = 0 then (sr_user_state s1)(user := None)
                        else (sr_user_state s1)(user \<mapsto> state')) in
          rbind (call (xfer E (sc_staking_token config) (this_contract E) user amount w)) (\<lambda>w'.
          Inr (emit_sr (WithdrawEvent user amount)
                 (s1\<lparr>sr_total_staked := Some new_total, sr_user_state := users'\<rparr>), w')))))))))"

definition sr_claim :: "u32 \<Rightarrow> 'w token_xfer \<Rightarrow> env \<Rightarrow> staking \<times> 'w \<Rightarrow> address \<Rightarrow> ((staking \<times> 'w) \<times> int) sr_res" where
  "sr_claim claim_bit xfer E sw user =
     (let s = fst sw; w = snd sw in
      rbind (map_err (\<lambda>_. contract_error.Paused) (dguard_check_not_paused (sr_guard s) STAKE)) (\<lambda>_.
      if guard_is_paused (sr_guard s) claim_bit then Inl (Err contract_error.Paused)
      else
        rbind (require_auth E user) (\<lambda>_.
        rbind (sr_get_config s) (\<lambda>config.
        rbind (update_user_rewards_internal E config user s) (\<lambda>(s1, state).
        let reward_amount = accrued_rewards state in
        if reward_amount \<le> 0 then Inr ((s1, w), 0)
        else
          let state' = state\<lparr>accrued_rewards := 0\<rparr>;
              users' = (if staked_amount state = 0 then (sr_user_state s1)(user := None)
                        else (sr_user_state s1)(user \<mapsto> state')) in
          rbind (call (xfer E (sc_reward_token config) (this_contract E) user reward_amount w)) (\<lambda>w'.
          Inr ((emit_sr (ClaimEvent user reward_amount) (s1\<lparr>sr_user_state := users'\<rparr>), w'), reward_amount)))))))"

definition sr_get_penalty_fee :: "staking \<Rightarrow> int" where
  "sr_get_penalty_fee s = (case sr_penalty_fee_bps s of Some f \<Rightarrow> f | None \<Rightarrow> 0)"

definition sr_penalty :: "env \<Rightarrow> int \<Rightarrow> int \<Rightarrow> int sr_res" where
  "sr_penalty E staked fee_bps =
     rbind (fit E U128 (staked * fee_bps)) (\<lambda>product. Inr (wrap I128 (product div 10000)))"

definition sr_emergency_withdraw :: "'w token_xfer \<Rightarrow> env \<Rightarrow> staking \<times> 'w \<Rightarrow> address \<Rightarrow> ((staking \<times> 'w) \<times> int) sr_res" where
  "sr_emergency_withdraw xfer E sw user =
     (let s = fst sw; w = snd sw in
      rbind (require_auth E user) (\<lambda>_.
      rbind (sr_get_config s) (\<lambda>config.
      case sr_user_state s user of
        None \<Rightarrow> Inr (sw, 0)
      | Some state \<Rightarrow>
          let staked = staked_amount state in
          rbind (ok_or contract_error.Overflow (checked I128 (sr_total s - staked))) (\<lambda>new_total.
          let s1 = s\<lparr>sr_total_staked := Some new_total\<rparr> in
          if staked \<le> 0 then Inr ((s1, w), 0)
          else
            rbind (sr_penalty E staked (sr_get_penalty_fee s1)) (\<lambda>penalty.
            rbind (fit E I128 (staked - penalty)) (\<lambda>payout.
            let s2 = s1\<lparr>sr_user_state := (sr_user_state s1)(user := None)\<rparr> in
            rbind (if payout > 0 then call (xfer E (sc_staking_token config) (this_contract E) user payout w) else Inr w) (\<lambda>w'.
            Inr ((emit_sr (EmergencyWithdrawEvent user payout) s2, w'), payout)))))))) "

definition sr_set_penalty_fee :: "env \<Rightarrow> staking \<Rightarrow> int \<Rightarrow> staking sr_res" where
  "sr_set_penalty_fee E s fee_bps =
     rbind (sr_get_config s) (\<lambda>config.
     rbind (require_auth E (sc_owner config)) (\<lambda>_.
     if fee_bps > 10000 then Inl (Err InvalidInput)
     else Inr (s\<lparr>sr_penalty_fee_bps := Some fee_bps\<rparr>)))"

section \<open>The guard\<close>

definition sr_on_guard :: "staking \<Rightarrow> (guard_error, guard) res \<Rightarrow> staking sr_res" where
  "sr_on_guard s r = rbind (map_err (\<lambda>_. contract_error.Paused) r) (\<lambda>g. Inr (s\<lparr>sr_guard := g\<rparr>))"

definition sr_pause_staking :: "env \<Rightarrow> staking \<Rightarrow> staking sr_res" where
  "sr_pause_staking E s =
     rbind (sr_get_config s) (\<lambda>config.
     rbind (require_auth E (sc_owner config)) (\<lambda>_.
     rbind (sr_on_guard s (dguard_set_pause_state (sr_guard s) STAKE True)) (\<lambda>s'.
     Inr (emit_sr (PausedEvent ''pause_staking'' True) s'))))"

definition sr_resume_staking :: "env \<Rightarrow> staking \<Rightarrow> staking sr_res" where
  "sr_resume_staking E s =
     rbind (sr_get_config s) (\<lambda>config.
     rbind (require_auth E (sc_owner config)) (\<lambda>_.
     rbind (sr_on_guard s (dguard_set_pause_state (sr_guard s) STAKE False)) (\<lambda>s'.
     Inr (emit_sr (PausedEvent ''resume_staking'' False) s'))))"

definition sr_emergency_pause_all :: "env \<Rightarrow> staking \<Rightarrow> address list \<Rightarrow> staking sr_res" where
  "sr_emergency_pause_all E s approvers =
     rbind (sr_on_guard s (dguard_emergency_pause_all E (sr_guard s) approvers)) (\<lambda>s'.
     Inr (emit_sr (PausedEvent ''emergency_pause_all'' True) s'))"

definition sr_resume_all :: "env \<Rightarrow> staking \<Rightarrow> address list \<Rightarrow> staking sr_res" where
  "sr_resume_all E s approvers =
     rbind (sr_on_guard s (dguard_resume_all E (sr_guard s) approvers)) (\<lambda>s'.
     Inr (emit_sr (PausedEvent ''resume_all'' False) s'))"

definition sr_get_pause_state :: "staking \<Rightarrow> u32" where
  "sr_get_pause_state s = dguard_get_pause_state (sr_guard s)"

definition sr_is_staking_paused :: "staking \<Rightarrow> bool" where
  "sr_is_staking_paused s = pt_is_paused (dguard_get_pause_state (sr_guard s)) STAKE"

definition sr_get_admins :: "staking \<Rightarrow> address list" where
  "sr_get_admins s = guard_get_admins (sr_guard s)"

definition sr_get_threshold :: "staking \<Rightarrow> nat" where
  "sr_get_threshold s = guard_get_threshold (sr_guard s)"

definition sr_add_admin :: "env \<Rightarrow> staking \<Rightarrow> address list \<Rightarrow> address \<Rightarrow> staking sr_res" where
  "sr_add_admin E s approvers new_admin = sr_on_guard s (dguard_add_admin E (sr_guard s) approvers new_admin)"

definition sr_remove_admin :: "env \<Rightarrow> staking \<Rightarrow> address list \<Rightarrow> address \<Rightarrow> staking sr_res" where
  "sr_remove_admin E s approvers admin = sr_on_guard s (dguard_remove_admin E (sr_guard s) approvers admin)"

definition sr_rotate_admin :: "env \<Rightarrow> staking \<Rightarrow> address list \<Rightarrow> address \<Rightarrow> address \<Rightarrow> staking sr_res" where
  "sr_rotate_admin E s approvers old_admin new_admin =
     sr_on_guard s (dguard_rotate_admin E (sr_guard s) approvers old_admin new_admin)"

definition sr_set_claim_rewards_paused :: "u32 \<Rightarrow> env \<Rightarrow> staking \<Rightarrow> bool \<Rightarrow> staking sr_res" where
  "sr_set_claim_rewards_paused claim_bit E s paused =
     rbind (sr_get_config s) (\<lambda>config.
     sr_on_guard s (guard_set_pause E (sr_guard s) (sc_owner config) claim_bit paused))"

section \<open>Views\<close>

definition sr_get_staked_balance :: "staking \<Rightarrow> address \<Rightarrow> int" where
  "sr_get_staked_balance s user = (case sr_user_state s user of Some st \<Rightarrow> staked_amount st | None \<Rightarrow> 0)"

definition sr_get_accrued_rewards :: "staking \<Rightarrow> address \<Rightarrow> int" where
  "sr_get_accrued_rewards s user = (case sr_user_state s user of Some st \<Rightarrow> accrued_rewards st | None \<Rightarrow> 0)"

text \<open>The view stores the snapshots it makes, also when it falls back to the stored rewards; a panic on the way traps.\<close>

definition sr_get_pending_rewards :: "env \<Rightarrow> staking \<Rightarrow> address \<Rightarrow> (staking \<times> int) sr_res" where
  "sr_get_pending_rewards E s user =
     (case sr_config s of
        None \<Rightarrow> Inr (s, 0)
      | Some config \<Rightarrow>
          (case sr_user_state s user of
             None \<Rightarrow> Inr (s, 0)
           | Some state \<Rightarrow>
               let t_curr = ledger_seq E in
               if staked_amount state > 0 \<and> t_curr > last_update_block state then
                 let (s', r) = calculate_multiplier E config (last_update_block state) t_curr s in
                 (case rbind r (compute_reward_index (staked_amount state) (accrued_rewards state)) of
                    Inr r_new \<Rightarrow> Inr (s', r_new)
                  | Inl (Err e) \<Rightarrow> Inr (s', accrued_rewards state)
                  | Inl (Panic p) \<Rightarrow> Inl (Panic p))
               else Inr (s, accrued_rewards state)))"

end
