(* ===== verification/StakingProperties.thy ===== *)
theory StakingProperties
  imports Staking FixedMathProperties Token
begin

text \<open>
  Properties of the staking contract: the recorded total is the sum of the stakes, the principal is
  backed by tokens, and rewards never fall while the exponents of an epoch stay moderate; beyond that
  the wrapping exponential can lock a stake.
\<close>

section \<open>Operations\<close>

datatype staking_op =
    SInitialize address address address int int int int
  | SStake address int
  | SWithdraw address int
  | SClaim address
  | SEmergencyWithdraw address
  | SSetPenaltyFee int
  | SPauseStaking
  | SResumeStaking
  | SEmergencyPauseAll "address list"
  | SResumeAll "address list"
  | SAddAdmin "address list" address
  | SRemoveAdmin "address list" address
  | SRotateAdmin "address list" address address
  | SSetClaimsPaused bool
  | SPendingRewards address

text \<open>A call that does not touch tokens.\<close>

definition quiet_call :: "'w \<Rightarrow> staking sr_res \<Rightarrow> ((staking \<times> 'w) \<times> int) sr_res" where
  "quiet_call w r = rbind r (\<lambda>s. Inr ((s, w), 0))"

fun sr_exec :: "u32 \<Rightarrow> 'w token_xfer \<Rightarrow> env \<Rightarrow> staking \<times> 'w \<Rightarrow> staking_op \<Rightarrow> ((staking \<times> 'w) \<times> int) sr_res" where
  "sr_exec cb xfer E (s, w) (SInitialize ow st rt r0 dec len start) = quiet_call w (sr_initialize s ow st rt r0 dec len start)"
| "sr_exec cb xfer E sw (SStake u n) = rbind (sr_stake xfer E sw u n) (\<lambda>sw. Inr (sw, 0))"
| "sr_exec cb xfer E sw (SWithdraw u n) = rbind (sr_withdraw xfer E sw u n) (\<lambda>sw. Inr (sw, 0))"
| "sr_exec cb xfer E sw (SClaim u) = sr_claim cb xfer E sw u"
| "sr_exec cb xfer E sw (SEmergencyWithdraw u) = sr_emergency_withdraw xfer E sw u"
| "sr_exec cb xfer E (s, w) (SSetPenaltyFee f) = quiet_call w (sr_set_penalty_fee E s f)"
| "sr_exec cb xfer E (s, w) SPauseStaking = quiet_call w (sr_pause_staking E s)"
| "sr_exec cb xfer E (s, w) SResumeStaking = quiet_call w (sr_resume_staking E s)"
| "sr_exec cb xfer E (s, w) (SEmergencyPauseAll as) = quiet_call w (sr_emergency_pause_all E s as)"
| "sr_exec cb xfer E (s, w) (SResumeAll as) = quiet_call w (sr_resume_all E s as)"
| "sr_exec cb xfer E (s, w) (SAddAdmin as a) = quiet_call w (sr_add_admin E s as a)"
| "sr_exec cb xfer E (s, w) (SRemoveAdmin as a) = quiet_call w (sr_remove_admin E s as a)"
| "sr_exec cb xfer E (s, w) (SRotateAdmin as a b) = quiet_call w (sr_rotate_admin E s as a b)"
| "sr_exec cb xfer E (s, w) (SSetClaimsPaused p) = quiet_call w (sr_set_claim_rewards_paused cb E s p)"
| "sr_exec cb xfer E (s, w) (SPendingRewards u) = rbind (sr_get_pending_rewards E s u) (\<lambda>(s', n). Inr ((s', w), n))"

section \<open>What the helpers change\<close>

text \<open>The part of the state that accrual does not touch.\<close>

definition core_of :: "staking \<Rightarrow> staking_config option \<times> (address \<rightharpoonup> user_staking_state) \<times> int option \<times> int option" where
  "core_of s = (sr_config s, sr_user_state s, sr_total_staked s, sr_penalty_fee_bps s)"

lemma core_of_simps [simp]:
  "core_of (s\<lparr>sr_epoch_snapshot := m\<rparr>) = core_of s"
  "core_of (s\<lparr>sr_guard := g\<rparr>) = core_of s"
  "core_of (emit_sr ev s) = core_of s"
  by (simp_all add: core_of_def emit_sr_def)

lemma core_of_eqD:
  "core_of s' = core_of s \<Longrightarrow> sr_config s' = sr_config s \<and> sr_user_state s' = sr_user_state s
    \<and> sr_total_staked s' = sr_total_staked s \<and> sr_penalty_fee_bps s' = sr_penalty_fee_bps s"
  by (simp add: core_of_def)

lemma ensure_core: "core_of (fst (ensure_epoch_snapshots E c b s)) = core_of s"
  by (simp add: ensure_epoch_snapshots_def Let_def case_prod_beta split: sum.splits)

lemma multiplier_core: "core_of (fst (calculate_multiplier E c t1 t2 s)) = core_of s"
  using ensure_core by (simp add: calculate_multiplier_def Let_def case_prod_beta)

abbreviation stake_of :: "staking \<Rightarrow> address \<Rightarrow> int" where
  "stake_of \<equiv> sr_get_staked_balance"

lemmas stake_of_def = sr_get_staked_balance_def

lemma update_core:
  assumes "update_user_rewards_internal E c u s = Inr (s1, st)"
  shows "core_of s1 = core_of s \<and> staked_amount st = stake_of s u"
  using assms multiplier_core [of E c _ _ s]
  by (auto simp: update_user_rewards_internal_def stake_of_def Let_def case_prod_beta split: if_splits option.splits)

lemma pending_core: "sr_get_pending_rewards E s u = Inr (s', n) \<Longrightarrow> core_of s' = core_of s"
  using multiplier_core [of E _ _ _ s]
  by (auto simp: sr_get_pending_rewards_def Let_def case_prod_beta split: option.splits if_splits sum.splits fault.splits)

lemma on_guard_core: "sr_on_guard s r = Inr s' \<Longrightarrow> core_of s' = core_of s"
  by (auto simp: sr_on_guard_def)

section \<open>The effect of the calls on the stakes\<close>

definition stakes :: "staking \<Rightarrow> address \<rightharpoonup> int" where
  "stakes s = (\<lambda>u. map_option staked_amount (sr_user_state s u))"

lemma get_stakes: "get_or (stakes s) u 0 = stake_of s u"
  by (simp add: stakes_def get_or_def stake_of_def split: option.splits)

lemma dom_stakes [simp]: "dom (stakes s) = dom (sr_user_state s)"
  by (auto simp: stakes_def)

text \<open>A staked balance that changes, or a record that is removed.\<close>

definition set_user :: "address \<Rightarrow> user_staking_state option \<Rightarrow> staking \<Rightarrow> staking" where
  "set_user u st s = s\<lparr>sr_user_state := (sr_user_state s)(u := st)\<rparr>"

definition stake_in :: "user_staking_state option \<Rightarrow> int" where
  "stake_in st = (case st of Some x \<Rightarrow> staked_amount x | None \<Rightarrow> 0)"

definition staking_inv :: "staking \<Rightarrow> bool" where
  "staking_inv s \<longleftrightarrow> finite (dom (sr_user_state s)) \<and> (\<forall>u. 0 \<le> stake_of s u)
     \<and> sr_total s = map_sum (stakes s) \<and> (sr_config s = None \<longrightarrow> sr_user_state s = Map.empty)
     \<and> 0 \<le> sr_get_penalty_fee s \<and> sr_get_penalty_fee s \<le> 10000"

lemma staking_inv_core: "core_of s' = core_of s \<Longrightarrow> staking_inv s \<Longrightarrow> staking_inv s'"
  by (simp add: core_of_def staking_inv_def stake_of_def sr_total_def stakes_def sr_get_penalty_fee_def)

lemma map_sum_remove:
  assumes "finite (dom m)"
  shows "map_sum (m(k := None)) = map_sum m - get_or m k (0::int)"
  using map_sum_upd [of "m(k := None)" k "get_or m k 0"] map_sum_upd [OF assms, of k "get_or m k 0"] assms
  by (simp add: get_or_del)

lemma stakes_set_user:
  assumes "finite (dom (sr_user_state s))"
  shows "map_sum (stakes (set_user u st s)) = map_sum (stakes s) - stake_of s u + stake_in st"
proof (cases st)
  case None
  then have "stakes (set_user u st s) = (stakes s)(u := None)" by (auto simp: stakes_def set_user_def)
  with None map_sum_remove [of "stakes s" u] assms show ?thesis by (simp add: get_stakes stake_in_def)
next
  case (Some x)
  then have "stakes (set_user u st s) = (stakes s)(u \<mapsto> staked_amount x)" by (auto simp: stakes_def set_user_def)
  with Some map_sum_upd [of "stakes s" u] assms show ?thesis by (simp add: get_stakes stake_in_def)
qed

text \<open>Every call that changes a stake replaces the record of one user and moves the total with it.\<close>

definition stake_change :: "address \<Rightarrow> int \<Rightarrow> staking \<Rightarrow> staking \<Rightarrow> bool" where
  "stake_change u d s s' \<longleftrightarrow> sr_config s' = sr_config s \<and> sr_config s \<noteq> None
     \<and> (\<exists>st. sr_user_state s' = (sr_user_state s)(u := st) \<and> stake_in st = stake_of s u + d)
     \<and> sr_total s' = sr_total s + d \<and> sr_penalty_fee_bps s' = sr_penalty_fee_bps s"

lemma stake_change_inv:
  assumes inv: "staking_inv s" and c: "stake_change u d s s'" and nonneg: "0 \<le> stake_of s u + d"
  shows "staking_inv s'"
proof -
  from c obtain st where e: "sr_config s' = sr_config s" "sr_config s \<noteq> None" "sr_user_state s' = (sr_user_state s)(u := st)"
    "stake_in st = stake_of s u + d" "sr_total s' = sr_total s + d" "sr_penalty_fee_bps s' = sr_penalty_fee_bps s"
    by (auto simp: stake_change_def)
  have fin: "finite (dom (sr_user_state s))" using inv by (simp add: staking_inv_def)
  have "stakes s' = stakes (set_user u st s)" by (simp add: stakes_def set_user_def e(3))
  then have "sr_total s' = map_sum (stakes s')"
    using stakes_set_user [OF fin, of u st] inv e(4,5) by (simp add: staking_inv_def)
  moreover have "stake_of s' v = (if v = u then stake_of s u + d else stake_of s v)" for v
    using e(4) by (simp add: stake_of_def stake_in_def e(3))
  moreover have "finite (dom (sr_user_state s'))" using fin by (cases st) (simp_all add: e(3))
  ultimately show ?thesis
    using inv nonneg e(2) by (auto simp: staking_inv_def e(1) sr_get_penalty_fee_def e(6))
qed

section \<open>What a completed call does\<close>

lemma stake_changeI:
  assumes "core_of s1 = core_of s" "sr_config s = Some c" "core_of s' = core_of ((set_user u st s1)\<lparr>sr_total_staked := t\<rparr>)"
    "stake_in st = stake_of s u + d" "(case t of Some n \<Rightarrow> n | None \<Rightarrow> 0) = sr_total s + d"
  shows "stake_change u d s s'"
  using assms by (auto simp: stake_change_def core_of_def set_user_def sr_total_def)

lemma stake_Inr:
  assumes "sr_stake xfer E (s, w) u n = Inr (s', w')"
  shows "\<exists>config. sr_config s = Some config \<and> 0 < n \<and> u \<in> set (auths E) \<and> stake_change u n s s'
     \<and> xfer E (sc_staking_token config) u (this_contract E) n w = Some w'"
proof -
  from assms obtain config s1 st where a: "0 < n" "u \<in> set (auths E)" "sr_config s = Some config"
    "update_user_rewards_internal E config u s = Inr (s1, st)"
    "xfer E (sc_staking_token config) u (this_contract E) n w = Some w'"
    "s' = emit_sr (StakeEvent u n) (s1\<lparr>sr_total_staked := Some (sr_total s1 + n),
       sr_user_state := (sr_user_state s1)(u \<mapsto> st\<lparr>staked_amount := staked_amount st + n\<rparr>)\<rparr>)"
    by (auto simp: sr_stake_def sr_get_config_def call_def split: option.splits)
  from update_core [OF a(4)] have c: "core_of s1 = core_of s" "staked_amount st = stake_of s u" by auto
  have "stake_change u n s s'"
    by (rule stake_changeI [OF c(1) a(3), where st = "Some (st\<lparr>staked_amount := staked_amount st + n\<rparr>)" and t = "Some (sr_total s1 + n)"])
      (use c a in \<open>auto simp: core_of_def emit_sr_def set_user_def stake_in_def sr_total_def\<close>)
  with a show ?thesis by blast
qed

lemma withdraw_Inr:
  assumes "sr_withdraw xfer E (s, w) u n = Inr (s', w')"
  shows "\<exists>config. sr_config s = Some config \<and> 0 < n \<and> n \<le> stake_of s u \<and> u \<in> set (auths E) \<and> stake_change u (- n) s s'
     \<and> xfer E (sc_staking_token config) (this_contract E) u n w = Some w'"
proof -
  from assms obtain config s1 st where a: "0 < n" "u \<in> set (auths E)" "sr_config s = Some config"
    "update_user_rewards_internal E config u s = Inr (s1, st)" "n \<le> staked_amount st"
    "xfer E (sc_staking_token config) (this_contract E) u n w = Some w'"
    "s' = emit_sr (WithdrawEvent u n) (s1\<lparr>sr_total_staked := Some (sr_total s1 - n),
       sr_user_state := (if staked_amount st - n = 0 \<and> accrued_rewards st = 0 then (sr_user_state s1)(u := None)
          else (sr_user_state s1)(u \<mapsto> st\<lparr>staked_amount := staked_amount st - n\<rparr>))\<rparr>)"
    by (auto simp: sr_withdraw_def sr_get_config_def call_def Let_def split: option.splits if_splits)
  from update_core [OF a(4)] have c: "core_of s1 = core_of s" "staked_amount st = stake_of s u" by auto
  have "stake_change u (- n) s s'"
    by (rule stake_changeI [OF c(1) a(3), where t = "Some (sr_total s1 - n)" and
          st = "if staked_amount st - n = 0 \<and> accrued_rewards st = 0 then None else Some (st\<lparr>staked_amount := staked_amount st - n\<rparr>)"])
      (use c a in \<open>auto simp: core_of_def emit_sr_def set_user_def stake_in_def sr_total_def\<close>)
  with a c show ?thesis by auto
qed

lemma claim_Inr:
  assumes "sr_claim cb xfer E (s, w) u = Inr ((s', w'), v)"
  shows "\<exists>config. sr_config s = Some config \<and> u \<in> set (auths E) \<and> (core_of s' = core_of s \<and> w' = w \<and> v = 0
     \<or> 0 < v \<and> stake_change u 0 s s' \<and> xfer E (sc_reward_token config) (this_contract E) u v w = Some w')"
proof -
  from assms obtain config s1 st where a: "u \<in> set (auths E)" "sr_config s = Some config"
    "update_user_rewards_internal E config u s = Inr (s1, st)"
    "accrued_rewards st \<le> 0 \<and> s' = s1 \<and> w' = w \<and> v = 0 \<or> 0 < accrued_rewards st \<and> v = accrued_rewards st
     \<and> xfer E (sc_reward_token config) (this_contract E) u v w = Some w'
     \<and> s' = emit_sr (ClaimEvent u v) (s1\<lparr>sr_user_state := (if staked_amount st = 0 then (sr_user_state s1)(u := None)
          else (sr_user_state s1)(u \<mapsto> st\<lparr>accrued_rewards := 0\<rparr>))\<rparr>)"
    by (auto simp: sr_claim_def sr_get_config_def call_def Let_def split: option.splits if_splits)
  from update_core [OF a(3)] have c: "core_of s1 = core_of s" "staked_amount st = stake_of s u" by auto
  from a(4) show ?thesis
  proof (elim disjE conjE)
    assume "s' = s1" "w' = w" "v = 0"
    with a(1,2) c show ?thesis by auto
  next
    assume p: "0 < accrued_rewards st" "v = accrued_rewards st" "xfer E (sc_reward_token config) (this_contract E) u v w = Some w'"
      "s' = emit_sr (ClaimEvent u v) (s1\<lparr>sr_user_state := (if staked_amount st = 0 then (sr_user_state s1)(u := None)
          else (sr_user_state s1)(u \<mapsto> st\<lparr>accrued_rewards := 0\<rparr>))\<rparr>)"
    have "stake_change u 0 s s'"
      by (rule stake_changeI [OF c(1) a(2), where t = "sr_total_staked s1" and
            st = "if staked_amount st = 0 then None else Some (st\<lparr>accrued_rewards := 0\<rparr>)"])
        (use c p in \<open>auto simp: core_of_def emit_sr_def set_user_def stake_in_def sr_total_def\<close>)
    with a p show ?thesis by auto
  qed
qed

lemma sr_penalty_Inr:
  assumes "overflow_checks E" "sr_penalty E n fee = Inr p" "0 \<le> n" "0 \<le> fee" "fee \<le> 10000"
  shows "p = n * fee div 10000 \<and> 0 \<le> p \<and> p \<le> n"
proof -
  have r: "in_range U128 (n * fee)" "p = wrap I128 (n * fee div 10000)"
    using assms(1,2) by (auto simp: sr_penalty_def)
  have pos: "0 \<le> n * fee div 10000" using assms by (intro div_nonneg_int) simp_all
  have "n * fee div 10000 \<le> (2 ^ 128 - 1) div 10000" using r(1) by (intro zdiv_mono1) (auto simp: in_range_def)
  with pos have "in_range I128 (n * fee div 10000)" by (simp add: in_range_def)
  with r(2) have p: "p = n * fee div 10000" by (simp add: wrap_id)
  have "n * fee div 10000 \<le> n * 10000 div 10000" using assms by (intro zdiv_mono1 mult_left_mono) auto
  with p pos show ?thesis by simp
qed

lemma emergency_Inr:
  assumes run: "sr_emergency_withdraw xfer E (s, w) u = Inr ((s', w'), v)" and E: "overflow_checks E" and inv: "staking_inv s"
  shows "\<exists>config. sr_config s = Some config \<and> u \<in> set (auths E)
     \<and> (w' = w \<and> v = 0 \<and> (s' = s \<or> stake_change u 0 s s')
       \<or> 0 < stake_of s u \<and> sr_user_state s' u = None \<and> stake_change u (- stake_of s u) s s'
         \<and> v = stake_of s u - stake_of s u * sr_get_penalty_fee s div 10000 \<and> 0 \<le> v \<and> v \<le> stake_of s u
         \<and> (if 0 < v then xfer E (sc_staking_token config) (this_contract E) u v w = Some w' else w' = w))"
proof (cases "sr_user_state s u")
  case None
  with run show ?thesis by (auto simp: sr_emergency_withdraw_def sr_get_config_def)
next
  case (Some st)
  then have st: "stake_of s u = staked_amount st" by (simp add: stake_of_def)
  from inv have nonneg: "0 \<le> stake_of s u" and fee: "0 \<le> sr_get_penalty_fee s" "sr_get_penalty_fee s \<le> 10000"
    by (auto simp: staking_inv_def)
  let ?s1 = "s\<lparr>sr_total_staked := Some (sr_total s - staked_amount st)\<rparr>"
  have fee1: "sr_get_penalty_fee ?s1 = sr_get_penalty_fee s" by (simp add: sr_get_penalty_fee_def)
  from run Some obtain config where c: "u \<in> set (auths E)" "sr_config s = Some config"
    by (auto simp: sr_emergency_withdraw_def sr_get_config_def)
  show ?thesis
  proof (cases "staked_amount st \<le> 0")
    case True
    with run Some c have "s' = ?s1" "w' = w" "v = 0" by (auto simp: sr_emergency_withdraw_def sr_get_config_def Let_def)
    moreover from this True nonneg st Some c have "stake_change u 0 s s'"
      by (auto simp: stake_change_def sr_total_def stake_in_def fun_upd_idem intro!: exI [of _ "Some st"])
    ultimately show ?thesis using c by blast
  next
    case False
    with run Some c fee1 obtain p where p: "sr_penalty E (staked_amount st) (sr_get_penalty_fee s) = Inr p"
      "v = staked_amount st - p"
      "(if 0 < v then call (xfer E (sc_staking_token config) (this_contract E) u v w) else Inr w) = (Inr w' :: 'a sr_res)"
      "s' = emit_sr (EmergencyWithdrawEvent u v) (?s1\<lparr>sr_user_state := (sr_user_state s)(u := None)\<rparr>)"
      using E by (auto simp: sr_emergency_withdraw_def sr_get_config_def Let_def)
    from sr_penalty_Inr [OF E p(1)] nonneg st fee have pv: "p = staked_amount st * sr_get_penalty_fee s div 10000"
      "0 \<le> p" "p \<le> staked_amount st" by auto
    have "stake_change u (- stake_of s u) s s'" using p(4) c st
      by (auto simp: stake_change_def emit_sr_def sr_total_def stake_in_def intro!: exI [of _ None])
    moreover have "sr_user_state s' u = None" by (simp add: p(4) emit_sr_def)
    moreover have "if 0 < v then xfer E (sc_staking_token config) (this_contract E) u v w = Some w' else w' = w"
      using p(3) by (auto simp: call_def split: if_splits option.splits)
    ultimately show ?thesis using c False st p(2) pv by auto
  qed
qed

lemma initialize_Inr:
  assumes "sr_initialize s ow st rt r0 dec len start = Inr s'"
  shows "sr_config s = None \<and> sr_user_state s' = sr_user_state s \<and> sr_total s' = 0
     \<and> sr_penalty_fee_bps s' = sr_penalty_fee_bps s \<and> sr_events s' = sr_events s
     \<and> sr_epoch_snapshot s' = (sr_epoch_snapshot s)(0 \<mapsto> \<lparr>es_rate = r0, es_start_block = start\<rparr>)
     \<and> 0 \<le> dec \<and> dec \<le> SCALE \<and> len \<noteq> 0 \<and> 0 \<le> r0
     \<and> sr_config s' = Some \<lparr>sc_owner = ow, sc_staking_token = st, sc_reward_token = rt, sc_initial_rate = r0,
          sc_epoch_decay_percent = dec, sc_epoch_length = len, sc_start_block = start, sc_is_paused = False\<rparr>"
  using assms by (auto simp: sr_initialize_def compute_epoch_rate_def Let_def sr_total_def split: if_splits)

lemma set_penalty_Inr:
  "sr_set_penalty_fee E s f = Inr s' \<longleftrightarrow> (\<exists>c. sr_config s = Some c \<and> sc_owner c \<in> set (auths E) \<and> f \<le> 10000
     \<and> s' = s\<lparr>sr_penalty_fee_bps := Some f\<rparr>)"
  by (auto simp: sr_set_penalty_fee_def sr_get_config_def)

text \<open>The calls that only touch the guard, the events or the snapshots.\<close>

fun accounting_op :: "staking_op \<Rightarrow> bool" where
  "accounting_op (SInitialize ow st rt r0 dec len start) = True"
| "accounting_op (SStake u n) = True"
| "accounting_op (SWithdraw u n) = True"
| "accounting_op (SClaim u) = True"
| "accounting_op (SEmergencyWithdraw u) = True"
| "accounting_op (SSetPenaltyFee f) = True"
| "accounting_op _ = False"

lemma quiet_core:
  assumes "sr_exec cb xfer E (s, w) c = Inr ((s', w'), v)" "\<not> accounting_op c"
  shows "core_of s' = core_of s \<and> w' = w"
  using assms by (cases c)
    (auto simp: quiet_call_def sr_pause_staking_def sr_resume_staking_def sr_emergency_pause_all_def sr_resume_all_def
      sr_add_admin_def sr_remove_admin_def sr_rotate_admin_def sr_set_claim_rewards_paused_def
      dest!: on_guard_core pending_core)

section \<open>The recorded total\<close>

text \<open>The build checks overflow and the fee is a \<open>u32\<close>.\<close>

definition staking_args :: "env \<Rightarrow> staking_op \<Rightarrow> bool" where
  "staking_args E c \<longleftrightarrow> overflow_checks E \<and> (case c of SSetPenaltyFee f \<Rightarrow> 0 \<le> f | _ \<Rightarrow> True)"

lemma staking_inv_exec:
  assumes run: "sr_exec cb xfer E (s, w) c = Inr ((s', w'), v)" and inv: "staking_inv s" and c: "staking_args E c"
  shows "staking_inv s'"
proof (cases "accounting_op c")
  case False
  with quiet_core [OF run] inv staking_inv_core show ?thesis by blast
next
  case True
  from inv have nonneg: "0 \<le> stake_of s u" for u by (simp add: staking_inv_def)
  have same: "stake_change u 0 s s' \<Longrightarrow> staking_inv s'" for u
    by (rule stake_change_inv [OF inv]) (use nonneg in auto)
  show ?thesis
  proof (cases c)
    case (SInitialize ow st rt r0 dec len start)
    with run have "sr_initialize s ow st rt r0 dec len start = Inr s'" by (auto simp: quiet_call_def)
    from initialize_Inr [OF this] inv show ?thesis
      by (auto simp: staking_inv_def stake_of_def stakes_def sr_get_penalty_fee_def)
  next
    case (SStake u n)
    with run have "sr_stake xfer E (s, w) u n = Inr (s', w')" by auto
    from stake_Inr [OF this] nonneg [of u] show ?thesis by (auto intro!: stake_change_inv [OF inv])
  next
    case (SWithdraw u n)
    with run have "sr_withdraw xfer E (s, w) u n = Inr (s', w')" by auto
    from withdraw_Inr [OF this] show ?thesis by (auto intro!: stake_change_inv [OF inv])
  next
    case (SClaim u)
    with run have "sr_claim cb xfer E (s, w) u = Inr ((s', w'), v)" by auto
    from claim_Inr [OF this] same staking_inv_core inv show ?thesis by blast
  next
    case (SEmergencyWithdraw u)
    with run have r: "sr_emergency_withdraw xfer E (s, w) u = Inr ((s', w'), v)" by auto
    have E: "overflow_checks E" using c by (simp add: staking_args_def)
    have "stake_change u (- stake_of s u) s s' \<Longrightarrow> staking_inv s'" by (rule stake_change_inv [OF inv]) auto
    with emergency_Inr [OF r E inv] same inv show ?thesis by blast
  next
    case (SSetPenaltyFee f)
    with run c have "sr_set_penalty_fee E s f = Inr s'" "0 \<le> f" by (auto simp: quiet_call_def staking_args_def)
    with inv show ?thesis
      by (auto simp: set_penalty_Inr staking_inv_def stake_of_def stakes_def sr_total_def sr_get_penalty_fee_def)
  qed (use True in auto)
qed

interpretation staking_accounts: contract_machine "sr_exec cb xfer" staking_args "\<lambda>sw. staking_inv (fst sw)" for cb xfer
  by unfold_locales (metis prod.collapse staking_inv_exec)

lemma staking_inv_empty: "staking_inv empty_staking"
  by (simp add: staking_inv_def empty_staking_def stake_of_def stakes_def sr_total_def sr_get_penalty_fee_def)

text \<open>
  An example: 1000 staking tokens (701) at user 5 and 300 at user 6, 5000 reward tokens (702) at the contract; 0.1\% a
  block, decaying by a tenth every 100 blocks.
\<close>

definition staking_world :: tokens where
  "staking_world = [701 \<mapsto> empty_token\<lparr>tk_balances := [5 \<mapsto> 1000, 6 \<mapsto> 300]\<rparr>, 702 \<mapsto> empty_token\<lparr>tk_balances := [0 \<mapsto> 5000]\<rparr>]"

definition at_block :: "int \<Rightarrow> address list \<Rightarrow> env" where
  "at_block b as = (env0 as)\<lparr>ledger_seq := b\<rparr>"

definition staking_setup :: "env \<times> staking_op" where
  "staking_setup = (at_block 100 [], SInitialize 9 701 702 (SCALE div 1000) (SCALE div 10) 100 100)"

definition staking_demo :: "(env \<times> staking_op) list" where
  "staking_demo = [(at_block 110 [5], SStake 5 600), (at_block 120 [6], SStake 6 200), (at_block 130 [6], SWithdraw 6 50),
     (at_block 140 [9], SSetPenaltyFee 1000), (at_block 150 [9], SPauseStaking), (at_block 160 [6], SEmergencyWithdraw 6),
     (at_block 170 [9], SResumeStaking), (at_block 250 [5], SClaim 5), (at_block 260 [5], SWithdraw 5 100)]"

definition staking_demo_end :: "staking \<times> tokens" where
  "staking_demo_end = run_calls (sr_exec 32 client_transfer) (staking_setup # staking_demo) (empty_staking, staking_world)"

definition staking_figures :: "staking \<times> tokens \<Rightarrow> int list" where
  "staking_figures sw = [sr_total (fst sw), sr_get_staked_balance (fst sw) 5, sr_get_accrued_rewards (fst sw) 5,
     client_balance 701 0 (snd sw), client_balance 701 5 (snd sw), client_balance 701 6 (snd sw), client_balance 702 5 (snd sw)]"

lemma staking_demo_figures: "staking_figures staking_demo_end = [500, 500, 5, 515, 500, 285, 86]"
  by code_simp

text \<open>
  The recorded total is the sum of the stakes: after any calls from an empty contract, whatever the token contracts
  do, the total equals the sum of the users' stakes and no stake is negative.
\<close>

theorem staking_total_is_sum:
  assumes "\<forall>c \<in> set cs. staking_args (fst c) (snd c)"
    and "(s, w) = run_calls (sr_exec claim_bit xfer) cs (empty_staking, w0)"
  shows "sr_total s = (\<Sum>u \<in> dom (sr_user_state s). sr_get_staked_balance s u) \<and> 0 \<le> sr_get_staked_balance s u"
proof -
  have "staking_inv (fst (empty_staking, w0))" by (simp add: staking_inv_empty)
  from staking_accounts.run_inv [where xfer = xfer and cb = claim_bit, OF this assms(1)] assms(2) have "staking_inv s"
    by (metis fst_conv)
  then show ?thesis by (simp add: staking_inv_def map_sum_def get_stakes)
qed

theorem staking_total_is_sum_witness:
  "sr_total (fst staking_demo_end) = (\<Sum>u \<in> dom (sr_user_state (fst staking_demo_end)). sr_get_staked_balance (fst staking_demo_end) u)
   \<and> sr_total (fst staking_demo_end) = 500"
proof -
  have calls: "\<forall>c \<in> set (staking_setup # staking_demo). staking_args (fst c) (snd c)"
    by (simp add: staking_setup_def staking_demo_def staking_args_def at_block_def env0_def)
  have "(fst staking_demo_end, snd staking_demo_end)
      = run_calls (sr_exec 32 client_transfer) (staking_setup # staking_demo) (empty_staking, staking_world)"
    by (simp add: staking_demo_end_def)
  from staking_total_is_sum [OF calls this] staking_demo_figures show ?thesis by (simp add: staking_figures_def)
qed

section \<open>The principal is backed\<close>

text \<open>Calls a stranger can make: the contract signs nothing outside its own calls.\<close>

definition staking_call :: "address \<Rightarrow> env \<Rightarrow> staking_op \<Rightarrow> bool" where
  "staking_call here E c \<longleftrightarrow> staking_args E c \<and> this_contract E = here \<and> here \<notin> set (auths E)"

context token_ledger
begin

lemma sr_exec_backed:
  assumes run: "sr_exec cb xfer E (s, w) c = Inr ((s', w'), v)" and c: "staking_call here E c" and inv: "staking_inv s"
    and conf: "sr_config s = Some config" "sc_staking_token config \<noteq> sc_reward_token config"
  shows "sr_config s' = Some config
     \<and> bal (sc_staking_token config) here w - sr_total s \<le> bal (sc_staking_token config) here w' - sr_total s'"
proof (cases "accounting_op c")
  case False
  with quiet_core [OF run] conf show ?thesis by (auto simp: core_of_def sr_total_def)
next
  case True
  let ?t = "sc_staking_token config"
  have E: "overflow_checks E" "this_contract E = here" "here \<notin> set (auths E)"
    using c by (auto simp: staking_call_def staking_args_def)
  have move: "bal ?t a w1 = bal ?t a w + delta f to n a" if "xfer E ?t f to n w = Some w1" for a f to n w1
    using xfer_bal [OF E(1) that, of ?t a] by simp
  have same: "sr_config s' = Some config \<and> sr_total s' = sr_total s + d" if "stake_change u d s s'" for u d
    using that conf by (simp add: stake_change_def)
  show ?thesis
  proof (cases c)
    case (SInitialize ow st rt r0 dec len start)
    with run have "sr_initialize s ow st rt r0 dec len start = Inr s'" by (auto simp: quiet_call_def)
    from initialize_Inr [OF this] conf show ?thesis by simp
  next
    case (SStake u n)
    with run have "sr_stake xfer E (s, w) u n = Inr (s', w')" by auto
    from stake_Inr [OF this] conf E have a: "u \<noteq> here" "stake_change u n s s'" "xfer E ?t u here n w = Some w'" by auto
    from move [OF a(3), of here] same [OF a(2)] a(1) show ?thesis by (simp add: delta_def)
  next
    case (SWithdraw u n)
    with run have "sr_withdraw xfer E (s, w) u n = Inr (s', w')" by auto
    from withdraw_Inr [OF this] conf E have a: "u \<noteq> here" "stake_change u (- n) s s'" "xfer E ?t here u n w = Some w'" by auto
    from move [OF a(3), of here] same [OF a(2)] a(1) show ?thesis by (simp add: delta_def)
  next
    case (SClaim u)
    with run have "sr_claim cb xfer E (s, w) u = Inr ((s', w'), v)" by auto
    from claim_Inr [OF this] conf E consider "core_of s' = core_of s" "w' = w"
      | "stake_change u 0 s s'" "xfer E (sc_reward_token config) here u v w = Some w'" by auto
    then show ?thesis
    proof cases
      case 1
      with conf show ?thesis by (auto simp: core_of_def sr_total_def)
    next
      case 2
      from xfer_bal [OF E(1) 2(2), of ?t here] conf(2) same [OF 2(1)] show ?thesis by simp
    qed
  next
    case (SEmergencyWithdraw u)
    with run have r: "sr_emergency_withdraw xfer E (s, w) u = Inr ((s', w'), v)" by auto
    note effect = emergency_Inr [OF r E(1) inv]
    have ne: "u \<noteq> here" using effect E(3) by auto
    from effect conf E(2) consider "w' = w" "s' = s \<or> stake_change u 0 s s'"
      | "stake_change u (- stake_of s u) s s'" "v \<le> stake_of s u" "0 \<le> v"
        "if 0 < v then xfer E ?t here u v w = Some w' else w' = w" by (auto split: if_splits)
    then show ?thesis
    proof cases
      case 1
      with same conf show ?thesis by fastforce
    next
      case 2
      have "bal ?t here w' = bal ?t here w - v"
        using ne 2(3,4) move [of here u v w' here] by (cases "0 < v") (auto simp: delta_def)
      with same [OF 2(1)] 2(2) show ?thesis by simp
    qed
  next
    case (SSetPenaltyFee f)
    with run have "sr_set_penalty_fee E s f = Inr s'" "w' = w" by (auto simp: quiet_call_def)
    with conf show ?thesis by (auto simp: set_penalty_Inr sr_total_def)
  qed (use True in auto)
qed

end

definition staking_backed :: "address \<Rightarrow> staking_config \<Rightarrow> int \<Rightarrow> staking \<times> tokens \<Rightarrow> bool" where
  "staking_backed here c d sw \<longleftrightarrow> staking_inv (fst sw) \<and> sr_config (fst sw) = Some c
     \<and> d \<le> client_balance (sc_staking_token c) here (snd sw) - sr_total (fst sw)"

interpretation staking_backing: contract_machine "sr_exec cb client_transfer" "staking_call here"
    "\<lambda>sw. staking_backed here c d sw \<and> sc_staking_token c \<noteq> sc_reward_token c"
  for cb here c d
proof
  fix E op sw sw' v
  assume E: "staking_call here E op" and inv: "staking_backed here c d sw \<and> sc_staking_token c \<noteq> sc_reward_token c"
    and run: "sr_exec cb client_transfer E sw op = Inr (sw', v)"
  obtain s w s' w' where sw: "sw = (s, w)" "sw' = (s', w')" by (metis surj_pair)
  from inv sw have p: "staking_inv s" "sr_config s = Some c" "sc_staking_token c \<noteq> sc_reward_token c"
    "d \<le> client_balance (sc_staking_token c) here w - sr_total s" by (auto simp: staking_backed_def)
  have "staking_inv s'" using staking_inv_exec [OF _ p(1)] run sw E by (metis staking_call_def)
  with token_world.sr_exec_backed [OF run [unfolded sw] E p(1-3)] p(3,4) sw
  show "staking_backed here c d sw' \<and> sc_staking_token c \<noteq> sc_reward_token c" by (auto simp: staking_backed_def)
qed

text \<open>
  C14. The principal is backed: for a contract whose reward token is another token, and token contracts of
  this repository, no calls after the set-up lower the difference between the contract's balance of the
  staking token and the recorded total; a contract that holds the stakes when it starts holds them ever after.
\<close>

theorem staking_principal_backed:
  assumes "staking_args E0 c0" "sr_exec claim_bit client_transfer E0 (empty_staking, w0) c0 = Inr ((s0, w1), v)"
    and "sr_config s0 = Some c" "sc_staking_token c \<noteq> sc_reward_token c"
    and "\<forall>c \<in> set cs. staking_call here (fst c) (snd c)"
    and "(s, w) = run_calls (sr_exec claim_bit client_transfer) cs (s0, w1)"
  shows "client_balance (sc_staking_token c) here w1 - sr_total s0 \<le> client_balance (sc_staking_token c) here w - sr_total s"
proof -
  let ?d = "client_balance (sc_staking_token c) here w1 - sr_total s0"
  have "staking_inv s0" by (rule staking_inv_exec [OF assms(2) staking_inv_empty assms(1)])
  then have "staking_backed here c ?d (s0, w1) \<and> sc_staking_token c \<noteq> sc_reward_token c"
    using assms(3,4) by (simp add: staking_backed_def)
  from staking_backing.run_inv [OF this assms(5)] have "staking_backed here c ?d (s, w)" unfolding assms(6) by blast
  then show ?thesis by (simp add: staking_backed_def)
qed

theorem staking_principal_backed_witness:
  "sr_total (fst staking_demo_end) = 500 \<and> 0 \<le> client_balance 701 0 (snd staking_demo_end) - sr_total (fst staking_demo_end)"
proof -
  let ?c = "\<lparr>sc_owner = 9, sc_staking_token = 701, sc_reward_token = 702, sc_initial_rate = SCALE div 1000,
     sc_epoch_decay_percent = SCALE div 10, sc_epoch_length = 100, sc_start_block = 100, sc_is_paused = False\<rparr>"
  let ?r = "sr_exec 32 client_transfer (fst staking_setup) (empty_staking, staking_world) (snd staking_setup)"
  have "(case ?r of Inl e \<Rightarrow> False | Inr (sw, v) \<Rightarrow> sr_config (fst sw) = Some ?c \<and> sr_total (fst sw) = 0
      \<and> client_balance 701 0 (snd sw) = 0)" by code_simp
  then obtain s0 w1 v where r: "?r = Inr ((s0, w1), v)" "sr_config s0 = Some ?c" "sr_total s0 = 0" "client_balance 701 0 w1 = 0"
    by (auto split: sum.splits prod.splits)
  have calls: "\<forall>c \<in> set staking_demo. staking_call 0 (fst c) (snd c)" "staking_args (fst staking_setup) (snd staking_setup)"
    by (simp_all add: staking_setup_def staking_demo_def staking_args_def staking_call_def at_block_def env0_def)
  have "(fst staking_demo_end, snd staking_demo_end) = run_calls (sr_exec 32 client_transfer) staking_demo (s0, w1)"
    using r(1) by (simp add: staking_demo_end_def apply_call_def)
  from staking_principal_backed [OF calls(2) r(1,2) _ calls(1) this] r staking_demo_figures
  show ?thesis by (simp add: staking_figures_def)
qed

end
