(* ===== verification/StakingYield.thy ===== *)
theory StakingYield
  imports StakingProperties
begin

text \<open>
  The yield of the staking contract. While the rate of one whole epoch keeps the exponent below 45, the
  growth factor is at least one and rewards only grow; beyond that the wrapping exponential can store a
  negative reward, after which only the emergency exit works.
\<close>

section \<open>Growth factors\<close>

text \<open>A configuration whose exponents stay moderate: one epoch at the initial rate multiplies a stake by at most \<open>e^45\<close>.\<close>

definition moderate :: "staking_config \<Rightarrow> bool" where
  "moderate c \<longleftrightarrow> 0 \<le> sc_initial_rate c \<and> 0 \<le> sc_epoch_decay_percent c \<and> sc_epoch_decay_percent c \<le> SCALE
     \<and> 0 < sc_epoch_length c \<and> sc_initial_rate c * sc_epoch_length c \<le> 45 * SCALE"

definition rates_ok :: "staking_config \<Rightarrow> (int \<rightharpoonup> epoch_snapshot) \<Rightarrow> bool" where
  "rates_ok c m \<longleftrightarrow> (\<forall>e sn. m e = Some sn \<longrightarrow> 0 \<le> es_rate sn \<and> es_rate sn \<le> sc_initial_rate c)"

lemma SCALE_pos: "0 < SCALE" "in_range I128 SCALE"
  by (simp_all add: SCALE_def in_range_def)

lemma fx_mul_nonneg:
  assumes "fx_mul a b = Inr v" "0 \<le> a" "0 \<le> b" "in_range I128 a" "in_range I128 b"
  shows "v = a * b div SCALE \<and> in_range I128 v"
proof -
  have "0 \<le> a * b div SCALE" using assms SCALE_pos by (intro div_nonneg_int) simp_all
  with assms SCALE_pos show ?thesis
    by (auto simp: fx_mul_def mul_div_value in_range_def ok_or_def split: if_splits option.splits)
qed

lemma scaled_down: "0 \<le> a \<Longrightarrow> b \<le> SCALE \<Longrightarrow> a * b div SCALE \<le> a"
  using zdiv_mono1 [OF mult_left_mono [of b SCALE a], of SCALE] SCALE_pos by simp

lemma scaled_up: "0 \<le> a \<Longrightarrow> SCALE \<le> b \<Longrightarrow> a \<le> a * b div SCALE"
  using zdiv_mono1 [OF mult_left_mono [of SCALE b a], of SCALE] SCALE_pos by simp

lemma below_SCALE: "0 \<le> x \<Longrightarrow> x \<le> SCALE \<Longrightarrow> in_range I128 x"
  by (simp add: SCALE_def in_range_def)

lemma fixed_pow_range:
  assumes "fixed_pow_loop t n a = Inr v" "0 \<le> t" "t \<le> SCALE" "0 \<le> a" "a \<le> SCALE"
  shows "0 \<le> v \<and> v \<le> SCALE"
  using assms
proof (induction t n a arbitrary: v rule: fixed_pow_loop.induct)
  case (1 t n a)
  show ?case
  proof (cases "n > 0")
    case False
    with 1(2-) show ?thesis by (simp add: fixed_pow_loop.simps)
  next
    case True
    with 1(2) obtain a' t' where a': "(if n mod 2 = 1 then map_err (\<lambda>_. contract_error.Overflow) (fx_mul a t) else Inr a) = Inr a'"
      and t': "map_err (\<lambda>_. contract_error.Overflow) (fx_mul t t) = Inr t'" and rest: "fixed_pow_loop t' (n div 2) a' = Inr v"
      by (subst (asm) fixed_pow_loop.simps) auto
    have m: "0 \<le> z \<and> z \<le> SCALE" if "fx_mul x y = Inr z" "0 \<le> x" "x \<le> SCALE" "0 \<le> y" "y \<le> SCALE" for x y z
      using fx_mul_nonneg [OF that(1)] that below_SCALE scaled_down [of x y] SCALE_pos
      by (auto intro!: div_nonneg_int)
    have "0 \<le> t' \<and> t' \<le> SCALE" using m t' 1(3-) by auto
    moreover have "0 \<le> a' \<and> a' \<le> SCALE" using m a' 1(3-) by (auto split: if_splits)
    ultimately show ?thesis using 1(1) [OF True rest] by blast
  qed
qed

lemma epoch_rate_range:
  assumes "compute_epoch_rate r0 dec e = Inr r" "0 \<le> r0" "0 \<le> dec" "in_range I128 r0"
  shows "0 \<le> r \<and> r \<le> r0"
proof (cases "e = 0")
  case True
  with assms show ?thesis by (simp add: compute_epoch_rate_def)
next
  case False
  with assms obtain base f where b: "0 \<le> base" "base \<le> SCALE" "fixed_pow_int base (nat e) = Inr f" "fx_mul r0 f = Inr r"
    by (auto simp: compute_epoch_rate_def not_less split: if_splits)
  from fixed_pow_range [OF b(3) [unfolded fixed_pow_int_def] b(1,2)] SCALE_pos have f: "0 \<le> f" "f \<le> SCALE" by auto
  from fx_mul_nonneg [OF b(4) assms(2) f(1) assms(4) below_SCALE [OF f]] scaled_down [OF assms(2) f(2)] SCALE_pos f assms
  show ?thesis by (auto intro!: div_nonneg_int)
qed

section \<open>Snapshots\<close>

lemma rates_range: "moderate c \<Longrightarrow> in_range I128 (sc_initial_rate c)"
proof -
  assume m: "moderate c"
  then have "sc_initial_rate c * 1 \<le> sc_initial_rate c * sc_epoch_length c" by (intro mult_left_mono) (auto simp: moderate_def)
  with m have "0 \<le> sc_initial_rate c" "sc_initial_rate c \<le> 45 * SCALE" by (auto simp: moderate_def)
  then show ?thesis by (simp add: in_range_def SCALE_def)
qed

lemma snapshot_loop_rates:
  "snapshot_loop E c es m = (m', r) \<Longrightarrow> moderate c \<Longrightarrow> rates_ok c m \<Longrightarrow> rates_ok c m'"
proof (induction es arbitrary: m)
  case (Cons e es)
  show ?case
  proof (cases "m e \<noteq> None")
    case True
    with Cons show ?thesis by simp
  next
    case False
    show ?thesis
    proof (cases "\<exists>rate start. compute_epoch_rate (sc_initial_rate c) (sc_epoch_decay_percent c) e = Inr rate
        \<and> epoch_start_block E (sc_start_block c) (sc_epoch_length c) e = Inr start")
      case True
      then obtain rate start where x: "compute_epoch_rate (sc_initial_rate c) (sc_epoch_decay_percent c) e = Inr rate"
        "epoch_start_block E (sc_start_block c) (sc_epoch_length c) e = Inr start" by blast
      from epoch_rate_range [OF x(1)] Cons.prems(2) rates_range have "0 \<le> rate \<and> rate \<le> sc_initial_rate c"
        by (auto simp: moderate_def)
      with Cons.prems(3) have "rates_ok c (m(e \<mapsto> \<lparr>es_rate = rate, es_start_block = start\<rparr>))" by (auto simp: rates_ok_def)
      with Cons.IH [OF _ Cons.prems(2)] Cons.prems(1) x False show ?thesis by simp
    next
      case no: False
      with Cons.prems False show ?thesis
        by (cases "compute_epoch_rate (sc_initial_rate c) (sc_epoch_decay_percent c) e";
            cases "epoch_start_block E (sc_start_block c) (sc_epoch_length c) e :: int sr_res") auto
    qed
  qed
qed simp

lemma ensure_rates:
  assumes "moderate c" "rates_ok c (sr_epoch_snapshot s)"
  shows "rates_ok c (sr_epoch_snapshot (fst (ensure_epoch_snapshots E c b s)))"
  using snapshot_loop_rates [OF surjective_pairing assms] assms(2)
  by (simp add: ensure_epoch_snapshots_def case_prod_beta Let_def split: sum.splits)

lemma multiplier_rates:
  assumes "moderate c" "rates_ok c (sr_epoch_snapshot s)"
  shows "rates_ok c (sr_epoch_snapshot (fst (calculate_multiplier E c t1 t2 s)))"
  using ensure_rates [OF assms] assms(2) by (simp add: calculate_multiplier_def case_prod_beta Let_def)

section \<open>The multiplier\<close>

lemma exp_at_least_one:
  assumes "fx_exp x = Inr v" "0 \<le> x" "x \<le> 45 * SCALE"
  shows "SCALE \<le> v \<and> in_range I128 v"
proof -
  from fx_exp_moderate [OF assms(2,3)] assms(1) have v: "SCALE * 2 ^ nat (x div LN2) \<le> v" "v \<le> 4 * SCALE * 2 ^ nat (x div LN2)" by auto
  have "SCALE * 1 \<le> SCALE * 2 ^ nat (x div LN2)" using SCALE_pos by (intro mult_left_mono) simp_all
  with v(1) have "SCALE \<le> v" by linarith
  moreover have "x div LN2 \<le> 45 * SCALE div LN2" using assms(3) by (intro zdiv_mono1) (simp_all add: LN2_def)
  then have "nat (x div LN2) \<le> 64" by (simp add: SCALE_def LN2_def)
  then have "(2::int) ^ nat (x div LN2) \<le> 2 ^ 64" by (intro power_increasing) simp_all
  then have "v \<le> 4 * SCALE * 2 ^ 64" using v(2) mult_left_mono [of "2 ^ nat (x div LN2)" "2 ^ 64" "4 * SCALE"] SCALE_pos by linarith
  ultimately show ?thesis by (auto simp: in_range_def SCALE_def)
qed

lemma multiplier_loop_grows:
  assumes E: "overflow_checks E" and c: "moderate c" "rates_ok c (sr_epoch_snapshot s)"
  shows "multiplier_loop E c s t1 t2 es mult = Inr v \<Longrightarrow> SCALE \<le> mult \<Longrightarrow> in_range I128 mult
    \<Longrightarrow> SCALE \<le> v \<and> in_range I128 v"
proof (induction es arbitrary: mult)
  case (Cons e es)
  from Cons.prems(1) obtain rate start where r: "get_epoch_rate s e = Inr rate"
    "epoch_start_block E (sc_start_block c) (sc_epoch_length c) e = Inr start" by auto
  let ?from = "max t1 start" and ?upto = "min t2 (start + sc_epoch_length c)"
  from r c(2) have rate: "0 \<le> rate" "rate \<le> sc_initial_rate c" by (auto simp: get_epoch_rate_def rates_ok_def)
  show ?case
  proof (cases "?upto > ?from")
    case False
    with Cons r E show ?thesis by (auto simp: Let_def)
  next
    case True
    let ?n = "?upto - ?from"
    from True Cons.prems(1) r E obtain b x f m where b: "fx_from_int ?n = Inr b" and x: "fx_mul rate b = Inr x"
      and f: "fx_exp x = Inr f" and m: "fx_mul mult f = Inr m" and rest: "multiplier_loop E c s t1 t2 es m = Inr v"
      by (auto simp: Let_def)
    have n: "0 \<le> ?n" "?n \<le> sc_epoch_length c" using True by auto
    have bv: "b = ?n * SCALE" "in_range I128 b" "0 \<le> b" using b n(1) SCALE_pos by (auto simp: fx_from_int_def)
    have "in_range I128 rate" using rates_range [OF c(1)] rate in_range_nonneg_le by blast
    from fx_mul_nonneg [OF x rate(1) bv(3) this bv(2)] have xv: "x = rate * ?n" using SCALE_pos bv(1) by simp
    have "rate * ?n \<le> sc_initial_rate c * sc_epoch_length c" using rate n by (intro mult_mono) auto
    with c(1) rate n xv have "0 \<le> x" "x \<le> 45 * SCALE" by (auto simp: moderate_def)
    from exp_at_least_one [OF f this] have fv: "SCALE \<le> f" "in_range I128 f" by auto
    have "0 \<le> mult" "0 \<le> f" using Cons.prems(2) fv SCALE_pos by auto
    from fx_mul_nonneg [OF m this Cons.prems(3) fv(2)] scaled_up [OF this(1) fv(1)] Cons.prems(2)
    have "SCALE \<le> m" "in_range I128 m" by auto
    from Cons.IH [OF rest this] show ?thesis .
  qed
qed simp

lemma multiplier_grows:
  assumes "overflow_checks E" "moderate c" "rates_ok c (sr_epoch_snapshot s)"
    and run: "snd (calculate_multiplier E c t1 t2 s) = Inr v"
  shows "SCALE \<le> v \<and> in_range I128 v"
proof -
  let ?s = "fst (ensure_epoch_snapshots E c (max t2 (sc_start_block c)) s)"
  from run consider "v = SCALE" | es where "multiplier_loop E c ?s (max t1 (sc_start_block c)) (max t2 (sc_start_block c)) es SCALE = Inr v"
    by (auto simp: calculate_multiplier_def case_prod_beta Let_def split: if_splits)
  then show ?thesis
  proof cases
    case 1
    with SCALE_pos show ?thesis by simp
  next
    case (2 es)
    from multiplier_loop_grows [OF assms(1,2) ensure_rates [OF assms(2,3)] this] SCALE_pos show ?thesis by simp
  qed
qed

lemma reward_index_grows:
  assumes "compute_reward_index n r mult = Inr v" "SCALE \<le> mult" "in_range I128 mult"
  shows "0 < n \<and> 0 \<le> r \<and> r \<le> v"
proof -
  from assms(1) obtain v' where a: "0 < n" "0 \<le> r" "in_range I128 (n + r)" "mul_div (n + r) mult SCALE = Some v'" "v = v' - n"
    by (auto simp: compute_reward_index_def multiply_amount_def not_le not_less split: if_splits)
  then have "fx_mul (n + r) mult = Inr v'" by (simp add: fx_mul_def)
  from fx_mul_nonneg [OF this] a assms(2,3) SCALE_pos scaled_up [of "n + r" mult] show ?thesis by auto
qed

lemma update_grows:
  assumes "update_user_rewards_internal E c u s = Inr (s1, st)" "overflow_checks E" "moderate c"
    "rates_ok c (sr_epoch_snapshot s)"
  shows "rates_ok c (sr_epoch_snapshot s1) \<and> sr_get_accrued_rewards s u \<le> accrued_rewards st"
proof (cases "sr_user_state s u")
  case None
  with assms(1,4) show ?thesis by (auto simp: update_user_rewards_internal_def sr_get_accrued_rewards_def Let_def)
next
  case (Some st0)
  show ?thesis
  proof (cases "staked_amount st0 > 0 \<and> ledger_seq E > last_update_block st0")
    case False
    with Some assms(1,4) show ?thesis
      by (auto simp: update_user_rewards_internal_def sr_get_accrued_rewards_def Let_def)
  next
    case True
    let ?m = "calculate_multiplier E c (last_update_block st0) (ledger_seq E) s"
    from True Some assms(1) obtain mult v where m: "snd ?m = Inr mult" "s1 = fst ?m"
      "compute_reward_index (staked_amount st0) (accrued_rewards st0) mult = Inr v" "accrued_rewards st = v"
      by (auto simp: update_user_rewards_internal_def Let_def case_prod_beta)
    from multiplier_grows [OF assms(2-4) m(1)] have "SCALE \<le> mult" "in_range I128 mult" by auto
    from reward_index_grows [OF m(3) this] m(2,4) Some multiplier_rates [OF assms(3,4)] show ?thesis
      by (simp add: sr_get_accrued_rewards_def)
  qed
qed

lemma pending_grows:
  assumes "sr_get_pending_rewards E s u = Inr (s', n)" "overflow_checks E" "sr_config s = Some c" "moderate c"
    "rates_ok c (sr_epoch_snapshot s)"
  shows "rates_ok c (sr_epoch_snapshot s') \<and> sr_get_accrued_rewards s u \<le> n"
proof (cases "sr_user_state s u")
  case None
  with assms show ?thesis by (auto simp: sr_get_pending_rewards_def sr_get_accrued_rewards_def)
next
  case (Some st0)
  let ?m = "calculate_multiplier E c (last_update_block st0) (ledger_seq E) s"
  from Some assms(1,3) consider "s' = s" "n = accrued_rewards st0" | "s' = fst ?m" "n = accrued_rewards st0"
    | mult where "s' = fst ?m" "snd ?m = Inr mult" "compute_reward_index (staked_amount st0) (accrued_rewards st0) mult = Inr n"
    by (auto simp: sr_get_pending_rewards_def Let_def case_prod_beta split: if_splits sum.splits fault.splits)
  then show ?thesis
  proof cases
    case (3 mult)
    from multiplier_grows [OF assms(2,4,5) 3(2)] have "SCALE \<le> mult" "in_range I128 mult" by auto
    from reward_index_grows [OF 3(3) this] 3(1) Some multiplier_rates [OF assms(4,5)] show ?thesis
      by (simp add: sr_get_accrued_rewards_def)
  qed (use Some assms(5) multiplier_rates [OF assms(4,5)] in \<open>simp_all add: sr_get_accrued_rewards_def\<close>)
qed

section \<open>Rewards only grow\<close>

definition yield_ok :: "staking \<Rightarrow> bool" where
  "yield_ok s \<longleftrightarrow> (sr_config s = None \<longrightarrow> sr_epoch_snapshot s = Map.empty \<and> sr_user_state s = Map.empty)
     \<and> (\<forall>c. sr_config s = Some c \<longrightarrow> moderate c \<and> rates_ok c (sr_epoch_snapshot s))
     \<and> (\<forall>u. 0 \<le> sr_get_accrued_rewards s u)"

lemma yield_okI:
  assumes "yield_ok s" "sr_config s = Some c" "sr_config s' = Some c" "rates_ok c (sr_epoch_snapshot s')"
    "sr_user_state s' = (sr_user_state s)(u := st)" "\<And>x. st = Some x \<Longrightarrow> 0 \<le> accrued_rewards x"
  shows "yield_ok s'"
  using assms by (auto simp: yield_ok_def sr_get_accrued_rewards_def split: option.splits)

lemma yield_ok_core:
  "core_of s' = core_of s \<Longrightarrow> sr_epoch_snapshot s' = sr_epoch_snapshot s \<Longrightarrow> yield_ok s \<Longrightarrow> yield_ok s'"
  by (simp add: core_of_def yield_ok_def sr_get_accrued_rewards_def)

text \<open>The accrual inside a call.\<close>

lemma yield_update:
  assumes "yield_ok s" "sr_config s = Some c" "overflow_checks E" "update_user_rewards_internal E c u s = Inr (s1, st)"
  shows "rates_ok c (sr_epoch_snapshot s1) \<and> 0 \<le> accrued_rewards st \<and> sr_config s1 = Some c \<and> sr_user_state s1 = sr_user_state s"
proof -
  have "moderate c" "rates_ok c (sr_epoch_snapshot s)" "0 \<le> sr_get_accrued_rewards s u" using assms(1,2) by (auto simp: yield_ok_def)
  with update_grows [OF assms(4,3)] update_core [OF assms(4)] assms(2) show ?thesis by (auto dest: core_of_eqD)
qed

lemma stake_yield:
  assumes "sr_stake xfer E (s, w) u n = Inr (s', w')" "yield_ok s" "overflow_checks E"
  shows "yield_ok s'"
proof -
  from assms(1) obtain c s1 st where a: "sr_config s = Some c" "update_user_rewards_internal E c u s = Inr (s1, st)"
    "s' = emit_sr (StakeEvent u n) (s1\<lparr>sr_total_staked := Some (sr_total s1 + n),
       sr_user_state := (sr_user_state s1)(u \<mapsto> st\<lparr>staked_amount := staked_amount st + n\<rparr>)\<rparr>)"
    by (auto simp: sr_stake_def sr_get_config_def call_def split: option.splits)
  note y = yield_update [OF assms(2) a(1) assms(3) a(2)]
  show ?thesis
    by (rule yield_okI [OF assms(2) a(1), where u = u and st = "Some (st\<lparr>staked_amount := staked_amount st + n\<rparr>)"])
      (use y a(3) in \<open>auto simp: emit_sr_def\<close>)
qed

lemma withdraw_yield:
  assumes "sr_withdraw xfer E (s, w) u n = Inr (s', w')" "yield_ok s" "overflow_checks E"
  shows "yield_ok s'"
proof -
  from assms(1) obtain c s1 st where a: "sr_config s = Some c" "update_user_rewards_internal E c u s = Inr (s1, st)"
    "s' = emit_sr (WithdrawEvent u n) (s1\<lparr>sr_total_staked := Some (sr_total s1 - n),
       sr_user_state := (if staked_amount st - n = 0 \<and> accrued_rewards st = 0 then (sr_user_state s1)(u := None)
          else (sr_user_state s1)(u \<mapsto> st\<lparr>staked_amount := staked_amount st - n\<rparr>))\<rparr>)"
    by (auto simp: sr_withdraw_def sr_get_config_def call_def Let_def split: option.splits if_splits)
  note y = yield_update [OF assms(2) a(1) assms(3) a(2)]
  show ?thesis
    by (rule yield_okI [OF assms(2) a(1), where u = u and
          st = "if staked_amount st - n = 0 \<and> accrued_rewards st = 0 then None else Some (st\<lparr>staked_amount := staked_amount st - n\<rparr>)"])
      (use y a(3) in \<open>auto simp: emit_sr_def split: if_splits\<close>)
qed

lemma claim_yield:
  assumes "sr_claim cb xfer E (s, w) u = Inr ((s', w'), v)" "yield_ok s" "overflow_checks E"
  shows "yield_ok s'"
proof -
  from assms(1) obtain c s1 st where a: "sr_config s = Some c" "update_user_rewards_internal E c u s = Inr (s1, st)"
    "s' = s1 \<or> s' = emit_sr (ClaimEvent u v) (s1\<lparr>sr_user_state := (if staked_amount st = 0 then (sr_user_state s1)(u := None)
          else (sr_user_state s1)(u \<mapsto> st\<lparr>accrued_rewards := 0\<rparr>))\<rparr>)"
    by (auto simp: sr_claim_def sr_get_config_def call_def Let_def split: option.splits if_splits)
  note y = yield_update [OF assms(2) a(1) assms(3) a(2)]
  have pos: "sr_user_state s u = Some x \<Longrightarrow> 0 \<le> accrued_rewards x" for x
    using assms(2) by (auto simp: yield_ok_def sr_get_accrued_rewards_def dest: spec [of _ u])
  from a(3) show ?thesis
  proof
    assume s': "s' = s1"
    show ?thesis
      by (rule yield_okI [OF assms(2) a(1), where u = u and st = "sr_user_state s u"]) (use y s' pos in auto)
  next
    assume s': "s' = emit_sr (ClaimEvent u v) (s1\<lparr>sr_user_state := (if staked_amount st = 0 then (sr_user_state s1)(u := None)
          else (sr_user_state s1)(u \<mapsto> st\<lparr>accrued_rewards := 0\<rparr>))\<rparr>)"
    show ?thesis
      by (rule yield_okI [OF assms(2) a(1), where u = u and
            st = "if staked_amount st = 0 then None else Some (st\<lparr>accrued_rewards := 0\<rparr>)"])
        (use y s' in \<open>auto simp: emit_sr_def split: if_splits\<close>)
  qed
qed

lemma emergency_yield:
  assumes "sr_emergency_withdraw xfer E (s, w) u = Inr ((s', w'), v)" "yield_ok s"
  shows "yield_ok s'"
proof -
  from assms(1) have "sr_config s' = sr_config s \<and> sr_epoch_snapshot s' = sr_epoch_snapshot s
      \<and> (sr_user_state s' = sr_user_state s \<or> sr_user_state s' = (sr_user_state s)(u := None))"
    by (auto simp: sr_emergency_withdraw_def sr_get_config_def Let_def emit_sr_def split: option.splits if_splits)
  with assms(2) show ?thesis by (auto simp: yield_ok_def sr_get_accrued_rewards_def)
qed

lemma on_guard_snapshots: "sr_on_guard s r = Inr s' \<Longrightarrow> core_of s' = core_of s \<and> sr_epoch_snapshot s' = sr_epoch_snapshot s"
  by (auto simp: sr_on_guard_def)

text \<open>The rate of a deployment is moderate; the build checks overflow.\<close>

definition yield_call :: "env \<Rightarrow> staking_op \<Rightarrow> bool" where
  "yield_call E c \<longleftrightarrow> overflow_checks E
     \<and> (case c of SInitialize ow st rt r0 dec len start \<Rightarrow> 0 \<le> len \<and> r0 * len \<le> 45 * SCALE | _ \<Rightarrow> True)"

lemma yield_exec:
  assumes run: "sr_exec cb xfer E (s, w) c = Inr ((s', w'), v)" and y: "yield_ok s" and c: "yield_call E c"
  shows "yield_ok s'"
proof -
  have E: "overflow_checks E" using c by (simp add: yield_call_def)
  have emit: "yield_ok (emit_sr ev t) = yield_ok t" for ev t
    by (simp add: yield_ok_def emit_sr_def sr_get_accrued_rewards_def)
  have guard: "sr_on_guard s r = Inr t \<Longrightarrow> yield_ok t" for r t
    using on_guard_snapshots yield_ok_core [OF _ _ y] by blast
  show ?thesis
  proof (cases c)
    case (SInitialize ow st rt r0 dec len start)
    with run have "sr_initialize s ow st rt r0 dec len start = Inr s'" by (auto simp: quiet_call_def)
    from initialize_Inr [OF this] y c SInitialize show ?thesis
      by (auto simp: yield_ok_def moderate_def rates_ok_def yield_call_def sr_get_accrued_rewards_def)
  next
    case (SPendingRewards u)
    with run have p: "sr_get_pending_rewards E s u = Inr (s', v)" by auto
    show ?thesis
    proof (cases "sr_config s")
      case None
      with p y show ?thesis by (simp add: sr_get_pending_rewards_def)
    next
      case (Some d)
      with y have d: "moderate d" "rates_ok d (sr_epoch_snapshot s)" by (auto simp: yield_ok_def)
      from pending_grows [OF p E Some d] pending_core [OF p] y Some show ?thesis
        by (auto simp: yield_ok_def core_of_def sr_get_accrued_rewards_def)
    qed
  next
    case (SSetPenaltyFee f)
    with run y show ?thesis by (auto simp: quiet_call_def set_penalty_Inr yield_ok_def sr_get_accrued_rewards_def)
  qed (use run y E in \<open>auto simp: quiet_call_def sr_pause_staking_def sr_resume_staking_def sr_emergency_pause_all_def sr_resume_all_def
      sr_add_admin_def sr_remove_admin_def sr_rotate_admin_def sr_set_claim_rewards_paused_def emit
      intro: guard stake_yield withdraw_yield claim_yield emergency_yield\<close>)
qed

interpretation staking_yield: contract_machine "sr_exec cb xfer" yield_call "\<lambda>sw. yield_ok (fst sw)" for cb xfer
  by unfold_locales (metis prod.collapse yield_exec)

lemma yield_ok_empty: "yield_ok empty_staking"
  by (simp add: yield_ok_def empty_staking_def sr_get_accrued_rewards_def)

text \<open>
  Rewards never fall: if the contract was initialised with a rate that keeps one epoch's exponent at 45 or
  below, then after any calls no user's recorded reward is negative, and what the view reports as pending is never
  less than what is recorded.
\<close>

theorem staking_rewards_grow:
  assumes "\<forall>c \<in> set cs. yield_call (fst c) (snd c)"
    and "(s, w) = run_calls (sr_exec claim_bit xfer) cs (empty_staking, w0)"
    and "overflow_checks E" "sr_get_pending_rewards E s u = Inr (s', n)"
  shows "0 \<le> sr_get_accrued_rewards s u \<and> sr_get_accrued_rewards s u \<le> n"
proof -
  have "yield_ok (fst (empty_staking, w0))" by (simp add: yield_ok_empty)
  from staking_yield.run_inv [where xfer = xfer and cb = claim_bit, OF this assms(1)] assms(2) have y: "yield_ok s"
    by (metis fst_conv)
  show ?thesis
  proof (cases "sr_config s")
    case None
    with y assms(4) show ?thesis by (auto simp: sr_get_pending_rewards_def yield_ok_def sr_get_accrued_rewards_def)
  next
    case (Some c)
    with y have "moderate c" "rates_ok c (sr_epoch_snapshot s)" by (auto simp: yield_ok_def)
    from pending_grows [OF assms(4,3) Some this] y show ?thesis by (simp add: yield_ok_def)
  qed
qed

theorem staking_rewards_grow_witness:
  "sr_get_accrued_rewards (fst staking_demo_end) 5 = 5
   \<and> (case sr_get_pending_rewards (at_block 290 []) (fst staking_demo_end) 5 of Inr (s', n) \<Rightarrow> 5 \<le> n | _ \<Rightarrow> False)"
proof -
  have calls: "\<forall>c \<in> set (staking_setup # staking_demo). yield_call (fst c) (snd c)"
    by (simp add: staking_setup_def staking_demo_def yield_call_def at_block_def env0_def SCALE_def)
  have run: "(fst staking_demo_end, snd staking_demo_end)
      = run_calls (sr_exec 32 client_transfer) (staking_setup # staking_demo) (empty_staking, staking_world)"
    by (simp add: staking_demo_end_def)
  have "\<not> isl (sr_get_pending_rewards (at_block 290 []) (fst staking_demo_end) 5)" by code_simp
  then obtain s' n where r: "sr_get_pending_rewards (at_block 290 []) (fst staking_demo_end) 5 = Inr (s', n)"
    by (metis isl_def old.sum.exhaust prod.collapse)
  have "overflow_checks (at_block 290 [])" by (simp add: at_block_def env0_def)
  from staking_rewards_grow [OF calls run this r] staking_demo_figures r show ?thesis by (simp add: staking_figures_def)
qed

section \<open>When the exponent is too large\<close>

lemma emergency_pays:
  assumes "sr_user_state s u = Some st" "0 < staked_amount st" "sr_config s = Some c" "overflow_checks E" "u \<in> set (auths E)"
    and inv: "staking_inv s" and p: "payout = staked_amount st - staked_amount st * sr_get_penalty_fee s div 10000"
    and r: "in_range I128 (sr_total s)" "in_range U128 (staked_amount st * sr_get_penalty_fee s)"
    and x: "0 < payout" "xfer E (sc_staking_token c) (this_contract E) u payout w = Some w'"
  shows "\<exists>s'. sr_emergency_withdraw xfer E (s, w) u = Inr ((s', w'), payout) \<and> sr_user_state s' u = None"
proof -
  let ?n = "staked_amount st" and ?q = "staked_amount st * sr_get_penalty_fee s div 10000"
  have "stake_of s u \<le> sr_total s"
    using inv get_or_le_map_sum [of "stakes s" u] by (simp add: staking_inv_def get_stakes)
  then have n: "?n \<le> sr_total s" by (simp add: stake_of_def assms(1))
  have fee: "0 \<le> sr_get_penalty_fee s" using inv by (simp add: staking_inv_def)
  have q: "0 \<le> ?q" using assms(2) fee by (intro div_nonneg_int) simp_all
  have rng: "in_range I128 v" if "0 \<le> v" "v \<le> sr_total s" for v using in_range_nonneg_le [OF r(1) that] .
  have "sr_penalty E ?n (sr_get_penalty_fee s) = (Inr ?q :: int sr_res)"
    using r(2) q rng [of ?q] x(1) p n by (simp add: sr_penalty_def wrap_id)
  moreover have "fit E I128 (?n - ?q) = (Inr payout :: int sr_res)" using rng [of payout] p q n x(1) by simp
  moreover have "checked I128 (sr_total s - ?n) = Some (sr_total s - ?n)" using rng [of "sr_total s - ?n"] n assms(2) by simp
  ultimately show ?thesis using assms(1-5) x
    by (simp add: sr_emergency_withdraw_def sr_get_config_def Let_def sr_get_penalty_fee_def call_def emit_sr_def)
qed

text \<open>
  A negative reward locks the contract for its staker: when the recorded reward of a user with a stake is
  negative, every later stake, withdrawal and claim of that user fails, whatever the amount, the signatures and
  the pause state; the emergency exit still returns the stake less the penalty, also while the contract is paused.
\<close>

theorem staking_negative_reward_locks:
  assumes "sr_user_state s u = Some st" "0 < staked_amount st" "accrued_rewards st < 0" "last_update_block st < ledger_seq E"
    and "sr_config s = Some c" "overflow_checks E" "u \<in> set (auths E)" "staking_inv s"
    and "payout = staked_amount st - staked_amount st * sr_get_penalty_fee s div 10000"
    and "in_range I128 (sr_total s)" "in_range U128 (staked_amount st * sr_get_penalty_fee s)"
    and "0 < payout" "xfer E (sc_staking_token c) (this_contract E) u payout w = Some w'"
  shows "isl (sr_stake xfer E (s, w) u n) \<and> isl (sr_withdraw xfer E (s, w) u n) \<and> isl (sr_claim claim_bit xfer E (s, w) u)
    \<and> (\<exists>s'. sr_emergency_withdraw xfer E (s, w) u = Inr ((s', w'), payout) \<and> sr_user_state s' u = None)"
proof -
  have fail: "update_user_rewards_internal E c u s \<noteq> Inr r" for r
    using assms(1-4) by (auto simp: update_user_rewards_internal_def Let_def case_prod_beta compute_reward_index_def)
  have "isl (sr_stake xfer E (s, w) u n)"
    using fail by (cases "sr_stake xfer E (s, w) u n") (auto simp: sr_stake_def sr_get_config_def assms(5))
  moreover have "isl (sr_withdraw xfer E (s, w) u n)"
    using fail by (cases "sr_withdraw xfer E (s, w) u n") (auto simp: sr_withdraw_def sr_get_config_def assms(5))
  moreover have "isl (sr_claim claim_bit xfer E (s, w) u)"
    using fail by (cases "sr_claim claim_bit xfer E (s, w) u") (auto simp: sr_claim_def sr_get_config_def assms(5))
  moreover have "\<exists>s'. sr_emergency_withdraw xfer E (s, w) u = Inr ((s', w'), payout) \<and> sr_user_state s' u = None"
    by (rule emergency_pays) (use assms in auto)
  ultimately show ?thesis by blast
qed

text \<open>One unit of rate per block, epochs of 100 blocks: 47 blocks after a stake the exponential wraps around.\<close>

definition lock_setup :: "env \<times> staking_op" where
  "lock_setup = (at_block 0 [], SInitialize 9 701 702 SCALE 0 100 0)"

definition lock_demo :: "(env \<times> staking_op) list" where
  "lock_demo = [(at_block 1 [5], SStake 5 600), (at_block 48 [5], SStake 5 1), (at_block 49 [9], SSetPenaltyFee 1000),
     (at_block 49 [9], SPauseStaking)]"

definition lock_end :: "staking \<times> tokens" where
  "lock_end = run_calls (sr_exec 32 client_transfer) (lock_setup # lock_demo) (empty_staking, staking_world)"

theorem staking_negative_reward_locks_witness:
  "sr_get_accrued_rewards (fst lock_end) 5 < 0
   \<and> isl (sr_withdraw client_transfer (at_block 60 [5]) (fst lock_end, snd lock_end) 5 601)
   \<and> (\<exists>s' w'. sr_emergency_withdraw client_transfer (at_block 60 [5]) (fst lock_end, snd lock_end) 5 = Inr ((s', w'), 541))"
proof -
  let ?s = "fst lock_end" and ?w = "snd lock_end" and ?E = "at_block 60 [5]"
  let ?st = "\<lparr>staked_amount = 601, accrued_rewards = - 49290646981159030742286, last_update_block = 48\<rparr>"
  let ?c = "\<lparr>sc_owner = 9, sc_staking_token = 701, sc_reward_token = 702, sc_initial_rate = SCALE,
     sc_epoch_decay_percent = 0, sc_epoch_length = 100, sc_start_block = 0, sc_is_paused = False\<rparr>"
  have f: "sr_user_state ?s 5 = Some ?st \<and> sr_config ?s = Some ?c \<and> sr_total ?s = 601 \<and> sr_get_penalty_fee ?s = 1000
      \<and> client_transfer ?E 701 0 5 541 ?w \<noteq> None" by code_simp
  then obtain w' where w': "client_transfer ?E 701 0 5 541 ?w = Some w'" by blast
  have calls: "\<forall>c \<in> set (lock_setup # lock_demo). staking_args (fst c) (snd c)"
    by (simp add: lock_setup_def lock_demo_def staking_args_def at_block_def env0_def)
  have "staking_inv (fst (empty_staking, staking_world))" by (simp add: staking_inv_empty)
  from staking_accounts.run_inv [OF this calls] have inv: "staking_inv ?s" unfolding lock_end_def .
  have E: "last_update_block ?st < ledger_seq ?E" "overflow_checks ?E" "5 \<in> set (auths ?E)" "this_contract ?E = 0"
    by (simp_all add: at_block_def env0_def)
  have x: "client_transfer ?E (sc_staking_token ?c) (this_contract ?E) 5 541 ?w = Some w'" using w' E(4) by simp
  from staking_negative_reward_locks [where s = ?s and st = ?st and E = ?E and c = ?c and xfer = client_transfer
      and payout = 541 and w = ?w and w' = w' and u = 5 and n = 601 and claim_bit = 32, OF _ _ _ E(1) _ E(2,3) inv _ _ _ _ x] f
  show ?thesis by (auto simp: in_range_def sr_get_accrued_rewards_def)
qed

end
