(* ===== verification/Cdp.thy ===== *)
theory Cdp
  imports TokenInterface
begin

text \<open>
  The collateralised-debt contract \<open>contracts/cdp/src/lib.rs\<close>: positions of collateral and debt, a
  stable unit kept inside the contract, a kinked interest rate, liquidation by third parties and the
  liquidation of a position into the protocol's reserves. The oracle contract is a parameter: its two
  answers, \<open>None\<close> when the call traps. The collateral token is the parameter \<open>xfer\<close> with its world.
\<close>

section \<open>Data\<close>

definition BPS :: int where "BPS = 10000"
definition PRICE_SCALE :: int where "PRICE_SCALE = 10000000"
definition LEDGERS_PER_YEAR :: int where "LEDGERS_PER_YEAR = 6307200"

datatype cdp_error =
    AlreadyInitialized | NotInitialized | InvalidAmount | InvalidConfig | PositionNotFound | PositionHealthy
  | Undercollateralized | InsufficientCollateral | InsufficientStableBalance | OracleNotConfigured
  | InvalidOraclePrice | LiquidationUnavailable | MathOverflow | VolatilityNotAvailable | VolatilityTooHigh

record position =
  collateral_amount :: int
  debt_amount :: int
  last_accrual_ledger :: int

record volatility_config =
  low_volatility_threshold_bps :: int
  high_volatility_threshold_bps :: int
  base_collateral_floor_bps :: int
  max_collateral_floor_bps :: int

record risk_params =
  min_collateral_ratio_bps :: int
  liquidation_incentive_bps :: int
  rp_volatility_config :: volatility_config

record interest_rate_model =
  base_rate_bps :: int
  slope1_bps :: int
  slope2_bps :: int
  optimal_utilization_bps :: int

record liquidation_quote =
  repay_amount :: int
  collateral_to_seize :: int
  incentive_amount :: int

record cdp =
  cd_admin :: "address option"
  cd_collateral_token :: "address option"
  cd_oracle :: "address option"
  cd_total_collateral :: "int option"
  cd_total_debt :: "int option"
  cd_total_stable_supply :: "int option"
  cd_protocol_collateral_reserves :: "int option"
  cd_total_bad_debt :: "int option"
  cd_risk_params :: "risk_params option"
  cd_interest_rate_model :: "interest_rate_model option"
  cd_positions :: "address \<rightharpoonup> position"
  cd_stable_balances :: "address \<rightharpoonup> int"

definition empty_cdp :: cdp where
  "empty_cdp = \<lparr>cd_admin = None, cd_collateral_token = None, cd_oracle = None, cd_total_collateral = None, cd_total_debt = None,
     cd_total_stable_supply = None, cd_protocol_collateral_reserves = None, cd_total_bad_debt = None, cd_risk_params = None,
     cd_interest_rate_model = None, cd_positions = Map.empty, cd_stable_balances = Map.empty\<rparr>"

record price_oracle =
  latest_price :: "env \<Rightarrow> address \<Rightarrow> int option"
  volatility_bps :: "env \<Rightarrow> address \<Rightarrow> int option"

type_synonym 'a cdp_res = "(cdp_error, 'a) res"

section \<open>Helpers\<close>

definition checked_add :: "int \<Rightarrow> int \<Rightarrow> int cdp_res" where
  "checked_add a b = ok_or MathOverflow (checked I128 (a + b))"

definition checked_sub :: "int \<Rightarrow> int \<Rightarrow> int cdp_res" where
  "checked_sub a b = ok_or MathOverflow (checked I128 (a - b))"

definition checked_mul :: "int \<Rightarrow> int \<Rightarrow> int cdp_res" where
  "checked_mul a b = ok_or MathOverflow (checked I128 (a * b))"

definition cd_require_admin :: "env \<Rightarrow> cdp \<Rightarrow> address cdp_res" where
  "cd_require_admin E s = rbind (ok_or NotInitialized (cd_admin s)) (\<lambda>admin. rbind (require_auth E admin) (\<lambda>_. Inr admin))"

definition read_risk_params :: "cdp \<Rightarrow> risk_params cdp_res" where
  "read_risk_params s = ok_or NotInitialized (cd_risk_params s)"

definition read_interest_model :: "cdp \<Rightarrow> interest_rate_model cdp_res" where
  "read_interest_model s = ok_or NotInitialized (cd_interest_rate_model s)"

definition read_position :: "env \<Rightarrow> cdp \<Rightarrow> address \<Rightarrow> position" where
  "read_position E s user = get_or (cd_positions s) user
     \<lparr>collateral_amount = 0, debt_amount = 0, last_accrual_ledger = ledger_seq E\<rparr>"

definition write_position :: "address \<Rightarrow> position \<Rightarrow> cdp \<Rightarrow> cdp" where
  "write_position user position s = s\<lparr>cd_positions := (cd_positions s)(user \<mapsto> position)\<rparr>"

definition read_stable_balance :: "cdp \<Rightarrow> address \<Rightarrow> int" where
  "read_stable_balance s user = get_or (cd_stable_balances s) user 0"

definition write_stable_balance :: "address \<Rightarrow> int \<Rightarrow> cdp \<Rightarrow> cdp" where
  "write_stable_balance user amount s = s\<lparr>cd_stable_balances := (cd_stable_balances s)(user \<mapsto> amount)\<rparr>"

definition oracle_price :: "price_oracle \<Rightarrow> env \<Rightarrow> cdp \<Rightarrow> int cdp_res" where
  "oracle_price orc E s =
     rbind (ok_or OracleNotConfigured (cd_oracle s)) (\<lambda>oracle.
     rbind (call (latest_price orc E oracle)) (\<lambda>price.
     if price \<le> 0 then Inl (Err InvalidOraclePrice) else Inr price))"

definition oracle_volatility_bps :: "price_oracle \<Rightarrow> env \<Rightarrow> cdp \<Rightarrow> int cdp_res" where
  "oracle_volatility_bps orc E s =
     rbind (ok_or OracleNotConfigured (cd_oracle s)) (\<lambda>oracle.
     rbind (call (volatility_bps orc E oracle)) (\<lambda>volatility.
     if volatility < 0 then Inl (Err VolatilityNotAvailable) else Inr volatility))"

definition collateral_value :: "int \<Rightarrow> int \<Rightarrow> int cdp_res" where
  "collateral_value price collateral = rbind (checked_mul collateral price) (\<lambda>v. quot I128 v PRICE_SCALE)"

text \<open>The ratio is rounded to the nearest basis point, halves upwards.\<close>

definition collateral_ratio_bps :: "int \<Rightarrow> int \<Rightarrow> int \<Rightarrow> int cdp_res" where
  "collateral_ratio_bps price collateral debt =
     (if debt \<le> 0 then Inr (ity_max I128)
      else
        rbind (checked_mul collateral price) (\<lambda>numerator.
        rbind (checked_mul numerator BPS) (\<lambda>scaled_numerator.
        rbind (checked_mul debt PRICE_SCALE) (\<lambda>denominator.
        rbind (quot I128 scaled_numerator denominator) (\<lambda>ratio.
        let remainder = tmod scaled_numerator denominator in
        rbind (ok_or MathOverflow (checked I128 (remainder * 2))) (\<lambda>remainder_twice.
        if remainder_twice \<ge> denominator then checked_add ratio 1 else Inr ratio))))))"

definition cd_total_debt_of :: "cdp \<Rightarrow> int" where
  "cd_total_debt_of s = (case cd_total_debt s of Some n \<Rightarrow> n | None \<Rightarrow> 0)"

definition cd_total_collateral_of :: "cdp \<Rightarrow> int" where
  "cd_total_collateral_of s = (case cd_total_collateral s of Some n \<Rightarrow> n | None \<Rightarrow> 0)"

definition cd_supply_of :: "cdp \<Rightarrow> int" where
  "cd_supply_of s = (case cd_total_stable_supply s of Some n \<Rightarrow> n | None \<Rightarrow> 0)"

definition cd_reserves_of :: "cdp \<Rightarrow> int" where
  "cd_reserves_of s = (case cd_protocol_collateral_reserves s of Some n \<Rightarrow> n | None \<Rightarrow> 0)"

definition cd_bad_debt_of :: "cdp \<Rightarrow> int" where
  "cd_bad_debt_of s = (case cd_total_bad_debt s of Some n \<Rightarrow> n | None \<Rightarrow> 0)"

definition utilization_bps :: "cdp \<Rightarrow> int \<Rightarrow> int cdp_res" where
  "utilization_bps s price =
     rbind (collateral_value price (cd_total_collateral_of s)) (\<lambda>collateral_value_total.
     if collateral_value_total \<le> 0 then Inr 0
     else
       rbind (checked_mul (cd_total_debt_of s) BPS) (\<lambda>scaled.
       rbind (quot I128 scaled collateral_value_total) (\<lambda>util.
       Inr (if util > BPS then BPS else util))))"

definition borrow_rate_bps :: "env \<Rightarrow> interest_rate_model \<Rightarrow> int \<Rightarrow> int cdp_res" where
  "borrow_rate_bps E model utilization =
     (if utilization \<le> optimal_utilization_bps model then
        rbind (checked_mul utilization (slope1_bps model)) (\<lambda>v.
        rbind (quot I128 v (optimal_utilization_bps model)) (\<lambda>variable.
        checked_add (base_rate_bps model) variable))
      else
        rbind (checked_add (base_rate_bps model) (slope1_bps model)) (\<lambda>base.
        rbind (fit E I128 (utilization - optimal_utilization_bps model)) (\<lambda>excess_util.
        rbind (checked_mul excess_util (slope2_bps model)) (\<lambda>v.
        rbind (fit E I128 (BPS - optimal_utilization_bps model)) (\<lambda>span.
        rbind (quot I128 v span) (\<lambda>tail.
        checked_add base tail))))))"

section \<open>Interest\<close>

definition interest_due :: "price_oracle \<Rightarrow> env \<Rightarrow> cdp \<Rightarrow> position \<Rightarrow> int cdp_res" where
  "interest_due orc E s position =
     (let elapsed = ledger_seq E - last_accrual_ledger position in
      rbind (read_interest_model s) (\<lambda>model.
      rbind (oracle_price orc E s) (\<lambda>price.
      rbind (utilization_bps s price) (\<lambda>utilization.
      rbind (borrow_rate_bps E model utilization) (\<lambda>rate_bps.
      rbind (checked_mul (debt_amount position) rate_bps) (\<lambda>yearly.
      rbind (ok_or MathOverflow (checked I128 (yearly * elapsed))) (\<lambda>scaled.
      rbind (quot I128 scaled BPS) (\<lambda>q.
      quot I128 q LEDGERS_PER_YEAR))))))))"

definition accrue_position :: "price_oracle \<Rightarrow> env \<Rightarrow> cdp \<Rightarrow> address \<Rightarrow> (cdp \<times> position) cdp_res" where
  "accrue_position orc E s user =
     (let position = read_position E s user; now = ledger_seq E in
      if debt_amount position \<le> 0 \<or> last_accrual_ledger position \<ge> now then
        (let position' = position\<lparr>last_accrual_ledger := now\<rparr> in Inr (write_position user position' s, position'))
      else
        rbind (interest_due orc E s position) (\<lambda>interest.
        rbind (if interest > 0 then
                 rbind (checked_add (debt_amount position) interest) (\<lambda>debt.
                 rbind (checked_add (cd_total_debt_of s) interest) (\<lambda>new_total_debt.
                 rbind (checked_add (cd_supply_of s) interest) (\<lambda>new_supply.
                 Inr (s\<lparr>cd_total_debt := Some new_total_debt, cd_total_stable_supply := Some new_supply\<rparr>,
                      position\<lparr>debt_amount := debt\<rparr>))))
               else Inr (s, position)) (\<lambda>(s', position).
        let position' = position\<lparr>last_accrual_ledger := now\<rparr> in
        Inr (write_position user position' s', position'))))"

section \<open>Safety of a position\<close>

definition cd_dynamic_collateral_floor :: "price_oracle \<Rightarrow> env \<Rightarrow> cdp \<Rightarrow> int cdp_res" where
  "cd_dynamic_collateral_floor orc E s =
     rbind (read_risk_params s) (\<lambda>params.
     rbind (oracle_volatility_bps orc E s) (\<lambda>volatility.
     let config = rp_volatility_config params in
     if volatility \<le> low_volatility_threshold_bps config then Inr (base_collateral_floor_bps config)
     else if volatility \<ge> high_volatility_threshold_bps config then Inr (max_collateral_floor_bps config)
     else
       rbind (fit E I128 (high_volatility_threshold_bps config - low_volatility_threshold_bps config)) (\<lambda>volatility_range.
       rbind (fit E I128 (volatility - low_volatility_threshold_bps config)) (\<lambda>volatility_above_low.
       rbind (fit E I128 (max_collateral_floor_bps config - base_collateral_floor_bps config)) (\<lambda>floor_range.
       rbind (checked_mul floor_range volatility_above_low) (\<lambda>v.
       rbind (quot I128 v volatility_range) (\<lambda>additional_floor.
       checked_add (base_collateral_floor_bps config) additional_floor)))))))"

definition ensure_safe :: "price_oracle \<Rightarrow> env \<Rightarrow> cdp \<Rightarrow> position \<Rightarrow> unit cdp_res" where
  "ensure_safe orc E s position =
     rbind (oracle_price orc E s) (\<lambda>price.
     rbind (read_risk_params s) (\<lambda>params.
     rbind (cd_dynamic_collateral_floor orc E s) (\<lambda>dynamic_floor.
     rbind (collateral_ratio_bps price (collateral_amount position) (debt_amount position)) (\<lambda>ratio.
     let required_ratio = (if min_collateral_ratio_bps params > dynamic_floor then min_collateral_ratio_bps params else dynamic_floor) in
     if ratio < required_ratio then Inl (Err Undercollateralized) else Inr ()))))"

section \<open>Entry points\<close>

definition cd_initialize ::
    "cdp \<Rightarrow> address \<Rightarrow> address \<Rightarrow> address \<Rightarrow> risk_params \<Rightarrow> interest_rate_model \<Rightarrow> cdp cdp_res" where
  "cd_initialize s admin collateral_token oracle params model =
     (let config = rp_volatility_config params in
      if cd_admin s \<noteq> None then Inl (Err AlreadyInitialized)
      else if min_collateral_ratio_bps params \<le> BPS \<or> liquidation_incentive_bps params < 0
          \<or> optimal_utilization_bps model \<le> 0 \<or> optimal_utilization_bps model \<ge> BPS
          \<or> low_volatility_threshold_bps config < 0
          \<or> high_volatility_threshold_bps config \<le> low_volatility_threshold_bps config
          \<or> base_collateral_floor_bps config < BPS
          \<or> max_collateral_floor_bps config < base_collateral_floor_bps config
          \<or> max_collateral_floor_bps config > BPS * 3
      then Inl (Err InvalidConfig)
      else Inr (s\<lparr>cd_admin := Some admin, cd_collateral_token := Some collateral_token, cd_oracle := Some oracle,
                  cd_risk_params := Some params, cd_interest_rate_model := Some model, cd_total_collateral := Some 0,
                  cd_total_debt := Some 0, cd_total_stable_supply := Some 0, cd_protocol_collateral_reserves := Some 0,
                  cd_total_bad_debt := Some 0\<rparr>))"

definition cd_set_oracle :: "env \<Rightarrow> cdp \<Rightarrow> address \<Rightarrow> cdp cdp_res" where
  "cd_set_oracle E s oracle = rbind (cd_require_admin E s) (\<lambda>_. Inr (s\<lparr>cd_oracle := Some oracle\<rparr>))"

definition cd_get_position :: "env \<Rightarrow> cdp \<Rightarrow> address \<Rightarrow> position" where
  "cd_get_position E s user = read_position E s user"

definition cd_stable_balance :: "cdp \<Rightarrow> address \<Rightarrow> int" where
  "cd_stable_balance s user = read_stable_balance s user"

definition cd_current_borrow_rate_bps :: "price_oracle \<Rightarrow> env \<Rightarrow> cdp \<Rightarrow> int cdp_res" where
  "cd_current_borrow_rate_bps orc E s =
     rbind (read_interest_model s) (\<lambda>model.
     rbind (oracle_price orc E s) (\<lambda>price.
     rbind (utilization_bps s price) (\<lambda>util.
     borrow_rate_bps E model util)))"

definition cd_collateral_ratio_bps :: "price_oracle \<Rightarrow> env \<Rightarrow> cdp \<Rightarrow> address \<Rightarrow> int cdp_res" where
  "cd_collateral_ratio_bps orc E s user =
     (let position = read_position E s user in
      rbind (oracle_price orc E s) (\<lambda>price.
      collateral_ratio_bps price (collateral_amount position) (debt_amount position)))"

definition cd_current_volatility_bps :: "price_oracle \<Rightarrow> env \<Rightarrow> cdp \<Rightarrow> int cdp_res" where
  "cd_current_volatility_bps orc E s = oracle_volatility_bps orc E s"

definition cd_deposit_collateral ::
    "price_oracle \<Rightarrow> 'w token_xfer \<Rightarrow> env \<Rightarrow> cdp \<times> 'w \<Rightarrow> address \<Rightarrow> int \<Rightarrow> ((cdp \<times> 'w) \<times> position) cdp_res" where
  "cd_deposit_collateral orc xfer E sw user amount =
     (let s = fst sw; w = snd sw in
      rbind (require_auth E user) (\<lambda>_.
      if amount \<le> 0 then Inl (Err InvalidAmount)
      else
        rbind (ok_or NotInitialized (cd_collateral_token s)) (\<lambda>collateral_token.
        rbind (accrue_position orc E s user) (\<lambda>(s1, position).
        rbind (call (xfer E collateral_token user (this_contract E) amount w)) (\<lambda>w'.
        rbind (checked_add (collateral_amount position) amount) (\<lambda>collateral.
        let position' = position\<lparr>collateral_amount := collateral\<rparr>; s2 = write_position user position' s1 in
        rbind (checked_add (cd_total_collateral_of s2) amount) (\<lambda>total.
        Inr ((s2\<lparr>cd_total_collateral := Some total\<rparr>, w'), position'))))))))"

definition cd_withdraw_collateral ::
    "price_oracle \<Rightarrow> 'w token_xfer \<Rightarrow> env \<Rightarrow> cdp \<times> 'w \<Rightarrow> address \<Rightarrow> int \<Rightarrow> ((cdp \<times> 'w) \<times> position) cdp_res" where
  "cd_withdraw_collateral orc xfer E sw user amount =
     (let s = fst sw; w = snd sw in
      rbind (require_auth E user) (\<lambda>_.
      if amount \<le> 0 then Inl (Err InvalidAmount)
      else
        rbind (ok_or NotInitialized (cd_collateral_token s)) (\<lambda>collateral_token.
        rbind (accrue_position orc E s user) (\<lambda>(s1, position).
        if amount > collateral_amount position then Inl (Err InsufficientCollateral)
        else
          rbind (checked_sub (collateral_amount position) amount) (\<lambda>collateral.
          let position' = position\<lparr>collateral_amount := collateral\<rparr> in
          rbind (ensure_safe orc E s1 position') (\<lambda>_.
          let s2 = write_position user position' s1 in
          rbind (checked_sub (cd_total_collateral_of s2) amount) (\<lambda>total.
          rbind (call (xfer E collateral_token (this_contract E) user amount w)) (\<lambda>w'.
          Inr ((s2\<lparr>cd_total_collateral := Some total\<rparr>, w'), position')))))))))"

definition cd_mint_stable :: "price_oracle \<Rightarrow> env \<Rightarrow> cdp \<Rightarrow> address \<Rightarrow> int \<Rightarrow> (cdp \<times> position) cdp_res" where
  "cd_mint_stable orc E s user amount =
     rbind (require_auth E user) (\<lambda>_.
     if amount \<le> 0 then Inl (Err InvalidAmount)
     else
       rbind (accrue_position orc E s user) (\<lambda>(s1, position).
       rbind (checked_add (debt_amount position) amount) (\<lambda>debt.
       let position' = position\<lparr>debt_amount := debt\<rparr> in
       rbind (ensure_safe orc E s1 position') (\<lambda>_.
       rbind (checked_add (read_stable_balance s1 user) amount) (\<lambda>new_balance.
       let s2 = write_position user position' (write_stable_balance user new_balance s1) in
       rbind (checked_add (cd_total_debt_of s2) amount) (\<lambda>new_debt.
       rbind (checked_add (cd_supply_of s2) amount) (\<lambda>total_supply.
       Inr (s2\<lparr>cd_total_debt := Some new_debt, cd_total_stable_supply := Some total_supply\<rparr>, position'))))))))"

definition cd_repay :: "price_oracle \<Rightarrow> env \<Rightarrow> cdp \<Rightarrow> address \<Rightarrow> int \<Rightarrow> (cdp \<times> position) cdp_res" where
  "cd_repay orc E s user amount =
     rbind (require_auth E user) (\<lambda>_.
     if amount \<le> 0 then Inl (Err InvalidAmount)
     else
       rbind (accrue_position orc E s user) (\<lambda>(s1, position).
       let balance = read_stable_balance s1 user in
       if balance \<le> 0 then Inl (Err InsufficientStableBalance)
       else
         let repay1 = (if amount > balance then balance else amount);
             repay = (if repay1 > debt_amount position then debt_amount position else repay1) in
         if repay \<le> 0 then Inl (Err InvalidAmount)
         else
           rbind (checked_sub (debt_amount position) repay) (\<lambda>debt.
           let position' = position\<lparr>debt_amount := debt\<rparr> in
           rbind (checked_sub balance repay) (\<lambda>new_balance.
           let s2 = write_position user position' (write_stable_balance user new_balance s1) in
           rbind (checked_sub (cd_total_debt_of s2) repay) (\<lambda>new_debt.
           rbind (checked_sub (cd_supply_of s2) repay) (\<lambda>total_supply.
           Inr (s2\<lparr>cd_total_debt := Some new_debt, cd_total_stable_supply := Some total_supply\<rparr>, position')))))))"

definition cd_transfer_stable :: "env \<Rightarrow> cdp \<Rightarrow> address \<Rightarrow> address \<Rightarrow> int \<Rightarrow> cdp cdp_res" where
  "cd_transfer_stable E s src to amount =
     rbind (require_auth E src) (\<lambda>_.
     if amount \<le> 0 then Inl (Err InvalidAmount)
     else
       let from_balance = read_stable_balance s src in
       if from_balance < amount then Inl (Err InsufficientStableBalance)
       else
         rbind (checked_sub from_balance amount) (\<lambda>b.
         let s1 = write_stable_balance src b s in
         rbind (checked_add (read_stable_balance s1 to) amount) (\<lambda>b'.
         Inr (write_stable_balance to b' s1))))"

section \<open>Liquidation\<close>

definition max_coverable :: "env \<Rightarrow> risk_params \<Rightarrow> int \<Rightarrow> int cdp_res" where
  "max_coverable E params collateral_value_total =
     rbind (checked_mul collateral_value_total BPS) (\<lambda>v.
     rbind (fit E I128 (BPS + liquidation_incentive_bps params)) (\<lambda>d.
     quot I128 v d))"

definition cd_quote_liquidation ::
    "price_oracle \<Rightarrow> env \<Rightarrow> cdp \<Rightarrow> address \<Rightarrow> int \<Rightarrow> (cdp \<times> liquidation_quote) cdp_res" where
  "cd_quote_liquidation orc E s borrower requested_repay_amount =
     (if requested_repay_amount \<le> 0 then Inl (Err InvalidAmount)
      else
        rbind (accrue_position orc E s borrower) (\<lambda>(s1, position).
        rbind (read_risk_params s1) (\<lambda>params.
        rbind (oracle_price orc E s1) (\<lambda>price.
        rbind (collateral_ratio_bps price (collateral_amount position) (debt_amount position)) (\<lambda>ratio.
        if ratio \<ge> min_collateral_ratio_bps params then Inl (Err PositionHealthy)
        else
          rbind (collateral_value price (collateral_amount position)) (\<lambda>collateral_value_total.
          rbind (max_coverable E params collateral_value_total) (\<lambda>max_coverable_repay.
          let repay = min (min requested_repay_amount (debt_amount position)) max_coverable_repay in
          if repay \<le> 0 then Inl (Err LiquidationUnavailable)
          else
            rbind (fit E I128 (BPS + liquidation_incentive_bps params)) (\<lambda>factor.
            rbind (checked_mul repay factor) (\<lambda>v.
            rbind (quot I128 v BPS) (\<lambda>seize_value.
            rbind (checked_mul seize_value PRICE_SCALE) (\<lambda>v'.
            rbind (quot I128 v' price) (\<lambda>seize.
            let seize' = (if seize > collateral_amount position then collateral_amount position else seize) in
            rbind (checked_sub seize_value repay) (\<lambda>incentive.
            Inr (s1, \<lparr>repay_amount = repay, collateral_to_seize = seize', incentive_amount = incentive\<rparr>))))))))))))))"

definition cd_liquidate ::
    "price_oracle \<Rightarrow> 'w token_xfer \<Rightarrow> env \<Rightarrow> cdp \<times> 'w \<Rightarrow> address \<Rightarrow> address \<Rightarrow> int \<Rightarrow> ((cdp \<times> 'w) \<times> liquidation_quote) cdp_res" where
  "cd_liquidate orc xfer E sw liquidator borrower requested_repay_amount =
     (let s = fst sw; w = snd sw in
      rbind (require_auth E liquidator) (\<lambda>_.
      rbind (cd_quote_liquidation orc E s borrower requested_repay_amount) (\<lambda>(s1, quote).
      let liquidator_balance = read_stable_balance s1 liquidator in
      if liquidator_balance < repay_amount quote then Inl (Err InsufficientStableBalance)
      else
        rbind (ok_or NotInitialized (cd_collateral_token s1)) (\<lambda>collateral_token.
        let position = read_position E s1 borrower in
        rbind (checked_sub (debt_amount position) (repay_amount quote)) (\<lambda>debt.
        rbind (checked_sub (collateral_amount position) (collateral_to_seize quote)) (\<lambda>collateral.
        let position' = position\<lparr>debt_amount := debt, collateral_amount := collateral\<rparr> in
        rbind (checked_sub liquidator_balance (repay_amount quote)) (\<lambda>new_balance.
        let s2 = write_position borrower position' (write_stable_balance liquidator new_balance s1) in
        rbind (checked_sub (cd_total_debt_of s2) (repay_amount quote)) (\<lambda>new_debt.
        rbind (checked_sub (cd_supply_of s2) (repay_amount quote)) (\<lambda>new_supply.
        rbind (checked_sub (cd_total_collateral_of s2) (collateral_to_seize quote)) (\<lambda>new_collateral.
        rbind (call (xfer E collateral_token (this_contract E) liquidator (collateral_to_seize quote) w)) (\<lambda>w'.
        Inr ((s2\<lparr>cd_total_debt := Some new_debt, cd_total_stable_supply := Some new_supply,
                 cd_total_collateral := Some new_collateral\<rparr>, w'), quote))))))))))))"

definition cd_self_liquidate :: "price_oracle \<Rightarrow> env \<Rightarrow> cdp \<Rightarrow> address \<Rightarrow> (cdp \<times> position) cdp_res" where
  "cd_self_liquidate orc E s borrower =
     rbind (accrue_position orc E s borrower) (\<lambda>(s1, position).
     rbind (read_risk_params s1) (\<lambda>params.
     rbind (oracle_price orc E s1) (\<lambda>price.
     rbind (collateral_ratio_bps price (collateral_amount position) (debt_amount position)) (\<lambda>ratio.
     if ratio \<ge> min_collateral_ratio_bps params then Inl (Err PositionHealthy)
     else
       rbind (collateral_value price (collateral_amount position)) (\<lambda>collateral_value_total.
       rbind (max_coverable E params collateral_value_total) (\<lambda>repay_coverable.
       rbind (if debt_amount position > repay_coverable then fit E I128 (debt_amount position - repay_coverable) else Inr 0)
         (\<lambda>bad_debt.
       rbind (fit E I128 (debt_amount position - bad_debt)) (\<lambda>debt_repaid.
       let seized_collateral = collateral_amount position in
       rbind (checked_add (cd_reserves_of s1) seized_collateral) (\<lambda>reserves.
       rbind (checked_add (cd_bad_debt_of s1) bad_debt) (\<lambda>bad_total.
       rbind (checked_sub (cd_total_debt_of s1) debt_repaid) (\<lambda>new_debt.
       rbind (checked_sub (cd_total_collateral_of s1) seized_collateral) (\<lambda>new_collateral.
       let position' = position\<lparr>collateral_amount := 0, debt_amount := 0, last_accrual_ledger := ledger_seq E\<rparr> in
       Inr (write_position borrower position'
              (s1\<lparr>cd_protocol_collateral_reserves := Some reserves, cd_total_bad_debt := Some bad_total,
                  cd_total_debt := Some new_debt, cd_total_collateral := Some new_collateral\<rparr>), position')))))))))))))"

end
