(* ===== verification/CdpProperties.thy ===== *)
theory CdpProperties
  imports Cdp Token
begin

text \<open>
  Properties of the debt contract: its books balance and the collateral is backed by tokens, withdrawals and
  mints leave a safe position, liquidations take no more than the incentive allows, and a defect of the
  liquidation into the reserves. Every call that touches positions is first reduced to one shape, \<open>moved\<close>.
\<close>

section \<open>Operations\<close>

datatype cdp_op =
    CInitialize address address address risk_params interest_rate_model
  | CSetOracle address
  | CDeposit address int
  | CWithdraw address int
  | CMint address int
  | CRepay address int
  | CTransfer address address int
  | CQuote address int
  | CLiquidate address address int
  | CSelfLiquidate address

fun cd_exec :: "price_oracle \<Rightarrow> 'w token_xfer \<Rightarrow> env \<Rightarrow> cdp \<times> 'w \<Rightarrow> cdp_op \<Rightarrow> ((cdp \<times> 'w) \<times> unit) cdp_res" where
  "cd_exec orc xfer E (s, w) (CInitialize a t o' p m) = rbind (cd_initialize s a t o' p m) (\<lambda>s'. Inr ((s', w), ()))"
| "cd_exec orc xfer E (s, w) (CSetOracle o') = rbind (cd_set_oracle E s o') (\<lambda>s'. Inr ((s', w), ()))"
| "cd_exec orc xfer E sw (CDeposit u n) = rbind (cd_deposit_collateral orc xfer E sw u n) (\<lambda>(sw', p). Inr (sw', ()))"
| "cd_exec orc xfer E sw (CWithdraw u n) = rbind (cd_withdraw_collateral orc xfer E sw u n) (\<lambda>(sw', p). Inr (sw', ()))"
| "cd_exec orc xfer E (s, w) (CMint u n) = rbind (cd_mint_stable orc E s u n) (\<lambda>(s', p). Inr ((s', w), ()))"
| "cd_exec orc xfer E (s, w) (CRepay u n) = rbind (cd_repay orc E s u n) (\<lambda>(s', p). Inr ((s', w), ()))"
| "cd_exec orc xfer E (s, w) (CTransfer a b n) = rbind (cd_transfer_stable E s a b n) (\<lambda>s'. Inr ((s', w), ()))"
| "cd_exec orc xfer E (s, w) (CQuote b n) = rbind (cd_quote_liquidation orc E s b n) (\<lambda>(s', q). Inr ((s', w), ()))"
| "cd_exec orc xfer E sw (CLiquidate l b n) = rbind (cd_liquidate orc xfer E sw l b n) (\<lambda>(sw', q). Inr (sw', ()))"
| "cd_exec orc xfer E (s, w) (CSelfLiquidate b) = rbind (cd_self_liquidate orc E s b) (\<lambda>(s', p). Inr ((s', w), ()))"

section \<open>The books\<close>

definition collateral_of :: "cdp \<Rightarrow> address \<Rightarrow> int" where
  "collateral_of s u = (case cd_positions s u of Some p \<Rightarrow> collateral_amount p | None \<Rightarrow> 0)"

definition debt_of :: "cdp \<Rightarrow> address \<Rightarrow> int" where
  "debt_of s u = (case cd_positions s u of Some p \<Rightarrow> debt_amount p | None \<Rightarrow> 0)"

definition collaterals :: "cdp \<Rightarrow> address \<rightharpoonup> int" where
  "collaterals s = (\<lambda>u. map_option collateral_amount (cd_positions s u))"

definition debts :: "cdp \<Rightarrow> address \<rightharpoonup> int" where
  "debts s = (\<lambda>u. map_option debt_amount (cd_positions s u))"

lemma get_collaterals: "get_or (collaterals s) u 0 = collateral_of s u"
  by (simp add: collaterals_def get_or_def collateral_of_def split: option.splits)

lemma get_debts: "get_or (debts s) u 0 = debt_of s u"
  by (simp add: debts_def get_or_def debt_of_def split: option.splits)

lemma dom_books [simp]: "dom (collaterals s) = dom (cd_positions s)" "dom (debts s) = dom (cd_positions s)"
  by (auto simp: collaterals_def debts_def)

lemma read_position_of [simp]:
  "collateral_amount (read_position E s u) = collateral_of s u" "debt_amount (read_position E s u) = debt_of s u"
  by (simp_all add: read_position_def get_or_def collateral_of_def debt_of_def split: option.splits)

definition params_ok :: "cdp \<Rightarrow> bool" where
  "params_ok s \<longleftrightarrow> (\<forall>p. cd_risk_params s = Some p \<longrightarrow> BPS < min_collateral_ratio_bps p \<and> 0 \<le> liquidation_incentive_bps p)"

definition cdp_inv :: "cdp \<Rightarrow> bool" where
  "cdp_inv s \<longleftrightarrow> finite (dom (cd_positions s)) \<and> finite (dom (cd_stable_balances s))
     \<and> (\<forall>u. 0 \<le> collateral_of s u \<and> 0 \<le> debt_of s u \<and> 0 \<le> read_stable_balance s u)
     \<and> cd_total_collateral_of s = map_sum (collaterals s)
     \<and> cd_total_debt_of s = map_sum (debts s) + cd_bad_debt_of s
     \<and> map_sum (cd_stable_balances s) \<le> cd_supply_of s
     \<and> 0 \<le> cd_bad_debt_of s \<and> 0 \<le> cd_reserves_of s \<and> params_ok s
     \<and> (cd_admin s = None \<longrightarrow> cd_positions s = Map.empty \<and> cd_stable_balances s = Map.empty
          \<and> cd_collateral_token s = None \<and> cd_oracle s = None \<and> cd_risk_params s = None)"

definition same_terms :: "cdp \<Rightarrow> cdp \<Rightarrow> bool" where
  "same_terms s s' \<longleftrightarrow> cd_admin s' = cd_admin s \<and> cd_collateral_token s' = cd_collateral_token s
     \<and> cd_risk_params s' = cd_risk_params s \<and> cd_oracle s' = cd_oracle s \<and> cd_interest_rate_model s' = cd_interest_rate_model s"

text \<open>
  One position changes by \<open>c\<close> of collateral and \<open>d\<close> of debt, one stable balance by \<open>b\<close>, the supply by \<open>t\<close>, the
  reserves by \<open>r\<close> and the bad debt by \<open>x\<close>; the two totals follow.
\<close>

definition moved :: "address \<Rightarrow> int \<Rightarrow> int \<Rightarrow> address \<Rightarrow> int \<Rightarrow> int \<Rightarrow> int \<Rightarrow> int \<Rightarrow> cdp \<Rightarrow> cdp \<Rightarrow> bool" where
  "moved u c d v b t r x s s' \<longleftrightarrow> same_terms s s'
     \<and> (\<exists>p. cd_positions s' = (cd_positions s)(u \<mapsto> p) \<and> collateral_amount p = collateral_of s u + c
          \<and> debt_amount p = debt_of s u + d)
     \<and> (b = 0 \<and> cd_stable_balances s' = cd_stable_balances s
          \<or> cd_stable_balances s' = (cd_stable_balances s)(v \<mapsto> read_stable_balance s v + b))
     \<and> cd_total_collateral_of s' = cd_total_collateral_of s + c
     \<and> cd_total_debt_of s' = cd_total_debt_of s + d + x \<and> cd_supply_of s' = cd_supply_of s + t
     \<and> cd_reserves_of s' = cd_reserves_of s + r \<and> cd_bad_debt_of s' = cd_bad_debt_of s + x"

lemma moved_inv:
  assumes inv: "cdp_inv s" and m: "moved u c d v b t r x s s'" and a: "cd_admin s \<noteq> None"
    and n: "0 \<le> collateral_of s u + c" "0 \<le> debt_of s u + d" "0 \<le> read_stable_balance s v + b" "b \<le> t" "0 \<le> r" "0 \<le> x"
  shows "cdp_inv s'"
proof -
  from m obtain p where p: "cd_positions s' = (cd_positions s)(u \<mapsto> p)" "collateral_amount p = collateral_of s u + c"
      "debt_amount p = debt_of s u + d"
    and bal: "b = 0 \<and> cd_stable_balances s' = cd_stable_balances s
          \<or> cd_stable_balances s' = (cd_stable_balances s)(v \<mapsto> read_stable_balance s v + b)"
    and tot: "cd_total_collateral_of s' = cd_total_collateral_of s + c"
      "cd_total_debt_of s' = cd_total_debt_of s + d + x" "cd_supply_of s' = cd_supply_of s + t"
      "cd_reserves_of s' = cd_reserves_of s + r" "cd_bad_debt_of s' = cd_bad_debt_of s + x"
    and terms: "same_terms s s'"
    by (auto simp: moved_def)
  have fin: "finite (dom (cd_positions s))" "finite (dom (cd_stable_balances s))" using inv by (auto simp: cdp_inv_def)
  have "collaterals s' = (collaterals s)(u \<mapsto> collateral_of s u + c)" "debts s' = (debts s)(u \<mapsto> debt_of s u + d)"
    using p by (auto simp: collaterals_def debts_def)
  then have sums: "map_sum (collaterals s') = map_sum (collaterals s) + c" "map_sum (debts s') = map_sum (debts s) + d"
    using fin(1) by (simp_all add: get_collaterals get_debts)
  have bsum: "map_sum (cd_stable_balances s') = map_sum (cd_stable_balances s) + b"
    using bal fin(2) by (auto simp: read_stable_balance_def)
  have vals: "0 \<le> collateral_of s' y \<and> 0 \<le> debt_of s' y \<and> 0 \<le> read_stable_balance s' y" for y
    using inv n(1-3) p bal by (auto simp: cdp_inv_def collateral_of_def debt_of_def read_stable_balance_def get_or_upd)
  have dom: "finite (dom (cd_positions s'))" "finite (dom (cd_stable_balances s'))" using fin p bal by auto
  from inv n(4-6) a terms tot show ?thesis
    by (auto simp: cdp_inv_def sums bsum vals dom params_ok_def same_terms_def)
qed

lemma initialized: "cdp_inv s \<Longrightarrow> cd_risk_params s = Some p \<Longrightarrow> cd_admin s \<noteq> None"
  "cdp_inv s \<Longrightarrow> cd_collateral_token s = Some t \<Longrightarrow> cd_admin s \<noteq> None"
  "cdp_inv s \<Longrightarrow> cd_oracle s = Some q \<Longrightarrow> cd_admin s \<noteq> None"
  "cdp_inv s \<Longrightarrow> 0 < read_stable_balance s u \<Longrightarrow> cd_admin s \<noteq> None"
  by (auto simp: cdp_inv_def read_stable_balance_def)

section \<open>What the calls do\<close>

lemma checked_Inr [simp]:
  "checked_add a b = Inr v \<longleftrightarrow> v = a + b \<and> in_range I128 v"
  "checked_sub a b = Inr v \<longleftrightarrow> v = a - b \<and> in_range I128 v"
  "checked_mul a b = Inr v \<longleftrightarrow> v = a * b \<and> in_range I128 v"
  by (auto simp: checked_add_def checked_sub_def checked_mul_def)

lemma writes [simp]:
  "cd_total_debt_of (write_position u p s) = cd_total_debt_of s" "cd_supply_of (write_position u p s) = cd_supply_of s"
  "cd_total_collateral_of (write_position u p s) = cd_total_collateral_of s"
  "cd_reserves_of (write_position u p s) = cd_reserves_of s" "cd_bad_debt_of (write_position u p s) = cd_bad_debt_of s"
  "cd_total_debt_of (write_stable_balance u n s) = cd_total_debt_of s" "cd_supply_of (write_stable_balance u n s) = cd_supply_of s"
  "cd_total_collateral_of (write_stable_balance u n s) = cd_total_collateral_of s"
  "cd_reserves_of (write_stable_balance u n s) = cd_reserves_of s" "cd_bad_debt_of (write_stable_balance u n s) = cd_bad_debt_of s"
  "read_stable_balance (write_position u p s) v = read_stable_balance s v"
  by (simp_all add: write_position_def write_stable_balance_def cd_total_debt_of_def cd_supply_of_def
      cd_total_collateral_of_def cd_reserves_of_def cd_bad_debt_of_def read_stable_balance_def)

lemmas cd_totals = cd_total_debt_of_def cd_supply_of_def cd_total_collateral_of_def cd_reserves_of_def cd_bad_debt_of_def

text \<open>Accrual adds interest \<open>i\<close> to the debt, the total and the supply.\<close>

definition accrued :: "env \<Rightarrow> address \<Rightarrow> int \<Rightarrow> cdp \<Rightarrow> cdp \<Rightarrow> position \<Rightarrow> bool" where
  "accrued E u i s s1 p \<longleftrightarrow> 0 \<le> i \<and> same_terms s s1 \<and> cd_stable_balances s1 = cd_stable_balances s
     \<and> cd_positions s1 = (cd_positions s)(u \<mapsto> p)
     \<and> p = \<lparr>collateral_amount = collateral_of s u, debt_amount = debt_of s u + i, last_accrual_ledger = ledger_seq E\<rparr>
     \<and> cd_total_collateral_of s1 = cd_total_collateral_of s \<and> cd_total_debt_of s1 = cd_total_debt_of s + i
     \<and> cd_supply_of s1 = cd_supply_of s + i \<and> cd_reserves_of s1 = cd_reserves_of s \<and> cd_bad_debt_of s1 = cd_bad_debt_of s"

lemma accrue_Inr:
  assumes "accrue_position orc E s u = Inr (s1, p)"
  shows "\<exists>i. accrued E u i s s1 p"
proof -
  let ?p = "read_position E s u"
  have same: "accrued E u 0 s s1 p" if "s1 = write_position u p s" "p = ?p\<lparr>last_accrual_ledger := ledger_seq E\<rparr>"
    using that by (simp add: accrued_def write_position_def same_terms_def cd_totals)
  show ?thesis
  proof (cases "debt_amount ?p \<le> 0 \<or> last_accrual_ledger ?p \<ge> ledger_seq E")
    case True
    have "s1 = write_position u p s \<and> p = ?p\<lparr>last_accrual_ledger := ledger_seq E\<rparr>"
      using assms True by (simp add: accrue_position_def Let_def) auto
    with same show ?thesis by blast
  next
    case False
    with assms obtain i where i: "interest_due orc E s ?p = Inr i" by (auto simp: accrue_position_def Let_def)
    show ?thesis
    proof (cases "0 < i")
      case True
      with False assms i have "s1 = write_position u p (s\<lparr>cd_total_debt := Some (cd_total_debt_of s + i),
            cd_total_stable_supply := Some (cd_supply_of s + i)\<rparr>)
          \<and> p = ?p\<lparr>debt_amount := debt_of s u + i, last_accrual_ledger := ledger_seq E\<rparr>"
        by (auto simp: accrue_position_def Let_def)
      with True have "accrued E u i s s1 p" by (simp add: accrued_def write_position_def same_terms_def cd_totals)
      then show ?thesis ..
    next
      case no: False
      have "s1 = write_position u p s \<and> p = ?p\<lparr>last_accrual_ledger := ledger_seq E\<rparr>"
        using False assms i no by (auto simp: accrue_position_def Let_def)
      with same show ?thesis by blast
    qed
  qed
qed

lemma accruedD:
  assumes "accrued E u i s s1 p"
  shows "moved u 0 i v 0 i 0 0 s s1" "read_stable_balance s1 = read_stable_balance s"
    "read_position E s1 u = p" "collateral_amount p = collateral_of s u" "debt_amount p = debt_of s u + i" "0 \<le> i"
    "cd_collateral_token s1 = cd_collateral_token s" "cd_risk_params s1 = cd_risk_params s"
  using assms by (auto simp: accrued_def moved_def read_stable_balance_def read_position_def same_terms_def)

text \<open>A second change of the accrued position.\<close>

lemma accrued_moved:
  assumes "accrued E u i s s1 p" "same_terms s1 s'" "cd_positions s' = (cd_positions s1)(u \<mapsto> q)"
    "collateral_amount q = collateral_amount p + c" "debt_amount q = debt_amount p + d"
    "b = 0 \<and> cd_stable_balances s' = cd_stable_balances s1
       \<or> cd_stable_balances s' = (cd_stable_balances s1)(v \<mapsto> read_stable_balance s1 v + b)"
    "cd_total_collateral_of s' = cd_total_collateral_of s1 + c" "cd_total_debt_of s' = cd_total_debt_of s1 + d + x"
    "cd_supply_of s' = cd_supply_of s1 + t" "cd_reserves_of s' = cd_reserves_of s1 + r" "cd_bad_debt_of s' = cd_bad_debt_of s1 + x"
  shows "moved u c (i + d) v b (i + t) r x s s'"
  using assms by (auto simp: accrued_def moved_def same_terms_def read_stable_balance_def)

lemma deposit_Inr:
  assumes "cd_deposit_collateral orc xfer E (s, w) u n = Inr ((s', w'), q)"
  shows "\<exists>i t. 0 < n \<and> u \<in> set (auths E) \<and> 0 \<le> i \<and> cd_collateral_token s = Some t \<and> moved u n i u 0 i 0 0 s s'
     \<and> xfer E t u (this_contract E) n w = Some w'"
proof -
  from assms obtain t s1 p where a: "0 < n" "u \<in> set (auths E)" "cd_collateral_token s = Some t"
    "accrue_position orc E s u = Inr (s1, p)" "xfer E t u (this_contract E) n w = Some w'"
    "s' = (write_position u (p\<lparr>collateral_amount := collateral_amount p + n\<rparr>) s1)\<lparr>cd_total_collateral := Some (cd_total_collateral_of s1 + n)\<rparr>"
    by (auto simp: cd_deposit_collateral_def Let_def)
  from accrue_Inr [OF a(4)] obtain i where i: "accrued E u i s s1 p" by blast
  have "moved u n (i + 0) u 0 (i + 0) 0 0 s s'"
    by (rule accrued_moved [OF i, where q = "p\<lparr>collateral_amount := collateral_amount p + n\<rparr>"])
      (simp_all add: a(6) same_terms_def write_position_def cd_totals)
  with a accruedD(6) [OF i] show ?thesis by auto
qed

lemma cd_withdraw_Inr:
  assumes "cd_withdraw_collateral orc xfer E (s, w) u n = Inr ((s', w'), q)"
  shows "\<exists>i t s1. 0 < n \<and> n \<le> collateral_of s u \<and> u \<in> set (auths E) \<and> 0 \<le> i \<and> cd_collateral_token s = Some t
     \<and> moved u (- n) i u 0 i 0 0 s s' \<and> xfer E t (this_contract E) u n w = Some w'
     \<and> ensure_safe orc E s1 q = Inr () \<and> same_terms s s1 \<and> cd_positions s' u = Some q"
proof -
  from assms obtain t s1 p where a: "0 < n" "u \<in> set (auths E)" "cd_collateral_token s = Some t" "n \<le> collateral_amount p"
    "accrue_position orc E s u = Inr (s1, p)" "xfer E t (this_contract E) u n w = Some w'"
    "q = p\<lparr>collateral_amount := collateral_amount p - n\<rparr>" "ensure_safe orc E s1 q = Inr ()"
    "s' = (write_position u q s1)\<lparr>cd_total_collateral := Some (cd_total_collateral_of s1 - n)\<rparr>"
    by (auto simp: cd_withdraw_collateral_def Let_def not_le not_less)
  from accrue_Inr [OF a(5)] obtain i where i: "accrued E u i s s1 p" by blast
  have "moved u (- n) (i + 0) u 0 (i + 0) 0 0 s s'"
    by (rule accrued_moved [OF i, where q = q]) (simp_all add: a(7,9) same_terms_def write_position_def cd_totals)
  moreover have "cd_positions s' u = Some q" by (simp add: a(9) write_position_def)
  ultimately show ?thesis using a accruedD [OF i] i by (auto simp: accrued_def)
qed

lemma mint_Inr:
  assumes "cd_mint_stable orc E s u n = Inr (s', q)"
  shows "\<exists>i s1. 0 < n \<and> u \<in> set (auths E) \<and> 0 \<le> i \<and> moved u 0 (i + n) u n (i + n) 0 0 s s'
     \<and> ensure_safe orc E s1 q = Inr () \<and> same_terms s s1 \<and> cd_positions s' u = Some q"
proof -
  from assms obtain s1 p where a: "0 < n" "u \<in> set (auths E)" "accrue_position orc E s u = Inr (s1, p)"
    "q = p\<lparr>debt_amount := debt_amount p + n\<rparr>" "ensure_safe orc E s1 q = Inr ()"
    "s' = (write_position u q (write_stable_balance u (read_stable_balance s1 u + n) s1))
       \<lparr>cd_total_debt := Some (cd_total_debt_of s1 + n), cd_total_stable_supply := Some (cd_supply_of s1 + n)\<rparr>"
    by (auto simp: cd_mint_stable_def Let_def)
  from accrue_Inr [OF a(3)] obtain i where i: "accrued E u i s s1 p" by blast
  have "moved u 0 (i + n) u n (i + n) 0 0 s s'"
    by (rule accrued_moved [OF i, where q = q])
      (simp_all add: a(4,6) same_terms_def write_position_def write_stable_balance_def cd_totals)
  moreover have "cd_positions s' u = Some q" by (simp add: a(6) write_position_def)
  ultimately show ?thesis using a accruedD [OF i] i by (auto simp: accrued_def)
qed

lemma repay_Inr:
  assumes "cd_repay orc E s u n = Inr (s', q)"
  shows "\<exists>i r. 0 < r \<and> r \<le> n \<and> r \<le> read_stable_balance s u \<and> r \<le> debt_of s u + i \<and> u \<in> set (auths E) \<and> 0 \<le> i
     \<and> moved u 0 (i - r) u (- r) (i - r) 0 0 s s'"
proof -
  from assms obtain s1 p r where a: "0 < n" "u \<in> set (auths E)" "accrue_position orc E s u = Inr (s1, p)"
    "0 < read_stable_balance s1 u" "0 < r" "r = min (min n (read_stable_balance s1 u)) (debt_amount p)"
    "s' = (write_position u (p\<lparr>debt_amount := debt_amount p - r\<rparr>) (write_stable_balance u (read_stable_balance s1 u - r) s1))
       \<lparr>cd_total_debt := Some (cd_total_debt_of s1 - r), cd_total_stable_supply := Some (cd_supply_of s1 - r)\<rparr>"
    by (auto simp: cd_repay_def Let_def min_def split: if_splits)
  from accrue_Inr [OF a(3)] obtain i where i: "accrued E u i s s1 p" by blast
  have "moved u 0 (i + (- r)) u (- r) (i + (- r)) 0 0 s s'"
    by (rule accrued_moved [OF i, where q = "p\<lparr>debt_amount := debt_amount p - r\<rparr>"])
      (simp_all add: a(7) same_terms_def write_position_def write_stable_balance_def cd_totals)
  with a accruedD [OF i] show ?thesis by (intro exI [of _ i] exI [of _ r]) auto
qed

lemma transfer_Inr:
  assumes "cd_transfer_stable E s a b n = Inr s'"
  shows "0 < n \<and> a \<in> set (auths E) \<and> n \<le> read_stable_balance s a
     \<and> s' = s\<lparr>cd_stable_balances := (cd_stable_balances s)(a \<mapsto> read_stable_balance s a - n,
          b \<mapsto> (if a = b then read_stable_balance s a else read_stable_balance s b + n))\<rparr>"
  using assms by (auto simp: cd_transfer_stable_def Let_def write_stable_balance_def read_stable_balance_def)

text \<open>The terms a quote offers: the price, the debt and collateral left after accrual, and the split of the repayment.\<close>

lemma oracle_price_Inr: "oracle_price orc E s = Inr price \<Longrightarrow> 0 < price"
  by (auto simp: oracle_price_def not_le split: if_splits)

lemma quote_Inr:
  assumes "cd_quote_liquidation orc E s u n = Inr (s1, q)" and E: "overflow_checks E" and inv: "cdp_inv s"
  shows "\<exists>i p params price ratio. accrued E u i s s1 p \<and> cd_risk_params s = Some params \<and> oracle_price orc E s1 = Inr price
     \<and> collateral_ratio_bps price (collateral_amount p) (debt_amount p) = Inr ratio \<and> ratio < min_collateral_ratio_bps params
     \<and> 0 < repay_amount q \<and> repay_amount q \<le> n \<and> repay_amount q \<le> debt_amount p
     \<and> 0 \<le> collateral_to_seize q \<and> collateral_to_seize q \<le> collateral_amount p
     \<and> collateral_to_seize q * price * BPS \<le> repay_amount q * (BPS + liquidation_incentive_bps params) * PRICE_SCALE"
proof -
  from assms(1) E obtain p params price ratio sv z where a: "accrue_position orc E s u = Inr (s1, p)"
    "cd_risk_params s1 = Some params" "oracle_price orc E s1 = Inr price"
    "collateral_ratio_bps price (collateral_amount p) (debt_amount p) = Inr ratio" "ratio < min_collateral_ratio_bps params"
    and r: "0 < repay_amount q" "repay_amount q \<le> n" "repay_amount q \<le> debt_amount p"
    and sv: "quot I128 (repay_amount q * (BPS + liquidation_incentive_bps params)) BPS = (Inr sv :: int cdp_res)"
    and z: "quot I128 (sv * PRICE_SCALE) price = (Inr z :: int cdp_res)"
      "collateral_to_seize q = (if z > collateral_amount p then collateral_amount p else z)"
    by (auto simp: cd_quote_liquidation_def read_risk_params_def Let_def not_le split: if_splits)
  from accrue_Inr [OF a(1)] obtain i where i: "accrued E u i s s1 p" by blast
  then have params: "cd_risk_params s = Some params" using a(2) accruedD by simp
  have inc: "0 \<le> liquidation_incentive_bps params" using inv params by (auto simp: cdp_inv_def params_ok_def)
  let ?f = "repay_amount q * (BPS + liquidation_incentive_bps params)"
  have B: "0 < BPS" "0 < PRICE_SCALE" by (simp_all add: BPS_def PRICE_SCALE_def)
  have price: "0 < price" using a(3) by (rule oracle_price_Inr)
  have f: "0 \<le> ?f" using r(1) inc B by simp
  then have svv: "sv = ?f div BPS" "0 \<le> sv" using sv B by (auto simp: quot_pos_Inr intro!: div_nonneg_int)
  then have zv: "z = sv * PRICE_SCALE div price" "0 \<le> z" using z(1) price B by (auto simp: quot_pos_Inr intro!: div_nonneg_int)
  have col: "0 \<le> collateral_amount p" using accruedD [OF i] inv by (simp add: cdp_inv_def)
  have le: "collateral_to_seize q \<le> z" using z(2) by auto
  have "collateral_to_seize q * price \<le> z * price" using le price by (intro mult_right_mono) auto
  also have "\<dots> \<le> sv * PRICE_SCALE" using price unfolding zv(1) by (rule div_mult_le_int)
  finally have "collateral_to_seize q * price * BPS \<le> sv * PRICE_SCALE * BPS" using B by (intro mult_right_mono) auto
  also have "\<dots> = sv * BPS * PRICE_SCALE" by simp
  also have "\<dots> \<le> ?f * PRICE_SCALE" using B unfolding svv(1) by (intro mult_right_mono div_mult_le_int) auto
  finally have "collateral_to_seize q * price * BPS \<le> ?f * PRICE_SCALE" .
  with i params a(3-5) r z(2) zv(2) col show ?thesis
    by (intro exI [of _ i] exI [of _ p] exI [of _ params] exI [of _ price] exI [of _ ratio]) auto
qed

lemma liquidate_Inr:
  assumes "cd_liquidate orc xfer E (s, w) l u n = Inr ((s', w'), q)" and E: "overflow_checks E" and inv: "cdp_inv s"
  shows "\<exists>i p s1 params price ratio t. accrued E u i s s1 p \<and> cd_risk_params s = Some params \<and> oracle_price orc E s1 = Inr price
     \<and> collateral_ratio_bps price (collateral_amount p) (debt_amount p) = Inr ratio \<and> ratio < min_collateral_ratio_bps params
     \<and> 0 < repay_amount q \<and> repay_amount q \<le> n \<and> repay_amount q \<le> debt_amount p
     \<and> 0 \<le> collateral_to_seize q \<and> collateral_to_seize q \<le> collateral_amount p
     \<and> collateral_to_seize q * price * BPS \<le> repay_amount q * (BPS + liquidation_incentive_bps params) * PRICE_SCALE
     \<and> l \<in> set (auths E) \<and> repay_amount q \<le> read_stable_balance s l
     \<and> moved u (- collateral_to_seize q) (i - repay_amount q) l (- repay_amount q) (i - repay_amount q) 0 0 s s'
     \<and> cd_collateral_token s = Some t \<and> xfer E t (this_contract E) l (collateral_to_seize q) w = Some w'"
proof -
  let ?r = "repay_amount q" and ?z = "collateral_to_seize q"
  from assms(1) obtain s1 t where a: "l \<in> set (auths E)" "cd_quote_liquidation orc E s u n = Inr (s1, q)"
    "?r \<le> read_stable_balance s1 l" "cd_collateral_token s1 = Some t" "xfer E t (this_contract E) l ?z w = Some w'"
    and s': "s' = (write_position u ((read_position E s1 u)\<lparr>debt_amount := debt_of s1 u - ?r, collateral_amount := collateral_of s1 u - ?z\<rparr>)
        (write_stable_balance l (read_stable_balance s1 l - ?r) s1))
      \<lparr>cd_total_debt := Some (cd_total_debt_of s1 - ?r), cd_total_stable_supply := Some (cd_supply_of s1 - ?r),
       cd_total_collateral := Some (cd_total_collateral_of s1 - ?z)\<rparr>"
    by (auto simp: cd_liquidate_def Let_def not_less split: if_splits)
  from quote_Inr [OF a(2) E inv] obtain i p params price ratio where q: "accrued E u i s s1 p" "cd_risk_params s = Some params"
    "oracle_price orc E s1 = Inr price" "collateral_ratio_bps price (collateral_amount p) (debt_amount p) = Inr ratio"
    "ratio < min_collateral_ratio_bps params" "0 < ?r \<and> ?r \<le> n \<and> ?r \<le> debt_amount p" "0 \<le> ?z \<and> ?z \<le> collateral_amount p"
    "?z * price * BPS \<le> ?r * (BPS + liquidation_incentive_bps params) * PRICE_SCALE" by blast
  note D = accruedD [OF q(1)]
  have p: "debt_of s1 u = debt_amount p" "collateral_of s1 u = collateral_amount p"
    using q(1) by (auto simp: accrued_def debt_of_def collateral_of_def)
  have "moved u (- ?z) (i + (- ?r)) l (- ?r) (i + (- ?r)) 0 0 s s'"
    by (rule accrued_moved [OF q(1), where q = "p\<lparr>debt_amount := debt_amount p - ?r, collateral_amount := collateral_amount p - ?z\<rparr>"])
      (simp_all add: s' D(3) p same_terms_def write_position_def write_stable_balance_def cd_totals)
  with q a(1,3,4,5) D(2,7) show ?thesis
    by (intro exI [of _ i] exI [of _ p] exI [of _ s1] exI [of _ params] exI [of _ price] exI [of _ ratio] exI [of _ t]) auto
qed

lemma max_coverable_Inr:
  assumes "max_coverable E params v = Inr m" "overflow_checks E" "0 \<le> v" "0 \<le> liquidation_incentive_bps params"
  shows "m = v * BPS div (BPS + liquidation_incentive_bps params) \<and> 0 \<le> m"
proof -
  have "0 \<le> v * BPS" "0 < BPS + liquidation_incentive_bps params" using assms(3,4) by (simp_all add: BPS_def)
  with assms(1,2) show ?thesis by (auto simp: max_coverable_def quot_pos_Inr intro!: div_nonneg_int)
qed

lemma collateral_value_Inr:
  assumes "collateral_value price c = Inr v" "0 < price" "0 \<le> c"
  shows "v = c * price div PRICE_SCALE \<and> 0 \<le> v"
  using assms by (auto simp: collateral_value_def quot_pos_Inr PRICE_SCALE_def intro!: div_nonneg_int)

lemma self_liquidate_Inr:
  assumes "cd_self_liquidate orc E s u = Inr (s', q)" and E: "overflow_checks E" and inv: "cdp_inv s"
  shows "\<exists>i p s1 params price x. accrued E u i s s1 p \<and> cd_risk_params s = Some params \<and> oracle_price orc E s1 = Inr price
     \<and> 0 \<le> x \<and> x \<le> debt_amount p \<and> 0 \<le> collateral_of s u
     \<and> x = max 0 (debt_amount p - collateral_of s u * price div PRICE_SCALE * BPS div (BPS + liquidation_incentive_bps params))
     \<and> moved u (- collateral_of s u) (- debt_of s u) u 0 i (collateral_of s u) x s s'"
proof -
  from assms(1) E obtain s1 p params price ratio v m x where a: "accrue_position orc E s u = Inr (s1, p)"
    "cd_risk_params s1 = Some params" "oracle_price orc E s1 = Inr price"
    "collateral_value price (collateral_amount p) = Inr v" "max_coverable E params v = Inr m"
    "x = (if debt_amount p > m then debt_amount p - m else 0)"
    "s' = write_position u (p\<lparr>collateral_amount := 0, debt_amount := 0, last_accrual_ledger := ledger_seq E\<rparr>)
      (s1\<lparr>cd_protocol_collateral_reserves := Some (cd_reserves_of s1 + collateral_amount p),
          cd_total_bad_debt := Some (cd_bad_debt_of s1 + x), cd_total_debt := Some (cd_total_debt_of s1 - (debt_amount p - x)),
          cd_total_collateral := Some (cd_total_collateral_of s1 - collateral_amount p)\<rparr>)"
    by (auto simp: cd_self_liquidate_def read_risk_params_def Let_def split: if_splits)
  from accrue_Inr [OF a(1)] obtain i where i: "accrued E u i s s1 p" by blast
  note D = accruedD [OF i]
  have params: "cd_risk_params s = Some params" using a(2) D by simp
  have pos: "0 \<le> collateral_of s u" "0 \<le> debt_of s u" using inv by (simp_all add: cdp_inv_def)
  have inc: "0 \<le> liquidation_incentive_bps params" using inv params by (auto simp: cdp_inv_def params_ok_def)
  have v: "v = collateral_of s u * price div PRICE_SCALE" "0 \<le> v"
    using collateral_value_Inr [OF a(4) oracle_price_Inr [OF a(3)]] D(4) pos by auto
  have m: "m = v * BPS div (BPS + liquidation_incentive_bps params)" "0 \<le> m"
    using max_coverable_Inr [OF a(5) E v(2) inc] by auto
  have "moved u (- collateral_of s u) (i + (- debt_amount p)) u 0 (i + 0) (collateral_of s u) x s s'"
    by (rule accrued_moved [OF i, where q = "p\<lparr>collateral_amount := 0, debt_amount := 0, last_accrual_ledger := ledger_seq E\<rparr>"])
      (simp_all add: a(7) D(4) same_terms_def write_position_def cd_totals)
  then have "moved u (- collateral_of s u) (- debt_of s u) u 0 i (collateral_of s u) x s s'" by (simp add: D(5))
  moreover have "0 \<le> x \<and> x \<le> debt_amount p" using a(6) m(2) D(5,6) pos by auto
  moreover have "x = max 0 (debt_amount p - collateral_of s u * price div PRICE_SCALE * BPS div (BPS + liquidation_incentive_bps params))"
    using a(6) unfolding m(1) v(1) by auto
  ultimately show ?thesis using i params a(3) pos by blast
qed

section \<open>The books balance\<close>

lemma cd_initialize_Inr:
  assumes "cd_initialize s a t q params model = Inr s'"
  shows "cd_admin s = None \<and> cd_positions s' = cd_positions s \<and> cd_stable_balances s' = cd_stable_balances s
     \<and> cd_admin s' = Some a \<and> cd_collateral_token s' = Some t \<and> cd_oracle s' = Some q \<and> cd_risk_params s' = Some params
     \<and> cd_interest_rate_model s' = Some model \<and> BPS < min_collateral_ratio_bps params \<and> 0 \<le> liquidation_incentive_bps params
     \<and> cd_total_collateral_of s' = 0 \<and> cd_total_debt_of s' = 0 \<and> cd_supply_of s' = 0 \<and> cd_reserves_of s' = 0 \<and> cd_bad_debt_of s' = 0"
  using assms by (auto simp: cd_initialize_def Let_def cd_totals not_le not_less split: if_splits)

lemma transfer_inv:
  assumes "cd_transfer_stable E s a b n = Inr s'" "cdp_inv s"
  shows "cdp_inv s'"
proof -
  note t = transfer_Inr [OF assms(1)]
  have fin: "finite (dom (cd_stable_balances s))" using assms(2) by (simp add: cdp_inv_def)
  have "map_sum (cd_stable_balances s') = map_sum (cd_stable_balances s)"
    using t fin by (auto simp: read_stable_balance_def get_or_upd)
  moreover have "collaterals s' = collaterals s" "debts s' = debts s" "cd_positions s' = cd_positions s"
    using t by (simp_all add: collaterals_def debts_def)
  moreover have "0 \<le> read_stable_balance s' u" for u
    using t assms(2) by (auto simp: read_stable_balance_def get_or_upd cdp_inv_def)
  moreover have "cd_admin s \<noteq> None" using t initialized(4) [OF assms(2), of a] by auto
  ultimately show ?thesis using assms(2) t
    by (auto simp: cdp_inv_def params_ok_def cd_totals collateral_of_def debt_of_def)
qed

lemma cdp_exec_inv:
  assumes run: "cd_exec orc xfer E (s, w) c = Inr ((s', w'), v)" and inv: "cdp_inv s" and E: "overflow_checks E"
  shows "cdp_inv s'"
proof -
  have pos: "0 \<le> collateral_of s u" "0 \<le> debt_of s u" "0 \<le> read_stable_balance s u" for u
    using inv by (simp_all add: cdp_inv_def)
  show ?thesis
  proof (cases c)
    case (CInitialize a t q params model)
    with run have "cd_initialize s a t q params model = Inr s'" by auto
    from cd_initialize_Inr [OF this] inv show ?thesis
      by (auto simp: cdp_inv_def params_ok_def collateral_of_def debt_of_def read_stable_balance_def collaterals_def debts_def)
  next
    case (CSetOracle q)
    with run inv show ?thesis
      by (auto simp: cd_set_oracle_def cd_require_admin_def cdp_inv_def params_ok_def cd_totals collateral_of_def debt_of_def
          read_stable_balance_def collaterals_def debts_def)
  next
    case (CDeposit u n)
    with run obtain q where "cd_deposit_collateral orc xfer E (s, w) u n = Inr ((s', w'), q)" by auto
    from deposit_Inr [OF this] pos [of u] initialized(2) [OF inv] show ?thesis by (auto intro!: moved_inv [OF inv])
  next
    case (CWithdraw u n)
    with run obtain q where "cd_withdraw_collateral orc xfer E (s, w) u n = Inr ((s', w'), q)" by auto
    from cd_withdraw_Inr [OF this] pos [of u] initialized(2) [OF inv] show ?thesis by (auto intro!: moved_inv [OF inv])
  next
    case (CMint u n)
    with run obtain q where "cd_mint_stable orc E s u n = Inr (s', q)" by auto
    from mint_Inr [OF this] obtain i s1 where m: "0 < n" "0 \<le> i" "moved u 0 (i + n) u n (i + n) 0 0 s s'"
      "ensure_safe orc E s1 q = Inr ()" "same_terms s s1" by blast
    from m(4,5) obtain q' where "cd_oracle s = Some q'" by (auto simp: ensure_safe_def oracle_price_def same_terms_def)
    from moved_inv [OF inv m(3) initialized(3) [OF inv this]] m(1,2) pos [of u] show ?thesis by simp
  next
    case (CRepay u n)
    with run obtain q where "cd_repay orc E s u n = Inr (s', q)" by auto
    from repay_Inr [OF this] obtain i r where m: "0 < r" "r \<le> read_stable_balance s u" "r \<le> debt_of s u + i" "0 \<le> i"
      "moved u 0 (i - r) u (- r) (i - r) 0 0 s s'" by blast
    have "cd_admin s \<noteq> None" using m(1,2) by (intro initialized(4) [OF inv, of u]) simp
    from moved_inv [OF inv m(5) this] m pos [of u] show ?thesis by simp
  next
    case (CTransfer a b n)
    with run have "cd_transfer_stable E s a b n = Inr s'" by auto
    from transfer_inv [OF this inv] show ?thesis .
  next
    case (CQuote u n)
    with run obtain q where "cd_quote_liquidation orc E s u n = Inr (s', q)" by auto
    from quote_Inr [OF this E inv] obtain i p params where m: "accrued E u i s s' p" "cd_risk_params s = Some params" by blast
    from moved_inv [OF inv accruedD(1) [OF m(1), of u] initialized(1) [OF inv m(2)]] accruedD(6) [OF m(1)] pos [of u]
    show ?thesis by simp
  next
    case (CLiquidate l u n)
    with run obtain q where "cd_liquidate orc xfer E (s, w) l u n = Inr ((s', w'), q)" by auto
    from liquidate_Inr [OF this E inv] obtain i p s1 params where m: "accrued E u i s s1 p" "cd_risk_params s = Some params"
      "0 < repay_amount q" "repay_amount q \<le> debt_amount p" "0 \<le> collateral_to_seize q"
      "collateral_to_seize q \<le> collateral_amount p" "repay_amount q \<le> read_stable_balance s l"
      "moved u (- collateral_to_seize q) (i - repay_amount q) l (- repay_amount q) (i - repay_amount q) 0 0 s s'" by blast
    from moved_inv [OF inv m(8) initialized(1) [OF inv m(2)]] m(3-7) accruedD [OF m(1)] show ?thesis by simp
  next
    case (CSelfLiquidate u)
    with run obtain q where "cd_self_liquidate orc E s u = Inr (s', q)" by auto
    from self_liquidate_Inr [OF this E inv] obtain i p s1 params x where m: "accrued E u i s s1 p" "cd_risk_params s = Some params"
      "0 \<le> x" "moved u (- collateral_of s u) (- debt_of s u) u 0 i (collateral_of s u) x s s'" by blast
    from moved_inv [OF inv m(4) initialized(1) [OF inv m(2)]] m(3) accruedD(6) [OF m(1)] pos [of u] show ?thesis by simp
  qed
qed

interpretation cdp_books: contract_machine "cd_exec orc xfer" "\<lambda>E c. overflow_checks E" "\<lambda>sw. cdp_inv (fst sw)" for orc xfer
  by unfold_locales (metis prod.collapse cdp_exec_inv)

lemma cdp_inv_empty: "cdp_inv empty_cdp"
  by (simp add: cdp_inv_def empty_cdp_def collateral_of_def debt_of_def read_stable_balance_def cd_totals collaterals_def debts_def params_ok_def)

end
