(* ===== verification/CdpGuarantees.thy ===== *)
theory CdpGuarantees
  imports CdpProperties
begin

text \<open>
  What the debt contract guarantees after any sequence of calls, and what a single withdrawal, mint or
  liquidation guarantees, with a defect of the liquidation into the reserves.
\<close>

section \<open>An example\<close>

text \<open>
  Collateral token 801 with 3000 units at users 5 and 8; the price is 1 until ledger 200 and 0.7 from then on; the
  required ratio is 150\%, the incentive of a liquidator 10\%.
\<close>

definition demo_oracle :: price_oracle where
  "demo_oracle = \<lparr>latest_price = (\<lambda>E o'. Some (if ledger_seq E < 200 then 10000000 else 7000000)), volatility_bps = (\<lambda>E o'. Some 300)\<rparr>"

definition demo_params :: risk_params where
  "demo_params = \<lparr>min_collateral_ratio_bps = 15000, liquidation_incentive_bps = 1000,
     rp_volatility_config = \<lparr>low_volatility_threshold_bps = 500, high_volatility_threshold_bps = 2000,
       base_collateral_floor_bps = 15000, max_collateral_floor_bps = 20000\<rparr>\<rparr>"

definition demo_model :: interest_rate_model where
  "demo_model = \<lparr>base_rate_bps = 200, slope1_bps = 1000, slope2_bps = 5000, optimal_utilization_bps = 8000\<rparr>"

definition cdp_env :: "int \<Rightarrow> address list \<Rightarrow> env" where
  "cdp_env b as = (env0 as)\<lparr>ledger_seq := b\<rparr>"

definition cdp_world :: tokens where
  "cdp_world = [801 \<mapsto> empty_token\<lparr>tk_balances := [5 \<mapsto> 3000, 8 \<mapsto> 3000]\<rparr>]"

definition cdp_demo :: "(env \<times> cdp_op) list" where
  "cdp_demo = [(cdp_env 100 [], CInitialize 9 801 77 demo_params demo_model), (cdp_env 100 [5], CDeposit 5 3000),
     (cdp_env 110 [5], CMint 5 1500), (cdp_env 120 [5], CTransfer 5 6 600), (cdp_env 130 [8], CDeposit 8 3000),
     (cdp_env 140 [8], CMint 8 1800), (cdp_env 150 [8], CWithdraw 8 200)]"

definition cdp_fall :: "(env \<times> cdp_op) list" where
  "cdp_fall = [(cdp_env 200 [6], CLiquidate 6 8 500), (cdp_env 210 [5], CRepay 5 400), (cdp_env 220 [], CSelfLiquidate 8)]"

definition cdp_demo_end :: "cdp \<times> tokens" where
  "cdp_demo_end = run_calls (cd_exec demo_oracle client_transfer) (cdp_demo @ cdp_fall) (empty_cdp, cdp_world)"

definition cdp_figures :: "cdp \<times> tokens \<Rightarrow> int list" where
  "cdp_figures sw = [cd_total_collateral_of (fst sw), cd_reserves_of (fst sw), cd_total_debt_of (fst sw), cd_bad_debt_of (fst sw),
     cd_supply_of (fst sw), collateral_of (fst sw) 5, debt_of (fst sw) 5, read_stable_balance (fst sw) 6,
     client_balance 801 0 (snd sw), client_balance 801 6 (snd sw)]"

lemma cdp_demo_figures: "cdp_figures cdp_demo_end = [3000, 2015, 1119, 19, 2400, 3000, 1100, 100, 5015, 785]"
  by code_simp

lemma cdp_demo_checked: "\<forall>c \<in> set (cdp_demo @ cdp_fall). overflow_checks (fst c)"
  by (simp add: cdp_demo_def cdp_fall_def cdp_env_def env0_def)

lemma cdp_demo_run: "(fst cdp_demo_end, snd cdp_demo_end)
    = run_calls (cd_exec demo_oracle client_transfer) (cdp_demo @ cdp_fall) (empty_cdp, cdp_world)"
  by (simp add: cdp_demo_end_def)

section \<open>Books and backing\<close>

lemma cdp_reachable_inv:
  assumes "\<forall>c \<in> set cs. overflow_checks (fst c)" "(s, w) = run_calls (cd_exec orc xfer) cs (empty_cdp, w0)"
  shows "cdp_inv s"
proof -
  have "cdp_inv (fst (empty_cdp, w0))" by (simp add: cdp_inv_empty)
  from cdp_books.run_inv [where xfer = xfer and orc = orc, OF this assms(1)] assms(2) show ?thesis by (metis fst_conv)
qed

text \<open>
  C15. The books balance: after any calls, whatever the oracle and the token answer, the recorded
  collateral is the sum over the positions, the recorded debt is the sum of the debts and the written-off debt, no
  more stable units circulate than the recorded supply, and no position, debt or balance is negative.
\<close>

theorem cdp_books_balance:
  assumes "\<forall>c \<in> set cs. overflow_checks (fst c)" "(s, w) = run_calls (cd_exec orc xfer) cs (empty_cdp, w0)"
  shows "cd_total_collateral_of s = (\<Sum>u \<in> dom (cd_positions s). collateral_of s u)
    \<and> cd_total_debt_of s = (\<Sum>u \<in> dom (cd_positions s). debt_of s u) + cd_bad_debt_of s
    \<and> (\<Sum>u \<in> dom (cd_stable_balances s). read_stable_balance s u) \<le> cd_supply_of s
    \<and> 0 \<le> collateral_of s u \<and> 0 \<le> debt_of s u \<and> 0 \<le> read_stable_balance s u \<and> 0 \<le> cd_bad_debt_of s"
  using cdp_reachable_inv [OF assms]
  by (simp add: cdp_inv_def map_sum_def get_collaterals get_debts read_stable_balance_def)

theorem cdp_books_balance_witness:
  "cd_total_debt_of (fst cdp_demo_end) = 1119
   \<and> (\<Sum>u \<in> dom (cd_positions (fst cdp_demo_end)). debt_of (fst cdp_demo_end) u) = 1100"
  using cdp_books_balance [OF cdp_demo_checked cdp_demo_run] cdp_demo_figures by (simp add: cdp_figures_def)

definition cdp_call :: "address \<Rightarrow> env \<Rightarrow> cdp_op \<Rightarrow> bool" where
  "cdp_call here E c \<longleftrightarrow> overflow_checks E \<and> this_contract E = here \<and> here \<notin> set (auths E)"

text \<open>Every call but the first keeps the token, and moves as much of it as the collateral in the books.\<close>

context token_ledger
begin

lemma cd_exec_backed:
  assumes run: "cd_exec orc xfer E (s, w) c = Inr ((s', w'), v)" and c: "cdp_call here E c" and inv: "cdp_inv s"
    and t: "cd_collateral_token s = Some t"
  shows "cd_collateral_token s' = Some t \<and> bal t here w' - cd_total_collateral_of s' - cd_reserves_of s'
     = bal t here w - cd_total_collateral_of s - cd_reserves_of s \<and> cd_reserves_of s \<le> cd_reserves_of s'"
proof -
  have E: "overflow_checks E" "this_contract E = here" "here \<notin> set (auths E)" using c by (auto simp: cdp_call_def)
  have adm: "cd_admin s \<noteq> None" using initialized(2) [OF inv t] .
  have m: "cd_collateral_token s' = Some t \<and> cd_total_collateral_of s' = cd_total_collateral_of s + c' \<and> cd_reserves_of s' = cd_reserves_of s + r"
    if "moved u c' d y b m' r x s s'" for u c' d y b m' r x
    using that t by (auto simp: moved_def same_terms_def)
  have move: "bal t a w1 = bal t a w + delta f to n a" if "xfer E t f to n w = Some w1" for a f to n w1
    using xfer_bal [OF E(1) that, of t a] by simp
  have pos: "0 \<le> collateral_of s u" for u using inv by (simp add: cdp_inv_def)
  show ?thesis
  proof (cases c)
    case (CInitialize a t' q params model)
    with run have "cd_initialize s a t' q params model = Inr s'" by auto
    from cd_initialize_Inr [OF this] adm show ?thesis by simp
  next
    case (CSetOracle q)
    with run t show ?thesis by (auto simp: cd_set_oracle_def cd_totals)
  next
    case (CDeposit u n)
    with run obtain q where "cd_deposit_collateral orc xfer E (s, w) u n = Inr ((s', w'), q)" by auto
    from deposit_Inr [OF this] t E obtain i where d: "u \<in> set (auths E)" "moved u n i u 0 i 0 0 s s'" "xfer E t u here n w = Some w'" by auto
    from d(1) E(3) have "u \<noteq> here" by auto
    with m [OF d(2)] move [OF d(3), of here] show ?thesis by (auto simp: delta_def)
  next
    case (CWithdraw u n)
    with run obtain q where "cd_withdraw_collateral orc xfer E (s, w) u n = Inr ((s', w'), q)" by auto
    from cd_withdraw_Inr [OF this] t E obtain i where d: "u \<in> set (auths E)" "moved u (- n) i u 0 i 0 0 s s'" "xfer E t here u n w = Some w'" by auto
    from d(1) E(3) have "u \<noteq> here" by auto
    with m [OF d(2)] move [OF d(3), of here] show ?thesis by (auto simp: delta_def)
  next
    case (CMint u n)
    with run obtain q where "cd_mint_stable orc E s u n = Inr (s', q)" and w: "w' = w" by auto
    from mint_Inr [OF this(1)] m w show ?thesis by fastforce
  next
    case (CRepay u n)
    with run obtain q where "cd_repay orc E s u n = Inr (s', q)" and w: "w' = w" by auto
    from repay_Inr [OF this(1)] m w show ?thesis by fastforce
  next
    case (CTransfer a b n)
    with run have "cd_transfer_stable E s a b n = Inr s'" and w: "w' = w" by auto
    from transfer_Inr [OF this(1)] w t show ?thesis by (simp add: cd_totals)
  next
    case (CQuote u n)
    with run obtain q where "cd_quote_liquidation orc E s u n = Inr (s', q)" and w: "w' = w" by auto
    from quote_Inr [OF this(1) E(1) inv] obtain i p where "accrued E u i s s' p" by blast
    from m [OF accruedD(1) [OF this, of u]] w show ?thesis by simp
  next
    case (CLiquidate l u n)
    with run obtain q where "cd_liquidate orc xfer E (s, w) l u n = Inr ((s', w'), q)" by auto
    from liquidate_Inr [OF this E(1) inv] t E(2) obtain i where d: "l \<in> set (auths E)"
      "moved u (- collateral_to_seize q) (i - repay_amount q) l (- repay_amount q) (i - repay_amount q) 0 0 s s'"
      "xfer E t here l (collateral_to_seize q) w = Some w'" by auto
    from d(1) E(3) have "l \<noteq> here" by auto
    with m [OF d(2)] move [OF d(3), of here] show ?thesis by (auto simp: delta_def)
  next
    case (CSelfLiquidate u)
    with run obtain q where "cd_self_liquidate orc E s u = Inr (s', q)" and w: "w' = w" by auto
    from self_liquidate_Inr [OF this(1) E(1) inv] obtain i x where
      "moved u (- collateral_of s u) (- debt_of s u) u 0 i (collateral_of s u) x s s'" by blast
    from m [OF this] w pos [of u] show ?thesis by simp
  qed
qed

end

text \<open>Before the initialisation no call but the initialisation completes.\<close>

lemma cd_exec_fresh:
  assumes run: "cd_exec orc xfer E (s, w) c = Inr ((s', w'), v)" and inv: "cdp_inv s" and a: "cd_admin s = None" and E: "overflow_checks E"
  shows "w' = w \<and> cd_admin s' \<noteq> None \<and> cd_collateral_token s' \<noteq> None \<and> cd_total_collateral_of s' = 0 \<and> cd_reserves_of s' = 0"
proof (cases c)
  case (CInitialize b t q params model)
  with run have "cd_initialize s b t q params model = Inr s'" and w: "w' = w" by auto
  from cd_initialize_Inr [OF this(1)] w show ?thesis by simp
next
  case (CSetOracle q)
  with run a show ?thesis by (simp add: cd_set_oracle_def cd_require_admin_def)
next
  case (CDeposit u n)
  with run obtain q where "cd_deposit_collateral orc xfer E (s, w) u n = Inr ((s', w'), q)" by auto
  from deposit_Inr [OF this] initialized(2) [OF inv] a show ?thesis by blast
next
  case (CWithdraw u n)
  with run obtain q where "cd_withdraw_collateral orc xfer E (s, w) u n = Inr ((s', w'), q)" by auto
  from cd_withdraw_Inr [OF this] initialized(2) [OF inv] a show ?thesis by blast
next
  case (CMint u n)
  with run obtain q where "cd_mint_stable orc E s u n = Inr (s', q)" by auto
  from mint_Inr [OF this] obtain s1 where "ensure_safe orc E s1 q = Inr ()" "same_terms s s1" by blast
  then obtain z where "cd_oracle s = Some z" by (auto simp: ensure_safe_def oracle_price_def same_terms_def)
  from initialized(3) [OF inv this] a show ?thesis by simp
next
  case (CRepay u n)
  with run obtain q where "cd_repay orc E s u n = Inr (s', q)" by auto
  from repay_Inr [OF this] have "0 < read_stable_balance s u" by force
  from initialized(4) [OF inv this] a show ?thesis by simp
next
  case (CTransfer b d n)
  with run have "cd_transfer_stable E s b d n = Inr s'" by auto
  from transfer_Inr [OF this] have "0 < read_stable_balance s b" by force
  from initialized(4) [OF inv this] a show ?thesis by simp
next
  case (CQuote u n)
  with run obtain q where "cd_quote_liquidation orc E s u n = Inr (s', q)" by auto
  from quote_Inr [OF this E inv] initialized(1) [OF inv] a show ?thesis by blast
next
  case (CLiquidate l u n)
  with run obtain q where "cd_liquidate orc xfer E (s, w) l u n = Inr ((s', w'), q)" by auto
  from liquidate_Inr [OF this E inv] initialized(1) [OF inv] a show ?thesis by blast
next
  case (CSelfLiquidate u)
  with run obtain q where "cd_self_liquidate orc E s u = Inr (s', q)" by auto
  from self_liquidate_Inr [OF this E inv] initialized(1) [OF inv] a show ?thesis by blast
qed

definition cdp_holds :: "address \<Rightarrow> address \<Rightarrow> int \<Rightarrow> cdp \<times> tokens \<Rightarrow> bool" where
  "cdp_holds here t b0 sw \<longleftrightarrow> cdp_inv (fst sw)
     \<and> (if cd_admin (fst sw) = None then client_balance t here (snd sw) = b0
        else cd_collateral_token (fst sw) \<noteq> None \<and> (cd_collateral_token (fst sw) = Some t \<longrightarrow>
          client_balance t here (snd sw) - cd_total_collateral_of (fst sw) - cd_reserves_of (fst sw) = b0))"

interpretation cdp_backing: contract_machine "cd_exec orc client_transfer" "cdp_call here" "cdp_holds here t b0" for orc here t b0
proof
  fix E c sw sw' v
  assume E: "cdp_call here E c" and h: "cdp_holds here t b0 sw" and run: "cd_exec orc client_transfer E sw c = Inr (sw', v)"
  obtain s w s' w' where sw: "sw = (s, w)" "sw' = (s', w')" by (metis surj_pair)
  have ov: "overflow_checks E" using E by (simp add: cdp_call_def)
  have inv: "cdp_inv s" using h sw by (simp add: cdp_holds_def)
  have inv': "cdp_inv s'" using cdp_exec_inv [OF run [unfolded sw] inv ov] .
  show "cdp_holds here t b0 sw'"
  proof (cases "cd_admin s = None")
    case True
    with cd_exec_fresh [OF run [unfolded sw] inv True ov] h sw inv' show ?thesis by (simp add: cdp_holds_def)
  next
    case False
    with h sw obtain t' where t': "cd_collateral_token s = Some t'" by (auto simp: cdp_holds_def)
    from token_world.cd_exec_backed [OF run [unfolded sw] E inv t'] have b: "cd_collateral_token s' = Some t'"
      "client_balance t' here w' - cd_total_collateral_of s' - cd_reserves_of s'
         = client_balance t' here w - cd_total_collateral_of s - cd_reserves_of s" by auto
    with False t' h sw inv' initialized(2) [OF inv' b(1)] show ?thesis by (auto simp: cdp_holds_def)
  qed
qed

text \<open>
  The collateral is backed: after any calls that the contract did not sign itself, with token contracts of this
  repository, the contract holds of its collateral token exactly what it held before, plus the collateral of all
  positions, plus the reserves it has seized.
\<close>

theorem cdp_collateral_backed:
  assumes "\<forall>c \<in> set cs. cdp_call here (fst c) (snd c)"
    and "(s, w) = run_calls (cd_exec orc client_transfer) cs (empty_cdp, w0)" "cd_collateral_token s = Some t"
  shows "client_balance t here w = client_balance t here w0 + (\<Sum>u \<in> dom (cd_positions s). collateral_of s u) + cd_reserves_of s"
proof -
  have "cdp_holds here t (client_balance t here w0) (empty_cdp, w0)"
    using cdp_inv_empty by (simp add: cdp_holds_def) (simp add: empty_cdp_def)
  from cdp_backing.run_inv [OF this assms(1)] have h: "cdp_holds here t (client_balance t here w0) (s, w)" unfolding assms(2) .
  then have "cd_admin s \<noteq> None" using assms(3) initialized(2) by (auto simp: cdp_holds_def)
  with h assms(3) show ?thesis by (simp add: cdp_holds_def cdp_inv_def map_sum_def get_collaterals)
qed

theorem cdp_collateral_backed_witness:
  "client_balance 801 0 (snd cdp_demo_end) = 5015
   \<and> (\<Sum>u \<in> dom (cd_positions (fst cdp_demo_end)). collateral_of (fst cdp_demo_end) u) + cd_reserves_of (fst cdp_demo_end) = 5015"
proof -
  have calls: "\<forall>c \<in> set (cdp_demo @ cdp_fall). cdp_call 0 (fst c) (snd c)"
    by (simp add: cdp_demo_def cdp_fall_def cdp_call_def cdp_env_def env0_def)
  have "cd_collateral_token (fst cdp_demo_end) = Some 801" "client_balance 801 0 cdp_world = 0" by code_simp+
  with cdp_collateral_backed [OF calls cdp_demo_run, of 801] cdp_demo_figures show ?thesis by (simp add: cdp_figures_def)
qed

section \<open>Safety of the risky calls\<close>

lemma half_up_iff:
  assumes "0 < (d::int)"
  shows "k \<le> (if 2 * (n mod d) \<ge> d then n div d + 1 else n div d) \<longleftrightarrow> (2 * k - 1) * d \<le> 2 * n"
proof -
  let ?q = "n div d" and ?r = "n mod d"
  have e: "2 * n = 2 * ?q * d + 2 * ?r" using div_mult_mod_eq [of n d] by (metis distrib_left mult.assoc)
  have r: "0 \<le> ?r" "?r < d" using assms by simp_all
  show ?thesis
  proof (cases "2 * ?r \<ge> d")
    case True
    have "(2 * k - 1) * d \<le> 2 * n \<longleftrightarrow> (2 * k - 1) * d \<le> 2 * ?q * d + 2 * ?r" unfolding e ..
    also have "\<dots> \<longleftrightarrow> 2 * k - 1 \<le> 2 * ?q + 1"
    proof
      assume "(2 * k - 1) * d \<le> 2 * ?q * d + 2 * ?r"
      then have "(2 * k - 1) * d < (2 * ?q + 2) * d" using r by (simp add: algebra_simps)
      then show "2 * k - 1 \<le> 2 * ?q + 1" using assms by (simp add: mult_less_cancel_right)
    next
      assume "2 * k - 1 \<le> 2 * ?q + 1"
      then have "(2 * k - 1) * d \<le> (2 * ?q + 1) * d" using assms by (intro mult_right_mono) auto
      then show "(2 * k - 1) * d \<le> 2 * ?q * d + 2 * ?r" using True by (simp add: algebra_simps)
    qed
    finally show ?thesis using True by auto
  next
    case False
    have "(2 * k - 1) * d \<le> 2 * n \<longleftrightarrow> (2 * k - 1) * d \<le> 2 * ?q * d + 2 * ?r" unfolding e ..
    also have "\<dots> \<longleftrightarrow> 2 * k - 1 \<le> 2 * ?q"
    proof
      assume "(2 * k - 1) * d \<le> 2 * ?q * d + 2 * ?r"
      then have "(2 * k - 1) * d < (2 * ?q + 1) * d" using False by (simp add: algebra_simps)
      then show "2 * k - 1 \<le> 2 * ?q" using assms by (simp add: mult_less_cancel_right)
    next
      assume "2 * k - 1 \<le> 2 * ?q"
      then have "(2 * k - 1) * d \<le> (2 * ?q) * d" using assms by (intro mult_right_mono) auto
      then show "(2 * k - 1) * d \<le> 2 * ?q * d + 2 * ?r" using r by linarith
    qed
    finally show ?thesis using False by auto
  qed
qed

text \<open>The comparison of the rounded ratio with a bound, without the rounding.\<close>

lemma ratio_ge_iff:
  assumes "collateral_ratio_bps price c d = Inr ratio" "0 < price" "0 \<le> c" "0 < d"
  shows "k \<le> ratio \<longleftrightarrow> (2 * k - 1) * (d * PRICE_SCALE) \<le> 2 * (c * price * BPS)"
proof -
  have pos: "0 \<le> c * price * BPS" "0 < d * PRICE_SCALE" using assms(2-4) by (simp_all add: BPS_def PRICE_SCALE_def)
  with assms(1,4) have "ratio = (if 2 * ((c * price * BPS) mod (d * PRICE_SCALE)) \<ge> d * PRICE_SCALE
      then (c * price * BPS) div (d * PRICE_SCALE) + 1 else (c * price * BPS) div (d * PRICE_SCALE))"
    by (auto simp: collateral_ratio_bps_def quot_pos_Inr Let_def mult.commute [of _ 2] split: if_splits)
  with half_up_iff [OF pos(2), of k "c * price * BPS"] show ?thesis by simp
qed

lemma same_terms_views:
  assumes "same_terms s s1"
  shows "oracle_price orc E s1 = oracle_price orc E s" "cd_dynamic_collateral_floor orc E s1 = cd_dynamic_collateral_floor orc E s"
  using assms by (simp_all add: same_terms_def oracle_price_def cd_dynamic_collateral_floor_def oracle_volatility_bps_def read_risk_params_def)

lemma ensure_safe_Inr:
  assumes "ensure_safe orc E s1 q = Inr ()" "same_terms s s1" "0 \<le> collateral_amount q" "0 < debt_amount q"
  shows "\<exists>params price floor. cd_risk_params s = Some params \<and> oracle_price orc E s = Inr price
    \<and> cd_dynamic_collateral_floor orc E s = Inr floor
    \<and> (2 * max (min_collateral_ratio_bps params) floor - 1) * (debt_amount q * PRICE_SCALE) \<le> 2 * (collateral_amount q * price * BPS)"
proof -
  from assms(1) obtain price params floor ratio where a: "oracle_price orc E s1 = Inr price" "cd_risk_params s1 = Some params"
    "cd_dynamic_collateral_floor orc E s1 = Inr floor"
    "collateral_ratio_bps price (collateral_amount q) (debt_amount q) = Inr ratio"
    "max (min_collateral_ratio_bps params) floor \<le> ratio"
    by (auto simp: ensure_safe_def read_risk_params_def Let_def max_def split: if_splits)
  have "oracle_price orc E s = Inr price" "cd_risk_params s = Some params" "cd_dynamic_collateral_floor orc E s = Inr floor"
    using a(1-3) same_terms_views [OF assms(2)] assms(2) by (simp_all add: same_terms_def)
  with a(5) ratio_ge_iff [OF a(4) oracle_price_Inr [OF a(1)] assms(3,4)] show ?thesis by blast
qed

text \<open>
  C16. A withdrawal or a mint leaves a covered position: if it completes in a reachable state, the position it leaves is in
  the storage and, when it has debt, its collateral at the oracle's price covers the debt at the required ratio, the
  larger of the configured minimum and the floor for the current volatility, up to half a basis point; in any case it is
  worth at least the debt.
\<close>

theorem cdp_new_risk_covered:
  assumes "\<forall>c \<in> set cs. overflow_checks (fst c)" "(s, w) = run_calls (cd_exec orc xfer) cs (empty_cdp, w0)"
    and "cd_withdraw_collateral orc xfer E (s, w) u n = Inr ((s', w'), q) \<or> cd_mint_stable orc E s u n = Inr (s', q)"
    and "0 < debt_amount q"
  shows "cd_positions s' u = Some q \<and> (\<exists>params price floor. cd_risk_params s = Some params \<and> oracle_price orc E s = Inr price
    \<and> cd_dynamic_collateral_floor orc E s = Inr floor
    \<and> (2 * max (min_collateral_ratio_bps params) floor - 1) * (debt_amount q * PRICE_SCALE) \<le> 2 * (collateral_amount q * price * BPS)
    \<and> debt_amount q * PRICE_SCALE \<le> collateral_amount q * price)"
proof -
  have inv: "cdp_inv s" by (rule cdp_reachable_inv [OF assms(1,2)])
  from assms(3) obtain s1 where s1: "ensure_safe orc E s1 q = Inr ()" "same_terms s s1" "cd_positions s' u = Some q"
    and col: "0 \<le> collateral_amount q"
  proof
    assume "cd_withdraw_collateral orc xfer E (s, w) u n = Inr ((s', w'), q)"
    from cd_withdraw_Inr [OF this] obtain i s1 where a: "n \<le> collateral_of s u" "moved u (- n) i u 0 i 0 0 s s'"
      "ensure_safe orc E s1 q = Inr ()" "same_terms s s1" "cd_positions s' u = Some q" by blast
    then show thesis using that by (auto simp: moved_def)
  next
    assume "cd_mint_stable orc E s u n = Inr (s', q)"
    from mint_Inr [OF this] obtain i s1 where a: "moved u 0 (i + n) u n (i + n) 0 0 s s'"
      "ensure_safe orc E s1 q = Inr ()" "same_terms s s1" "cd_positions s' u = Some q" by blast
    then show thesis using that inv by (auto simp: moved_def cdp_inv_def)
  qed
  from ensure_safe_Inr [OF s1(1,2) col assms(4)] obtain params price floor where p: "cd_risk_params s = Some params"
    "oracle_price orc E s = Inr price" "cd_dynamic_collateral_floor orc E s = Inr floor" and
    c: "(2 * max (min_collateral_ratio_bps params) floor - 1) * (debt_amount q * PRICE_SCALE) \<le> 2 * (collateral_amount q * price * BPS)"
    by blast
  have "BPS < min_collateral_ratio_bps params" using inv p(1) by (auto simp: cdp_inv_def params_ok_def)
  then have "2 * BPS * (debt_amount q * PRICE_SCALE) \<le> (2 * max (min_collateral_ratio_bps params) floor - 1) * (debt_amount q * PRICE_SCALE)"
    using assms(4) by (intro mult_right_mono) (auto simp: PRICE_SCALE_def)
  with c have "2 * BPS * (debt_amount q * PRICE_SCALE) \<le> 2 * BPS * (collateral_amount q * price)" by (simp add: mult.commute mult.left_commute)
  then have "debt_amount q * PRICE_SCALE \<le> collateral_amount q * price" by (simp add: BPS_def)
  with s1(3) p c show ?thesis by blast
qed

definition before_withdrawal :: "cdp \<times> tokens" where
  "before_withdrawal = run_calls (cd_exec demo_oracle client_transfer) (take 6 cdp_demo) (empty_cdp, cdp_world)"

theorem cdp_new_risk_covered_witness:
  "\<exists>price. oracle_price demo_oracle (cdp_env 150 [8]) (fst before_withdrawal) = Inr price \<and> 1800 * PRICE_SCALE \<le> 2800 * price"
proof -
  let ?s = "fst before_withdrawal" and ?w = "snd before_withdrawal"
  let ?r = "cd_withdraw_collateral demo_oracle client_transfer (cdp_env 150 [8]) (?s, ?w) 8 200"
  let ?q = "\<lparr>collateral_amount = 2800, debt_amount = 1800, last_accrual_ledger = 150\<rparr>"
  have "(case ?r of Inl e \<Rightarrow> False | Inr (sw, q) \<Rightarrow> q = ?q)" by code_simp
  then obtain s' w' where r: "?r = Inr ((s', w'), ?q)" by (auto split: sum.splits prod.splits)
  have calls: "\<forall>c \<in> set (take 6 cdp_demo). overflow_checks (fst c)" by (simp add: cdp_demo_def cdp_env_def env0_def)
  have run: "(?s, ?w) = run_calls (cd_exec demo_oracle client_transfer) (take 6 cdp_demo) (empty_cdp, cdp_world)"
    by (simp add: before_withdrawal_def)
  from cdp_new_risk_covered [OF calls run disjI1 [OF r]] show ?thesis by auto
qed

section \<open>Liquidations\<close>

text \<open>
  A liquidation is bounded: it only completes on a position below the minimum ratio; the liquidator repays
  no more than asked for out of the own balance and takes collateral that at the oracle's price is worth no more than
  the repayment and the incentive; nothing goes below zero and nobody else's position or balance changes.
\<close>

theorem cdp_liquidation_bounded:
  assumes "\<forall>c \<in> set cs. overflow_checks (fst c)" "(s, w) = run_calls (cd_exec orc xfer) cs (empty_cdp, w0)"
    and "overflow_checks E" "cd_liquidate orc xfer E (s, w) l u n = Inr ((s', w'), q)"
  shows "\<exists>params price. cd_risk_params s = Some params \<and> oracle_price orc E s = Inr price
    \<and> 2 * (collateral_of s u * price * BPS) < (2 * min_collateral_ratio_bps params - 1) * ((debt_of s' u + repay_amount q) * PRICE_SCALE)
    \<and> 0 < repay_amount q \<and> repay_amount q \<le> n \<and> 0 \<le> debt_of s' u
    \<and> read_stable_balance s' l = read_stable_balance s l - repay_amount q \<and> 0 \<le> read_stable_balance s' l
    \<and> collateral_of s' u = collateral_of s u - collateral_to_seize q \<and> 0 \<le> collateral_of s' u
    \<and> collateral_to_seize q * price * BPS \<le> repay_amount q * (BPS + liquidation_incentive_bps params) * PRICE_SCALE
    \<and> (\<forall>v. v \<noteq> u \<longrightarrow> cd_positions s' v = cd_positions s v) \<and> (\<forall>v. v \<noteq> l \<longrightarrow> read_stable_balance s' v = read_stable_balance s v)"
proof -
  have inv: "cdp_inv s" by (rule cdp_reachable_inv [OF assms(1,2)])
  from liquidate_Inr [OF assms(4,3) inv] obtain i p s1 params price ratio where a: "accrued E u i s s1 p"
    "cd_risk_params s = Some params" "oracle_price orc E s1 = Inr price"
    and r: "collateral_ratio_bps price (collateral_amount p) (debt_amount p) = Inr ratio" "ratio < min_collateral_ratio_bps params"
    and b: "0 < repay_amount q" "repay_amount q \<le> n" "repay_amount q \<le> debt_amount p"
      "collateral_to_seize q \<le> collateral_amount p" "repay_amount q \<le> read_stable_balance s l"
    and v: "collateral_to_seize q * price * BPS \<le> repay_amount q * (BPS + liquidation_incentive_bps params) * PRICE_SCALE"
    and m: "moved u (- collateral_to_seize q) (i - repay_amount q) l (- repay_amount q) (i - repay_amount q) 0 0 s s'"
    by blast
  note D = accruedD [OF a(1)]
  have price: "oracle_price orc E s = Inr price" using a(1,3) same_terms_views(1) by (metis accrued_def)
  have s': "collateral_of s' u = collateral_of s u - collateral_to_seize q" "debt_of s' u = debt_amount p - repay_amount q"
    using m D(5) by (auto simp: moved_def collateral_of_def debt_of_def)
  have col: "0 \<le> collateral_of s u" using inv by (simp add: cdp_inv_def)
  have "\<not> min_collateral_ratio_bps params \<le> ratio" using r(2) by simp
  then have "2 * (collateral_of s u * price * BPS) < (2 * min_collateral_ratio_bps params - 1) * ((debt_of s' u + repay_amount q) * PRICE_SCALE)"
    using ratio_ge_iff [OF r(1) oracle_price_Inr [OF price]] b(1,3) D(4) col s'(2) by simp
  moreover have "read_stable_balance s' v = (if v = l then read_stable_balance s l - repay_amount q else read_stable_balance s v)" for v
    using m b(1) by (auto simp: moved_def read_stable_balance_def get_or_upd)
  moreover have "v \<noteq> u \<Longrightarrow> cd_positions s' v = cd_positions s v" for v using m by (auto simp: moved_def)
  ultimately show ?thesis using a(2) price b v s' D(4)
    by (intro exI [of _ params] exI [of _ price]) auto
qed

theorem cdp_liquidation_bounded_witness:
  "\<exists>s' w' q. cd_liquidate demo_oracle client_transfer (cdp_env 200 [6]) (run_calls (cd_exec demo_oracle client_transfer) cdp_demo
      (empty_cdp, cdp_world)) 6 8 500 = Inr ((s', w'), q) \<and> 0 < repay_amount q \<and> repay_amount q \<le> 500 \<and> 0 \<le> debt_of s' 8"
proof -
  obtain s w where run: "(s, w) = run_calls (cd_exec demo_oracle client_transfer) cdp_demo (empty_cdp, cdp_world)"
    by (metis surj_pair)
  have "\<not> isl (cd_liquidate demo_oracle client_transfer (cdp_env 200 [6]) (run_calls (cd_exec demo_oracle client_transfer) cdp_demo
      (empty_cdp, cdp_world)) 6 8 500)" by code_simp
  then obtain s' w' q where r: "cd_liquidate demo_oracle client_transfer (cdp_env 200 [6]) (s, w) 6 8 500 = Inr ((s', w'), q)"
    unfolding run by (metis isl_def old.sum.exhaust prod.collapse)
  have calls: "\<forall>c \<in> set cdp_demo. overflow_checks (fst c)" using cdp_demo_checked by simp
  have E: "overflow_checks (cdp_env 200 [6])" by (simp add: cdp_env_def env0_def)
  from cdp_liquidation_bounded [OF calls run E r] r run show ?thesis by auto
qed

lemma cdp_reserves_grow:
  assumes "cd_exec orc xfer E (s, w) c = Inr ((s', w'), v)" "cdp_inv s" "overflow_checks E" "cd_admin s \<noteq> None"
  shows "cd_reserves_of s \<le> cd_reserves_of s' \<and> cd_admin s' \<noteq> None"
proof -
  have m: "0 \<le> r \<Longrightarrow> ?thesis" if "moved u c' d y b m' r x s s'" for u c' d y b m' r x
    using that assms(4) by (auto simp: moved_def same_terms_def)
  have pos: "0 \<le> collateral_of s u" for u using assms(2) by (simp add: cdp_inv_def)
  show ?thesis
  proof (cases c)
    case (CInitialize a t' q params model)
    with assms(1) have "cd_initialize s a t' q params model = Inr s'" by auto
    from cd_initialize_Inr [OF this] assms(4) show ?thesis by simp
  next
    case (CSetOracle q)
    with assms(1,4) show ?thesis by (auto simp: cd_set_oracle_def cd_totals)
  next
    case (CTransfer a b n)
    with assms(1) have "cd_transfer_stable E s a b n = Inr s'" by auto
    from transfer_Inr [OF this] assms(4) show ?thesis by (simp add: cd_totals)
  next
    case (CQuote u n)
    with assms(1) obtain q where "cd_quote_liquidation orc E s u n = Inr (s', q)" by auto
    from quote_Inr [OF this assms(3,2)] obtain i p where "accrued E u i s s' p" by blast
    from m [OF accruedD(1) [OF this, of u]] show ?thesis by simp
  next
    case (CSelfLiquidate u)
    with assms(1) obtain q where "cd_self_liquidate orc E s u = Inr (s', q)" by auto
    from self_liquidate_Inr [OF this assms(3,2)] obtain i x where
      "moved u (- collateral_of s u) (- debt_of s u) u 0 i (collateral_of s u) x s s'" by blast
    from m [OF this pos] show ?thesis .
  next
    case (CDeposit u n)
    with assms(1) obtain q where "cd_deposit_collateral orc xfer E (s, w) u n = Inr ((s', w'), q)" by auto
    from deposit_Inr [OF this] m show ?thesis by force
  next
    case (CWithdraw u n)
    with assms(1) obtain q where "cd_withdraw_collateral orc xfer E (s, w) u n = Inr ((s', w'), q)" by auto
    from cd_withdraw_Inr [OF this] m show ?thesis by force
  next
    case (CMint u n)
    with assms(1) obtain q where "cd_mint_stable orc E s u n = Inr (s', q)" by auto
    from mint_Inr [OF this] m show ?thesis by force
  next
    case (CRepay u n)
    with assms(1) obtain q where "cd_repay orc E s u n = Inr (s', q)" by auto
    from repay_Inr [OF this] m show ?thesis by force
  next
    case (CLiquidate l u n)
    with assms(1) obtain q where "cd_liquidate orc xfer E (s, w) l u n = Inr ((s', w'), q)" by auto
    from liquidate_Inr [OF this assms(3,2)] m show ?thesis by force
  qed
qed

interpretation cdp_reserves: contract_machine "cd_exec orc xfer" "\<lambda>E c. overflow_checks E"
  "\<lambda>sw. cdp_inv (fst sw) \<and> cd_admin (fst sw) \<noteq> None \<and> r \<le> cd_reserves_of (fst sw)" for orc xfer r
proof
  fix E c sw sw' v
  assume E: "overflow_checks E" and h: "cdp_inv (fst sw) \<and> cd_admin (fst sw) \<noteq> None \<and> r \<le> cd_reserves_of (fst sw)"
    and run: "cd_exec orc xfer E sw c = Inr (sw', v)"
  from run have "cd_exec orc xfer E (fst sw, snd sw) c = Inr ((fst sw', snd sw'), v)" by simp
  from cdp_exec_inv [OF this _ E] cdp_reserves_grow [OF this _ E] h
  show "cdp_inv (fst sw') \<and> cd_admin (fst sw') \<noteq> None \<and> r \<le> cd_reserves_of (fst sw')" by auto
qed

text \<open>
  A liquidation into the reserves confiscates: it needs no authorisation, and whatever the collateral is worth beyond
  the debt and the incentive, the borrower loses all of it to the reserves, no stable unit is taken out of
  circulation, and no later calls ever lower the reserves: the contract has no way to pay them out.
\<close>

theorem cdp_self_liquidation_confiscates:
  assumes "\<forall>c \<in> set cs. overflow_checks (fst c)" "(s, w) = run_calls (cd_exec orc xfer) cs (empty_cdp, w0)"
    and "overflow_checks E" "cd_self_liquidate orc E s u = Inr (s1, q)"
    and "\<forall>c \<in> set later. overflow_checks (fst c)" "(s2, w2) = run_calls (cd_exec orc xfer) later (s1, w)"
  shows "collateral_of s1 u = 0 \<and> debt_of s1 u = 0 \<and> cd_reserves_of s1 = cd_reserves_of s + collateral_of s u
    \<and> cd_supply_of s \<le> cd_supply_of s1 \<and> cd_stable_balances s1 = cd_stable_balances s
    \<and> cd_reserves_of s + collateral_of s u \<le> cd_reserves_of s2"
proof -
  have inv: "cdp_inv s" by (rule cdp_reachable_inv [OF assms(1,2)])
  from self_liquidate_Inr [OF assms(4,3) inv] obtain i p s0 params x where a: "accrued E u i s s0 p" "cd_risk_params s = Some params"
    and m: "moved u (- collateral_of s u) (- debt_of s u) u 0 i (collateral_of s u) x s s1" by blast
  have adm: "cd_admin s \<noteq> None" using initialized(1) [OF inv a(2)] .
  from m have s1: "collateral_of s1 u = 0" "debt_of s1 u = 0" "cd_reserves_of s1 = cd_reserves_of s + collateral_of s u"
    "cd_supply_of s1 = cd_supply_of s + i" "cd_admin s1 = cd_admin s"
    by (auto simp: moved_def collateral_of_def debt_of_def same_terms_def)
  have bal: "cd_stable_balances s1 = cd_stable_balances s"
    using assms(4) a(1) by (auto simp: cd_self_liquidate_def Let_def write_position_def accrued_def dest!: accrue_Inr split: if_splits)
  have "cd_exec orc xfer E (s, w) (CSelfLiquidate u) = Inr ((s1, w), ())" using assms(4) by simp
  from cdp_exec_inv [OF this inv assms(3)] have "cdp_inv (fst (s1, w)) \<and> cd_admin (fst (s1, w)) \<noteq> None
      \<and> cd_reserves_of s1 \<le> cd_reserves_of (fst (s1, w))" using adm s1(5) by simp
  from cdp_reserves.run_inv [where xfer = xfer and orc = orc, OF this assms(5)] assms(6) have "cd_reserves_of s1 \<le> cd_reserves_of s2"
    by (metis fst_conv)
  with s1 bal accruedD(6) [OF a(1)] show ?thesis by simp
qed

theorem cdp_self_liquidation_confiscates_witness:
  "\<exists>s1 q s2 w2. cd_self_liquidate demo_oracle (cdp_env 210 []) (fst (run_calls (cd_exec demo_oracle client_transfer) cdp_demo (empty_cdp, cdp_world))) 5
       = Inr (s1, q) \<and> cd_bad_debt_of s1 = 0 \<and> collateral_of s1 5 = 0 \<and> cd_reserves_of s1 = 3000
     \<and> (s2, w2) = run_calls (cd_exec demo_oracle client_transfer) [(cdp_env 220 [9], CSetOracle 78)] (s1, w2) \<and> 3000 \<le> cd_reserves_of s2"
proof -
  let ?sw = "run_calls (cd_exec demo_oracle client_transfer) cdp_demo (empty_cdp, cdp_world)"
  let ?later = "[(cdp_env 220 [9], CSetOracle 78)]"
  obtain s w where run: "(s, w) = ?sw" by (metis surj_pair)
  let ?r = "cd_self_liquidate demo_oracle (cdp_env 210 []) (fst ?sw) 5"
  have "(case ?r of Inl e \<Rightarrow> False | Inr (s1, q) \<Rightarrow> cd_bad_debt_of s1 = 0) \<and> collateral_of (fst ?sw) 5 = 3000 \<and> cd_reserves_of (fst ?sw) = 0"
    by code_simp
  then obtain s1 q where r: "cd_self_liquidate demo_oracle (cdp_env 210 []) s 5 = Inr (s1, q)" "cd_bad_debt_of s1 = 0"
    and f: "collateral_of s 5 = 3000" "cd_reserves_of s = 0"
    unfolding run [symmetric] by (auto split: sum.splits prod.splits)
  obtain s2 w2 where later: "(s2, w2) = run_calls (cd_exec demo_oracle client_transfer) ?later (s1, w)" by (metis surj_pair)
  have w2: "w2 = w" using later by (auto simp: apply_call_def split: sum.splits prod.splits)
  have calls: "\<forall>c \<in> set cdp_demo. overflow_checks (fst c)" "\<forall>c \<in> set ?later. overflow_checks (fst c)" "overflow_checks (cdp_env 210 [])"
    using cdp_demo_checked by (simp_all add: cdp_env_def env0_def)
  from cdp_self_liquidation_confiscates [OF calls(1) run calls(3) r(1) calls(2) later] f r later w2 run show ?thesis
    by (metis add_0 fst_conv)
qed

section \<open>The interest rate\<close>

lemma kink_Inr:
  assumes "borrow_rate_bps E m u = Inr r" "overflow_checks E" "0 \<le> u" "0 < optimal_utilization_bps m" "optimal_utilization_bps m < BPS"
    "0 \<le> slope1_bps m" "0 \<le> slope2_bps m"
  shows "r = (if u \<le> optimal_utilization_bps m then base_rate_bps m + u * slope1_bps m div optimal_utilization_bps m
    else base_rate_bps m + slope1_bps m + (u - optimal_utilization_bps m) * slope2_bps m div (BPS - optimal_utilization_bps m))"
  using assms by (auto simp: borrow_rate_bps_def quot_pos_Inr split: if_splits)

text \<open>
  The borrow rate is monotone: with slopes that are not negative it never falls as the utilisation rises, across the
  kink as well, and stays between the base rate and the base rate plus both slopes.
\<close>

theorem cdp_borrow_rate_monotone:
  assumes "borrow_rate_bps E m u1 = Inr r1" "borrow_rate_bps E m u2 = Inr r2" "overflow_checks E"
    and "0 \<le> u1" "u1 \<le> u2" "u2 \<le> BPS"
    and m: "0 < optimal_utilization_bps m" "optimal_utilization_bps m < BPS" "0 \<le> slope1_bps m" "0 \<le> slope2_bps m"
  shows "base_rate_bps m \<le> r1 \<and> r1 \<le> r2 \<and> r2 \<le> base_rate_bps m + slope1_bps m + slope2_bps m"
proof -
  let ?o = "optimal_utilization_bps m" and ?low = "\<lambda>u. u * slope1_bps m div optimal_utilization_bps m"
    and ?high = "\<lambda>u. (u - optimal_utilization_bps m) * slope2_bps m div (BPS - optimal_utilization_bps m)"
  have "0 \<le> u2" using assms(4,5) by simp
  note r = kink_Inr [OF assms(1,3,4) m] kink_Inr [OF assms(2,3) this m]
  have low: "0 \<le> ?low u1" "u2 \<le> ?o \<Longrightarrow> ?low u1 \<le> ?low u2"
    using assms(4,5) m by (auto intro!: div_nonneg_int zdiv_mono1 mult_right_mono)
  have "u \<le> ?o \<Longrightarrow> ?low u \<le> ?o * slope1_bps m div ?o" for u using m by (intro zdiv_mono1 mult_right_mono) auto
  then have top: "u \<le> ?o \<Longrightarrow> ?low u \<le> slope1_bps m" for u using m(1) by simp
  have high: "?o < u1 \<Longrightarrow> 0 \<le> ?high u1" "?o < u2 \<Longrightarrow> 0 \<le> ?high u2" "?o < u1 \<Longrightarrow> ?high u1 \<le> ?high u2"
    using assms(5) m by (auto intro!: div_nonneg_int zdiv_mono1 mult_right_mono)
  have "?high u2 \<le> (BPS - ?o) * slope2_bps m div (BPS - ?o)" using m assms(6) by (intro zdiv_mono1 mult_right_mono) auto
  then have ceil: "?high u2 \<le> slope2_bps m" using m(2) by simp
  show ?thesis using r low top [of u1] top [of u2] high ceil assms(5) m(3,4) by (auto split: if_splits)
qed

theorem cdp_borrow_rate_monotone_witness:
  "borrow_rate_bps (cdp_env 100 []) demo_model 4000 = Inr 700 \<and> borrow_rate_bps (cdp_env 100 []) demo_model 9000 = Inr 3700 \<and> (700::int) \<le> 3700"
proof -
  have r: "borrow_rate_bps (cdp_env 100 []) demo_model 4000 = Inr 700" "borrow_rate_bps (cdp_env 100 []) demo_model 9000 = Inr 3700"
    by code_simp+
  have c: "overflow_checks (cdp_env 100 [])" "0 < optimal_utilization_bps demo_model" "optimal_utilization_bps demo_model < BPS"
    "0 \<le> slope1_bps demo_model" "0 \<le> slope2_bps demo_model" "(9000::int) \<le> BPS"
    by (simp_all add: cdp_env_def env0_def demo_model_def BPS_def)
  from cdp_borrow_rate_monotone [OF r c(1) _ _ c(6) c(2-5)] r show ?thesis by simp
qed

end
