(* ===== verification/OrderBook.thy ===== *)
theory OrderBook
  imports TokenInterface
begin

text \<open>
  The hybrid exchange \<open>contracts/hybrid_amm_lob/src/lib.rs\<close>: a limit order book in front of a constant-product
  pool. A swap first consumes orders, within a price band around the pool's price and a budget of orders per
  ledger, and buys the remainder from the pool. The two token contracts are the parameter \<open>xfer\<close> with its
  world. The stored vectors are lists; the depth counter lives in temporary storage whose expiry only ever
  drops counts of earlier ledgers, which read as zero anyway.
\<close>

section \<open>Data\<close>

datatype lob_error =
    AlreadyInitialized | NotInitialized | InvalidAmount | InvalidPrice | OrderNotFound | SlippageExceeded
  | InsufficientLiquidity | InsufficientShares | Unauthorized | PriceDeviationExceeded | InvalidConfig

record order =
  or_id :: int
  or_maker :: address
  or_is_bid :: bool
  or_price :: int
  or_amount :: int

record match_guards =
  max_match_depth :: int
  max_price_deviation_bps :: int

record hybrid_pool =
  hp_token_a :: address
  hp_token_b :: address
  hp_reserve_a :: int
  hp_reserve_b :: int
  hp_total_shares :: int
  hp_lp_fee_bps :: int
  hp_maker_fee_bps :: int
  hp_guards :: match_guards
  hp_admin :: address
  hp_next_order_id :: int

record match_depth =
  dp_ledger :: int
  dp_consumed :: int

record swap_result =
  sw_amount_in :: int
  sw_amount_out :: int
  sw_lob_filled :: int
  sw_amm_filled :: int

record lob =
  lb_pool :: "hybrid_pool option"
  lb_bids :: "order list"
  lb_asks :: "order list"
  lb_balance :: "address \<rightharpoonup> int"
  lb_match_depth :: "match_depth option"
  lb_events :: "(address \<times> swap_result) list"

definition empty_lob :: lob where
  "empty_lob = \<lparr>lb_pool = None, lb_bids = [], lb_asks = [], lb_balance = Map.empty, lb_match_depth = None, lb_events = []\<rparr>"

type_synonym 'a lob_res = "(lob_error, 'a) res"

definition LOB_PRICE_SCALE :: int where "LOB_PRICE_SCALE = 1000000"
definition BPS_DENOMINATOR :: int where "BPS_DENOMINATOR = 10000"
definition MAX_MATCH_DEPTH_LIMIT :: int where "MAX_MATCH_DEPTH_LIMIT = 64"

section \<open>Helpers\<close>

definition lob_load_pool :: "lob \<Rightarrow> hybrid_pool lob_res" where
  "lob_load_pool s = ok_or NotInitialized (lb_pool s)"

definition lob_save_pool :: "hybrid_pool \<Rightarrow> lob \<Rightarrow> lob" where
  "lob_save_pool p s = s\<lparr>lb_pool := Some p\<rparr>"

fun insert_bid :: "order list \<Rightarrow> order \<Rightarrow> order list" where
  "insert_bid [] x = [x]"
| "insert_bid (y # ys) x = (if or_price y < or_price x then x # y # ys else y # insert_bid ys x)"

fun insert_ask :: "order list \<Rightarrow> order \<Rightarrow> order list" where
  "insert_ask [] x = [x]"
| "insert_ask (y # ys) x = (if or_price y > or_price x then x # y # ys else y # insert_ask ys x)"

definition validate_guards :: "match_guards \<Rightarrow> unit lob_res" where
  "validate_guards g =
     (if max_match_depth g = 0 \<or> max_match_depth g > MAX_MATCH_DEPTH_LIMIT then Inl (Err InvalidConfig)
      else if max_price_deviation_bps g \<le> 0 \<or> max_price_deviation_bps g > BPS_DENOMINATOR then Inl (Err InvalidConfig)
      else Inr ())"

text \<open>The quotient of two positive numbers cannot trap, so the price is an \<open>Option\<close> only.\<close>

definition spot_price :: "hybrid_pool \<Rightarrow> int option" where
  "spot_price p =
     (if hp_reserve_a p \<le> 0 \<or> hp_reserve_b p \<le> 0 then None
      else
        case checked I128 (hp_reserve_b p * LOB_PRICE_SCALE) of
          None \<Rightarrow> None
        | Some scaled \<Rightarrow> let price = tdiv scaled (hp_reserve_a p) in if price \<le> 0 then None else Some price)"

definition deviation_bps :: "env \<Rightarrow> int \<Rightarrow> int \<Rightarrow> int lob_res" where
  "deviation_bps E price reference =
     rbind (fit E I128 (price - reference)) (\<lambda>d.
     rbind (fit E I128 \<bar>d\<bar>) (\<lambda>diff.
     rbind (ok_or InvalidPrice (checked I128 (diff * BPS_DENOMINATOR))) (\<lambda>v.
     quot I128 v reference)))"

definition load_depth_used :: "env \<Rightarrow> lob \<Rightarrow> int" where
  "load_depth_used E s =
     (case lb_match_depth s of Some d \<Rightarrow> if dp_ledger d = ledger_seq E then dp_consumed d else 0 | None \<Rightarrow> 0)"

definition save_depth_used :: "env \<Rightarrow> int \<Rightarrow> lob \<Rightarrow> lob" where
  "save_depth_used E n s = s\<lparr>lb_match_depth := Some \<lparr>dp_ledger = ledger_seq E, dp_consumed = n\<rparr>\<rparr>"

text \<open>Newton's iteration; the second test of the guard holds of every \<open>i128\<close> and makes the recursion total.\<close>

function newton_sqrt :: "env \<Rightarrow> int \<Rightarrow> int \<Rightarrow> int \<Rightarrow> int lob_res" where
  "newton_sqrt E x z y =
     (if z < y \<and> ity_min I128 \<le> z
      then (case rbind (quot I128 x z) (\<lambda>q. rbind (fit E I128 (q + z)) (\<lambda>d. quot I128 d 2)) of
              Inl e \<Rightarrow> Inl e
            | Inr z' \<Rightarrow> newton_sqrt E x z' z)
      else Inr y)"
  by pat_completeness auto
termination
  by (relation "measure (\<lambda>(E, x, z, y). nat (y - ity_min I128))") auto

declare newton_sqrt.simps [simp del]

definition lob_sqrt :: "env \<Rightarrow> int \<Rightarrow> int lob_res" where
  "lob_sqrt E x =
     (if x = 0 then Inr 0
      else rbind (fit E I128 (x + 1)) (\<lambda>d. rbind (quot I128 d 2) (\<lambda>z. newton_sqrt E x z x)))"

section \<open>Administration\<close>

definition lob_initialize ::
    "lob \<Rightarrow> address \<Rightarrow> address \<Rightarrow> address \<Rightarrow> int \<Rightarrow> int \<Rightarrow> match_guards \<Rightarrow> lob lob_res" where
  "lob_initialize s admin token_a token_b lp_fee_bps maker_fee_bps guards =
     (if lb_pool s \<noteq> None then Inl (Err AlreadyInitialized)
      else if lp_fee_bps < 0 \<or> maker_fee_bps < 0 then Inl (Err InvalidAmount)
      else
        rbind (validate_guards guards) (\<lambda>_.
        Inr (lob_save_pool \<lparr>hp_token_a = token_a, hp_token_b = token_b, hp_reserve_a = 0, hp_reserve_b = 0,
               hp_total_shares = 0, hp_lp_fee_bps = lp_fee_bps, hp_maker_fee_bps = maker_fee_bps, hp_guards = guards,
               hp_admin = admin, hp_next_order_id = 1\<rparr> s)))"

definition lob_set_guards :: "env \<Rightarrow> lob \<Rightarrow> match_guards \<Rightarrow> lob lob_res" where
  "lob_set_guards E s guards =
     rbind (lob_load_pool s) (\<lambda>pool.
     rbind (require_auth E (hp_admin pool)) (\<lambda>_.
     rbind (validate_guards guards) (\<lambda>_.
     Inr (lob_save_pool (pool\<lparr>hp_guards := guards\<rparr>) s))))"

definition lob_get_guards :: "lob \<Rightarrow> match_guards lob_res" where
  "lob_get_guards s = rbind (lob_load_pool s) (\<lambda>p. Inr (hp_guards p))"

section \<open>Liquidity\<close>

definition lob_lp_balance :: "lob \<Rightarrow> address \<Rightarrow> int" where
  "lob_lp_balance s user = get_or (lb_balance s) user 0"

definition lob_deposit ::
    "'w token_xfer \<Rightarrow> env \<Rightarrow> lob \<times> 'w \<Rightarrow> address \<Rightarrow> int \<Rightarrow> int \<Rightarrow> ((lob \<times> 'w) \<times> int) lob_res" where
  "lob_deposit xfer E sw to amount_a amount_b =
     (let s = fst sw; w = snd sw in
      if amount_a \<le> 0 \<or> amount_b \<le> 0 then Inl (Err InvalidAmount)
      else
        rbind (require_auth E to) (\<lambda>_.
        rbind (lob_load_pool s) (\<lambda>pool.
        rbind (call (xfer E (hp_token_a pool) to (this_contract E) amount_a w)) (\<lambda>w1.
        rbind (call (xfer E (hp_token_b pool) to (this_contract E) amount_b w1)) (\<lambda>w2.
        rbind (if hp_total_shares pool = 0
               then rbind (ok_or InvalidAmount (checked I128 (amount_a * amount_b))) (lob_sqrt E)
               else
                 rbind (ok_or InvalidAmount (checked I128 (amount_a * hp_total_shares pool))) (\<lambda>va.
                 rbind (quot I128 va (hp_reserve_a pool)) (\<lambda>s_a.
                 rbind (ok_or InvalidAmount (checked I128 (amount_b * hp_total_shares pool))) (\<lambda>vb.
                 rbind (quot I128 vb (hp_reserve_b pool)) (\<lambda>s_b.
                 Inr (min s_a s_b)))))) (\<lambda>shares.
        rbind (fit E I128 (lob_lp_balance s to + shares)) (\<lambda>bal.
        rbind (fit E I128 (hp_reserve_a pool + amount_a)) (\<lambda>ra.
        rbind (fit E I128 (hp_reserve_b pool + amount_b)) (\<lambda>rb.
        rbind (fit E I128 (hp_total_shares pool + shares)) (\<lambda>total.
        Inr ((lob_save_pool (pool\<lparr>hp_reserve_a := ra, hp_reserve_b := rb, hp_total_shares := total\<rparr>)
                (s\<lparr>lb_balance := (lb_balance s)(to \<mapsto> bal)\<rparr>), w2), shares)))))))))))"

definition lob_withdraw ::
    "'w token_xfer \<Rightarrow> env \<Rightarrow> lob \<times> 'w \<Rightarrow> address \<Rightarrow> int \<Rightarrow> ((lob \<times> 'w) \<times> int \<times> int) lob_res" where
  "lob_withdraw xfer E sw to shares =
     (let s = fst sw; w = snd sw in
      if shares \<le> 0 then Inl (Err InvalidAmount)
      else
        rbind (require_auth E to) (\<lambda>_.
        rbind (lob_load_pool s) (\<lambda>pool.
        let cur = lob_lp_balance s to in
        if shares > cur then Inl (Err InsufficientShares)
        else
          rbind (fit E I128 (shares * hp_reserve_a pool)) (\<lambda>va.
          rbind (quot I128 va (hp_total_shares pool)) (\<lambda>out_a.
          rbind (fit E I128 (shares * hp_reserve_b pool)) (\<lambda>vb.
          rbind (quot I128 vb (hp_total_shares pool)) (\<lambda>out_b.
          rbind (fit E I128 (cur - shares)) (\<lambda>bal.
          rbind (fit E I128 (hp_reserve_a pool - out_a)) (\<lambda>ra.
          rbind (fit E I128 (hp_reserve_b pool - out_b)) (\<lambda>rb.
          rbind (fit E I128 (hp_total_shares pool - shares)) (\<lambda>total.
          rbind (call (xfer E (hp_token_a pool) (this_contract E) to out_a w)) (\<lambda>w1.
          rbind (call (xfer E (hp_token_b pool) (this_contract E) to out_b w1)) (\<lambda>w2.
          Inr ((lob_save_pool (pool\<lparr>hp_reserve_a := ra, hp_reserve_b := rb, hp_total_shares := total\<rparr>)
                  (s\<lparr>lb_balance := (lb_balance s)(to \<mapsto> bal)\<rparr>), w2), (out_a, out_b)))))))))))))))"

section \<open>Limit orders\<close>

definition lob_place_order ::
    "'w token_xfer \<Rightarrow> env \<Rightarrow> lob \<times> 'w \<Rightarrow> address \<Rightarrow> bool \<Rightarrow> int \<Rightarrow> int \<Rightarrow> ((lob \<times> 'w) \<times> int) lob_res" where
  "lob_place_order xfer E sw maker is_bid price amount =
     (let s = fst sw; w = snd sw in
      if amount \<le> 0 then Inl (Err InvalidAmount)
      else if price \<le> 0 then Inl (Err InvalidPrice)
      else
        rbind (require_auth E maker) (\<lambda>_.
        rbind (lob_load_pool s) (\<lambda>pool.
        rbind (if is_bid then
                 rbind (ok_or InvalidAmount (checked I128 (amount * price))) (\<lambda>v.
                 rbind (quot I128 v LOB_PRICE_SCALE) (\<lambda>cost.
                 call (xfer E (hp_token_b pool) maker (this_contract E) cost w)))
               else call (xfer E (hp_token_a pool) maker (this_contract E) amount w)) (\<lambda>w'.
        let order_id = hp_next_order_id pool in
        rbind (fit E U64 (order_id + 1)) (\<lambda>next.
        let s1 = lob_save_pool (pool\<lparr>hp_next_order_id := next\<rparr>) s;
            order = \<lparr>or_id = order_id, or_maker = maker, or_is_bid = is_bid, or_price = price, or_amount = amount\<rparr> in
        Inr ((if is_bid then s1\<lparr>lb_bids := insert_bid (lb_bids s1) order\<rparr>
              else s1\<lparr>lb_asks := insert_ask (lb_asks s1) order\<rparr>, w'), order_id))))))"

text \<open>The first order with the given number, and the vector without it.\<close>

fun take_order :: "int \<Rightarrow> order list \<Rightarrow> (order \<times> order list) option" where
  "take_order n [] = None"
| "take_order n (x # xs) = (if or_id x = n then Some (x, xs) else map_option (\<lambda>(y, ys). (y, x # ys)) (take_order n xs))"

definition lob_cancel_order :: "'w token_xfer \<Rightarrow> env \<Rightarrow> lob \<times> 'w \<Rightarrow> address \<Rightarrow> int \<Rightarrow> (lob \<times> 'w) lob_res" where
  "lob_cancel_order xfer E sw maker order_id =
     (let s = fst sw; w = snd sw in
      rbind (require_auth E maker) (\<lambda>_.
      rbind (lob_load_pool s) (\<lambda>pool.
      case take_order order_id (lb_bids s) of
        Some (x, bids) \<Rightarrow>
          if or_maker x \<noteq> maker then Inl (Err Unauthorized)
          else
            rbind (ok_or InvalidAmount (checked I128 (or_amount x * or_price x))) (\<lambda>v.
            rbind (quot I128 v LOB_PRICE_SCALE) (\<lambda>refund.
            rbind (call (xfer E (hp_token_b pool) (this_contract E) maker refund w)) (\<lambda>w'.
            Inr (s\<lparr>lb_bids := bids\<rparr>, w'))))
      | None \<Rightarrow>
          (case take_order order_id (lb_asks s) of
             Some (x, asks) \<Rightarrow>
               if or_maker x \<noteq> maker then Inl (Err Unauthorized)
               else
                 rbind (call (xfer E (hp_token_a pool) (this_contract E) maker (or_amount x) w)) (\<lambda>w'.
                 Inr (s\<lparr>lb_asks := asks\<rparr>, w'))
           | None \<Rightarrow> Inl (Err OrderNotFound)))))"

section \<open>Matching\<close>

record matching =
  mt_remaining :: int
  mt_total_in :: int
  mt_filled :: int
  mt_matched :: int

definition settle_fill :: "env \<Rightarrow> matching \<Rightarrow> int \<Rightarrow> int \<Rightarrow> matching lob_res" where
  "settle_fill E m cost filled =
     rbind (fit E I128 (mt_total_in m + cost)) (\<lambda>total_in.
     rbind (fit E I128 (mt_remaining m - filled)) (\<lambda>remaining.
     rbind (fit E I128 (mt_filled m + filled)) (\<lambda>lob_filled.
     rbind (fit E U32 (mt_matched m + 1)) (\<lambda>matched.
     Inr \<lparr>mt_remaining = remaining, mt_total_in = total_in, mt_filled = lob_filled, mt_matched = matched\<rparr>))))"

definition with_maker_fee :: "env \<Rightarrow> hybrid_pool \<Rightarrow> int \<Rightarrow> int lob_res" where
  "with_maker_fee E pool base_cost =
     rbind (ok_or InvalidAmount (checked I128 (base_cost * hp_maker_fee_bps pool))) (\<lambda>v.
     rbind (quot I128 v BPS_DENOMINATOR) (\<lambda>maker_fee.
     fit E I128 (base_cost + maker_fee)))"

text \<open>Whether an order is outside the band, so that the loop stops.\<close>

definition ask_outside :: "env \<Rightarrow> hybrid_pool \<Rightarrow> int option \<Rightarrow> order \<Rightarrow> bool lob_res" where
  "ask_outside E pool reference x =
     (case reference of
        None \<Rightarrow> Inr False
      | Some r \<Rightarrow> if or_price x > r then rbind (deviation_bps E (or_price x) r) (\<lambda>d. Inr (d > max_price_deviation_bps (hp_guards pool)))
                  else Inr False)"

definition bid_outside :: "env \<Rightarrow> hybrid_pool \<Rightarrow> int option \<Rightarrow> order \<Rightarrow> bool lob_res" where
  "bid_outside E pool reference x =
     (case reference of
        None \<Rightarrow> Inr False
      | Some r \<Rightarrow> if or_price x < r then rbind (deviation_bps E (or_price x) r) (\<lambda>d. Inr (d > max_price_deviation_bps (hp_guards pool)))
                  else Inr False)"

definition keep_order :: "order \<Rightarrow> int \<Rightarrow> order list \<Rightarrow> order list" where
  "keep_order x amount xs = (if amount = 0 then xs else x\<lparr>or_amount := amount\<rparr> # xs)"

fun ask_loop ::
    "'w token_xfer \<Rightarrow> env \<Rightarrow> hybrid_pool \<Rightarrow> address \<Rightarrow> int option \<Rightarrow> int \<Rightarrow> order list \<Rightarrow> matching \<Rightarrow> 'w
      \<Rightarrow> (order list \<times> matching \<times> 'w) lob_res" where
  "ask_loop xfer E pool taker reference budget [] m w = Inr ([], m, w)"
| "ask_loop xfer E pool taker reference budget (x # xs) m w =
     (if mt_remaining m \<le> 0 then Inr (x # xs, m, w)
      else
        rbind (ask_outside E pool reference x) (\<lambda>outside.
        if outside \<or> mt_matched m \<ge> budget then Inr (x # xs, m, w)
        else
          let fill_a = min (mt_remaining m) (or_amount x) in
          rbind (ok_or InvalidAmount (checked I128 (fill_a * or_price x))) (\<lambda>v.
          rbind (quot I128 v LOB_PRICE_SCALE) (\<lambda>base_cost.
          rbind (with_maker_fee E pool base_cost) (\<lambda>taker_cost.
          rbind (settle_fill E m taker_cost fill_a) (\<lambda>m'.
          rbind (call (xfer E (hp_token_b pool) taker (or_maker x) taker_cost w)) (\<lambda>w1.
          rbind (call (xfer E (hp_token_a pool) (this_contract E) taker fill_a w1)) (\<lambda>w2.
          rbind (fit E I128 (or_amount x - fill_a)) (\<lambda>amount.
          rbind (ask_loop xfer E pool taker reference budget xs m' w2) (\<lambda>(xs', m'', w').
          Inr (keep_order x amount xs', m'', w')))))))))))"

fun bid_loop ::
    "'w token_xfer \<Rightarrow> env \<Rightarrow> hybrid_pool \<Rightarrow> address \<Rightarrow> int option \<Rightarrow> int \<Rightarrow> order list \<Rightarrow> matching \<Rightarrow> 'w
      \<Rightarrow> (order list \<times> matching \<times> 'w) lob_res" where
  "bid_loop xfer E pool taker reference budget [] m w = Inr ([], m, w)"
| "bid_loop xfer E pool taker reference budget (x # xs) m w =
     (if mt_remaining m \<le> 0 then Inr (x # xs, m, w)
      else
        rbind (bid_outside E pool reference x) (\<lambda>outside.
        if outside \<or> mt_matched m \<ge> budget then Inr (x # xs, m, w)
        else
          rbind (ok_or InvalidAmount (checked I128 (or_amount x * or_price x))) (\<lambda>v.
          rbind (quot I128 v LOB_PRICE_SCALE) (\<lambda>offered.
          let fill_b = min (mt_remaining m) offered in
          rbind (ok_or InvalidAmount (checked I128 (fill_b * LOB_PRICE_SCALE))) (\<lambda>v'.
          rbind (quot I128 v' (or_price x)) (\<lambda>fill_a.
          rbind (with_maker_fee E pool fill_a) (\<lambda>taker_cost.
          rbind (settle_fill E m taker_cost fill_b) (\<lambda>m'.
          rbind (call (xfer E (hp_token_a pool) taker (or_maker x) taker_cost w)) (\<lambda>w1.
          rbind (call (xfer E (hp_token_b pool) (this_contract E) taker fill_b w1)) (\<lambda>w2.
          rbind (fit E I128 (or_amount x - fill_a)) (\<lambda>amount.
          rbind (bid_loop xfer E pool taker reference budget xs m' w2) (\<lambda>(xs', m'', w').
          Inr (keep_order x amount xs', m'', w')))))))))))))"

section \<open>The pool leg\<close>

text \<open>The price of \<open>out\<close> units from the pool and the pool after the trade.\<close>

definition amm_leg :: "env \<Rightarrow> hybrid_pool \<Rightarrow> bool \<Rightarrow> int \<Rightarrow> (hybrid_pool \<times> int) lob_res" where
  "amm_leg E pool buy_a out =
     (let reserve_in = (if buy_a then hp_reserve_b pool else hp_reserve_a pool);
          reserve_out = (if buy_a then hp_reserve_a pool else hp_reserve_b pool) in
      if out \<ge> reserve_out then Inl (Err InsufficientLiquidity)
      else
        rbind (fit E I128 (BPS_DENOMINATOR - hp_lp_fee_bps pool)) (\<lambda>fee_scale.
        rbind (ok_or InsufficientLiquidity (checked I128 (reserve_in * out))) (\<lambda>v.
        rbind (ok_or InsufficientLiquidity (checked I128 (v * BPS_DENOMINATOR))) (\<lambda>numerator.
        rbind (fit E I128 (reserve_out - out)) (\<lambda>left.
        rbind (ok_or InsufficientLiquidity (checked I128 (left * fee_scale))) (\<lambda>denominator.
        rbind (quot I128 numerator denominator) (\<lambda>q.
        rbind (fit E I128 (q + 1)) (\<lambda>amm_in.
        if buy_a then
          rbind (fit E I128 (hp_reserve_a pool - out)) (\<lambda>ra.
          rbind (fit E I128 (hp_reserve_b pool + amm_in)) (\<lambda>rb.
          Inr (pool\<lparr>hp_reserve_a := ra, hp_reserve_b := rb\<rparr>, amm_in)))
        else
          rbind (fit E I128 (hp_reserve_b pool - out)) (\<lambda>rb.
          rbind (fit E I128 (hp_reserve_a pool + amm_in)) (\<lambda>ra.
          Inr (pool\<lparr>hp_reserve_a := ra, hp_reserve_b := rb\<rparr>, amm_in)))))))))))"

definition check_deviation :: "env \<Rightarrow> hybrid_pool \<Rightarrow> int option \<Rightarrow> unit lob_res" where
  "check_deviation E pool reference =
     (case reference of
        None \<Rightarrow> Inr ()
      | Some r \<Rightarrow>
          rbind (ok_or InsufficientLiquidity (spot_price pool)) (\<lambda>post_price.
          rbind (deviation_bps E post_price r) (\<lambda>d.
          if d > max_price_deviation_bps (hp_guards pool) then Inl (Err PriceDeviationExceeded) else Inr ())))"

text \<open>The three phases of a swap: the book, the pool, and the settlement of the pool's leg.\<close>

definition match_side ::
    "'w token_xfer \<Rightarrow> env \<Rightarrow> hybrid_pool \<Rightarrow> address \<Rightarrow> bool \<Rightarrow> int \<Rightarrow> lob \<Rightarrow> matching \<Rightarrow> 'w \<Rightarrow> (lob \<times> matching \<times> 'w) lob_res" where
  "match_side xfer E pool taker buy_a budget s m w =
     (if buy_a
      then rbind (ask_loop xfer E pool taker (spot_price pool) budget (lb_asks s) m w) (\<lambda>(asks, m', w').
           Inr (s\<lparr>lb_asks := asks\<rparr>, m', w'))
      else rbind (bid_loop xfer E pool taker (spot_price pool) budget (lb_bids s) m w) (\<lambda>(bids, m', w').
           Inr (s\<lparr>lb_bids := bids\<rparr>, m', w')))"

definition pool_phase :: "env \<Rightarrow> hybrid_pool \<Rightarrow> bool \<Rightarrow> matching \<Rightarrow> (hybrid_pool \<times> int \<times> int \<times> int) lob_res" where
  "pool_phase E pool buy_a m =
     (if mt_remaining m > 0 then
        rbind (amm_leg E pool buy_a (mt_remaining m)) (\<lambda>(pool', amm_in).
        rbind (fit E I128 (mt_total_in m + amm_in)) (\<lambda>total_in.
        rbind (check_deviation E pool' (spot_price pool)) (\<lambda>_.
        Inr (pool', total_in, amm_in, mt_remaining m))))
      else Inr (pool, mt_total_in m, 0, 0))"

definition settle_pool_leg :: "'w token_xfer \<Rightarrow> env \<Rightarrow> hybrid_pool \<Rightarrow> address \<Rightarrow> bool \<Rightarrow> int \<Rightarrow> int \<Rightarrow> 'w \<Rightarrow> 'w lob_res" where
  "settle_pool_leg xfer E pool taker buy_a amm_in amm_filled w =
     (if amm_filled > 0 then
        rbind (call (xfer E (if buy_a then hp_token_b pool else hp_token_a pool) taker (this_contract E) amm_in w)) (\<lambda>w1.
        call (xfer E (if buy_a then hp_token_a pool else hp_token_b pool) (this_contract E) taker amm_filled w1))
      else Inr w)"

definition count_depth :: "env \<Rightarrow> int \<Rightarrow> matching \<Rightarrow> lob \<Rightarrow> lob lob_res" where
  "count_depth E depth_used m s =
     (if mt_matched m > 0 then rbind (fit E U32 (depth_used + mt_matched m)) (\<lambda>n. Inr (save_depth_used E n s)) else Inr s)"

definition lob_swap ::
    "'w token_xfer \<Rightarrow> env \<Rightarrow> lob \<times> 'w \<Rightarrow> address \<Rightarrow> bool \<Rightarrow> int \<Rightarrow> int \<Rightarrow> ((lob \<times> 'w) \<times> swap_result) lob_res" where
  "lob_swap xfer E sw taker buy_a out in_max =
     (let s = fst sw; w = snd sw in
      if out \<le> 0 then Inl (Err InvalidAmount)
      else
        rbind (require_auth E taker) (\<lambda>_.
        rbind (lob_load_pool s) (\<lambda>pool.
        let depth_used = load_depth_used E s;
            budget = max 0 (max_match_depth (hp_guards pool) - depth_used);
            m0 = \<lparr>mt_remaining = out, mt_total_in = 0, mt_filled = 0, mt_matched = 0\<rparr> in
        rbind (match_side xfer E pool taker buy_a budget s m0 w) (\<lambda>(s1, m, w1).
        rbind (count_depth E depth_used m s1) (\<lambda>s2.
        rbind (pool_phase E pool buy_a m) (\<lambda>(pool', total_in, amm_in, amm_filled).
        let s3 = lob_save_pool pool' s2 in
        if total_in > in_max then Inl (Err SlippageExceeded)
        else
          rbind (settle_pool_leg xfer E pool taker buy_a amm_in amm_filled w1) (\<lambda>w'.
          let result = \<lparr>sw_amount_in = total_in, sw_amount_out = out, sw_lob_filled = mt_filled m, sw_amm_filled = amm_filled\<rparr> in
          Inr ((s3\<lparr>lb_events := lb_events s3 @ [(taker, result)]\<rparr>, w'), result))))))))"

section \<open>Views\<close>

definition lob_get_match_depth_used :: "env \<Rightarrow> lob \<Rightarrow> int" where
  "lob_get_match_depth_used E s = load_depth_used E s"

definition lob_get_match_depth_remaining :: "env \<Rightarrow> lob \<Rightarrow> int lob_res" where
  "lob_get_match_depth_remaining E s =
     rbind (lob_load_pool s) (\<lambda>pool. Inr (max 0 (max_match_depth (hp_guards pool) - load_depth_used E s)))"

definition lob_get_spot_price :: "lob \<Rightarrow> int lob_res" where
  "lob_get_spot_price s = rbind (lob_load_pool s) (\<lambda>pool. Inr (case spot_price pool of Some p \<Rightarrow> p | None \<Rightarrow> 0))"

end
