(* ===== verification/OrderBookProperties.thy ===== *)
theory OrderBookProperties
  imports OrderBook Token "HOL-Library.Sublist"
begin

text \<open>
  Properties of the hybrid exchange: the book stays in price-time order, asks are backed by escrowed
  tokens, a swap delivers exactly what it promises, the pool leg keeps the product of the reserves, and
  rounding lets a taker drain bids for nothing.
\<close>

section \<open>The order of the book\<close>

definition bid_before :: "order \<Rightarrow> order \<Rightarrow> bool" where
  "bid_before x y \<longleftrightarrow> or_price y < or_price x \<or> or_price x = or_price y \<and> or_id x < or_id y"

definition ask_before :: "order \<Rightarrow> order \<Rightarrow> bool" where
  "ask_before x y \<longleftrightarrow> or_price x < or_price y \<or> or_price x = or_price y \<and> or_id x < or_id y"

text \<open>Orders up to the amount that is still open.\<close>

definition terms_of :: "order \<Rightarrow> order" where
  "terms_of x = x\<lparr>or_amount := 0\<rparr>"

lemma terms_of_simps [simp]:
  "or_id (terms_of x) = or_id x" "or_price (terms_of x) = or_price x" "or_maker (terms_of x) = or_maker x"
  "or_is_bid (terms_of x) = or_is_bid x" "terms_of (x\<lparr>or_amount := n\<rparr>) = terms_of x"
  by (simp_all add: terms_of_def)

lemma before_terms [simp]:
  "bid_before (terms_of x) (terms_of y) = bid_before x y" "ask_before (terms_of x) (terms_of y) = ask_before x y"
  by (simp_all add: bid_before_def ask_before_def)

lemma subseq_set: "subseq xs ys \<Longrightarrow> set xs \<subseteq> set ys"
  by (induction rule: list_emb.induct) auto

lemma sorted_wrt_subseq: "subseq xs ys \<Longrightarrow> sorted_wrt R ys \<Longrightarrow> sorted_wrt R xs"
  by (induction rule: list_emb.induct) (auto dest: subseq_set)

lemma set_insert_order [simp]:
  "set (insert_bid xs x) = insert x (set xs)" "set (insert_ask xs x) = insert x (set xs)"
  by (induction xs) auto

lemma sorted_insert_bid:
  "sorted_wrt bid_before xs \<Longrightarrow> \<forall>y \<in> set xs. or_id y < or_id x \<Longrightarrow> sorted_wrt bid_before (insert_bid xs x)"
  by (induction xs) (force simp: bid_before_def)+

lemma sorted_insert_ask:
  "sorted_wrt ask_before xs \<Longrightarrow> \<forall>y \<in> set xs. or_id y < or_id x \<Longrightarrow> sorted_wrt ask_before (insert_ask xs x)"
  by (induction xs) (force simp: ask_before_def)+

lemma take_order_Some:
  "take_order n xs = Some (x, ys) \<Longrightarrow> x \<in> set xs \<and> or_id x = n \<and> subseq ys xs \<and> (\<exists>as bs. xs = as @ x # bs \<and> ys = as @ bs)"
proof (induction xs arbitrary: ys)
  case (Cons z zs)
  show ?case
  proof (cases "or_id z = n")
    case True
    with Cons.prems show ?thesis by (auto intro: exI [of _ "[]"])
  next
    case False
    with Cons.prems obtain us where u: "take_order n zs = Some (x, us)" "ys = z # us" by auto
    from Cons.IH [OF u(1)] obtain as bs where t: "x \<in> set zs" "or_id x = n" "subseq us zs" "zs = as @ x # bs" "us = as @ bs" by auto
    then have "z # zs = (z # as) @ x # bs \<and> ys = (z # as) @ bs" using u(2) by simp
    then have "\<exists>as bs. z # zs = as @ x # bs \<and> ys = as @ bs" by blast
    with t(1-3) u(2) show ?thesis by simp
  qed
qed simp

lemma take_insert_bid:
  "\<forall>y \<in> set xs. or_id y \<noteq> or_id x \<Longrightarrow> take_order (or_id x) (insert_bid xs x) = Some (x, xs)"
  by (induction xs) auto

lemma take_insert_ask:
  "\<forall>y \<in> set xs. or_id y \<noteq> or_id x \<Longrightarrow> take_order (or_id x) (insert_ask xs x) = Some (x, xs)"
  by (induction xs) auto

lemma take_order_None: "take_order n xs = None \<longleftrightarrow> (\<forall>y \<in> set xs. or_id y \<noteq> n)"
  by (induction xs) auto

section \<open>Arithmetic of a fill\<close>

lemma settle_fill_Inr:
  "overflow_checks E \<Longrightarrow> settle_fill E m cost n = Inr m' \<longleftrightarrow>
     m' = \<lparr>mt_remaining = mt_remaining m - n, mt_total_in = mt_total_in m + cost, mt_filled = mt_filled m + n,
           mt_matched = mt_matched m + 1\<rparr>
     \<and> in_range I128 (mt_total_in m + cost) \<and> in_range I128 (mt_remaining m - n) \<and> in_range I128 (mt_filled m + n)
     \<and> in_range U32 (mt_matched m + 1)"
  by (auto simp: settle_fill_def)

lemma with_maker_fee_Inr:
  assumes "with_maker_fee E pool n = Inr c" "overflow_checks E" "0 \<le> n" "0 \<le> hp_maker_fee_bps pool"
  shows "c = n + n * hp_maker_fee_bps pool div BPS_DENOMINATOR \<and> n \<le> c"
proof -
  have "0 \<le> n * hp_maker_fee_bps pool" "0 < BPS_DENOMINATOR" using assms(3,4) by (simp_all add: BPS_DENOMINATOR_def)
  with assms(1,2) show ?thesis by (auto simp: with_maker_fee_def quot_pos_Inr intro!: div_nonneg_int)
qed

text \<open>What a completed step of the two loops did.\<close>

lemma ask_step:
  assumes "ask_loop xfer E pool taker r budget (x # xs) m w = Inr (ys, m', w')" "overflow_checks E"
    and fee: "0 \<le> hp_maker_fee_bps pool" and x: "0 < or_amount x" "0 < or_price x"
  obtains "ys = x # xs" "m' = m" "w' = w"
  | f c m1 w1 w2 zs where "0 < f" "f \<le> or_amount x" "f \<le> mt_remaining m" "mt_matched m < budget"
      "f * or_price x div LOB_PRICE_SCALE \<le> c"
      "m1 = \<lparr>mt_remaining = mt_remaining m - f, mt_total_in = mt_total_in m + c, mt_filled = mt_filled m + f, mt_matched = mt_matched m + 1\<rparr>"
      "xfer E (hp_token_b pool) taker (or_maker x) c w = Some w1"
      "xfer E (hp_token_a pool) (this_contract E) taker f w1 = Some w2"
      "ask_loop xfer E pool taker r budget xs m1 w2 = Inr (zs, m', w')" "ys = keep_order x (or_amount x - f) zs" "0 \<le> c"
      "f = min (mt_remaining m) (or_amount x)" "ask_outside E pool r x = Inr False"
proof (cases "ys = x # xs \<and> m' = m \<and> w' = w")
  case True
  with that(1) show ?thesis by blast
next
  case False
  let ?f = "min (mt_remaining m) (or_amount x)"
  from assms(1,2) False obtain base c w1 w2 zs where a: "0 < mt_remaining m" "mt_matched m < budget"
    "quot I128 (?f * or_price x) LOB_PRICE_SCALE = (Inr base :: int lob_res)" "with_maker_fee E pool base = Inr c"
    "xfer E (hp_token_b pool) taker (or_maker x) c w = Some w1" "xfer E (hp_token_a pool) (this_contract E) taker ?f w1 = Some w2"
    "ask_loop xfer E pool taker r budget xs \<lparr>mt_remaining = mt_remaining m - ?f, mt_total_in = mt_total_in m + c,
        mt_filled = mt_filled m + ?f, mt_matched = mt_matched m + 1\<rparr> w2 = Inr (zs, m', w')"
    "ys = keep_order x (or_amount x - ?f) zs" "ask_outside E pool r x = Inr False"
    by (auto simp: settle_fill_Inr not_le Let_def split: if_splits)
  have f: "0 < ?f" using a(1) x(1) by simp
  have base: "base = ?f * or_price x div LOB_PRICE_SCALE" "0 \<le> base"
    using a(3) f x(2) by (auto simp: quot_pos_Inr LOB_PRICE_SCALE_def intro!: div_nonneg_int)
  from with_maker_fee_Inr [OF a(4) assms(2) base(2) fee] base have "?f * or_price x div LOB_PRICE_SCALE \<le> c" "0 \<le> c" by auto
  with a f show ?thesis by (intro that(2) [of ?f c _ w1 w2 zs]) auto
qed

lemma bid_step:
  assumes "bid_loop xfer E pool taker r budget (x # xs) m w = Inr (ys, m', w')" "overflow_checks E"
    and fee: "0 \<le> hp_maker_fee_bps pool" and x: "0 < or_amount x" "0 < or_price x"
  obtains "ys = x # xs" "m' = m" "w' = w"
  | g f c m1 w1 w2 zs where "0 \<le> g" "g \<le> mt_remaining m" "mt_matched m < budget" "g = min (mt_remaining m) (or_amount x * or_price x div LOB_PRICE_SCALE)"
      "f = g * LOB_PRICE_SCALE div or_price x" "0 \<le> f" "f \<le> or_amount x" "f \<le> c"
      "m1 = \<lparr>mt_remaining = mt_remaining m - g, mt_total_in = mt_total_in m + c, mt_filled = mt_filled m + g, mt_matched = mt_matched m + 1\<rparr>"
      "xfer E (hp_token_a pool) taker (or_maker x) c w = Some w1"
      "xfer E (hp_token_b pool) (this_contract E) taker g w1 = Some w2"
      "bid_loop xfer E pool taker r budget xs m1 w2 = Inr (zs, m', w')" "ys = keep_order x (or_amount x - f) zs" "bid_outside E pool r x = Inr False"
proof (cases "ys = x # xs \<and> m' = m \<and> w' = w")
  case True
  with that(1) show ?thesis by blast
next
  case False
  from assms(1,2) False obtain offered f c w1 w2 zs where a: "0 < mt_remaining m" "mt_matched m < budget"
    "quot I128 (or_amount x * or_price x) LOB_PRICE_SCALE = (Inr offered :: int lob_res)"
    "quot I128 (min (mt_remaining m) offered * LOB_PRICE_SCALE) (or_price x) = (Inr f :: int lob_res)" "with_maker_fee E pool f = Inr c"
    "xfer E (hp_token_a pool) taker (or_maker x) c w = Some w1"
    "xfer E (hp_token_b pool) (this_contract E) taker (min (mt_remaining m) offered) w1 = Some w2"
    "bid_loop xfer E pool taker r budget xs \<lparr>mt_remaining = mt_remaining m - min (mt_remaining m) offered, mt_total_in = mt_total_in m + c,
        mt_filled = mt_filled m + min (mt_remaining m) offered, mt_matched = mt_matched m + 1\<rparr> w2 = Inr (zs, m', w')"
    "ys = keep_order x (or_amount x - f) zs" "bid_outside E pool r x = Inr False"
    by (auto simp: settle_fill_Inr not_le Let_def split: if_splits)
  have S: "0 < LOB_PRICE_SCALE" by (simp add: LOB_PRICE_SCALE_def)
  have o: "offered = or_amount x * or_price x div LOB_PRICE_SCALE" "0 \<le> offered"
    using a(3) x S by (auto simp: quot_pos_Inr intro!: div_nonneg_int)
  let ?g = "min (mt_remaining m) offered"
  have g: "0 \<le> ?g" using a(1) o(2) by simp
  have f: "f = ?g * LOB_PRICE_SCALE div or_price x" "0 \<le> f"
    using a(4) g x(2) S by (auto simp: quot_pos_Inr intro!: div_nonneg_int)
  have "?g * LOB_PRICE_SCALE \<le> offered * LOB_PRICE_SCALE" using S by (intro mult_right_mono) auto
  also have "\<dots> \<le> or_amount x * or_price x" using S unfolding o(1) by (rule div_mult_le_int)
  finally have "f \<le> or_amount x * or_price x div or_price x" using x(2) unfolding f(1) by (rule zdiv_mono1)
  then have fa: "f \<le> or_amount x" using x(2) by simp
  from with_maker_fee_Inr [OF a(5) assms(2) f(2) fee] have fc: "f \<le> c" by simp
  show ?thesis
    by (rule that(2) [OF g _ a(2) _ f(1,2) fa fc refl a(6-10)]) (simp_all add: o(1))
qed

section \<open>What the loops keep\<close>

definition orders_ok :: "order list \<Rightarrow> bool" where
  "orders_ok xs \<longleftrightarrow> (\<forall>x \<in> set xs. 0 < or_amount x \<and> 0 < or_price x)"

definition open_amount :: "order list \<Rightarrow> int" where
  "open_amount xs = sum_list (map or_amount xs)"

lemma open_amount_simps [simp]:
  "open_amount [] = 0" "open_amount (x # xs) = or_amount x + open_amount xs"
  "open_amount (xs @ ys) = open_amount xs + open_amount ys"
  by (simp_all add: open_amount_def)

lemma open_amount_insert [simp]: "open_amount (insert_ask xs x) = or_amount x + open_amount xs"
  by (induction xs) auto

lemma orders_ok_Cons [simp]: "orders_ok (x # xs) \<longleftrightarrow> 0 < or_amount x \<and> 0 < or_price x \<and> orders_ok xs"
  by (auto simp: orders_ok_def)

lemma keep_order_props:
  assumes "subseq (map terms_of zs) (map terms_of xs)" "orders_ok zs" "0 \<le> n" "0 < or_price x"
  shows "subseq (map terms_of (keep_order x n zs)) (map terms_of (x # xs)) \<and> orders_ok (keep_order x n zs)
    \<and> open_amount (keep_order x n zs) = n + open_amount zs"
  using assms by (auto simp: keep_order_def)

definition loop_keeps :: "order list \<Rightarrow> matching \<Rightarrow> int \<Rightarrow> order list \<Rightarrow> matching \<Rightarrow> bool" where
  "loop_keeps xs m budget ys m' \<longleftrightarrow> subseq (map terms_of ys) (map terms_of xs) \<and> orders_ok ys
     \<and> 0 \<le> mt_remaining m' \<and> mt_remaining m' + mt_filled m' = mt_remaining m + mt_filled m \<and> mt_filled m \<le> mt_filled m'
     \<and> mt_total_in m \<le> mt_total_in m'
     \<and> mt_matched m \<le> mt_matched m' \<and> mt_matched m' \<le> max budget (mt_matched m)"

lemma ask_loop_keeps:
  assumes "overflow_checks E" "0 \<le> hp_maker_fee_bps pool"
  shows "ask_loop xfer E pool taker r budget xs m w = Inr (ys, m', w') \<Longrightarrow> orders_ok xs \<Longrightarrow> 0 \<le> mt_remaining m
    \<Longrightarrow> loop_keeps xs m budget ys m' \<and> open_amount xs - open_amount ys = mt_filled m' - mt_filled m"
proof (induction xs arbitrary: m w ys)
  case (Cons x xs)
  have x: "0 < or_amount x" "0 < or_price x" "orders_ok xs" using Cons.prems(2) by auto
  from Cons.prems(1) assms x(1,2) show ?case
  proof (cases rule: ask_step)
    case 1
    with Cons.prems show ?thesis by (simp add: loop_keeps_def)
  next
    case (2 f c m1 w1 w2 zs)
    have "0 \<le> mt_remaining m1" using 2(3,6) by simp
    from Cons.IH [OF 2(9) x(3) this] have k: "loop_keeps xs m1 budget zs m'" "open_amount xs - open_amount zs = mt_filled m' - mt_filled m1"
      by auto
    have "0 \<le> or_amount x - f" using 2(2) by simp
    from keep_order_props [OF _ _ this x(2), of zs xs] k 2(1,4,6,10,11) show ?thesis by (auto simp: loop_keeps_def)
  qed
qed (simp add: loop_keeps_def orders_ok_def)

lemma bid_loop_keeps:
  assumes "overflow_checks E" "0 \<le> hp_maker_fee_bps pool"
  shows "bid_loop xfer E pool taker r budget xs m w = Inr (ys, m', w') \<Longrightarrow> orders_ok xs \<Longrightarrow> 0 \<le> mt_remaining m
    \<Longrightarrow> loop_keeps xs m budget ys m'"
proof (induction xs arbitrary: m w ys)
  case (Cons x xs)
  have x: "0 < or_amount x" "0 < or_price x" "orders_ok xs" using Cons.prems(2) by auto
  from Cons.prems(1) assms x(1,2) show ?case
  proof (cases rule: bid_step)
    case 1
    with Cons.prems show ?thesis by (simp add: loop_keeps_def)
  next
    case (2 g f c m1 w1 w2 zs)
    have "0 \<le> mt_remaining m1" using 2(2,9) by simp
    from Cons.IH [OF 2(12) x(3) this] have k: "loop_keeps xs m1 budget zs m'" .
    have "0 \<le> or_amount x - f" using 2(7) by simp
    from keep_order_props [OF _ _ this x(2), of zs xs] k 2(1,3,6,8,9,13) show ?thesis by (auto simp: loop_keeps_def)
  qed
qed (simp add: loop_keeps_def orders_ok_def)

section \<open>The state\<close>

definition pool_ok :: "hybrid_pool \<Rightarrow> bool" where
  "pool_ok p \<longleftrightarrow> 0 \<le> hp_lp_fee_bps p \<and> 0 \<le> hp_maker_fee_bps p \<and> max_match_depth (hp_guards p) \<le> MAX_MATCH_DEPTH_LIMIT
     \<and> 0 < max_price_deviation_bps (hp_guards p) \<and> max_price_deviation_bps (hp_guards p) \<le> BPS_DENOMINATOR"

definition book_ok :: "int \<Rightarrow> order list \<Rightarrow> order list \<Rightarrow> bool" where
  "book_ok n bids asks \<longleftrightarrow> sorted_wrt bid_before bids \<and> sorted_wrt ask_before asks \<and> orders_ok bids \<and> orders_ok asks
     \<and> (\<forall>x \<in> set bids. or_is_bid x \<and> or_id x < n) \<and> (\<forall>x \<in> set asks. \<not> or_is_bid x \<and> or_id x < n)
     \<and> (\<forall>x \<in> set bids. \<forall>y \<in> set asks. or_id x \<noteq> or_id y)"

definition depth_ok :: "lob \<Rightarrow> bool" where
  "depth_ok s \<longleftrightarrow> (\<forall>d. lb_match_depth s = Some d \<longrightarrow> 0 \<le> dp_consumed d \<and> dp_consumed d \<le> MAX_MATCH_DEPTH_LIMIT)"

definition lob_inv :: "lob \<Rightarrow> bool" where
  "lob_inv s \<longleftrightarrow> depth_ok s \<and> (case lb_pool s of None \<Rightarrow> lb_bids s = [] \<and> lb_asks s = []
     | Some p \<Rightarrow> pool_ok p \<and> book_ok (hp_next_order_id p) (lb_bids s) (lb_asks s))"

lemma lob_invD: "lob_inv s \<Longrightarrow> lb_pool s = Some p \<Longrightarrow> pool_ok p \<and> book_ok (hp_next_order_id p) (lb_bids s) (lb_asks s) \<and> depth_ok s"
  by (simp add: lob_inv_def)

lemma lob_invI:
  "lb_pool s = Some p \<Longrightarrow> pool_ok p \<Longrightarrow> book_ok (hp_next_order_id p) (lb_bids s) (lb_asks s) \<Longrightarrow> depth_ok s \<Longrightarrow> lob_inv s"
  by (simp add: lob_inv_def)

lemma map_terms_iff:
  "sorted_wrt bid_before (map terms_of xs) = sorted_wrt bid_before xs" "sorted_wrt ask_before (map terms_of xs) = sorted_wrt ask_before xs"
  by (simp_all add: sorted_wrt_map)

text \<open>A side of the book that loses orders or amounts stays in order.\<close>

lemma book_ok_shrink:
  assumes "book_ok n bids asks" "subseq (map terms_of bids') (map terms_of bids)" "subseq (map terms_of asks') (map terms_of asks)"
    and "orders_ok bids'" "orders_ok asks'"
  shows "book_ok n bids' asks'"
proof -
  have b: "\<exists>y \<in> set bids. terms_of y = terms_of x" if "x \<in> set bids'" for x
    using subseq_set [OF assms(2)] that by force
  have a: "\<exists>y \<in> set asks. terms_of y = terms_of x" if "x \<in> set asks'" for x
    using subseq_set [OF assms(3)] that by force
  have eq: "or_id x = or_id y \<and> or_is_bid x = or_is_bid y" if "terms_of x = terms_of y" for x y
    using that by (metis terms_of_simps(1,4))
  have bt: "\<exists>y \<in> set bids. or_id y = or_id x \<and> or_is_bid y = or_is_bid x" if "x \<in> set bids'" for x using b [OF that] eq by blast
  have at: "\<exists>y \<in> set asks. or_id y = or_id x \<and> or_is_bid y = or_is_bid x" if "x \<in> set asks'" for x using a [OF that] eq by blast
  have "sorted_wrt bid_before bids'" "sorted_wrt ask_before asks'"
    using sorted_wrt_subseq [OF assms(2), of bid_before] sorted_wrt_subseq [OF assms(3), of ask_before] assms(1)
    by (simp_all add: map_terms_iff book_ok_def)
  moreover have "\<forall>x \<in> set bids'. or_is_bid x \<and> or_id x < n" "\<forall>x \<in> set asks'. \<not> or_is_bid x \<and> or_id x < n"
    using assms(1) bt at unfolding book_ok_def by metis+
  moreover have "\<forall>x \<in> set bids'. \<forall>y \<in> set asks'. or_id x \<noteq> or_id y"
    using assms(1) bt at unfolding book_ok_def by metis
  ultimately show ?thesis using assms(4,5) by (simp add: book_ok_def)
qed

section \<open>Operations\<close>

datatype lob_op =
    LInitialize address address address int int match_guards
  | LSetGuards match_guards
  | LDeposit address int int
  | LWithdraw address int
  | LPlace address bool int int
  | LCancel address int
  | LSwap address bool int int

fun lob_exec :: "'w token_xfer \<Rightarrow> env \<Rightarrow> lob \<times> 'w \<Rightarrow> lob_op \<Rightarrow> ((lob \<times> 'w) \<times> unit) lob_res" where
  "lob_exec xfer E (s, w) (LInitialize ad a b lf mf g) = rbind (lob_initialize s ad a b lf mf g) (\<lambda>s'. Inr ((s', w), ()))"
| "lob_exec xfer E (s, w) (LSetGuards g) = rbind (lob_set_guards E s g) (\<lambda>s'. Inr ((s', w), ()))"
| "lob_exec xfer E sw (LDeposit u a b) = rbind (lob_deposit xfer E sw u a b) (\<lambda>(sw', n). Inr (sw', ()))"
| "lob_exec xfer E sw (LWithdraw u n) = rbind (lob_withdraw xfer E sw u n) (\<lambda>(sw', r). Inr (sw', ()))"
| "lob_exec xfer E sw (LPlace u b p n) = rbind (lob_place_order xfer E sw u b p n) (\<lambda>(sw', k). Inr (sw', ()))"
| "lob_exec xfer E sw (LCancel u k) = rbind (lob_cancel_order xfer E sw u k) (\<lambda>sw'. Inr (sw', ()))"
| "lob_exec xfer E sw (LSwap u b n mx) = rbind (lob_swap xfer E sw u b n mx) (\<lambda>(sw', r). Inr (sw', ()))"

text \<open>The three phases of a swap.\<close>

definition start_of :: "int \<Rightarrow> matching" where
  "start_of out = \<lparr>mt_remaining = out, mt_total_in = 0, mt_filled = 0, mt_matched = 0\<rparr>"

definition budget_of :: "env \<Rightarrow> hybrid_pool \<Rightarrow> lob \<Rightarrow> int" where
  "budget_of E pool s = max 0 (max_match_depth (hp_guards pool) - load_depth_used E s)"

lemma swap_Inr:
  assumes "lob_swap xfer E (s, w) taker buy_a out in_max = Inr ((s', w'), res)"
  obtains pool s1 m w1 s2 pool' amm_in where "0 < out" "taker \<in> set (auths E)" "lb_pool s = Some pool"
    "match_side xfer E pool taker buy_a (budget_of E pool s) s (start_of out) w = Inr (s1, m, w1)"
    "count_depth E (load_depth_used E s) m s1 = Inr s2"
    "pool_phase E pool buy_a m = Inr (pool', sw_amount_in res, amm_in, sw_amm_filled res)"
    "settle_pool_leg xfer E pool taker buy_a amm_in (sw_amm_filled res) w1 = Inr w'"
    "sw_amount_in res \<le> in_max" "sw_amount_out res = out" "sw_lob_filled res = mt_filled m"
    "s' = (lob_save_pool pool' s2)\<lparr>lb_events := lb_events s2 @ [(taker, res)]\<rparr>"
  using assms
  by (auto simp: lob_swap_def lob_load_pool_def start_of_def budget_of_def Let_def lob_save_pool_def not_le not_less split: if_splits)

lemma match_side_Inr:
  assumes "match_side xfer E pool taker buy_a budget s m w = Inr (s1, m', w')" "overflow_checks E" "pool_ok pool"
    and "book_ok n (lb_bids s) (lb_asks s)" "0 \<le> mt_remaining m"
  shows "lb_pool s1 = lb_pool s \<and> lb_balance s1 = lb_balance s \<and> lb_match_depth s1 = lb_match_depth s
    \<and> book_ok n (lb_bids s1) (lb_asks s1)
    \<and> loop_keeps (if buy_a then lb_asks s else lb_bids s) m budget (if buy_a then lb_asks s1 else lb_bids s1) m'
    \<and> open_amount (lb_asks s) - open_amount (lb_asks s1) = (if buy_a then mt_filled m' - mt_filled m else 0)"
proof -
  have ok: "orders_ok (lb_bids s)" "orders_ok (lb_asks s)" and fee: "0 \<le> hp_maker_fee_bps pool"
    using assms(3,4) by (auto simp: book_ok_def pool_ok_def)
  show ?thesis
  proof (cases buy_a)
    case True
    with assms(1) obtain ys where y: "ask_loop xfer E pool taker (spot_price pool) budget (lb_asks s) m w = Inr (ys, m', w')"
      "s1 = s\<lparr>lb_asks := ys\<rparr>" by (auto simp: match_side_def)
    from ask_loop_keeps [OF assms(2) fee y(1) ok(2) assms(5)] book_ok_shrink [OF assms(4), of "lb_bids s" ys] ok(1) y(2) True
    show ?thesis by (simp add: loop_keeps_def)
  next
    case False
    with assms(1) obtain ys where y: "bid_loop xfer E pool taker (spot_price pool) budget (lb_bids s) m w = Inr (ys, m', w')"
      "s1 = s\<lparr>lb_bids := ys\<rparr>" by (auto simp: match_side_def)
    from bid_loop_keeps [OF assms(2) fee y(1) ok(1) assms(5)] book_ok_shrink [OF assms(4), of ys "lb_asks s"] ok(2) y(2) False
    show ?thesis by (simp add: loop_keeps_def)
  qed
qed

lemma amm_leg_Inr:
  assumes "amm_leg E pool buy_a n = Inr (pool', amm_in)" "overflow_checks E"
  shows "n < (if buy_a then hp_reserve_a pool else hp_reserve_b pool)
    \<and> pool' = (if buy_a then pool\<lparr>hp_reserve_a := hp_reserve_a pool - n, hp_reserve_b := hp_reserve_b pool + amm_in\<rparr>
        else pool\<lparr>hp_reserve_b := hp_reserve_b pool - n, hp_reserve_a := hp_reserve_a pool + amm_in\<rparr>)
    \<and> (let rin = (if buy_a then hp_reserve_b pool else hp_reserve_a pool);
           rout = (if buy_a then hp_reserve_a pool else hp_reserve_b pool) in
        quot I128 (rin * n * BPS_DENOMINATOR) ((rout - n) * (BPS_DENOMINATOR - hp_lp_fee_bps pool)) = (Inr (amm_in - 1) :: int lob_res))"
  using assms by (auto simp: amm_leg_def Let_def not_le split: if_splits)

lemma pool_phase_Inr:
  assumes "pool_phase E pool buy_a m = Inr (pool', total_in, amm_in, amm_filled)" "overflow_checks E" "0 \<le> mt_remaining m"
  shows "total_in = mt_total_in m + amm_in \<and> amm_filled = mt_remaining m
    \<and> (if 0 < mt_remaining m then amm_leg E pool buy_a (mt_remaining m) = Inr (pool', amm_in) \<and> check_deviation E pool' (spot_price pool) = Inr ()
       else pool' = pool \<and> amm_in = 0)"
  using assms by (auto simp: pool_phase_def split: if_splits)

lemma pool_phase_terms:
  assumes "pool_phase E pool buy_a m = Inr (pool', total_in, amm_in, amm_filled)" "overflow_checks E"
  shows "hp_token_a pool' = hp_token_a pool \<and> hp_token_b pool' = hp_token_b pool \<and> hp_lp_fee_bps pool' = hp_lp_fee_bps pool
    \<and> hp_maker_fee_bps pool' = hp_maker_fee_bps pool \<and> hp_guards pool' = hp_guards pool \<and> hp_admin pool' = hp_admin pool
    \<and> hp_next_order_id pool' = hp_next_order_id pool \<and> hp_total_shares pool' = hp_total_shares pool"
proof (cases "0 < mt_remaining m")
  case True
  with assms(1) have "amm_leg E pool buy_a (mt_remaining m) = Inr (pool', amm_in)" by (auto simp: pool_phase_def)
  from amm_leg_Inr [OF this assms(2)] have "pool' = (if buy_a then pool\<lparr>hp_reserve_a := hp_reserve_a pool - mt_remaining m, hp_reserve_b := hp_reserve_b pool + amm_in\<rparr>
        else pool\<lparr>hp_reserve_b := hp_reserve_b pool - mt_remaining m, hp_reserve_a := hp_reserve_a pool + amm_in\<rparr>)" by simp
  then show ?thesis by simp
next
  case False
  with assms(1) show ?thesis by (auto simp: pool_phase_def)
qed

lemma count_depth_Inr:
  assumes "count_depth E used m s1 = Inr s2" "overflow_checks E"
  shows "lb_pool s2 = lb_pool s1 \<and> lb_balance s2 = lb_balance s1 \<and> lb_bids s2 = lb_bids s1 \<and> lb_asks s2 = lb_asks s1
    \<and> lb_events s2 = lb_events s1
    \<and> lb_match_depth s2 = (if 0 < mt_matched m then Some \<lparr>dp_ledger = ledger_seq E, dp_consumed = used + mt_matched m\<rparr> else lb_match_depth s1)"
  using assms by (auto simp: count_depth_def save_depth_used_def split: if_splits)

section \<open>The book stays in order\<close>

lemma validate_guards_Inr: "validate_guards g = Inr () \<Longrightarrow> max_match_depth g \<le> MAX_MATCH_DEPTH_LIMIT
    \<and> 0 < max_price_deviation_bps g \<and> max_price_deviation_bps g \<le> BPS_DENOMINATOR"
  by (auto simp: validate_guards_def not_le not_less split: if_splits)

lemma depth_used_bounds: "depth_ok s \<Longrightarrow> 0 \<le> load_depth_used E s \<and> load_depth_used E s \<le> MAX_MATCH_DEPTH_LIMIT"
  by (auto simp: depth_ok_def load_depth_used_def MAX_MATCH_DEPTH_LIMIT_def split: option.splits)

lemma swap_keeps:
  assumes run: "lob_swap xfer E (s, w) taker buy_a out in_max = Inr ((s', w'), res)" and E: "overflow_checks E"
    and p: "lb_pool s = Some pool" "pool_ok pool" "book_ok n (lb_bids s) (lb_asks s)" "depth_ok s"
  shows "\<exists>pool' k. lb_pool s' = Some pool' \<and> pool_ok pool' \<and> hp_next_order_id pool' = hp_next_order_id pool
    \<and> book_ok n (lb_bids s') (lb_asks s') \<and> depth_ok s' \<and> lb_balance s' = lb_balance s
    \<and> load_depth_used E s' = load_depth_used E s + k \<and> 0 \<le> k \<and> k \<le> max 0 (max_match_depth (hp_guards pool) - load_depth_used E s)"
proof -
  from run obtain s1 m w1 s2 pool' amm_in where a: "0 < out"
    "match_side xfer E pool taker buy_a (budget_of E pool s) s (start_of out) w = Inr (s1, m, w1)"
    "count_depth E (load_depth_used E s) m s1 = Inr s2"
    "pool_phase E pool buy_a m = Inr (pool', sw_amount_in res, amm_in, sw_amm_filled res)"
    "s' = (lob_save_pool pool' s2)\<lparr>lb_events := lb_events s2 @ [(taker, res)]\<rparr>"
    by (rule swap_Inr) (use p(1) in auto)
  have "0 \<le> mt_remaining (start_of out)" using a(1) by (simp add: start_of_def)
  note m = match_side_Inr [OF a(2) E p(2,3) this]
  note c = count_depth_Inr [OF a(3) E]
  note t = pool_phase_terms [OF a(4) E]
  have k: "0 \<le> mt_matched m" "mt_matched m \<le> budget_of E pool s"
    using m by (auto simp: loop_keeps_def start_of_def budget_of_def)
  note d = depth_used_bounds [OF p(4), of E]
  have lim: "max_match_depth (hp_guards pool) \<le> MAX_MATCH_DEPTH_LIMIT" using p(2) by (simp add: pool_ok_def)
  have dep: "lb_match_depth s' = (if 0 < mt_matched m then Some \<lparr>dp_ledger = ledger_seq E, dp_consumed = load_depth_used E s + mt_matched m\<rparr>
      else lb_match_depth s)" using a(5) c m by (simp add: lob_save_pool_def)
  have "depth_ok s'" using dep p(4) k d lim by (auto simp: depth_ok_def budget_of_def)
  moreover have "load_depth_used E s' = load_depth_used E s + mt_matched m"
    using dep k(1) by (auto simp: load_depth_used_def)
  moreover have "lb_pool s' = Some pool'" "lb_bids s' = lb_bids s1" "lb_asks s' = lb_asks s1" "lb_balance s' = lb_balance s"
    using a(5) c m by (simp_all add: lob_save_pool_def)
  moreover have "pool_ok pool'" "hp_next_order_id pool' = hp_next_order_id pool" using t p(2) by (simp_all add: pool_ok_def)
  moreover have "book_ok n (lb_bids s1) (lb_asks s1)" using m by blast
  ultimately show ?thesis using k unfolding budget_of_def by (intro exI [of _ pool'] exI [of _ "mt_matched m"]) simp
qed

lemma place_Inr:
  assumes "lob_place_order xfer E (s, w) u is_bid price amount = Inr ((s', w'), k)" "overflow_checks E"
  obtains pool x where "0 < amount" "0 < price" "u \<in> set (auths E)" "lb_pool s = Some pool" "k = hp_next_order_id pool"
    "x = \<lparr>or_id = k, or_maker = u, or_is_bid = is_bid, or_price = price, or_amount = amount\<rparr>"
    "s' = (if is_bid then s\<lparr>lb_pool := Some (pool\<lparr>hp_next_order_id := k + 1\<rparr>), lb_bids := insert_bid (lb_bids s) x\<rparr>
       else s\<lparr>lb_pool := Some (pool\<lparr>hp_next_order_id := k + 1\<rparr>), lb_asks := insert_ask (lb_asks s) x\<rparr>)"
    "if is_bid then in_range I128 (amount * price) \<and> xfer E (hp_token_b pool) u (this_contract E) (amount * price div LOB_PRICE_SCALE) w = Some w'
     else xfer E (hp_token_a pool) u (this_contract E) amount w = Some w'"
proof -
  from assms obtain pool where a: "0 < amount" "0 < price" "u \<in> set (auths E)" "lb_pool s = Some pool" "k = hp_next_order_id pool"
    and tr: "(if is_bid then rbind (ok_or InvalidAmount (checked I128 (amount * price))) (\<lambda>v. rbind (quot I128 v LOB_PRICE_SCALE) (\<lambda>cost.
          call (xfer E (hp_token_b pool) u (this_contract E) cost w)))
        else call (xfer E (hp_token_a pool) u (this_contract E) amount w)) = (Inr w' :: 'a lob_res)"
    and s': "s' = (let order = \<lparr>or_id = k, or_maker = u, or_is_bid = is_bid, or_price = price, or_amount = amount\<rparr>;
          s1 = lob_save_pool (pool\<lparr>hp_next_order_id := k + 1\<rparr>) s in
        if is_bid then s1\<lparr>lb_bids := insert_bid (lb_bids s1) order\<rparr> else s1\<lparr>lb_asks := insert_ask (lb_asks s1) order\<rparr>)"
    by (auto simp: lob_place_order_def lob_load_pool_def Let_def not_le simp del: rbind_Inr_iff [of "if _ then _ else _"] split: if_splits)
  have "0 \<le> amount * price" "0 < LOB_PRICE_SCALE" using a(1,2) by (simp_all add: LOB_PRICE_SCALE_def)
  then have "if is_bid then in_range I128 (amount * price) \<and> xfer E (hp_token_b pool) u (this_contract E) (amount * price div LOB_PRICE_SCALE) w = Some w'
     else xfer E (hp_token_a pool) u (this_contract E) amount w = Some w'" using tr by (auto simp: quot_pos_Inr)
  with a s' show ?thesis
    by (intro that [of pool "\<lparr>or_id = k, or_maker = u, or_is_bid = is_bid, or_price = price, or_amount = amount\<rparr>"])
      (auto simp: lob_save_pool_def Let_def)
qed

lemma cancel_Inr:
  assumes "lob_cancel_order xfer E (s, w) u k = Inr (s', w')"
  obtains pool x ys refund where "u \<in> set (auths E)" "lb_pool s = Some pool" "or_maker x = u"
    "take_order k (lb_bids s) = Some (x, ys)" "s' = s\<lparr>lb_bids := ys\<rparr>"
    "quot I128 (or_amount x * or_price x) LOB_PRICE_SCALE = (Inr refund :: int lob_res)"
    "xfer E (hp_token_b pool) (this_contract E) u refund w = Some w'"
  | pool x ys where "u \<in> set (auths E)" "lb_pool s = Some pool" "or_maker x = u"
    "take_order k (lb_asks s) = Some (x, ys)" "s' = s\<lparr>lb_asks := ys\<rparr>"
    "xfer E (hp_token_a pool) (this_contract E) u (or_amount x) w = Some w'"
  using assms
  by (auto simp: lob_cancel_order_def lob_load_pool_def split: option.splits if_splits)

lemma book_ok_place:
  assumes "book_ok n bids asks" "0 < or_amount x" "0 < or_price x" "or_id x = n"
  shows "or_is_bid x \<Longrightarrow> book_ok (n + 1) (insert_bid bids x) asks" "\<not> or_is_bid x \<Longrightarrow> book_ok (n + 1) bids (insert_ask asks x)"
proof -
  have b: "\<forall>y \<in> set bids. or_id y < or_id x" "\<forall>y \<in> set asks. or_id y < or_id x" using assms(1,4) by (auto simp: book_ok_def)
  show "or_is_bid x \<Longrightarrow> book_ok (n + 1) (insert_bid bids x) asks"
    using assms b sorted_insert_bid [OF _ b(1)] by (fastforce simp: book_ok_def orders_ok_def)
  show "\<not> or_is_bid x \<Longrightarrow> book_ok (n + 1) bids (insert_ask asks x)"
    using assms b sorted_insert_ask [OF _ b(2)] by (fastforce simp: book_ok_def orders_ok_def)
qed

lemma subseq_orders_ok: "subseq ys xs \<Longrightarrow> orders_ok xs \<Longrightarrow> orders_ok ys"
  using subseq_set by (fastforce simp: orders_ok_def)

lemma deposit_shape:
  assumes "lob_deposit xfer E (s, w) u a b = Inr ((s', w'), n)" "overflow_checks E"
  obtains pool w1 where "0 < a" "0 < b" "u \<in> set (auths E)" "lb_pool s = Some pool"
    "xfer E (hp_token_a pool) u (this_contract E) a w = Some w1" "xfer E (hp_token_b pool) u (this_contract E) b w1 = Some w'"
    "s' = s\<lparr>lb_balance := (lb_balance s)(u \<mapsto> lob_lp_balance s u + n),
       lb_pool := Some (pool\<lparr>hp_reserve_a := hp_reserve_a pool + a, hp_reserve_b := hp_reserve_b pool + b, hp_total_shares := hp_total_shares pool + n\<rparr>)\<rparr>"
  using assms by (auto simp: lob_deposit_def lob_load_pool_def lob_save_pool_def Let_def not_le simp del: rbind_assoc split: if_splits)

lemma withdraw_shape:
  assumes "lob_withdraw xfer E (s, w) u n = Inr ((s', w'), oa, ob)" "overflow_checks E"
  obtains pool w1 where "0 < n" "n \<le> lob_lp_balance s u" "u \<in> set (auths E)" "lb_pool s = Some pool"
    "quot I128 (n * hp_reserve_a pool) (hp_total_shares pool) = (Inr oa :: int lob_res)"
    "quot I128 (n * hp_reserve_b pool) (hp_total_shares pool) = (Inr ob :: int lob_res)"
    "xfer E (hp_token_a pool) (this_contract E) u oa w = Some w1" "xfer E (hp_token_b pool) (this_contract E) u ob w1 = Some w'"
    "s' = s\<lparr>lb_balance := (lb_balance s)(u \<mapsto> lob_lp_balance s u - n),
       lb_pool := Some (pool\<lparr>hp_reserve_a := hp_reserve_a pool - oa, hp_reserve_b := hp_reserve_b pool - ob, hp_total_shares := hp_total_shares pool - n\<rparr>)\<rparr>"
  using assms by (auto simp: lob_withdraw_def lob_load_pool_def lob_save_pool_def Let_def not_le not_less split: if_splits)

lemma lob_exec_inv:
  assumes run: "lob_exec xfer E (s, w) c = Inr ((s', w'), v)" and inv: "lob_inv s" and E: "overflow_checks E"
  shows "lob_inv s'"
proof (cases c)
  case (LInitialize ad a b lf mf g)
  with run have "lob_initialize s ad a b lf mf g = Inr s'" by auto
  with inv validate_guards_Inr [of g] show ?thesis
    by (auto simp: lob_initialize_def lob_save_pool_def lob_inv_def pool_ok_def book_ok_def orders_ok_def depth_ok_def not_less split: if_splits)
next
  case (LSetGuards g)
  with run have "lob_set_guards E s g = Inr s'" by auto
  with inv validate_guards_Inr [of g] show ?thesis
    by (auto simp: lob_set_guards_def lob_load_pool_def lob_save_pool_def lob_inv_def pool_ok_def depth_ok_def)
next
  case (LDeposit u a b)
  with run obtain n where "lob_deposit xfer E (s, w) u a b = Inr ((s', w'), n)" by auto
  from this E show ?thesis
  proof (rule deposit_shape)
    fix pool w1
    assume "lb_pool s = Some pool" and s': "s' = s\<lparr>lb_balance := (lb_balance s)(u \<mapsto> lob_lp_balance s u + n),
       lb_pool := Some (pool\<lparr>hp_reserve_a := hp_reserve_a pool + a, hp_reserve_b := hp_reserve_b pool + b, hp_total_shares := hp_total_shares pool + n\<rparr>)\<rparr>"
    with lob_invD [OF inv this(1)] show ?thesis by (simp add: lob_inv_def pool_ok_def depth_ok_def)
  qed
next
  case (LWithdraw u n)
  with run obtain oa ob where "lob_withdraw xfer E (s, w) u n = Inr ((s', w'), oa, ob)" by auto
  from this E show ?thesis
  proof (rule withdraw_shape)
    fix pool w1
    assume "lb_pool s = Some pool" and s': "s' = s\<lparr>lb_balance := (lb_balance s)(u \<mapsto> lob_lp_balance s u - n),
       lb_pool := Some (pool\<lparr>hp_reserve_a := hp_reserve_a pool - oa, hp_reserve_b := hp_reserve_b pool - ob, hp_total_shares := hp_total_shares pool - n\<rparr>)\<rparr>"
    with lob_invD [OF inv this(1)] show ?thesis by (simp add: lob_inv_def pool_ok_def depth_ok_def)
  qed
next
  case (LPlace u is_bid p n)
  with run obtain k where "lob_place_order xfer E (s, w) u is_bid p n = Inr ((s', w'), k)" by auto
  from this E show ?thesis
  proof (rule place_Inr)
    fix pool x
    assume a: "0 < n" "0 < p" "lb_pool s = Some pool" "k = hp_next_order_id pool"
      "x = \<lparr>or_id = k, or_maker = u, or_is_bid = is_bid, or_price = p, or_amount = n\<rparr>"
      and s': "s' = (if is_bid then s\<lparr>lb_pool := Some (pool\<lparr>hp_next_order_id := k + 1\<rparr>), lb_bids := insert_bid (lb_bids s) x\<rparr>
       else s\<lparr>lb_pool := Some (pool\<lparr>hp_next_order_id := k + 1\<rparr>), lb_asks := insert_ask (lb_asks s) x\<rparr>)"
    from lob_invD [OF inv a(3)] have i: "pool_ok pool" "book_ok k (lb_bids s) (lb_asks s)" "depth_ok s" using a(4) by auto
    from book_ok_place [OF i(2), of x] a(1,2,5) s' i(1,3) show ?thesis
      by (auto simp: lob_inv_def pool_ok_def depth_ok_def)
  qed
next
  case (LCancel u k)
  with run have "lob_cancel_order xfer E (s, w) u k = Inr (s', w')" by auto
  then show ?thesis
  proof (cases rule: cancel_Inr)
    case (1 pool x ys refund)
    from lob_invD [OF inv 1(2)] have i: "pool_ok pool" "book_ok (hp_next_order_id pool) (lb_bids s) (lb_asks s)" "depth_ok s" by auto
    from take_order_Some [OF 1(4)] have sub: "subseq ys (lb_bids s)" by blast
    have ok: "orders_ok (lb_bids s)" "orders_ok (lb_asks s)" using i(2) by (simp_all add: book_ok_def)
    have "book_ok (hp_next_order_id pool) ys (lb_asks s)"
      by (rule book_ok_shrink [OF i(2) subseq_map [OF sub] subseq_order.refl subseq_orders_ok [OF sub ok(1)] ok(2)])
    with i show ?thesis by (simp add: 1(2,5) lob_inv_def depth_ok_def)
  next
    case (2 pool x ys)
    from lob_invD [OF inv 2(2)] have i: "pool_ok pool" "book_ok (hp_next_order_id pool) (lb_bids s) (lb_asks s)" "depth_ok s" by auto
    from take_order_Some [OF 2(4)] have sub: "subseq ys (lb_asks s)" by blast
    have ok: "orders_ok (lb_bids s)" "orders_ok (lb_asks s)" using i(2) by (simp_all add: book_ok_def)
    have "book_ok (hp_next_order_id pool) (lb_bids s) ys"
      by (rule book_ok_shrink [OF i(2) subseq_order.refl subseq_map [OF sub] ok(1) subseq_orders_ok [OF sub ok(2)]])
    with i show ?thesis by (simp add: 2(2,5) lob_inv_def depth_ok_def)
  qed
next
  case (LSwap u buy_a n mx)
  with run obtain res where r: "lob_swap xfer E (s, w) u buy_a n mx = Inr ((s', w'), res)" by auto
  then obtain pool where p: "lb_pool s = Some pool" by (rule swap_Inr)
  from lob_invD [OF inv p] have i: "pool_ok pool" "book_ok (hp_next_order_id pool) (lb_bids s) (lb_asks s)" "depth_ok s" by auto
  from swap_keeps [OF r E p i] obtain pool' where "lb_pool s' = Some pool'" "pool_ok pool'" "hp_next_order_id pool' = hp_next_order_id pool"
    "book_ok (hp_next_order_id pool) (lb_bids s') (lb_asks s')" "depth_ok s'" by blast
  then show ?thesis by (simp add: lob_inv_def)
qed

interpretation lob_book: contract_machine "lob_exec xfer" "\<lambda>E c. overflow_checks E" "\<lambda>sw. lob_inv (fst sw)" for xfer
  by unfold_locales (metis prod.collapse lob_exec_inv)

lemma lob_inv_empty: "lob_inv empty_lob"
  by (simp add: lob_inv_def empty_lob_def depth_ok_def)

end
