(* ===== verification/OrderBookGuarantees.thy ===== *)
theory OrderBookGuarantees
  imports OrderBookProperties
begin

text \<open>
  What the hybrid exchange guarantees: after any calls the book is in order and the asks are backed, a swap delivers
  what it promises within its bounds, a cancelled order is returned in full, and small fills of bids are free.
\<close>

section \<open>The flow of tokens\<close>

definition makers_of :: "order list \<Rightarrow> address set" where
  "makers_of xs = or_maker ` set xs"

lemma makers_of_simps [simp]:
  "makers_of [] = {}" "makers_of (x # xs) = insert (or_maker x) (makers_of xs)"
  "makers_of (insert_bid xs x) = insert (or_maker x) (makers_of xs)"
  "makers_of (insert_ask xs x) = insert (or_maker x) (makers_of xs)"
  by (simp_all add: makers_of_def)

lemma makers_subseq: "subseq (map terms_of ys) (map terms_of xs) \<Longrightarrow> makers_of ys \<subseteq> makers_of xs"
proof -
  assume "subseq (map terms_of ys) (map terms_of xs)"
  from subseq_set [OF this] have "or_maker ` terms_of ` set ys \<subseteq> or_maker ` terms_of ` set xs" by (metis image_mono list.set_map)
  then show ?thesis by (simp add: makers_of_def image_image)
qed

text \<open>What a phase of a swap moved: \<open>n\<close> of the token the taker buys and \<open>c\<close> of the one it pays with.\<close>

context token_ledger
begin

definition filled_by :: "address \<Rightarrow> address \<Rightarrow> address \<Rightarrow> address \<Rightarrow> address set \<Rightarrow> int \<Rightarrow> int \<Rightarrow> 'w \<Rightarrow> 'w \<Rightarrow> bool" where
  "filled_by here taker tout tin makers n c w w' \<longleftrightarrow> bal tout here w' = bal tout here w - n \<and> bal tout taker w' = bal tout taker w + n
     \<and> (here \<notin> makers \<longrightarrow> bal tin here w' = bal tin here w) \<and> (taker \<notin> makers \<longrightarrow> bal tin taker w' = bal tin taker w - c)"

lemma filled_by_refl: "filled_by here taker tout tin makers 0 0 w w"
  by (simp add: filled_by_def)

lemma filled_by_step:
  assumes E: "overflow_checks E" "tin \<noteq> tout" "taker \<noteq> this_contract E"
    and pay: "xfer E tin taker mk c w = Some w1" and get: "xfer E tout (this_contract E) taker f w1 = Some w2"
    and rest: "filled_by (this_contract E) taker tout tin makers n' c' w2 w'"
  shows "filled_by (this_contract E) taker tout tin (insert mk makers) (f + n') (c + c') w w'"
proof -
  have p: "bal t a w1 = bal t a w + (if t = tin then delta taker mk c a else 0)" for t a using xfer_bal [OF E(1) pay] .
  have g: "bal t a w2 = bal t a w1 + (if t = tout then delta (this_contract E) taker f a else 0)" for t a using xfer_bal [OF E(1) get] .
  show ?thesis using rest E(2,3) by (auto simp: filled_by_def g p delta_def)
qed

lemma ask_loop_funds:
  assumes E: "overflow_checks E" "0 \<le> hp_maker_fee_bps pool" "hp_token_a pool \<noteq> hp_token_b pool" "taker \<noteq> this_contract E"
  shows "ask_loop xfer E pool taker r budget xs m w = Inr (ys, m', w') \<Longrightarrow> orders_ok xs
    \<Longrightarrow> filled_by (this_contract E) taker (hp_token_a pool) (hp_token_b pool) (makers_of xs)
          (mt_filled m' - mt_filled m) (mt_total_in m' - mt_total_in m) w w'"
proof (induction xs arbitrary: m w ys)
  case (Cons x xs)
  have x: "0 < or_amount x" "0 < or_price x" "orders_ok xs" using Cons.prems(2) by auto
  from Cons.prems(1) E(1,2) x(1,2) show ?case
  proof (cases rule: ask_step)
    case 1
    then show ?thesis by (simp add: filled_by_def)
  next
    case (2 f c m1 w1 w2 zs)
    from filled_by_step [OF E(1) E(3) [symmetric] E(4) 2(7,8) Cons.IH [OF 2(9) x(3)]] 2(6) show ?thesis by simp
  qed
qed (simp add: filled_by_def)

lemma bid_loop_funds:
  assumes E: "overflow_checks E" "0 \<le> hp_maker_fee_bps pool" "hp_token_a pool \<noteq> hp_token_b pool" "taker \<noteq> this_contract E"
  shows "bid_loop xfer E pool taker r budget xs m w = Inr (ys, m', w') \<Longrightarrow> orders_ok xs
    \<Longrightarrow> filled_by (this_contract E) taker (hp_token_b pool) (hp_token_a pool) (makers_of xs)
          (mt_filled m' - mt_filled m) (mt_total_in m' - mt_total_in m) w w'"
proof (induction xs arbitrary: m w ys)
  case (Cons x xs)
  have x: "0 < or_amount x" "0 < or_price x" "orders_ok xs" using Cons.prems(2) by auto
  from Cons.prems(1) E(1,2) x(1,2) show ?case
  proof (cases rule: bid_step)
    case 1
    then show ?thesis by (simp add: filled_by_def)
  next
    case (2 g f c m1 w1 w2 zs)
    from filled_by_step [OF E(1) E(3) E(4) 2(10,11) Cons.IH [OF 2(12) x(3)]] 2(9) show ?thesis by simp
  qed
qed (simp add: filled_by_def)

lemma settle_leg_funds:
  assumes "settle_pool_leg xfer E pool taker buy_a c n w = Inr w'" "overflow_checks E" "taker \<noteq> this_contract E"
    and "hp_token_a pool \<noteq> hp_token_b pool" "0 \<le> n" "n = 0 \<longrightarrow> c = 0"
    and "tin = (if buy_a then hp_token_b pool else hp_token_a pool)" "tout = (if buy_a then hp_token_a pool else hp_token_b pool)"
  shows "bal tout (this_contract E) w' = bal tout (this_contract E) w - n \<and> bal tout taker w' = bal tout taker w + n
    \<and> bal tin (this_contract E) w' = bal tin (this_contract E) w + c \<and> bal tin taker w' = bal tin taker w - c"
proof (cases "0 < n")
  case True
  with assms(1,7,8) obtain w1 where x: "xfer E tin taker (this_contract E) c w = Some w1" "xfer E tout (this_contract E) taker n w1 = Some w'"
    by (auto simp: settle_pool_leg_def)
  have ne: "tin \<noteq> tout" using assms(4,7,8) by auto
  show ?thesis using xfer_bal [OF assms(2) x(1)] xfer_bal [OF assms(2) x(2)] ne assms(3) by (simp add: delta_def)
next
  case False
  with assms show ?thesis by (simp add: settle_pool_leg_def)
qed

text \<open>The whole swap: what the taker gets and pays, and what the contract keeps.\<close>

lemma swap_funds:
  assumes run: "lob_swap xfer E (s, w) taker buy_a out in_max = Inr ((s', w'), res)" and E: "overflow_checks E"
    and p: "lb_pool s = Some pool" "pool_ok pool" "book_ok k (lb_bids s) (lb_asks s)"
    and t: "hp_token_a pool \<noteq> hp_token_b pool" "taker \<noteq> this_contract E"
    and io: "tin = (if buy_a then hp_token_b pool else hp_token_a pool)" "tout = (if buy_a then hp_token_a pool else hp_token_b pool)"
  shows "\<exists>pool' c. lb_pool s' = Some pool' \<and> hp_token_a pool' = hp_token_a pool \<and> hp_token_b pool' = hp_token_b pool
    \<and> (if buy_a then hp_reserve_a pool' = hp_reserve_a pool - sw_amm_filled res \<and> hp_reserve_b pool' = hp_reserve_b pool + c
       else hp_reserve_b pool' = hp_reserve_b pool - sw_amm_filled res \<and> hp_reserve_a pool' = hp_reserve_a pool + c)
    \<and> sw_lob_filled res + sw_amm_filled res = out \<and> 0 \<le> sw_lob_filled res \<and> 0 \<le> sw_amm_filled res
    \<and> bal tout taker w' = bal tout taker w + out
    \<and> (taker \<notin> makers_of (if buy_a then lb_asks s else lb_bids s) \<longrightarrow> bal tin taker w' = bal tin taker w - sw_amount_in res)
    \<and> bal tout (this_contract E) w' = bal tout (this_contract E) w - out
    \<and> (this_contract E \<notin> makers_of (if buy_a then lb_asks s else lb_bids s) \<longrightarrow>
         bal tin (this_contract E) w' = bal tin (this_contract E) w + c)
    \<and> open_amount (lb_asks s') = open_amount (lb_asks s) - (if buy_a then sw_lob_filled res else 0)
    \<and> makers_of (lb_asks s') \<subseteq> makers_of (lb_asks s) \<and> makers_of (lb_bids s') \<subseteq> makers_of (lb_bids s)"
proof -
  from run obtain s1 m w1 s2 pool' c where a: "0 < out"
    "match_side xfer E pool taker buy_a (budget_of E pool s) s (start_of out) w = Inr (s1, m, w1)"
    "count_depth E (load_depth_used E s) m s1 = Inr s2"
    "pool_phase E pool buy_a m = Inr (pool', sw_amount_in res, c, sw_amm_filled res)"
    "settle_pool_leg xfer E pool taker buy_a c (sw_amm_filled res) w1 = Inr w'" "sw_lob_filled res = mt_filled m"
    "s' = (lob_save_pool pool' s2)\<lparr>lb_events := lb_events s2 @ [(taker, res)]\<rparr>"
    by (rule swap_Inr) (use p(1) in auto)
  have "0 \<le> mt_remaining (start_of out)" using a(1) by (simp add: start_of_def)
  note m = match_side_Inr [OF a(2) E p(2,3) this]
  note cd = count_depth_Inr [OF a(3) E]
  have kept: "loop_keeps (if buy_a then lb_asks s else lb_bids s) (start_of out) (budget_of E pool s) (if buy_a then lb_asks s1 else lb_bids s1) m"
    using m by blast
  then have rem: "0 \<le> mt_remaining m" "mt_remaining m + mt_filled m = out" "0 \<le> mt_filled m"
    by (auto simp: loop_keeps_def start_of_def)
  have ph: "sw_amount_in res = mt_total_in m + c" "sw_amm_filled res = mt_remaining m"
    "if 0 < mt_remaining m then amm_leg E pool buy_a (mt_remaining m) = Inr (pool', c) \<and> check_deviation E pool' (spot_price pool) = Inr ()
     else pool' = pool \<and> c = 0" using pool_phase_Inr [OF a(4) E rem(1)] by auto
  have res: "if buy_a then hp_reserve_a pool' = hp_reserve_a pool - mt_remaining m \<and> hp_reserve_b pool' = hp_reserve_b pool + c
       else hp_reserve_b pool' = hp_reserve_b pool - mt_remaining m \<and> hp_reserve_a pool' = hp_reserve_a pool + c"
    using ph(3) amm_leg_Inr [of E pool buy_a "mt_remaining m" pool' c] E rem(1) by (auto split: if_splits)
  note tk = pool_phase_terms [OF a(4) E]
  have s': "lb_pool s' = Some pool'" "lb_asks s' = lb_asks s1" "lb_bids s' = lb_bids s1" using a(7) cd by (simp_all add: lob_save_pool_def)
  have ok: "orders_ok (lb_bids s)" "orders_ok (lb_asks s)" and fee: "0 \<le> hp_maker_fee_bps pool" using p by (auto simp: book_ok_def pool_ok_def)
  have fill: "filled_by (this_contract E) taker tout tin (makers_of (if buy_a then lb_asks s else lb_bids s)) (mt_filled m) (mt_total_in m) w w1"
  proof (cases buy_a)
    case True
    with a(2) obtain ys where "ask_loop xfer E pool taker (spot_price pool) (budget_of E pool s) (lb_asks s) (start_of out) w = Inr (ys, m, w1)"
      by (auto simp: match_side_def)
    from ask_loop_funds [OF E fee t this ok(2)] show ?thesis using True io by (simp add: start_of_def)
  next
    case False
    with a(2) obtain ys where "bid_loop xfer E pool taker (spot_price pool) (budget_of E pool s) (lb_bids s) (start_of out) w = Inr (ys, m, w1)"
      by (auto simp: match_side_def)
    from bid_loop_funds [OF E fee t this ok(1)] show ?thesis using False io by (simp add: start_of_def)
  qed
  have "mt_remaining m = 0 \<longrightarrow> c = 0" using ph(3) by simp
  with settle_leg_funds [OF a(5) E t(2,1) _ _ io] rem(1) ph(2)
  have leg: "bal tout (this_contract E) w' = bal tout (this_contract E) w1 - mt_remaining m" "bal tout taker w' = bal tout taker w1 + mt_remaining m"
    "bal tin (this_contract E) w' = bal tin (this_contract E) w1 + c" "bal tin taker w' = bal tin taker w1 - c" by auto
  have mk: "makers_of (lb_asks s1) \<subseteq> makers_of (lb_asks s)" "makers_of (lb_bids s1) \<subseteq> makers_of (lb_bids s)"
    using kept a(2) makers_subseq by (auto simp: loop_keeps_def match_side_def split: if_splits)
  show ?thesis
    using s' tk res ph(1,2) rem fill leg mk m a(6) by (intro exI [of _ pool'] exI [of _ c]) (auto simp: filled_by_def start_of_def)
qed

section \<open>The escrow of the asks\<close>

text \<open>Every call keeps the tokens and changes the holding of token \<open>a\<close> as much as the reserve and the open asks.\<close>

lemma lob_exec_backed:
  assumes run: "lob_exec xfer E (s, w) c = Inr ((s', w'), v)" and E: "overflow_checks E" "this_contract E = here" "here \<notin> set (auths E)"
    and p: "lb_pool s = Some pool" "lob_inv s" "hp_token_a pool \<noteq> hp_token_b pool" "here \<notin> makers_of (lb_bids s)"
  shows "\<exists>pool'. lb_pool s' = Some pool' \<and> hp_token_a pool' = hp_token_a pool \<and> hp_token_b pool' = hp_token_b pool
    \<and> here \<notin> makers_of (lb_bids s')
    \<and> bal (hp_token_a pool) here w' - hp_reserve_a pool' - open_amount (lb_asks s')
      = bal (hp_token_a pool) here w - hp_reserve_a pool - open_amount (lb_asks s)"
proof -
  note i = lob_invD [OF p(2,1)]
  have move: "bal t here w2 = bal t here w1 + (if t = t' then delta f to n here else 0)" if "xfer E t' f to n w1 = Some w2" for t t' f to n w1 w2
    using xfer_bal [OF E(1) that] .
  have foreign: "u \<noteq> here" if "u \<in> set (auths E)" for u using that E(3) by auto
  show ?thesis
  proof (cases c)
    case (LInitialize ad a b lf mf g)
    with run p(1) show ?thesis by (auto simp: lob_initialize_def)
  next
    case (LSetGuards g)
    with run p(1,4) show ?thesis by (auto simp: lob_set_guards_def lob_load_pool_def lob_save_pool_def)
  next
    case (LDeposit u a b)
    with run obtain n where "lob_deposit xfer E (s, w) u a b = Inr ((s', w'), n)" by auto
    from this E(1) show ?thesis
    proof (rule deposit_shape)
      fix q w1
      assume d: "u \<in> set (auths E)" "lb_pool s = Some q" "xfer E (hp_token_a q) u (this_contract E) a w = Some w1"
        "xfer E (hp_token_b q) u (this_contract E) b w1 = Some w'"
        "s' = s\<lparr>lb_balance := (lb_balance s)(u \<mapsto> lob_lp_balance s u + n),
         lb_pool := Some (q\<lparr>hp_reserve_a := hp_reserve_a q + a, hp_reserve_b := hp_reserve_b q + b, hp_total_shares := hp_total_shares q + n\<rparr>)\<rparr>"
      with p move [OF d(3), of "hp_token_a q"] move [OF d(4), of "hp_token_a q"] foreign [OF d(1)] E(2) show ?thesis
        by (auto simp: delta_def)
    qed
  next
    case (LWithdraw u n)
    with run obtain oa ob where "lob_withdraw xfer E (s, w) u n = Inr ((s', w'), oa, ob)" by auto
    from this E(1) show ?thesis
    proof (rule withdraw_shape)
      fix q w1
      assume d: "u \<in> set (auths E)" "lb_pool s = Some q" "xfer E (hp_token_a q) (this_contract E) u oa w = Some w1"
        "xfer E (hp_token_b q) (this_contract E) u ob w1 = Some w'"
        "s' = s\<lparr>lb_balance := (lb_balance s)(u \<mapsto> lob_lp_balance s u - n),
         lb_pool := Some (q\<lparr>hp_reserve_a := hp_reserve_a q - oa, hp_reserve_b := hp_reserve_b q - ob, hp_total_shares := hp_total_shares q - n\<rparr>)\<rparr>"
      with p move [OF d(3), of "hp_token_a q"] move [OF d(4), of "hp_token_a q"] foreign [OF d(1)] E(2) show ?thesis
        by (auto simp: delta_def)
    qed
  next
    case (LPlace u is_bid pr n)
    with run obtain k where "lob_place_order xfer E (s, w) u is_bid pr n = Inr ((s', w'), k)" by auto
    from this E(1) show ?thesis
    proof (rule place_Inr)
      fix q x
      assume d: "u \<in> set (auths E)" "lb_pool s = Some q" "x = \<lparr>or_id = k, or_maker = u, or_is_bid = is_bid, or_price = pr, or_amount = n\<rparr>"
        "s' = (if is_bid then s\<lparr>lb_pool := Some (q\<lparr>hp_next_order_id := k + 1\<rparr>), lb_bids := insert_bid (lb_bids s) x\<rparr>
         else s\<lparr>lb_pool := Some (q\<lparr>hp_next_order_id := k + 1\<rparr>), lb_asks := insert_ask (lb_asks s) x\<rparr>)"
        and x: "if is_bid then in_range I128 (n * pr) \<and> xfer E (hp_token_b q) u (this_contract E) (n * pr div LOB_PRICE_SCALE) w = Some w'
         else xfer E (hp_token_a q) u (this_contract E) n w = Some w'"
      with p foreign [OF d(1)] E(2) move show ?thesis by (cases is_bid) (auto simp: delta_def)
    qed
  next
    case (LCancel u k)
    with run have "lob_cancel_order xfer E (s, w) u k = Inr (s', w')" by auto
    then show ?thesis
    proof (cases rule: cancel_Inr)
      case (1 q x ys refund)
      have "makers_of ys \<subseteq> makers_of (lb_bids s)"
        using take_order_Some [OF 1(4)] by (intro makers_subseq subseq_map) blast
      with 1 p foreign [OF 1(1)] E(2) move [OF 1(7), of "hp_token_a q"] show ?thesis by (auto simp: delta_def)
    next
      case (2 q x ys)
      from take_order_Some [OF 2(4)] have "open_amount (lb_asks s) = or_amount x + open_amount ys" by auto
      with 2 p foreign [OF 2(1)] E(2) move [OF 2(6), of "hp_token_a q"] show ?thesis by (auto simp: delta_def)
    qed
  next
    case (LSwap u buy_a n mx)
    with run obtain res where r: "lob_swap xfer E (s, w) u buy_a n mx = Inr ((s', w'), res)" by auto
    then have "u \<in> set (auths E)" by (rule swap_Inr)
    with E(2) foreign have "u \<noteq> this_contract E" by blast
    from swap_funds [OF r E(1) p(1) conjunct1 [OF i] conjunct1 [OF conjunct2 [OF i]] p(3) this refl refl] E(2) p(4)
    show ?thesis by (cases buy_a) (auto split: if_splits)
  qed
qed

end

definition lob_call :: "address \<Rightarrow> env \<Rightarrow> lob_op \<Rightarrow> bool" where
  "lob_call here E c \<longleftrightarrow> overflow_checks E \<and> this_contract E = here \<and> here \<notin> set (auths E)"

definition lob_holds :: "address \<Rightarrow> address \<Rightarrow> int \<Rightarrow> lob \<times> tokens \<Rightarrow> bool" where
  "lob_holds here t b0 sw \<longleftrightarrow> lob_inv (fst sw) \<and> (lb_pool (fst sw) = None \<longrightarrow> client_balance t here (snd sw) = b0)
     \<and> (\<forall>p. lb_pool (fst sw) = Some p \<longrightarrow> hp_token_a p = t \<longrightarrow> hp_token_b p \<noteq> t \<longrightarrow> here \<notin> makers_of (lb_bids (fst sw))
          \<and> client_balance t here (snd sw) = b0 + hp_reserve_a p + open_amount (lb_asks (fst sw)))"

lemma lob_exec_fresh:
  assumes "lob_exec xfer E (s, w) c = Inr ((s', w'), v)" "lb_pool s = None"
  shows "w' = w \<and> lb_bids s' = lb_bids s \<and> lb_asks s' = lb_asks s
    \<and> (\<exists>p. lb_pool s' = Some p \<and> hp_reserve_a p = 0)"
  using assms
  by (cases c) (auto simp: lob_initialize_def lob_set_guards_def lob_deposit_def lob_withdraw_def lob_place_order_def lob_cancel_order_def
      lob_swap_def lob_load_pool_def lob_save_pool_def Let_def split: if_splits)

lemma lob_exec_tokens:
  assumes "lob_exec xfer E (s, w) c = Inr ((s', w'), v)" "overflow_checks E" "lb_pool s = Some p" "lob_inv s"
  shows "\<exists>p'. lb_pool s' = Some p' \<and> hp_token_a p' = hp_token_a p \<and> hp_token_b p' = hp_token_b p"
proof (cases c)
  case (LDeposit u a b)
  with assms(1) obtain n where "lob_deposit xfer E (s, w) u a b = Inr ((s', w'), n)" by auto
  from this assms(2) show ?thesis by (rule deposit_shape) (use assms(3) in auto)
next
  case (LWithdraw u n)
  with assms(1) obtain oa ob where "lob_withdraw xfer E (s, w) u n = Inr ((s', w'), oa, ob)" by auto
  from this assms(2) show ?thesis by (rule withdraw_shape) (use assms(3) in auto)
next
  case (LPlace u is_bid pr n)
  with assms(1) obtain k where "lob_place_order xfer E (s, w) u is_bid pr n = Inr ((s', w'), k)" by auto
  from this assms(2) show ?thesis by (rule place_Inr) (use assms(3) in \<open>auto split: if_splits\<close>)
next
  case (LCancel u k)
  with assms(1) have "lob_cancel_order xfer E (s, w) u k = Inr (s', w')" by auto
  then show ?thesis by (cases rule: cancel_Inr) (use assms(3) in auto)
next
  case (LSwap u buy_a n mx)
  with assms(1) obtain res where "lob_swap xfer E (s, w) u buy_a n mx = Inr ((s', w'), res)" by auto
  then show ?thesis by (rule swap_Inr) (use assms(2,3) in \<open>auto simp: lob_save_pool_def dest: pool_phase_terms\<close>)
qed (use assms in \<open>auto simp: lob_initialize_def lob_set_guards_def lob_load_pool_def lob_save_pool_def\<close>)

interpretation lob_escrow: contract_machine "lob_exec client_transfer" "lob_call here" "lob_holds here t b0" for here t b0
proof
  fix E c sw sw' v
  assume E: "lob_call here E c" and h: "lob_holds here t b0 sw" and run: "lob_exec client_transfer E sw c = Inr (sw', v)"
  obtain s w s' w' where sw: "sw = (s, w)" "sw' = (s', w')" by (metis surj_pair)
  have e: "overflow_checks E" "this_contract E = here" "here \<notin> set (auths E)" using E by (auto simp: lob_call_def)
  have inv: "lob_inv s" using h sw by (simp add: lob_holds_def)
  have inv': "lob_inv s'" using lob_exec_inv [OF run [unfolded sw] inv e(1)] .
  show "lob_holds here t b0 sw'"
  proof (cases "lb_pool s")
    case None
    then have "lb_bids s = []" "lb_asks s = []" using inv by (simp_all add: lob_inv_def)
    with lob_exec_fresh [OF run [unfolded sw] None] h sw inv' None show ?thesis by (auto simp: lob_holds_def)
  next
    case (Some p)
    show ?thesis
    proof (cases "hp_token_a p \<noteq> hp_token_b p \<and> here \<notin> makers_of (lb_bids s)")
      case True
      from token_world.lob_exec_backed [OF run [unfolded sw] e Some inv] True h sw inv' Some show ?thesis
        by (force simp: lob_holds_def)
    next
      case False
      from lob_exec_tokens [OF run [unfolded sw] e(1) Some inv] False h sw inv' Some show ?thesis
        by (auto simp: lob_holds_def)
    qed
  qed
qed

section \<open>An example\<close>

text \<open>
  Tokens 701 and 702. User 5 funds the pool at price 2, user 6 asks, user 7 bids, user 8 takes; then token 702 is
  nearly worthless and 7 bids again.
\<close>

definition lob_world :: tokens where
  "lob_world = [701 \<mapsto> empty_token\<lparr>tk_balances := [5 \<mapsto> 100000, 6 \<mapsto> 5000, 8 \<mapsto> 9000]\<rparr>,
     702 \<mapsto> empty_token\<lparr>tk_balances := [5 \<mapsto> 200000, 7 \<mapsto> 60000, 8 \<mapsto> 20000]\<rparr>]"

definition lob_guards :: match_guards where
  "lob_guards = \<lparr>max_match_depth = 5, max_price_deviation_bps = 1000\<rparr>"

definition lob_demo :: "(env \<times> lob_op) list" where
  "lob_demo = [(env0 [], LInitialize 9 701 702 30 20 lob_guards), (env0 [5], LDeposit 5 100000 200000),
     (env0 [6], LPlace 6 False 2100000 2000), (env0 [6], LPlace 6 False 2050000 3000), (env0 [7], LPlace 7 True 1900000 4000),
     (env0 [7], LPlace 7 True 1950000 1000)]"

definition lob_demo_trade :: "(env \<times> lob_op) list" where
  "lob_demo_trade = [(env0 [8], LSwap 8 True 6000 20000), (env0 [8], LSwap 8 False 3000 5000), (env0 [7], LCancel 7 4),
     (env0 [7], LCancel 7 3)]"

definition lob_demo_end :: "lob \<times> tokens" where
  "lob_demo_end = run_calls (lob_exec client_transfer) (lob_demo @ lob_demo_trade) (empty_lob, lob_world)"

definition lob_figures :: "lob \<times> tokens \<Rightarrow> int list list" where
  "lob_figures sw = [map or_id (lb_bids (fst sw)), map or_amount (lb_bids (fst sw)), map or_id (lb_asks (fst sw)), map or_amount (lb_asks (fst sw)),
     (case lb_pool (fst sw) of None \<Rightarrow> [] | Some p \<Rightarrow> [hp_reserve_a p, hp_reserve_b p]),
     map (\<lambda>a. client_balance 701 a (snd sw)) [0, 5, 6, 7, 8], map (\<lambda>a. client_balance 702 a (snd sw)) [0, 5, 6, 7, 8],
     map (sw_amount_in \<circ> snd) (lb_events (fst sw))]"

lemma lob_demo_figures: "lob_figures lob_demo_end
    = [[], [], [], [], [99000, 202027], [99000, 0, 0, 1555, 13445], [202026, 0, 10370, 57001, 10603], [12397, 1555]]"
  by code_simp


lemma lob_demo_calls: "\<forall>c \<in> set (lob_demo @ lob_demo_trade). lob_call 0 (fst c) (snd c)" "\<forall>c \<in> set lob_demo. lob_call 0 (fst c) (snd c)"
  by (simp_all add: lob_demo_def lob_demo_trade_def lob_call_def env0_def)

lemma lob_demo_checked: "\<forall>c \<in> set lob_demo. overflow_checks (fst c)"
  by (simp add: lob_demo_def env0_def)

lemma lob_reachable_inv:
  assumes "\<forall>c \<in> set cs. overflow_checks (fst c)" "(s, w) = run_calls (lob_exec xfer) cs (empty_lob, w0)"
  shows "lob_inv s"
proof -
  have "lob_inv (fst (empty_lob, w0))" by (simp add: lob_inv_empty)
  from lob_book.run_inv [where xfer = xfer, OF this assms(1)] assms(2) show ?thesis by (metis fst_conv)
qed

lemma lob_reachable_pool:
  assumes "\<forall>c \<in> set cs. overflow_checks (fst c)" "(s, w) = run_calls (lob_exec xfer) cs (empty_lob, w0)" "lb_pool s = Some p"
  shows "pool_ok p" "book_ok (hp_next_order_id p) (lb_bids s) (lb_asks s)" "depth_ok s"
  using lob_invD [OF lob_reachable_inv [OF assms(1,2)] assms(3)] by auto

lemma lob_before:
  obtains s w p where "(s, w) = run_calls (lob_exec client_transfer) lob_demo (empty_lob, lob_world)" "lb_pool s = Some p"
    "map or_id (lb_bids s) = [4, 3]" "hp_token_a p = 701" "hp_token_b p = 702" "hp_reserve_a p = 100000"
proof -
  obtain s w where run: "(s, w) = run_calls (lob_exec client_transfer) lob_demo (empty_lob, lob_world)" by (metis surj_pair)
  have "map_option (\<lambda>p. (hp_token_a p, hp_token_b p, hp_reserve_a p))
      (lb_pool (fst (run_calls (lob_exec client_transfer) lob_demo (empty_lob, lob_world)))) = Some (701, 702, 100000)"
    "map or_id (lb_bids (fst (run_calls (lob_exec client_transfer) lob_demo (empty_lob, lob_world)))) = [4, 3]" by code_simp+
  then have f: "map_option (\<lambda>p. (hp_token_a p, hp_token_b p, hp_reserve_a p)) (lb_pool s) = Some (701, 702, 100000)"
    "map or_id (lb_bids s) = [4, 3]" unfolding run [symmetric] by simp_all
  from f(1) obtain p where "lb_pool s = Some p" "hp_token_a p = 701" "hp_token_b p = 702" "hp_reserve_a p = 100000" by auto
  from that [OF run this(1) f(2) this(2-4)] show ?thesis .
qed

section \<open>The book\<close>

text \<open>
  C36. The book is in price-time order: after any calls, whatever the tokens do, bids stand from the highest price down
  and asks from the lowest up, equal prices in order of arrival; every open order has a positive amount and price, its
  number is below the next one and no number is on both sides; and no ledger consumed more than 64 orders.
\<close>

theorem lob_book_in_order:
  assumes "\<forall>c \<in> set cs. overflow_checks (fst c)" "(s, w) = run_calls (lob_exec xfer) cs (empty_lob, w0)" "lb_pool s = Some p"
  shows "sorted_wrt (\<lambda>x y. or_price y < or_price x \<or> or_price x = or_price y \<and> or_id x < or_id y) (lb_bids s)
    \<and> sorted_wrt (\<lambda>x y. or_price x < or_price y \<or> or_price x = or_price y \<and> or_id x < or_id y) (lb_asks s)
    \<and> (\<forall>x \<in> set (lb_bids s) \<union> set (lb_asks s). 0 < or_amount x \<and> 0 < or_price x \<and> or_id x < hp_next_order_id p)
    \<and> or_id ` set (lb_bids s) \<inter> or_id ` set (lb_asks s) = {} \<and> load_depth_used E s \<le> MAX_MATCH_DEPTH_LIMIT"
proof -
  note r = lob_reachable_pool [OF assms]
  have "sorted_wrt bid_before (lb_bids s)" "sorted_wrt ask_before (lb_asks s)" using r(2) by (simp_all add: book_ok_def)
  then have "sorted_wrt (\<lambda>x y. or_price y < or_price x \<or> or_price x = or_price y \<and> or_id x < or_id y) (lb_bids s)"
    "sorted_wrt (\<lambda>x y. or_price x < or_price y \<or> or_price x = or_price y \<and> or_id x < or_id y) (lb_asks s)"
    by (simp_all add: bid_before_def [abs_def] ask_before_def [abs_def])
  moreover have "\<forall>x \<in> set (lb_bids s) \<union> set (lb_asks s). 0 < or_amount x \<and> 0 < or_price x \<and> or_id x < hp_next_order_id p"
    "or_id ` set (lb_bids s) \<inter> or_id ` set (lb_asks s) = {}" using r(2) by (auto simp: book_ok_def orders_ok_def)
  ultimately show ?thesis using depth_used_bounds [OF r(3)] by blast
qed

theorem lob_book_in_order_witness:
  "\<exists>s w. (s, w) = run_calls (lob_exec client_transfer) lob_demo (empty_lob, lob_world) \<and> map or_id (lb_bids s) = [4, 3]
     \<and> sorted_wrt (\<lambda>x y. or_price y < or_price x \<or> or_price x = or_price y \<and> or_id x < or_id y) (lb_bids s)"
proof -
  obtain s w p where run: "(s, w) = run_calls (lob_exec client_transfer) lob_demo (empty_lob, lob_world)"
    and p: "lb_pool s = Some p" "map or_id (lb_bids s) = [4, 3]" by (rule lob_before)
  from run p(2) conjunct1 [OF lob_book_in_order [OF lob_demo_checked run p(1)]] show ?thesis by (intro exI conjI)
qed

text \<open>
  The asks are backed: with two different tokens, and calls that the contract did not sign itself, the contract
  holds of the first token exactly what it held before, plus the reserve, plus the open amounts of all asks.
\<close>

theorem lob_asks_backed:
  assumes "\<forall>c \<in> set cs. lob_call here (fst c) (snd c)"
    and "(s, w) = run_calls (lob_exec client_transfer) cs (empty_lob, w0)" "lb_pool s = Some p" "hp_token_a p \<noteq> hp_token_b p"
  shows "client_balance (hp_token_a p) here w
    = client_balance (hp_token_a p) here w0 + hp_reserve_a p + sum_list (map or_amount (lb_asks s))"
proof -
  have "lob_holds here (hp_token_a p) (client_balance (hp_token_a p) here w0) (empty_lob, w0)"
    by (simp add: lob_holds_def lob_inv_empty) (simp add: empty_lob_def)
  from lob_escrow.run_inv [OF this assms(1)]
  have "lob_holds here (hp_token_a p) (client_balance (hp_token_a p) here w0) (s, w)" unfolding assms(2) .
  with assms(3,4) show ?thesis by (simp add: lob_holds_def open_amount_def)
qed

theorem lob_asks_backed_witness:
  "\<exists>s w. (s, w) = run_calls (lob_exec client_transfer) lob_demo (empty_lob, lob_world)
     \<and> client_balance 701 0 w = 100000 + sum_list (map or_amount (lb_asks s))"
proof -
  obtain s w p where run: "(s, w) = run_calls (lob_exec client_transfer) lob_demo (empty_lob, lob_world)"
    and p: "lb_pool s = Some p" "hp_token_a p = 701" "hp_token_b p = 702" "hp_reserve_a p = 100000" by (rule lob_before)
  have w: "client_balance 701 0 lob_world = 0" by code_simp
  have "hp_token_a p \<noteq> hp_token_b p" using p by simp
  from lob_asks_backed [OF lob_demo_calls(2) run p(1) this] have "client_balance 701 0 w = 100000 + sum_list (map or_amount (lb_asks s))"
    unfolding p(2,4) w by simp
  with run show ?thesis by (intro exI conjI)
qed

lemma spot_price_pos: "spot_price p = Some q \<Longrightarrow> 0 < q"
  by (auto simp: spot_price_def Let_def split: if_splits option.splits)

lemma deviation_bps_le:
  assumes "deviation_bps E price q = Inr d" "overflow_checks E" "0 < q" "d \<le> n"
  shows "\<bar>price - q\<bar> * BPS_DENOMINATOR < (n + 1) * q"
proof -
  have "d = \<bar>price - q\<bar> * BPS_DENOMINATOR div q" using assms(1-3) by (auto simp: deviation_bps_def quot_pos_Inr BPS_DENOMINATOR_def)
  then have "\<bar>price - q\<bar> * BPS_DENOMINATOR div q < n + 1" using assms(4) by simp
  then show ?thesis using assms(3) by (metis div_mult_le_int zdiv_mono1 linorder_not_less nonzero_mult_div_cancel_right order_less_irrefl)
qed

lemma ask_outside_False:
  assumes "ask_outside E pool (spot_price pool) x = Inr False" "overflow_checks E" "or_price x > q \<or> 0 \<le> max_price_deviation_bps (hp_guards pool)"
    and "spot_price pool = Some q"
  shows "(or_price x - q) * BPS_DENOMINATOR < (max_price_deviation_bps (hp_guards pool) + 1) * q"
proof (cases "q < or_price x")
  case True
  with assms obtain d where "deviation_bps E (or_price x) q = Inr d" "d \<le> max_price_deviation_bps (hp_guards pool)"
    by (auto simp: ask_outside_def not_less)
  from deviation_bps_le [OF this(1) assms(2) spot_price_pos [OF assms(4)] this(2)] True show ?thesis by simp
next
  case False
  have "(or_price x - q) * BPS_DENOMINATOR \<le> 0" using False by (simp add: BPS_DENOMINATOR_def)
  moreover have "0 < (max_price_deviation_bps (hp_guards pool) + 1) * q" using False assms(3) spot_price_pos [OF assms(4)] by simp
  ultimately show ?thesis by linarith
qed

text \<open>The loop over the asks consumes a prefix, the last order of it perhaps in part.\<close>

lemma ask_loop_prefix:
  assumes E: "overflow_checks E" "0 \<le> hp_maker_fee_bps pool" and dev: "0 < max_price_deviation_bps (hp_guards pool)"
  shows "ask_loop xfer E pool taker (spot_price pool) budget xs m w = Inr (ys, m', w') \<Longrightarrow> orders_ok xs
    \<Longrightarrow> \<exists>gone rest. xs = gone @ rest
      \<and> (\<forall>x \<in> set gone. \<forall>q. spot_price pool = Some q \<longrightarrow> (or_price x - q) * BPS_DENOMINATOR < (max_price_deviation_bps (hp_guards pool) + 1) * q)
      \<and> (ys = rest \<or> mt_remaining m' = 0 \<and> (\<exists>x zs n. rest = x # zs \<and> 0 < n \<and> n < or_amount x \<and> ys = x\<lparr>or_amount := n\<rparr> # zs))"
proof (induction xs arbitrary: m w ys)
  case (Cons x xs)
  have x: "0 < or_amount x" "0 < or_price x" "orders_ok xs" using Cons.prems(2) by auto
  from Cons.prems(1) E x(1,2) show ?case
  proof (cases rule: ask_step)
    case 1
    then show ?thesis by (intro exI [of _ "[]"] exI [of _ "x # xs"]) simp
  next
    case (2 f c m1 w1 w2 zs)
    show ?thesis
    proof (cases "f = or_amount x")
      case True
      from Cons.IH [OF 2(9) x(3)] obtain gone rest where i: "xs = gone @ rest"
        "\<forall>x \<in> set gone. \<forall>q. spot_price pool = Some q \<longrightarrow> (or_price x - q) * BPS_DENOMINATOR < (max_price_deviation_bps (hp_guards pool) + 1) * q"
        "zs = rest \<or> mt_remaining m' = 0 \<and> (\<exists>x us n. rest = x # us \<and> 0 < n \<and> n < or_amount x \<and> zs = x\<lparr>or_amount := n\<rparr> # us)"
        by blast
      have "\<forall>q. spot_price pool = Some q \<longrightarrow> (or_price x - q) * BPS_DENOMINATOR < (max_price_deviation_bps (hp_guards pool) + 1) * q"
        using ask_outside_False [OF 2(13) E(1)] dev by simp
      moreover have "ys = zs" using 2(10) True by (simp add: keep_order_def)
      ultimately show ?thesis using i by (intro exI [of _ "x # gone"] exI [of _ rest]) simp
    next
      case False
      then have f: "f = mt_remaining m" "0 < or_amount x - f" using 2(2,12) by (auto simp: min_def split: if_splits)
      then have "mt_remaining m1 = 0" using 2(6) by simp
      then have "zs = xs" "m' = m1" using 2(9) by (cases xs; auto)+
      with f(2) 2(10) have "ys = x\<lparr>or_amount := or_amount x - f\<rparr> # xs" by (simp add: keep_order_def)
      then have "\<exists>y zs n. x # xs = y # zs \<and> 0 < n \<and> n < or_amount y \<and> ys = y\<lparr>or_amount := n\<rparr> # zs"
        using f(2) 2(1) by (intro exI [of _ x] exI [of _ xs] exI [of _ "or_amount x - f"]) simp
      with \<open>mt_remaining m1 = 0\<close> \<open>m' = m1\<close> show ?thesis
        by (intro exI [of _ "[]"] exI [of _ "x # xs"]) simp
    qed
  qed
qed simp

text \<open>
  Buyers take the asks in price-time order: a swap that buys the first token consumes a prefix of the asks
  completely and at most the next one in part, and that only when nothing is left for the pool to sell; none of the
  consumed asks is above the pool's price by more than the permitted deviation.
\<close>

theorem lob_asks_taken_in_order:
  assumes "\<forall>c \<in> set cs. overflow_checks (fst c)" "(s, w) = run_calls (lob_exec xfer) cs (empty_lob, w0)" "lb_pool s = Some p"
    and "lob_swap xfer E (s, w) taker True out in_max = Inr ((s', w'), r)" "overflow_checks E"
  shows "\<exists>gone rest. lb_asks s = gone @ rest
    \<and> (\<forall>x \<in> set gone. \<forall>q. spot_price p = Some q \<longrightarrow> (or_price x - q) * BPS_DENOMINATOR < (max_price_deviation_bps (hp_guards p) + 1) * q)
    \<and> (lb_asks s' = rest \<and> sw_lob_filled r = sum_list (map or_amount gone)
       \<or> sw_amm_filled r = 0 \<and> (\<exists>x xs n. rest = x # xs \<and> 0 < n \<and> n < or_amount x \<and> lb_asks s' = x\<lparr>or_amount := n\<rparr> # xs
           \<and> sw_lob_filled r = sum_list (map or_amount gone) + (or_amount x - n)))"
proof -
  note i = lob_reachable_pool [OF assms(1-3)]
  from assms(4) obtain s1 m w1 s2 pool' c where a: "0 < out"
    "match_side xfer E p taker True (budget_of E p s) s (start_of out) w = Inr (s1, m, w1)"
    "count_depth E (load_depth_used E s) m s1 = Inr s2" "pool_phase E p True m = Inr (pool', sw_amount_in r, c, sw_amm_filled r)"
    "sw_lob_filled r = mt_filled m" "s' = (lob_save_pool pool' s2)\<lparr>lb_events := lb_events s2 @ [(taker, r)]\<rparr>"
    by (rule swap_Inr) (use assms(3) in auto)
  have "0 \<le> mt_remaining (start_of out)" using a(1) by (simp add: start_of_def)
  note m = match_side_Inr [OF a(2) assms(5) i(1,2) this]
  from m have rem: "0 \<le> mt_remaining m" by (auto simp: loop_keeps_def)
  note ph = pool_phase_Inr [OF a(4) assms(5) rem]
  have s': "lb_asks s' = lb_asks s1" using a(6) count_depth_Inr [OF a(3) assms(5)] by (simp add: lob_save_pool_def)
  have filled: "sw_lob_filled r = open_amount (lb_asks s) - open_amount (lb_asks s')" using m a(5) s' by (simp add: start_of_def)
  from a(2) have loop: "ask_loop xfer E p taker (spot_price p) (budget_of E p s) (lb_asks s) (start_of out) w = Inr (lb_asks s1, m, w1)"
    by (auto simp: match_side_def)
  have "0 \<le> hp_maker_fee_bps p" "0 < max_price_deviation_bps (hp_guards p)" "orders_ok (lb_asks s)" using i by (simp_all add: pool_ok_def book_ok_def)
  from ask_loop_prefix [OF assms(5) this(1,2) loop this(3)] obtain gone rest where d: "lb_asks s = gone @ rest"
    "\<forall>x \<in> set gone. \<forall>q. spot_price p = Some q \<longrightarrow> (or_price x - q) * BPS_DENOMINATOR < (max_price_deviation_bps (hp_guards p) + 1) * q"
    "lb_asks s1 = rest \<or> mt_remaining m = 0 \<and> (\<exists>x zs n. rest = x # zs \<and> 0 < n \<and> n < or_amount x \<and> lb_asks s1 = x\<lparr>or_amount := n\<rparr> # zs)"
    by blast
  show ?thesis using d(3)
  proof (elim disjE conjE exE)
    assume "lb_asks s1 = rest"
    with d(1,2) filled s' show ?thesis by (intro exI [of _ gone] exI [of _ rest]) (simp add: open_amount_def)
  next
    fix x zs n
    assume x: "mt_remaining m = 0" "rest = x # zs" "0 < n" "n < or_amount x" "lb_asks s1 = x\<lparr>or_amount := n\<rparr> # zs"
    with d(1) filled s' have "sw_lob_filled r = sum_list (map or_amount gone) + (or_amount x - n)" by (simp add: open_amount_def)
    with x d(1,2) s' ph show ?thesis by (intro exI [of _ gone] exI [of _ rest]) auto
  qed
qed

lemma lob_demo_swap:
  obtains s w p s' w' where "(s, w) = run_calls (lob_exec client_transfer) lob_demo (empty_lob, lob_world)" "lb_pool s = Some p"
    "lob_swap client_transfer (env0 [8]) (s, w) 8 True 6000 20000
      = Inr ((s', w'), \<lparr>sw_amount_in = 12397, sw_amount_out = 6000, sw_lob_filled = 5000, sw_amm_filled = 1000\<rparr>)"
    "8 \<notin> makers_of (lb_asks s)" "hp_token_a p = 701" "hp_token_b p = 702" "hp_reserve_a p = 100000" "hp_reserve_b p = 200000"
    "hp_lp_fee_bps p = 30" "map or_amount (lb_asks s) = [3000, 2000]"
proof -
  obtain s w p where run: "(s, w) = run_calls (lob_exec client_transfer) lob_demo (empty_lob, lob_world)"
    and p: "lb_pool s = Some p" "hp_token_a p = 701" "hp_token_b p = 702" "hp_reserve_a p = 100000" by (rule lob_before)
  let ?r = "run_calls (lob_exec client_transfer) lob_demo (empty_lob, lob_world)"
  have "(case lob_swap client_transfer (env0 [8]) ?r 8 True 6000 20000 of Inl e \<Rightarrow> None | Inr (sw, r) \<Rightarrow> Some r)
      = Some \<lparr>sw_amount_in = 12397, sw_amount_out = 6000, sw_lob_filled = 5000, sw_amm_filled = 1000\<rparr>"
    "map (\<lambda>x. (or_maker x, or_amount x)) (lb_asks (fst ?r)) = [(6, 3000), (6, 2000)]"
    "map_option (\<lambda>p. (hp_reserve_b p, hp_lp_fee_bps p)) (lb_pool (fst ?r)) = Some (200000, 30)"
    by code_simp+
  then have f: "(case lob_swap client_transfer (env0 [8]) (s, w) 8 True 6000 20000 of Inl e \<Rightarrow> None | Inr (sw, r) \<Rightarrow> Some r)
      = Some \<lparr>sw_amount_in = 12397, sw_amount_out = 6000, sw_lob_filled = 5000, sw_amm_filled = 1000\<rparr>"
    "map (\<lambda>x. (or_maker x, or_amount x)) (lb_asks s) = [(6, 3000), (6, 2000)]"
    "map_option (\<lambda>p. (hp_reserve_b p, hp_lp_fee_bps p)) (lb_pool s) = Some (200000, 30)" unfolding run [symmetric] by simp_all
  from f(1) obtain s' w' where sw: "lob_swap client_transfer (env0 [8]) (s, w) 8 True 6000 20000
      = Inr ((s', w'), \<lparr>sw_amount_in = 12397, sw_amount_out = 6000, sw_lob_filled = 5000, sw_amm_filled = 1000\<rparr>)"
    by (auto split: sum.splits prod.splits)
  have "8 \<notin> makers_of (lb_asks s)" "map or_amount (lb_asks s) = [3000, 2000]" using f(2) by (auto simp: makers_of_def)
  from that [OF run p(1) sw this(1) p(2-4) _ _ this(2)] f(3) p(1) show ?thesis by simp
qed

theorem lob_asks_taken_in_order_witness:
  "\<exists>s w s' w' r. (s, w) = run_calls (lob_exec client_transfer) lob_demo (empty_lob, lob_world)
     \<and> lob_swap client_transfer (env0 [8]) (s, w) 8 True 6000 20000 = Inr ((s', w'), r)
     \<and> (\<exists>gone rest. lb_asks s = gone @ rest \<and> lb_asks s' = rest \<and> sum_list (map or_amount gone) = 5000)"
proof -
  obtain s w p s' w' where run: "(s, w) = run_calls (lob_exec client_transfer) lob_demo (empty_lob, lob_world)" and p: "lb_pool s = Some p"
    and sw: "lob_swap client_transfer (env0 [8]) (s, w) 8 True 6000 20000
      = Inr ((s', w'), \<lparr>sw_amount_in = 12397, sw_amount_out = 6000, sw_lob_filled = 5000, sw_amm_filled = 1000\<rparr>)"
    by (rule lob_demo_swap)
  have "overflow_checks (env0 [8])" by (simp add: env0_def)
  from lob_asks_taken_in_order [OF lob_demo_checked run p sw this]
  obtain gone rest where "lb_asks s = gone @ rest" "lb_asks s' = rest" "sum_list (map or_amount gone) = 5000" by auto
  with run sw show ?thesis by (intro exI conjI)
qed

section \<open>A swap\<close>

text \<open>
  A swap delivers: with two different tokens of this repository, a completed swap gives the taker exactly the amount
  it asked for, from the book and the pool together, and a taker that has no order of its own on that side pays exactly
  the reported amount, which is at most its limit.
\<close>

theorem lob_swap_delivers:
  assumes "\<forall>c \<in> set cs. overflow_checks (fst c)" "(s, w) = run_calls (lob_exec client_transfer) cs (empty_lob, w0)" "lb_pool s = Some p"
    and "lob_swap client_transfer E (s, w) taker buy_a out in_max = Inr ((s', w'), r)" "overflow_checks E"
    and "hp_token_a p \<noteq> hp_token_b p" "taker \<noteq> this_contract E"
    and "taker \<notin> or_maker ` set (if buy_a then lb_asks s else lb_bids s)"
    and "tin = (if buy_a then hp_token_b p else hp_token_a p)" "tout = (if buy_a then hp_token_a p else hp_token_b p)"
  shows "client_balance tout taker w' = client_balance tout taker w + out
    \<and> client_balance tin taker w' = client_balance tin taker w - sw_amount_in r
    \<and> sw_amount_in r \<le> in_max \<and> sw_lob_filled r + sw_amm_filled r = out \<and> sw_amount_out r = out"
proof -
  note i = lob_reachable_pool [OF assms(1-3)]
  from assms(4) have lim: "sw_amount_in r \<le> in_max" "sw_amount_out r = out" by (rule swap_Inr; simp)+
  have "taker \<notin> makers_of (if buy_a then lb_asks s else lb_bids s)" using assms(8) by (simp add: makers_of_def)
  with token_world.swap_funds [OF assms(4,5,3) i(1,2) assms(6,7,9,10)] lim show ?thesis by blast
qed

theorem lob_swap_delivers_witness:
  "\<exists>s w s' w' r. (s, w) = run_calls (lob_exec client_transfer) lob_demo (empty_lob, lob_world)
     \<and> lob_swap client_transfer (env0 [8]) (s, w) 8 True 6000 20000 = Inr ((s', w'), r)
     \<and> client_balance 701 8 w' = client_balance 701 8 w + 6000 \<and> client_balance 702 8 w' = client_balance 702 8 w - 12397"
proof -
  obtain s w p s' w' where run: "(s, w) = run_calls (lob_exec client_transfer) lob_demo (empty_lob, lob_world)" and p: "lb_pool s = Some p"
    and sw: "lob_swap client_transfer (env0 [8]) (s, w) 8 True 6000 20000
      = Inr ((s', w'), \<lparr>sw_amount_in = 12397, sw_amount_out = 6000, sw_lob_filled = 5000, sw_amm_filled = 1000\<rparr>)"
    and q: "8 \<notin> makers_of (lb_asks s)" "hp_token_a p = 701" "hp_token_b p = 702"
    by (rule lob_demo_swap)
  have E: "overflow_checks (env0 [8])" "hp_token_a p \<noteq> hp_token_b p" "8 \<noteq> this_contract (env0 [8])"
    "8 \<notin> or_maker ` set (if True then lb_asks s else lb_bids s)" using q by (simp_all add: env0_def makers_of_def)
  from lob_swap_delivers [OF lob_demo_checked run p sw E refl refl] q(2,3)
  have "client_balance 701 8 w' = client_balance 701 8 w + 6000" "client_balance 702 8 w' = client_balance 702 8 w - 12397" by simp_all
  with run sw show ?thesis by (intro exI conjI)
qed

text \<open>The pool asks at least the price of the constant product.\<close>

lemma quote_keeps_product:
  assumes q: "quot I128 (x * n * BPS_DENOMINATOR) ((y - n) * (BPS_DENOMINATOR - fee)) = (Inr c :: int lob_res)"
    and "0 < x" "0 \<le> n" "n < y" "0 \<le> fee" "fee < BPS_DENOMINATOR"
  shows "x * y \<le> (x + (c + 1)) * (y - n)"
proof -
  let ?d = "(y - n) * (BPS_DENOMINATOR - fee)"
  have d: "0 < ?d" "0 \<le> x * n * BPS_DENOMINATOR" using assms(2-6) by (simp_all add: BPS_DENOMINATOR_def)
  have c: "c = x * n * BPS_DENOMINATOR div ?d" "0 \<le> c" using q d by (auto simp: quot_pos_Inr intro!: div_nonneg_int)
  have "x * n * BPS_DENOMINATOR < (c + 1) * ?d" using d(1) less_Suc_div_mult_int [OF d(1), of "x * n * BPS_DENOMINATOR"] c(1) by (simp add: mult.commute)
  also have "\<dots> \<le> (c + 1) * ((y - n) * BPS_DENOMINATOR)"
    using assms(4,5) c(2) by (intro mult_left_mono) auto
  finally have "x * n * BPS_DENOMINATOR < (c + 1) * (y - n) * BPS_DENOMINATOR" by (simp add: ac_simps)
  then have "x * n < (c + 1) * (y - n)" by (simp add: BPS_DENOMINATOR_def)
  then show ?thesis by (simp add: algebra_simps)
qed

lemma amm_leg_product:
  assumes "amm_leg E pool buy_a n = Inr (pool', c)" "overflow_checks E" "0 \<le> n"
    and "0 < hp_reserve_a pool" "0 < hp_reserve_b pool" "0 \<le> hp_lp_fee_bps pool" "hp_lp_fee_bps pool < BPS_DENOMINATOR"
  shows "hp_reserve_a pool * hp_reserve_b pool \<le> hp_reserve_a pool' * hp_reserve_b pool'"
proof -
  note l = amm_leg_Inr [OF assms(1,2)]
  show ?thesis
  proof (cases buy_a)
    case True
    with l quote_keeps_product [of "hp_reserve_b pool" n "hp_reserve_a pool" "hp_lp_fee_bps pool" "c - 1"] assms(3-7) show ?thesis
      by (simp add: mult.commute)
  next
    case False
    with l quote_keeps_product [of "hp_reserve_a pool" n "hp_reserve_b pool" "hp_lp_fee_bps pool" "c - 1"] assms(3-7) show ?thesis
      by simp
  qed
qed



section \<open>Free fills\<close>

lemma free_bid_loop:
  assumes "bid_loop xfer E pool taker (spot_price pool) budget (x # xs) (start_of out) w = Inr (ys, m', w')" "overflow_checks E"
    and "0 < or_amount x" "0 < or_price x" "0 < out" "out * LOB_PRICE_SCALE < or_price x" "out \<le> or_amount x * or_price x div LOB_PRICE_SCALE"
    and "0 < budget" "\<forall>q. spot_price pool = Some q \<longrightarrow> q \<le> or_price x"
  shows "ys = x # xs \<and> mt_total_in m' = 0 \<and> mt_remaining m' = 0"
proof -
  have S: "0 < LOB_PRICE_SCALE" by (simp add: LOB_PRICE_SCALE_def)
  have out: "bid_outside E pool (spot_price pool) x = Inr False" using assms(9) by (cases "spot_price pool") (auto simp: bid_outside_def)
  have z: "out * LOB_PRICE_SCALE div or_price x = 0" using assms(5,6) S by (intro div_pos_pos_trivial) auto
  have p: "0 \<le> or_amount x * or_price x" "0 \<le> out * LOB_PRICE_SCALE" using assms(3-5) S by simp_all
  have fee: "with_maker_fee E pool 0 = Inr c \<Longrightarrow> c = 0" for c by (auto simp: with_maker_fee_def quot_pos_Inr BPS_DENOMINATOR_def)
  have stop: "bid_loop xfer E pool taker (spot_price pool) budget xs m1 w2 = Inr (zs, m', w') \<Longrightarrow> mt_remaining m1 = 0 \<Longrightarrow> zs = xs \<and> m' = m1"
    for m1 w2 zs by (cases xs) auto
  have "min out (or_amount x * or_price x div LOB_PRICE_SCALE) = out" using assms(7) by simp
  with assms(1-4,5,8) out z S p obtain c w1 w2 m1 zs where a: "with_maker_fee E pool 0 = Inr c"
    "settle_fill E (start_of out) c out = Inr m1" "bid_loop xfer E pool taker (spot_price pool) budget xs m1 w2 = Inr (zs, m', w')"
    "ys = keep_order x (or_amount x) zs"
    by (auto simp: start_of_def quot_pos_Inr Let_def split: if_splits)
  from a(2) fee [OF a(1)] assms(2) have m1: "mt_remaining m1 = 0" "mt_total_in m1 = 0" by (auto simp: settle_fill_Inr start_of_def)
  with stop [OF a(3)] a(4) assms(3) show ?thesis by (auto simp: keep_order_def)
qed

text \<open>
  Small fills of bids are free: against a bid at a price above one (in units of \<open>LOB_PRICE_SCALE\<close>), a swap that asks for less
  than one unit's worth is charged nothing, and neither the bid nor the reserves shrink, although the contract pays the
  amount out: the maker's order can still be cancelled for its full value, which comes out of the reserves of the pool.
\<close>

theorem lob_small_bid_fill_is_free:
  assumes "\<forall>c \<in> set cs. overflow_checks (fst c)" "(s, w) = run_calls (lob_exec client_transfer) cs (empty_lob, w0)" "lb_pool s = Some p"
    and "lob_swap client_transfer E (s, w) taker False out in_max = Inr ((s', w'), r)" "overflow_checks E"
    and "hp_token_a p \<noteq> hp_token_b p" "taker \<noteq> this_contract E"
    and "lb_bids s = x # bids" "out * LOB_PRICE_SCALE < or_price x" "out \<le> or_amount x * or_price x div LOB_PRICE_SCALE"
    and "\<forall>q. spot_price p = Some q \<longrightarrow> q \<le> or_price x" "load_depth_used E s < max_match_depth (hp_guards p)"
  shows "sw_amount_in r = 0 \<and> lb_bids s' = lb_bids s \<and> lb_pool s' = lb_pool s
    \<and> client_balance (hp_token_b p) taker w' = client_balance (hp_token_b p) taker w + out
    \<and> client_balance (hp_token_b p) (this_contract E) w' = client_balance (hp_token_b p) (this_contract E) w - out"
proof -
  note i = lob_reachable_pool [OF assms(1-3)]
  from assms(4) obtain s1 m w1 s2 p' c where a: "0 < out"
    "match_side client_transfer E p taker False (budget_of E p s) s (start_of out) w = Inr (s1, m, w1)"
    "count_depth E (load_depth_used E s) m s1 = Inr s2" "pool_phase E p False m = Inr (p', sw_amount_in r, c, sw_amm_filled r)"
    "s' = (lob_save_pool p' s2)\<lparr>lb_events := lb_events s2 @ [(taker, r)]\<rparr>"
    by (rule swap_Inr) (use assms(3) in auto)
  have x: "0 < or_amount x" "0 < or_price x" using i(2) assms(8) by (auto simp: book_ok_def)
  have bud: "0 < budget_of E p s" using assms(12) by (simp add: budget_of_def)
  from a(2) assms(8) obtain w'' where "bid_loop client_transfer E p taker (spot_price p) (budget_of E p s) (x # bids) (start_of out) w = Inr (lb_bids s1, m, w'')"
    by (auto simp: match_side_def)
  from free_bid_loop [OF this assms(5) x a(1) assms(9,10) bud assms(11)]
  have m: "lb_bids s1 = lb_bids s" "mt_total_in m = 0" "mt_remaining m = 0" using assms(8) by auto
  with a(4) have "p' = p" "sw_amount_in r = 0" by (auto simp: pool_phase_def)
  moreover have "lb_bids s' = lb_bids s" using a(5) m(1) count_depth_Inr [OF a(3) assms(5)] by (simp add: lob_save_pool_def)
  moreover have "lb_pool s' = Some p'" using a(5) by (simp add: lob_save_pool_def)
  moreover have "client_balance (hp_token_b p) taker w' = client_balance (hp_token_b p) taker w + out
    \<and> client_balance (hp_token_b p) (this_contract E) w' = client_balance (hp_token_b p) (this_contract E) w - out"
    using token_world.swap_funds [OF assms(4,5,3) i(1,2) assms(6,7) refl refl] by auto
  ultimately show ?thesis using assms(3) by simp
qed

text \<open>The scenario: the bid locks 50000 units; five free fills take 49995 of them, and the bid is cancelled for 50000.\<close>

definition lob_cheap :: "(env \<times> lob_op) list" where
  "lob_cheap = [(env0 [], LInitialize 9 701 702 30 20 lob_guards), (env0 [5], LDeposit 5 20 200000),
     (env0 [7], LPlace 7 True 10000000000 5)]"

definition lob_drain :: "(env \<times> lob_op) list" where
  "lob_drain = replicate 5 (env0 [8], LSwap 8 False 9999 0) @ [(env0 [7], LCancel 7 1)]"

lemma lob_drain_figures:
  "lob_figures (run_calls (lob_exec client_transfer) (lob_cheap @ lob_drain) (empty_lob, lob_world))
    = [[], [], [], [], [20, 200000], [20, 99980, 5000, 0, 9000], [150005, 0, 0, 60000, 69995], [0, 0, 0, 0, 0]]"
  by code_simp

theorem lob_small_bid_fill_is_free_witness:
  "\<exists>s w s' w' r. (s, w) = run_calls (lob_exec client_transfer) lob_cheap (empty_lob, lob_world)
     \<and> lob_swap client_transfer (env0 [8]) (s, w) 8 False 9999 0 = Inr ((s', w'), r) \<and> sw_amount_in r = 0
     \<and> lb_bids s' = lb_bids s \<and> client_balance 702 8 w' = client_balance 702 8 w + 9999"
proof -
  let ?r = "run_calls (lob_exec client_transfer) lob_cheap (empty_lob, lob_world)"
  obtain s w where run: "(s, w) = ?r" by (metis surj_pair)
  have "\<not> isl (lob_swap client_transfer (env0 [8]) ?r 8 False 9999 0)"
    "map (\<lambda>x. (or_amount x, or_price x)) (lb_bids (fst ?r)) = [(5, 10000000000)]"
    "map_option (\<lambda>p. (hp_token_a p, hp_token_b p, spot_price p, max_match_depth (hp_guards p))) (lb_pool (fst ?r))
      = Some (701, 702, Some 10000000000, 5)" "load_depth_used (env0 [8]) (fst ?r) = 0"
    by code_simp+
  then have f: "\<not> isl (lob_swap client_transfer (env0 [8]) (s, w) 8 False 9999 0)"
    "map (\<lambda>x. (or_amount x, or_price x)) (lb_bids s) = [(5, 10000000000)]"
    "map_option (\<lambda>p. (hp_token_a p, hp_token_b p, spot_price p, max_match_depth (hp_guards p))) (lb_pool s)
      = Some (701, 702, Some 10000000000, 5)" "load_depth_used (env0 [8]) s = 0" unfolding run [symmetric] by simp_all
  from f(1) obtain s' w' r where sw: "lob_swap client_transfer (env0 [8]) (s, w) 8 False 9999 0 = Inr ((s', w'), r)"
    by (metis isl_def old.sum.exhaust prod.collapse)
  from f(3) obtain p where p: "lb_pool s = Some p" "hp_token_a p = 701" "hp_token_b p = 702" "spot_price p = Some 10000000000"
    "max_match_depth (hp_guards p) = 5" by auto
  from f(2) obtain x where x: "lb_bids s = x # []" "or_amount x = 5" "or_price x = 10000000000" by auto
  have calls: "\<forall>c \<in> set lob_cheap. overflow_checks (fst c)" "overflow_checks (env0 [8])" "8 \<noteq> this_contract (env0 [8])"
    by (simp_all add: lob_cheap_def env0_def)
  have c: "hp_token_a p \<noteq> hp_token_b p" "9999 * LOB_PRICE_SCALE < or_price x" "9999 \<le> or_amount x * or_price x div LOB_PRICE_SCALE"
    "\<forall>q. spot_price p = Some q \<longrightarrow> q \<le> or_price x" "load_depth_used (env0 [8]) s < max_match_depth (hp_guards p)"
    using p x f(4) by (simp_all add: LOB_PRICE_SCALE_def)
  from lob_small_bid_fill_is_free [OF calls(1) run p(1) sw calls(2) c(1) calls(3) x(1) c(2-5)]
  have "sw_amount_in r = 0" "lb_bids s' = lb_bids s" "client_balance 702 8 w' = client_balance 702 8 w + 9999" unfolding p(3) by simp_all
  with run sw show ?thesis by (intro exI conjI)
qed

section \<open>Cancelling\<close>

lemma div_in_range: "in_range I128 n \<Longrightarrow> 0 \<le> n \<Longrightarrow> 0 < d \<Longrightarrow> in_range I128 (n div d)"
  using in_range_nonneg_le [of I128 n "n div d"] div_nonneg_int [of n d] zdiv_mono2 [of n 1 d] by simp

lemma restored_book:
  "s\<lparr>lb_pool := q, lb_bids := xs, lb_bids := lb_bids s\<rparr> = s\<lparr>lb_pool := q\<rparr>"
  "s\<lparr>lb_pool := q, lb_asks := xs, lb_asks := lb_asks s\<rparr> = s\<lparr>lb_pool := q\<rparr>"
  "s\<lparr>lb_pool := q, lb_bids := lb_bids s\<rparr> = s\<lparr>lb_pool := q\<rparr>"
  "s\<lparr>lb_pool := q, lb_asks := lb_asks s\<rparr> = s\<lparr>lb_pool := q\<rparr>"
  by (cases s; simp)+

text \<open>
  An order can be taken back: cancelling an order at once gives the maker exactly what placing it cost and restores
  the book, so that only the next order number has changed; it fails only if the token refuses the refund, or if the
  maker does not authorise it.
\<close>

theorem lob_place_then_cancel:
  assumes "\<forall>c \<in> set cs. overflow_checks (fst c)" "(s, w) = run_calls (lob_exec client_transfer) cs (empty_lob, w0)" "lb_pool s = Some p"
    and "lob_place_order client_transfer E (s, w) u is_bid price amount = Inr ((s1, w1), k)" "overflow_checks E"
    and "overflow_checks E'" "this_contract E' = this_contract E" "u \<in> set (auths E')"
  shows "lob_cancel_order client_transfer E' (s1, w1) u k =
      (case client_transfer E' (if is_bid then hp_token_b p else hp_token_a p) (this_contract E) u
              (if is_bid then amount * price div LOB_PRICE_SCALE else amount) w1 of
         None \<Rightarrow> Inl (Panic CallFailed)
       | Some w2 \<Rightarrow> Inr (s\<lparr>lb_pool := Some (p\<lparr>hp_next_order_id := k + 1\<rparr>)\<rparr>, w2))
    \<and> (\<forall>s2 w2 t a. lob_cancel_order client_transfer E' (s1, w1) u k = Inr (s2, w2) \<longrightarrow> client_balance t a w2 = client_balance t a w)"
    (is "?eq \<and> ?same")
proof -
  note i = lob_reachable_pool [OF assms(1-3)]
  have fresh: "\<forall>y \<in> set (lb_bids s). or_id y \<noteq> hp_next_order_id p" "\<forall>y \<in> set (lb_asks s). or_id y \<noteq> hp_next_order_id p"
    using i(2) by (auto simp: book_ok_def)
  have S: "0 < LOB_PRICE_SCALE" by (simp add: LOB_PRICE_SCALE_def)
  let ?n = "if is_bid then amount * price div LOB_PRICE_SCALE else amount" and ?t = "if is_bid then hp_token_b p else hp_token_a p"
  let ?x = "\<lparr>or_id = k, or_maker = u, or_is_bid = is_bid, or_price = price, or_amount = amount\<rparr>"
  from assms(4,5) obtain q x where a: "0 < amount" "0 < price" "lb_pool s = Some q" "k = hp_next_order_id q" "x = ?x"
    and s1: "s1 = (if is_bid then s\<lparr>lb_pool := Some (q\<lparr>hp_next_order_id := k + 1\<rparr>), lb_bids := insert_bid (lb_bids s) x\<rparr>
       else s\<lparr>lb_pool := Some (q\<lparr>hp_next_order_id := k + 1\<rparr>), lb_asks := insert_ask (lb_asks s) x\<rparr>)"
    and pay: "if is_bid then in_range I128 (amount * price) \<and> client_transfer E (hp_token_b q) u (this_contract E) (amount * price div LOB_PRICE_SCALE) w = Some w1
     else client_transfer E (hp_token_a q) u (this_contract E) amount w = Some w1"
    by (rule place_Inr)
  have q: "q = p" using a(3) assms(3) by simp
  have paid: "client_transfer E ?t u (this_contract E) ?n w = Some w1" using pay q by (cases is_bid) auto
  have auth: "rbind (require_auth E' u) f = f ()" for f :: "unit \<Rightarrow> (lob \<times> tokens) lob_res"
    using assms(8) by (simp add: require_auth_def)
  have quo: "rbind (ok_or InvalidAmount (checked I128 (amount * price))) f = (f (amount * price) :: (lob \<times> tokens) lob_res)"
    "quot I128 (amount * price) LOB_PRICE_SCALE = (Inr (amount * price div LOB_PRICE_SCALE) :: int lob_res)" if is_bid for f
    using pay that a(1,2) S div_in_range by (auto simp: quot_pos_Inr checked_def ok_or_def)
  have ?eq
  proof (cases is_bid)
    case True
    have "take_order k (insert_bid (lb_bids s) ?x) = Some (?x, lb_bids s)"
      using take_insert_bid [of "lb_bids s" ?x] fresh a(4) q by simp
    then show ?thesis using True s1 pay assms(3,7) auth a(5) q quo [OF True]
      by (simp add: lob_cancel_order_def lob_load_pool_def restored_book split: option.splits)
  next
    case False
    have "take_order k (lb_bids s) = None" using fresh(1) a(4) q by (simp add: take_order_None)
    moreover have "take_order k (insert_ask (lb_asks s) ?x) = Some (?x, lb_asks s)"
      using take_insert_ask [of "lb_asks s" ?x] fresh a(4) q by simp
    ultimately show ?thesis using False s1 assms(3,7) auth a(5) q
      by (simp add: lob_cancel_order_def lob_load_pool_def restored_book split: option.splits)
  qed
  moreover have ?same
  proof (intro allI impI)
    fix s2 w2 t b
    assume "lob_cancel_order client_transfer E' (s1, w1) u k = Inr (s2, w2)"
    with \<open>?eq\<close> have "client_transfer E' ?t (this_contract E) u ?n w1 = Some w2" by (auto split: option.splits)
    from token_world.xfer_bal [OF assms(6) this, of t b] token_world.xfer_bal [OF assms(5) paid, of t b]
    show "client_balance t b w2 = client_balance t b w" by (auto simp: delta_def)
  qed
  ultimately show ?thesis by blast
qed

theorem lob_place_then_cancel_witness:
  "\<exists>s w s1 w1 s2 w2. (s, w) = run_calls (lob_exec client_transfer) lob_demo (empty_lob, lob_world)
     \<and> lob_place_order client_transfer (env0 [7]) (s, w) 7 True 2000001 999 = Inr ((s1, w1), 5)
     \<and> lob_cancel_order client_transfer (env0 [7]) (s1, w1) 7 5 = Inr (s2, w2)
     \<and> lb_bids s2 = lb_bids s \<and> client_balance 702 7 w2 = client_balance 702 7 w"
proof -
  let ?r = "run_calls (lob_exec client_transfer) lob_demo (empty_lob, lob_world)"
  obtain s w p where run: "(s, w) = ?r" and p: "lb_pool s = Some p" by (rule lob_before)
  have "(case lob_place_order client_transfer (env0 [7]) ?r 7 True 2000001 999 of Inl e \<Rightarrow> None
    | Inr (sw, k) \<Rightarrow> (case lob_cancel_order client_transfer (env0 [7]) sw 7 k of Inl e \<Rightarrow> None | Inr sw' \<Rightarrow> Some k)) = Some 5" by code_simp
  then obtain s1 w1 s2 w2 where pl: "lob_place_order client_transfer (env0 [7]) (s, w) 7 True 2000001 999 = Inr ((s1, w1), 5)"
    and ca: "lob_cancel_order client_transfer (env0 [7]) (s1, w1) 7 5 = Inr (s2, w2)"
    unfolding run [symmetric] by (auto split: sum.splits prod.splits)
  have E: "overflow_checks (env0 [7])" "this_contract (env0 [7]) = this_contract (env0 [7])" "7 \<in> set (auths (env0 [7]))"
    by (simp_all add: env0_def)
  note c = lob_place_then_cancel [OF lob_demo_checked run p pl E(1,1,2,3)]
  have "client_balance 702 7 w2 = client_balance 702 7 w" using c ca by blast
  moreover have "lb_bids s2 = lb_bids s" using c ca by (auto split: option.splits)
  ultimately show ?thesis using run pl ca by (intro exI conjI)
qed

end
