(* ===== verification/ConcentratedMath.thy ===== *)
theory ConcentratedMath
  imports FixedMathProperties
begin

text \<open>
  The arithmetic of the concentrated pool, \<open>contracts/concentrated_amm/src/math.rs\<close>: square-root prices in Q64.64.
  A \<open>u128\<close> is an integer in its range; the wide multiplication is the one of \<open>FixedMath\<close>, whose text it
  repeats, here over unsigned numbers.
\<close>

section \<open>Definitions\<close>

datatype math_error = Overflow | DivisionByZero | InvalidPrice

type_synonym 'a cm_res = "(math_error, 'a) res"

definition Q64 :: int where "Q64 = 18446744073709551616"
definition MIN_TICK :: int where "MIN_TICK = - 524280"
definition MAX_TICK :: int where "MAX_TICK = 524280"

definition cm_mul_div :: "int \<Rightarrow> int \<Rightarrow> int \<Rightarrow> int cm_res" where
  "cm_mul_div a b d =
     (if d = 0 then Inl (Err DivisionByZero)
      else
        let (q, overflow) = mul_div_u128 (of_int a) (of_int b) (of_int d) in
        if overflow then Inl (Err Overflow) else Inr (uint q))"

text \<open>The digit-by-digit square root; the probe \<open>p\<close> is quartered in every round of both loops.\<close>

function sqrt_first_bit :: "nat \<Rightarrow> nat \<Rightarrow> nat" where
  "sqrt_first_bit x p = (if p > x then sqrt_first_bit x (p div 4) else p)"
  by auto
termination
  by (relation "measure (\<lambda>(x, p). p)") auto

function sqrt_digits :: "nat \<Rightarrow> nat \<Rightarrow> nat \<Rightarrow> nat" where
  "sqrt_digits x r p =
     (if p \<noteq> 0 then
        (if x \<ge> r + p then sqrt_digits (x - (r + p)) (r div 2 + p) (p div 4)
         else sqrt_digits x (r div 2) (p div 4))
      else r)"
  by auto
termination
  by (relation "measure (\<lambda>(x, r, p). p)") auto

declare sqrt_first_bit.simps [simp del] sqrt_digits.simps [simp del]

definition sqrt_u128 :: "nat \<Rightarrow> nat" where
  "sqrt_u128 x = (if x = 0 then 0 else sqrt_digits x 0 (sqrt_first_bit x (2 ^ 126)))"

text \<open>The powers of the base by repeated squaring; \<open>t\<close> is the rest of the tick's magnitude.\<close>

definition tick_base :: int where "tick_base = 18447669818844880896"

function ratio_loop :: "nat \<Rightarrow> int \<Rightarrow> int \<Rightarrow> int cm_res" where
  "ratio_loop t ratio base =
     (if t > 0 then
        rbind (if t mod 2 = 1 then cm_mul_div ratio base Q64 else Inr ratio) (\<lambda>ratio'.
        rbind (cm_mul_div base base Q64) (\<lambda>base'.
        ratio_loop (t div 2) ratio' base'))
      else Inr ratio)"
  by pat_completeness auto
termination
  by (relation "measure (\<lambda>(t, ratio, base). t)") auto

declare ratio_loop.simps [simp del]

definition get_sqrt_ratio_at_tick :: "env \<Rightarrow> int \<Rightarrow> int cm_res" where
  "get_sqrt_ratio_at_tick E tick =
     rbind (fit E I32 \<bar>tick\<bar>) (\<lambda>abs_tick.
     rbind (ratio_loop (nat (abs_tick mod 2 ^ 32)) Q64 tick_base) (\<lambda>ratio.
     if tick < 0 then cm_mul_div Q64 Q64 ratio else Inr ratio))"

definition get_amount_0_delta :: "int \<Rightarrow> int \<Rightarrow> int \<Rightarrow> int cm_res" where
  "get_amount_0_delta a b liquidity =
     (let lower = (if a < b then a else b); upper = (if a < b then b else a) in
      rbind (cm_mul_div liquidity Q64 upper) (\<lambda>num1.
      rbind (ok_or Overflow (checked U128 (upper - lower))) (\<lambda>num2.
      cm_mul_div num1 num2 lower)))"

definition get_amount_1_delta :: "int \<Rightarrow> int \<Rightarrow> int \<Rightarrow> int cm_res" where
  "get_amount_1_delta a b liquidity =
     (let lower = (if a < b then a else b); upper = (if a < b then b else a) in
      rbind (ok_or Overflow (checked U128 (upper - lower))) (\<lambda>diff.
      cm_mul_div liquidity diff Q64))"

definition get_next_sqrt_price_from_input :: "int \<Rightarrow> int \<Rightarrow> int \<Rightarrow> bool \<Rightarrow> int cm_res" where
  "get_next_sqrt_price_from_input sqrt_p liquidity amount_in zero_for_one =
     (if amount_in = 0 then Inr sqrt_p
      else if zero_for_one then
        rbind (cm_mul_div amount_in sqrt_p Q64) (\<lambda>p_times_delta.
        rbind (ok_or Overflow (checked U128 (liquidity + p_times_delta))) (\<lambda>den.
        cm_mul_div sqrt_p liquidity den))
      else
        rbind (cm_mul_div amount_in Q64 liquidity) (\<lambda>delta.
        ok_or Overflow (checked U128 (sqrt_p + delta))))"

section \<open>Multiplication and division\<close>

lemma uint_of_u128: "in_range U128 n \<Longrightarrow> uint (of_int n :: 128 word) = n"
  by (simp add: in_range_def uint_word_of_int)

lemma unat_of_u128: "in_range U128 n \<Longrightarrow> unat (of_int n :: 128 word) = nat n"
  by (simp add: uint_of_u128 unat_eq_nat_uint)

text \<open>Exact whenever the divisor is at most \<open>2^127\<close>.\<close>

lemma cm_mul_div_exact:
  assumes "in_range U128 a" "in_range U128 b" "in_range U128 d" "d \<le> 2 ^ 127"
  shows "cm_mul_div a b d = (if d = 0 then Inl (Err DivisionByZero)
    else if 2 ^ 128 \<le> a * b div d then Inl (Err Overflow) else Inr (a * b div d))"
proof (cases "d = 0")
  case False
  have r: "0 \<le> a" "0 \<le> b" "0 < d" using assms(1-3) False by (auto simp: in_range_def)
  have u: "unat (of_int a :: 128 word) = nat a" "unat (of_int b :: 128 word) = nat b" "unat (of_int d :: 128 word) = nat d"
    using assms by (simp_all add: unat_of_u128)
  have "0 < unat (of_int d :: 128 word)" "unat (of_int d :: 128 word) \<le> 2 ^ 127" using r(3) assms(4) u(3) by (simp_all add: nat_le_iff)
  from mul_div_u128_correct [OF this, of "of_int a" "of_int b"] obtain q ov where
    m: "mul_div_u128 (of_int a) (of_int b) (of_int d) = (q, ov)" "ov \<longleftrightarrow> 2 ^ 128 \<le> nat a * nat b div nat d"
      "\<not> ov \<longrightarrow> unat q = nat a * nat b div nat d" unfolding u by blast
  have n: "nat a * nat b div nat d = nat (a * b div d)" using r by (simp add: nat_div_distrib nat_mult_distrib)
  have q0: "0 \<le> a * b div d" using r by (intro div_nonneg_int) simp_all
  have "ov \<longleftrightarrow> 2 ^ 128 \<le> a * b div d" using m(2) q0 unfolding n by (simp add: le_nat_iff)
  moreover have "\<not> ov \<longrightarrow> uint q = a * b div d" using m(3) q0 unfolding n by (metis int_nat_eq uint_nat)
  ultimately show ?thesis using False m(1) by (auto simp: cm_mul_div_def)
qed (simp add: cm_mul_div_def)

lemma cm_mul_div_code [code]:
  "cm_mul_div a b d =
     (if in_range U128 a \<and> in_range U128 b \<and> in_range U128 d \<and> d \<le> 2 ^ 127
      then (if d = 0 then Inl (Err DivisionByZero) else if 2 ^ 128 \<le> a * b div d then Inl (Err Overflow) else Inr (a * b div d))
      else if d = 0 then Inl (Err DivisionByZero)
      else
        let (q, overflow) = mul_div_u128 (of_int a) (of_int b) (of_int d) in
        if overflow then Inl (Err Overflow) else Inr (uint q))"
  using cm_mul_div_exact [of a b d] by (simp add: cm_mul_div_def)

text \<open>Above \<open>2^127\<close> the remainder loses its top bit when it is shifted, and the quotient is wrong.\<close>

lemma div_loop_high: "i \<le> n \<Longrightarrow> bit (div_loop d low i quo r) n = bit quo n"
  by (induction i arbitrary: quo r) (auto simp: Let_def bit_simps)

lemma div_loop_small: "uint (div_loop d low 127 0 r) < 2 ^ 127"
proof -
  let ?q = "div_loop d low 127 0 r"
  have "take_bit 127 ?q = ?q"
  proof (rule bit_eqI)
    fix n
    show "bit (take_bit 127 ?q) n = bit ?q n" using div_loop_high [of 127 n d low 0 r]
      by (cases "127 \<le> n") (simp_all add: bit_take_bit_iff)
  qed
  then have "uint ?q = take_bit 127 (uint ?q)" by (metis unsigned_take_bit_eq)
  also have "\<dots> < 2 ^ 127" by (rule take_bit_int_less_exp)
  finally show ?thesis .
qed

lemma cm_mul_div_wrong: "\<exists>q < 2 ^ 127. cm_mul_div (2 ^ 128 - 1) (2 ^ 128 - 1) (2 ^ 128 - 1) = Inr q"
proof -
  let ?d = "of_int (2 ^ 128 - 1) :: 128 word" and ?h = "0xFFFFFFFFFFFFFFFFFFFFFFFFFFFFFFFE :: 128 word"
  have one: "(340282366920938463463374607431768211457 :: 128 word) = 1" by simp
  have m: "mul_div_u128 ?d ?d ?d = (div_loop ?d 1 128 0 ?h, False)"
    by (simp add: mul_div_u128_def mask64_def Let_def one)
  have "div_loop ?d 1 (Suc 127) 0 ?h = div_loop ?d 1 127 0 680564733841876926926749214863536422908"
    by (simp only: div_loop.simps) simp
  then have q: "div_loop ?d 1 128 0 ?h = div_loop ?d 1 127 0 680564733841876926926749214863536422908" by simp
  let ?q = "div_loop ?d 1 127 0 680564733841876926926749214863536422908"
  have "uint ?q < 2 ^ 127" by (rule div_loop_small)
  moreover have "cm_mul_div (2 ^ 128 - 1) (2 ^ 128 - 1) (2 ^ 128 - 1) = Inr (uint ?q)"
    unfolding cm_mul_div_def m q by simp
  ultimately show ?thesis by blast
qed

lemma cm_mul_div_range: "cm_mul_div a b d = Inr q \<Longrightarrow> in_range U128 q"
proof -
  assume "cm_mul_div a b d = Inr q"
  then obtain v :: "128 word" where "q = uint v" by (auto simp: cm_mul_div_def split: if_splits prod.splits)
  with unsigned_less [of v, where 'a = int] unsigned_greater_eq [of v, where 'a = int] show ?thesis by (simp add: in_range_def)
qed

section \<open>The square root\<close>

lemma sqrt_digits_correct:
  "x = n + q * q * 4 ^ k \<Longrightarrow> x < (q + 1) * (q + 1) * 4 ^ k \<Longrightarrow> y = sqrt_digits n (q * 4 ^ k) (4 ^ k div 4)
    \<Longrightarrow> y * y \<le> x \<and> x < (y + 1) * (y + 1)"
proof (induction k arbitrary: n q)
  case 0
  then show ?case by (simp add: sqrt_digits.simps)
next
  case (Suc k)
  have h: "q * 4 ^ Suc k div 2 = 2 * q * 4 ^ k" "(4 :: nat) ^ Suc k div 4 = 4 ^ k" by simp_all
  show ?case
  proof (cases "q * 4 ^ Suc k + 4 ^ k \<le> n")
    case True
    have y: "y = sqrt_digits (n - (q * 4 ^ Suc k + 4 ^ k)) ((2 * q + 1) * 4 ^ k) (4 ^ k div 4)"
      using Suc.prems(3) True unfolding h by (subst (asm) sqrt_digits.simps) (simp add: algebra_simps)
    have "x = n - (q * 4 ^ Suc k + 4 ^ k) + (2 * q + 1) * (2 * q + 1) * 4 ^ k"
      using Suc.prems(1) True by (simp add: algebra_simps)
    moreover have "x < (2 * q + 1 + 1) * (2 * q + 1 + 1) * 4 ^ k" using Suc.prems(2) by (simp add: algebra_simps)
    ultimately show ?thesis using y by (rule Suc.IH)
  next
    case False
    have y: "y = sqrt_digits n (2 * q * 4 ^ k) (4 ^ k div 4)"
      using Suc.prems(3) False unfolding h by (subst (asm) sqrt_digits.simps) (simp add: mult.assoc)
    have "x = n + (2 * q) * (2 * q) * 4 ^ k" using Suc.prems(1) by (simp add: algebra_simps)
    moreover have "x < (2 * q + 1) * (2 * q + 1) * 4 ^ k" using Suc.prems(1) False by (simp add: algebra_simps)
    ultimately show ?thesis using y by (rule Suc.IH)
  qed
qed

lemma sqrt_first_bit_correct:
  "0 < x \<Longrightarrow> x < 4 ^ Suc k \<Longrightarrow> \<exists>j. sqrt_first_bit x (4 ^ k) = 4 ^ j \<and> x < 4 ^ Suc j"
proof (induction k)
  case 0
  then show ?case by (intro exI [of _ 0]) (simp add: sqrt_first_bit.simps)
next
  case (Suc k)
  show ?case
  proof (cases "4 ^ Suc k > x")
    case True
    have "sqrt_first_bit x (4 ^ Suc k) = sqrt_first_bit x (4 ^ k)" using True by (subst sqrt_first_bit.simps) simp
    with Suc.IH [OF Suc.prems(1) True] show ?thesis by simp
  next
    case False
    with Suc.prems(2) show ?thesis by (intro exI [of _ "Suc k"]) (simp add: sqrt_first_bit.simps)
  qed
qed

lemma sqrt_u128_correct:
  assumes "x < 2 ^ 128"
  shows "sqrt_u128 x * sqrt_u128 x \<le> x \<and> x < (sqrt_u128 x + 1) * (sqrt_u128 x + 1)"
proof (cases "x = 0")
  case False
  have "x < 4 ^ Suc 63" using assms by simp
  with sqrt_first_bit_correct [of x 63] False obtain j where j: "sqrt_first_bit x (4 ^ 63) = 4 ^ j" "x < 4 ^ Suc j" by auto
  have "sqrt_u128 x = sqrt_digits x (0 * 4 ^ Suc j) (4 ^ Suc j div 4)" using False j(1) by (simp add: sqrt_u128_def)
  from sqrt_digits_correct [of x x 0 "Suc j", OF _ _ this] j(2) show ?thesis by simp
qed (simp add: sqrt_u128_def)

end
