(* ===== verification/ConcentratedAmm.thy ===== *)
theory ConcentratedAmm
  imports ConcentratedMath TokenInterface "HOL-Library.While_Combinator"
begin

text \<open>
  The concentrated-liquidity pool \<open>contracts/concentrated_amm/src/lib.rs\<close>: liquidity is provided between two ticks, a
  bitmap finds the ticks at which the active liquidity changes, and a swap walks from tick to tick. The two token
  contracts are the parameter \<open>xfer\<close> with its world. The nine instance entries are written together by
  \<open>initialize\<close> and none is ever removed, so they are one optional record; ticks, bitmap words and positions are
  persistent entries. The bitmap words are 64-bit words, all other integers are kept in their type by explicit operations.
\<close>

section \<open>Data\<close>

datatype camm_error =
    AlreadyInitialized | NotInitialized | InvalidTickRange | InsufficientAmount | SlippageExceeded | InvalidFee | MathError

record tick_info =
  ti_liquidity_gross :: int
  ti_liquidity_net :: int
  ti_fee_growth_outside_0 :: int
  ti_fee_growth_outside_1 :: int

record position_info =
  po_liquidity :: int
  po_fee_growth_inside_0_last :: int
  po_fee_growth_inside_1_last :: int
  po_tokens_owed_0 :: int
  po_tokens_owed_1 :: int

record camm_instance =
  ci_token_a :: address
  ci_token_b :: address
  ci_fee_bps :: int
  ci_tick_spacing :: int
  ci_current_tick :: int
  ci_current_sqrt_price :: int
  ci_liquidity :: int
  ci_fee_growth_global_0 :: int
  ci_fee_growth_global_1 :: int

record camm =
  ca_inst :: "camm_instance option"
  ca_ticks :: "int \<rightharpoonup> tick_info"
  ca_bitmap :: "int \<rightharpoonup> 64 word"
  ca_positions :: "address \<times> int \<times> int \<rightharpoonup> position_info"

definition empty_camm :: camm where
  "empty_camm = \<lparr>ca_inst = None, ca_ticks = Map.empty, ca_bitmap = Map.empty, ca_positions = Map.empty\<rparr>"

type_synonym 'a camm_res = "(camm_error, 'a) res"

text \<open>\<open>?\<close> and \<open>unwrap_or\<close> on a result of the arithmetic module.\<close>

definition lift_math :: "'a cm_res \<Rightarrow> 'a camm_res" where
  "lift_math r = (case r of Inl (Err e) \<Rightarrow> Inl (Err MathError) | Inl (Panic p) \<Rightarrow> Inl (Panic p) | Inr x \<Rightarrow> Inr x)"

definition math_or :: "int \<Rightarrow> int cm_res \<Rightarrow> int camm_res" where
  "math_or d r = (case r of Inl (Err e) \<Rightarrow> Inr d | Inl (Panic p) \<Rightarrow> Inl (Panic p) | Inr x \<Rightarrow> Inr x)"

text \<open>\<open>%\<close> of two \<open>i32\<close>.\<close>

definition rem_i32 :: "int \<Rightarrow> int \<Rightarrow> int camm_res" where
  "rem_i32 a b = rbind (quot I32 a b) (\<lambda>_. Inr (tmod a b))"

section \<open>Ticks\<close>

definition new_tick :: tick_info where
  "new_tick = \<lparr>ti_liquidity_gross = 0, ti_liquidity_net = 0, ti_fee_growth_outside_0 = 0, ti_fee_growth_outside_1 = 0\<rparr>"

definition camm_update_tick :: "env \<Rightarrow> camm \<Rightarrow> int \<Rightarrow> int \<Rightarrow> int \<Rightarrow> int \<Rightarrow> int \<Rightarrow> bool \<Rightarrow> (camm \<times> bool) camm_res" where
  "camm_update_tick E s tick current_tick liquidity_delta fg0 fg1 is_upper =
     (let info = get_or (ca_ticks s) tick new_tick;
          gross_before = ti_liquidity_gross info;
          info1 = (if gross_before = 0 \<and> tick \<le> current_tick
                   then info\<lparr>ti_fee_growth_outside_0 := fg0, ti_fee_growth_outside_1 := fg1\<rparr> else info) in
      rbind (if is_upper then fit E I128 (- liquidity_delta) else Inr liquidity_delta) (\<lambda>delta.
      rbind (fit E I128 (ti_liquidity_net info1 + delta)) (\<lambda>net.
      rbind (if liquidity_delta < 0
             then rbind (fit E I128 (- liquidity_delta)) (\<lambda>n. Inr (saturate U128 (gross_before - wrap U128 n)))
             else Inr (saturate U128 (gross_before + wrap U128 liquidity_delta))) (\<lambda>gross.
      let flipped = (gross_before = 0 \<and> gross > 0 \<or> gross_before > 0 \<and> gross = 0) in
      Inr (s\<lparr>ca_ticks := (ca_ticks s)(tick :=
                if gross = 0 then None else Some (info1\<lparr>ti_liquidity_gross := gross, ti_liquidity_net := net\<rparr>))\<rparr>, flipped)))))"

definition camm_flip_tick_bitmap :: "camm \<Rightarrow> int \<Rightarrow> int \<Rightarrow> camm camm_res" where
  "camm_flip_tick_bitmap s tick tick_spacing =
     rbind (quot I32 tick tick_spacing) (\<lambda>compressed.
     let word_pos = compressed div 64;
         word = get_or (ca_bitmap s) word_pos 0 XOR push_bit (nat (compressed mod 64)) 1 in
     Inr (s\<lparr>ca_bitmap := (ca_bitmap s)(word_pos := if word = 0 then None else Some word)\<rparr>))"

text \<open>\<open>63 - leading_zeros\<close> and \<open>trailing_zeros\<close> of a word that is not zero.\<close>

fun top_bit :: "64 word \<Rightarrow> nat \<Rightarrow> nat" where
  "top_bit w 0 = 0"
| "top_bit w (Suc n) = (if bit w (Suc n) then Suc n else top_bit w n)"

fun low_bit :: "64 word \<Rightarrow> nat \<Rightarrow> nat" where
  "low_bit w 0 = 63"
| "low_bit w (Suc n) = (if bit w (62 - n) then 62 - n else low_bit w n)"

definition camm_next_initialized_tick :: "env \<Rightarrow> (int \<rightharpoonup> 64 word) \<Rightarrow> int \<Rightarrow> int \<Rightarrow> bool \<Rightarrow> (int \<times> bool) camm_res" where
  "camm_next_initialized_tick E bitmap tick tick_spacing lte =
     rbind (if tick < 0 then rbind (rem_i32 tick tick_spacing) (\<lambda>r. Inr (r \<noteq> 0)) else Inr False) (\<lambda>round_down.
     rbind (quot I32 tick tick_spacing) (\<lambda>q.
     rbind (if round_down then fit E I32 (q - 1) else Inr q) (\<lambda>compressed.
     if lte then
       let word_pos = compressed div 64;
           bit_pos = nat (compressed mod 64);
           mask = push_bit bit_pos 1 - 1 + push_bit bit_pos 1;
           masked = get_or bitmap word_pos 0 AND mask in
       if masked \<noteq> 0
       then rbind (fit E I32 ((word_pos * 64 + int (top_bit masked 63)) * tick_spacing)) (\<lambda>t. Inr (t, True))
       else rbind (fit E I32 ((word_pos * 64) * tick_spacing)) (\<lambda>t. Inr (t, False))
     else
       rbind (fit E I32 (compressed + 1)) (\<lambda>compressed_next.
       let word_pos = compressed_next div 64;
           bit_pos = nat (compressed_next mod 64);
           mask = NOT (push_bit bit_pos 1 - 1);
           masked = get_or bitmap word_pos 0 AND mask in
       if masked \<noteq> 0
       then rbind (fit E I32 ((word_pos * 64 + int (low_bit masked 63)) * tick_spacing)) (\<lambda>t. Inr (t, True))
       else
         rbind (fit E I32 ((word_pos + 1) * 64)) (\<lambda>end_of_word.
         rbind (fit E I32 ((end_of_word - 1) * tick_spacing)) (\<lambda>t. Inr (t, False)))))))"

definition camm_fee_growth_inside :: "camm \<Rightarrow> int \<Rightarrow> int \<Rightarrow> int \<Rightarrow> int \<Rightarrow> int \<Rightarrow> int \<times> int" where
  "camm_fee_growth_inside s tick_lower tick_upper tick_current fg0 fg1 =
     (let lower_info = get_or (ca_ticks s) tick_lower new_tick;
          upper_info = get_or (ca_ticks s) tick_upper new_tick;
          fee_below = (if tick_current \<ge> tick_lower
                       then (ti_fee_growth_outside_0 lower_info, ti_fee_growth_outside_1 lower_info)
                       else (wrap U128 (fg0 - ti_fee_growth_outside_0 lower_info), wrap U128 (fg1 - ti_fee_growth_outside_1 lower_info)));
          fee_above = (if tick_current < tick_upper
                       then (ti_fee_growth_outside_0 upper_info, ti_fee_growth_outside_1 upper_info)
                       else (wrap U128 (fg0 - ti_fee_growth_outside_0 upper_info), wrap U128 (fg1 - ti_fee_growth_outside_1 upper_info))) in
      (wrap U128 (wrap U128 (fg0 - fst fee_below) - fst fee_above), wrap U128 (wrap U128 (fg1 - snd fee_below) - snd fee_above)))"

text \<open>The fees a position has earned since its last update are added to what it is owed; the growth is recorded.\<close>

definition accrue_fees :: "env \<Rightarrow> position_info \<Rightarrow> int \<times> int \<Rightarrow> position_info camm_res" where
  "accrue_fees E pos inside =
     rbind (math_or 0 (cm_mul_div (po_liquidity pos) (wrap U128 (fst inside - po_fee_growth_inside_0_last pos)) Q64)) (\<lambda>f0.
     rbind (fit E U128 (po_tokens_owed_0 pos + f0)) (\<lambda>owed0.
     rbind (math_or 0 (cm_mul_div (po_liquidity pos) (wrap U128 (snd inside - po_fee_growth_inside_1_last pos)) Q64)) (\<lambda>f1.
     rbind (fit E U128 (po_tokens_owed_1 pos + f1)) (\<lambda>owed1.
     Inr (pos\<lparr>po_tokens_owed_0 := owed0, po_tokens_owed_1 := owed1,
              po_fee_growth_inside_0_last := fst inside, po_fee_growth_inside_1_last := snd inside\<rparr>)))))"

section \<open>Entry points\<close>

definition camm_initialize :: "camm \<Rightarrow> address \<Rightarrow> address \<Rightarrow> int \<Rightarrow> int \<Rightarrow> int \<Rightarrow> int \<Rightarrow> camm camm_res" where
  "camm_initialize s token_a token_b fee_bps tick_spacing initial_sqrt_price initial_tick =
     (if ca_inst s \<noteq> None then Inl (Err AlreadyInitialized)
      else if initial_tick < MIN_TICK \<or> initial_tick > MAX_TICK then Inl (Err InvalidTickRange)
      else Inr (s\<lparr>ca_inst := Some \<lparr>ci_token_a = token_a, ci_token_b = token_b, ci_fee_bps = fee_bps,
               ci_tick_spacing = tick_spacing, ci_current_tick = initial_tick, ci_current_sqrt_price = initial_sqrt_price,
               ci_liquidity = 0, ci_fee_growth_global_0 = 0, ci_fee_growth_global_1 = 0\<rparr>\<rparr>))"

text \<open>The checks of the range; \<open>||\<close> stops at the first test that holds.\<close>

definition check_range :: "int \<Rightarrow> int \<Rightarrow> int \<Rightarrow> unit camm_res" where
  "check_range tick_spacing tick_lower tick_upper =
     (if tick_lower \<ge> tick_upper then Inl (Err InvalidTickRange)
      else
        rbind (rem_i32 tick_lower tick_spacing) (\<lambda>r1.
        if r1 \<noteq> 0 then Inl (Err InvalidTickRange)
        else
          rbind (rem_i32 tick_upper tick_spacing) (\<lambda>r2.
          if r2 \<noteq> 0 then Inl (Err InvalidTickRange)
          else if tick_lower < MIN_TICK \<or> tick_upper > MAX_TICK then Inl (Err InvalidTickRange)
          else Inr ())))"

text \<open>The liquidity that the desired amounts buy, and the amounts that are taken for it: below, above and inside the range.\<close>

definition liquidity_for_0 :: "int \<Rightarrow> int \<Rightarrow> int \<Rightarrow> int camm_res" where
  "liquidity_for_0 lower upper amount =
     rbind (lift_math (cm_mul_div amount upper Q64)) (\<lambda>num1.
     rbind (lift_math (cm_mul_div num1 lower Q64)) (\<lambda>num2.
     rbind (ok_or MathError (checked U128 (upper - lower))) (\<lambda>den.
     lift_math (cm_mul_div num2 Q64 den))))"

definition liquidity_for_1 :: "int \<Rightarrow> int \<Rightarrow> int \<Rightarrow> int camm_res" where
  "liquidity_for_1 lower upper amount =
     rbind (ok_or MathError (checked U128 (upper - lower))) (\<lambda>diff.
     lift_math (cm_mul_div amount Q64 diff))"

definition mint_amounts :: "int \<Rightarrow> int \<Rightarrow> int \<Rightarrow> int \<Rightarrow> int \<Rightarrow> (int \<times> int \<times> int) camm_res" where
  "mint_amounts price ratio_a ratio_b a_desired b_desired =
     (if price \<le> ratio_a then
        rbind (liquidity_for_0 ratio_a ratio_b a_desired) (\<lambda>liquidity. Inr (liquidity, a_desired, 0))
      else if price \<ge> ratio_b then
        rbind (liquidity_for_1 ratio_a ratio_b b_desired) (\<lambda>liquidity. Inr (liquidity, 0, b_desired))
      else
        rbind (liquidity_for_0 price ratio_b a_desired) (\<lambda>liq_a.
        rbind (liquidity_for_1 ratio_a price b_desired) (\<lambda>liq_b.
        let liquidity = (if liq_a < liq_b then liq_a else liq_b) in
        rbind (lift_math (get_amount_0_delta price ratio_b liquidity)) (\<lambda>amount_a.
        rbind (lift_math (get_amount_1_delta ratio_a price liquidity)) (\<lambda>amount_b.
        Inr (liquidity, amount_a, amount_b))))))"

text \<open>A transfer made only for an amount above zero; \<open>as i128\<close> wraps.\<close>

definition send_positive :: "'w token_xfer \<Rightarrow> env \<Rightarrow> address \<Rightarrow> address \<Rightarrow> address \<Rightarrow> int \<Rightarrow> 'w \<Rightarrow> 'w camm_res" where
  "send_positive xfer E t from to n w = (if n > 0 then call (xfer E t from to (wrap I128 n) w) else Inr w)"

text \<open>Both ticks of a range are updated, and the bitmap is flipped where a tick appeared or vanished.\<close>

definition update_range :: "env \<Rightarrow> camm \<Rightarrow> camm_instance \<Rightarrow> int \<Rightarrow> int \<Rightarrow> int \<Rightarrow> camm camm_res" where
  "update_range E s i tick_lower tick_upper change =
     rbind (camm_update_tick E s tick_lower (ci_current_tick i) change (ci_fee_growth_global_0 i) (ci_fee_growth_global_1 i) False)
       (\<lambda>(s1, flipped_lower).
     rbind (camm_update_tick E s1 tick_upper (ci_current_tick i) change (ci_fee_growth_global_0 i) (ci_fee_growth_global_1 i) True)
       (\<lambda>(s2, flipped_upper).
     rbind (if flipped_lower then camm_flip_tick_bitmap s2 tick_lower (ci_tick_spacing i) else Inr s2) (\<lambda>s3.
     if flipped_upper then camm_flip_tick_bitmap s3 tick_upper (ci_tick_spacing i) else Inr s3)))"

text \<open>Both amounts are sent, token \<open>a\<close> first.\<close>

definition send_both :: "'w token_xfer \<Rightarrow> env \<Rightarrow> camm_instance \<Rightarrow> address \<Rightarrow> address \<Rightarrow> int \<Rightarrow> int \<Rightarrow> 'w \<Rightarrow> 'w camm_res" where
  "send_both xfer E i from to a b w =
     rbind (send_positive xfer E (ci_token_a i) from to a w) (send_positive xfer E (ci_token_b i) from to b)"

definition inside_growth :: "camm \<Rightarrow> camm_instance \<Rightarrow> int \<Rightarrow> int \<Rightarrow> int \<times> int" where
  "inside_growth s i tick_lower tick_upper =
     camm_fee_growth_inside s tick_lower tick_upper (ci_current_tick i) (ci_fee_growth_global_0 i) (ci_fee_growth_global_1 i)"

definition active_after :: "env \<Rightarrow> camm_instance \<Rightarrow> int \<Rightarrow> int \<Rightarrow> int \<Rightarrow> int camm_res" where
  "active_after E i tick_lower tick_upper change =
     (if tick_lower \<le> ci_current_tick i \<and> ci_current_tick i < tick_upper then fit E U128 (ci_liquidity i + change)
      else Inr (ci_liquidity i))"

text \<open>The position of the minter grows, and the active liquidity if the range holds the current tick.\<close>

definition store_minted :: "env \<Rightarrow> camm \<Rightarrow> camm_instance \<Rightarrow> address \<Rightarrow> int \<Rightarrow> int \<Rightarrow> int \<Rightarrow> camm camm_res" where
  "store_minted E s i to tick_lower tick_upper liquidity =
     (let inside = inside_growth s i tick_lower tick_upper;
          key = (to, tick_lower, tick_upper);
          pos = get_or (ca_positions s) key \<lparr>po_liquidity = 0, po_fee_growth_inside_0_last = fst inside,
                  po_fee_growth_inside_1_last = snd inside, po_tokens_owed_0 = 0, po_tokens_owed_1 = 0\<rparr> in
      rbind (accrue_fees E pos inside) (\<lambda>pos1.
      rbind (fit E U128 (po_liquidity pos1 + liquidity)) (\<lambda>liq.
      rbind (active_after E i tick_lower tick_upper liquidity) (\<lambda>active.
      Inr (s\<lparr>ca_positions := (ca_positions s)(key \<mapsto> pos1\<lparr>po_liquidity := liq\<rparr>), ca_inst := Some (i\<lparr>ci_liquidity := active\<rparr>)\<rparr>)))))"

definition camm_mint ::
    "'w token_xfer \<Rightarrow> env \<Rightarrow> camm \<times> 'w \<Rightarrow> address \<Rightarrow> int \<Rightarrow> int \<Rightarrow> int \<Rightarrow> int \<Rightarrow> ((camm \<times> 'w) \<times> int \<times> int \<times> int) camm_res" where
  "camm_mint xfer E sw to tick_lower tick_upper a_desired b_desired =
     (let s = fst sw; w = snd sw in
      rbind (require_auth E to) (\<lambda>_.
      rbind (ok_or NotInitialized (ca_inst s)) (\<lambda>i.
      rbind (check_range (ci_tick_spacing i) tick_lower tick_upper) (\<lambda>_.
      rbind (lift_math (get_sqrt_ratio_at_tick E tick_lower)) (\<lambda>ratio_a.
      rbind (lift_math (get_sqrt_ratio_at_tick E tick_upper)) (\<lambda>ratio_b.
      rbind (mint_amounts (ci_current_sqrt_price i) ratio_a ratio_b a_desired b_desired) (\<lambda>(liquidity, amount_a, amount_b).
      if liquidity = 0 then Inl (Err InsufficientAmount)
      else
        rbind (send_both xfer E i to (this_contract E) amount_a amount_b w) (\<lambda>w'.
        rbind (update_range E s i tick_lower tick_upper (wrap I128 liquidity)) (\<lambda>s1.
        rbind (store_minted E s1 i to tick_lower tick_upper liquidity) (\<lambda>s'.
        Inr ((s', w'), (liquidity, amount_a, amount_b))))))))))))"

definition check_stored_range :: "int \<Rightarrow> int \<Rightarrow> unit camm_res" where
  "check_stored_range tick_lower tick_upper =
     (if tick_lower < MIN_TICK \<or> tick_upper > MAX_TICK \<or> tick_lower \<ge> tick_upper then Inl (Err InvalidTickRange) else Inr ())"

text \<open>The amounts a range returns: which formula applies is decided by the tick, the formulas use the price.\<close>

definition burn_amounts :: "camm_instance \<Rightarrow> int \<Rightarrow> int \<Rightarrow> int \<Rightarrow> int \<Rightarrow> int \<Rightarrow> (int \<times> int) camm_res" where
  "burn_amounts i tick_lower tick_upper ratio_a ratio_b liquidity =
     (if ci_current_tick i < tick_lower then
        rbind (lift_math (get_amount_0_delta ratio_a ratio_b liquidity)) (\<lambda>a. Inr (a, 0))
      else if ci_current_tick i \<ge> tick_upper then
        rbind (lift_math (get_amount_1_delta ratio_a ratio_b liquidity)) (\<lambda>b. Inr (0, b))
      else
        rbind (lift_math (get_amount_0_delta (ci_current_sqrt_price i) ratio_b liquidity)) (\<lambda>a.
        rbind (lift_math (get_amount_1_delta ratio_a (ci_current_sqrt_price i) liquidity)) (\<lambda>b. Inr (a, b))))"

text \<open>The position shrinks; it is removed when it has neither liquidity nor fees left.\<close>

definition store_burned :: "env \<Rightarrow> camm \<Rightarrow> camm_instance \<Rightarrow> address \<Rightarrow> int \<Rightarrow> int \<Rightarrow> position_info \<Rightarrow> int \<Rightarrow> camm camm_res" where
  "store_burned E s i from tick_lower tick_upper pos liquidity =
     rbind (accrue_fees E pos (inside_growth s i tick_lower tick_upper)) (\<lambda>pos1.
     rbind (fit E U128 (po_liquidity pos1 - liquidity)) (\<lambda>liq.
     let pos2 = pos1\<lparr>po_liquidity := liq\<rparr> in
     Inr (s\<lparr>ca_positions := (ca_positions s)((from, tick_lower, tick_upper) :=
            if liq = 0 \<and> po_tokens_owed_0 pos2 = 0 \<and> po_tokens_owed_1 pos2 = 0 then None else Some pos2)\<rparr>)))"

definition camm_burn ::
    "'w token_xfer \<Rightarrow> env \<Rightarrow> camm \<times> 'w \<Rightarrow> address \<Rightarrow> int \<Rightarrow> int \<Rightarrow> int \<Rightarrow> ((camm \<times> 'w) \<times> int \<times> int) camm_res" where
  "camm_burn xfer E sw from tick_lower tick_upper liquidity =
     (let s = fst sw; w = snd sw in
      rbind (require_auth E from) (\<lambda>_.
      rbind (check_stored_range tick_lower tick_upper) (\<lambda>_.
      rbind (ok_or InsufficientAmount (ca_positions s (from, tick_lower, tick_upper))) (\<lambda>pos.
      if po_liquidity pos < liquidity then Inl (Err InsufficientAmount)
      else
        rbind (unwrap (ca_inst s)) (\<lambda>i.
        rbind (lift_math (get_sqrt_ratio_at_tick E tick_lower)) (\<lambda>ratio_a.
        rbind (lift_math (get_sqrt_ratio_at_tick E tick_upper)) (\<lambda>ratio_b.
        rbind (burn_amounts i tick_lower tick_upper ratio_a ratio_b liquidity) (\<lambda>(amount_a, amount_b).
        rbind (store_burned E s i from tick_lower tick_upper pos liquidity) (\<lambda>s1.
        rbind (fit E I128 (- wrap I128 liquidity)) (\<lambda>change.
        rbind (update_range E s1 i tick_lower tick_upper change) (\<lambda>s2.
        rbind (active_after E i tick_lower tick_upper (- liquidity)) (\<lambda>active.
        rbind (send_both xfer E i (this_contract E) from amount_a amount_b w) (\<lambda>w'.
        Inr ((s2\<lparr>ca_inst := Some (i\<lparr>ci_liquidity := active\<rparr>)\<rparr>, w'), (amount_a, amount_b)))))))))))))))"

definition camm_collect_fees ::
    "'w token_xfer \<Rightarrow> env \<Rightarrow> camm \<times> 'w \<Rightarrow> address \<Rightarrow> int \<Rightarrow> int \<Rightarrow> ((camm \<times> 'w) \<times> int \<times> int) camm_res" where
  "camm_collect_fees xfer E sw from tick_lower tick_upper =
     (let s = fst sw; w = snd sw; key = (from, tick_lower, tick_upper) in
      rbind (require_auth E from) (\<lambda>_.
      rbind (check_stored_range tick_lower tick_upper) (\<lambda>_.
      rbind (ok_or InsufficientAmount (ca_positions s key)) (\<lambda>pos.
      rbind (unwrap (ca_inst s)) (\<lambda>i.
      rbind (accrue_fees E pos (inside_growth s i tick_lower tick_upper)) (\<lambda>pos1.
      let pos2 = pos1\<lparr>po_tokens_owed_0 := 0, po_tokens_owed_1 := 0\<rparr>;
          s1 = s\<lparr>ca_positions := (ca_positions s)(key := if po_liquidity pos2 = 0 then None else Some pos2)\<rparr> in
      rbind (send_both xfer E i (this_contract E) from (po_tokens_owed_0 pos1) (po_tokens_owed_1 pos1) w) (\<lambda>w'.
      Inr ((s1, w'), (po_tokens_owed_0 pos1, po_tokens_owed_1 pos1)))))))))"

section \<open>Swap\<close>

record swap_state =
  ss_sqrt_price :: int
  ss_tick :: int
  ss_liquidity :: int
  ss_fg0 :: int
  ss_fg1 :: int
  ss_remaining :: int
  ss_in :: int
  ss_out :: int
  ss_ticks :: "int \<rightharpoonup> tick_info"

text \<open>Crossing a tick: the fee growth outside is mirrored and the net liquidity enters or leaves.\<close>

definition mirror_outside :: "int \<Rightarrow> int \<Rightarrow> tick_info \<Rightarrow> tick_info" where
  "mirror_outside fg0 fg1 info = info\<lparr>ti_fee_growth_outside_0 := wrap U128 (fg0 - ti_fee_growth_outside_0 info),
     ti_fee_growth_outside_1 := wrap U128 (fg1 - ti_fee_growth_outside_1 info)\<rparr>"

definition apply_net :: "env \<Rightarrow> bool \<Rightarrow> tick_info \<Rightarrow> int \<Rightarrow> int camm_res" where
  "apply_net E zero_for_one info liquidity =
     rbind (if zero_for_one then fit E I128 (- ti_liquidity_net info) else Inr (ti_liquidity_net info)) (\<lambda>net.
     if net < 0 then rbind (fit E I128 (- net)) (\<lambda>n. Inr (saturate U128 (liquidity - wrap U128 n)))
     else Inr (saturate U128 (liquidity + wrap U128 net)))"

definition tick_after :: "env \<Rightarrow> bool \<Rightarrow> int \<Rightarrow> int camm_res" where
  "tick_after E zero_for_one next = (if zero_for_one then fit E I32 (next - 1) else Inr next)"

text \<open>A round without active liquidity: the next initialised tick is crossed; the flag says whether the loop goes on.\<close>

definition idle_step :: "env \<Rightarrow> (int \<rightharpoonup> 64 word) \<Rightarrow> int \<Rightarrow> bool \<Rightarrow> swap_state \<Rightarrow> (swap_state \<times> bool) camm_res" where
  "idle_step E bitmap tick_spacing zero_for_one st =
     rbind (camm_next_initialized_tick E bitmap (ss_tick st) tick_spacing zero_for_one) (\<lambda>(next, initialized).
     if \<not> initialized then Inr (st, False)
     else
       rbind (case ss_ticks st next of
                None \<Rightarrow> Inr st
              | Some info \<Rightarrow>
                  let info' = mirror_outside (ss_fg0 st) (ss_fg1 st) info in
                  rbind (apply_net E zero_for_one info' (ss_liquidity st)) (\<lambda>l.
                  Inr (st\<lparr>ss_liquidity := l, ss_ticks := (ss_ticks st)(next \<mapsto> info')\<rparr>))) (\<lambda>st1.
       rbind (tick_after E zero_for_one next) (\<lambda>tick.
       rbind (lift_math (get_sqrt_ratio_at_tick E tick)) (\<lambda>price.
       Inr (st1\<lparr>ss_tick := tick, ss_sqrt_price := price\<rparr>, True)))))"

definition amount_in_between :: "bool \<Rightarrow> int \<Rightarrow> int \<Rightarrow> int \<Rightarrow> int cm_res" where
  "amount_in_between zero_for_one p q liquidity =
     (if zero_for_one then get_amount_0_delta p q liquidity else get_amount_1_delta p q liquidity)"

definition amount_out_between :: "bool \<Rightarrow> int \<Rightarrow> int \<Rightarrow> int \<Rightarrow> int cm_res" where
  "amount_out_between zero_for_one p q liquidity =
     (if zero_for_one then get_amount_1_delta p q liquidity else get_amount_0_delta p q liquidity)"

text \<open>
  The figures of a round with active liquidity: the next tick, whether it is reached, the input without the fee, the
  price afterwards, the output and the fee. The round goes up to the next tick of the bitmap word, or takes all of
  the remaining input.
\<close>

record trade =
  tr_next :: int
  tr_crossed :: bool
  tr_in :: int
  tr_price :: int
  tr_out :: int
  tr_fee :: int

definition trade_quote :: "env \<Rightarrow> (int \<rightharpoonup> 64 word) \<Rightarrow> int \<Rightarrow> int \<Rightarrow> bool \<Rightarrow> swap_state \<Rightarrow> trade camm_res" where
  "trade_quote E bitmap fee_bps tick_spacing zero_for_one st =
     rbind (camm_next_initialized_tick E bitmap (ss_tick st) tick_spacing zero_for_one) (\<lambda>(next, initialized).
     rbind (lift_math (get_sqrt_ratio_at_tick E next)) (\<lambda>price_next.
     rbind (fit E U128 (10000 - fee_bps)) (\<lambda>fee_scale.
     rbind (lift_math (cm_mul_div (ss_remaining st) fee_scale 10000)) (\<lambda>less_fee.
     rbind (math_or (ity_max U128) (amount_in_between zero_for_one (ss_sqrt_price st) price_next (ss_liquidity st))) (\<lambda>max_in.
     if less_fee \<ge> max_in \<and> initialized then
       rbind (lift_math (amount_out_between zero_for_one (ss_sqrt_price st) price_next (ss_liquidity st))) (\<lambda>out_step.
       rbind (lift_math (cm_mul_div max_in fee_bps fee_scale)) (\<lambda>fee.
       Inr \<lparr>tr_next = next, tr_crossed = True, tr_in = max_in, tr_price = price_next, tr_out = out_step, tr_fee = fee\<rparr>))
     else
       rbind (lift_math (get_next_sqrt_price_from_input (ss_sqrt_price st) (ss_liquidity st) less_fee zero_for_one)) (\<lambda>price.
       rbind (lift_math (amount_out_between zero_for_one (ss_sqrt_price st) price (ss_liquidity st))) (\<lambda>out_step.
       rbind (fit E U128 (ss_remaining st - less_fee)) (\<lambda>fee.
       Inr \<lparr>tr_next = next, tr_crossed = False, tr_in = less_fee, tr_price = price, tr_out = out_step, tr_fee = fee\<rparr>))))))))"

text \<open>The fee is spread over the active liquidity and the totals grow; then a tick that was reached is crossed.\<close>

definition trade_totals :: "env \<Rightarrow> bool \<Rightarrow> trade \<Rightarrow> swap_state \<Rightarrow> swap_state camm_res" where
  "trade_totals E zero_for_one tr st =
     rbind (if ss_liquidity st > 0 then lift_math (cm_mul_div (tr_fee tr) Q64 (ss_liquidity st)) else Inr 0) (\<lambda>growth.
     rbind (fit E U128 (tr_in tr + tr_fee tr)) (\<lambda>paid.
     rbind (fit E U128 (ss_in st + paid)) (\<lambda>total_in.
     rbind (fit E U128 (ss_out st + tr_out tr)) (\<lambda>total_out.
     Inr (st\<lparr>ss_sqrt_price := tr_price tr,
            ss_fg0 := if ss_liquidity st > 0 \<and> zero_for_one then wrap U128 (ss_fg0 st + growth) else ss_fg0 st,
            ss_fg1 := if ss_liquidity st > 0 \<and> \<not> zero_for_one then wrap U128 (ss_fg1 st + growth) else ss_fg1 st,
            ss_in := total_in, ss_out := total_out,
            ss_remaining := saturate U128 (ss_remaining st - paid)\<rparr>)))))"

definition trade_cross :: "env \<Rightarrow> bool \<Rightarrow> trade \<Rightarrow> swap_state \<Rightarrow> swap_state camm_res" where
  "trade_cross E zero_for_one tr st =
     (if tr_crossed tr then
        rbind (tick_after E zero_for_one (tr_next tr)) (\<lambda>tick.
        rbind (unwrap (ss_ticks st (tr_next tr))) (\<lambda>info.
        rbind (apply_net E zero_for_one (mirror_outside (ss_fg0 st) (ss_fg1 st) info) (ss_liquidity st)) (\<lambda>l.
        Inr (st\<lparr>ss_tick := tick, ss_liquidity := l,
               ss_ticks := (ss_ticks st)(tr_next tr \<mapsto> mirror_outside (ss_fg0 st) (ss_fg1 st) info)\<rparr>))))
      else Inr st)"

definition trade_step :: "env \<Rightarrow> (int \<rightharpoonup> 64 word) \<Rightarrow> int \<Rightarrow> int \<Rightarrow> bool \<Rightarrow> swap_state \<Rightarrow> swap_state camm_res" where
  "trade_step E bitmap fee_bps tick_spacing zero_for_one st =
     rbind (trade_quote E bitmap fee_bps tick_spacing zero_for_one st) (\<lambda>tr.
     rbind (trade_totals E zero_for_one tr st) (trade_cross E zero_for_one tr))"

definition swap_step :: "env \<Rightarrow> (int \<rightharpoonup> 64 word) \<Rightarrow> int \<Rightarrow> int \<Rightarrow> bool \<Rightarrow> swap_state \<Rightarrow> (swap_state \<times> bool) camm_res" where
  "swap_step E bitmap fee_bps tick_spacing zero_for_one st =
     (if ss_liquidity st = 0 then idle_step E bitmap tick_spacing zero_for_one st
      else rbind (trade_step E bitmap fee_bps tick_spacing zero_for_one st) (\<lambda>st'. Inr (st', True)))"

definition loop_continues :: "(swap_state \<times> bool) camm_res \<Rightarrow> bool" where
  "loop_continues r = (case r of Inl e \<Rightarrow> False | Inr (st, go) \<Rightarrow> go \<and> ss_remaining st > 0)"

definition swap_loop :: "env \<Rightarrow> (int \<rightharpoonup> 64 word) \<Rightarrow> int \<Rightarrow> int \<Rightarrow> bool \<Rightarrow> swap_state \<Rightarrow> (swap_state \<times> bool) camm_res option" where
  "swap_loop E bitmap fee_bps tick_spacing zero_for_one st =
     while_option loop_continues (\<lambda>r. rbind r (\<lambda>(st, go). swap_step E bitmap fee_bps tick_spacing zero_for_one st)) (Inr (st, True))"

text \<open>A loop that does not end exhausts the budget of the host, which rolls the call back.\<close>

definition camm_swap ::
    "'w token_xfer \<Rightarrow> env \<Rightarrow> camm \<times> 'w \<Rightarrow> address \<Rightarrow> bool \<Rightarrow> int \<Rightarrow> ((camm \<times> 'w) \<times> int \<times> int) camm_res" where
  "camm_swap xfer E sw to zero_for_one amount_specified =
     (let s = fst sw; w = snd sw in
      rbind (require_auth E to) (\<lambda>_.
      rbind (ok_or NotInitialized (ca_inst s)) (\<lambda>i.
      let st0 = \<lparr>ss_sqrt_price = ci_current_sqrt_price i, ss_tick = ci_current_tick i, ss_liquidity = ci_liquidity i,
                 ss_fg0 = ci_fee_growth_global_0 i, ss_fg1 = ci_fee_growth_global_1 i, ss_remaining = amount_specified,
                 ss_in = 0, ss_out = 0, ss_ticks = ca_ticks s\<rparr>;
          token_in = (if zero_for_one then ci_token_a i else ci_token_b i);
          token_out = (if zero_for_one then ci_token_b i else ci_token_a i) in
      case swap_loop E (ca_bitmap s) (ci_fee_bps i) (ci_tick_spacing i) zero_for_one st0 of
        None \<Rightarrow> Inl (Panic (Message ''budget exceeded''))
      | Some r \<Rightarrow>
          rbind r (\<lambda>(st, go).
          rbind (call (xfer E token_in to (this_contract E) (wrap I128 (ss_in st)) w)) (\<lambda>w1.
          rbind (call (xfer E token_out (this_contract E) to (wrap I128 (ss_out st)) w1)) (\<lambda>w2.
          Inr ((s\<lparr>ca_ticks := ss_ticks st,
                  ca_inst := Some (i\<lparr>ci_current_sqrt_price := ss_sqrt_price st, ci_current_tick := ss_tick st,
                    ci_liquidity := ss_liquidity st, ci_fee_growth_global_0 := ss_fg0 st, ci_fee_growth_global_1 := ss_fg1 st\<rparr>)\<rparr>, w2),
               (ss_in st, ss_out st))))))))"

end
