(* ===== verification/ConcentratedSwap.thy ===== *)
theory ConcentratedSwap
  imports ConcentratedProperties
begin

text \<open>
  What one round of a swap of the concentrated pool does, and that the rounds come to an end.
\<close>

lemma lift_math_Inr [simp]: "lift_math r = Inr x \<longleftrightarrow> r = Inr x"
  by (auto simp: lift_math_def split: sum.splits fault.splits)

lemma tick_after_Inr: "overflow_checks E \<Longrightarrow> tick_after E z next = Inr t \<Longrightarrow> in_range I32 next
    \<Longrightarrow> t = (if z then next - 1 else next) \<and> in_range I32 t"
  by (auto simp: tick_after_def split: if_splits)

lemma idle_step_Inr:
  assumes "idle_step E bitmap d z st = Inr (st', go)"
  obtains nx where "camm_next_initialized_tick E bitmap (ss_tick st) d z = Inr (nx, False)" "st' = st" "\<not> go"
  | nx tick price where "camm_next_initialized_tick E bitmap (ss_tick st) d z = Inr (nx, True)" "go" "tick_after E z nx = Inr tick"
      "get_sqrt_ratio_at_tick E tick = Inr price" "ss_ticks st nx = None" "st' = st\<lparr>ss_tick := tick, ss_sqrt_price := price\<rparr>"
  | nx tick price info l where "camm_next_initialized_tick E bitmap (ss_tick st) d z = Inr (nx, True)" "go" "tick_after E z nx = Inr tick"
      "get_sqrt_ratio_at_tick E tick = Inr price" "ss_ticks st nx = Some info"
      "apply_net E z (mirror_outside (ss_fg0 st) (ss_fg1 st) info) (ss_liquidity st) = Inr l"
      "st' = st\<lparr>ss_liquidity := l, ss_ticks := (ss_ticks st)(nx \<mapsto> mirror_outside (ss_fg0 st) (ss_fg1 st) info), ss_tick := tick, ss_sqrt_price := price\<rparr>"
proof -
  from assms obtain nx found where nx: "camm_next_initialized_tick E bitmap (ss_tick st) d z = Inr (nx, found)"
    by (auto simp: idle_step_def)
  show ?thesis
  proof (cases found)
    case False
    then have nx: "camm_next_initialized_tick E bitmap (ss_tick st) d z = Inr (nx, False)" using nx by simp
    have "st' = st" "\<not> go" using assms nx by (auto simp: idle_step_def)
    then show ?thesis by (rule that(1) [OF nx])
  next
    case True
    then have nx: "camm_next_initialized_tick E bitmap (ss_tick st) d z = Inr (nx, True)" using nx by simp
    show ?thesis
    proof (cases "ss_ticks st nx")
      case None
      from assms nx None obtain tick price where "tick_after E z nx = Inr tick" "get_sqrt_ratio_at_tick E tick = Inr price"
        "go" "st' = st\<lparr>ss_tick := tick, ss_sqrt_price := price\<rparr>" by (auto simp: idle_step_def)
      from that(2) [OF nx this(3,1,2) None this(4)] show ?thesis .
    next
      case (Some info)
      from assms nx Some obtain tick price l where "tick_after E z nx = Inr tick" "get_sqrt_ratio_at_tick E tick = Inr price" "go"
        "apply_net E z (mirror_outside (ss_fg0 st) (ss_fg1 st) info) (ss_liquidity st) = Inr l"
        "st' = st\<lparr>ss_liquidity := l, ss_ticks := (ss_ticks st)(nx \<mapsto> mirror_outside (ss_fg0 st) (ss_fg1 st) info), ss_tick := tick, ss_sqrt_price := price\<rparr>"
        by (auto simp: idle_step_def Let_def)
      from that(3) [OF nx this(3,1,2) Some this(4,5)] show ?thesis .
    qed
  qed
qed

lemma trade_quote_Inr:
  assumes "trade_quote E bitmap fee d z st = Inr tr" "overflow_checks E"
  obtains found less_fee where "camm_next_initialized_tick E bitmap (ss_tick st) d z = Inr (tr_next tr, found)"
    "cm_mul_div (ss_remaining st) (10000 - fee) 10000 = Inr less_fee" "fee \<le> 10000"
    "tr_crossed tr \<longrightarrow> found \<and> get_sqrt_ratio_at_tick E (tr_next tr) = Inr (tr_price tr)"
    "\<not> tr_crossed tr \<longrightarrow> tr_in tr = less_fee \<and> tr_fee tr = ss_remaining st - less_fee
       \<and> get_next_sqrt_price_from_input (ss_sqrt_price st) (ss_liquidity st) less_fee z = Inr (tr_price tr)"
    "\<not> found \<longrightarrow> \<not> tr_crossed tr"
    "amount_out_between z (ss_sqrt_price st) (tr_price tr) (ss_liquidity st) = Inr (tr_out tr)"
  using assms by (auto simp: trade_quote_def in_range_def split: if_splits)

text \<open>A round that does not cross the next tick uses up the input and leaves tick, liquidity and ticks alone.\<close>

lemma trade_step_Inr:
  assumes "trade_step E bitmap fee d z st = Inr st'" "overflow_checks E"
  obtains tr where "trade_quote E bitmap fee d z st = Inr tr" "\<not> tr_crossed tr" "ss_tick st' = ss_tick st" "ss_liquidity st' = ss_liquidity st"
      "ss_ticks st' = ss_ticks st" "ss_sqrt_price st' = tr_price tr" "ss_remaining st' = 0"
      "ss_in st' = ss_in st + tr_in tr + tr_fee tr" "ss_out st' = ss_out st + tr_out tr"
  | tr tick info fg0 fg1 l where "trade_quote E bitmap fee d z st = Inr tr" "tr_crossed tr" "tick_after E z (tr_next tr) = Inr tick"
      "ss_ticks st (tr_next tr) = Some info" "apply_net E z (mirror_outside fg0 fg1 info) (ss_liquidity st) = Inr l"
      "ss_tick st' = tick" "ss_liquidity st' = l" "ss_ticks st' = (ss_ticks st)(tr_next tr \<mapsto> mirror_outside fg0 fg1 info)"
      "ss_sqrt_price st' = tr_price tr" "0 \<le> ss_remaining st'"
proof -
  from assms obtain tr st1 where q: "trade_quote E bitmap fee d z st = Inr tr" and tot: "trade_totals E z tr st = Inr st1"
    and c: "trade_cross E z tr st1 = Inr st'" by (auto simp: trade_step_def)
  from tot assms(2) have st1: "ss_sqrt_price st1 = tr_price tr" "ss_in st1 = ss_in st + tr_in tr + tr_fee tr" "ss_out st1 = ss_out st + tr_out tr"
    "ss_remaining st1 = saturate U128 (ss_remaining st - (tr_in tr + tr_fee tr))" "ss_tick st1 = ss_tick st" "ss_liquidity st1 = ss_liquidity st"
    "ss_ticks st1 = ss_ticks st" by (auto simp: trade_totals_def)
  show ?thesis
  proof (cases "tr_crossed tr")
    case True
    with c obtain tick info l where x: "tick_after E z (tr_next tr) = Inr tick" "ss_ticks st1 (tr_next tr) = Some info"
      "apply_net E z (mirror_outside (ss_fg0 st1) (ss_fg1 st1) info) (ss_liquidity st1) = Inr l"
      "st' = st1\<lparr>ss_tick := tick, ss_liquidity := l, ss_ticks := (ss_ticks st1)(tr_next tr \<mapsto> mirror_outside (ss_fg0 st1) (ss_fg1 st1) info)\<rparr>"
      by (auto simp: trade_cross_def)
    with st1 have "ss_tick st' = tick" "ss_liquidity st' = l" "ss_ticks st' = (ss_ticks st)(tr_next tr \<mapsto> mirror_outside (ss_fg0 st1) (ss_fg1 st1) info)"
      "ss_sqrt_price st' = tr_price tr" "0 \<le> ss_remaining st'" by (simp_all add: saturate_def)
    with q True x(1-3) st1(6,7) that(2) show ?thesis by metis
  next
    case False
    from q assms(2) have "tr_in tr + tr_fee tr = ss_remaining st" by (rule trade_quote_Inr) (use False in auto)
    then have "ss_remaining st1 = 0" using st1(4) by (simp add: saturate_def)
    with c False have "st' = st1" "ss_remaining st' = 0" by (simp_all add: trade_cross_def)
    with q False st1 that(1) show ?thesis by metis
  qed
qed

section \<open>The loop\<close>

lemma next_tick_side:
  assumes "camm_next_initialized_tick E bitmap tick d z = Inr (nx, found)" "overflow_checks E" "0 < d" "in_range I32 tick"
  shows "in_range I32 nx \<and> (if z then nx \<le> tick else tick < nx)"
proof (cases z)
  case True
  with next_tick_down [of E bitmap tick d nx found] assms obtain c where c: "nx = c * d" "in_range I32 nx" "c \<le> tick div d" by auto
  have "c * d \<le> tick div d * d" using c(3) assms(3) by simp
  also have "\<dots> \<le> tick" using assms(3) by (rule div_mult_le_int)
  finally show ?thesis using c True by simp
next
  case False
  with next_tick_up [of E bitmap tick d nx found] assms obtain c where c: "nx = c * d" "in_range I32 nx" "tick div d < c" by auto
  have "tick < (tick div d + 1) * d" using assms(3) by (rule less_Suc_div_mult_int)
  also have "\<dots> \<le> c * d" using c(3) assms(3) by (intro mult_right_mono) auto
  finally show ?thesis using c False by simp
qed

lemma swap_step_moves:
  assumes "swap_step E bitmap fee d z st = Inr (st', go)" "overflow_checks E" "0 < d" "in_range I32 (ss_tick st)"
  shows "in_range I32 (ss_tick st') \<and> (\<not> go \<or> ss_remaining st' = 0 \<or> (if z then ss_tick st' < ss_tick st else ss_tick st < ss_tick st'))"
proof -
  have cross: "in_range I32 tick \<and> (if z then tick < ss_tick st else ss_tick st < tick)"
    if "camm_next_initialized_tick E bitmap (ss_tick st) d z = Inr (nx, True)" "tick_after E z nx = Inr tick" for nx tick
    using next_tick_side [OF that(1) assms(2-4)] tick_after_Inr [OF assms(2) that(2)] by auto
  show ?thesis
  proof (cases "ss_liquidity st = 0")
    case True
    with assms(1) have "idle_step E bitmap d z st = Inr (st', go)" by (simp add: swap_step_def)
    then show ?thesis by (rule idle_step_Inr) (use cross assms(4) in auto)
  next
    case False
    with assms(1) have "trade_step E bitmap fee d z st = Inr st'" by (auto simp: swap_step_def)
    from this assms(2) show ?thesis
    proof (cases rule: trade_step_Inr)
      case (1 tr)
      with assms(4) show ?thesis by simp
    next
      case (2 tr tick info fg0 fg1 l)
      from 2(1) assms(2) have "camm_next_initialized_tick E bitmap (ss_tick st) d z = Inr (tr_next tr, True)"
        by (rule trade_quote_Inr) (use 2(2) in auto)
      with cross 2(3,6) show ?thesis by auto
    qed
  qed
qed

lemma swap_loop_rule:
  assumes "swap_loop E bitmap fee d z st = Some (Inr (st', go))" "P st"
    and "\<And>st st' go. P st \<Longrightarrow> 0 < ss_remaining st \<Longrightarrow> swap_step E bitmap fee d z st = Inr (st', go) \<Longrightarrow> P st'"
  shows "P st'"
proof -
  let ?Q = "\<lambda>r. \<forall>st go. r = Inr (st, go) \<longrightarrow> P st"
  have step: "?Q (rbind r (\<lambda>(st, go). swap_step E bitmap fee d z st))" if "?Q r" "loop_continues r" for r
    using that assms(3) by (auto simp: loop_continues_def split: sum.splits)
  from while_option_rule [where P = ?Q, OF step assms(1) [unfolded swap_loop_def]] assms(2) show ?thesis by simp
qed

lemma swap_loop_total:
  assumes "overflow_checks E" "0 < d" "in_range I32 (ss_tick st)"
  shows "\<exists>r. swap_loop E bitmap fee d z st = Some r"
proof -
  let ?P = "\<lambda>r. \<forall>st go. r = Inr (st, go) \<longrightarrow> in_range I32 (ss_tick st)"
  let ?m = "\<lambda>r. case r of Inl e \<Rightarrow> 0 | Inr (st, go) \<Rightarrow> if go \<and> 0 < ss_remaining st then
     Suc (nat (if z then ss_tick st + 2147483648 else 2147483648 - ss_tick st)) else 0"
  let ?c = "\<lambda>r. rbind r (\<lambda>(st, go). swap_step E bitmap fee d z st)"
  show ?thesis unfolding swap_loop_def
  proof (rule measure_while_option_Some [where P = ?P and f = ?m])
    fix r
    assume r: "?P r" "loop_continues r"
    then obtain st where st: "r = Inr (st, True)" "0 < ss_remaining st" "in_range I32 (ss_tick st)"
      by (auto simp: loop_continues_def split: sum.splits)
    show "?P (?c r) \<and> ?m (?c r) < ?m r"
    proof (cases "swap_step E bitmap fee d z st")
      case (Inl e)
      with st show ?thesis by simp
    next
      case (Inr q)
      obtain st' go where q: "q = (st', go)" by (cases q)
      from swap_step_moves [OF Inr [unfolded q] assms(1,2) st(3)] st Inr q show ?thesis by (auto simp: in_range_def)
    qed
  qed (use assms(3) in simp)
qed

end
