(* ===== verification/ConcentratedBooks.thy ===== *)
theory ConcentratedBooks
  imports ConcentratedSwap
begin

text \<open>
  The accounts of the concentrated pool: the figures at every tick are sums over the positions, the bitmap marks exactly
  the stored ticks, and the active liquidity is that of the positions whose range holds the current tick. Minting,
  burning and every round of a swap keep them.
\<close>

section \<open>Sums over positions\<close>

type_synonym range_key = "address \<times> int \<times> int"

definition liq_of :: "(range_key \<rightharpoonup> position_info) \<Rightarrow> range_key \<Rightarrow> int" where
  "liq_of P k = (case P k of None \<Rightarrow> 0 | Some p \<Rightarrow> po_liquidity p)"

definition pos_sum :: "(range_key \<Rightarrow> int) \<Rightarrow> (range_key \<rightharpoonup> position_info) \<Rightarrow> int" where
  "pos_sum f P = (\<Sum>k \<in> dom P. f k * liq_of P k)"

definition touches :: "int \<Rightarrow> range_key \<Rightarrow> int" where
  "touches t k = (case k of (u, l, h) \<Rightarrow> of_bool (l = t) + of_bool (h = t))"

definition enters :: "int \<Rightarrow> range_key \<Rightarrow> int" where
  "enters t k = (case k of (u, l, h) \<Rightarrow> of_bool (l = t) - of_bool (h = t))"

definition covers :: "int \<Rightarrow> range_key \<Rightarrow> int" where
  "covers c k = (case k of (u, l, h) \<Rightarrow> of_bool (l \<le> c \<and> c < h))"

lemma pos_sum_change:
  assumes "finite (dom P)" "\<And>j. j \<noteq> k \<Longrightarrow> P' j = P j"
  shows "pos_sum f P' = pos_sum f P + f k * (liq_of P' k - liq_of P k)"
proof -
  let ?A = "insert k (dom P)"
  have "dom P' \<subseteq> ?A" using assms(2) by (auto simp: domIff)
  then have "pos_sum f P' = (\<Sum>j \<in> ?A. f j * liq_of P' j)"
    unfolding pos_sum_def using assms(1) by (intro sum.mono_neutral_left) (auto simp: liq_of_def split: option.splits)
  also have "\<dots> = f k * liq_of P' k + (\<Sum>j \<in> ?A - {k}. f j * liq_of P' j)" using assms(1) by (subst sum.remove [of ?A k]) auto
  also have "(\<Sum>j \<in> ?A - {k}. f j * liq_of P' j) = (\<Sum>j \<in> ?A - {k}. f j * liq_of P j)"
    using assms(2) by (intro sum.cong) (auto simp: liq_of_def)
  finally have 1: "pos_sum f P' = f k * liq_of P' k + (\<Sum>j \<in> ?A - {k}. f j * liq_of P j)" .
  have "pos_sum f P = (\<Sum>j \<in> ?A. f j * liq_of P j)"
    unfolding pos_sum_def using assms(1) by (intro sum.mono_neutral_left) (auto simp: liq_of_def split: option.splits)
  also have "\<dots> = f k * liq_of P k + (\<Sum>j \<in> ?A - {k}. f j * liq_of P j)" using assms(1) by (subst sum.remove [of ?A k]) auto
  finally show ?thesis using 1 by (simp add: algebra_simps)
qed

lemma pos_sum_empty [simp]: "pos_sum f Map.empty = 0"
  by (simp add: pos_sum_def)

lemma pos_sum_le:
  assumes "\<forall>k. 0 \<le> liq_of P k" "\<forall>k. f k \<le> g k"
  shows "pos_sum f P \<le> pos_sum g P"
  unfolding pos_sum_def using assms by (intro sum_mono mult_right_mono) auto

lemma pos_sum_nonneg: "\<forall>k. 0 \<le> liq_of P k \<Longrightarrow> \<forall>k. 0 \<le> f k \<Longrightarrow> 0 \<le> pos_sum f P"
  unfolding pos_sum_def by (rule sum_nonneg) (metis mult_nonneg_nonneg)

lemma pos_sum_ge:
  assumes "finite (dom P)" "\<forall>k. 0 \<le> liq_of P k" "\<forall>k. 0 \<le> f k"
  shows "f k * liq_of P k \<le> pos_sum f P"
proof (cases "k \<in> dom P")
  case True
  show ?thesis unfolding pos_sum_def using assms True by (intro member_le_sum) auto
next
  case False
  then have "liq_of P k = 0" by (simp add: liq_of_def domIff)
  with pos_sum_nonneg [OF assms(2,3)] show ?thesis by simp
qed

lemma pos_sum_diff: "pos_sum (\<lambda>k. f k - g k) P = pos_sum f P - pos_sum g P"
  by (simp add: pos_sum_def sum_subtractf left_diff_distrib)

lemma pos_sum_eq: "(\<And>k. k \<in> dom P \<Longrightarrow> liq_of P k \<noteq> 0 \<Longrightarrow> f k = g k) \<Longrightarrow> pos_sum f P = pos_sum g P"
  unfolding pos_sum_def by (intro sum.cong) auto

section \<open>The accounts\<close>

definition gross_of :: "(int \<rightharpoonup> tick_info) \<Rightarrow> int \<Rightarrow> int" where
  "gross_of ticks t = (case ticks t of None \<Rightarrow> 0 | Some info \<Rightarrow> ti_liquidity_gross info)"

definition net_of :: "(int \<rightharpoonup> tick_info) \<Rightarrow> int \<Rightarrow> int" where
  "net_of ticks t = (case ticks t of None \<Rightarrow> 0 | Some info \<Rightarrow> ti_liquidity_net info)"

definition tick_books :: "int \<Rightarrow> (int \<rightharpoonup> 64 word) \<Rightarrow> (int \<rightharpoonup> tick_info) \<Rightarrow> (range_key \<rightharpoonup> position_info) \<Rightarrow> bool" where
  "tick_books d bitmap ticks P \<longleftrightarrow> finite (dom P) \<and> (\<forall>k. 0 \<le> liq_of P k)
     \<and> (\<forall>u l h. P (u, l, h) \<noteq> None \<longrightarrow> l < h \<and> l mod d = 0 \<and> h mod d = 0)
     \<and> (\<forall>t. gross_of ticks t = pos_sum (touches t) P) \<and> (\<forall>t. net_of ticks t = pos_sum (enters t) P)
     \<and> (\<forall>t. ticks t \<noteq> None \<longrightarrow> 0 < gross_of ticks t) \<and> (\<forall>c. marked bitmap c \<longleftrightarrow> ticks (c * d) \<noteq> None)"

lemma tick_booksD:
  assumes "tick_books d bitmap ticks P"
  shows "finite (dom P)" "0 \<le> liq_of P k" "P (u, l, h) \<noteq> None \<Longrightarrow> l < h \<and> l mod d = 0 \<and> h mod d = 0"
    "gross_of ticks t = pos_sum (touches t) P" "net_of ticks t = pos_sum (enters t) P"
    "ticks t \<noteq> None \<longleftrightarrow> 0 < gross_of ticks t" "marked bitmap c \<longleftrightarrow> ticks (c * d) \<noteq> None"
proof -
  show "finite (dom P)" "0 \<le> liq_of P k" "P (u, l, h) \<noteq> None \<Longrightarrow> l < h \<and> l mod d = 0 \<and> h mod d = 0"
    "gross_of ticks t = pos_sum (touches t) P" "net_of ticks t = pos_sum (enters t) P" "marked bitmap c \<longleftrightarrow> ticks (c * d) \<noteq> None"
    using assms unfolding tick_books_def by blast+
  have "ticks t \<noteq> None \<Longrightarrow> 0 < gross_of ticks t" using assms unfolding tick_books_def by blast
  then show "ticks t \<noteq> None \<longleftrightarrow> 0 < gross_of ticks t" by (auto simp: gross_of_def split: option.splits)
qed

lemma touches_nonneg: "0 \<le> touches t k"
  by (auto simp: touches_def split: prod.splits)

text \<open>The ends of a position with liquidity are stored ticks.\<close>

lemma ends_stored:
  assumes b: "tick_books d bitmap ticks P" and "liq_of P (u, l, h) \<noteq> 0"
  shows "ticks l \<noteq> None" "ticks h \<noteq> None"
proof -
  have p: "0 < liq_of P (u, l, h)" using tick_booksD(2) [OF b, of "(u, l, h)"] assms(2) by linarith
  have "touches t (u, l, h) * liq_of P (u, l, h) \<le> gross_of ticks t" for t
    unfolding tick_booksD(4) [OF b] using tick_booksD(1,2) [OF b] touches_nonneg by (intro pos_sum_ge) auto
  from this [of l] this [of h] p show "ticks l \<noteq> None" "ticks h \<noteq> None"
    unfolding tick_booksD(6) [OF b] by (cases "l = h"; simp add: touches_def)+
qed

text \<open>Crossing the nearest stored tick changes the active liquidity by that tick's net liquidity.\<close>

lemma covers_step:
  assumes b: "tick_books d bitmap ticks P" and "t1 < t" "t \<le> t2" "\<And>s. t1 < s \<Longrightarrow> s \<le> t2 \<Longrightarrow> s \<noteq> t \<Longrightarrow> ticks s = None"
  shows "pos_sum (covers t2) P - pos_sum (covers t1) P = net_of ticks t"
proof -
  have "pos_sum (covers t2) P - pos_sum (covers t1) P = pos_sum (\<lambda>k. covers t2 k - covers t1 k) P" by (simp add: pos_sum_diff)
  also have "\<dots> = pos_sum (enters t) P"
  proof (rule pos_sum_eq)
    fix k
    assume k: "k \<in> dom P" "liq_of P k \<noteq> 0"
    obtain u l h where ulh: "k = (u, l, h)" by (cases k)
    have lh: "l < h" using tick_booksD(3) [OF b, of u l h] k(1) ulh by (auto simp: domIff)
    have "ticks l \<noteq> None" "ticks h \<noteq> None" using ends_stored [OF b] k(2) ulh by auto
    then have "\<not> (t1 < l \<and> l \<le> t2 \<and> l \<noteq> t)" "\<not> (t1 < h \<and> h \<le> t2 \<and> h \<noteq> t)" using assms(4) by metis+
    then have "l \<le> t2 \<longleftrightarrow> l \<le> t1 \<or> l = t" "t1 < h \<longleftrightarrow> t2 < h \<or> h = t" using assms(2,3) by linarith+
    with lh assms(2,3) show "covers t2 k - covers t1 k = enters t k"
      unfolding ulh covers_def enters_def by (cases "l = t"; cases "h = t") simp_all
  qed
  finally show ?thesis by (simp add: tick_booksD(5) [OF b])
qed

lemma covers_same:
  assumes b: "tick_books d bitmap ticks P" and "t1 \<le> t2" "\<And>s. t1 < s \<Longrightarrow> s \<le> t2 \<Longrightarrow> ticks s = None"
  shows "pos_sum (covers t2) P = pos_sum (covers t1) P"
proof (rule pos_sum_eq)
  fix k
  assume k: "k \<in> dom P" "liq_of P k \<noteq> 0"
  obtain u l h where ulh: "k = (u, l, h)" by (cases k)
  have "ticks l \<noteq> None" "ticks h \<noteq> None" using ends_stored [OF b] k(2) ulh by auto
  then have "\<not> (t1 < l \<and> l \<le> t2)" "\<not> (t1 < h \<and> h \<le> t2)" using assms(3) [of l] assms(3) [of h] by auto
  then show "covers t2 k = covers t1 k" using assms(2) unfolding ulh covers_def by auto
qed

lemma stored_multiple:
  assumes b: "tick_books d bitmap ticks P" and "ticks t \<noteq> None"
  shows "t mod d = 0"
proof (rule ccontr)
  assume "t mod d \<noteq> 0"
  then have "touches t k = 0" if "k \<in> dom P" for k
    using that tick_booksD(3) [OF b] by (cases k) (fastforce simp: touches_def)
  then have "pos_sum (touches t) P = 0" by (simp add: pos_sum_def)
  with assms(2) show False unfolding tick_booksD(6) [OF b] tick_booksD(4) [OF b] by simp
qed

lemma net_bound:
  assumes b: "tick_books d bitmap ticks P"
  shows "\<bar>net_of ticks t\<bar> \<le> pos_sum (\<lambda>k. 1) P" "0 \<le> pos_sum (covers c) P" "pos_sum (covers c) P \<le> pos_sum (\<lambda>k. 1) P"
    "gross_of ticks t \<le> pos_sum (\<lambda>k. 1) P"
proof -
  have liq: "\<forall>k. 0 \<le> liq_of P k" using tick_booksD(2) [OF b] by blast
  have "pos_sum (enters t) P \<le> pos_sum (\<lambda>k. 1) P" "pos_sum (\<lambda>k. - enters t k) P \<le> pos_sum (\<lambda>k. 1) P"
    using liq by (intro pos_sum_le; simp add: enters_def split: prod.splits)+
  moreover have "pos_sum (\<lambda>k. - enters t k) P = - pos_sum (enters t) P" by (simp add: pos_sum_def sum_negf)
  ultimately show "\<bar>net_of ticks t\<bar> \<le> pos_sum (\<lambda>k. 1) P" unfolding tick_booksD(5) [OF b] by linarith
  show "0 \<le> pos_sum (covers c) P" using liq by (intro pos_sum_nonneg) (auto simp: covers_def split: prod.splits)
  show "pos_sum (covers c) P \<le> pos_sum (\<lambda>k. 1) P" using liq by (intro pos_sum_le) (auto simp: covers_def split: prod.splits)
  have "pos_sum (touches t) P = pos_sum (\<lambda>k. if k \<in> dom P then touches t k else 0) P" by (rule pos_sum_eq) simp
  also have "\<dots> \<le> pos_sum (\<lambda>k. 1) P"
  proof (rule pos_sum_le [OF liq], rule allI)
    fix k
    show "(if k \<in> dom P then touches t k else 0) \<le> 1"
      using tick_booksD(3) [OF b] by (cases k) (fastforce simp: touches_def)
  qed
  finally show "gross_of ticks t \<le> pos_sum (\<lambda>k. 1) P" unfolding tick_booksD(4) [OF b] .
qed

lemma tick_books_cong:
  assumes "tick_books d bitmap ticks P" "gross_of ticks' = gross_of ticks" "net_of ticks' = net_of ticks"
    "\<And>s. ticks' s \<noteq> None \<longleftrightarrow> ticks s \<noteq> None"
  shows "tick_books d bitmap ticks' P"
  using assms(1) unfolding tick_books_def assms(2-4) .

text \<open>Mirroring the fee growth of a tick changes no figure.\<close>

lemma mirror_books:
  assumes b: "tick_books d bitmap ticks P" and "ticks t = Some info"
  shows "tick_books d bitmap (ticks(t \<mapsto> mirror_outside x y info)) P"
proof -
  have "gross_of (ticks(t \<mapsto> mirror_outside x y info)) = gross_of ticks" "net_of (ticks(t \<mapsto> mirror_outside x y info)) = net_of ticks"
    "\<And>s. (ticks(t \<mapsto> mirror_outside x y info)) s \<noteq> None \<longleftrightarrow> ticks s \<noteq> None"
    using assms(2) by (auto simp: gross_of_def net_of_def mirror_outside_def fun_eq_iff)
  with b show ?thesis by (rule tick_books_cong)
qed

lemma apply_net_Inr:
  assumes "apply_net E z (mirror_outside x y info) liq = Inr l" "overflow_checks E"
    and "\<bar>ti_liquidity_net info\<bar> \<le> n" "n < 2 ^ 127" "0 \<le> (if z then liq - ti_liquidity_net info else liq + ti_liquidity_net info)"
    "(if z then liq - ti_liquidity_net info else liq + ti_liquidity_net info) \<le> n"
  shows "l = (if z then liq - ti_liquidity_net info else liq + ti_liquidity_net info)"
  using assms by (cases z) (auto simp: apply_net_def mirror_outside_def saturate_def wrap_id in_range_def split: if_splits)

text \<open>The tick the search finds is stored and the nearest one.\<close>

lemma next_tick_stored:
  assumes "camm_next_initialized_tick E bitmap tick d z = Inr (nx, True)" "overflow_checks E" "0 < d" "in_range I32 tick"
    and b: "tick_books d bitmap ticks P"
  shows "ticks nx \<noteq> None \<and> (\<forall>s. (if z then nx < s \<and> s \<le> tick else tick < s \<and> s < nx) \<longrightarrow> ticks s = None)"
proof -
  have mult: "\<exists>c. s = c * d" if "ticks s \<noteq> None" for s using stored_multiple [OF b that] by (metis div_mult_mod_eq add_0_right)
  show ?thesis
  proof (cases z)
    case True
    with next_tick_down [of E bitmap tick d nx True] assms(1-4) obtain c where c: "nx = c * d" "marked bitmap c"
      "\<forall>k. c < k \<and> k \<le> tick div d \<longrightarrow> \<not> marked bitmap k" by auto
    have "ticks s = None" if "nx < s" "s \<le> tick" for s
    proof (rule ccontr)
      assume s: "ticks s \<noteq> None"
      with mult obtain k where k: "s = k * d" by blast
      have "c < k" using that(1) k c(1) assms(3) by simp
      moreover have "k \<le> tick div d" using zdiv_mono1 [OF that(2) assms(3)] k assms(3) by simp
      ultimately show False using c(3) s k tick_booksD(7) [OF b] by blast
    qed
    with c(1,2) tick_booksD(7) [OF b] True show ?thesis by simp
  next
    case False
    with next_tick_up [of E bitmap tick d nx True] assms(1-4) obtain c where c: "nx = c * d" "marked bitmap c"
      "\<forall>k. tick div d < k \<and> k < c \<longrightarrow> \<not> marked bitmap k" by auto
    have "ticks s = None" if "tick < s" "s < nx" for s
    proof (rule ccontr)
      assume s: "ticks s \<noteq> None"
      with mult obtain k where k: "s = k * d" by blast
      have "k < c" using that(2) k c(1) assms(3) by simp
      moreover have "tick div d < k" using that(1) k assms(3)
        by (metis div_mult_le_int linorder_not_less mult_right_mono less_imp_le order_le_less_trans order_less_irrefl)
      ultimately show False using c(3) s k tick_booksD(7) [OF b] by blast
    qed
    with c(1,2) tick_booksD(7) [OF b] False show ?thesis by simp
  qed
qed

section \<open>A round of a swap\<close>

definition swap_books :: "int \<Rightarrow> (int \<rightharpoonup> 64 word) \<Rightarrow> (range_key \<rightharpoonup> position_info) \<Rightarrow> swap_state \<Rightarrow> bool" where
  "swap_books d bitmap P st \<longleftrightarrow> tick_books d bitmap (ss_ticks st) P \<and> ss_liquidity st = pos_sum (covers (ss_tick st)) P
     \<and> in_range I32 (ss_tick st)"

lemma cross_books:
  assumes s: "swap_books d bitmap P st" and small: "pos_sum (\<lambda>k. 1) P < 2 ^ 127" and E: "overflow_checks E" "0 < d"
    and nx: "camm_next_initialized_tick E bitmap (ss_tick st) d z = Inr (nx, True)" "tick_after E z nx = Inr tick"
    and l: "ss_ticks st nx = Some info" "apply_net E z (mirror_outside x y info) (ss_liquidity st) = Inr l"
    and st': "ss_tick st' = tick" "ss_liquidity st' = l" "ss_ticks st' = (ss_ticks st)(nx \<mapsto> mirror_outside x y info)"
  shows "swap_books d bitmap P st'"
proof -
  have b: "tick_books d bitmap (ss_ticks st) P" and liq: "ss_liquidity st = pos_sum (covers (ss_tick st)) P" and r: "in_range I32 (ss_tick st)"
    using s by (simp_all add: swap_books_def)
  note side = next_tick_side [OF nx(1) E r]
  note near = next_tick_stored [OF nx(1) E r b]
  have tick: "tick = (if z then nx - 1 else nx)" "in_range I32 tick" using tick_after_Inr [OF E(1) nx(2)] side by auto
  have net: "ti_liquidity_net info = net_of (ss_ticks st) nx" using l(1) by (simp add: net_of_def)
  have new: "(if z then ss_liquidity st - ti_liquidity_net info else ss_liquidity st + ti_liquidity_net info) = pos_sum (covers tick) P"
  proof (cases z)
    case True
    have "pos_sum (covers (ss_tick st)) P - pos_sum (covers (nx - 1)) P = net_of (ss_ticks st) nx"
      by (rule covers_step [OF b]) (use True side near in auto)
    with True tick net liq show ?thesis by simp
  next
    case False
    have "pos_sum (covers nx) P - pos_sum (covers (ss_tick st)) P = net_of (ss_ticks st) nx"
      by (rule covers_step [OF b]) (use False side near in auto)
    with False tick net liq show ?thesis by simp
  qed
  have "\<bar>ti_liquidity_net info\<bar> \<le> pos_sum (\<lambda>k. 1) P" using net_bound(1) [OF b] net by simp
  from apply_net_Inr [OF l(2) E(1) this small] new net_bound(2,3) [OF b, of tick] have "l = pos_sum (covers tick) P" by simp
  with st' tick(2) mirror_books [OF b l(1)] show ?thesis by (simp add: swap_books_def)
qed

lemma swap_step_books:
  assumes s: "swap_books d bitmap P st" and small: "pos_sum (\<lambda>k. 1) P < 2 ^ 127" and E: "overflow_checks E" "0 < d"
    and run: "swap_step E bitmap fee d z st = Inr (st', go)"
  shows "swap_books d bitmap P st'"
proof (cases "ss_liquidity st = 0")
  case True
  have b: "tick_books d bitmap (ss_ticks st) P" and r: "in_range I32 (ss_tick st)" using s by (simp_all add: swap_books_def)
  from run True have "idle_step E bitmap d z st = Inr (st', go)" by (simp add: swap_step_def)
  then show ?thesis
  proof (cases rule: idle_step_Inr)
    case (1 nx)
    with s show ?thesis by simp
  next
    case (2 nx tick price)
    with next_tick_stored [OF 2(1) E r b] show ?thesis by simp
  next
    case (3 nx tick price info l)
    from cross_books [OF s small E 3(1,3,5,6)] 3(7) show ?thesis by simp
  qed
next
  case False
  with run have "trade_step E bitmap fee d z st = Inr st'" by (auto simp: swap_step_def)
  from this E(1) show ?thesis
  proof (cases rule: trade_step_Inr)
    case (1 tr)
    with s show ?thesis by (simp add: swap_books_def)
  next
    case (2 tr tick info fg0 fg1 l)
    from 2(1) E(1) have "camm_next_initialized_tick E bitmap (ss_tick st) d z = Inr (tr_next tr, True)"
      by (rule trade_quote_Inr) (use 2(2) in auto)
    from cross_books [OF s small E this 2(3-8)] show ?thesis .
  qed
qed

lemma swap_loop_books:
  assumes "swap_loop E bitmap fee d z st = Some (Inr (st', go))" "swap_books d bitmap P st" "pos_sum (\<lambda>k. 1) P < 2 ^ 127"
    "overflow_checks E" "0 < d"
  shows "swap_books d bitmap P st'"
  using assms(1,2) by (rule swap_loop_rule) (rule swap_step_books [OF _ assms(3-5)])

section \<open>Changing a range\<close>

lemma update_tick_Inr:
  assumes "camm_update_tick E s t cur change fg0 fg1 upper = Inr (s', flipped)" "overflow_checks E"
    and "- (2 ^ 127) < change" "change < 2 ^ 127" "0 \<le> gross_of (ca_ticks s) t" "0 \<le> gross_of (ca_ticks s) t + change"
    "gross_of (ca_ticks s) t + change < 2 ^ 128"
  shows "\<exists>ticks. s' = s\<lparr>ca_ticks := ticks\<rparr> \<and> gross_of ticks = (gross_of (ca_ticks s))(t := gross_of (ca_ticks s) t + change)
    \<and> (\<forall>q. q \<noteq> t \<longrightarrow> ticks q = ca_ticks s q) \<and> (ticks t = None \<longleftrightarrow> gross_of ticks t = 0)
    \<and> (ticks t \<noteq> None \<longrightarrow> net_of ticks t = net_of (ca_ticks s) t + (if upper then - change else change))
    \<and> flipped = ((gross_of (ca_ticks s) t = 0) \<noteq> (gross_of ticks t = 0))"
proof -
  let ?info = "get_or (ca_ticks s) t new_tick"
  have g: "ti_liquidity_gross ?info = gross_of (ca_ticks s) t" "ti_liquidity_net ?info = net_of (ca_ticks s) t"
    by (simp_all add: get_or_def gross_of_def net_of_def new_tick_def split: option.splits)
  let ?n = "gross_of (ca_ticks s) t + change"
  have sat: "saturate U128 ?n = ?n" "change < 0 \<Longrightarrow> wrap U128 (- change) = - change" "0 \<le> change \<Longrightarrow> wrap U128 change = change"
    using assms(3-7) by (simp_all add: saturate_def wrap_id in_range_def)
  define info1 where "info1 = (if gross_of (ca_ticks s) t = 0 \<and> t \<le> cur
    then ?info\<lparr>ti_fee_growth_outside_0 := fg0, ti_fee_growth_outside_1 := fg1\<rparr> else ?info)"
  have net1: "ti_liquidity_net info1 = net_of (ca_ticks s) t" using g by (simp add: info1_def)
  define info where "info = info1\<lparr>ti_liquidity_gross := ?n, ti_liquidity_net := net_of (ca_ticks s) t + (if upper then - change else change)\<rparr>"
  have run: "rbind (if upper then fit E I128 (- change) else Inr change) (\<lambda>c.
      rbind (fit E I128 (net_of (ca_ticks s) t + c)) (\<lambda>net.
      rbind (if change < 0 then rbind (fit E I128 (- change)) (\<lambda>n. Inr (saturate U128 (gross_of (ca_ticks s) t - wrap U128 n)))
             else Inr (saturate U128 (gross_of (ca_ticks s) t + wrap U128 change))) (\<lambda>gross.
      Inr (s\<lparr>ca_ticks := (ca_ticks s)(t := if gross = 0 then None else Some (info1\<lparr>ti_liquidity_gross := gross, ti_liquidity_net := net\<rparr>))\<rparr>,
           gross_of (ca_ticks s) t = 0 \<and> gross > 0 \<or> gross_of (ca_ticks s) t > 0 \<and> gross = 0)))) = (Inr (s', flipped) :: (camm \<times> bool) camm_res)"
    using assms(1) unfolding camm_update_tick_def Let_def g info1_def [symmetric] net1 .
  have s': "s' = s\<lparr>ca_ticks := (ca_ticks s)(t := if ?n = 0 then None else Some info)\<rparr>"
    and f: "flipped = (gross_of (ca_ticks s) t = 0 \<and> ?n > 0 \<or> gross_of (ca_ticks s) t > 0 \<and> ?n = 0)"
    using run assms(2) sat by (cases "change < 0"; cases upper; auto simp: info_def)+
  have info: "ti_liquidity_gross info = ?n" "ti_liquidity_net info = net_of (ca_ticks s) t + (if upper then - change else change)"
    by (simp_all add: info_def)
  let ?ticks = "(ca_ticks s)(t := if ?n = 0 then None else Some info)"
  have "gross_of ?ticks = (gross_of (ca_ticks s))(t := ?n)" using info(1) by (auto simp: gross_of_def fun_eq_iff)
  moreover have "?ticks t \<noteq> None \<longrightarrow> net_of ?ticks t = net_of (ca_ticks s) t + (if upper then - change else change)"
    using info(2) by (auto simp: net_of_def)
  ultimately show ?thesis using s' f assms(5,6) by (intro exI [of _ ?ticks]) auto
qed

lemma flip_marked:
  assumes "camm_flip_tick_bitmap s t d = Inr s'" "0 < d" "in_range I32 t" "t mod d = 0"
  shows "\<exists>bm. s' = s\<lparr>ca_bitmap := bm\<rparr> \<and> (\<forall>k. marked bm k \<longleftrightarrow> marked (ca_bitmap s) k \<noteq> (k * d = t))"
proof -
  let ?c = "t div d"
  have c: "quot I32 t d = (Inr ?c :: int camm_res)" using quot_i32 [OF assms(2,3)] tdiv_floor [OF assms(2), of t] assms(4) by simp
  let ?w = "get_or (ca_bitmap s) (?c div 64) 0" and ?m = "push_bit (nat (?c mod 64)) 1 :: 64 word"
  let ?bm = "(ca_bitmap s)(?c div 64 := if ?w XOR ?m = 0 then None else Some (?w XOR ?m))"
  have s': "s' = s\<lparr>ca_bitmap := ?bm\<rparr>" using assms(1) unfolding camm_flip_tick_bitmap_def Let_def c by auto
  have bm: "get_or ?bm j 0 = (if j = ?c div 64 then ?w XOR ?m else get_or (ca_bitmap s) j 0)" for j by (auto simp: get_or_def)
  have one: "bit ?m j \<longleftrightarrow> j = nat (?c mod 64)" if "j < 64" for j
    using that by (auto simp: push_bit_of_1 bit_exp_iff)
  have "marked ?bm k \<longleftrightarrow> marked (ca_bitmap s) k \<noteq> (k = ?c)" for k
  proof (cases "k div 64 = ?c div 64")
    case True
    have "nat (k mod 64) = nat (?c mod 64) \<longleftrightarrow> k = ?c"
      using True div_mult_mod_eq [of k 64] div_mult_mod_eq [of ?c 64] by (metis eq_nat_nat_iff pos_mod_sign zero_less_numeral)
    moreover have "nat (k mod 64) < 64" by simp
    note one [OF this]
    ultimately show ?thesis unfolding marked_def bm True by (simp add: bit_xor_iff del: push_bit_of_1)
  next
    case False
    then have "k \<noteq> ?c" by auto
    with False show ?thesis unfolding marked_def bm by simp
  qed
  moreover have "k = ?c \<longleftrightarrow> k * d = t" for k using assms(2,4) by (metis div_mult_mod_eq add_0_right nonzero_mult_div_cancel_right less_irrefl)
  ultimately show ?thesis using s' by (intro exI [of _ ?bm]) simp
qed

lemma enters_zero:
  assumes "\<forall>k. 0 \<le> liq_of P k" "finite (dom P)" "pos_sum (touches t) P = 0"
  shows "pos_sum (enters t) P = 0"
proof -
  have z: "touches t k * liq_of P k = 0" for k
    using pos_sum_ge [OF assms(2,1), of "touches t" k] assms(1,3) touches_nonneg by (metis mult_nonneg_nonneg order_antisym)
  have "enters t k * liq_of P k = 0" for k
  proof (cases k)
    case (fields u l h)
    with z [of k] show ?thesis by (cases "l = t"; cases "h = t") (simp_all add: touches_def enters_def)
  qed
  then show ?thesis unfolding pos_sum_def by (intro sum.neutral) blast
qed

text \<open>Both ends of a range are changed along with the position: the accounts fit the new positions.\<close>

lemma update_range_books:
  assumes run: "update_range E s i l h change = Inr s'" and E: "overflow_checks E" and d: "0 < ci_tick_spacing i"
    and b: "tick_books (ci_tick_spacing i) (ca_bitmap s) (ca_ticks s) P"
    and lh: "l < h" "l mod ci_tick_spacing i = 0" "h mod ci_tick_spacing i = 0" "in_range I32 l" "in_range I32 h"
    and change: "- (2 ^ 127) < change" "change < 2 ^ 127"
    and P': "\<And>j. j \<noteq> (u, l, h) \<Longrightarrow> P' j = P j" "liq_of P' (u, l, h) = liq_of P (u, l, h) + change" "0 \<le> liq_of P' (u, l, h)"
    and small: "pos_sum (\<lambda>k. 1) P' < 2 ^ 127"
  shows "\<exists>bm ticks. s' = s\<lparr>ca_ticks := ticks, ca_bitmap := bm\<rparr> \<and> tick_books (ci_tick_spacing i) bm ticks P'"
proof -
  let ?d = "ci_tick_spacing i"
  let ?k = "(u, l, h)"
  have sum': "pos_sum f P' = pos_sum f P + f ?k * (liq_of P' ?k - liq_of P ?k)" for f
    by (rule pos_sum_change [OF tick_booksD(1) [OF b] P'(1)])
  have liq': "\<forall>j. 0 \<le> liq_of P' j" using P' tick_booksD(2) [OF b] by (metis liq_of_def)
  have fin': "finite (dom P')"
  proof (rule finite_subset)
    show "dom P' \<subseteq> insert ?k (dom P)" using P'(1) by (auto simp: domIff)
    show "finite (insert ?k (dom P))" using tick_booksD(1) [OF b] by simp
  qed
  have dom': "\<forall>v a c. P' (v, a, c) \<noteq> None \<longrightarrow> a < c \<and> a mod ?d = 0 \<and> c mod ?d = 0"
    using P'(1) tick_booksD(3) [OF b] lh(1-3) by (metis prod.inject)
  have gross': "pos_sum (touches t) P' = gross_of (ca_ticks s) t + (if t = l \<or> t = h then change else 0)" for t
    using sum' [of "touches t"] tick_booksD(4) [OF b, of t] P'(2) lh(1) by (auto simp: touches_def)
  have bounds: "0 \<le> gross_of (ca_ticks s) t" "0 \<le> pos_sum (touches t) P'" "pos_sum (touches t) P' < 2 ^ 128" for t
  proof -
    show "0 \<le> pos_sum (touches t) P'" using liq' touches_nonneg by (intro pos_sum_nonneg) auto
    show "0 \<le> gross_of (ca_ticks s) t" unfolding tick_booksD(4) [OF b] using tick_booksD(2) [OF b] touches_nonneg by (intro pos_sum_nonneg) auto
    have "pos_sum (touches t) P' = pos_sum (\<lambda>k. if k \<in> dom P' then touches t k else 0) P'" by (rule pos_sum_eq) simp
    also have "\<dots> \<le> pos_sum (\<lambda>k. 1) P'"
    proof (rule pos_sum_le [OF liq'], rule allI)
      fix k
      show "(if k \<in> dom P' then touches t k else 0) \<le> 1" using dom' by (cases k) (fastforce simp: touches_def)
    qed
    finally show "pos_sum (touches t) P' < 2 ^ 128" using small by simp
  qed
  from run obtain s1 f1 s2 f2 s3 where r: "camm_update_tick E s l (ci_current_tick i) change (ci_fee_growth_global_0 i) (ci_fee_growth_global_1 i) False = Inr (s1, f1)"
    "camm_update_tick E s1 h (ci_current_tick i) change (ci_fee_growth_global_0 i) (ci_fee_growth_global_1 i) True = Inr (s2, f2)"
    "(if f1 then camm_flip_tick_bitmap s2 l ?d else Inr s2) = (Inr s3 :: camm camm_res)"
    "(if f2 then camm_flip_tick_bitmap s3 h ?d else Inr s3) = (Inr s' :: camm camm_res)"
    by (auto simp: update_range_def)
  have g1: "gross_of (ca_ticks s) l + change = pos_sum (touches l) P'" using gross' [of l] by simp
  have pre1: "0 \<le> gross_of (ca_ticks s) l + change" "gross_of (ca_ticks s) l + change < 2 ^ 128" using bounds(2,3) [of l] unfolding g1 by auto
  from update_tick_Inr [OF r(1) E change bounds(1) pre1, unfolded g1 if_False] obtain t1 where
    t1: "s1 = s\<lparr>ca_ticks := t1\<rparr>" "gross_of t1 = (gross_of (ca_ticks s))(l := pos_sum (touches l) P')" "\<forall>q. q \<noteq> l \<longrightarrow> t1 q = ca_ticks s q"
      "t1 l = None \<longleftrightarrow> gross_of t1 l = 0" "t1 l \<noteq> None \<longrightarrow> net_of t1 l = net_of (ca_ticks s) l + change"
      "f1 = ((gross_of (ca_ticks s) l = 0) \<noteq> (gross_of t1 l = 0))"
    by (elim exE conjE, intro that) assumption+
  have cs1: "ca_ticks s1 = t1" using t1(1) by simp
  have h1: "gross_of t1 h = gross_of (ca_ticks s) h" "net_of t1 h = net_of (ca_ticks s) h"
    using t1(2,3) lh(1) by (simp_all add: net_of_def)
  have g2: "gross_of (ca_ticks s) h + change = pos_sum (touches h) P'" using gross' [of h] by simp
  have pre2: "0 \<le> gross_of (ca_ticks s1) h" "0 \<le> gross_of (ca_ticks s1) h + change" "gross_of (ca_ticks s1) h + change < 2 ^ 128"
    using bounds [of h] unfolding cs1 h1 g2 by auto
  from update_tick_Inr [OF r(2) E change pre2, unfolded cs1 h1 g2 if_True] obtain t2 where
    t2: "s2 = s1\<lparr>ca_ticks := t2\<rparr>" "gross_of t2 = (gross_of t1)(h := pos_sum (touches h) P')" "\<forall>q. q \<noteq> h \<longrightarrow> t2 q = t1 q"
      "t2 h = None \<longleftrightarrow> gross_of t2 h = 0" "t2 h \<noteq> None \<longrightarrow> net_of t2 h = net_of (ca_ticks s) h + - change"
      "f2 = ((gross_of (ca_ticks s) h = 0) \<noteq> (gross_of t2 h = 0))"
    by (elim exE conjE, intro that) assumption+
  have lneh: "l \<noteq> h" using lh(1) by simp
  have gr: "gross_of t2 t = pos_sum (touches t) P'" for t using t1(2) t2(2) gross' [of t] by auto
  have st: "t2 t \<noteq> None \<longleftrightarrow> 0 < gross_of t2 t" for t
  proof (cases "t = h \<or> t = l")
    case True
    with t1(3,4) t2(2-4) lneh gr bounds(2) show ?thesis by (metis fun_upd_other less_le order_less_irrefl)
  next
    case False
    with t1(2,3) t2(2,3) tick_booksD(6) [OF b, of t] show ?thesis by simp
  qed
  have net: "net_of t2 t = pos_sum (enters t) P'" for t
  proof (cases "t2 t = None")
    case True
    with st [of t] bounds(2) [of t] gr [of t] have "pos_sum (touches t) P' = 0" by auto
    from enters_zero [OF liq' fin' this] True show ?thesis by (simp add: net_of_def)
  next
    case False
    have "net_of t2 t = net_of (ca_ticks s) t + (if t = l then change else if t = h then - change else 0)"
    proof (cases "t = h")
      case True
      with False t2(5) lneh show ?thesis by simp
    next
      case ne: False
      then have same: "t2 t = t1 t" using t2(3) by simp
      show ?thesis
      proof (cases "t = l")
        case True
        with False same t1(5) show ?thesis by (simp add: net_of_def)
      next
        case False
        with same ne t1(3) show ?thesis by (simp add: net_of_def)
      qed
    qed
    also have "\<dots> = pos_sum (enters t) P'"
      using sum' [of "enters t"] tick_booksD(5) [OF b, of t] P'(2) lneh by (auto simp: enters_def)
    finally show ?thesis .
  qed
  have m3: "\<exists>bm. s3 = s2\<lparr>ca_bitmap := bm\<rparr> \<and> (\<forall>k. marked bm k \<longleftrightarrow> marked (ca_bitmap s2) k \<noteq> (f1 \<and> k * ?d = l))"
    using r(3) flip_marked [OF _ d lh(4,2), of s2 s3] by (cases f1) (auto intro: exI [of _ "ca_bitmap s2"])
  then obtain bm3 where bm3: "s3 = s2\<lparr>ca_bitmap := bm3\<rparr>" "\<forall>k. marked bm3 k \<longleftrightarrow> marked (ca_bitmap s2) k \<noteq> (f1 \<and> k * ?d = l)" by blast
  have m4: "\<exists>bm. s' = s3\<lparr>ca_bitmap := bm\<rparr> \<and> (\<forall>k. marked bm k \<longleftrightarrow> marked bm3 k \<noteq> (f2 \<and> k * ?d = h))"
    using r(4) bm3(1) flip_marked [OF _ d lh(5,3), of s3 s'] by (cases f2) (auto intro: exI [of _ "ca_bitmap s3"])
  then obtain bm where bm: "s' = s3\<lparr>ca_bitmap := bm\<rparr>" "\<forall>k. marked bm k \<longleftrightarrow> marked bm3 k \<noteq> (f2 \<and> k * ?d = h)" by blast
  have mark: "marked bm c \<longleftrightarrow> t2 (c * ?d) \<noteq> None" for c
  proof -
    have old: "marked (ca_bitmap s2) c \<longleftrightarrow> 0 < gross_of (ca_ticks s) (c * ?d)"
      using t1(1) t2(1) tick_booksD(6,7) [OF b] by simp
    have "marked bm c \<longleftrightarrow> marked (ca_bitmap s2) c \<noteq> (f1 \<and> c * ?d = l \<or> f2 \<and> c * ?d = h)"
      using bm(2) bm3(2) lneh by auto
    then show ?thesis unfolding st old t1(6) t2(6)
      using t1(2) t2(2) lneh bounds(1,2) [of "c * ?d"] gr [of "c * ?d"] gross' [of "c * ?d"]
      by (cases "c * ?d = l"; cases "c * ?d = h") auto
  qed
  have "tick_books ?d bm t2 P'" using fin' liq' dom' gr net st mark unfolding tick_books_def by blast
  moreover have "s' = s\<lparr>ca_ticks := t2, ca_bitmap := bm\<rparr>" using bm(1) bm3(1) t1(1) t2(1) by simp
  ultimately show ?thesis by blast
qed

end
