(* ===== verification/ConcentratedCalls.thy ===== *)
theory ConcentratedCalls
  imports ConcentratedBooks
begin

text \<open>
  The calls of the concentrated pool: what a completed call did to ticks, bitmap, positions and active liquidity, and
  that every call keeps the accounts in agreement.
\<close>

section \<open>Calls\<close>

datatype camm_op =
    KInitialize address address int int int int
  | KMint address int int int int
  | KBurn address int int int
  | KCollect address int int
  | KSwap address bool int

text \<open>The value of a call is the liquidity it minted.\<close>

fun camm_exec :: "'w token_xfer \<Rightarrow> env \<Rightarrow> camm \<times> 'w \<Rightarrow> camm_op \<Rightarrow> ((camm \<times> 'w) \<times> int) camm_res" where
  "camm_exec xfer E (s, w) (KInitialize a b fee d p t) = rbind (camm_initialize s a b fee d p t) (\<lambda>s'. Inr ((s', w), 0))"
| "camm_exec xfer E sw (KMint u l h a b) = rbind (camm_mint xfer E sw u l h a b) (\<lambda>(sw', n, a', b'). Inr (sw', n))"
| "camm_exec xfer E sw (KBurn u l h n) = rbind (camm_burn xfer E sw u l h n) (\<lambda>(sw', r). Inr (sw', 0))"
| "camm_exec xfer E sw (KCollect u l h) = rbind (camm_collect_fees xfer E sw u l h) (\<lambda>(sw', r). Inr (sw', 0))"
| "camm_exec xfer E sw (KSwap u z n) = rbind (camm_swap xfer E sw u z n) (\<lambda>(sw', r). Inr (sw', 0))"

text \<open>The same calls with a meter of all liquidity ever minted.\<close>

definition camm_metered :: "'w token_xfer \<Rightarrow> env \<Rightarrow> (camm \<times> 'w) \<times> int \<Rightarrow> camm_op \<Rightarrow> (((camm \<times> 'w) \<times> int) \<times> int) camm_res" where
  "camm_metered xfer E swn c = rbind (camm_exec xfer E (fst swn) c) (\<lambda>(sw, n). Inr ((sw, snd swn + n), n))"

text \<open>Arguments of unsigned type are not negative.\<close>

fun camm_args :: "env \<Rightarrow> camm_op \<Rightarrow> bool" where
  "camm_args E (KBurn u l h n) \<longleftrightarrow> overflow_checks E \<and> 0 \<le> n"
| "camm_args E c \<longleftrightarrow> overflow_checks E"

section \<open>What a call did\<close>

lemma accrue_fees_liquidity: "accrue_fees E pos inside = Inr pos' \<Longrightarrow> po_liquidity pos' = po_liquidity pos"
  by (auto simp: accrue_fees_def)

lemma check_range_Inr:
  assumes "check_range d l h = Inr ()" "0 < d"
  shows "l < h \<and> l mod d = 0 \<and> h mod d = 0 \<and> MIN_TICK \<le> l \<and> h \<le> MAX_TICK"
  using assms by (auto simp: check_range_def rem_i32_def tmod_zero_iff not_le not_less split: if_splits)

lemma tick_bounds: "l < h \<Longrightarrow> MIN_TICK \<le> l \<Longrightarrow> h \<le> MAX_TICK \<Longrightarrow> in_range I32 l \<and> in_range I32 h"
  by (simp add: MIN_TICK_def MAX_TICK_def in_range_def)

lemma liquidity_for_range: "liquidity_for_0 x y n = Inr q \<Longrightarrow> in_range U128 q" "liquidity_for_1 x y n = Inr q \<Longrightarrow> in_range U128 q"
  by (auto simp: liquidity_for_0_def liquidity_for_1_def dest: cm_mul_div_range)

lemma mint_amounts_range:
  assumes "mint_amounts p ra rb a b = Inr (n, x, y)"
  shows "in_range U128 n"
proof -
  consider "liquidity_for_0 ra rb a = Inr n" | "liquidity_for_1 ra rb b = Inr n"
    | l1 l2 where "liquidity_for_0 p rb a = Inr l1" "liquidity_for_1 ra p b = Inr l2" "n = (if l1 < l2 then l1 else l2)"
    using assms by (auto simp: mint_amounts_def Let_def split: if_splits)
  then show ?thesis by cases (auto dest: liquidity_for_range)
qed

lemma update_tick_other: "camm_update_tick E s t c n f0 f1 upper = Inr (s', f) \<Longrightarrow> \<exists>ticks. s' = s\<lparr>ca_ticks := ticks\<rparr>"
  unfolding camm_update_tick_def Let_def by auto

lemma flip_other: "camm_flip_tick_bitmap s t d = Inr s' \<Longrightarrow> \<exists>bm. s' = s\<lparr>ca_bitmap := bm\<rparr>"
  unfolding camm_flip_tick_bitmap_def Let_def by auto

lemma update_range_other:
  assumes "update_range E s i l h change = Inr s'"
  shows "ca_positions s' = ca_positions s \<and> ca_inst s' = ca_inst s"
proof -
  from assms obtain s1 f1 s2 f2 s3 where "camm_update_tick E s l (ci_current_tick i) change (ci_fee_growth_global_0 i) (ci_fee_growth_global_1 i) False = Inr (s1, f1)"
    "camm_update_tick E s1 h (ci_current_tick i) change (ci_fee_growth_global_0 i) (ci_fee_growth_global_1 i) True = Inr (s2, f2)"
    "(if f1 then camm_flip_tick_bitmap s2 l (ci_tick_spacing i) else Inr s2) = (Inr s3 :: camm camm_res)"
    "(if f2 then camm_flip_tick_bitmap s3 h (ci_tick_spacing i) else Inr s3) = (Inr s' :: camm camm_res)"
    by (auto simp: update_range_def)
  then show ?thesis by (auto dest!: update_tick_other flip_other split: if_splits)
qed

lemma active_after_Inr:
  "active_after E i l h n = Inr c \<Longrightarrow> overflow_checks E \<Longrightarrow> c = ci_liquidity i + n * covers (ci_current_tick i) (u, l, h)"
  by (auto simp: active_after_def covers_def split: if_splits)

lemma store_minted_Inr:
  assumes "store_minted E s i u l h n = Inr s'" "overflow_checks E"
  shows "\<exists>pos. po_liquidity pos = liq_of (ca_positions s) (u, l, h) + n
    \<and> s' = s\<lparr>ca_positions := (ca_positions s)((u, l, h) \<mapsto> pos),
         ca_inst := Some (i\<lparr>ci_liquidity := ci_liquidity i + n * covers (ci_current_tick i) (u, l, h)\<rparr>)\<rparr>"
proof -
  let ?in = "inside_growth s i l h"
  let ?new = "\<lparr>po_liquidity = 0, po_fee_growth_inside_0_last = fst ?in, po_fee_growth_inside_1_last = snd ?in, po_tokens_owed_0 = 0, po_tokens_owed_1 = 0\<rparr>"
  from assms obtain pos1 liq active where a: "accrue_fees E (get_or (ca_positions s) (u, l, h) ?new) ?in = Inr pos1"
    "liq = po_liquidity pos1 + n" "active_after E i l h n = Inr active"
    "s' = s\<lparr>ca_positions := (ca_positions s)((u, l, h) \<mapsto> pos1\<lparr>po_liquidity := liq\<rparr>), ca_inst := Some (i\<lparr>ci_liquidity := active\<rparr>)\<rparr>"
    unfolding store_minted_def Let_def by auto
  have "po_liquidity pos1 = liq_of (ca_positions s) (u, l, h)"
    using accrue_fees_liquidity [OF a(1)] by (simp add: liq_of_def get_or_def split: option.splits)
  with a(2,4) active_after_Inr [OF a(3) assms(2), of u] show ?thesis by (intro exI [of _ "pos1\<lparr>po_liquidity := liq\<rparr>"]) simp
qed

lemma store_burned_Inr:
  assumes "store_burned E s i u l h pos n = Inr s'" "overflow_checks E" "ca_positions s (u, l, h) = Some pos"
  shows "\<exists>P. s' = s\<lparr>ca_positions := P\<rparr> \<and> (\<forall>k. k \<noteq> (u, l, h) \<longrightarrow> P k = ca_positions s k)
    \<and> liq_of P (u, l, h) = liq_of (ca_positions s) (u, l, h) - n"
proof -
  from assms obtain pos1 where a: "accrue_fees E pos (inside_growth s i l h) = Inr pos1"
    and s': "s' = s\<lparr>ca_positions := (ca_positions s)((u, l, h) := if po_liquidity pos1 - n = 0 \<and> po_tokens_owed_0 pos1 = 0 \<and> po_tokens_owed_1 pos1 = 0
        then None else Some (pos1\<lparr>po_liquidity := po_liquidity pos1 - n\<rparr>))\<rparr>"
    unfolding store_burned_def Let_def by auto
  from accrue_fees_liquidity [OF a] assms(3) s' show ?thesis by (auto simp: liq_of_def)
qed

lemma camm_mint_Inr:
  assumes "camm_mint xfer E (s, w) u l h a b = Inr ((s', w'), n, x, y)" "overflow_checks E"
  obtains i ra rb s1 pos where "u \<in> set (auths E)" "ca_inst s = Some i" "check_range (ci_tick_spacing i) l h = Inr ()"
    "get_sqrt_ratio_at_tick E l = Inr ra" "get_sqrt_ratio_at_tick E h = Inr rb"
    "mint_amounts (ci_current_sqrt_price i) ra rb a b = Inr (n, x, y)" "n \<noteq> 0" "in_range U128 n"
    "send_both xfer E i u (this_contract E) x y w = Inr w'"
    "update_range E s i l h (wrap I128 n) = Inr s1" "po_liquidity pos = liq_of (ca_positions s) (u, l, h) + n"
    "s' = s1\<lparr>ca_positions := (ca_positions s)((u, l, h) \<mapsto> pos),
       ca_inst := Some (i\<lparr>ci_liquidity := ci_liquidity i + n * covers (ci_current_tick i) (u, l, h)\<rparr>)\<rparr>"
proof -
  from assms(1) obtain i ra rb s1 where a: "u \<in> set (auths E)" "ca_inst s = Some i" "check_range (ci_tick_spacing i) l h = Inr ()"
    "get_sqrt_ratio_at_tick E l = Inr ra" "get_sqrt_ratio_at_tick E h = Inr rb"
    "mint_amounts (ci_current_sqrt_price i) ra rb a b = Inr (n, x, y)" "n \<noteq> 0"
    "send_both xfer E i u (this_contract E) x y w = Inr w'"
    "update_range E s i l h (wrap I128 n) = Inr s1" and p: "store_minted E s1 i u l h n = Inr s'"
    unfolding camm_mint_def Let_def by auto
  from store_minted_Inr [OF p assms(2)] update_range_other [OF a(9)] obtain pos where
    "po_liquidity pos = liq_of (ca_positions s) (u, l, h) + n"
    "s' = s1\<lparr>ca_positions := (ca_positions s)((u, l, h) \<mapsto> pos),
         ca_inst := Some (i\<lparr>ci_liquidity := ci_liquidity i + n * covers (ci_current_tick i) (u, l, h)\<rparr>)\<rparr>" by auto
  from that [OF a(1-7) mint_amounts_range [OF a(6)] a(8,9) this] show ?thesis .
qed

lemma camm_burn_Inr:
  assumes "camm_burn xfer E (s, w) u l h n = Inr ((s', w'), x, y)" "overflow_checks E"
  obtains i ra rb P s2 pos where "u \<in> set (auths E)" "ca_inst s = Some i" "l < h" "MIN_TICK \<le> l" "h \<le> MAX_TICK"
    "ca_positions s (u, l, h) = Some pos" "n \<le> po_liquidity pos"
    "get_sqrt_ratio_at_tick E l = Inr ra" "get_sqrt_ratio_at_tick E h = Inr rb" "burn_amounts i l h ra rb n = Inr (x, y)"
    "\<forall>k. k \<noteq> (u, l, h) \<longrightarrow> P k = ca_positions s k" "liq_of P (u, l, h) = liq_of (ca_positions s) (u, l, h) - n"
    "update_range E (s\<lparr>ca_positions := P\<rparr>) i l h (- wrap I128 n) = Inr s2" "send_both xfer E i (this_contract E) u x y w = Inr w'"
    "s' = s2\<lparr>ca_inst := Some (i\<lparr>ci_liquidity := ci_liquidity i - n * covers (ci_current_tick i) (u, l, h)\<rparr>)\<rparr>"
proof -
  from assms obtain i ra rb s1 s2 pos active where a: "u \<in> set (auths E)" "ca_inst s = Some i" "check_stored_range l h = Inr ()"
    "ca_positions s (u, l, h) = Some pos" "n \<le> po_liquidity pos"
    "get_sqrt_ratio_at_tick E l = Inr ra" "get_sqrt_ratio_at_tick E h = Inr rb" "burn_amounts i l h ra rb n = Inr (x, y)"
    "store_burned E s i u l h pos n = Inr s1" "update_range E s1 i l h (- wrap I128 n) = Inr s2" "active_after E i l h (- n) = Inr active"
    "send_both xfer E i (this_contract E) u x y w = Inr w'" "s' = s2\<lparr>ca_inst := Some (i\<lparr>ci_liquidity := active\<rparr>)\<rparr>"
    unfolding camm_burn_def Let_def by (auto simp: not_less)
  have r: "l < h" "MIN_TICK \<le> l" "h \<le> MAX_TICK" using a(3) by (auto simp: check_stored_range_def split: if_splits)
  from store_burned_Inr [OF a(9) assms(2) a(4)] obtain P where p: "s1 = s\<lparr>ca_positions := P\<rparr>" "\<forall>k. k \<noteq> (u, l, h) \<longrightarrow> P k = ca_positions s k"
    "liq_of P (u, l, h) = liq_of (ca_positions s) (u, l, h) - n" by blast
  from active_after_Inr [OF a(11) assms(2), of u] have "active = ci_liquidity i - n * covers (ci_current_tick i) (u, l, h)" by simp
  with that [OF a(1,2) r a(4-8) p(2,3)] a(10,12,13) p(1) show ?thesis by simp
qed

lemma camm_collect_Inr:
  assumes "camm_collect_fees xfer E (s, w) u l h = Inr ((s', w'), x, y)"
  obtains P where "ca_positions s (u, l, h) \<noteq> None" "s' = s\<lparr>ca_positions := P\<rparr>" "\<forall>k. k \<noteq> (u, l, h) \<longrightarrow> P k = ca_positions s k"
    "liq_of P (u, l, h) = liq_of (ca_positions s) (u, l, h)"
proof -
  from assms obtain i pos pos1 where a: "ca_positions s (u, l, h) = Some pos" "accrue_fees E pos (inside_growth s i l h) = Inr pos1"
    "s' = s\<lparr>ca_positions := (ca_positions s)((u, l, h) := if po_liquidity pos1 = 0 then None
       else Some (pos1\<lparr>po_tokens_owed_0 := 0, po_tokens_owed_1 := 0\<rparr>))\<rparr>"
    unfolding camm_collect_fees_def Let_def by auto
  let ?P = "(ca_positions s)((u, l, h) := if po_liquidity pos1 = 0 then None else Some (pos1\<lparr>po_tokens_owed_0 := 0, po_tokens_owed_1 := 0\<rparr>))"
  have "liq_of ?P (u, l, h) = liq_of (ca_positions s) (u, l, h)" using accrue_fees_liquidity [OF a(2)] a(1) by (simp add: liq_of_def)
  with a show ?thesis by (intro that [of ?P]) auto
qed

definition swap_start :: "camm \<Rightarrow> camm_instance \<Rightarrow> int \<Rightarrow> swap_state" where
  "swap_start s i n = \<lparr>ss_sqrt_price = ci_current_sqrt_price i, ss_tick = ci_current_tick i, ss_liquidity = ci_liquidity i,
     ss_fg0 = ci_fee_growth_global_0 i, ss_fg1 = ci_fee_growth_global_1 i, ss_remaining = n, ss_in = 0, ss_out = 0, ss_ticks = ca_ticks s\<rparr>"

lemma camm_swap_Inr:
  assumes "camm_swap xfer E (s, w) u z n = Inr ((s', w'), a, b)"
  obtains i st go w1 where "u \<in> set (auths E)" "ca_inst s = Some i"
    "swap_loop E (ca_bitmap s) (ci_fee_bps i) (ci_tick_spacing i) z (swap_start s i n) = Some (Inr (st, go))"
    "xfer E (if z then ci_token_a i else ci_token_b i) u (this_contract E) (wrap I128 (ss_in st)) w = Some w1"
    "xfer E (if z then ci_token_b i else ci_token_a i) (this_contract E) u (wrap I128 (ss_out st)) w1 = Some w'"
    "a = ss_in st" "b = ss_out st"
    "s' = s\<lparr>ca_ticks := ss_ticks st, ca_inst := Some (i\<lparr>ci_current_sqrt_price := ss_sqrt_price st, ci_current_tick := ss_tick st,
       ci_liquidity := ss_liquidity st, ci_fee_growth_global_0 := ss_fg0 st, ci_fee_growth_global_1 := ss_fg1 st\<rparr>)\<rparr>"
  using assms unfolding camm_swap_def Let_def swap_start_def by (auto split: option.splits)

section \<open>The accounts after any calls\<close>

definition inst_books :: "camm \<Rightarrow> camm_instance \<Rightarrow> int \<Rightarrow> bool" where
  "inst_books s i n \<longleftrightarrow> tick_books (ci_tick_spacing i) (ca_bitmap s) (ca_ticks s) (ca_positions s)
     \<and> ci_liquidity i = pos_sum (covers (ci_current_tick i)) (ca_positions s) \<and> pos_sum (\<lambda>k. 1) (ca_positions s) \<le> n
     \<and> in_range I32 (ci_current_tick i)"

definition camm_books :: "camm \<Rightarrow> int \<Rightarrow> bool" where
  "camm_books s n \<longleftrightarrow> 0 \<le> n \<and> (ca_inst s = None \<longrightarrow> s = empty_camm)
     \<and> (\<forall>i. ca_inst s = Some i \<longrightarrow> 0 < ci_tick_spacing i \<longrightarrow> n < 2 ^ 127 \<longrightarrow> inst_books s i n)"

lemma tick_books_positions:
  assumes b: "tick_books d bm ticks P" and "\<And>j. j \<noteq> (u, l, h) \<Longrightarrow> P' j = P j" "liq_of P' (u, l, h) = liq_of P (u, l, h)" "P (u, l, h) \<noteq> None"
  shows "tick_books d bm ticks P' \<and> pos_sum f P' = pos_sum f P"
proof -
  have "pos_sum g P' = pos_sum g P + g (u, l, h) * (liq_of P' (u, l, h) - liq_of P (u, l, h))" for g
    by (rule pos_sum_change [OF tick_booksD(1) [OF b] assms(2)])
  then have s: "pos_sum g P' = pos_sum g P" for g using assms(3) by simp
  have "finite (dom P')" by (rule finite_subset [of _ "insert (u, l, h) (dom P)"]) (use assms(2) tick_booksD(1) [OF b] in \<open>auto simp: domIff\<close>)
  moreover have "\<forall>k. 0 \<le> liq_of P' k" using assms(2,3) tick_booksD(2) [OF b] by (metis liq_of_def)
  moreover have "\<forall>v a c. P' (v, a, c) \<noteq> None \<longrightarrow> a < c \<and> a mod d = 0 \<and> c mod d = 0"
    using assms(2,4) tick_booksD(3) [OF b] by metis
  ultimately show ?thesis using b unfolding tick_books_def s by blast
qed

lemma inst_books_mint:
  assumes i: "inst_books s i n" "0 < ci_tick_spacing i" "n + m < 2 ^ 127" "0 \<le> m" and E: "overflow_checks E"
    and r: "check_range (ci_tick_spacing i) l h = Inr ()" "update_range E s i l h (wrap I128 m) = Inr s1"
    and s': "po_liquidity pos = liq_of (ca_positions s) (u, l, h) + m"
      "s' = s1\<lparr>ca_positions := (ca_positions s)((u, l, h) \<mapsto> pos), ca_inst := Some i'\<rparr>"
      "i' = i\<lparr>ci_liquidity := ci_liquidity i + m * covers (ci_current_tick i) (u, l, h)\<rparr>"
  shows "inst_books s' i' (n + m)"
proof -
  let ?P = "(ca_positions s)((u, l, h) \<mapsto> pos)"
  have b: "tick_books (ci_tick_spacing i) (ca_bitmap s) (ca_ticks s) (ca_positions s)" and tot: "pos_sum (\<lambda>k. 1) (ca_positions s) \<le> n"
    using i(1) by (simp_all add: inst_books_def)
  note lh = check_range_Inr [OF r(1) i(2)]
  have t: "in_range I32 l" "in_range I32 h" using tick_bounds lh by blast+
  have "0 \<le> pos_sum (\<lambda>k. 1) (ca_positions s)" using tick_booksD(2) [OF b] by (intro pos_sum_nonneg) auto
  then have n0: "0 \<le> n" using tot by simp
  have w: "wrap I128 m = m" using i(3,4) n0 by (intro wrap_id) (simp add: in_range_def)
  have liq: "liq_of ?P (u, l, h) = liq_of (ca_positions s) (u, l, h) + m" "0 \<le> liq_of ?P (u, l, h)"
    using s'(1) i(4) tick_booksD(2) [OF b] by (simp_all add: liq_of_def)
  have sum: "pos_sum f ?P = pos_sum f (ca_positions s) + f (u, l, h) * m" for f
    using pos_sum_change [OF tick_booksD(1) [OF b], of "(u, l, h)" ?P f] liq(1) by simp
  have small: "pos_sum (\<lambda>k. 1) ?P < 2 ^ 127" using sum [of "\<lambda>k. 1"] tot i(3) by simp
  have m: "- (2 ^ 127) < m" "m < 2 ^ 127" using i(3,4) n0 by simp_all
  from update_range_books [OF r(2) [unfolded w] E i(2) b _ _ _ t m _ liq small] lh obtain bm ticks where
    "s1 = s\<lparr>ca_ticks := ticks, ca_bitmap := bm\<rparr>" "tick_books (ci_tick_spacing i) bm ticks ?P" by auto
  then show ?thesis using i(1) s'(2,3) sum [of "\<lambda>k. 1"] sum [of "covers (ci_current_tick i)"] tot
    by (simp add: inst_books_def mult.commute)
qed

lemma inst_books_burn:
  assumes i: "inst_books s i n" "0 < ci_tick_spacing i" "n < 2 ^ 127" "0 \<le> m" and E: "overflow_checks E"
    and r: "l < h" "MIN_TICK \<le> l" "h \<le> MAX_TICK" "ca_positions s (u, l, h) = Some pos" "m \<le> po_liquidity pos"
    and P: "\<forall>k. k \<noteq> (u, l, h) \<longrightarrow> P k = ca_positions s k" "liq_of P (u, l, h) = liq_of (ca_positions s) (u, l, h) - m"
    and s': "update_range E (s\<lparr>ca_positions := P\<rparr>) i l h (- wrap I128 m) = Inr s2" "s' = s2\<lparr>ca_inst := Some i'\<rparr>"
      "i' = i\<lparr>ci_liquidity := ci_liquidity i - m * covers (ci_current_tick i) (u, l, h)\<rparr>"
  shows "inst_books s' i' n"
proof -
  let ?s = "s\<lparr>ca_positions := P\<rparr>"
  have b: "tick_books (ci_tick_spacing i) (ca_bitmap ?s) (ca_ticks ?s) (ca_positions s)" and tot: "pos_sum (\<lambda>k. 1) (ca_positions s) \<le> n"
    using i(1) by (simp_all add: inst_books_def)
  have t: "in_range I32 l" "in_range I32 h" using tick_bounds [OF r(1-3)] by blast+
  have lh: "l mod ci_tick_spacing i = 0" "h mod ci_tick_spacing i = 0" using tick_booksD(3) [OF b, of u l h] r(4) by auto
  have one: "po_liquidity pos \<le> pos_sum (\<lambda>k. 1) (ca_positions s)"
    using pos_sum_ge [OF tick_booksD(1) [OF b], of "\<lambda>k. 1" "(u, l, h)"] tick_booksD(2) [OF b] r(4) by (simp add: liq_of_def)
  have m: "m < 2 ^ 127" using one r(5) tot i(3) by simp
  have w: "wrap I128 m = m" using m i(4) by (intro wrap_id) (simp add: in_range_def)
  have liq: "liq_of P (u, l, h) = liq_of (ca_positions s) (u, l, h) + - m" "0 \<le> liq_of P (u, l, h)"
    using P(2) r(4,5) by (simp_all add: liq_of_def)
  have P1: "\<And>k. k \<noteq> (u, l, h) \<Longrightarrow> P k = ca_positions s k" using P(1) by blast
  have "pos_sum f P = pos_sum f (ca_positions s) + f (u, l, h) * (liq_of P (u, l, h) - liq_of (ca_positions s) (u, l, h))" for f
    by (rule pos_sum_change [OF tick_booksD(1) [OF b] P1])
  then have sum: "pos_sum f P = pos_sum f (ca_positions s) - f (u, l, h) * m" for f using liq(1) by simp
  have small: "pos_sum (\<lambda>k. 1) P < 2 ^ 127" using sum [of "\<lambda>k. 1"] tot i(3,4) by simp
  have m': "- (2 ^ 127) < - m" "- m < 2 ^ 127" using m i(4) by simp_all
  from update_range_books [OF s'(1) [unfolded w] E i(2) b r(1) lh t m' P1 liq small] obtain bm ticks where
    "s2 = ?s\<lparr>ca_ticks := ticks, ca_bitmap := bm\<rparr>" "tick_books (ci_tick_spacing i) bm ticks P" by auto
  then show ?thesis using i(1,4) s'(2,3) sum [of "\<lambda>k. 1"] sum [of "covers (ci_current_tick i)"] tot
    by (simp add: inst_books_def mult.commute)
qed

lemma inst_books_swap:
  assumes i: "inst_books s i n" "0 < ci_tick_spacing i" "n < 2 ^ 127" and E: "overflow_checks E"
    and run: "swap_loop E (ca_bitmap s) (ci_fee_bps i) (ci_tick_spacing i) z (swap_start s i k) = Some (Inr (st, go))"
    and s': "s' = s\<lparr>ca_ticks := ss_ticks st, ca_inst := Some i'\<rparr>"
      "i' = i\<lparr>ci_current_sqrt_price := ss_sqrt_price st, ci_current_tick := ss_tick st,
       ci_liquidity := ss_liquidity st, ci_fee_growth_global_0 := ss_fg0 st, ci_fee_growth_global_1 := ss_fg1 st\<rparr>"
  shows "inst_books s' i' n"
proof -
  have "swap_books (ci_tick_spacing i) (ca_bitmap s) (ca_positions s) (swap_start s i k)"
    using i(1) by (simp add: swap_books_def swap_start_def inst_books_def)
  moreover have "pos_sum (\<lambda>k. 1) (ca_positions s) < 2 ^ 127" using i(1,3) by (simp add: inst_books_def)
  ultimately have "swap_books (ci_tick_spacing i) (ca_bitmap s) (ca_positions s) st" by (rule swap_loop_books [OF run _ _ E i(2)])
  with i(1) s' show ?thesis by (simp add: swap_books_def inst_books_def)
qed

lemma camm_books_live:
  "camm_books s n \<Longrightarrow> ca_inst s = Some i \<Longrightarrow> 0 < ci_tick_spacing i \<Longrightarrow> n < 2 ^ 127 \<Longrightarrow> inst_books s i n"
  by (simp add: camm_books_def)

lemma camm_metered_books:
  assumes s: "camm_books s n" and E: "camm_args E c" and run: "camm_metered xfer E ((s, w), n) c = Inr (((s', w'), n'), v)"
  shows "camm_books s' n'"
proof (cases c)
  case (KInitialize a b fee d p t)
  with run have "camm_initialize s a b fee d p t = Inr s'" "n' = n" by (auto simp: camm_metered_def)
  moreover from this have "s = empty_camm" using s by (auto simp: camm_initialize_def camm_books_def split: if_splits)
  ultimately show ?thesis using s
    by (auto simp: camm_initialize_def camm_books_def inst_books_def empty_camm_def tick_books_def pos_sum_def liq_of_def
        gross_of_def net_of_def marked_def in_range_def MIN_TICK_def MAX_TICK_def split: if_splits)
next
  case (KMint u l h a b)
  with run obtain x y where m: "camm_mint xfer E (s, w) u l h a b = Inr ((s', w'), v, x, y)" "n' = n + v" by (auto simp: camm_metered_def)
  have oc: "overflow_checks E" using E KMint by simp
  obtain i ra rb s1 pos where r: "ca_inst s = Some i" "check_range (ci_tick_spacing i) l h = Inr ()"
    "update_range E s i l h (wrap I128 v) = Inr s1" "in_range U128 v" and p: "po_liquidity pos = liq_of (ca_positions s) (u, l, h) + v"
    "s' = s1\<lparr>ca_positions := (ca_positions s)((u, l, h) \<mapsto> pos),
       ca_inst := Some (i\<lparr>ci_liquidity := ci_liquidity i + v * covers (ci_current_tick i) (u, l, h)\<rparr>)\<rparr>"
    by (rule camm_mint_Inr [OF m(1) oc], intro that) assumption+
  have v: "0 \<le> v" using r(4) by (simp add: in_range_def)
  show ?thesis unfolding camm_books_def
  proof (intro conjI impI allI)
    fix i' assume a: "ca_inst s' = Some i'" "0 < ci_tick_spacing i'" "n' < 2 ^ 127"
    then have i': "i' = i\<lparr>ci_liquidity := ci_liquidity i + v * covers (ci_current_tick i) (u, l, h)\<rparr>" using p(2) by simp
    then have b: "inst_books s i n" using camm_books_live [OF s r(1)] a(2,3) m(2) v by simp
    show "inst_books s' i' n'" unfolding m(2)
      by (rule inst_books_mint [OF b _ _ v oc r(2,3) p(1)]) (use a m(2) i' p(2) in simp_all)
  qed (use s v m(2) p(2) in \<open>auto simp: camm_books_def\<close>)
next
  case (KBurn u l h m)
  with run obtain x y where b: "camm_burn xfer E (s, w) u l h m = Inr ((s', w'), x, y)" "n' = n" by (auto simp: camm_metered_def)
  have oc: "overflow_checks E" and m: "0 \<le> m" using E KBurn by simp_all
  obtain i P s2 pos where r: "ca_inst s = Some i" "l < h" "MIN_TICK \<le> l" "h \<le> MAX_TICK"
    "ca_positions s (u, l, h) = Some pos" "m \<le> po_liquidity pos" "\<forall>k. k \<noteq> (u, l, h) \<longrightarrow> P k = ca_positions s k"
    "liq_of P (u, l, h) = liq_of (ca_positions s) (u, l, h) - m" "update_range E (s\<lparr>ca_positions := P\<rparr>) i l h (- wrap I128 m) = Inr s2"
    "s' = s2\<lparr>ca_inst := Some (i\<lparr>ci_liquidity := ci_liquidity i - m * covers (ci_current_tick i) (u, l, h)\<rparr>)\<rparr>"
    by (rule camm_burn_Inr [OF b(1) oc], intro that) assumption+
  show ?thesis unfolding camm_books_def
  proof (intro conjI impI allI)
    fix i' assume a: "ca_inst s' = Some i'" "0 < ci_tick_spacing i'" "n' < 2 ^ 127"
    then have i': "i' = i\<lparr>ci_liquidity := ci_liquidity i - m * covers (ci_current_tick i) (u, l, h)\<rparr>" using r(10) by simp
    then have bb: "inst_books s i n" using camm_books_live [OF s r(1)] a(2,3) b(2) by simp
    show "inst_books s' i' n'" unfolding b(2)
      by (rule inst_books_burn [OF bb _ _ m oc r(2-9)]) (use a b(2) i' r(10) in simp_all)
  qed (use s b(2) r(10) in \<open>auto simp: camm_books_def\<close>)
next
  case (KCollect u l h)
  with run obtain x y where b: "camm_collect_fees xfer E (s, w) u l h = Inr ((s', w'), x, y)" "n' = n" by (auto simp: camm_metered_def)
  from camm_collect_Inr [OF b(1)] obtain P where p: "ca_positions s (u, l, h) \<noteq> None" "s' = s\<lparr>ca_positions := P\<rparr>"
    "\<And>k. k \<noteq> (u, l, h) \<Longrightarrow> P k = ca_positions s k" "liq_of P (u, l, h) = liq_of (ca_positions s) (u, l, h)" by metis
  show ?thesis unfolding camm_books_def
  proof (intro conjI impI allI)
    fix i' assume a: "ca_inst s' = Some i'" "0 < ci_tick_spacing i'" "n' < 2 ^ 127"
    then have bb: "inst_books s i' n" using camm_books_live [OF s] p(2) b(2) by simp
    then have "tick_books (ci_tick_spacing i') (ca_bitmap s) (ca_ticks s) (ca_positions s)" by (simp add: inst_books_def)
    note t = tick_books_positions [OF this p(3,4,1)]
    from t [of "\<lambda>k. 1"] t [of "covers (ci_current_tick i')"] bb show "inst_books s' i' n'" by (simp add: inst_books_def p(2) b(2))
  qed (use s b(2) p in \<open>auto simp: camm_books_def empty_camm_def\<close>)
next
  case (KSwap u z m)
  with run obtain x y where b: "camm_swap xfer E (s, w) u z m = Inr ((s', w'), x, y)" "n' = n" by (auto simp: camm_metered_def)
  have oc: "overflow_checks E" using E KSwap by simp
  obtain i st go where r: "ca_inst s = Some i"
    "swap_loop E (ca_bitmap s) (ci_fee_bps i) (ci_tick_spacing i) z (swap_start s i m) = Some (Inr (st, go))"
    "s' = s\<lparr>ca_ticks := ss_ticks st, ca_inst := Some (i\<lparr>ci_current_sqrt_price := ss_sqrt_price st, ci_current_tick := ss_tick st,
       ci_liquidity := ss_liquidity st, ci_fee_growth_global_0 := ss_fg0 st, ci_fee_growth_global_1 := ss_fg1 st\<rparr>)\<rparr>"
    by (rule camm_swap_Inr [OF b(1)], intro that) assumption+
  show ?thesis unfolding camm_books_def
  proof (intro conjI impI allI)
    fix i' assume a: "ca_inst s' = Some i'" "0 < ci_tick_spacing i'" "n' < 2 ^ 127"
    then have i': "i' = i\<lparr>ci_current_sqrt_price := ss_sqrt_price st, ci_current_tick := ss_tick st,
       ci_liquidity := ss_liquidity st, ci_fee_growth_global_0 := ss_fg0 st, ci_fee_growth_global_1 := ss_fg1 st\<rparr>" using r(3) by simp
    then have bb: "inst_books s i n" using camm_books_live [OF s r(1)] a(2,3) b(2) by simp
    show "inst_books s' i' n'" unfolding b(2)
      by (rule inst_books_swap [OF bb _ _ oc r(2)]) (use a b(2) i' r(3) in simp_all)
  qed (use s b(2) r(3) in \<open>auto simp: camm_books_def\<close>)
qed

section \<open>Any calls\<close>

interpretation camm_accounts: contract_machine "camm_metered xfer" camm_args "\<lambda>swn. camm_books (fst (fst swn)) (snd swn)" for xfer
proof
  fix E c swn swn' v
  assume "camm_args E c" "camm_books (fst (fst swn)) (snd swn)" "camm_metered xfer E swn c = Inr (swn', v)"
  then show "camm_books (fst (fst swn')) (snd swn')"
    using camm_metered_books by (metis prod.exhaust_sel)
qed

lemma camm_books_empty: "camm_books empty_camm 0"
  by (simp add: camm_books_def empty_camm_def)

lemma camm_reached:
  assumes "\<forall>c \<in> set cs. camm_args (fst c) (snd c)"
    and "((s, w), n) = run_calls (camm_metered xfer) cs ((empty_camm, w0), 0)" "n < 2 ^ 127"
    and "ca_inst s = Some i" "0 < ci_tick_spacing i"
  shows "inst_books s i n"
proof -
  have "camm_books (fst (fst ((s, w), n))) (snd ((s, w), n))" unfolding assms(2)
    by (rule camm_accounts.run_inv) (use camm_books_empty assms(1) in simp_all)
  then show ?thesis using assms(3-5) by (simp add: camm_books_def)
qed

end
