(* ===== verification/ConcentratedCosts.thy ===== *)
theory ConcentratedCosts
  imports ConcentratedCalls
begin

text \<open>
  What a swap of the concentrated pool takes, what a range costs and what it returns: the rounding of the amounts, and
  the round of a swap that finds no tick.
\<close>

section \<open>What a swap takes\<close>

lemma math_or_Inr: "math_or d r = Inr x \<longleftrightarrow> r = Inr x \<or> (x = d \<and> (\<exists>e. r = Inl (Err e)))"
  by (auto simp: math_or_def split: sum.splits fault.splits)

lemma amount_in_range: "amount_in_between z p q l = Inr x \<Longrightarrow> in_range U128 x"
  by (auto simp: amount_in_between_def get_amount_0_delta_def get_amount_1_delta_def Let_def dest: cm_mul_div_range split: if_splits)

text \<open>The input of a crossing together with its fee fits into what remains.\<close>

lemma fee_fits:
  assumes "a \<le> r * k div 10000" "0 < k" "k \<le> (10000 :: int)" "0 \<le> a"
  shows "a + a * (10000 - k) div k \<le> r"
proof -
  have "a * 10000 \<le> r * k div 10000 * 10000" using assms(1) by simp
  also have "\<dots> \<le> r * k" by (rule div_mult_le_int) simp
  finally have "a * 10000 \<le> r * k" .
  then have "a * 10000 div k \<le> r" using zdiv_mono1 [of "a * 10000" "r * k" k] assms(2) by simp
  moreover have "a * 10000 div k = (a * (10000 - k) + a * k) div k" by (simp add: algebra_simps)
  then have "a * 10000 div k = a * (10000 - k) div k + a" using assms(2) by simp
  ultimately show ?thesis by simp
qed

lemma trade_quote_paid:
  assumes "trade_quote E bitmap fee d z st = Inr tr" "overflow_checks E" "0 \<le> fee" "in_range U128 (ss_remaining st)"
  shows "0 \<le> tr_in tr + tr_fee tr \<and> tr_in tr + tr_fee tr \<le> ss_remaining st"
proof (cases "tr_crossed tr")
  case False
  then show ?thesis using assms(1,2,4) by (auto elim!: trade_quote_Inr simp: in_range_def)
next
  case True
  from assms(1,2) True obtain nx ini pn less max_in f where t: "fee \<le> 10000"
    "cm_mul_div (ss_remaining st) (10000 - fee) 10000 = Inr less"
    "math_or (ity_max U128) (amount_in_between z (ss_sqrt_price st) pn (ss_liquidity st)) = Inr max_in" "max_in \<le> less"
    "cm_mul_div max_in fee (10000 - fee) = Inr f" "tr_in tr = max_in" "tr_fee tr = f"
    by (auto simp: trade_quote_def in_range_def split: if_splits)
  have m: "in_range U128 max_in" using t(3) amount_in_range by (auto simp: math_or_Inr in_range_def)
  have k: "0 < 10000 - fee" using t(1,5) by (cases "fee = 10000") (auto simp: cm_mul_div_def)
  have l: "less = ss_remaining st * (10000 - fee) div 10000"
    using t(1,2) assms(3,4) by (auto simp: cm_mul_div_exact in_range_def split: if_splits)
  have f: "f = max_in * fee div (10000 - fee)" using t(1,5) m assms(3) k by (auto simp: cm_mul_div_exact in_range_def split: if_splits)
  have "max_in + max_in * (10000 - (10000 - fee)) div (10000 - fee) \<le> ss_remaining st"
    by (rule fee_fits) (use t(1,4) l m k assms(3) in \<open>auto simp: in_range_def\<close>)
  moreover have "0 \<le> f" unfolding f using m assms(3) k by (intro div_nonneg_int) (auto simp: in_range_def)
  ultimately show ?thesis using f t(6,7) m by (simp add: in_range_def)
qed

lemma swap_step_paid:
  assumes "swap_step E bitmap fee d z st = Inr (st', go)" "overflow_checks E" "0 \<le> fee" "in_range U128 (ss_remaining st)"
  shows "ss_in st' + ss_remaining st' = ss_in st + ss_remaining st \<and> in_range U128 (ss_remaining st')"
proof (cases "ss_liquidity st = 0")
  case True
  with assms(1) have "idle_step E bitmap d z st = Inr (st', go)" by (simp add: swap_step_def)
  then show ?thesis by (rule idle_step_Inr) (use assms(4) in auto)
next
  case False
  with assms(1) obtain tr st1 where tr: "trade_quote E bitmap fee d z st = Inr tr" "trade_totals E z tr st = Inr st1" "trade_cross E z tr st1 = Inr st'"
    by (auto simp: swap_step_def trade_step_def)
  from tr(2) assms(2) have "ss_in st1 = ss_in st + (tr_in tr + tr_fee tr)" "ss_remaining st1 = saturate U128 (ss_remaining st - (tr_in tr + tr_fee tr))"
    by (auto simp: trade_totals_def)
  moreover have "ss_in st' = ss_in st1" "ss_remaining st' = ss_remaining st1" using tr(3) by (auto simp: trade_cross_def split: if_splits)
  ultimately show ?thesis using trade_quote_paid [OF tr(1) assms(2-4)] assms(4) by (auto simp: saturate_def in_range_def)
qed

lemma swap_loop_paid:
  assumes "swap_loop E bitmap fee d z st = Some (Inr (st', go))" "overflow_checks E" "0 \<le> fee" "in_range U128 (ss_remaining st)"
  shows "ss_in st' + ss_remaining st' = ss_in st + ss_remaining st \<and> in_range U128 (ss_remaining st')"
  by (rule swap_loop_rule [OF assms(1), where P = "\<lambda>st'. ss_in st' + ss_remaining st' = ss_in st + ss_remaining st \<and> in_range U128 (ss_remaining st')"])
    (use assms(4) swap_step_paid [OF _ assms(2,3)] in auto)

text \<open>The rounds end with the input used up, or with no active liquidity and no tick to cross.\<close>

lemma swap_loop_end:
  assumes "swap_loop E bitmap fee d z st = Some (Inr (st', go))"
  shows "ss_remaining st' \<le> 0 \<or> ss_liquidity st' = 0"
proof -
  let ?c = "\<lambda>r. rbind r (\<lambda>(st, go). swap_step E bitmap fee d z st)"
  let ?Q = "\<lambda>r. \<forall>st. r = Inr (st, False) \<longrightarrow> ss_liquidity st = 0"
  have "ss_liquidity st1 = 0" if s: "swap_step E bitmap fee d z st0 = Inr (st1, False)" for st0 st1
  proof (cases "ss_liquidity st0 = 0")
    case True
    with s have "idle_step E bitmap d z st0 = Inr (st1, False)" by (simp add: swap_step_def)
    then show ?thesis by (rule idle_step_Inr) (use True in simp_all)
  qed (use s in \<open>auto simp: swap_step_def\<close>)
  then have step: "?Q (?c r)" if "?Q r" "loop_continues r" for r by auto
  have "?Q (Inr (st', go))"
    using while_option_rule [where P = ?Q, OF step assms [unfolded swap_loop_def]] by blast
  moreover have "\<not> loop_continues (Inr (st', go))" using while_option_stop [OF assms [unfolded swap_loop_def]] .
  ultimately show ?thesis by (cases go) (auto simp: loop_continues_def)
qed

section \<open>What a range costs and returns\<close>

lemma sqrt_ratio_small: "get_sqrt_ratio_at_tick E t = Inr r \<Longrightarrow> MIN_TICK \<le> t \<Longrightarrow> t \<le> MAX_TICK \<Longrightarrow> 0 < r \<and> r < 2 ^ 103"
  using sqrt_ratio_total [of t E] by auto

lemma cm_mul_div_Inr:
  "cm_mul_div a b d = Inr q \<Longrightarrow> in_range U128 a \<Longrightarrow> in_range U128 b \<Longrightarrow> 0 \<le> d \<Longrightarrow> d \<le> 2 ^ 127 \<Longrightarrow> 0 < d \<and> q = a * b div d \<and> 0 \<le> q"
  by (subst (asm) cm_mul_div_exact) (auto simp: in_range_def pos_imp_zdiv_nonneg_iff split: if_splits)

lemma amount_0_Inr:
  assumes "get_amount_0_delta p q n = Inr x" "in_range U128 n" "0 < p" "p \<le> q" "q \<le> 2 ^ 127"
  shows "x = (n * Q64 div q) * (q - p) div p"
proof -
  from assms obtain y where y: "cm_mul_div n Q64 q = Inr y" "cm_mul_div y (q - p) p = Inr x"
    by (auto simp: get_amount_0_delta_def Let_def split: if_splits)
  have "y = n * Q64 div q" using cm_mul_div_Inr [OF y(1)] assms by (simp add: in_range_def Q64_def)
  moreover have "x = y * (q - p) div p" using cm_mul_div_Inr [OF y(2) cm_mul_div_range [OF y(1)]] assms by (simp add: in_range_def)
  ultimately show ?thesis by simp
qed

lemma amount_1_Inr:
  assumes "get_amount_1_delta p q n = Inr x" "in_range U128 n" "0 < p" "p \<le> q" "q \<le> 2 ^ 127"
  shows "x = n * (q - p) div Q64"
proof -
  from assms have y: "cm_mul_div n (q - p) Q64 = Inr x" by (auto simp: get_amount_1_delta_def Let_def split: if_splits)
  show ?thesis using cm_mul_div_Inr [OF y] assms by (simp add: in_range_def Q64_def)
qed

lemma delta_sym: "get_amount_0_delta p q n = get_amount_0_delta q p n" "get_amount_1_delta p q n = get_amount_1_delta q p n"
  by (cases p q rule: linorder_cases; simp add: get_amount_0_delta_def get_amount_1_delta_def Let_def)+

lemma liquidity_for_0_Inr:
  assumes "liquidity_for_0 p q a = Inr n" "in_range U128 a" "0 < p" "p \<le> q" "q \<le> 2 ^ 127"
  shows "n * (q - p) * Q64 \<le> a * q * p"
proof -
  from assms obtain y z where y: "cm_mul_div a q Q64 = Inr y" "cm_mul_div y p Q64 = Inr z" "cm_mul_div z Q64 (q - p) = Inr n"
    by (auto simp: liquidity_for_0_def)
  have q: "Q64 = 2 ^ 64" by (simp add: Q64_def)
  have 1: "y = a * q div Q64" using cm_mul_div_Inr [OF y(1)] assms by (simp add: in_range_def Q64_def)
  have 2: "z = y * p div Q64" using cm_mul_div_Inr [OF y(2) cm_mul_div_range [OF y(1)]] assms by (simp add: in_range_def Q64_def)
  have 3: "0 < q - p \<and> n = z * Q64 div (q - p)"
    using cm_mul_div_Inr [OF y(3) cm_mul_div_range [OF y(2)]] assms by (simp add: in_range_def Q64_def)
  have "n * (q - p) \<le> z * Q64" using 3 by (simp add: div_mult_le_int)
  also have "\<dots> \<le> y * p" unfolding 2 by (rule div_mult_le_int) simp
  finally have "n * (q - p) * Q64 \<le> y * p * Q64" by simp
  also have "\<dots> = y * Q64 * p" by simp
  also have "\<dots> \<le> a * q * p" unfolding 1 using assms(3) by (intro mult_right_mono div_mult_le_int) simp_all
  finally show ?thesis .
qed

lemma liquidity_for_1_Inr:
  assumes "liquidity_for_1 p q b = Inr n" "in_range U128 b" "0 < p" "p \<le> q" "q \<le> 2 ^ 127"
  shows "n * (q - p) \<le> b * Q64"
proof -
  from assms have y: "cm_mul_div b Q64 (q - p) = Inr n" by (auto simp: liquidity_for_1_def split: if_splits)
  have "0 < q - p \<and> n = b * Q64 div (q - p)" using cm_mul_div_Inr [OF y] assms by (simp add: in_range_def Q64_def)
  then show ?thesis by (simp add: div_mult_le_int)
qed

text \<open>A range returns no more of one token than its liquidity cost in that token.\<close>

lemma range_0_returns:
  assumes "liquidity_for_0 p q a = Inr n" "get_amount_0_delta p q n = Inr x" "in_range U128 a" "0 < p" "p \<le> q" "q \<le> 2 ^ 127"
  shows "x \<le> a"
proof -
  have r: "in_range U128 n" using liquidity_for_range(1) [OF assms(1)] .
  note x = amount_0_Inr [OF assms(2) r assms(4-6)]
  have "x * p \<le> (n * Q64 div q) * (q - p)" unfolding x using assms(4) by (rule div_mult_le_int)
  then have "x * p * q \<le> (n * Q64 div q) * (q - p) * q" using assms(4,5) by (intro mult_right_mono) auto
  also have "\<dots> = (n * Q64 div q * q) * (q - p)" by simp
  also have "\<dots> \<le> n * Q64 * (q - p)" using assms(4,5) by (intro mult_right_mono div_mult_le_int) auto
  also have "\<dots> \<le> a * q * p" using liquidity_for_0_Inr [OF assms(1,3-6)] by (simp add: mult.commute mult.left_commute)
  finally have "x * (p * q) \<le> a * (p * q)" by (simp add: mult.commute mult.left_commute)
  then show ?thesis using assms(4,5) by (simp add: mult_le_cancel_right)
qed

lemma range_1_returns:
  assumes "liquidity_for_1 p q b = Inr n" "get_amount_1_delta p q n = Inr x" "in_range U128 b" "0 < p" "p \<le> q" "q \<le> 2 ^ 127"
  shows "x \<le> b"
proof -
  have r: "in_range U128 n" using liquidity_for_range(2) [OF assms(1)] .
  have "x \<le> b * Q64 div Q64" unfolding amount_1_Inr [OF assms(2) r assms(4-6)]
    by (rule zdiv_mono1 [OF liquidity_for_1_Inr [OF assms(1,3-6)]]) simp
  then show ?thesis by simp
qed

text \<open>The first round of a swap that finds no tick in its bitmap word.\<close>

lemma swap_single_round:
  assumes run: "swap_loop E bitmap fee d z st = Some (Inr (st', go))" and "overflow_checks E" "0 < ss_remaining st" "ss_liquidity st \<noteq> 0"
    and nx: "camm_next_initialized_tick E bitmap (ss_tick st) d z = Inr (t, False)"
  shows "\<exists>less. cm_mul_div (ss_remaining st) (10000 - fee) 10000 = Inr less \<and> ss_tick st' = ss_tick st \<and> ss_liquidity st' = ss_liquidity st
    \<and> ss_ticks st' = ss_ticks st \<and> get_next_sqrt_price_from_input (ss_sqrt_price st) (ss_liquidity st) less z = Inr (ss_sqrt_price st')
    \<and> ss_in st' = ss_in st + ss_remaining st"
proof -
  have go: "loop_continues (Inr (st, True))" using assms(3) by (simp add: loop_continues_def)
  have s: "swap_step E bitmap fee d z st = rbind (trade_step E bitmap fee d z st) (\<lambda>st'. Inr (st', True))" using assms(4) by (simp add: swap_step_def)
  have w: "while_option loop_continues (\<lambda>r. rbind r (\<lambda>(st, go). swap_step E bitmap fee d z st)) (swap_step E bitmap fee d z st) = Some (Inr (st', go))"
    using run go unfolding swap_loop_def by (subst (asm) while_option_unfold) simp
  show ?thesis
  proof (cases "trade_step E bitmap fee d z st")
    case (Inl e)
    with w s show ?thesis by (subst (asm) while_option_unfold) (simp add: loop_continues_def)
  next
    case (Inr st1)
    from Inr assms(2) obtain tr where tr: "trade_quote E bitmap fee d z st = Inr tr" "\<not> tr_crossed tr" "ss_tick st1 = ss_tick st"
      "ss_liquidity st1 = ss_liquidity st" "ss_ticks st1 = ss_ticks st" "ss_sqrt_price st1 = tr_price tr" "ss_remaining st1 = 0"
      "ss_in st1 = ss_in st + tr_in tr + tr_fee tr"
    proof (cases rule: trade_step_Inr)
      case (2 tr tick info fg0 fg1 l)
      from 2(1) assms(2) have "camm_next_initialized_tick E bitmap (ss_tick st) d z = Inr (tr_next tr, True)"
        by (rule trade_quote_Inr) (use 2(2) in auto)
      with nx show ?thesis by simp
    qed (rule that)
    have "st' = st1" using w s Inr tr(7) by (subst (asm) while_option_unfold) (simp add: loop_continues_def)
    from trade_quote_Inr [OF tr(1) assms(2)] tr(2) obtain less where "cm_mul_div (ss_remaining st) (10000 - fee) 10000 = Inr less"
      "tr_in tr = less" "tr_fee tr = ss_remaining st - less"
      "get_next_sqrt_price_from_input (ss_sqrt_price st) (ss_liquidity st) less z = Inr (tr_price tr)" by metis
    with tr \<open>st' = st1\<close> show ?thesis by simp
  qed
qed

section \<open>Minting and burning at once\<close>

text \<open>The tick agrees with the price, as seen from a range.\<close>

definition price_agrees :: "camm_instance \<Rightarrow> int \<Rightarrow> int \<Rightarrow> int \<Rightarrow> int \<Rightarrow> bool" where
  "price_agrees i l h ra rb \<longleftrightarrow> (ci_current_tick i < l \<longrightarrow> ci_current_sqrt_price i \<le> ra) \<and> (h \<le> ci_current_tick i \<longrightarrow> rb \<le> ci_current_sqrt_price i)
     \<and> (l \<le> ci_current_tick i \<and> ci_current_tick i < h \<longrightarrow> ra \<le> ci_current_sqrt_price i \<and> ci_current_sqrt_price i \<le> rb)"

lemma burn_amounts_liquidity [simp]: "burn_amounts (i\<lparr>ci_liquidity := n\<rparr>) l h ra rb m = burn_amounts i l h ra rb m"
  by (simp add: burn_amounts_def)

lemma mint_then_burn:
  assumes "camm_mint xfer E (s, w) u l h a b = Inr ((s1, w1), n, x, y)" "camm_burn xfer' E (s1, w2) u l h n = Inr ((s2, w3), x', y')"
    and "overflow_checks E" "ca_inst s = Some i" "get_sqrt_ratio_at_tick E l = Inr ra" "get_sqrt_ratio_at_tick E h = Inr rb" "0 < ci_tick_spacing i"
  shows "mint_amounts (ci_current_sqrt_price i) ra rb a b = Inr (n, x, y)" "burn_amounts i l h ra rb n = Inr (x', y')"
    "in_range U128 n" "0 < ra \<and> ra < 2 ^ 103" "0 < rb \<and> rb < 2 ^ 103"
proof -
  from assms(1,3) have m: "mint_amounts (ci_current_sqrt_price i) ra rb a b = Inr (n, x, y) \<and> in_range U128 n \<and> check_range (ci_tick_spacing i) l h = Inr ()
    \<and> ca_inst s1 = Some (i\<lparr>ci_liquidity := ci_liquidity i + n * covers (ci_current_tick i) (u, l, h)\<rparr>)"
    by (rule camm_mint_Inr) (use assms(4-6) in simp)
  from assms(2,3) show "burn_amounts i l h ra rb n = Inr (x', y')" by (rule camm_burn_Inr) (use m assms(5,6) in auto)
  show "mint_amounts (ci_current_sqrt_price i) ra rb a b = Inr (n, x, y)" "in_range U128 n" using m by simp_all
  from check_range_Inr [of "ci_tick_spacing i" l h] m assms(7) have "MIN_TICK \<le> l" "l \<le> MAX_TICK" "MIN_TICK \<le> h" "h \<le> MAX_TICK" by auto
  then show "0 < ra \<and> ra < 2 ^ 103" "0 < rb \<and> rb < 2 ^ 103" using sqrt_ratio_small assms(5,6) by blast+
qed

lemma liquidity_for_order: "liquidity_for_0 p q a = Inr n \<Longrightarrow> p \<le> q" "liquidity_for_1 p q a = Inr n \<Longrightarrow> p \<le> q"
  by (auto simp: liquidity_for_0_def liquidity_for_1_def in_range_def split: if_splits)

lemma liquidity_for_same: "liquidity_for_0 p p a = Inr n \<Longrightarrow> False" "liquidity_for_1 p p a = Inr n \<Longrightarrow> False"
  by (auto simp: liquidity_for_0_def liquidity_for_1_def cm_mul_div_def in_range_def)

lemma amount_same: "get_amount_0_delta p p n = Inr x \<Longrightarrow> 0 < p \<Longrightarrow> p < 2 ^ 103 \<Longrightarrow> in_range U128 n \<Longrightarrow> x = 0"
  "get_amount_1_delta p p n = Inr x \<Longrightarrow> 0 < p \<Longrightarrow> p < 2 ^ 103 \<Longrightarrow> in_range U128 n \<Longrightarrow> x = 0"
  using amount_0_Inr [of p p n x] amount_1_Inr [of p p n x] by simp_all

end
