(* ===== verification/ConcentratedGuarantees.thy ===== *)
theory ConcentratedGuarantees
  imports ConcentratedCosts Token
begin

text \<open>
  What the concentrated pool guarantees: its accounts agree with the positions after any calls, swaps end and take no
  more than was specified, and a range returns at most what it cost while the tick agrees with the price; and the
  defect that lets tick and price part, with what an attacker gains from it.
\<close>

section \<open>An example\<close>

text \<open>
  Tokens 801 and 802, spacing 1, price 1. User 5 provides between the ticks -200 and 200, user 6 between -100 and -80;
  user 8 sells 10000. Then 7 mints around the recorded tick.
\<close>

definition camm_world :: tokens where
  "camm_world = [801 \<mapsto> empty_token\<lparr>tk_balances := [5 \<mapsto> 6000, 7 \<mapsto> 1000, 8 \<mapsto> 10000]\<rparr>,
     802 \<mapsto> empty_token\<lparr>tk_balances := [5 \<mapsto> 6000, 6 \<mapsto> 100000]\<rparr>]"

definition camm_demo :: "(env \<times> camm_op) list" where
  "camm_demo = [(env0 [], KInitialize 801 802 30 1 Q64 0), (env0 [5], KMint 5 (- 200) 200 5000 5000),
     (env0 [6], KMint 6 (- 100) (- 80) 0 90000)]"

definition camm_demo_run :: "(env \<times> camm_op) list \<Rightarrow> (camm \<times> tokens) \<times> int" where
  "camm_demo_run cs = run_calls (camm_metered client_transfer) (camm_demo @ cs) ((empty_camm, camm_world), 0)"

definition camm_figures :: "(camm \<times> tokens) \<times> int \<Rightarrow> (int \<times> int \<times> int) option \<times> int \<times> (int \<times> int) list" where
  "camm_figures swn = (let s = fst (fst swn); w = snd (fst swn) in
     (map_option (\<lambda>i. (ci_current_tick i, ci_current_sqrt_price i, ci_liquidity i)) (ca_inst s), snd swn,
      map (\<lambda>u. (client_balance 801 u w, client_balance 802 u w)) [0, 5, 6, 7, 8]))"

lemma rbind_unfold [code_unfold]: "rbind r f = (case r of Inl e \<Rightarrow> Inl e | Inr x \<Rightarrow> f x)"
  by (simp add: rbind_def)

lemma camm_demo_figures:
  "camm_figures (camm_demo_run []) = (Some (0, 18446744073709551616, 500632), 90577478,
     [(4999, 94999), (1001, 1001), (0, 10000), (1000, 0), (10000, 0)])"
  "camm_figures (camm_demo_run [(env0 [8], KSwap 8 True 10000)]) = (Some (0, 18086553478265577190, 500632), 90577478,
     [(14999, 85224), (1001, 1001), (0, 10000), (1000, 0), (0, 9775)])"
  by code_simp+

lemma camm_demo_calls:
  "\<forall>c \<in> set camm_demo. camm_args (fst c) (snd c)" "\<forall>c \<in> set (camm_demo @ [(env0 [8], KSwap 8 True 10000)]). camm_args (fst c) (snd c)"
  by (simp_all add: camm_demo_def env0_def)

text \<open>The state after the mints: its tick, price and liquidity, and the settings.\<close>

lemma camm_demo_inst:
  obtains s w i where "((s, w), 90577478) = run_calls (camm_metered client_transfer) camm_demo ((empty_camm, camm_world), 0)"
    "ca_inst s = Some i" "ci_tick_spacing i = 1" "ci_fee_bps i = 30" "ci_current_tick i = 0" "ci_current_sqrt_price i = Q64" "ci_liquidity i = 500632"
proof -
  let ?r = "run_calls (camm_metered client_transfer) camm_demo ((empty_camm, camm_world), 0)"
  obtain s w n where r: "((s, w), n) = ?r" by (metis surj_pair)
  have "(map_option (\<lambda>i. (ci_tick_spacing i, ci_fee_bps i, ci_current_tick i, ci_current_sqrt_price i, ci_liquidity i)) (ca_inst (fst (fst ?r))), snd ?r)
    = (Some (1, 30, 0, Q64, 500632), 90577478)" by code_simp
  then have "map_option (\<lambda>i. (ci_tick_spacing i, ci_fee_bps i, ci_current_tick i, ci_current_sqrt_price i, ci_liquidity i)) (ca_inst s) = Some (1, 30, 0, Q64, 500632)"
    "n = 90577478" by (simp_all flip: r)
  then show ?thesis using r that by auto
qed

text \<open>The swap of the example, and what is left by it.\<close>

lemma camm_demo_swap:
  obtains s w i s' w' i' where "((s, w), 90577478) = run_calls (camm_metered client_transfer) camm_demo ((empty_camm, camm_world), 0)"
    "ca_inst s = Some i" "ci_fee_bps i = 30" "ci_tick_spacing i = 1" "ci_current_tick i = 0" "ci_liquidity i = 500632"
    "camm_next_initialized_tick (env0 [8]) (ca_bitmap s) 0 1 True = Inr (0, False)" "ca_ticks s (- 80) \<noteq> None"
    "camm_swap client_transfer (env0 [8]) (s, w) 8 True 10000 = Inr ((s', w'), 10000, 9775)"
    "ca_inst s' = Some i'" "ci_current_tick i' = 0" "ci_current_sqrt_price i' = 18086553478265577190"
proof -
  obtain s w i where r: "((s, w), 90577478) = run_calls (camm_metered client_transfer) camm_demo ((empty_camm, camm_world), 0)"
    and i: "ca_inst s = Some i" "ci_fee_bps i = 30" "ci_tick_spacing i = 1" "ci_current_tick i = 0" "ci_liquidity i = 500632" by (rule camm_demo_inst)
  let ?r = "run_calls (camm_metered client_transfer) camm_demo ((empty_camm, camm_world), 0)"
  have "camm_next_initialized_tick (env0 [8]) (ca_bitmap (fst (fst ?r))) 0 1 True = Inr (0, False) \<and> map_option ti_liquidity_net (ca_ticks (fst (fst ?r)) (- 80)) \<noteq> None
    \<and> (case camm_swap client_transfer (env0 [8]) (fst ?r) 8 True 10000 of Inl e \<Rightarrow> None
       | Inr ((s', w'), r) \<Rightarrow> Some (map_option (\<lambda>i. (ci_current_tick i, ci_current_sqrt_price i)) (ca_inst s'), r))
      = Some (Some (0, 18086553478265577190), 10000, 9775)" by code_simp
  then have f: "camm_next_initialized_tick (env0 [8]) (ca_bitmap s) 0 1 True = Inr (0, False)" "ca_ticks s (- 80) \<noteq> None"
    "(case camm_swap client_transfer (env0 [8]) (s, w) 8 True 10000 of Inl e \<Rightarrow> None
       | Inr ((s', w'), r) \<Rightarrow> Some (map_option (\<lambda>i. (ci_current_tick i, ci_current_sqrt_price i)) (ca_inst s'), r))
      = Some (Some (0, 18086553478265577190), 10000, 9775)" by (auto simp flip: r)
  from f(3) obtain s' w' where sw: "camm_swap client_transfer (env0 [8]) (s, w) 8 True 10000 = Inr ((s', w'), 10000, 9775)"
    "map_option (\<lambda>i. (ci_current_tick i, ci_current_sqrt_price i)) (ca_inst s') = Some (0, 18086553478265577190)"
    by (auto split: sum.splits prod.splits)
  from sw(2) obtain i' where "ca_inst s' = Some i'" "ci_current_tick i' = 0" "ci_current_sqrt_price i' = 18086553478265577190" by auto
  from that [OF r i f(1,2) sw(1) this] show ?thesis .
qed

text \<open>Before the swap of the example a range is minted and burned; after it a range around the stale tick.\<close>

definition mint_and_burn :: "env \<Rightarrow> address \<Rightarrow> int \<Rightarrow> int \<Rightarrow> int \<Rightarrow> int \<Rightarrow> camm \<times> tokens \<Rightarrow> (int \<times> int \<times> int \<times> int) option" where
  "mint_and_burn E u l h a b sw = (case camm_mint client_transfer E sw u l h a b of Inl e \<Rightarrow> None
     | Inr (sw', n, x, y) \<Rightarrow> (case camm_burn client_transfer E sw' u l h n of Inl e \<Rightarrow> None | Inr (sw'', x', y') \<Rightarrow> Some (x, y, x', y')))"

lemma mint_and_burn_Some:
  assumes "mint_and_burn E u l h a b sw = Some (x, y, x', y')"
  obtains s1 w1 n s2 w2 where "camm_mint client_transfer E sw u l h a b = Inr ((s1, w1), n, x, y)"
    "camm_burn client_transfer E (s1, w1) u l h n = Inr ((s2, w2), x', y')"
  using assms by (auto simp: mint_and_burn_def split: sum.splits prod.splits)

lemma camm_demo_no_gain:
  obtains s w i s1 w1 n s2 w2 where "((s, w), 90577478) = run_calls (camm_metered client_transfer) camm_demo ((empty_camm, camm_world), 0)"
    "ca_inst s = Some i" "ci_tick_spacing i = 1" "ci_current_tick i = 0" "ci_current_sqrt_price i = Q64"
    "camm_mint client_transfer (env0 [7]) (s, w) 7 20 40 1000 0 = Inr ((s1, w1), n, 1000, 0)"
    "camm_burn client_transfer (env0 [7]) (s1, w1) 7 20 40 n = Inr ((s2, w2), 999, 0)"
proof -
  obtain s w i where r: "((s, w), 90577478) = run_calls (camm_metered client_transfer) camm_demo ((empty_camm, camm_world), 0)"
    and i: "ca_inst s = Some i" "ci_tick_spacing i = 1" "ci_current_tick i = 0" "ci_current_sqrt_price i = Q64" by (rule camm_demo_inst)
  let ?r = "run_calls (camm_metered client_transfer) camm_demo ((empty_camm, camm_world), 0)"
  have "mint_and_burn (env0 [7]) 7 20 40 1000 0 (fst ?r) = Some (1000, 0, 999, 0)" by code_simp
  then have "mint_and_burn (env0 [7]) 7 20 40 1000 0 (s, w) = Some (1000, 0, 999, 0)" by (simp flip: r)
  then obtain s1 w1 n s2 w2 where "camm_mint client_transfer (env0 [7]) (s, w) 7 20 40 1000 0 = Inr ((s1, w1), n, 1000, 0)"
    "camm_burn client_transfer (env0 [7]) (s1, w1) 7 20 40 n = Inr ((s2, w2), 999, 0)" by (rule mint_and_burn_Some)
  from that [OF r i this] show ?thesis .
qed

section \<open>Properties\<close>

text \<open>
  C17. The accounts of the concentrated pool agree after any calls, failed ones included, as long as the tick spacing is
  positive and less than \<open>2^127\<close> of liquidity was ever minted: the active liquidity is the sum of the positions
  whose range holds the current tick, the gross and net liquidity of every tick are the sums over the positions that
  end there, and the bitmap marks exactly the ticks where a position ends.
\<close>

theorem camm_liquidity_books:
  assumes "\<forall>c \<in> set cs. camm_args (fst c) (snd c)"
    and "((s, w), n) = run_calls (camm_metered xfer) cs ((empty_camm, w0), 0)" "n < 2 ^ 127"
    and "ca_inst s = Some i" "0 < ci_tick_spacing i"
  shows "ci_liquidity i = pos_sum (covers (ci_current_tick i)) (ca_positions s)
    \<and> (\<forall>t. gross_of (ca_ticks s) t = pos_sum (touches t) (ca_positions s) \<and> net_of (ca_ticks s) t = pos_sum (enters t) (ca_positions s))
    \<and> (\<forall>t. marked (ca_bitmap s) t \<longleftrightarrow> 0 < gross_of (ca_ticks s) (t * ci_tick_spacing i))"
proof -
  from camm_reached [OF assms] have "tick_books (ci_tick_spacing i) (ca_bitmap s) (ca_ticks s) (ca_positions s)"
    "ci_liquidity i = pos_sum (covers (ci_current_tick i)) (ca_positions s)" by (simp_all add: inst_books_def)
  then show ?thesis using tick_booksD(4-7) by metis
qed

theorem camm_liquidity_books_witness:
  "\<exists>s w i. ((s, w), 90577478) = run_calls (camm_metered client_transfer) camm_demo ((empty_camm, camm_world), 0)
     \<and> ca_inst s = Some i \<and> ci_liquidity i = 500632 \<and> pos_sum (covers 0) (ca_positions s) = 500632"
proof -
  obtain s w i where r: "((s, w), 90577478) = run_calls (camm_metered client_transfer) camm_demo ((empty_camm, camm_world), 0)"
    and i: "ca_inst s = Some i" "ci_tick_spacing i = 1" "ci_current_tick i = 0" "ci_liquidity i = 500632" by (rule camm_demo_inst)
  have d: "0 < ci_tick_spacing i" using i(2) by simp
  have n: "(90577478 :: int) < 2 ^ 127" by simp
  from conjunct1 [OF camm_liquidity_books [OF camm_demo_calls(1) r n i(1) d]] r i show ?thesis by (intro exI conjI) simp_all
qed



text \<open>
  C19. A swap takes at most the specified amount, fees included, and it takes less only when it ends without active
  liquidity.
\<close>

theorem camm_swap_takes_at_most:
  assumes "camm_swap xfer E (s, w) u z n = Inr ((s', w'), taken, given)" "overflow_checks E" "in_range U128 n"
    and "ca_inst s = Some i" "0 \<le> ci_fee_bps i"
  shows "taken \<le> n \<and> (taken < n \<longrightarrow> (\<exists>i'. ca_inst s' = Some i' \<and> ci_liquidity i' = 0))"
proof -
  from assms(1) obtain st go where run: "swap_loop E (ca_bitmap s) (ci_fee_bps i) (ci_tick_spacing i) z (swap_start s i n) = Some (Inr (st, go))"
    and r: "taken = ss_in st" "\<exists>i'. ca_inst s' = Some i' \<and> ci_liquidity i' = ss_liquidity st"
    by (rule camm_swap_Inr) (use assms(4) in simp)
  have "ss_in st + ss_remaining st = n \<and> 0 \<le> ss_remaining st"
    using swap_loop_paid [OF run assms(2,5)] assms(3) by (simp add: swap_start_def in_range_def)
  with swap_loop_end [OF run] r show ?thesis by auto
qed

theorem camm_swap_takes_at_most_witness:
  "\<exists>s w s' w'. ((s, w), 90577478) = run_calls (camm_metered client_transfer) camm_demo ((empty_camm, camm_world), 0)
     \<and> camm_swap client_transfer (env0 [8]) (s, w) 8 True 10000 = Inr ((s', w'), 10000, 9775) \<and> (10000 :: int) \<le> 10000"
proof -
  obtain s w i s' w' where r: "((s, w), 90577478) = run_calls (camm_metered client_transfer) camm_demo ((empty_camm, camm_world), 0)"
    "camm_swap client_transfer (env0 [8]) (s, w) 8 True 10000 = Inr ((s', w'), 10000, 9775)" and i: "ca_inst s = Some i" "ci_fee_bps i = 30"
    by (rule camm_demo_swap)
  have "overflow_checks (env0 [8])" "in_range U128 10000" "0 \<le> ci_fee_bps i" using i by (simp_all add: env0_def in_range_def)
  from conjunct1 [OF camm_swap_takes_at_most [OF r(2) this(1,2) i(1) this(3)]] r show ?thesis by (intro exI conjI)
qed

text \<open>
  Prices run away from ticks: when the bitmap word of the current tick has no initialised tick in the direction of
  a swap, the swap does all of its trade in one round, whatever its size. Tick, active liquidity and ticks stay as
  they are, and the price moves as if the active liquidity reached on for ever, past the initialised ticks of the
  other words.
\<close>

theorem camm_swap_skips_ticks:
  assumes "camm_swap xfer E (s, w) u z n = Inr ((s', w'), taken, given)" "overflow_checks E" "0 < n"
    and "ca_inst s = Some i" "ci_liquidity i \<noteq> 0"
    and "camm_next_initialized_tick E (ca_bitmap s) (ci_current_tick i) (ci_tick_spacing i) z = Inr (t, False)"
  shows "\<exists>i' less. ca_inst s' = Some i' \<and> ci_current_tick i' = ci_current_tick i \<and> ci_liquidity i' = ci_liquidity i
    \<and> ca_ticks s' = ca_ticks s \<and> taken = n \<and> cm_mul_div n (10000 - ci_fee_bps i) 10000 = Inr less
    \<and> get_next_sqrt_price_from_input (ci_current_sqrt_price i) (ci_liquidity i) less z = Inr (ci_current_sqrt_price i')"
proof -
  from assms(1) obtain st go where run: "swap_loop E (ca_bitmap s) (ci_fee_bps i) (ci_tick_spacing i) z (swap_start s i n) = Some (Inr (st, go))"
    and r: "taken = ss_in st" "ca_ticks s' = ss_ticks st"
      "\<exists>i'. ca_inst s' = Some i' \<and> ci_current_tick i' = ss_tick st \<and> ci_liquidity i' = ss_liquidity st \<and> ci_current_sqrt_price i' = ss_sqrt_price st"
    by (rule camm_swap_Inr) (use assms(4) in simp)
  have "\<exists>less. cm_mul_div n (10000 - ci_fee_bps i) 10000 = Inr less \<and> ss_tick st = ci_current_tick i \<and> ss_liquidity st = ci_liquidity i
    \<and> ss_ticks st = ca_ticks s \<and> get_next_sqrt_price_from_input (ci_current_sqrt_price i) (ci_liquidity i) less z = Inr (ss_sqrt_price st)
    \<and> ss_in st = n"
    using swap_single_round [OF run assms(2)] assms(3,5,6) by (simp add: swap_start_def)
  with r show ?thesis by auto
qed

theorem camm_swap_skips_ticks_witness:
  "\<exists>s w i s' w' i' r. ((s, w), 90577478) = run_calls (camm_metered client_transfer) camm_demo ((empty_camm, camm_world), 0)
     \<and> camm_swap client_transfer (env0 [8]) (s, w) 8 True 10000 = Inr ((s', w'), 10000, 9775)
     \<and> ca_inst s = Some i \<and> ca_inst s' = Some i' \<and> ci_current_tick i' = 0 \<and> ci_liquidity i' = ci_liquidity i
     \<and> ca_ticks s (- 80) \<noteq> None \<and> get_sqrt_ratio_at_tick (env0 [8]) (- 80) = Inr r \<and> ci_current_sqrt_price i' < r"
proof -
  obtain s w i s' w' i' where r: "((s, w), 90577478) = run_calls (camm_metered client_transfer) camm_demo ((empty_camm, camm_world), 0)"
    "camm_swap client_transfer (env0 [8]) (s, w) 8 True 10000 = Inr ((s', w'), 10000, 9775)" "ca_inst s = Some i" "ca_ticks s (- 80) \<noteq> None"
    "ca_inst s' = Some i'" "ci_current_tick i' = 0"
    and p: "ci_current_sqrt_price i' = 18086553478265577190"
    and i: "ci_tick_spacing i = 1" "ci_current_tick i = 0" "ci_liquidity i = 500632"
      "camm_next_initialized_tick (env0 [8]) (ca_bitmap s) 0 1 True = Inr (0, False)"
    by (rule camm_demo_swap)
  have "overflow_checks (env0 [8])" "(0 :: int) < 10000" "ci_liquidity i \<noteq> 0"
    "camm_next_initialized_tick (env0 [8]) (ca_bitmap s) (ci_current_tick i) (ci_tick_spacing i) True = Inr (0, False)"
    using i by (simp_all add: env0_def)
  from camm_swap_skips_ticks [OF r(2) this(1,2) r(3) this(3,4)] r(5) have l: "ci_liquidity i' = ci_liquidity i" by auto
  have q: "(case get_sqrt_ratio_at_tick (env0 [8]) (- 80) of Inl e \<Rightarrow> False | Inr r \<Rightarrow> 18086553478265577190 < r)" by code_simp
  then obtain q where "get_sqrt_ratio_at_tick (env0 [8]) (- 80) = Inr q" "18086553478265577190 < q" by (auto split: sum.splits)
  with r l p show ?thesis
    by (intro exI [of _ s] exI [of _ w] exI [of _ i] exI [of _ s'] exI [of _ w'] exI [of _ i'] exI [of _ q]) simp
qed

text \<open>
  C20. Minting is not a gift: whoever mints a range and burns it at once gets back at most what the mint took, of either
  token, while the tick agrees with the price; with the price inside the range the amounts are the same.
\<close>

theorem camm_mint_burn_no_gain:
  assumes "camm_mint xfer E (s, w) u l h a b = Inr ((s1, w1), n, x, y)" "camm_burn xfer' E (s1, w2) u l h n = Inr ((s2, w3), x', y')"
    and "overflow_checks E" "ca_inst s = Some i" "0 < ci_tick_spacing i" "in_range U128 a" "in_range U128 b"
    and "get_sqrt_ratio_at_tick E l = Inr ra" "get_sqrt_ratio_at_tick E h = Inr rb" "price_agrees i l h ra rb"
  shows "x' \<le> x \<and> y' \<le> y \<and> (ra < ci_current_sqrt_price i \<and> ci_current_sqrt_price i < rb \<longrightarrow> x' = x \<and> y' = y)"
proof -
  let ?p = "ci_current_sqrt_price i"
  note mb = mint_then_burn [OF assms(1-4,8,9,5)]
  note b = mb(2) [unfolded burn_amounts_def] and ag = assms(10) [unfolded price_agrees_def]
  have top: "ra \<le> 2 ^ 127" "rb \<le> 2 ^ 127" using mb(4,5) by simp_all
  consider (below) "?p \<le> ra" | (above) "ra < ?p" "rb \<le> ?p" | (inside) "ra < ?p" "?p < rb" by linarith
  then show ?thesis
  proof cases
    case below
    then have m: "liquidity_for_0 ra rb a = Inr n" "x = a" "y = 0" using mb(1) by (auto simp: mint_amounts_def)
    have o: "ra \<le> rb" "ra \<noteq> rb" using liquidity_for_order(1) [OF m(1)] liquidity_for_same(1) m(1) by blast+
    have "get_amount_0_delta ra rb n = Inr x' \<and> y' = 0"
      using b ag below o amount_same(2) [of ra n] mb(3,4) by (auto split: if_splits)
    with range_0_returns [OF m(1) _ assms(6) _ o(1) top(2)] mb(4) m below show ?thesis by simp
  next
    case above
    then have m: "liquidity_for_1 ra rb b = Inr n" "x = 0" "y = b" using mb(1) by (auto simp: mint_amounts_def)
    have o: "ra \<le> rb" using liquidity_for_order(2) [OF m(1)] .
    have "get_amount_1_delta ra rb n = Inr y' \<and> x' = 0"
      using b ag above o amount_same(1) [of rb n] mb(3,5) by (auto split: if_splits)
    with range_1_returns [OF m(1) _ assms(7) _ o top(2)] mb(4) m above show ?thesis by simp
  next
    case inside
    then have "get_amount_0_delta ?p rb n = Inr x" "get_amount_1_delta ra ?p n = Inr y" using mb(1) by (auto simp: mint_amounts_def Let_def)
    then show ?thesis using b ag inside by (auto split: if_splits)
  qed
qed

theorem camm_mint_burn_no_gain_witness:
  "\<exists>s w i s1 w1 n s2 w2. ((s, w), 90577478) = run_calls (camm_metered client_transfer) camm_demo ((empty_camm, camm_world), 0)
     \<and> ca_inst s = Some i \<and> camm_mint client_transfer (env0 [7]) (s, w) 7 20 40 1000 0 = Inr ((s1, w1), n, 1000, 0)
     \<and> camm_burn client_transfer (env0 [7]) (s1, w1) 7 20 40 n = Inr ((s2, w2), 999, 0) \<and> (999 :: int) \<le> 1000"
proof -
  obtain s w i s1 w1 n s2 w2 where r: "((s, w), 90577478) = run_calls (camm_metered client_transfer) camm_demo ((empty_camm, camm_world), 0)"
    and i: "ca_inst s = Some i" "ci_tick_spacing i = 1" "ci_current_tick i = 0" "ci_current_sqrt_price i = Q64"
    and c: "camm_mint client_transfer (env0 [7]) (s, w) 7 20 40 1000 0 = Inr ((s1, w1), n, 1000, 0)"
    "camm_burn client_transfer (env0 [7]) (s1, w1) 7 20 40 n = Inr ((s2, w2), 999, 0)" by (rule camm_demo_no_gain)
  have "(case get_sqrt_ratio_at_tick (env0 [7]) 20 of Inl e \<Rightarrow> False | Inr ra \<Rightarrow> Q64 \<le> ra)
    \<and> (case get_sqrt_ratio_at_tick (env0 [7]) 40 of Inl e \<Rightarrow> False | Inr ra \<Rightarrow> True)" by code_simp
  then obtain ra rb where q: "get_sqrt_ratio_at_tick (env0 [7]) 20 = Inr ra" "Q64 \<le> ra" "get_sqrt_ratio_at_tick (env0 [7]) 40 = Inr rb"
    by (auto split: sum.splits)
  have "overflow_checks (env0 [7])" "0 < ci_tick_spacing i" "in_range U128 1000" "in_range U128 0" "price_agrees i 20 40 ra rb"
    using i q by (simp_all add: env0_def in_range_def price_agrees_def)
  from conjunct1 [OF camm_mint_burn_no_gain [OF c this(1) i(1) this(2-4) q(1,3) this(5)]] show ?thesis
    by (intro exI [of _ s] exI [of _ w] exI [of _ i] exI [of _ s1] exI [of _ w1] exI [of _ n] exI [of _ s2] exI [of _ w2] conjI)
      (rule r i c | assumption)+
qed

text \<open>
  C21. A stale tick pays: when the price has left a range downwards and the tick still lies in it, a mint takes nothing of
  the second token, and a burn at once pays as if the price were inside, which gives away
  \<open>liquidity * (ratio - price) / 2^64\<close> of it, and more of the first token than a range at its lower end holds.
\<close>

theorem camm_stale_tick_pays:
  assumes "camm_mint xfer E (s, w) u l h a b = Inr ((s1, w1), n, x, y)" "camm_burn xfer' E (s1, w2) u l h n = Inr ((s2, w3), x', y')"
    and "overflow_checks E" "ca_inst s = Some i" "0 < ci_tick_spacing i"
    and "get_sqrt_ratio_at_tick E l = Inr ra" "get_sqrt_ratio_at_tick E h = Inr rb" "l \<le> ci_current_tick i" "ci_current_tick i < h"
    and "0 < ci_current_sqrt_price i" "ci_current_sqrt_price i < ra"
  shows "y = 0 \<and> y' = n * (ra - ci_current_sqrt_price i) div Q64
    \<and> x' = (n * Q64 div rb) * (rb - ci_current_sqrt_price i) div ci_current_sqrt_price i"
proof -
  let ?p = "ci_current_sqrt_price i"
  note mb = mint_then_burn [OF assms(1-4,6,7,5)]
  have m: "liquidity_for_0 ra rb a = Inr n" "y = 0" using mb(1) assms(11) by (auto simp: mint_amounts_def)
  have "get_amount_0_delta ?p rb n = Inr x'" "get_amount_1_delta ra ?p n = Inr y'"
    using mb(2) assms(8,9) by (auto simp: burn_amounts_def)
  with amount_0_Inr [of ?p rb n x'] amount_1_Inr [of ?p ra n y'] delta_sym(2) [of ra ?p] mb(3-5) assms(10,11) m
    liquidity_for_order(1) [OF m(1)] show ?thesis by simp
qed

theorem camm_stale_tick_pays_witness:
  "\<exists>s w n0 s1 w1 n s2 w2. ((s, w), n0) = camm_demo_run [(env0 [8], KSwap 8 True 10000)]
     \<and> camm_mint client_transfer (env0 [7]) (s, w) 7 (- 10) 10 300 0 = Inr ((s1, w1), n, 300, 0)
     \<and> camm_burn client_transfer (env0 [7]) (s1, w1) 7 (- 10) 10 n = Inr ((s2, w2), 6082, 5667)
     \<and> n * (18437489177048975077 - 18086553478265577190) div Q64 = 5667"
proof -
  let ?r = "camm_demo_run [(env0 [8], KSwap 8 True 10000)]"
  obtain s w n0 where r: "((s, w), n0) = ?r" by (metis surj_pair)
  have "map_option (\<lambda>i. (ci_tick_spacing i, ci_current_tick i, ci_current_sqrt_price i)) (ca_inst (fst (fst ?r))) = Some (1, 0, 18086553478265577190)
    \<and> mint_and_burn (env0 [7]) 7 (- 10) 10 300 0 (fst ?r) = Some (300, 0, 6082, 5667)" by code_simp
  then have m: "mint_and_burn (env0 [7]) 7 (- 10) 10 300 0 (s, w) = Some (300, 0, 6082, 5667)"
    "map_option (\<lambda>i. (ci_tick_spacing i, ci_current_tick i, ci_current_sqrt_price i)) (ca_inst s) = Some (1, 0, 18086553478265577190)"
    by (simp_all flip: r)
  from m(1) obtain s1 w1 n s2 w2 where c: "camm_mint client_transfer (env0 [7]) (s, w) 7 (- 10) 10 300 0 = Inr ((s1, w1), n, 300, 0)"
    "camm_burn client_transfer (env0 [7]) (s1, w1) 7 (- 10) 10 n = Inr ((s2, w2), 6082, 5667)" by (rule mint_and_burn_Some)
  from m(2) obtain i where i: "ca_inst s = Some i" "ci_tick_spacing i = 1" "ci_current_tick i = 0" "ci_current_sqrt_price i = 18086553478265577190" by auto
  have q: "get_sqrt_ratio_at_tick (env0 [7]) (- 10) = Inr 18437489177048975077" "get_sqrt_ratio_at_tick (env0 [7]) 10 = Inr 18456003615965381144"
    by code_simp+
  have "overflow_checks (env0 [7])" "0 < ci_tick_spacing i" "- 10 \<le> ci_current_tick i" "ci_current_tick i < 10"
    "0 < ci_current_sqrt_price i" "ci_current_sqrt_price i < 18437489177048975077" using i by (simp_all add: env0_def)
  note p = camm_stale_tick_pays [OF c this(1) i(1) this(2) q this(3-6)]
  have "n * (18437489177048975077 - 18086553478265577190) div Q64 = 5667" using p i(4) by simp
  then show ?thesis
    by (intro exI [of _ s] exI [of _ w] exI [of _ n0] exI [of _ s1] exI [of _ w1] exI [of _ n] exI [of _ s2] exI [of _ w2] conjI)
      (rule r c | assumption)+
qed

end
