(* ===== verification/YieldVault.thy ===== *)
theory YieldVault
  imports TokenInterface
begin

text \<open>
  The vault \<open>contracts/multi_yield_vault/src/lib.rs\<close>: deposits of one token are spread over registered pools by
  weights, and shares are minted one for one. The pools and the token are contracts the vault only knows by their
  interfaces (\<open>AmmPool\<close>, \<open>token::Client\<close>): they are the parameters \<open>amm\<close>, \<open>xfer\<close> and \<open>approve\<close> with their world; \<open>None\<close> is a
  trap of the callee.
\<close>

section \<open>Data\<close>

datatype vault_error =
    AlreadyInitialized | NotInitialized | InvalidAmount | TooManyPools | PoolAlreadyRegistered | PoolNotFound
  | SlippageExceeded | InsufficientShares | Unauthorized | InvalidWeights

record 'w amm_client =
  am_deposit :: "env \<Rightarrow> address \<Rightarrow> address \<Rightarrow> int \<Rightarrow> int \<Rightarrow> 'w \<Rightarrow> ('w \<times> int) option"
  am_withdraw :: "env \<Rightarrow> address \<Rightarrow> address \<Rightarrow> int \<Rightarrow> 'w \<Rightarrow> ('w \<times> int \<times> int) option"
  am_reserve_a :: "env \<Rightarrow> address \<Rightarrow> 'w \<Rightarrow> int option"
  am_reserve_b :: "env \<Rightarrow> address \<Rightarrow> 'w \<Rightarrow> int option"
  am_fee :: "env \<Rightarrow> address \<Rightarrow> 'w \<Rightarrow> int option"

text \<open>\<open>approve E token from spender amount expiration\<close>.\<close>

type_synonym 'w token_approval = "env \<Rightarrow> address \<Rightarrow> address \<Rightarrow> address \<Rightarrow> int \<Rightarrow> int \<Rightarrow> 'w \<Rightarrow> 'w option"

record vault_state =
  vs_deposit_token :: address
  vs_admin :: address
  vs_total_shares :: int
  vs_slippage_bps :: int
  vs_volume_proxy_bps :: int

record pool_allocation =
  pa_pool :: address
  pa_lp_shares :: int
  pa_deposit_is_a :: bool
  pa_weight :: int

record yield_vault =
  yv_vault :: "vault_state option"
  yv_pools :: "pool_allocation list"
  yv_balances :: "address \<rightharpoonup> int"
  yv_events :: "(int \<times> int) list"

definition empty_vault :: yield_vault where
  "empty_vault = \<lparr>yv_vault = None, yv_pools = [], yv_balances = Map.empty, yv_events = []\<rparr>"

type_synonym 'a yv_res = "(vault_error, 'a) res"

definition MAX_POOLS :: nat where "MAX_POOLS = 8"
definition DEFAULT_SLIPPAGE_BPS :: int where "DEFAULT_SLIPPAGE_BPS = 100"
definition DEFAULT_VOLUME_PROXY_BPS :: int where "DEFAULT_VOLUME_PROXY_BPS = 10000"

section \<open>Helpers\<close>

definition load_vault :: "yield_vault \<Rightarrow> vault_state yv_res" where
  "load_vault s = ok_or NotInitialized (yv_vault s)"

definition estimate_apr_bps :: "env \<Rightarrow> int \<Rightarrow> int \<Rightarrow> int yv_res" where
  "estimate_apr_bps E fee_bps volume_proxy_bps = rbind (fit E I128 (fee_bps * volume_proxy_bps)) (\<lambda>p. quot I128 p 10000)"

definition deposit_value_in_pool :: "'w amm_client \<Rightarrow> env \<Rightarrow> pool_allocation \<Rightarrow> 'w \<Rightarrow> int yv_res" where
  "deposit_value_in_pool amm E alloc w =
     (if pa_lp_shares alloc = 0 then Inr 0
      else
        rbind (call (am_reserve_a amm E (pa_pool alloc) w)) (\<lambda>a.
        rbind (call (am_reserve_b amm E (pa_pool alloc) w)) (\<lambda>b.
        Inr (if pa_deposit_is_a alloc then a else b))))"

fun validate_weighted_pools :: "'w amm_client \<Rightarrow> env \<Rightarrow> pool_allocation list \<Rightarrow> 'w \<Rightarrow> unit yv_res" where
  "validate_weighted_pools amm E [] w = Inr ()"
| "validate_weighted_pools amm E (alloc # rest) w =
     (if pa_weight alloc = 0 then validate_weighted_pools amm E rest w
      else
        rbind (call (am_fee amm E (pa_pool alloc) w)) (\<lambda>fee.
        if fee \<le> 0 then Inl (Err InvalidWeights) else validate_weighted_pools amm E rest w))"

section \<open>Administration\<close>

definition yv_initialize :: "yield_vault \<Rightarrow> address \<Rightarrow> address \<Rightarrow> int \<Rightarrow> int \<Rightarrow> yield_vault yv_res" where
  "yv_initialize s admin deposit_token slippage_bps volume_proxy_bps =
     (if yv_vault s \<noteq> None then Inl (Err AlreadyInitialized)
      else if slippage_bps < 0 \<or> volume_proxy_bps \<le> 0 then Inl (Err InvalidAmount)
      else Inr (s\<lparr>yv_vault := Some \<lparr>vs_deposit_token = deposit_token, vs_admin = admin, vs_total_shares = 0,
                 vs_slippage_bps = slippage_bps, vs_volume_proxy_bps = volume_proxy_bps\<rparr>\<rparr>))"

definition yv_register_pool :: "env \<Rightarrow> yield_vault \<Rightarrow> address \<Rightarrow> bool \<Rightarrow> yield_vault yv_res" where
  "yv_register_pool E s pool deposit_is_a =
     rbind (load_vault s) (\<lambda>v.
     rbind (require_auth E (vs_admin v)) (\<lambda>_.
     if length (yv_pools s) \<ge> MAX_POOLS then Inl (Err TooManyPools)
     else if List.member (map pa_pool (yv_pools s)) pool then Inl (Err PoolAlreadyRegistered)
     else Inr (s\<lparr>yv_pools := yv_pools s @
            [\<lparr>pa_pool = pool, pa_lp_shares = 0, pa_deposit_is_a = deposit_is_a, pa_weight = 0\<rparr>]\<rparr>)))"

text \<open>The loop over the given weights: none above one half, with their sum.\<close>

fun sum_of_weights :: "env \<Rightarrow> int list \<Rightarrow> int \<Rightarrow> int yv_res" where
  "sum_of_weights E [] tot = Inr tot"
| "sum_of_weights E (x # xs) tot =
     (if x > 5000 then Inl (Err InvalidWeights)
      else rbind (fit E U32 (tot + x)) (sum_of_weights E xs))"

definition yv_set_weights :: "'w amm_client \<Rightarrow> env \<Rightarrow> yield_vault \<Rightarrow> int list \<Rightarrow> 'w \<Rightarrow> yield_vault yv_res" where
  "yv_set_weights amm E s weights w =
     rbind (load_vault s) (\<lambda>v.
     rbind (require_auth E (vs_admin v)) (\<lambda>_.
     if length weights \<noteq> length (yv_pools s) then Inl (Err InvalidWeights)
     else
       rbind (sum_of_weights E weights 0) (\<lambda>tot.
       if tot \<noteq> 10000 then Inl (Err InvalidWeights)
       else
         let pools = map2 (\<lambda>alloc x. alloc\<lparr>pa_weight := x\<rparr>) (yv_pools s) weights in
         rbind (validate_weighted_pools amm E pools w) (\<lambda>_.
         Inr (s\<lparr>yv_pools := pools\<rparr>)))))"

definition yv_set_slippage :: "env \<Rightarrow> yield_vault \<Rightarrow> int \<Rightarrow> yield_vault yv_res" where
  "yv_set_slippage E s slippage_bps =
     rbind (load_vault s) (\<lambda>v.
     rbind (require_auth E (vs_admin v)) (\<lambda>_.
     Inr (s\<lparr>yv_vault := Some (v\<lparr>vs_slippage_bps := slippage_bps\<rparr>)\<rparr>)))"

section \<open>Deposit and withdrawal\<close>

text \<open>The sum of the weights, and the index of the last one that is not zero.\<close>

fun weigh :: "env \<Rightarrow> nat \<Rightarrow> pool_allocation list \<Rightarrow> int \<Rightarrow> nat option \<Rightarrow> (int \<times> nat option) yv_res" where
  "weigh E i [] tot last_idx = Inr (tot, last_idx)"
| "weigh E i (alloc # rest) tot last_idx =
     rbind (fit E U32 (tot + pa_weight alloc)) (\<lambda>tot'.
     weigh E (Suc i) rest tot' (if pa_weight alloc > 0 then Some i else last_idx))"

definition check_weights :: "'w amm_client \<Rightarrow> env \<Rightarrow> pool_allocation list \<Rightarrow> 'w \<Rightarrow> nat yv_res" where
  "check_weights amm E pools w =
     rbind (weigh E 0 pools 0 None) (\<lambda>(tot, last_nonzero).
     if tot \<noteq> 10000 then Inl (Err InvalidWeights)
     else
       rbind (ok_or InvalidWeights last_nonzero) (\<lambda>last_idx.
       rbind (validate_weighted_pools amm E pools w) (\<lambda>_. Inr last_idx)))"

text \<open>One pool's part is approved and deposited.\<close>

definition fund_pool ::
    "'w amm_client \<Rightarrow> 'w token_approval \<Rightarrow> env \<Rightarrow> address \<Rightarrow> pool_allocation \<Rightarrow> int \<Rightarrow> 'w \<Rightarrow> (pool_allocation \<times> 'w) yv_res" where
  "fund_pool amm approve E token alloc pool_amount w =
     (let (dep_a, dep_b) = (if pa_deposit_is_a alloc then (pool_amount, 0) else (0, pool_amount)) in
      rbind (fit E U32 (ledger_seq E + 1)) (\<lambda>expiration.
      rbind (call (approve E token (this_contract E) (pa_pool alloc) pool_amount expiration w)) (\<lambda>w1.
      rbind (call (am_deposit amm E (pa_pool alloc) (this_contract E) dep_a dep_b w1)) (\<lambda>(w2, new_lp).
      rbind (fit E I128 (pa_lp_shares alloc + new_lp)) (\<lambda>lp.
      Inr (alloc\<lparr>pa_lp_shares := lp\<rparr>, w2))))))"

text \<open>The loop over the pools; \<open>i\<close> is the index of the next one.\<close>

fun fund_loop ::
    "'w amm_client \<Rightarrow> 'w token_approval \<Rightarrow> env \<Rightarrow> address \<Rightarrow> int \<Rightarrow> nat \<Rightarrow> nat \<Rightarrow> pool_allocation list \<Rightarrow> int \<Rightarrow> 'w
      \<Rightarrow> (pool_allocation list \<times> 'w) yv_res" where
  "fund_loop amm approve E token amount last_idx i [] remaining w = Inr ([], w)"
| "fund_loop amm approve E token amount last_idx i (alloc # rest) remaining w =
     (if pa_weight alloc = 0 then
        rbind (fund_loop amm approve E token amount last_idx (Suc i) rest remaining w) (\<lambda>(rest', w'). Inr (alloc # rest', w'))
      else
        rbind (if i = last_idx then Inr remaining
               else rbind (fit E I128 (amount * pa_weight alloc)) (\<lambda>p. quot I128 p 10000)) (\<lambda>pool_amount.
        if pool_amount \<le> 0 then
          rbind (fund_loop amm approve E token amount last_idx (Suc i) rest remaining w) (\<lambda>(rest', w'). Inr (alloc # rest', w'))
        else
          rbind (fit E I128 (remaining - pool_amount)) (\<lambda>remaining'.
          rbind (fund_pool amm approve E token alloc pool_amount w) (\<lambda>(alloc', w1).
          rbind (fund_loop amm approve E token amount last_idx (Suc i) rest remaining' w1) (\<lambda>(rest', w').
          Inr (alloc' # rest', w'))))))"

definition yv_deposit ::
    "'w token_xfer \<Rightarrow> 'w amm_client \<Rightarrow> 'w token_approval \<Rightarrow> env \<Rightarrow> yield_vault \<times> 'w \<Rightarrow> address \<Rightarrow> int
      \<Rightarrow> ((yield_vault \<times> 'w) \<times> int) yv_res" where
  "yv_deposit xfer amm approve E sw from amount =
     (let s = fst sw; w = snd sw in
      if amount \<le> 0 then Inl (Err InvalidAmount)
      else
        rbind (require_auth E from) (\<lambda>_.
        rbind (load_vault s) (\<lambda>v.
        if yv_pools s = [] then Inl (Err PoolNotFound)
        else
          rbind (call (xfer E (vs_deposit_token v) from (this_contract E) amount w)) (\<lambda>w1.
          rbind (check_weights amm E (yv_pools s) w1) (\<lambda>last_idx.
          rbind (fund_loop amm approve E (vs_deposit_token v) amount last_idx 0 (yv_pools s) amount w1) (\<lambda>(pools, w2).
          let shares = (if vs_total_shares v = 0 then amount else amount) in
          rbind (fit E I128 (get_or (yv_balances s) from 0 + shares)) (\<lambda>bal.
          rbind (fit E I128 (vs_total_shares v + shares)) (\<lambda>tot.
          Inr ((s\<lparr>yv_pools := pools, yv_balances := (yv_balances s)(from \<mapsto> bal),
                 yv_vault := Some (v\<lparr>vs_total_shares := tot\<rparr>)\<rparr>, w2), shares)))))))))"

text \<open>A part \<open>num / den\<close> of the holding in every pool is withdrawn.\<close>

fun redeem_loop ::
    "'w amm_client \<Rightarrow> env \<Rightarrow> int \<Rightarrow> int \<Rightarrow> pool_allocation list \<Rightarrow> int \<Rightarrow> 'w \<Rightarrow> (pool_allocation list \<times> int \<times> 'w) yv_res" where
  "redeem_loop amm E num den [] received w = Inr ([], received, w)"
| "redeem_loop amm E num den (alloc # rest) received w =
     (if pa_lp_shares alloc = 0 then
        rbind (redeem_loop amm E num den rest received w) (\<lambda>(rest', r, w'). Inr (alloc # rest', r, w'))
      else
        rbind (rbind (fit E I128 (pa_lp_shares alloc * num)) (\<lambda>p. quot I128 p den)) (\<lambda>lp_to_burn.
        if lp_to_burn = 0 then
          rbind (redeem_loop amm E num den rest received w) (\<lambda>(rest', r, w'). Inr (alloc # rest', r, w'))
        else
          rbind (call (am_withdraw amm E (pa_pool alloc) (this_contract E) lp_to_burn w)) (\<lambda>(w1, out_a, out_b).
          rbind (fit E I128 (received + (if pa_deposit_is_a alloc then out_a else out_b))) (\<lambda>received'.
          rbind (fit E I128 (pa_lp_shares alloc - lp_to_burn)) (\<lambda>lp.
          rbind (redeem_loop amm E num den rest received' w1) (\<lambda>(rest', r, w').
          Inr (alloc\<lparr>pa_lp_shares := lp\<rparr> # rest', r, w')))))))"

definition yv_withdraw ::
    "'w token_xfer \<Rightarrow> 'w amm_client \<Rightarrow> env \<Rightarrow> yield_vault \<times> 'w \<Rightarrow> address \<Rightarrow> int \<Rightarrow> ((yield_vault \<times> 'w) \<times> int) yv_res" where
  "yv_withdraw xfer amm E sw to shares =
     (let s = fst sw; w = snd sw in
      if shares \<le> 0 then Inl (Err InvalidAmount)
      else
        rbind (require_auth E to) (\<lambda>_.
        rbind (load_vault s) (\<lambda>v.
        let cur = get_or (yv_balances s) to 0 in
        if shares > cur then Inl (Err InsufficientShares)
        else
          rbind (redeem_loop amm E shares (vs_total_shares v) (yv_pools s) 0 w) (\<lambda>(pools, received, w1).
          rbind (call (xfer E (vs_deposit_token v) (this_contract E) to received w1)) (\<lambda>w2.
          rbind (fit E I128 (cur - shares)) (\<lambda>bal.
          rbind (fit E I128 (vs_total_shares v - shares)) (\<lambda>tot.
          Inr ((s\<lparr>yv_pools := pools, yv_balances := (yv_balances s)(to \<mapsto> bal),
                 yv_vault := Some (v\<lparr>vs_total_shares := tot\<rparr>)\<rparr>, w2), received))))))))"

section \<open>Rebalancing\<close>

text \<open>Every holding is withdrawn in full; too small a return is refused.\<close>

fun collect_loop ::
    "'w amm_client \<Rightarrow> env \<Rightarrow> int \<Rightarrow> pool_allocation list \<Rightarrow> int \<Rightarrow> 'w \<Rightarrow> (pool_allocation list \<times> int \<times> 'w) yv_res" where
  "collect_loop amm E slippage_bps [] tot w = Inr ([], tot, w)"
| "collect_loop amm E slippage_bps (alloc # rest) tot w =
     (if pa_lp_shares alloc = 0 then
        rbind (collect_loop amm E slippage_bps rest tot w) (\<lambda>(rest', t, w'). Inr (alloc # rest', t, w'))
      else
        rbind (call ((if pa_deposit_is_a alloc then am_reserve_a amm else am_reserve_b amm) E (pa_pool alloc) w)) (\<lambda>reserve.
        let expected = min reserve (pa_lp_shares alloc) in
        rbind (call (am_withdraw amm E (pa_pool alloc) (this_contract E) (pa_lp_shares alloc) w)) (\<lambda>(w1, out_a, out_b).
        let received = (if pa_deposit_is_a alloc then out_a else out_b) in
        rbind (fit E I128 (10000 - slippage_bps)) (\<lambda>keep.
        rbind (fit E I128 (expected * keep)) (\<lambda>p.
        rbind (quot I128 p 10000) (\<lambda>min_acceptable.
        if received < min_acceptable then Inl (Err SlippageExceeded)
        else
          rbind (fit E I128 (tot + received)) (\<lambda>tot'.
          rbind (collect_loop amm E slippage_bps rest tot' w1) (\<lambda>(rest', t, w').
          Inr (alloc\<lparr>pa_lp_shares := 0\<rparr> # rest', t, w')))))))))"

definition yv_rebalance ::
    "'w amm_client \<Rightarrow> 'w token_approval \<Rightarrow> env \<Rightarrow> yield_vault \<times> 'w \<Rightarrow> (yield_vault \<times> 'w) yv_res" where
  "yv_rebalance amm approve E sw =
     (let s = fst sw; w = snd sw in
      rbind (load_vault s) (\<lambda>v.
      if length (yv_pools s) \<le> 1 then Inr (s, w)
      else
        rbind (check_weights amm E (yv_pools s) w) (\<lambda>last_idx.
        rbind (collect_loop amm E (vs_slippage_bps v) (yv_pools s) 0 w) (\<lambda>(pools1, total_to_move, w1).
        rbind (if total_to_move > 0 then fund_loop amm approve E (vs_deposit_token v) total_to_move last_idx 0 pools1 total_to_move w1
               else Inr (pools1, w1)) (\<lambda>(pools2, w2).
        Inr (s\<lparr>yv_pools := pools2, yv_events := yv_events s @ [(int last_idx, total_to_move)]\<rparr>, w2))))))"

section \<open>Views\<close>

definition yv_balance :: "yield_vault \<Rightarrow> address \<Rightarrow> int" where
  "yv_balance s user = get_or (yv_balances s) user 0"

fun aprs_of :: "'w amm_client \<Rightarrow> env \<Rightarrow> int \<Rightarrow> pool_allocation list \<Rightarrow> 'w \<Rightarrow> int list yv_res" where
  "aprs_of amm E proxy [] w = Inr []"
| "aprs_of amm E proxy (alloc # rest) w =
     rbind (call (am_fee amm E (pa_pool alloc) w)) (\<lambda>fee.
     rbind (estimate_apr_bps E fee proxy) (\<lambda>apr.
     rbind (aprs_of amm E proxy rest w) (\<lambda>aprs. Inr (apr # aprs))))"

definition yv_get_aprs :: "'w amm_client \<Rightarrow> env \<Rightarrow> yield_vault \<Rightarrow> 'w \<Rightarrow> int list yv_res" where
  "yv_get_aprs amm E s w = rbind (load_vault s) (\<lambda>v. aprs_of amm E (vs_volume_proxy_bps v) (yv_pools s) w)"

fun best_loop :: "'w amm_client \<Rightarrow> env \<Rightarrow> int \<Rightarrow> nat \<Rightarrow> pool_allocation list \<Rightarrow> nat \<Rightarrow> int \<Rightarrow> 'w \<Rightarrow> nat yv_res" where
  "best_loop amm E proxy i [] best_idx best_apr w = Inr best_idx"
| "best_loop amm E proxy i (alloc # rest) best_idx best_apr w =
     rbind (call (am_fee amm E (pa_pool alloc) w)) (\<lambda>fee.
     rbind (estimate_apr_bps E fee proxy) (\<lambda>apr.
     if apr > best_apr then best_loop amm E proxy (Suc i) rest i apr w
     else best_loop amm E proxy (Suc i) rest best_idx best_apr w))"

definition best_pool_idx :: "'w amm_client \<Rightarrow> env \<Rightarrow> pool_allocation list \<Rightarrow> vault_state \<Rightarrow> 'w \<Rightarrow> nat yv_res" where
  "best_pool_idx amm E pools v w = best_loop amm E (vs_volume_proxy_bps v) 0 pools 0 (- 1) w"

end
