(* ===== verification/YieldVaultGuarantees.thy ===== *)
theory YieldVaultGuarantees
  imports YieldVaultProperties
begin

text \<open>
  What users of the yield vault can rely on: the shares add up, a deposit reaches the pools in full and by the weights,
  a withdrawal takes no more than its part of each holding.
\<close>

section \<open>The split of a deposit\<close>

text \<open>What each pool gets of \<open>n\<close> when \<open>r\<close> is left: its part by weight, rounded down, and the last one the rest.\<close>

fun parts :: "int \<Rightarrow> nat \<Rightarrow> nat \<Rightarrow> int list \<Rightarrow> int \<Rightarrow> int list" where
  "parts n last_idx i [] r = []"
| "parts n last_idx i (x # xs) r =
     (let p = (if x = 0 then 0 else if i = last_idx then r else n * x div 10000) in p # parts n last_idx (Suc i) xs (r - p))"

lemma length_parts [simp]: "length (parts n last_idx i xs r) = length xs"
  by (induction xs arbitrary: i r) (auto simp: Let_def)

lemma parts_zero: "\<forall>x \<in> set xs. x = 0 \<Longrightarrow> parts n last_idx i xs r = map (\<lambda>_. 0) xs"
  by (induction xs arbitrary: i r) auto

lemma parts_exact:
  assumes "k < length xs" "0 < xs ! k" "\<forall>j. k < j \<and> j < length xs \<longrightarrow> xs ! j = 0" "\<forall>x \<in> set xs. 0 \<le> x" "0 \<le> n"
    and "(\<Sum>x \<leftarrow> take k xs. n * x div 10000) \<le> r"
  shows "sum_list (parts n (i + k) i xs r) = r \<and> (\<forall>p \<in> set (parts n (i + k) i xs r). 0 \<le> p)
    \<and> (\<forall>j < length xs. j \<noteq> k \<longrightarrow> parts n (i + k) i xs r ! j = n * xs ! j div 10000)"
  using assms
proof (induction xs arbitrary: i r k)
  case (Cons x xs)
  show ?case
  proof (cases k)
    case 0
    have z: "\<forall>y \<in> set xs. y = 0"
    proof
      fix y assume "y \<in> set xs"
      then obtain j where "j < length xs" "y = xs ! j" by (metis in_set_conv_nth)
      with Cons.prems(3) 0 show "y = 0" by (metis Suc_less_eq length_Cons nth_Cons_Suc zero_less_Suc)
    qed
    have "map (\<lambda>_. 0) xs ! (j - 1) = n * (x # xs) ! j div 10000" if "j < length (x # xs)" "j \<noteq> 0" for j
      using that by (cases j) (simp_all add: z [rule_format, OF nth_mem])
    with 0 Cons.prems(2,6) z show ?thesis by (auto simp: parts_zero sum_list_replicate nth_Cons' Let_def simp flip: map_replicate_const)
  next
    case (Suc k')
    let ?p = "n * x div 10000"
    have x: "0 \<le> x" using Cons.prems(4) by simp
    have p: "0 \<le> ?p" using x Cons.prems(5) by (intro div_nonneg_int) simp_all
    have after: "\<forall>j. k' < j \<and> j < length xs \<longrightarrow> xs ! j = 0" using Cons.prems(3) Suc by (metis Suc_less_eq length_Cons nth_Cons_Suc)
    have k': "k' < length xs" "0 < xs ! k'" "\<forall>x \<in> set xs. 0 \<le> x" "(\<Sum>x \<leftarrow> take k' xs. n * x div 10000) \<le> r - ?p"
      using Cons.prems(1,2,4,6) Suc by simp_all
    note IH = Cons.IH [OF k'(1,2) after k'(3) Cons.prems(5) k'(4), of "Suc i"]
    have e: "parts n (i + k) i (x # xs) r = ?p # parts n (Suc i + k') (Suc i) xs (r - ?p)" using Suc by (simp add: Let_def)
    let ?ps = "parts n (Suc i + k') (Suc i) xs (r - ?p)"
    have tl: "sum_list ?ps = r - ?p" "\<forall>q \<in> set ?ps. 0 \<le> q" "\<And>j. j < length xs \<Longrightarrow> j \<noteq> k' \<Longrightarrow> ?ps ! j = n * xs ! j div 10000"
      using IH by blast+
    have "(?p # ?ps) ! j = n * (x # xs) ! j div 10000" if j: "j < length (x # xs)" "j \<noteq> k" for j
    proof (cases j)
      case (Suc m)
      then have "m < length xs" "m \<noteq> k'" using j \<open>k = Suc k'\<close> by auto
      from tl(3) [OF this] Suc show ?thesis by simp
    qed simp
    moreover have "sum_list (?p # ?ps) = r" using tl(1) by simp
    moreover have "\<forall>q \<in> set (?p # ?ps). 0 \<le> q" using tl(2) p by (metis set_ConsD)
    ultimately show ?thesis unfolding e by blast
  qed
qed simp

text \<open>With weights that make up the whole, the rest is at most one unit per other pool more than the part by weight.\<close>

lemma floor_sum:
  assumes "sum_list xs = (10000 :: int)" "\<forall>x \<in> set xs. 0 \<le> x" "0 \<le> n" "xs \<noteq> []"
  shows "(\<Sum>x \<leftarrow> xs. n * x div 10000) \<le> n \<and> n < (\<Sum>x \<leftarrow> xs. n * x div 10000) + int (length xs)"
proof -
  have "(\<Sum>x \<leftarrow> ys. n * x div 10000) * 10000 \<le> n * sum_list ys
    \<and> (ys \<noteq> [] \<longrightarrow> n * sum_list ys < ((\<Sum>x \<leftarrow> ys. n * x div 10000) + int (length ys)) * 10000)" for ys :: "int list"
  proof (induction ys)
    case (Cons y ys)
    have "n * y div 10000 * 10000 \<le> n * y" "n * y < (n * y div 10000 + 1) * 10000" by (rule div_mult_le_int less_Suc_div_mult_int, simp)+
    with Cons show ?case by (cases ys) (auto simp: algebra_simps)
  qed simp
  from this [of xs] assms show ?thesis by simp
qed

lemma sum_take_le:
  assumes "\<forall>x \<in> set xs. 0 \<le> (f x :: int)"
  shows "(\<Sum>x \<leftarrow> take k xs. f x) \<le> (\<Sum>x \<leftarrow> xs. f x)"
proof -
  have "0 \<le> (\<Sum>x \<leftarrow> drop k xs. f x)" using assms by (intro sum_list_nonneg) (auto dest: in_set_dropD)
  moreover have "(\<Sum>x \<leftarrow> xs. f x) = (\<Sum>x \<leftarrow> take k xs. f x) + (\<Sum>x \<leftarrow> drop k xs. f x)"
    by (metis append_take_drop_id map_append sum_list_append)
  ultimately show ?thesis by linarith
qed

lemma parts_bounds:
  assumes "k < length xs" "0 < xs ! k" "\<forall>j. k < j \<and> j < length xs \<longrightarrow> xs ! j = 0" "\<forall>x \<in> set xs. 0 \<le> x" "0 \<le> n" "sum_list xs = 10000"
  shows "sum_list (parts n k 0 xs n) = n \<and> (\<forall>p \<in> set (parts n k 0 xs n). 0 \<le> p)
    \<and> (\<forall>j < length xs. n * xs ! j div 10000 \<le> parts n k 0 xs n ! j \<and> parts n k 0 xs n ! j < n * xs ! j div 10000 + int (length xs))"
proof -
  let ?f = "\<lambda>x. n * x div 10000"
  have nn: "\<forall>x \<in> set xs. 0 \<le> ?f x" using assms(4,5) by (auto intro!: div_nonneg_int)
  have "xs \<noteq> []" using assms(1) by auto
  from floor_sum [OF assms(6,4,5) this] have fl: "(\<Sum>x \<leftarrow> xs. ?f x) \<le> n \<and> n < (\<Sum>x \<leftarrow> xs. ?f x) + int (length xs)" .
  then have "(\<Sum>x \<leftarrow> take k xs. ?f x) \<le> n" using sum_take_le [OF nn, of k] by linarith
  from parts_exact [OF assms(1-5) this, of 0] have e: "sum_list (parts n k 0 xs n) = n" "\<forall>p \<in> set (parts n k 0 xs n). 0 \<le> p"
    "\<And>j. j < length xs \<Longrightarrow> j \<noteq> k \<Longrightarrow> parts n k 0 xs n ! j = ?f (xs ! j)" by auto
  have sum: "sum_list ys = (\<Sum>j < length ys. ys ! j)" for ys :: "int list" by (simp add: sum_list_sum_nth atLeast0LessThan)
  have "n = parts n k 0 xs n ! k + (\<Sum>j \<in> {..<length xs} - {k}. parts n k 0 xs n ! j)"
    using e(1) assms(1) by (simp add: sum sum.remove)
  also have "(\<Sum>j \<in> {..<length xs} - {k}. parts n k 0 xs n ! j) = (\<Sum>j \<in> {..<length xs} - {k}. ?f (xs ! j))"
    by (rule sum.cong) (use e(3) in auto)
  also have "(\<Sum>j \<in> {..<length xs} - {k}. ?f (xs ! j)) = (\<Sum>x \<leftarrow> xs. ?f x) - ?f (xs ! k)"
    using assms(1) by (simp add: sum sum.remove [of _ k])
  finally have "parts n k 0 xs n ! k = n - (\<Sum>x \<leftarrow> xs. ?f x) + ?f (xs ! k)" by linarith
  with fl have "?f (xs ! k) \<le> parts n k 0 xs n ! k \<and> parts n k 0 xs n ! k < ?f (xs ! k) + int (length xs)" by linarith
  moreover have "0 < int (length xs)" using assms(1) by linarith
  ultimately have "?f (xs ! j) \<le> parts n k 0 xs n ! j \<and> parts n k 0 xs n ! j < ?f (xs ! j) + int (length xs)" if "j < length xs" for j
    using e(3) [OF that] by (cases "j = k") simp_all
  with e(1,2) show ?thesis by blast
qed

text \<open>The loop pays these parts, as any meter of the deposits that reach a pool sees.\<close>

lemma fund_pool_paid:
  assumes "fund_pool amm approve E t alloc n w = Inr (alloc', w')"
    and "\<And>p to a b w w' m. am_deposit amm E p to a b w = Some (w', m) \<Longrightarrow> paid q w' = paid q w + (if p = q then a + b else 0)"
    and "\<And>t f p m e w w'. approve E t f p m e w = Some w' \<Longrightarrow> paid q w' = paid q w"
  shows "paid q w' = paid q w + (if pa_pool alloc = q then n else (0 :: int))"
  using assms(1) by (auto simp: fund_pool_def Let_def split: if_splits dest!: assms(2,3))

lemma fund_loop_paid:
  assumes "overflow_checks E" "0 \<le> n"
    and dep: "\<And>p to a b w w' m. am_deposit amm E p to a b w = Some (w', m) \<Longrightarrow> paid q w' = paid q w + (if p = q then a + b else 0)"
    and app: "\<And>t f p m e w w'. approve E t f p m e w = Some w' \<Longrightarrow> paid q w' = paid q w"
  shows "fund_loop amm approve E t n last_idx i pools r w = Inr (pools', w') \<Longrightarrow> \<forall>alloc \<in> set pools. 0 \<le> pa_weight alloc
    \<Longrightarrow> \<forall>p \<in> set (parts n last_idx i (map pa_weight pools) r). 0 \<le> p
    \<Longrightarrow> paid q w' = paid q w + sum_list (map2 (\<lambda>alloc p. if pa_pool alloc = q then p else 0) pools (parts n last_idx i (map pa_weight pools) r))"
proof (induction pools arbitrary: i r w pools')
  case (Cons alloc pools)
  let ?x = "pa_weight alloc"
  let ?p = "if ?x = 0 then 0 else if i = last_idx then r else n * ?x div 10000"
  let ?rest = "parts n last_idx (Suc i) (map pa_weight pools) (r - ?p)"
  have x: "0 \<le> ?x" and xs: "\<forall>alloc \<in> set pools. 0 \<le> pa_weight alloc" using Cons.prems(2) by simp_all
  have pos: "0 \<le> ?p" "\<forall>p \<in> set ?rest. 0 \<le> p" using Cons.prems(3) by (auto simp: Let_def)
  have goal: "sum_list (map2 (\<lambda>alloc p. if pa_pool alloc = q then p else 0) (alloc # pools) (parts n last_idx i (map pa_weight (alloc # pools)) r))
    = (if pa_pool alloc = q then ?p else 0) + sum_list (map2 (\<lambda>alloc p. if pa_pool alloc = q then p else 0) pools ?rest)" by (simp add: Let_def)
  have q: "\<And>y. quot I128 (n * ?x) 10000 = Inr y \<Longrightarrow> y = n * ?x div 10000" using assms(2) x by (subst (asm) quot_pos_Inr) simp_all
  show ?case
  proof (cases "?p = 0")
    case True
    with Cons.prems(1) assms(1) obtain pools'' where "fund_loop amm approve E t n last_idx (Suc i) pools r w = Inr (pools'', w')"
      by (auto split: if_splits dest!: q)
    from Cons.IH [OF this xs] pos(2) show ?thesis unfolding goal True by simp
  next
    case False
    with pos(1) have p: "0 < ?p" by linarith
    with Cons.prems(1) assms(1) obtain alloc' w1 pools'' where "fund_pool amm approve E t alloc ?p w = Inr (alloc', w1)"
      "fund_loop amm approve E t n last_idx (Suc i) pools (r - ?p) w1 = Inr (pools'', w')"
      by (auto split: if_splits dest!: q)
    from fund_pool_paid [OF this(1), of paid q] Cons.IH [OF this(2) xs pos(2)] dep app show ?thesis unfolding goal by fastforce
  qed
qed simp

lemma sum_map2_distinct:
  assumes "distinct (map pa_pool pools)" "length ps = length pools" "k < length pools"
  shows "sum_list (map2 (\<lambda>alloc p. if pa_pool alloc = pa_pool (pools ! k) then p else 0) pools ps) = (ps ! k :: int)"
proof -
  let ?q = "pa_pool (pools ! k)"
  have "sum_list (map2 (\<lambda>alloc p. if pa_pool alloc = ?q then p else 0) pools ps)
    = (\<Sum>j < length pools. if pa_pool (pools ! j) = ?q then ps ! j else 0)"
    using assms(2) by (simp add: sum_list_sum_nth atLeast0LessThan)
  also have "\<dots> = (\<Sum>j < length pools. if j = k then ps ! j else 0)"
    by (rule sum.cong) (use nth_eq_iff_index_eq [OF assms(1)] assms(3) in auto)
  finally show ?thesis using assms(3) by simp
qed

section \<open>The part of a withdrawal\<close>

lemma redeem_loop_shares:
  assumes "overflow_checks E" "0 \<le> num" "0 < den"
  shows "redeem_loop amm E num den pools r w = Inr (pools', r', w') \<Longrightarrow> \<forall>alloc \<in> set pools. 0 \<le> pa_lp_shares alloc
    \<Longrightarrow> map pa_lp_shares pools' = map (\<lambda>alloc. pa_lp_shares alloc - pa_lp_shares alloc * num div den) pools"
proof (induction pools arbitrary: r w pools')
  case (Cons alloc pools)
  have q: "\<And>y. quot I128 (pa_lp_shares alloc * num) den = Inr y \<Longrightarrow> y = pa_lp_shares alloc * num div den"
    using assms(2,3) Cons.prems(2) by (subst (asm) quot_pos_Inr) simp_all
  have "\<forall>alloc \<in> set pools. 0 \<le> pa_lp_shares alloc" using Cons.prems(2) by simp
  note IH = Cons.IH [OF _ this]
  from Cons.prems(1) assms(1) show ?case by (auto split: if_splits dest!: q IH)
qed simp

section \<open>An example\<close>

text \<open>
  Token 901; the pools are accounts that pay out one for one. Two pools with equal weights; users 5 and 6 deposit, the
  weights are changed and the vault is rebalanced.
\<close>

type_synonym vault_demo_world = "tokens \<times> (address \<Rightarrow> int)"

definition demo_xfer :: "vault_demo_world token_xfer" where
  "demo_xfer E t f to n w = map_option (\<lambda>t'. (t', snd w)) (client_transfer E t f to n (fst w))"

definition demo_approve :: "vault_demo_world token_approval" where
  "demo_approve E t f p n e w = Some w"

definition demo_amm :: "vault_demo_world amm_client" where
  "demo_amm = \<lparr>am_deposit = (\<lambda>E p to a b w. map_option (\<lambda>t'. ((t', (snd w)(p := snd w p + (a + b))), a + b)) (client_transfer E 901 to p (a + b) (fst w))),
     am_withdraw = (\<lambda>E p to n w. map_option (\<lambda>t'. ((t', (snd w)(p := snd w p - n)), n, 0)) (client_transfer (E\<lparr>this_contract := p\<rparr>) 901 p to n (fst w))),
     am_reserve_a = (\<lambda>E p w. Some (snd w p)), am_reserve_b = (\<lambda>E p w. Some 0), am_fee = (\<lambda>E p w. Some 30)\<rparr>"

definition vault_world :: vault_demo_world where
  "vault_world = ([901 \<mapsto> empty_token\<lparr>tk_balances := [5 \<mapsto> 1000, 6 \<mapsto> 501]\<rparr>], \<lambda>p. 0)"

definition vault_demo :: "(env \<times> yv_op) list" where
  "vault_demo = [(env0 [], YInitialize 9 901 100 10000), (env0 [9], YRegister 21 True), (env0 [9], YRegister 22 True),
     (env0 [9], YRegister 23 True), (env0 [9], YSetWeights [5000, 3000, 2000]), (env0 [5], YDeposit 5 1000)]"

definition vault_figures :: "yield_vault \<times> vault_demo_world \<Rightarrow> int option \<times> int list \<times> int list \<times> int list" where
  "vault_figures sw = (map_option vs_total_shares (yv_vault (fst sw)), map pa_lp_shares (yv_pools (fst sw)),
     map (\<lambda>u. get_or (yv_balances (fst sw)) u 0) [5, 6], map (snd (snd sw)) [21, 22, 23])"

lemma vault_demo_calls: "\<forall>c \<in> set vault_demo. yv_args (fst c) (snd c)"
  by (simp add: vault_demo_def env0_def)

lemma vault_demo_figures:
  "vault_figures (run_calls (yv_exec demo_xfer demo_amm demo_approve) vault_demo (empty_vault, vault_world)) = (Some 1000, [500, 300, 200], [1000, 0], [500, 300, 200])"
  "vault_figures (run_calls (yv_exec demo_xfer demo_amm demo_approve) (vault_demo @ [(env0 [6], YDeposit 6 501), (env0 [5], YWithdraw 5 333)]) (empty_vault, vault_world))
   = (Some 1168, [584, 351, 235], [667, 501], [584, 351, 235])"
  "vault_figures (run_calls (yv_exec demo_xfer demo_amm demo_approve) (vault_demo @ [(env0 [9], YSetWeights [0, 5000, 5000]), (env0 [], YRebalance)]) (empty_vault, vault_world))
   = (Some 1000, [0, 500, 500], [1000, 0], [0, 500, 500])"
  by code_simp+

section \<open>Properties\<close>

text \<open>
  C22. After any calls, failed ones included and whatever the pools and the token do, the recorded total is the sum of
  the users' shares and none of them is negative; the registered pools are at most eight and all different, no weight
  exceeds one half, and the weights make up the whole or are all zero.
\<close>

theorem yv_shares_add_up:
  assumes "\<forall>c \<in> set cs. yv_args (fst c) (snd c)" "(s, w) = run_calls (yv_exec xfer amm approve) cs (empty_vault, w0)"
    and "yv_vault s = Some v"
  shows "vs_total_shares v = map_sum (yv_balances s) \<and> (\<forall>u. 0 \<le> yv_balance s u)
    \<and> distinct (map pa_pool (yv_pools s)) \<and> length (yv_pools s) \<le> 8 \<and> (\<forall>alloc \<in> set (yv_pools s). 0 \<le> pa_weight alloc \<and> pa_weight alloc \<le> 5000)
    \<and> (sum_list (map pa_weight (yv_pools s)) = 10000 \<or> (\<forall>alloc \<in> set (yv_pools s). pa_weight alloc = 0))"
proof -
  have i: "yv_inv s" using yv_reached [OF assms(1,2)] .
  then have "sound_weights (yv_pools s)" by (simp add: yv_inv_def)
  with sum_list_zero_weights [of "yv_pools s"] have "(\<forall>alloc \<in> set (yv_pools s). 0 \<le> pa_weight alloc \<and> pa_weight alloc \<le> 5000)
    \<and> (sum_list (map pa_weight (yv_pools s)) = 10000 \<or> (\<forall>alloc \<in> set (yv_pools s). pa_weight alloc = 0))"
    by (auto simp: sound_weights_def)
  with i assms(3) show ?thesis by (simp add: yv_inv_def yv_balance_def MAX_POOLS_def)
qed

text \<open>The vault of the example.\<close>

lemma vault_demo_state:
  obtains s w v where "(s, w) = run_calls (yv_exec demo_xfer demo_amm demo_approve) vault_demo (empty_vault, vault_world)"
    "yv_vault s = Some v" "vs_total_shares v = 1000" "map pa_lp_shares (yv_pools s) = [500, 300, 200]"
    "map pa_pool (yv_pools s) = [21, 22, 23]" "map pa_weight (yv_pools s) = [5000, 3000, 2000]"
proof -
  let ?r = "run_calls (yv_exec demo_xfer demo_amm demo_approve) vault_demo (empty_vault, vault_world)"
  obtain s w where r: "(s, w) = ?r" by (metis surj_pair)
  have "map_option vs_total_shares (yv_vault (fst ?r)) = Some 1000 \<and> map pa_lp_shares (yv_pools (fst ?r)) = [500, 300, 200]
    \<and> map pa_pool (yv_pools (fst ?r)) = [21, 22, 23] \<and> map pa_weight (yv_pools (fst ?r)) = [5000, 3000, 2000]" by code_simp
  then have f: "map_option vs_total_shares (yv_vault s) = Some 1000" "map pa_lp_shares (yv_pools s) = [500, 300, 200]"
    "map pa_pool (yv_pools s) = [21, 22, 23]" "map pa_weight (yv_pools s) = [5000, 3000, 2000]" by (simp_all flip: r)
  from f(1) obtain v where "yv_vault s = Some v" "vs_total_shares v = 1000" by auto
  from that [OF r this f(2-4)] show ?thesis .
qed

theorem yv_shares_add_up_witness:
  "\<exists>s w. (s, w) = run_calls (yv_exec demo_xfer demo_amm demo_approve) vault_demo (empty_vault, vault_world) \<and> map_sum (yv_balances s) = 1000"
proof -
  obtain s w v where r: "(s, w) = run_calls (yv_exec demo_xfer demo_amm demo_approve) vault_demo (empty_vault, vault_world)"
    and v: "yv_vault s = Some v" "vs_total_shares v = 1000" by (rule vault_demo_state)
  from conjunct1 [OF yv_shares_add_up [OF vault_demo_calls r v(1)]] v(2) have "map_sum (yv_balances s) = 1000" by simp
  with r show ?thesis by (intro exI conjI)
qed

text \<open>
  A deposit reaches the pools to the last unit: what a deposit of \<open>n\<close> pays into the pools adds up to \<open>n\<close>, and each
  pool gets its part by weight, rounded down, or at most seven units more. This holds for every meter \<open>paid\<close> of the
  amounts deposited in a pool, which deposits raise and transfers and approvals leave alone.
\<close>

theorem yv_deposit_split:
  assumes "\<forall>c \<in> set cs. yv_args (fst c) (snd c)" "(s, w) = run_calls (yv_exec xfer amm approve) cs (empty_vault, w0)"
    and "yv_deposit xfer amm approve E (s, w) u n = Inr ((s', w'), shares)" "overflow_checks E"
    and "\<And>q p to a b w w' m. am_deposit amm E p to a b w = Some (w', m) \<Longrightarrow> paid q w' = paid q w + (if p = q then a + b else (0 :: int))"
    and "\<And>q t f p m e w w'. approve E t f p m e w = Some w' \<Longrightarrow> paid q w' = paid q w"
    and "\<And>q t f to m w w'. xfer E t f to m w = Some w' \<Longrightarrow> paid q w' = paid q w"
  shows "(\<Sum>alloc \<leftarrow> yv_pools s. paid (pa_pool alloc) w' - paid (pa_pool alloc) w) = n
    \<and> (\<forall>alloc \<in> set (yv_pools s). n * pa_weight alloc div 10000 \<le> paid (pa_pool alloc) w' - paid (pa_pool alloc) w
         \<and> paid (pa_pool alloc) w' - paid (pa_pool alloc) w \<le> n * pa_weight alloc div 10000 + 7)"
proof -
  let ?ps = "yv_pools s" and ?xs = "map pa_weight (yv_pools s)"
  have i: "distinct (map pa_pool ?ps)" "length ?ps \<le> 8" "\<forall>x \<in> set ?xs. 0 \<le> x"
    using yv_reached [OF assms(1,2)] by (simp_all add: yv_inv_def MAX_POOLS_def sound_weights_def)
  obtain v w1 l pools where v: "yv_vault s = Some v" and d: "0 < n" "xfer E (vs_deposit_token v) u (this_contract E) n w = Some w1"
    "check_weights amm E ?ps w1 = Inr l" "fund_loop amm approve E (vs_deposit_token v) n l 0 ?ps n w1 = Inr (pools, w')"
    by (rule yv_deposit_Inr [OF assms(3,4)], intro that) assumption+
  from d(3) have "weigh E 0 ?ps 0 None = Inr (10000, Some l)" by (auto simp: check_weights_def)
  from weigh_Inr [OF this assms(4)] have l: "sum_list ?xs = 10000" "l < length ?xs" "0 < ?xs ! l"
    "\<forall>j. l < j \<and> j < length ?xs \<longrightarrow> ?xs ! j \<le> 0" by auto
  have "\<forall>j. l < j \<and> j < length ?xs \<longrightarrow> ?xs ! j = 0"
    using l(4) i(3) by (metis nth_mem order_antisym)
  from parts_bounds [OF l(2,3) this i(3) _ l(1), of n] d(1) have p: "sum_list (parts n l 0 ?xs n) = n" "\<forall>p \<in> set (parts n l 0 ?xs n). 0 \<le> p"
    "\<And>j. j < length ?ps \<Longrightarrow> n * ?xs ! j div 10000 \<le> parts n l 0 ?xs n ! j \<and> parts n l 0 ?xs n ! j < n * ?xs ! j div 10000 + int (length ?ps)"
    by auto
  have pay: "paid (pa_pool (?ps ! k)) w' - paid (pa_pool (?ps ! k)) w = parts n l 0 ?xs n ! k" if k: "k < length ?ps" for k
  proof -
    have "paid (pa_pool (?ps ! k)) w' = paid (pa_pool (?ps ! k)) w1
      + sum_list (map2 (\<lambda>alloc p. if pa_pool alloc = pa_pool (?ps ! k) then p else 0) ?ps (parts n l 0 ?xs n))"
      by (rule fund_loop_paid [OF assms(4) _ assms(5,6) d(4)]) (use d(1) i(3) p(2) in auto)
    then show ?thesis using sum_map2_distinct [OF i(1) _ k, of "parts n l 0 ?xs n"] assms(7) [OF d(2)] by simp
  qed
  have "map (\<lambda>alloc. paid (pa_pool alloc) w' - paid (pa_pool alloc) w) ?ps = parts n l 0 ?xs n"
    using pay by (intro nth_equalityI) simp_all
  moreover have "n * pa_weight alloc div 10000 \<le> paid (pa_pool alloc) w' - paid (pa_pool alloc) w
      \<and> paid (pa_pool alloc) w' - paid (pa_pool alloc) w \<le> n * pa_weight alloc div 10000 + 7" if "alloc \<in> set ?ps" for alloc
  proof -
    from that obtain k where k: "k < length ?ps" "alloc = ?ps ! k" by (metis in_set_conv_nth)
    with p(3) [OF k(1)] pay [OF k(1)] i(2) show ?thesis by simp
  qed
  ultimately show ?thesis using p(1) by simp
qed

lemma vault_demo_deposit:
  assumes "(s, w) = run_calls (yv_exec demo_xfer demo_amm demo_approve) vault_demo (empty_vault, vault_world)"
  obtains s' w' where "yv_deposit demo_xfer demo_amm demo_approve (env0 [6]) (s, w) 6 501 = Inr ((s', w'), 501)" "map (snd w') [21, 22, 23] = [750, 450, 301]"
proof -
  have "(case yv_deposit demo_xfer demo_amm demo_approve (env0 [6]) (run_calls (yv_exec demo_xfer demo_amm demo_approve) vault_demo (empty_vault, vault_world)) 6 501 of
      Inl e \<Rightarrow> None | Inr ((s', w'), r) \<Rightarrow> Some (map (snd w') [21, 22, 23], r)) = Some ([750, 450, 301], 501)" by code_simp
  then have "(case yv_deposit demo_xfer demo_amm demo_approve (env0 [6]) (s, w) 6 501 of
      Inl e \<Rightarrow> None | Inr ((s', w'), r) \<Rightarrow> Some (map (snd w') [21, 22, 23], r)) = Some ([750, 450, 301], 501)" by (simp flip: assms)
  then show ?thesis using that by (auto split: sum.splits prod.splits)
qed

theorem yv_deposit_split_witness:
  "\<exists>s w s' w'. (s, w) = run_calls (yv_exec demo_xfer demo_amm demo_approve) vault_demo (empty_vault, vault_world)
     \<and> yv_deposit demo_xfer demo_amm demo_approve (env0 [6]) (s, w) 6 501 = Inr ((s', w'), 501)
     \<and> map (snd w') [21, 22, 23] = [750, 450, 301] \<and> (\<Sum>alloc \<leftarrow> yv_pools s. snd w' (pa_pool alloc) - snd w (pa_pool alloc)) = 501"
proof -
  obtain s w where r: "(s, w) = run_calls (yv_exec demo_xfer demo_amm demo_approve) vault_demo (empty_vault, vault_world)"
    by (rule vault_demo_state)
  from vault_demo_deposit [OF r] obtain s' w' where d: "yv_deposit demo_xfer demo_amm demo_approve (env0 [6]) (s, w) 6 501 = Inr ((s', w'), 501)"
    "map (snd w') [21, 22, 23] = [750, 450, 301]" .
  have "overflow_checks (env0 [6])" by (simp add: env0_def)
  note c = yv_deposit_split [OF vault_demo_calls r d(1) this, of "\<lambda>q w. snd w q"]
  have "(\<Sum>alloc \<leftarrow> yv_pools s. snd w' (pa_pool alloc) - snd w (pa_pool alloc)) = 501"
    by (rule conjunct1 [OF c]) (auto simp: demo_amm_def demo_approve_def demo_xfer_def)
  with r d show ?thesis by (intro exI [of _ s] exI [of _ w] exI [of _ s'] exI [of _ w'] conjI)
qed

text \<open>
  A withdrawal takes its part of every holding and no more: of the LP shares the vault holds in a pool exactly
  \<open>holding * shares / total\<close>, rounded down, is burned, so that the holding per remaining share never falls, and the last
  user leaves nothing behind.
\<close>

theorem yv_withdraw_proportional:
  assumes "\<forall>c \<in> set cs. yv_args (fst c) (snd c)" "(s, w) = run_calls (yv_exec xfer amm approve) cs (empty_vault, w0)"
    and "yv_withdraw xfer amm E (s, w) u n = Inr ((s', w'), received)" "overflow_checks E" "yv_vault s = Some v"
    and "\<forall>alloc \<in> set (yv_pools s). 0 \<le> pa_lp_shares alloc"
  shows "map pa_lp_shares (yv_pools s') = map (\<lambda>alloc. pa_lp_shares alloc - pa_lp_shares alloc * n div vs_total_shares v) (yv_pools s)
    \<and> (\<exists>v'. yv_vault s' = Some v' \<and> vs_total_shares v' = vs_total_shares v - n \<and>
         (\<forall>k < length (yv_pools s). pa_lp_shares (yv_pools s ! k) * vs_total_shares v' \<le> pa_lp_shares (yv_pools s' ! k) * vs_total_shares v
            \<and> (vs_total_shares v' = 0 \<longrightarrow> pa_lp_shares (yv_pools s' ! k) = 0)))"
proof -
  let ?t = "vs_total_shares v"
  have i: "yv_inv s" using yv_reached [OF assms(1,2)] .
  from assms(3,4) obtain w1 pools where d: "0 < n" "n \<le> get_or (yv_balances s) u 0"
    "redeem_loop amm E n ?t (yv_pools s) 0 w = Inr (pools, received, w1)"
    "yv_pools s' = pools" "yv_vault s' = Some (v\<lparr>vs_total_shares := ?t - n\<rparr>)"
    by (rule yv_withdraw_Inr) (use assms(5) in simp)
  have "get_or (yv_balances s) u 0 \<le> ?t" using i assms(5) get_or_le_map_sum [of "yv_balances s" u] by (simp add: yv_inv_def)
  then have t: "0 < ?t" "n \<le> ?t" using d(1,2) by linarith+
  have m: "map pa_lp_shares pools = map (\<lambda>alloc. pa_lp_shares alloc - pa_lp_shares alloc * n div ?t) (yv_pools s)"
    by (rule redeem_loop_shares [OF assms(4) _ t(1) d(3) assms(6)]) (use d(1) in simp)
  have "pa_lp_shares (yv_pools s ! k) * (?t - n) \<le> pa_lp_shares (pools ! k) * ?t \<and> (?t - n = 0 \<longrightarrow> pa_lp_shares (pools ! k) = 0)"
    if k: "k < length (yv_pools s)" for k
  proof -
    let ?x = "pa_lp_shares (yv_pools s ! k)"
    have l: "length pools = length (yv_pools s)" using arg_cong [OF m, of length] by simp
    from arg_cong [OF m, of "\<lambda>xs. xs ! k"] k l have e: "pa_lp_shares (pools ! k) = ?x - ?x * n div ?t" by simp
    have "?x * n div ?t * ?t \<le> ?x * n" using t(1) by (rule div_mult_le_int)
    then have "?x * (?t - n) \<le> (?x - ?x * n div ?t) * ?t" by (simp add: algebra_simps)
    moreover have "?t = n \<Longrightarrow> ?x - ?x * n div ?t = 0" using t(1) by simp
    ultimately show ?thesis unfolding e by simp
  qed
  with m d(4,5) show ?thesis by simp
qed

theorem yv_withdraw_proportional_witness:
  "\<exists>s w s' w' received. (s, w) = run_calls (yv_exec demo_xfer demo_amm demo_approve) vault_demo (empty_vault, vault_world)
     \<and> yv_withdraw demo_xfer demo_amm (env0 [5]) (s, w) 5 333 = Inr ((s', w'), received) \<and> map pa_lp_shares (yv_pools s') = [334, 201, 134]"
proof -
  obtain s w v where r: "(s, w) = run_calls (yv_exec demo_xfer demo_amm demo_approve) vault_demo (empty_vault, vault_world)"
    and v: "yv_vault s = Some v" "vs_total_shares v = 1000" and lp: "map pa_lp_shares (yv_pools s) = [500, 300, 200]"
    by (rule vault_demo_state)
  have "(case yv_withdraw demo_xfer demo_amm (env0 [5]) (run_calls (yv_exec demo_xfer demo_amm demo_approve) vault_demo (empty_vault, vault_world)) 5 333 of
    Inl e \<Rightarrow> False | Inr x \<Rightarrow> True)" by code_simp
  then have "case yv_withdraw demo_xfer demo_amm (env0 [5]) (s, w) 5 333 of Inl e \<Rightarrow> False | Inr x \<Rightarrow> True" by (simp flip: r)
  then obtain s' w' received where d: "yv_withdraw demo_xfer demo_amm (env0 [5]) (s, w) 5 333 = Inr ((s', w'), received)"
    by (auto split: sum.splits)
  have "overflow_checks (env0 [5])" by (simp add: env0_def)
  moreover have "\<forall>n \<in> set (map pa_lp_shares (yv_pools s)). 0 \<le> n" unfolding lp by simp
  then have "\<forall>alloc \<in> set (yv_pools s). 0 \<le> pa_lp_shares alloc" by simp
  ultimately have "map pa_lp_shares (yv_pools s') = map (\<lambda>alloc. pa_lp_shares alloc - pa_lp_shares alloc * 333 div vs_total_shares v) (yv_pools s)"
    using yv_withdraw_proportional [OF vault_demo_calls r d _ v(1)] by blast
  also have "\<dots> = map (\<lambda>n. n - n * 333 div 1000) (map pa_lp_shares (yv_pools s))" by (simp add: v(2))
  also have "\<dots> = [334, 201, 134]" unfolding lp by simp
  finally show ?thesis using r d by (intro exI [of _ s] exI [of _ w] exI [of _ s'] exI [of _ w'] exI [of _ received] conjI)
qed

end
