(* ===== verification/OracleAggregator.thy ===== *)
theory OracleAggregator
  imports Prelude
begin

text \<open>
  The price aggregator \<open>contracts/oracle_aggregator/src/lib.rs\<close>: it asks several sources, takes the median of the prices
  near the median, and keeps it as a sample of a rolling time-weighted average. What a source answers is the
  parameter \<open>source\<close>: \<open>None\<close> stands for a call that fails.
\<close>

section \<open>Data\<close>

definition DEFAULT_TWAP_WINDOW_SECONDS :: int where "DEFAULT_TWAP_WINDOW_SECONDS = 3600"
definition STDDEV_MULTIPLIER :: int where "STDDEV_MULTIPLIER = 2"
definition MAX_DEVIATION_PERCENT :: int where "MAX_DEVIATION_PERCENT = 5"

datatype oracle_error =
    NotEnoughSources | NotEnoughValidPrices | NotEnoughReliableSources | InvalidPrice | OracleStaleness | InvalidWindow | InvalidOraclePrice

record oracle_record =
  or_price :: int
  or_timestamp :: int

record twap_sample =
  ts_price :: int
  ts_timestamp :: int

record aggregator =
  oa_window_seconds :: "int option"
  oa_samples :: "twap_sample list option"

definition empty_aggregator :: aggregator where
  "empty_aggregator = \<lparr>oa_window_seconds = None, oa_samples = None\<rparr>"

type_synonym 'a oa_res = "(oracle_error, 'a) res"

definition oa_initialize :: "aggregator \<Rightarrow> int \<Rightarrow> aggregator oa_res" where
  "oa_initialize s window_seconds =
     (if window_seconds = 0 then Inl (Err InvalidWindow)
      else Inr (s\<lparr>oa_window_seconds := Some window_seconds, oa_samples := Some []\<rparr>))"

section \<open>Arithmetic on price lists\<close>

text \<open>
  The bubble sort: \<open>bubble_pass k\<close> is the inner loop over the first \<open>k\<close> neighbours, \<open>sort_loop k\<close> the outer one, whose
  rounds make one comparison less each.
\<close>

fun bubble_pass :: "nat \<Rightarrow> int list \<Rightarrow> int list" where
  "bubble_pass (Suc k) (current # next # rest) =
     (if current > next then next # bubble_pass k (current # rest) else current # bubble_pass k (next # rest))"
| "bubble_pass k prices = prices"

fun sort_loop :: "nat \<Rightarrow> int list \<Rightarrow> int list" where
  "sort_loop 0 prices = prices"
| "sort_loop (Suc k) prices = sort_loop k (bubble_pass k prices)"

definition sort_prices :: "int list \<Rightarrow> int list" where
  "sort_prices prices = sort_loop (length prices) prices"

text \<open>Only called on lists that are not empty.\<close>

definition median :: "env \<Rightarrow> int list \<Rightarrow> int oa_res" where
  "median E prices =
     (let len = length prices; mid = len div 2 in
      if len mod 2 = 1 then Inr (prices ! mid)
      else rbind (fit E I128 (prices ! (mid - 1) + prices ! mid)) (\<lambda>n. quot I128 n 2))"

definition abs_diff :: "env \<Rightarrow> int \<Rightarrow> int \<Rightarrow> int oa_res" where
  "abs_diff E left right = (if left > right then fit E I128 (left - right) else fit E I128 (right - left))"

text \<open>The loop of \<open>isqrt\<close>; the lower bound of the type, which every \<open>y\<close> obeys, is what makes it a recursion.\<close>

function isqrt_loop :: "env \<Rightarrow> int \<Rightarrow> int \<Rightarrow> int \<Rightarrow> int oa_res" where
  "isqrt_loop E n x y =
     (if y < x \<and> ity_min I128 \<le> y
      then (case rbind (quot I128 n y) (\<lambda>q. rbind (fit E I128 (y + q)) (\<lambda>d. quot I128 d 2)) of
              Inl e \<Rightarrow> Inl e
            | Inr y' \<Rightarrow> isqrt_loop E n y y')
      else Inr x)"
  by pat_completeness auto
termination
  by (relation "measure (\<lambda>(E, n, x, y). nat (x - ity_min I128))") auto

declare isqrt_loop.simps [simp del]

definition isqrt :: "env \<Rightarrow> int \<Rightarrow> int oa_res" where
  "isqrt E n =
     (if n \<le> 0 then Inr 0
      else rbind (fit E I128 (n + 1)) (\<lambda>d. rbind (quot I128 d 2) (\<lambda>y. isqrt_loop E n n y)))"

fun var_sum :: "env \<Rightarrow> int \<Rightarrow> int list \<Rightarrow> int \<Rightarrow> int oa_res" where
  "var_sum E center [] acc = Inr acc"
| "var_sum E center (price # rest) acc =
     rbind (abs_diff E price center) (\<lambda>diff. var_sum E center rest (saturate I128 (acc + saturate I128 (diff * diff))))"

definition stddev :: "env \<Rightarrow> int list \<Rightarrow> int \<Rightarrow> int oa_res" where
  "stddev E prices center =
     (let n = int (length prices) in
      if n = 0 then Inr 0
      else rbind (var_sum E center prices 0) (\<lambda>v. rbind (quot I128 v n) (isqrt E)))"

definition keeps_price :: "int \<Rightarrow> int \<Rightarrow> int \<Rightarrow> bool" where
  "keeps_price std m diff =
     (\<not> (std > 0 \<and> diff \<ge> saturate I128 (std * STDDEV_MULTIPLIER))
      \<and> \<not> saturate I128 (diff * 100) > saturate I128 (m * MAX_DEVIATION_PERCENT))"

fun filter_loop :: "env \<Rightarrow> int \<Rightarrow> int \<Rightarrow> int list \<Rightarrow> int list oa_res" where
  "filter_loop E std m [] = Inr []"
| "filter_loop E std m (price # rest) =
     rbind (abs_diff E price m) (\<lambda>diff.
     rbind (filter_loop E std m rest) (\<lambda>kept. Inr (if keeps_price std m diff then price # kept else kept)))"

definition filter_outliers :: "env \<Rightarrow> int list \<Rightarrow> int \<Rightarrow> int list oa_res" where
  "filter_outliers E prices m = rbind (stddev E prices m) (\<lambda>std. filter_loop E std m prices)"

section \<open>The rolling average\<close>

text \<open>The loop of \<open>prune_samples\<close>: the last sample before the window is kept back until one inside it follows.\<close>

fun prune_loop :: "int \<Rightarrow> twap_sample list \<Rightarrow> twap_sample list \<Rightarrow> twap_sample option \<Rightarrow> twap_sample list \<times> twap_sample option" where
  "prune_loop window_start [] pruned last_before = (pruned, last_before)"
| "prune_loop window_start (sample # rest) pruned last_before =
     (if ts_timestamp sample < window_start then prune_loop window_start rest pruned (Some sample)
      else prune_loop window_start rest (pruned @ (case last_before of None \<Rightarrow> [] | Some prev \<Rightarrow> [prev]) @ [sample]) None)"

definition prune_samples :: "twap_sample list \<Rightarrow> int \<Rightarrow> int \<Rightarrow> twap_sample list" where
  "prune_samples samples now window =
     (let window_start = saturate U64 (now - window);
          (pruned, last_before) = prune_loop window_start samples [] None in
      if pruned = [] then (case last_before of None \<Rightarrow> [] | Some prev \<Rightarrow> [prev]) else pruned)"

text \<open>\<open>end - start\<close> is positive where it is computed, so the cast of the \<open>u64\<close> keeps its value.\<close>

fun twap_loop :: "int \<Rightarrow> int \<Rightarrow> twap_sample list \<Rightarrow> int \<Rightarrow> int \<Rightarrow> int \<times> int" where
  "twap_loop window_start now [] weighted duration = (weighted, duration)"
| "twap_loop window_start now (sample # rest) weighted duration =
     (let start = (if ts_timestamp sample < window_start then window_start else ts_timestamp sample);
          stop = (case rest of [] \<Rightarrow> now | next # _ \<Rightarrow> ts_timestamp next) in
      if stop > start then
        twap_loop window_start now rest (saturate I128 (weighted + saturate I128 (ts_price sample * (stop - start))))
          (saturate I128 (duration + (stop - start)))
      else twap_loop window_start now rest weighted duration)"

definition compute_twap :: "twap_sample list \<Rightarrow> int \<Rightarrow> int \<Rightarrow> int oa_res" where
  "compute_twap samples now window =
     (if samples = [] then Inr 0
      else
        let window_start = saturate U64 (now - window);
            (weighted, duration) = twap_loop window_start now samples 0 0 in
        if duration = 0 then Inr (ts_price (last samples)) else quot I128 weighted duration)"

definition window_of :: "aggregator \<Rightarrow> int" where
  "window_of s = (case oa_window_seconds s of None \<Rightarrow> DEFAULT_TWAP_WINDOW_SECONDS | Some w \<Rightarrow> w)"

definition samples_of :: "aggregator \<Rightarrow> twap_sample list" where
  "samples_of s = (case oa_samples s of None \<Rightarrow> [] | Some xs \<Rightarrow> xs)"

definition oa_get_twap :: "env \<Rightarrow> aggregator \<Rightarrow> int oa_res" where
  "oa_get_twap E s = compute_twap (samples_of s) (ledger_time E) (window_of s)"

definition record_sample :: "env \<Rightarrow> aggregator \<Rightarrow> int \<Rightarrow> aggregator" where
  "record_sample E s price =
     (let now = ledger_time E; window = window_of s;
          samples = samples_of s @ [\<lparr>ts_price = price, ts_timestamp = now\<rparr>] in
      s\<lparr>oa_samples := Some (prune_samples samples now window), oa_window_seconds := Some window\<rparr>)"

section \<open>Aggregation\<close>

text \<open>The loop over the sources: the number of fresh answers and the valid prices, in order.\<close>

fun ask_sources :: "env \<Rightarrow> (address \<Rightarrow> oracle_record option) \<Rightarrow> int \<Rightarrow> address list \<Rightarrow> int \<Rightarrow> int list \<Rightarrow> (int \<times> int list) oa_res" where
  "ask_sources E source max_age [] fresh prices = Inr (fresh, prices)"
| "ask_sources E source max_age (a # rest) fresh prices =
     (case source a of
        None \<Rightarrow> ask_sources E source max_age rest fresh prices
      | Some r \<Rightarrow>
          if saturate U64 (ledger_time E - or_timestamp r) > max_age then Inl (Err InvalidOraclePrice)
          else
            rbind (fit E U32 (fresh + 1)) (\<lambda>fresh'.
            ask_sources E source max_age rest fresh' (if or_price r > 0 then prices @ [or_price r] else prices)))"

definition oa_aggregate_price ::
    "(address \<Rightarrow> oracle_record option) \<Rightarrow> env \<Rightarrow> aggregator \<Rightarrow> address list \<Rightarrow> int \<Rightarrow> (aggregator \<times> int) oa_res" where
  "oa_aggregate_price source E s sources max_age_seconds =
     (if length sources < 3 then Inl (Err NotEnoughSources)
      else
        rbind (ask_sources E source max_age_seconds sources 0 []) (\<lambda>(fresh_count, prices).
        if fresh_count < 3 then Inl (Err OracleStaleness)
        else if length prices < 3 then Inl (Err NotEnoughValidPrices)
        else
          let sorted_prices = sort_prices prices in
          rbind (median E sorted_prices) (\<lambda>m.
          rbind (filter_outliers E sorted_prices m) (\<lambda>filtered.
          if length filtered < 3 then Inl (Err NotEnoughReliableSources)
          else rbind (median E filtered) (\<lambda>snapshot. Inr (record_sample E s snapshot, snapshot))))))"

end
