(* ===== verification/TwapOracle.thy ===== *)
theory TwapOracle
  imports Prelude
begin

text \<open>
  The price oracle \<open>contracts/twap_oracle/src/lib.rs\<close>: an accumulator of each price times the time it was in effect, and
  the average over the whole time since the first update.
\<close>

datatype twap_error = AlreadyInitialized | NotInitialized | InvalidPrice | InsufficientTimeElapsed

text \<open>The seven entries are written together by \<open>initialize\<close> and none is removed.\<close>

record twap_state =
  tw_token_a :: address
  tw_token_b :: address
  tw_cumulative_price :: int
  tw_total_time :: int
  tw_last_update :: int
  tw_last_price :: int
  tw_min_interval :: int

type_synonym 'a tw_res = "(twap_error, 'a) res"

definition tw_initialize :: "twap_state option \<Rightarrow> address \<Rightarrow> address \<Rightarrow> int \<Rightarrow> twap_state option tw_res" where
  "tw_initialize s token_a token_b min_update_interval_seconds =
     (if s \<noteq> None then Inl (Err AlreadyInitialized)
      else Inr (Some \<lparr>tw_token_a = token_a, tw_token_b = token_b, tw_cumulative_price = 0, tw_total_time = 0,
             tw_last_update = 0, tw_last_price = 0, tw_min_interval = min_update_interval_seconds\<rparr>))"

definition tw_update_price :: "env \<Rightarrow> twap_state option \<Rightarrow> int \<Rightarrow> twap_state option tw_res" where
  "tw_update_price E s current_price =
     (case s of
        None \<Rightarrow> Inl (Err NotInitialized)
      | Some t \<Rightarrow>
          if current_price \<le> 0 then Inl (Err InvalidPrice)
          else
            let now = ledger_time E; last_update = tw_last_update t in
            rbind (if last_update > 0 then rbind (fit E U64 (now - last_update)) (\<lambda>d. Inr (d < tw_min_interval t)) else Inr False) (\<lambda>early.
            if early then Inl (Err InsufficientTimeElapsed)
            else
              rbind (if last_update = 0 then Inr 0 else fit E U64 (now - last_update)) (\<lambda>elapsed.
              Inr (Some (t\<lparr>tw_cumulative_price := wrap U128 (tw_cumulative_price t + wrap U128 (tw_last_price t * elapsed)),
                           tw_total_time := wrap U128 (tw_total_time t + elapsed), tw_last_update := now,
                           tw_last_price := wrap U128 current_price\<rparr>)))))"

definition tw_get_twap :: "twap_state option \<Rightarrow> int tw_res" where
  "tw_get_twap s =
     (let cumulative = (case s of None \<Rightarrow> 0 | Some t \<Rightarrow> tw_cumulative_price t);
          total_time = (case s of None \<Rightarrow> 0 | Some t \<Rightarrow> tw_total_time t) in
      if total_time = 0 then Inr 0 else rbind (quot U128 cumulative total_time) (\<lambda>q. Inr (wrap I128 q)))"

definition tw_get_tokens :: "twap_state option \<Rightarrow> (address \<times> address) tw_res" where
  "tw_get_tokens s = rbind (unwrap s) (\<lambda>t. Inr (tw_token_a t, tw_token_b t))"

definition tw_latest_price :: "twap_state option \<Rightarrow> int tw_res" where
  "tw_latest_price s = tw_get_twap s"

end
