(* ===== verification/OracleProperties.thy ===== *)
theory OracleProperties
  imports OracleAggregator TwapOracle "HOL-Library.Multiset"
begin

text \<open>
  The sort of the aggregator sorts, its median follows the majority of the sources, the pruned samples give the same
  rolling average as the full history, and both averages lie between the prices they average.
\<close>

section \<open>Sorting\<close>

text \<open>After one pass over \<open>k + 1\<close> prices the last of them is the greatest.\<close>

lemma bubble_pass_max:
  "length ys = Suc k \<Longrightarrow> \<exists>ps m. bubble_pass k (ys @ zs) = ps @ m # zs \<and> mset (ps @ [m]) = mset ys \<and> (\<forall>p \<in> set ps. p \<le> m)"
proof (induction k arbitrary: ys)
  case 0
  then obtain y where "ys = [y]" by (cases ys) auto
  then show ?case by (intro exI [of _ "[]"] exI [of _ y]) simp
next
  case (Suc k)
  then obtain a b ys' where ys: "ys = a # b # ys'" by (cases ys; cases "tl ys") auto
  let ?c = "min a b" and ?d = "max a b"
  from Suc.IH [of "?d # ys'"] Suc.prems ys obtain ps m where
    IH: "bubble_pass k ((?d # ys') @ zs) = ps @ m # zs" "mset (ps @ [m]) = mset (?d # ys')" "\<forall>p \<in> set ps. p \<le> m" by auto
  have "?d \<in> set (ps @ [m])" using IH(2) by (metis mset_eq_setD list.set_intros(1))
  then have "?d \<le> m" using IH(3) by auto
  then have "\<forall>p \<in> set (?c # ps). p \<le> m" using IH(3) by auto
  moreover have "bubble_pass (Suc k) (ys @ zs) = (?c # ps) @ m # zs" using IH(1) ys by (auto simp: min_def max_def)
  moreover have "mset ((?c # ps) @ [m]) = mset ys" using IH(2) ys by (auto simp: min_def max_def)
  ultimately show ?case by blast
qed

lemma sort_loop_correct:
  assumes "length ys = k" "sorted zs" "\<forall>y \<in> set ys. \<forall>z \<in> set zs. y \<le> z"
  shows "sorted (sort_loop k (ys @ zs)) \<and> mset (sort_loop k (ys @ zs)) = mset (ys @ zs)"
  using assms
proof (induction k arbitrary: ys zs)
  case (Suc k)
  from bubble_pass_max [OF Suc.prems(1), of zs] obtain ps m where
    b: "bubble_pass k (ys @ zs) = ps @ m # zs" "mset (ps @ [m]) = mset ys" "\<forall>p \<in> set ps. p \<le> m" by blast
  have set: "set ys = insert m (set ps)" using mset_eq_setD [OF b(2)] by auto
  have len: "length ps = k" using mset_eq_length [OF b(2)] Suc.prems(1) by simp
  have "sorted (m # zs)" "\<forall>y \<in> set ps. \<forall>z \<in> set (m # zs). y \<le> z" using Suc.prems(2,3) b(3) set by auto
  from Suc.IH [OF len this] have "sorted (sort_loop k (ps @ m # zs))" "mset (sort_loop k (ps @ m # zs)) = mset (ps @ m # zs)" by auto
  moreover have "mset (ps @ m # zs) = mset (ys @ zs)" using b(2) by simp
  ultimately show ?case using b(1) by simp
qed simp

lemma sort_prices_correct: "sorted (sort_prices xs)" "mset (sort_prices xs) = mset xs"
  using sort_loop_correct [of xs "length xs" "[]"] by (simp_all add: sort_prices_def)

section \<open>The median\<close>

lemma few_below:
  assumes "sorted xs" "i < length xs" "length (filter (\<lambda>x. x < lo) xs) \<le> i"
  shows "lo \<le> (xs ! i :: int)"
proof (rule ccontr)
  assume n: "\<not> lo \<le> xs ! i"
  have "\<forall>x \<in> set (take (Suc i) xs). x < lo"
  proof
    fix x assume "x \<in> set (take (Suc i) xs)"
    then obtain j where "j < Suc i" "j < length xs" "x = xs ! j" by (auto simp: in_set_conv_nth)
    then have "x \<le> xs ! i" using assms(1,2) by (auto intro: sorted_nth_mono)
    with n show "x < lo" by simp
  qed
  then have "filter (\<lambda>x. x < lo) (take (Suc i) xs) = take (Suc i) xs" by (simp add: filter_id_conv)
  moreover have "filter (\<lambda>x. x < lo) xs = filter (\<lambda>x. x < lo) (take (Suc i) xs) @ filter (\<lambda>x. x < lo) (drop (Suc i) xs)"
    by (metis append_take_drop_id filter_append)
  ultimately have "Suc i \<le> length (filter (\<lambda>x. x < lo) xs)" using assms(2) by simp
  with assms(3) show False by simp
qed

lemma few_above:
  assumes "sorted xs" "i < length xs" "length (filter (\<lambda>x. hi < x) xs) < length xs - i"
  shows "(xs ! i :: int) \<le> hi"
proof (rule ccontr)
  assume n: "\<not> xs ! i \<le> hi"
  have "\<forall>x \<in> set (drop i xs). hi < x"
  proof
    fix x assume "x \<in> set (drop i xs)"
    then obtain j where "j < length xs - i" "x = xs ! (i + j)" by (auto simp: in_set_conv_nth)
    then have "xs ! i \<le> x" using assms(1) by (auto intro: sorted_nth_mono)
    with n show "hi < x" by simp
  qed
  then have "filter (\<lambda>x. hi < x) (drop i xs) = drop i xs" by (simp add: filter_id_conv)
  moreover have "filter (\<lambda>x. hi < x) xs = filter (\<lambda>x. hi < x) (take i xs) @ filter (\<lambda>x. hi < x) (drop i xs)"
    by (metis append_take_drop_id filter_append)
  ultimately have "length xs - i \<le> length (filter (\<lambda>x. hi < x) xs)" by simp
  with assms(3) show False by simp
qed

text \<open>The median lies between any bounds of its middle elements.\<close>

lemma median_between:
  assumes "median E xs = Inr m" "hi < 2 ^ 126" "0 \<le> lo" "xs \<noteq> []"
    and "\<And>i. i = length xs div 2 \<or> (length xs mod 2 = 0 \<and> i = length xs div 2 - 1) \<Longrightarrow> lo \<le> xs ! i \<and> xs ! i \<le> hi"
  shows "lo \<le> m \<and> m \<le> hi"
proof (cases "length xs mod 2 = 1")
  case True
  with assms(1) assms(5) [of "length xs div 2"] show ?thesis by (auto simp: median_def Let_def)
next
  case False
  let ?a = "xs ! (length xs div 2 - 1)" and ?b = "xs ! (length xs div 2)"
  have ab: "lo \<le> ?a" "?a \<le> hi" "lo \<le> ?b" "?b \<le> hi"
    using assms(5) [of "length xs div 2"] assms(5) [of "length xs div 2 - 1"] False by auto
  have "in_range I128 (?a + ?b)" using ab assms(2,3) by (simp add: in_range_def)
  with assms(1) False have "quot I128 (?a + ?b) 2 = (Inr m :: int oa_res)" by (auto simp: median_def Let_def)
  then have "m = (?a + ?b) div 2" using ab assms(3) by (subst (asm) quot_pos_Inr) simp_all
  with ab show ?thesis by linarith
qed

lemma middle_index: "xs \<noteq> [] \<Longrightarrow> i = length xs div 2 \<or> (length xs mod 2 = 0 \<and> i = length xs div 2 - 1) \<Longrightarrow> i < length xs"
  by (cases xs) auto

lemma median_majority:
  assumes "median E xs = Inr m" "hi < 2 ^ 126" "0 \<le> lo" "sorted xs" "2 * length (filter (\<lambda>x. x < lo \<or> hi < x) xs) < length xs"
  shows "lo \<le> m \<and> m \<le> hi"
proof -
  have ne: "xs \<noteq> []" using assms(5) by auto
  have le: "length (filter (\<lambda>x. x < lo) xs) \<le> length (filter (\<lambda>x. x < lo \<or> hi < x) xs)"
    "length (filter (\<lambda>x. hi < x) xs) \<le> length (filter (\<lambda>x. x < lo \<or> hi < x) xs)"
    by (induction xs) auto
  show ?thesis
  proof (rule median_between [OF assms(1-3) ne])
    fix i assume i: "i = length xs div 2 \<or> (length xs mod 2 = 0 \<and> i = length xs div 2 - 1)"
    have "length (filter (\<lambda>x. x < lo) xs) \<le> i" "length (filter (\<lambda>x. hi < x) xs) < length xs - i"
      using i le assms(5) div_mult_mod_eq [of "length xs" 2] by (linarith | elim disjE conjE; linarith)+
    with few_below [OF assms(4) middle_index [OF ne i]] few_above [OF assms(4) middle_index [OF ne i]]
    show "lo \<le> xs ! i \<and> xs ! i \<le> hi" by blast
  qed
qed

section \<open>The filter\<close>

lemma keeps_price_near:
  assumes "keeps_price std m diff" "0 < m" "m < 2 ^ 120" "0 \<le> diff"
  shows "diff * 100 \<le> m * 5"
proof -
  have "saturate I128 (m * 5) = m * 5" using assms(2,3) by (intro saturate_id) (simp add: in_range_def)
  with assms show ?thesis by (auto simp: keeps_price_def MAX_DEVIATION_PERCENT_def saturate_def min_def max_def split: if_splits)
qed

text \<open>Differences of prices fit, so the filter needs no overflow checks.\<close>

abbreviation is_price :: "int \<Rightarrow> bool" where
  "is_price p \<equiv> 0 < p \<and> p \<le> ity_max I128"

lemma abs_diff_price: "is_price a \<Longrightarrow> is_price b \<Longrightarrow> abs_diff E a b = Inr \<bar>a - b\<bar>"
  by (auto simp: abs_diff_def in_range_def)

lemma filter_loop_near:
  assumes "filter_loop E std m xs = Inr ys" "0 < m" "m < 2 ^ 120" "\<forall>x \<in> set xs. is_price x"
  shows "\<forall>y \<in> set ys. \<bar>y - m\<bar> * 100 \<le> m * 5"
  using assms(1,4)
proof (induction xs arbitrary: ys)
  case (Cons x xs)
  have "abs_diff E x m = Inr \<bar>x - m\<bar>" using Cons.prems(2) assms(2,3) by (intro abs_diff_price) auto
  with Cons.prems(1) obtain kept where k: "filter_loop E std m xs = Inr kept" "ys = (if keeps_price std m \<bar>x - m\<bar> then x # kept else kept)"
    by auto
  have "keeps_price std m \<bar>x - m\<bar> \<Longrightarrow> \<bar>x - m\<bar> * 100 \<le> m * 5" using keeps_price_near [of std m "\<bar>x - m\<bar>"] assms(2,3) by simp
  with Cons.IH [OF k(1)] Cons.prems(2) k(2) show ?case by auto
qed simp

section \<open>The answers of the sources\<close>

definition valid_prices :: "(address \<Rightarrow> oracle_record option) \<Rightarrow> address list \<Rightarrow> int list" where
  "valid_prices source sources = filter (\<lambda>p. 0 < p) (map or_price (List.map_filter source sources))"

lemma ask_sources_prices: "ask_sources E source age sources n ps = Inr (n', ps') \<Longrightarrow> ps' = ps @ valid_prices source sources"
proof (induction sources arbitrary: n ps)
  case (Cons a sources)
  show ?case
  proof (cases "source a")
    case None
    with Cons show ?thesis by (simp add: valid_prices_def List.map_filter_simps)
  next
    case (Some r)
    with Cons.prems obtain n1 where "ask_sources E source age sources n1 (if or_price r > 0 then ps @ [or_price r] else ps) = Inr (n', ps')"
      by (auto split: if_splits)
    from Cons.IH [OF this] Some show ?thesis by (simp add: valid_prices_def List.map_filter_simps)
  qed
qed (simp add: valid_prices_def List.map_filter_simps)

text \<open>A source that answers with an old record stops the aggregation.\<close>

lemma ask_sources_stale:
  assumes "source a = Some r" "a \<in> set sources" "age < saturate U64 (ledger_time E - or_timestamp r)"
  shows "int (length sources) + n \<le> ity_max U32 \<Longrightarrow> 0 \<le> n \<Longrightarrow> ask_sources E source age sources n ps = Inl (Err InvalidOraclePrice)"
  using assms(2)
proof (induction sources arbitrary: n ps)
  case (Cons b sources)
  show ?case
  proof (cases "b = a")
    case True
    with assms show ?thesis by simp
  next
    case False
    then have a: "a \<in> set sources" using Cons.prems(3) by simp
    have "in_range U32 (n + 1)" using Cons.prems(1,2) by (simp add: in_range_def)
    with Cons.IH [of "n + 1"] Cons.IH [of n] Cons.prems a show ?thesis by (auto split: option.splits)
  qed
qed simp

section \<open>The rolling average\<close>

abbreviation "start_of_window now w \<equiv> saturate U64 (now - w)"

lemma saturate_mono: "a \<le> b \<Longrightarrow> saturate t a \<le> saturate t b"
  by (simp add: saturate_def)

text \<open>Samples that end before the window do not count.\<close>

lemma twap_loop_dead:
  "\<forall>x \<in> set pre. ts_timestamp x < ws \<Longrightarrow> ts_timestamp y < ws
    \<Longrightarrow> twap_loop ws now (pre @ y # rest) weighted duration = twap_loop ws now (y # rest) weighted duration"
proof (induction pre)
  case (Cons x pre)
  obtain z zs where z: "pre @ y # rest = z # zs" by (cases pre) auto
  then have "ts_timestamp z < ws" using Cons.prems by (cases pre) auto
  with Cons.prems(1) have "twap_loop ws now (x # z # zs) weighted duration = twap_loop ws now (z # zs) weighted duration" by (simp add: Let_def)
  with Cons z show ?case by simp
qed simp

text \<open>\<open>live t w h xs\<close>: the samples \<open>xs\<close> are the history \<open>h\<close> without samples that are dead at time \<open>t\<close>.\<close>

definition live :: "int \<Rightarrow> int \<Rightarrow> twap_sample list \<Rightarrow> twap_sample list \<Rightarrow> bool" where
  "live t w h xs \<longleftrightarrow> (\<exists>pre. h = pre @ xs \<and> (\<forall>x \<in> set pre. ts_timestamp x < start_of_window t w)
     \<and> (pre \<noteq> [] \<longrightarrow> xs \<noteq> [] \<and> ts_timestamp (hd xs) < start_of_window t w))"

lemma live_refl: "live t w h h"
  by (simp add: live_def)

lemma live_twap:
  assumes "live t w h xs" "t \<le> now"
  shows "compute_twap xs now w = compute_twap h now w"
proof -
  let ?ws = "start_of_window now w"
  have ws: "start_of_window t w \<le> ?ws" using assms(2) by (intro saturate_mono) simp
  from assms(1) obtain pre where pre: "h = pre @ xs" "\<forall>x \<in> set pre. ts_timestamp x < start_of_window t w"
    "pre \<noteq> [] \<longrightarrow> xs \<noteq> [] \<and> ts_timestamp (hd xs) < start_of_window t w" by (auto simp: live_def)
  show ?thesis
  proof (cases "pre = []")
    case False
    then have ne: "xs \<noteq> []" and "ts_timestamp (hd xs) < ?ws" using pre(3) ws by auto
    then have "twap_loop ?ws now (pre @ hd xs # tl xs) 0 0 = twap_loop ?ws now (hd xs # tl xs) 0 0"
      by (intro twap_loop_dead) (use pre(2) ws in auto)
    then have "twap_loop ?ws now (pre @ xs) 0 0 = twap_loop ?ws now xs 0 0" using ne by simp
    then show ?thesis unfolding pre(1) compute_twap_def using ne by (simp add: last_append split: prod.splits)
  qed (simp add: pre(1))
qed

lemma live_later:
  assumes "live t w h xs" "t \<le> t'"
  shows "live t' w h xs"
proof -
  have ws: "x < start_of_window t' w" if "x < start_of_window t w" for x
    using that saturate_mono [of "t - w" "t' - w" U64] assms(2) by linarith
  from assms(1) obtain pre where "h = pre @ xs" "\<forall>x \<in> set pre. ts_timestamp x < start_of_window t w"
    "pre \<noteq> [] \<longrightarrow> xs \<noteq> [] \<and> ts_timestamp (hd xs) < start_of_window t w" by (auto simp: live_def)
  with ws show ?thesis unfolding live_def by (intro exI [of _ pre]) blast
qed

lemma live_append: "live t w h xs \<Longrightarrow> live t w (h @ ys) (xs @ ys)"
  unfolding live_def by fastforce

lemma live_trans:
  assumes "live t w h xs" "live t w xs ys"
  shows "live t w h ys"
proof -
  from assms obtain pre pre' where p: "h = pre @ xs" "\<forall>x \<in> set pre. ts_timestamp x < start_of_window t w"
    "pre \<noteq> [] \<longrightarrow> xs \<noteq> [] \<and> ts_timestamp (hd xs) < start_of_window t w"
    "xs = pre' @ ys" "\<forall>x \<in> set pre'. ts_timestamp x < start_of_window t w"
    "pre' \<noteq> [] \<longrightarrow> ys \<noteq> [] \<and> ts_timestamp (hd ys) < start_of_window t w" by (auto simp: live_def)
  then show ?thesis unfolding live_def by (intro exI [of _ "pre @ pre'"]) auto
qed

lemma prune_loop_old:
  "\<forall>x \<in> set old. ts_timestamp x < ws \<Longrightarrow> prune_loop ws (old @ xs) pruned before = prune_loop ws xs pruned (if old = [] then before else Some (last old))"
  by (induction old arbitrary: before) auto

lemma prune_loop_new:
  "\<forall>x \<in> set xs. ws \<le> ts_timestamp x \<Longrightarrow> prune_loop ws xs pruned None = (pruned @ xs, None)"
  by (induction xs arbitrary: pruned) auto

lemma prune_loop_pending:
  "\<forall>x \<in> set xs. ws \<le> ts_timestamp x
    \<Longrightarrow> prune_loop ws xs [] (Some prev) = (if xs = [] then ([], Some prev) else (prev # xs, None))"
  by (cases xs) (auto simp: prune_loop_new)

lemma dropWhile_sorted: "sorted (map f xs) \<Longrightarrow> \<forall>x \<in> set (dropWhile (\<lambda>x. f x < (a :: int)) xs). a \<le> f x"
  by (induction xs) auto

lemma prune_live:
  assumes "sorted (map ts_timestamp xs)"
  shows "live t w xs (prune_samples xs t w) \<and> (xs \<noteq> [] \<longrightarrow> prune_samples xs t w \<noteq> [])"
proof -
  let ?ws = "start_of_window t w"
  obtain old new where xs: "xs = old @ new" and old: "\<forall>x \<in> set old. ts_timestamp x < ?ws" and new: "\<forall>x \<in> set new. ?ws \<le> ts_timestamp x"
  proof
    show "xs = takeWhile (\<lambda>x. ts_timestamp x < ?ws) xs @ dropWhile (\<lambda>x. ts_timestamp x < ?ws) xs" by simp
    show "\<forall>x \<in> set (takeWhile (\<lambda>x. ts_timestamp x < ?ws) xs). ts_timestamp x < ?ws" by (auto dest: set_takeWhileD)
  qed (use assms in \<open>rule dropWhile_sorted\<close>)
  have step: "prune_loop ?ws xs [] None = prune_loop ?ws new [] (if old = [] then None else Some (last old))"
    unfolding xs by (rule prune_loop_old [OF old])
  show ?thesis
  proof (cases "old = []")
    case True
    then have "prune_samples xs t w = xs" using step prune_loop_new [OF new, of "[]"] xs by (simp add: prune_samples_def Let_def)
    then show ?thesis by (simp add: live_refl)
  next
    case False
    then have p: "prune_samples xs t w = last old # new"
      using step prune_loop_pending [OF new, of "last old"] by (simp add: prune_samples_def Let_def)
    have "xs = butlast old @ last old # new" using xs False by simp
    moreover have "\<forall>x \<in> set (butlast old). ts_timestamp x < ?ws" using old by (auto dest: in_set_butlastD)
    moreover have "ts_timestamp (last old) < ?ws" using old False by simp
    ultimately have "live t w xs (last old # new)" unfolding live_def by (intro exI [of _ "butlast old"]) simp
    with p show ?thesis by simp
  qed
qed

lemma quotient_between: "0 < d \<Longrightarrow> lo * d \<le> n \<Longrightarrow> n \<le> hi * d \<Longrightarrow> lo \<le> n div d \<and> n div d \<le> (hi::int)"
  using zdiv_mono1 [of "lo * d" n d] zdiv_mono1 [of n "hi * d" d] by simp

text \<open>A weighted sum over a sorted history stays between the bounds of its prices; nothing saturates.\<close>

lemma twap_loop_between:
  assumes "0 \<le> lo" "lo \<le> hi" "hi < 2 ^ 63" "ws \<le> now"
    and "sorted (map ts_timestamp xs)" "\<forall>x \<in> set xs. ts_timestamp x \<le> now \<and> lo \<le> ts_price x \<and> ts_price x \<le> hi"
    and "lo * d \<le> w" "w \<le> hi * d" "0 \<le> d" "d + (case xs of [] \<Rightarrow> 0 | x # _ \<Rightarrow> now - max ws (ts_timestamp x)) \<le> ity_max U64"
    and "twap_loop ws now xs w d = (w', d')"
  shows "lo * d' \<le> w' \<and> w' \<le> hi * d' \<and> 0 \<le> d' \<and> d' \<le> ity_max U64"
  using assms(5-)
proof (induction xs arbitrary: w d)
  case (Cons x xs)
  let ?stop = "case xs of [] \<Rightarrow> now | next # _ \<Rightarrow> ts_timestamp next"
  define n where "n = ?stop - max ws (ts_timestamp x)"
  have x: "lo \<le> ts_price x" "ts_price x \<le> hi" using Cons.prems(2) by auto
  have rest: "sorted (map ts_timestamp xs)" "\<forall>x \<in> set xs. ts_timestamp x \<le> now \<and> lo \<le> ts_price x \<and> ts_price x \<le> hi"
    using Cons.prems(1,2) by auto
  have stop: "ts_timestamp x \<le> ?stop" "?stop \<le> now" using Cons.prems(1,2) by (auto split: list.splits)
  show ?case
  proof (cases "0 < n")
    case False
    then have "twap_loop ws now xs w d = (w', d')" using Cons.prems(7) by (auto simp: n_def Let_def max_def split: if_splits)
    moreover have "d + (case xs of [] \<Rightarrow> 0 | x # _ \<Rightarrow> now - max ws (ts_timestamp x)) \<le> ity_max U64"
      using Cons.prems(6) stop assms(4) by (auto split: list.splits)
    ultimately show ?thesis using Cons.IH rest Cons.prems(3-5) by blast
  next
    case True
    have d: "0 \<le> d + n" "d + n \<le> ity_max U64" using Cons.prems(5,6) True stop assms(4) by (auto simp: n_def)
    have lo: "lo * n \<le> ts_price x * n" and hi: "ts_price x * n \<le> hi * n" and pos: "0 \<le> lo * n"
      using x True assms(1) by (simp_all add: mult_right_mono)
    have b: "lo * (d + n) \<le> w + ts_price x * n" "w + ts_price x * n \<le> hi * (d + n)"
      using Cons.prems(3,4) lo hi by (simp_all add: distrib_left)
    have top: "hi * (d + n) \<le> (2 ^ 63 - 1) * (2 ^ 64 - 1)" using assms(1-3) d by (intro mult_mono) auto
    have "0 \<le> w" using Cons.prems(3,5) assms(1) mult_nonneg_nonneg [of lo d] by linarith
    with b top lo pos have "in_range I128 (ts_price x * n)" "in_range I128 (w + ts_price x * n)" "in_range I128 (d + n)"
      using d by (auto simp: in_range_def)
    then have s: "saturate I128 (w + saturate I128 (ts_price x * n)) = w + ts_price x * n" "saturate I128 (d + n) = d + n"
      by (simp_all add: saturate_id)
    have "twap_loop ws now xs (w + ts_price x * n) (d + n) = (w', d')"
      using Cons.prems(7) True s by (auto simp: n_def Let_def max_def split: if_splits)
    moreover have "d + n + (case xs of [] \<Rightarrow> 0 | x # _ \<Rightarrow> now - max ws (ts_timestamp x)) \<le> ity_max U64"
      using Cons.prems(6) stop assms(4) True by (auto simp: n_def split: list.splits)
    ultimately show ?thesis using Cons.IH rest b d(1) by blast
  qed
qed auto

lemma compute_twap_between:
  assumes "xs \<noteq> []" "0 \<le> lo" "hi < 2 ^ 63" "0 \<le> w" "in_range U64 now"
    and "sorted (map ts_timestamp xs)" "\<forall>x \<in> set xs. 0 \<le> ts_timestamp x \<and> ts_timestamp x \<le> now \<and> lo \<le> ts_price x \<and> ts_price x \<le> hi"
  shows "\<exists>p. compute_twap xs now w = Inr p \<and> lo \<le> p \<and> p \<le> hi"
proof -
  let ?ws = "start_of_window now w"
  obtain weighted duration where l: "twap_loop ?ws now xs 0 0 = (weighted, duration)" by (cases "twap_loop ?ws now xs 0 0")
  have ws: "0 \<le> ?ws" "?ws \<le> now" using assms(4,5) by (auto simp: saturate_def in_range_def)
  have last: "lo \<le> ts_price (last xs)" "ts_price (last xs) \<le> hi" using assms(1,7) by simp_all
  then have "lo \<le> hi" by linarith
  moreover have "0 + (case xs of [] \<Rightarrow> 0 | x # _ \<Rightarrow> now - max ?ws (ts_timestamp x)) \<le> ity_max U64"
    using ws assms(5) by (auto simp: in_range_def split: list.splits)
  ultimately have b: "lo * duration \<le> weighted" "weighted \<le> hi * duration" "0 \<le> duration"
    using twap_loop_between [OF assms(2) _ assms(3) ws(2) assms(6) _ _ _ _ _ l] assms(7) by auto
  show ?thesis
  proof (cases "duration = 0")
    case True
    with assms(1) l last show ?thesis by (simp add: compute_twap_def Let_def)
  next
    case False
    have "0 \<le> weighted" using b assms(2) mult_nonneg_nonneg [of lo duration] by linarith
    moreover have q: "lo \<le> weighted div duration \<and> weighted div duration \<le> hi"
      using b False quotient_between [of duration lo weighted hi] by simp
    then have "in_range I128 (weighted div duration)" using assms(2,3) by (simp add: in_range_def)
    ultimately have "compute_twap xs now w = Inr (weighted div duration)"
      using False assms(1) l b(3) by (simp add: compute_twap_def Let_def quot_pos_Inr)
    with q show ?thesis by simp
  qed
qed

end
