(* ===== verification/OracleGuarantees.thy ===== *)
theory OracleGuarantees
  imports OracleProperties
begin

text \<open>
  What the two price oracles guarantee over every sequence of calls, and for one aggregation whatever a minority of its
  sources answers.
\<close>

section \<open>The ledger's clock\<close>

text \<open>A contract on a ledger whose time never goes back: the state keeps the time of the last call.\<close>

definition timed :: "(env \<Rightarrow> 's \<Rightarrow> 'op \<Rightarrow> ('e, 's \<times> 'a) res) \<Rightarrow> env \<Rightarrow> 's \<times> int \<Rightarrow> 'op \<Rightarrow> ('e, ('s \<times> int) \<times> 'a) res" where
  "timed step E st op =
     (let (s, t) = st in
      if ledger_time E < t then Inl (Panic (Message ''ledger time''))
      else rbind (step E s op) (\<lambda>(s', v). Inr ((s', ledger_time E), v)))"

lemma timed_Inr: "timed step E (s, t) op = Inr ((s', t'), v) \<longleftrightarrow> t \<le> ledger_time E \<and> t' = ledger_time E \<and> step E s op = Inr (s', v)"
  by (auto simp: timed_def)

section \<open>The aggregator with its full history\<close>

text \<open>An aggregation comes with what the sources answer then. The history, which the contract does not keep, has every
  snapshot since the last \<open>initialize\<close>.\<close>

datatype aggregator_call =
    AggInitialize int
  | AggAggregate "address \<Rightarrow> oracle_record option" "address list" int

fun aggregator_step :: "env \<Rightarrow> aggregator \<times> twap_sample list \<Rightarrow> aggregator_call \<Rightarrow> ((aggregator \<times> twap_sample list) \<times> int) oa_res" where
  "aggregator_step E (s, h) (AggInitialize w) = rbind (oa_initialize s w) (\<lambda>s'. Inr ((s', []), 0))"
| "aggregator_step E (s, h) (AggAggregate source sources age) =
     rbind (oa_aggregate_price source E s sources age)
       (\<lambda>(s', p). Inr ((s', h @ [\<lparr>ts_price = p, ts_timestamp = ledger_time E\<rparr>]), p))"

abbreviation "aggregator_start \<equiv> ((empty_aggregator, []), 0)"

definition aggregator_logged :: "(aggregator \<times> twap_sample list) \<times> int \<Rightarrow> bool" where
  "aggregator_logged st =
     (let ((s, h), t) = st in
      live t (window_of s) h (samples_of s) \<and> (samples_of s = [] \<longrightarrow> h = []) \<and> sorted (map ts_timestamp h)
      \<and> (\<forall>x \<in> set h. 0 \<le> ts_timestamp x \<and> ts_timestamp x \<le> t) \<and> 0 \<le> window_of s)"

fun aggregator_sane :: "env \<Rightarrow> aggregator_call \<Rightarrow> bool" where
  "aggregator_sane E (AggInitialize w) \<longleftrightarrow> 0 \<le> ledger_time E \<and> in_range U64 w"
| "aggregator_sane E (AggAggregate source sources age) \<longleftrightarrow> 0 \<le> ledger_time E"

lemma aggregate_Inr:
  assumes "oa_aggregate_price source E s sources age = Inr (s', p)"
  obtains m std filtered where "median E (sort_prices (valid_prices source sources)) = Inr m"
    "filter_loop E std m (sort_prices (valid_prices source sources)) = Inr filtered" "3 \<le> length filtered"
    "median E filtered = Inr p" "s' = record_sample E s p"
proof -
  from assms obtain n ps where "ask_sources E source age sources 0 [] = Inr (n, ps)"
    and rest: "\<exists>m std filtered. median E (sort_prices ps) = Inr m \<and> filter_loop E std m (sort_prices ps) = Inr filtered
      \<and> 3 \<le> length filtered \<and> median E filtered = Inr p \<and> s' = record_sample E s p"
    by (clarsimp simp: oa_aggregate_price_def filter_outliers_def Let_def not_less) blast
  from ask_sources_prices [OF this(1)] have "ps = valid_prices source sources" by simp
  with rest that show thesis by blast
qed

lemma live_sorted: "live t w h xs \<Longrightarrow> sorted (map ts_timestamp h) \<Longrightarrow> sorted (map ts_timestamp xs)"
  by (auto simp: live_def sorted_append)

lemma record_sample_views:
  "window_of (record_sample E s p) = window_of s"
  "samples_of (record_sample E s p) = prune_samples (samples_of s @ [\<lparr>ts_price = p, ts_timestamp = ledger_time E\<rparr>]) (ledger_time E) (window_of s)"
  by (simp_all add: record_sample_def window_of_def samples_of_def Let_def)

lemma record_logged:
  assumes "aggregator_logged ((s, h), t)" "t \<le> ledger_time E" "0 \<le> ledger_time E"
  shows "aggregator_logged ((record_sample E s p, h @ [\<lparr>ts_price = p, ts_timestamp = ledger_time E\<rparr>]), ledger_time E)"
proof -
  let ?now = "ledger_time E" and ?w = "window_of s" and ?x = "\<lparr>ts_price = p, ts_timestamp = ledger_time E\<rparr>"
  have inv: "live t ?w h (samples_of s)" "sorted (map ts_timestamp h)" "\<forall>x \<in> set h. 0 \<le> ts_timestamp x \<and> ts_timestamp x \<le> t" "0 \<le> ?w"
    using assms(1) by (simp_all add: aggregator_logged_def)
  have now: "sorted (map ts_timestamp (h @ [?x]))" "\<forall>x \<in> set (h @ [?x]). 0 \<le> ts_timestamp x \<and> ts_timestamp x \<le> ?now"
    using inv(2,3) assms(2,3) by (auto simp: sorted_append intro: order_trans)
  have l: "live ?now ?w (h @ [?x]) (samples_of s @ [?x])" by (intro live_append live_later [OF inv(1) assms(2)])
  from prune_live [OF live_sorted [OF l now(1)]] live_trans [OF l] now inv(4)
  show ?thesis by (simp add: aggregator_logged_def record_sample_views)
qed

interpretation agg: contract_machine "timed aggregator_step" aggregator_sane aggregator_logged
proof
  fix E c s st v
  assume c: "aggregator_sane E c" "aggregator_logged s" "timed aggregator_step E s c = Inr (st, v)"
  obtain a h t where s: "s = ((a, h), t)" by (metis surj_pair)
  obtain a' h' t' where st: "st = ((a', h'), t')" by (metis surj_pair)
  show "aggregator_logged st"
  proof (cases c)
    case (AggInitialize w)
    with c s st show ?thesis
      by (auto simp: timed_Inr oa_initialize_def aggregator_logged_def window_of_def samples_of_def live_refl in_range_def split: if_splits)
  next
    case (AggAggregate source sources age)
    with c s st have t: "t \<le> ledger_time E" "t' = ledger_time E" "0 \<le> ledger_time E"
      and p: "oa_aggregate_price source E a sources age = Inr (a', v)" "h' = h @ [\<lparr>ts_price = v, ts_timestamp = ledger_time E\<rparr>]"
      by (auto simp: timed_Inr)
    from p(1) have "a' = record_sample E a v" by (rule aggregate_Inr)
    with record_logged [OF _ t(1,3)] c(2) s st t(2) p(2) show ?thesis by simp
  qed
qed

lemma start_logged: "aggregator_logged aggregator_start"
  by (simp add: aggregator_logged_def empty_aggregator_def window_of_def samples_of_def live_refl DEFAULT_TWAP_WINDOW_SECONDS_def)



definition ask_at :: "int \<Rightarrow> int \<Rightarrow> env \<times> aggregator_call" where
  "ask_at t p = ((env0 [])\<lparr>ledger_time := t\<rparr>, AggAggregate (\<lambda>a. Some \<lparr>or_price = p, or_timestamp = t\<rparr>) [1, 2, 3] 60)"

definition asked :: "(env \<times> aggregator_call) list" where
  "asked = [(env0 [], AggInitialize 100), ask_at 1000 50, ask_at 1100 70, ask_at 1200 60, ask_at 1250 80]"

lemma asked_sane: "\<forall>c \<in> set asked. aggregator_sane (fst c) (snd c)"
  by (simp add: asked_def ask_at_def env0_def in_range_def)

lemma asked_run:
  "run_calls (timed aggregator_step) asked aggregator_start =
    ((\<lparr>oa_window_seconds = Some 100,
       oa_samples = Some [\<lparr>ts_price = 70, ts_timestamp = 1100\<rparr>, \<lparr>ts_price = 60, ts_timestamp = 1200\<rparr>, \<lparr>ts_price = 80, ts_timestamp = 1250\<rparr>]\<rparr>,
      [\<lparr>ts_price = 50, ts_timestamp = 1000\<rparr>, \<lparr>ts_price = 70, ts_timestamp = 1100\<rparr>, \<lparr>ts_price = 60, ts_timestamp = 1200\<rparr>,
       \<lparr>ts_price = 80, ts_timestamp = 1250\<rparr>]), 1250)"
  by code_simp


text \<open>
  The rolling average lies between the least and the greatest price of the history, whenever the history is not empty
  and its prices stay below 2^63: nothing saturates and the division truncates towards a value between them.
\<close>

lemma oracle_twap_between:
  assumes "\<forall>c \<in> set cs. aggregator_sane (fst c) (snd c)"
    and "run_calls (timed aggregator_step) cs aggregator_start = ((s, h), t)" "t \<le> ledger_time E" "in_range U64 (ledger_time E)"
    and "h \<noteq> []" "\<forall>x \<in> set h. lo \<le> ts_price x \<and> ts_price x \<le> hi" "0 \<le> lo" "hi < 2 ^ 63"
  shows "\<exists>p. oa_get_twap E s = Inr p \<and> lo \<le> p \<and> p \<le> hi"
proof -
  have "aggregator_logged ((s, h), t)" using agg.run_inv [OF start_logged assms(1)] assms(2) by simp
  then have inv: "live t (window_of s) h (samples_of s)" "sorted (map ts_timestamp h)" "0 \<le> window_of s"
    "\<forall>x \<in> set h. 0 \<le> ts_timestamp x \<and> ts_timestamp x \<le> ledger_time E"
    using assms(3) by (auto simp: aggregator_logged_def)
  have "\<exists>p. compute_twap h (ledger_time E) (window_of s) = Inr p \<and> lo \<le> p \<and> p \<le> hi"
    by (rule compute_twap_between) (use inv assms(4-8) in auto)
  with live_twap [OF inv(1) assms(3)] show ?thesis by (simp add: oa_get_twap_def)
qed

section \<open>A minority of lying sources\<close>

lemma median_near:
  assumes "median E ys = Inr p" "ys \<noteq> []" "0 < m" "m < 2 ^ 120" "\<forall>y \<in> set ys. \<bar>y - m\<bar> * 100 \<le> m * 5"
  shows "95 * m \<le> 100 * p \<and> 100 * p \<le> 105 * m"
proof -
  obtain a where a: "95 * m \<le> 100 * a" "100 * a \<le> 95 * m + 99"
    using div_mult_le_int [of 100 "95 * m + 99"] less_Suc_div_mult_int [of 100 "95 * m + 99"]
    by (intro that [of "(95 * m + 99) div 100"]) simp_all
  obtain b where b: "100 * b \<le> 105 * m" "105 * m < 100 * b + 100"
    using div_mult_le_int [of 100 "105 * m"] less_Suc_div_mult_int [of 100 "105 * m"]
    by (intro that [of "105 * m div 100"]) simp_all
  have "a \<le> p \<and> p \<le> b"
  proof (rule median_between [OF assms(1) _ _ assms(2)])
    fix i assume "i = length ys div 2 \<or> length ys mod 2 = 0 \<and> i = length ys div 2 - 1"
    then have "\<bar>ys ! i - m\<bar> * 100 \<le> m * 5" using assms(5) middle_index [OF assms(2)] by simp
    then show "a \<le> ys ! i \<and> ys ! i \<le> b" using a b by (simp add: abs_if split: if_splits)
  qed (use a b assms(3,4) in simp_all)
  with a b show ?thesis by simp
qed

text \<open>
  C23. If fewer than half of the valid prices lie outside an interval, the aggregated price lies in that interval widened by
  five percent on each side, whatever the others answer, in both build profiles: the median stays inside, and the filter
  keeps only prices within five percent of it.
\<close>

theorem oracle_price_robust:
  assumes "oa_aggregate_price source E s sources age = Inr (s', p)"
    and "\<And>a r. a \<in> set sources \<Longrightarrow> source a = Some r \<Longrightarrow> in_range I128 (or_price r)"
    and "2 * length (filter (\<lambda>x. x < lo \<or> hi < x) (valid_prices source sources)) < length (valid_prices source sources)"
    and "0 < lo" "hi < 2 ^ 120"
  shows "95 * lo \<le> 100 * p \<and> 100 * p \<le> 105 * hi"
proof -
  let ?ps = "valid_prices source sources" and ?sorted = "sort_prices (valid_prices source sources)"
  obtain m std filtered where m: "median E ?sorted = Inr m" and f: "filter_loop E std m ?sorted = Inr filtered" "3 \<le> length filtered"
    and p: "median E filtered = Inr p" using assms(1) by (rule aggregate_Inr)
  have "2 * length (filter (\<lambda>x. x < lo \<or> hi < x) ?sorted) < length ?sorted"
    using assms(3) sort_prices_correct(2) [of ?ps] by (metis mset_filter size_mset)
  then have mid: "lo \<le> m" "m \<le> hi" using median_majority [OF m _ _ sort_prices_correct(1), of hi lo] assms(4,5) by simp_all
  have "\<forall>x \<in> set ?ps. is_price x" using assms(2) by (auto simp: valid_prices_def List.map_filter_def in_range_def)
  then have "\<forall>x \<in> set ?sorted. is_price x" using mset_eq_setD [OF sort_prices_correct(2) [of ?ps]] by simp
  then have near: "\<forall>y \<in> set filtered. \<bar>y - m\<bar> * 100 \<le> m * 5" using filter_loop_near [OF f(1)] mid assms(4,5) by simp
  have "filtered \<noteq> []" using f(2) by auto
  from median_near [OF p this _ _ near] mid assms(4,5) show ?thesis by simp
qed

definition two_liars :: "address \<Rightarrow> oracle_record option" where
  "two_liars a = Some \<lparr>or_price = [1000, 1010, 990, 1, 2 ^ 100] ! a, or_timestamp = 1000\<rparr>"

theorem oracle_price_robust_witness:
  "\<exists>s' p. oa_aggregate_price two_liars (env0 []) empty_aggregator [0, 1, 2, 3, 4] 60 = Inr (s', p) \<and> 95 * 990 \<le> 100 * p \<and> 100 * p \<le> 105 * 1010"
proof -
  let ?s = "\<lparr>oa_window_seconds = Some 3600, oa_samples = Some [\<lparr>ts_price = 1000, ts_timestamp = 1000\<rparr>]\<rparr>"
  have r: "oa_aggregate_price two_liars (env0 []) empty_aggregator [0, 1, 2, 3, 4] 60 = Inr (?s, 1000)" by code_simp
  have v: "valid_prices two_liars [0, 1, 2, 3, 4] = [1000, 1010, 990, 1, 2 ^ 100]" by code_simp
  have "in_range I128 (or_price q)" if "a \<in> set [0, 1, 2, 3, 4]" "two_liars a = Some q" for a q
    using that by (auto simp: two_liars_def in_range_def)
  from oracle_price_robust [OF r this, where lo = 990 and hi = 1010] r v show ?thesis by simp
qed

section \<open>The accumulating oracle\<close>

datatype twap_call = TwInitialize address address int | TwUpdate int

fun twap_step :: "env \<Rightarrow> twap_state option \<Rightarrow> twap_call \<Rightarrow> (twap_state option \<times> unit) tw_res" where
  "twap_step E s (TwInitialize a b i) = rbind (tw_initialize s a b i) (\<lambda>s'. Inr (s', ()))"
| "twap_step E s (TwUpdate p) = rbind (tw_update_price E s p) (\<lambda>s'. Inr (s', ()))"

fun twap_sane :: "int \<Rightarrow> int \<Rightarrow> env \<Rightarrow> twap_call \<Rightarrow> bool" where
  "twap_sane lo hi E (TwInitialize a b i) \<longleftrightarrow> in_range U64 (ledger_time E)"
| "twap_sane lo hi E (TwUpdate p) \<longleftrightarrow> in_range U64 (ledger_time E) \<and> lo \<le> p \<and> p \<le> hi"

text \<open>The accumulator is a sum of prices in the bounds, one per second of the recorded time.\<close>

definition twap_between :: "int \<Rightarrow> int \<Rightarrow> twap_state option \<times> int \<Rightarrow> bool" where
  "twap_between lo hi st =
     (let (s, t) = st in
      0 \<le> t \<and> t \<le> ity_max U64 \<and>
      (case s of None \<Rightarrow> True
       | Some x \<Rightarrow> 0 \<le> tw_total_time x \<and> tw_total_time x \<le> tw_last_update x \<and> tw_last_update x \<le> t
           \<and> lo * tw_total_time x \<le> tw_cumulative_price x \<and> tw_cumulative_price x \<le> hi * tw_total_time x
           \<and> (tw_last_update x > 0 \<longrightarrow> lo \<le> tw_last_price x \<and> tw_last_price x \<le> hi)))"

lemma tw_update_Inr:
  assumes "tw_update_price E (Some t) p = Inr s'" "tw_last_update t \<le> ledger_time E" "0 \<le> tw_last_update t" "ledger_time E \<le> ity_max U64"
    and "elapsed = (if tw_last_update t = 0 then 0 else ledger_time E - tw_last_update t)"
  shows "s' = Some (t\<lparr>tw_cumulative_price := wrap U128 (tw_cumulative_price t + wrap U128 (tw_last_price t * elapsed)),
                      tw_total_time := wrap U128 (tw_total_time t + elapsed), tw_last_update := ledger_time E, tw_last_price := wrap U128 p\<rparr>)
    \<and> 0 < p"
proof -
  have "in_range U64 (ledger_time E - tw_last_update t)" using assms(2-4) by (simp add: in_range_def)
  with assms(1,5) show ?thesis by (auto simp: tw_update_price_def Let_def split: if_splits)
qed

lemma twap_update_between:
  assumes "twap_between lo hi (Some t, now)" "now \<le> ledger_time E" "in_range U64 (ledger_time E)" "0 \<le> lo" "lo \<le> p" "p \<le> hi" "hi < 2 ^ 63"
    and "tw_update_price E (Some t) p = Inr s'"
  shows "twap_between lo hi (s', ledger_time E)"
proof -
  define n where "n = (if tw_last_update t = 0 then 0 else ledger_time E - tw_last_update t)"
  let ?c = "tw_cumulative_price t" and ?T = "tw_total_time t" and ?q = "tw_last_price t"
  have inv: "0 \<le> ?T" "?T \<le> tw_last_update t" "tw_last_update t \<le> now" "lo * ?T \<le> ?c" "?c \<le> hi * ?T"
    "tw_last_update t > 0 \<Longrightarrow> lo \<le> ?q \<and> ?q \<le> hi" using assms(1) by (auto simp: twap_between_def)
  have E: "0 \<le> ledger_time E" "ledger_time E \<le> ity_max U64" using assms(3) by (simp_all add: in_range_def)
  have n: "0 \<le> n" "?T + n \<le> ledger_time E" using inv(1-3) assms(2) by (auto simp: n_def)
  have q: "lo * n \<le> ?q * n \<and> ?q * n \<le> hi * n"
    using inv(1,2,6) n(1) by (cases "tw_last_update t = 0") (auto simp: n_def intro: mult_right_mono)
  then have b: "lo * (?T + n) \<le> ?c + ?q * n" "?c + ?q * n \<le> hi * (?T + n)" using inv(4,5) by (auto simp: distrib_left)
  have top: "hi * (?T + n) \<le> (2 ^ 63 - 1) * (2 ^ 64 - 1)" using assms(4-7) n inv(1) E by (intro mult_mono) auto
  have "0 \<le> lo * n" "0 \<le> lo * ?T" using assms(4) n(1) inv(1) by simp_all
  with b top q inv(4) have w: "wrap U128 (?q * n) = ?q * n" "wrap U128 (?c + ?q * n) = ?c + ?q * n"
    by (auto intro!: wrap_id simp: in_range_def)
  have wT: "wrap U128 (?T + n) = ?T + n" using n inv(1) E by (intro wrap_id) (simp add: in_range_def)
  have wp: "wrap U128 p = p" using assms(4-7) by (intro wrap_id) (simp add: in_range_def)
  from tw_update_Inr [OF assms(8) _ _ E(2) n_def] inv(1-3) assms(2) w wT wp b n E assms(5,6) inv(1)
  show ?thesis by (simp add: twap_between_def)
qed

lemma twap_step_between:
  assumes "0 \<le> lo" "hi < 2 ^ 63" "twap_sane lo hi E c" "twap_between lo hi st" "timed twap_step E st c = Inr (st', v)"
  shows "twap_between lo hi st'"
proof -
  obtain s t where st: "st = (s, t)" by (cases st)
  obtain s' t' where st': "st' = (s', t')" by (cases st')
  show ?thesis
  proof (cases c)
    case (TwInitialize a b i)
    with assms st st' show ?thesis by (auto simp: timed_Inr tw_initialize_def twap_between_def in_range_def split: if_splits)
  next
    case (TwUpdate p)
    with assms(5) st st' have u: "tw_update_price E s p = Inr s'" "t \<le> ledger_time E" "t' = ledger_time E" by (auto simp: timed_Inr)
    from u(1) obtain x where "s = Some x" by (cases s) (auto simp: tw_update_price_def)
    with twap_update_between [of lo hi x t E p s'] assms(1-4) TwUpdate u st st' show ?thesis by simp
  qed
qed

interpretation tw: contract_machine "timed twap_step"
  "\<lambda>E c. twap_sane lo hi E c \<and> 0 \<le> lo \<and> hi < 2 ^ 63" "twap_between lo hi" for lo hi
  by unfold_locales (use twap_step_between in blast)

text \<open>
  With a clock that does not go back and updates between two bounds below 2^63, the oracle's average lies between the
  bounds as soon as some time has been recorded, and is 0 before; the wrapping accumulator has not wrapped. It holds for
  both build profiles.
\<close>

theorem twap_oracle_between:
  assumes "\<forall>c \<in> set cs. twap_sane lo hi (fst c) (snd c)" "0 \<le> lo" "hi < 2 ^ 63"
    and "run_calls (timed twap_step) cs (None, 0) = (Some s, t)"
  shows "if tw_total_time s = 0 then tw_get_twap (Some s) = Inr 0 else \<exists>p. tw_get_twap (Some s) = Inr p \<and> lo \<le> p \<and> p \<le> hi"
proof -
  have "twap_between lo hi (Some s, t)"
    using tw.run_inv [of lo hi "(None, 0)" cs] assms by (simp add: twap_between_def)
  then have inv: "0 \<le> tw_total_time s" "lo * tw_total_time s \<le> tw_cumulative_price s" "tw_cumulative_price s \<le> hi * tw_total_time s"
    by (simp_all add: twap_between_def)
  let ?p = "tw_cumulative_price s div tw_total_time s"
  have "0 \<le> tw_cumulative_price s" using inv(1,2) assms(2) mult_nonneg_nonneg [of lo "tw_total_time s"] by linarith
  moreover have "lo \<le> ?p \<and> ?p \<le> hi" if "tw_total_time s \<noteq> 0" using quotient_between [OF _ inv(2,3)] inv(1) that by simp
  moreover from this have "wrap I128 ?p = ?p" "in_range U128 ?p" if "tw_total_time s \<noteq> 0"
    using that assms(2,3) by (auto intro!: wrap_id simp: in_range_def)
  ultimately show ?thesis using inv(1) by (simp add: tw_get_twap_def Let_def quot_def)
qed

definition updated :: "(env \<times> twap_call) list" where
  "updated = map (\<lambda>(t, c). ((env0 [])\<lparr>ledger_time := t\<rparr>, c))
     [(1000, TwInitialize 1 2 10), (1010, TwUpdate 50), (1015, TwUpdate 55), (1030, TwUpdate 80), (1040, TwUpdate 70)]"

theorem twap_oracle_between_witness:
  "\<exists>s t. run_calls (timed twap_step) updated (None, 0) = (Some s, t) \<and> tw_total_time s = 30
     \<and> (\<exists>p. tw_get_twap (Some s) = Inr p \<and> 50 \<le> p \<and> p \<le> 80)"
proof -
  let ?s = "\<lparr>tw_token_a = 1, tw_token_b = 2, tw_cumulative_price = 1800, tw_total_time = 30, tw_last_update = 1040,
    tw_last_price = 70, tw_min_interval = 10\<rparr>"
  have r: "run_calls (timed twap_step) updated (None, 0) = (Some ?s, 1040)" by code_simp
  have "\<forall>c \<in> set updated. twap_sane 50 80 (fst c) (snd c)" by (simp add: updated_def env0_def in_range_def)
  from twap_oracle_between [OF this _ _ r] r show ?thesis by auto
qed

end
