(* ===== verification/DutchAuction.thy ===== *)
theory DutchAuction
  imports TokenInterface
begin

text \<open>
  The Dutch auction of \<open>contracts/dutch_auction/src/lib.rs\<close>, whose price falls linearly from the start to the end. As in the
  English auction the item and the payments move by \<open>invoke_contract(address, "transfer", ...)\<close>, for which one function
  \<open>xfer\<close> stands, and every failure is a panic.
\<close>

text \<open>One field per \<open>DataKey\<close>; \<open>initialize\<close> writes all of them and none is removed, so the storage is this record or \<open>None\<close>.\<close>

record dutch_auction =
  da_seller :: address
  da_nft_contract :: address
  da_token_id :: int
  da_payment_token :: address
  da_start_price :: int
  da_end_price :: int
  da_start_ledger :: int
  da_end_ledger :: int
  da_sold :: bool

type_synonym 'a da_res = "(unit, 'a) res"

definition da_initialize ::
  "env \<Rightarrow> dutch_auction option \<Rightarrow> address \<Rightarrow> address \<Rightarrow> int \<Rightarrow> address \<Rightarrow> int \<Rightarrow> int \<Rightarrow> int \<Rightarrow> dutch_auction option da_res" where
  "da_initialize E s seller nft_contract token_id payment_token start_price end_price duration_ledgers =
     (if s \<noteq> None then Inl (Panic (Message ''Already initialized''))
      else if start_price \<le> 0 \<or> end_price < 0
      then Inl (Panic (Message ''prices must be non-negative and start_price must be > 0''))
      else if end_price > start_price then Inl (Panic (Message ''end_price (floor) cannot exceed start_price''))
      else if duration_ledgers = 0 then Inl (Panic (Message ''duration_ledgers must be greater than zero''))
      else
        rbind (fit E U32 (ledger_seq E + duration_ledgers)) (\<lambda>end_ledger.
        Inr (Some \<lparr>da_seller = seller, da_nft_contract = nft_contract, da_token_id = token_id, da_payment_token = payment_token,
          da_start_price = start_price, da_end_price = end_price, da_start_ledger = ledger_seq E, da_end_ledger = end_ledger,
          da_sold = False\<rparr>)))"

definition da_get_current_price :: "env \<Rightarrow> dutch_auction option \<Rightarrow> int da_res" where
  "da_get_current_price E s =
     rbind (unwrap s) (\<lambda>a.
     let start_price = da_start_price a; end_price = da_end_price a; current_ledger = ledger_seq E in
     if current_ledger \<ge> da_end_ledger a then Inr end_price
     else if current_ledger \<le> da_start_ledger a then Inr start_price
     else
       rbind (fit E U32 (da_end_ledger a - da_start_ledger a)) (\<lambda>total_duration.
       rbind (fit E U32 (current_ledger - da_start_ledger a)) (\<lambda>elapsed.
       let price_drop = max (case checked I128 (start_price - end_price) of None \<Rightarrow> 0 | Some d \<Rightarrow> d) 0;
           current_drop =
             (case checked I128 (price_drop * elapsed) of
                None \<Rightarrow> price_drop
              | Some v \<Rightarrow> (case checked_quot I128 v total_duration of None \<Rightarrow> price_drop | Some d \<Rightarrow> d));
           price = (case checked I128 (start_price - current_drop) of None \<Rightarrow> end_price | Some p \<Rightarrow> p) in
       Inr (if price < end_price then end_price else price))))"

definition da_buy :: "'w token_xfer \<Rightarrow> env \<Rightarrow> dutch_auction option \<times> 'w \<Rightarrow> address \<Rightarrow> (dutch_auction option \<times> 'w) da_res" where
  "da_buy xfer E sw buyer =
     (let s = fst sw; w = snd sw; here = this_contract E in
      rbind (require_auth E buyer) (\<lambda>_.
      rbind (unwrap s) (\<lambda>a.
      if da_sold a then Inl (Panic (Message ''Already sold''))
      else
        rbind (da_get_current_price E s) (\<lambda>current_price.
        rbind (call (xfer E (da_payment_token a) buyer here current_price w)) (\<lambda>w1.
        rbind (call (xfer E (da_nft_contract a) here buyer (da_token_id a) w1)) (\<lambda>w2.
        rbind (call (xfer E (da_payment_token a) here (da_seller a) current_price w2)) (\<lambda>w3.
        Inr (Some (a\<lparr>da_sold := True\<rparr>), w3))))))))"

definition da_reclaim :: "'w token_xfer \<Rightarrow> env \<Rightarrow> dutch_auction option \<times> 'w \<Rightarrow> (dutch_auction option \<times> 'w) da_res" where
  "da_reclaim xfer E sw =
     (let s = fst sw; w = snd sw in
      rbind (unwrap s) (\<lambda>a.
      if ledger_seq E < da_end_ledger a then Inl (Panic (Message ''Auction not ended''))
      else if da_sold a then Inl (Panic (Message ''Already sold''))
      else
        rbind (require_auth E (da_seller a)) (\<lambda>_.
        rbind (call (xfer E (da_nft_contract a) (this_contract E) (da_seller a) (da_token_id a) w)) (\<lambda>w1.
        Inr (Some (a\<lparr>da_sold := True\<rparr>), w1)))))"

definition da_is_sold :: "dutch_auction option \<Rightarrow> bool da_res" where
  "da_is_sold s = rbind (unwrap s) (\<lambda>a. Inr (da_sold a))"

end
