(* ===== verification/DutchAuctionProperties.thy ===== *)
theory DutchAuctionProperties
  imports DutchAuction EnglishAuctionProperties
begin

text \<open>
  The price of the Dutch auction falls linearly and never leaves its bounds, and the contract sells once, at that price.
\<close>

section \<open>The calls\<close>

datatype da_call =
    DaInitialize address address int address int int int
  | DaBuy address
  | DaReclaim

fun da_exec :: "'w token_xfer \<Rightarrow> env \<Rightarrow> dutch_auction option \<times> 'w \<Rightarrow> da_call \<Rightarrow> (dutch_auction option \<times> 'w) da_res" where
  "da_exec xfer E sw (DaInitialize se nc i pt sp ep d) = rbind (da_initialize E (fst sw) se nc i pt sp ep d) (\<lambda>s. Inr (s, snd sw))"
| "da_exec xfer E sw (DaBuy b) = da_buy xfer E sw b"
| "da_exec xfer E sw DaReclaim = da_reclaim xfer E sw"

definition da_step :: "'w token_xfer \<Rightarrow> env \<Rightarrow> dutch_auction option \<times> 'w \<Rightarrow> da_call \<Rightarrow> (unit, (dutch_auction option \<times> 'w) \<times> unit) res" where
  "da_step xfer E sw c = rbind (da_exec xfer E sw c) (\<lambda>sw'. Inr (sw', ()))"

text \<open>Ledger numbers and durations are \<open>u32\<close>, prices \<open>i128\<close>; the checks of \<open>+\<close> are on.\<close>

fun da_typed :: "env \<Rightarrow> da_call \<Rightarrow> bool" where
  "da_typed E (DaInitialize se nc i pt sp ep d) \<longleftrightarrow>
     overflow_checks E \<and> in_range U32 (ledger_seq E) \<and> in_range U32 d \<and> in_range I128 sp \<and> in_range I128 ep"
| "da_typed E c \<longleftrightarrow> True"

definition da_terms :: "dutch_auction \<times> 'w \<Rightarrow> bool" where
  "da_terms aw = (let a = fst aw in
     0 \<le> da_end_price a \<and> da_end_price a \<le> da_start_price a \<and> da_start_price a \<le> ity_max I128
     \<and> 0 \<le> da_start_ledger a \<and> da_start_ledger a < da_end_ledger a \<and> da_end_ledger a \<le> ity_max U32)"

definition da_sound :: "dutch_auction option \<times> 'w \<Rightarrow> bool" where
  "da_sound sw = (case fst sw of None \<Rightarrow> True | Some a \<Rightarrow> da_terms (a, snd sw))"

interpretation dutch: contract_machine "da_step xfer" da_typed da_sound for xfer :: "'w token_xfer"
proof
  fix E c sw sw' v
  assume "da_typed E c" "da_sound sw" "da_step xfer E sw c = Inr (sw', v)"
  then show "da_sound sw'"
    by (cases c) (auto simp: da_step_def da_initialize_def da_buy_def da_reclaim_def da_sound_def da_terms_def Let_def in_range_def
        split: option.splits if_splits)
qed

section \<open>The price\<close>

text \<open>The price without the machine's integers: linear between the two ledgers, and at the floor where the product
  \<open>price_drop * elapsed\<close> would not fit.\<close>

definition falling_price :: "dutch_auction \<Rightarrow> int \<Rightarrow> int" where
  "falling_price a l =
     (let drop = da_start_price a - da_end_price a in
      if l \<ge> da_end_ledger a then da_end_price a
      else if l \<le> da_start_ledger a then da_start_price a
      else if drop * (l - da_start_ledger a) > ity_max I128 then da_end_price a
      else da_start_price a - drop * (l - da_start_ledger a) div (da_end_ledger a - da_start_ledger a))"

lemma drop_part:
  assumes "0 \<le> d" "0 \<le> e" "e \<le> n" "0 < n"
  shows "0 \<le> d * e div n \<and> d * e div n \<le> (d :: int)"
proof -
  have "d * e \<le> d * n" using assms by (simp add: mult_left_mono)
  then have "d * e div n \<le> d * n div n" using assms(4) by (rule zdiv_mono1)
  with assms show ?thesis by (simp add: div_nonneg_int)
qed

lemma current_price_falling:
  assumes "da_terms (a, w)"
  shows "da_get_current_price E (Some a) = Inr (falling_price a (ledger_seq E))"
proof (cases "ledger_seq E \<ge> da_end_ledger a \<or> ledger_seq E \<le> da_start_ledger a")
  case True
  with assms show ?thesis by (auto simp: da_get_current_price_def falling_price_def Let_def da_terms_def)
next
  case False
  let ?n = "da_end_ledger a - da_start_ledger a" and ?e = "ledger_seq E - da_start_ledger a" and ?d = "da_start_price a - da_end_price a"
  have t: "0 \<le> da_end_price a" "da_start_price a \<le> ity_max I128" "0 \<le> ?d" "0 \<le> ?e" "?e \<le> ?n" "0 < ?n" "in_range U32 ?n" "in_range U32 ?e"
    using assms False by (auto simp: da_terms_def in_range_def)
  note part = drop_part [OF t(3-6)]
  have d: "in_range I128 ?d" "max ?d 0 = ?d" using t(1-3) by (simp_all add: in_range_def)
  note code = da_get_current_price_def falling_price_def Let_def checked_def
  show ?thesis
  proof (cases "?d * ?e > ity_max I128")
    case True
    then have "\<not> in_range I128 (?d * ?e)" by (simp add: in_range_def)
    moreover have "in_range I128 (da_end_price a)" using t(1-3) by (simp add: in_range_def)
    ultimately show ?thesis using False True d t(7,8) by (simp add: code)
  next
    case fits: False
    have pos: "0 \<le> ?d * ?e" using t(3,4) by simp
    then have "in_range I128 (?d * ?e)" using fits by (simp add: in_range_def)
    moreover have "in_range I128 (?d * ?e div ?n)" "in_range I128 (da_start_price a - ?d * ?e div ?n)"
      using t(1-3) part by (simp_all add: in_range_def)
    moreover have "tdiv (?d * ?e) ?n = ?d * ?e div ?n" using pos t(6) by simp
    ultimately show ?thesis using False fits d t(6-8) part by (simp add: code checked_quot_def)
  qed
qed

lemma falling_price_bounds:
  assumes "da_terms (a, w)"
  shows "da_end_price a \<le> falling_price a l \<and> falling_price a l \<le> da_start_price a"
  using assms drop_part [of "da_start_price a - da_end_price a" "l - da_start_ledger a" "da_end_ledger a - da_start_ledger a"]
  by (auto simp: falling_price_def Let_def da_terms_def)

lemma falling_price_antitone:
  assumes "da_terms (a, w)" "l \<le> l'"
  shows "falling_price a l' \<le> falling_price a l"
proof -
  let ?n = "da_end_ledger a - da_start_ledger a" and ?d = "da_start_price a - da_end_price a"
  have "?d * (l - da_start_ledger a) \<le> ?d * (l' - da_start_ledger a)"
    using assms by (intro mult_left_mono) (auto simp: da_terms_def)
  moreover from this have "?d * (l - da_start_ledger a) div ?n \<le> ?d * (l' - da_start_ledger a) div ?n"
    using assms by (intro zdiv_mono1) (auto simp: da_terms_def)
  ultimately show ?thesis
    using falling_price_bounds [OF assms(1), of l] falling_price_bounds [OF assms(1), of l'] assms
    by (auto simp: falling_price_def Let_def)
qed

lemma run_terms:
  assumes "\<forall>c \<in> set cs. da_typed (fst c) (snd c)" "run_calls (da_step xfer) cs (None, w0) = (Some a, w)"
  shows "da_terms (a, w)"
  using dutch.run_inv [of "(None, w0)" cs xfer] assms by (simp add: da_sound_def)

text \<open>
  After any calls the price is defined in every ledger, never rises with the ledger number, stays between the start
  price and the floor, is the start price up to the first ledger and the floor from the last one on; and it is the exact
  linear interpolation, rounded up, as long as the whole drop times the duration fits in 128 bits.
\<close>

theorem dutch_price_falls:
  assumes "\<forall>c \<in> set cs. da_typed (fst c) (snd c)" "run_calls (da_step xfer) cs (None, w0) = (Some a, w)"
    and "ledger_seq E \<le> ledger_seq E'"
  shows "\<exists>p p'. da_get_current_price E (Some a) = Inr p \<and> da_get_current_price E' (Some a) = Inr p'
    \<and> da_end_price a \<le> p' \<and> p' \<le> p \<and> p \<le> da_start_price a
    \<and> (ledger_seq E \<le> da_start_ledger a \<longrightarrow> p = da_start_price a) \<and> (da_end_ledger a \<le> ledger_seq E \<longrightarrow> p = da_end_price a)
    \<and> ((da_start_price a - da_end_price a) * (da_end_ledger a - da_start_ledger a) \<le> ity_max I128
        \<longrightarrow> da_start_ledger a \<le> ledger_seq E \<longrightarrow> ledger_seq E \<le> da_end_ledger a
        \<longrightarrow> p = da_start_price a - (da_start_price a - da_end_price a) * (ledger_seq E - da_start_ledger a)
              div (da_end_ledger a - da_start_ledger a))"
proof -
  have t: "da_terms (a, w)" using assms(1,2) by (rule run_terms)
  let ?n = "da_end_ledger a - da_start_ledger a" and ?d = "da_start_price a - da_end_price a"
  have "?d * (ledger_seq E - da_start_ledger a) \<le> ?d * ?n" if "ledger_seq E \<le> da_end_ledger a"
    using t that by (intro mult_left_mono) (auto simp: da_terms_def)
  then have "falling_price a (ledger_seq E) = da_start_price a - ?d * (ledger_seq E - da_start_ledger a) div ?n"
    if "?d * ?n \<le> ity_max I128" "da_start_ledger a \<le> ledger_seq E" "ledger_seq E \<le> da_end_ledger a"
    using that t by (cases "ledger_seq E = da_end_ledger a"; cases "ledger_seq E = da_start_ledger a")
      (auto simp: falling_price_def Let_def da_terms_def)
  moreover have "ledger_seq E \<le> da_start_ledger a \<longrightarrow> falling_price a (ledger_seq E) = da_start_price a"
    "da_end_ledger a \<le> ledger_seq E \<longrightarrow> falling_price a (ledger_seq E) = da_end_price a"
    using t by (auto simp: falling_price_def Let_def da_terms_def)
  ultimately show ?thesis
    using current_price_falling [OF t] falling_price_bounds [OF t] falling_price_antitone [OF t assms(3)] by blast
qed

text \<open>Account 50 offers item 7 at 300 units falling to 100 over 200 ledgers, having given the contract (address 0) the item.\<close>

definition dutch_market :: market where
  "dutch_market = (fst market0, [7 \<mapsto> 0])"

definition dutch_offer :: "(env \<times> da_call) list" where
  "dutch_offer = [(env0 [50], DaInitialize 50 950 7 901 300 100 200), (env0 [51], DaReclaim)]"

definition dutch_offered :: dutch_auction where
  "dutch_offered = \<lparr>da_seller = 50, da_nft_contract = 950, da_token_id = 7, da_payment_token = 901, da_start_price = 300,
     da_end_price = 100, da_start_ledger = 100, da_end_ledger = 300, da_sold = False\<rparr>"

lemma dutch_offer_typed: "\<forall>c \<in> set dutch_offer. da_typed (fst c) (snd c)"
  by (simp add: dutch_offer_def env0_def in_range_def)

lemma dutch_offer_run: "run_calls (da_step market_transfer) dutch_offer (None, dutch_market) = (Some dutch_offered, dutch_market)"
  by (simp add: dutch_offer_def dutch_offered_def da_step_def da_initialize_def da_reclaim_def apply_call_def env0_def Let_def
      in_range_def)

theorem dutch_price_falls_witness:
  "\<exists>p p'. da_get_current_price ((env0 [])\<lparr>ledger_seq := 150\<rparr>) (Some dutch_offered) = Inr p
     \<and> da_get_current_price ((env0 [])\<lparr>ledger_seq := 175\<rparr>) (Some dutch_offered) = Inr p' \<and> p' \<le> p \<and> p = 250"
  using dutch_price_falls [OF dutch_offer_typed dutch_offer_run, of "(env0 [])\<lparr>ledger_seq := 150\<rparr>" "(env0 [])\<lparr>ledger_seq := 175\<rparr>"]
  by (auto simp: dutch_offered_def)

section \<open>The sale\<close>

lemma da_buy_Inr:
  "da_buy xfer E (Some a, w) b = Inr (s', w') \<Longrightarrow>
   \<exists>p w1 w2. b \<in> set (auths E) \<and> \<not> da_sold a \<and> da_get_current_price E (Some a) = Inr p
     \<and> xfer E (da_payment_token a) b (this_contract E) p w = Some w1
     \<and> xfer E (da_nft_contract a) (this_contract E) b (da_token_id a) w1 = Some w2
     \<and> xfer E (da_payment_token a) (this_contract E) (da_seller a) p w2 = Some w' \<and> s' = Some (a\<lparr>da_sold := True\<rparr>)"
  by (auto simp: da_buy_def Let_def)

lemma sold_stops: "da_sold a \<Longrightarrow> da_step xfer E (Some a, w) c \<noteq> Inr r"
  by (cases c) (auto simp: da_step_def da_initialize_def da_buy_def da_reclaim_def Let_def)

lemma sold_run: "da_sold a \<Longrightarrow> run_calls (da_step xfer) cs (Some a, w) = (Some a, w)"
  by (induction cs) (auto simp: apply_call_def sold_stops split: sum.splits)

context payment_token
begin

lemma buy_moves:
  assumes "da_buy xfer E (Some a, w) b = Inr (s', w')" "overflow_checks E" "da_payment_token a = P" "da_nft_contract a \<noteq> P"
  shows "\<exists>p. da_get_current_price E (Some a) = Inr p \<and> (\<forall>x. bal x w' = bal x w + delta b (da_seller a) p x)"
proof -
  from da_buy_Inr [OF assms(1)] assms(3) obtain p w1 w2 where p: "da_get_current_price E (Some a) = Inr p"
    and x: "xfer E P b (this_contract E) p w = Some w1" "xfer E (da_nft_contract a) (this_contract E) b (da_token_id a) w1 = Some w2"
    "xfer E P (this_contract E) (da_seller a) p w2 = Some w'" by auto
  have "bal y w' = bal y w + delta b (da_seller a) p y" for y
    using pay_bal [OF assms(2) x(1)] pay_bal [OF assms(2) x(2)] pay_bal [OF assms(2) x(3)] assms(4) by (simp add: delta_def)
  with p show ?thesis by blast
qed

end

text \<open>
  A completed purchase in any reachable auction was authorised by the buyer, moves exactly the current price, which lies
  between the floor and the start price, from the buyer to the seller, leaves every other payment balance (the contract's
  own included) as it was, and hands the item over; afterwards no call whatever changes the auction or moves anything.
  The contracts called are only assumed to move what a completed payment transfer says.
\<close>

theorem dutch_sells_once:
  assumes law: "\<forall>E t f to n w w' x. overflow_checks E \<longrightarrow> xfer E t f to n w = Some w' \<longrightarrow>
      bal x w' = bal x w + (if t = P then delta f to n x else 0)"
    and "\<forall>c \<in> set cs. da_typed (fst c) (snd c)" "run_calls (da_step xfer) cs (None, w0) = (Some a, w)"
    and "da_payment_token a = P" "da_nft_contract a \<noteq> P" "overflow_checks E" "da_buy xfer E (Some a, w) b = Inr (s', w')"
  shows "\<exists>p. da_get_current_price E (Some a) = Inr p \<and> b \<in> set (auths E) \<and> \<not> da_sold a
    \<and> da_end_price a \<le> p \<and> p \<le> da_start_price a \<and> (\<forall>x. bal x w' = bal x w + delta b (da_seller a) p x)
    \<and> (\<exists>w1 w2. xfer E (da_nft_contract a) (this_contract E) b (da_token_id a) w1 = Some w2)
    \<and> (\<forall>cs'. run_calls (da_step xfer) cs' (s', w') = (s', w'))"
proof -
  have "payment_token xfer P bal" by unfold_locales (use law in blast)
  from payment_token.buy_moves [OF this assms(7,6,4,5)] obtain p where
    p: "da_get_current_price E (Some a) = Inr p" "\<forall>x. bal x w' = bal x w + delta b (da_seller a) p x" by blast
  have t: "da_terms (a, w)" using assms(2,3) by (rule run_terms)
  have "da_end_price a \<le> p \<and> p \<le> da_start_price a"
    using falling_price_bounds [OF t, of "ledger_seq E"] current_price_falling [OF t, of E] p(1) by simp
  moreover from da_buy_Inr [OF assms(7)] obtain w1 w2 where b: "b \<in> set (auths E)" "\<not> da_sold a" "s' = Some (a\<lparr>da_sold := True\<rparr>)"
    "xfer E (da_nft_contract a) (this_contract E) b (da_token_id a) w1 = Some w2" by blast
  moreover have "\<forall>cs'. run_calls (da_step xfer) cs' (s', w') = (s', w')" by (simp add: b(3) sold_run)
  ultimately show ?thesis using p by blast
qed

definition dutch_bought :: "(dutch_auction option \<times> market) da_res" where
  "dutch_bought = da_buy market_transfer ((env0 [51])\<lparr>ledger_seq := 150\<rparr>) (Some dutch_offered, dutch_market) 51"

theorem dutch_sells_once_witness:
  "\<exists>s' w'. dutch_bought = Inr (s', w') \<and> snd w' 7 = Some 51 \<and> market_balance 50 w' = market_balance 50 dutch_market + 250
     \<and> run_calls (da_step market_transfer) [(env0 [52], DaBuy 52)] (s', w') = (s', w')"
proof -
  have "\<not> isl dutch_bought" by code_simp
  then obtain s' w' where b: "dutch_bought = Inr (s', w')" by (metis isl_def old.sum.exhaust prod.collapse)
  have "snd (snd (projr dutch_bought)) 7 = Some 51" by code_simp
  then have "snd w' 7 = Some 51" unfolding b by simp
  note r = b this
  have law: "\<forall>E t f to n w w' x. overflow_checks E \<longrightarrow> market_transfer E t f to n w = Some w' \<longrightarrow>
      market_balance x w' = market_balance x w + (if t = 901 then delta f to n x else 0)"
    using market_pay.pay_bal by blast
  have "da_get_current_price ((env0 [51])\<lparr>ledger_seq := 150\<rparr>) (Some dutch_offered) = Inr 250" by code_simp
  with dutch_sells_once [OF law dutch_offer_typed dutch_offer_run _ _ _ b [unfolded dutch_bought_def]]
  have "market_balance 50 w' = market_balance 50 dutch_market + 250" "\<forall>cs. run_calls (da_step market_transfer) cs (s', w') = (s', w')"
    by (simp_all add: dutch_offered_def env0_def delta_def)
  with r show ?thesis by (intro exI [of _ s'] exI [of _ w'] conjI) blast+
qed

end
