(* ===== verification/PrivateTransfer.thy ===== *)
theory PrivateTransfer
  imports Prelude "HOL-Library.Word"
begin

text \<open>
  The shielded transfers of \<open>contracts/private_transfer/src/lib.rs\<close>. SHA-256 and the Groth16 verifier contract are the
  parameters \<open>sha256\<close> and \<open>verify\<close>; the latter gets the environment too, since its contract may keep state, and \<open>None\<close>
  stands for a trap. \<open>Bytes\<close> and \<open>BytesN<32>\<close> are byte lists.
\<close>

type_synonym blob = "8 word list"

datatype private_error =
    AlreadyInitialized | NotInitialized | Unauthorized | InvalidRoot | ProofVerificationFailed | NullifierAlreadyUsed
  | InvalidUpdate | InvalidCommitment | DepositKeyAlreadyUsed | DepositKeyExists

record stealth_meta_address =
  sm_spend_pubkey :: blob
  sm_view_pubkey :: blob

record stealth_address_proof =
  sp_ephemeral_pubkey :: blob
  sp_view_tag :: blob
  sp_stealth_pubkey :: blob

record encrypted_balance_update =
  eu_commitment :: blob
  eu_ciphertext :: blob

record private_transfer =
  pt_old_root :: blob
  pt_nullifier :: blob
  pt_sender_update :: encrypted_balance_update
  pt_recipient_update :: encrypted_balance_update

record transfer_receipt =
  rc_previous_root :: blob
  rc_new_root :: blob
  rc_nullifier :: blob
  rc_leaf_index_start :: int

text \<open>One field per \<open>DataKey\<close>, and the events \<open>(obfuscated id, new root, leaf index)\<close>.\<close>

record private_pool =
  px_admin :: "address option"
  px_verifier :: "address option"
  px_verification_key_hash :: "blob option"
  px_current_root :: "blob option"
  px_root_history :: "blob \<rightharpoonup> bool"
  px_root_by_index :: "int \<rightharpoonup> blob"
  px_next_leaf_index :: "int option"
  px_nullifiers :: "blob \<rightharpoonup> bool"
  px_ciphertexts :: "blob \<rightharpoonup> blob"
  px_deposit_key_used :: "blob \<rightharpoonup> bool"
  px_deposit_key_owner :: "blob \<rightharpoonup> address"
  px_stealth_meta :: "address \<rightharpoonup> stealth_meta_address"
  px_events :: "(blob \<times> blob \<times> int) list"

definition empty_private_pool :: private_pool where
  "empty_private_pool = \<lparr>px_admin = None, px_verifier = None, px_verification_key_hash = None, px_current_root = None,
     px_root_history = Map.empty, px_root_by_index = Map.empty, px_next_leaf_index = None, px_nullifiers = Map.empty,
     px_ciphertexts = Map.empty, px_deposit_key_used = Map.empty, px_deposit_key_owner = Map.empty, px_stealth_meta = Map.empty,
     px_events = []\<rparr>"

type_synonym 'a px_res = "(private_error, 'a) res"

section \<open>Helpers\<close>

definition zero_bytes :: blob where "zero_bytes = replicate 32 0"

definition read_current_root :: "private_pool \<Rightarrow> blob px_res" where
  "read_current_root s = ok_or NotInitialized (px_current_root s)"

definition write_root :: "blob \<Rightarrow> int \<Rightarrow> private_pool \<Rightarrow> private_pool" where
  "write_root root index s = s\<lparr>px_current_root := Some root, px_root_history := (px_root_history s)(root \<mapsto> True),
     px_root_by_index := (px_root_by_index s)(index \<mapsto> root)\<rparr>"

definition root_exists :: "private_pool \<Rightarrow> blob \<Rightarrow> bool" where
  "root_exists s root = get_or (px_root_history s) root False"

definition px_hash_concat :: "(blob \<Rightarrow> blob) \<Rightarrow> blob \<Rightarrow> blob \<Rightarrow> blob" where
  "px_hash_concat sha256 left right = sha256 (left @ right)"

definition statement_hash :: "(blob \<Rightarrow> blob) \<Rightarrow> private_transfer \<Rightarrow> blob \<Rightarrow> blob" where
  "statement_hash sha256 transfer next_root =
     (let sender_cipher_hash = sha256 (eu_ciphertext (pt_sender_update transfer));
          recipient_cipher_hash = sha256 (eu_ciphertext (pt_recipient_update transfer)) in
      sha256 (pt_old_root transfer @ pt_nullifier transfer @ eu_commitment (pt_sender_update transfer) @ sender_cipher_hash
        @ eu_commitment (pt_recipient_update transfer) @ recipient_cipher_hash @ next_root))"

definition next_root_for_transfer :: "(blob \<Rightarrow> blob) \<Rightarrow> blob \<Rightarrow> private_transfer \<Rightarrow> blob" where
  "next_root_for_transfer sha256 current_root transfer =
     (let first = px_hash_concat sha256 current_root (eu_commitment (pt_sender_update transfer)) in
      px_hash_concat sha256 first (eu_commitment (pt_recipient_update transfer)))"

definition px_require_admin :: "env \<Rightarrow> private_pool \<Rightarrow> address px_res" where
  "px_require_admin E s = rbind (ok_or NotInitialized (px_admin s)) (\<lambda>admin. rbind (require_auth E admin) (\<lambda>_. Inr admin))"

definition require_nonzero_commitment :: "blob \<Rightarrow> unit px_res" where
  "require_nonzero_commitment commitment = (if commitment = zero_bytes then Inl (Err InvalidCommitment) else Inr ())"

definition stealth_commitment_hash :: "(blob \<Rightarrow> blob) \<Rightarrow> stealth_address_proof \<Rightarrow> blob" where
  "stealth_commitment_hash sha256 p = sha256 (sp_ephemeral_pubkey p @ sp_view_tag p @ sp_stealth_pubkey p)"

definition obfuscated_transfer_id :: "(blob \<Rightarrow> blob) \<Rightarrow> private_transfer \<Rightarrow> blob" where
  "obfuscated_transfer_id sha256 transfer =
     sha256 (pt_nullifier transfer @ eu_commitment (pt_sender_update transfer) @ eu_commitment (pt_recipient_update transfer))"

definition is_registered_deposit_key :: "private_pool \<Rightarrow> blob \<Rightarrow> bool" where
  "is_registered_deposit_key s commitment = (px_deposit_key_owner s commitment \<noteq> None)"

definition is_deposit_key_spent :: "private_pool \<Rightarrow> blob \<Rightarrow> bool" where
  "is_deposit_key_spent s commitment = get_or (px_deposit_key_used s) commitment False"

definition consume_deposit_key_if_registered :: "private_pool \<Rightarrow> blob \<Rightarrow> private_pool px_res" where
  "consume_deposit_key_if_registered s commitment =
     (if \<not> is_registered_deposit_key s commitment then Inr s
      else if is_deposit_key_spent s commitment then Inl (Err DepositKeyAlreadyUsed)
      else Inr (s\<lparr>px_deposit_key_used := (px_deposit_key_used s)(commitment \<mapsto> True)\<rparr>))"

definition emit_obfuscated_transfer :: "(blob \<Rightarrow> blob) \<Rightarrow> private_transfer \<Rightarrow> transfer_receipt \<Rightarrow> private_pool \<Rightarrow> private_pool" where
  "emit_obfuscated_transfer sha256 transfer receipt s =
     s\<lparr>px_events := px_events s @ [(obfuscated_transfer_id sha256 transfer, rc_new_root receipt, rc_leaf_index_start receipt)]\<rparr>"

section \<open>Entry points\<close>

definition px_initialize :: "private_pool \<Rightarrow> address \<Rightarrow> address \<Rightarrow> blob \<Rightarrow> blob \<Rightarrow> private_pool px_res" where
  "px_initialize s admin verifier verification_key_hash initial_root =
     (if px_admin s \<noteq> None then Inl (Err AlreadyInitialized)
      else
        let root = (if initial_root = zero_bytes then zero_bytes else initial_root) in
        Inr (write_root root 0
          (s\<lparr>px_admin := Some admin, px_verifier := Some verifier, px_verification_key_hash := Some verification_key_hash,
             px_next_leaf_index := Some 0\<rparr>)))"

definition px_set_verifier :: "env \<Rightarrow> private_pool \<Rightarrow> address \<Rightarrow> blob \<Rightarrow> private_pool px_res" where
  "px_set_verifier E s verifier verification_key_hash =
     rbind (px_require_admin E s) (\<lambda>_. Inr (s\<lparr>px_verifier := Some verifier, px_verification_key_hash := Some verification_key_hash\<rparr>))"

definition px_current_root_of :: "private_pool \<Rightarrow> blob px_res" where
  "px_current_root_of s = read_current_root s"

definition px_contains_root :: "private_pool \<Rightarrow> blob \<Rightarrow> bool" where
  "px_contains_root s root = root_exists s root"

definition px_next_leaf_index_of :: "private_pool \<Rightarrow> int" where
  "px_next_leaf_index_of s = (case px_next_leaf_index s of None \<Rightarrow> 0 | Some i \<Rightarrow> i)"

definition px_is_nullifier_used :: "private_pool \<Rightarrow> blob \<Rightarrow> bool" where
  "px_is_nullifier_used s nullifier = get_or (px_nullifiers s) nullifier False"

definition px_encrypted_note :: "private_pool \<Rightarrow> blob \<Rightarrow> blob option" where
  "px_encrypted_note s commitment = px_ciphertexts s commitment"

definition px_preview_next_root :: "(blob \<Rightarrow> blob) \<Rightarrow> private_pool \<Rightarrow> private_transfer \<Rightarrow> blob px_res" where
  "px_preview_next_root sha256 s transfer =
     rbind (read_current_root s) (\<lambda>current.
     if pt_old_root transfer \<noteq> current \<and> \<not> root_exists s (pt_old_root transfer) then Inl (Err InvalidRoot)
     else Inr (next_root_for_transfer sha256 (pt_old_root transfer) transfer))"

definition px_compute_stealth_commitment :: "(blob \<Rightarrow> blob) \<Rightarrow> stealth_address_proof \<Rightarrow> blob" where
  "px_compute_stealth_commitment sha256 p = stealth_commitment_hash sha256 p"

definition px_verify_stealth_commitment :: "(blob \<Rightarrow> blob) \<Rightarrow> stealth_address_proof \<Rightarrow> blob \<Rightarrow> bool px_res" where
  "px_verify_stealth_commitment sha256 p expected =
     rbind (require_nonzero_commitment (sp_ephemeral_pubkey p)) (\<lambda>_.
     rbind (require_nonzero_commitment (sp_stealth_pubkey p)) (\<lambda>_.
     rbind (require_nonzero_commitment expected) (\<lambda>_.
     Inr (stealth_commitment_hash sha256 p = expected))))"

definition px_register_stealth_meta :: "env \<Rightarrow> private_pool \<Rightarrow> address \<Rightarrow> blob \<Rightarrow> blob \<Rightarrow> private_pool px_res" where
  "px_register_stealth_meta E s owner spend_pubkey view_pubkey =
     rbind (require_auth E owner) (\<lambda>_.
     rbind (require_nonzero_commitment spend_pubkey) (\<lambda>_.
     rbind (require_nonzero_commitment view_pubkey) (\<lambda>_.
     Inr (s\<lparr>px_stealth_meta := (px_stealth_meta s)(owner \<mapsto> \<lparr>sm_spend_pubkey = spend_pubkey, sm_view_pubkey = view_pubkey\<rparr>)\<rparr>))))"

definition px_stealth_meta_of :: "private_pool \<Rightarrow> address \<Rightarrow> stealth_meta_address option" where
  "px_stealth_meta_of s owner = px_stealth_meta s owner"

definition px_register_deposit_key :: "env \<Rightarrow> private_pool \<Rightarrow> address \<Rightarrow> blob \<Rightarrow> private_pool px_res" where
  "px_register_deposit_key E s owner commitment =
     rbind (require_auth E owner) (\<lambda>_.
     rbind (require_nonzero_commitment commitment) (\<lambda>_.
     if is_registered_deposit_key s commitment then Inl (Err DepositKeyExists)
     else Inr (s\<lparr>px_deposit_key_owner := (px_deposit_key_owner s)(commitment \<mapsto> owner),
                 px_deposit_key_used := (px_deposit_key_used s)(commitment \<mapsto> False)\<rparr>)))"

definition px_is_deposit_key_used :: "private_pool \<Rightarrow> blob \<Rightarrow> bool" where
  "px_is_deposit_key_used s commitment = is_deposit_key_spent s commitment"

definition px_deposit_key_owner_of :: "private_pool \<Rightarrow> blob \<Rightarrow> address option" where
  "px_deposit_key_owner_of s commitment = px_deposit_key_owner s commitment"

definition px_apply_private_transfer ::
    "(blob \<Rightarrow> blob) \<Rightarrow> (env \<Rightarrow> address \<Rightarrow> blob \<Rightarrow> blob \<Rightarrow> blob \<Rightarrow> bool option) \<Rightarrow> env \<Rightarrow> private_pool
      \<Rightarrow> address \<Rightarrow> private_transfer \<Rightarrow> blob \<Rightarrow> (private_pool \<times> transfer_receipt) px_res" where
  "px_apply_private_transfer sha256 verify E s relayer transfer proof_bytes =
     (let sender = pt_sender_update transfer; recipient = pt_recipient_update transfer in
      rbind (require_auth E relayer) (\<lambda>_.
      rbind (require_nonzero_commitment (eu_commitment sender)) (\<lambda>_.
      rbind (require_nonzero_commitment (eu_commitment recipient)) (\<lambda>_.
      if eu_commitment sender = eu_commitment recipient then Inl (Err InvalidUpdate)
      else if px_is_nullifier_used s (pt_nullifier transfer) then Inl (Err NullifierAlreadyUsed)
      else if \<not> root_exists s (pt_old_root transfer) then Inl (Err InvalidRoot)
      else
        rbind (read_current_root s) (\<lambda>current_root.
        let next_root = next_root_for_transfer sha256 (pt_old_root transfer) transfer;
            public_input_hash = statement_hash sha256 transfer next_root in
        rbind (ok_or NotInitialized (px_verifier s)) (\<lambda>verifier.
        rbind (ok_or NotInitialized (px_verification_key_hash s)) (\<lambda>verification_key_hash.
        rbind (case verify E verifier verification_key_hash public_input_hash proof_bytes of None \<Rightarrow> Inl (Panic CallFailed) | Some v \<Rightarrow> Inr v) (\<lambda>valid.
        if \<not> valid then Inl (Err ProofVerificationFailed)
        else
          rbind (consume_deposit_key_if_registered s (eu_commitment recipient)) (\<lambda>s1.
          let leaf_index_start = px_next_leaf_index_of s1;
              s2 = s1\<lparr>px_nullifiers := (px_nullifiers s1)(pt_nullifier transfer \<mapsto> True),
                      px_ciphertexts := (px_ciphertexts s1)(eu_commitment sender \<mapsto> eu_ciphertext sender, eu_commitment recipient \<mapsto> eu_ciphertext recipient),
                      px_next_leaf_index := Some (saturate U32 (leaf_index_start + 2))\<rparr>;
              s3 = write_root next_root (saturate U32 (leaf_index_start + 2)) s2;
              receipt = \<lparr>rc_previous_root = current_root, rc_new_root = next_root, rc_nullifier = pt_nullifier transfer,
                         rc_leaf_index_start = leaf_index_start\<rparr> in
          Inr (emit_obfuscated_transfer sha256 transfer receipt s3, receipt))))))))))"

end
