(* ===== verification/PrivateTransferProperties.thy ===== *)
theory PrivateTransferProperties
  imports PrivateTransfer
begin

text \<open>
  No nullifier is spent twice and no registered deposit key is credited twice; every transfer carries a proof that the
  verifier accepted; the roots form a tree of which the current root is any node, so that a transfer on an older root
  leaves the newer branch.
\<close>

section \<open>The calls, with a log\<close>

datatype private_call =
    PxInitialize address address blob blob
  | PxSetVerifier address blob
  | PxRegisterStealthMeta address blob blob
  | PxRegisterDepositKey address blob
  | PxApply address private_transfer blob

text \<open>The log, which the contract does not keep, has each completed transfer and whether it credited a registered key.\<close>

record private_log_entry =
  pe_transfer :: private_transfer
  pe_registered :: bool

type_synonym logged_pool = "private_pool \<times> private_log_entry list"

fun private_step ::
    "(blob \<Rightarrow> blob) \<Rightarrow> (env \<Rightarrow> address \<Rightarrow> blob \<Rightarrow> blob \<Rightarrow> blob \<Rightarrow> bool option) \<Rightarrow> env \<Rightarrow> logged_pool \<Rightarrow> private_call \<Rightarrow> (logged_pool \<times> unit) px_res" where
  "private_step sha256 verify E (s, l) (PxInitialize a v k r) = rbind (px_initialize s a v k r) (\<lambda>s'. Inr ((s', l), ()))"
| "private_step sha256 verify E (s, l) (PxSetVerifier v k) = rbind (px_set_verifier E s v k) (\<lambda>s'. Inr ((s', l), ()))"
| "private_step sha256 verify E (s, l) (PxRegisterStealthMeta a k v) = rbind (px_register_stealth_meta E s a k v) (\<lambda>s'. Inr ((s', l), ()))"
| "private_step sha256 verify E (s, l) (PxRegisterDepositKey a c) = rbind (px_register_deposit_key E s a c) (\<lambda>s'. Inr ((s', l), ()))"
| "private_step sha256 verify E (s, l) (PxApply a t p) =
     rbind (px_apply_private_transfer sha256 verify E s a t p) (\<lambda>(s', r).
     Inr ((s', l @ [\<lparr>pe_transfer = t, pe_registered = is_registered_deposit_key s (eu_commitment (pt_recipient_update t))\<rparr>]), ()))"

abbreviation "log_nullifiers l \<equiv> map (\<lambda>e. pt_nullifier (pe_transfer e)) l"
abbreviation "log_credits l \<equiv> map (\<lambda>e. eu_commitment (pt_recipient_update (pe_transfer e))) (filter pe_registered l)"

definition spent_once :: "logged_pool \<Rightarrow> bool" where
  "spent_once sl = (let (s, l) = sl in
     distinct (log_nullifiers l) \<and> (\<forall>n \<in> set (log_nullifiers l). px_is_nullifier_used s n)
     \<and> distinct (log_credits l) \<and> (\<forall>k \<in> set (log_credits l). is_registered_deposit_key s k \<and> is_deposit_key_spent s k))"

lemma private_pool_views [simp]:
  "px_is_nullifier_used (write_root r i s) n = px_is_nullifier_used s n"
  "is_registered_deposit_key (write_root r i s) k = is_registered_deposit_key s k"
  "is_deposit_key_spent (write_root r i s) k = is_deposit_key_spent s k"
  "px_is_nullifier_used (emit_obfuscated_transfer h t c s) n = px_is_nullifier_used s n"
  "is_registered_deposit_key (emit_obfuscated_transfer h t c s) k = is_registered_deposit_key s k"
  "is_deposit_key_spent (emit_obfuscated_transfer h t c s) k = is_deposit_key_spent s k"
  by (simp_all add: write_root_def emit_obfuscated_transfer_def px_is_nullifier_used_def is_registered_deposit_key_def is_deposit_key_spent_def)

lemma consume_Inr:
  assumes "consume_deposit_key_if_registered s k = Inr s'"
  shows "px_nullifiers s' = px_nullifiers s" "px_deposit_key_owner s' = px_deposit_key_owner s" "px_next_leaf_index s' = px_next_leaf_index s"
    "px_root_history s' = px_root_history s" "px_deposit_key_used s' j = (if j = k \<and> is_registered_deposit_key s k then Some True else px_deposit_key_used s j)"
    "is_registered_deposit_key s k \<Longrightarrow> \<not> is_deposit_key_spent s k"
  using assms by (auto simp: consume_deposit_key_if_registered_def split: if_splits)

text \<open>What a completed transfer checked and wrote.\<close>

lemma apply_Inr:
  assumes "px_apply_private_transfer sha256 verify E s a t p = Inr (s', r)"
  shows "a \<in> set (auths E)" "\<not> px_is_nullifier_used s (pt_nullifier t)" "root_exists s (pt_old_root t)"
    "\<exists>v k. px_verifier s = Some v \<and> px_verification_key_hash s = Some k
       \<and> verify E v k (statement_hash sha256 t (next_root_for_transfer sha256 (pt_old_root t) t)) p = Some True"
    "px_is_nullifier_used s' n \<longleftrightarrow> n = pt_nullifier t \<or> px_is_nullifier_used s n"
    "is_registered_deposit_key s' k \<longleftrightarrow> is_registered_deposit_key s k"
    "is_deposit_key_spent s' k \<longleftrightarrow> (k = eu_commitment (pt_recipient_update t) \<and> is_registered_deposit_key s k) \<or> is_deposit_key_spent s k"
    "is_registered_deposit_key s (eu_commitment (pt_recipient_update t)) \<Longrightarrow> \<not> is_deposit_key_spent s (eu_commitment (pt_recipient_update t))"
    "px_current_root s' = Some (next_root_for_transfer sha256 (pt_old_root t) t)"
    "root_exists s' x \<longleftrightarrow> x = next_root_for_transfer sha256 (pt_old_root t) t \<or> root_exists s x"
    "rc_new_root r = next_root_for_transfer sha256 (pt_old_root t) t"
proof -
  from assms obtain c v vk s1 where s1: "a \<in> set (auths E)" "\<not> px_is_nullifier_used s (pt_nullifier t)" "root_exists s (pt_old_root t)"
      "px_verifier s = Some v" "px_verification_key_hash s = Some vk"
      "verify E v vk (statement_hash sha256 t (next_root_for_transfer sha256 (pt_old_root t) t)) p = Some True"
      "consume_deposit_key_if_registered s (eu_commitment (pt_recipient_update t)) = Inr s1"
    and r: "r = \<lparr>rc_previous_root = c, rc_new_root = next_root_for_transfer sha256 (pt_old_root t) t, rc_nullifier = pt_nullifier t,
         rc_leaf_index_start = px_next_leaf_index_of s1\<rparr>"
    and s': "s' = emit_obfuscated_transfer sha256 t r (write_root (next_root_for_transfer sha256 (pt_old_root t) t)
         (saturate U32 (px_next_leaf_index_of s1 + 2))
         (s1\<lparr>px_nullifiers := (px_nullifiers s1)(pt_nullifier t \<mapsto> True),
             px_ciphertexts := (px_ciphertexts s1)(eu_commitment (pt_sender_update t) \<mapsto> eu_ciphertext (pt_sender_update t),
               eu_commitment (pt_recipient_update t) \<mapsto> eu_ciphertext (pt_recipient_update t)),
             px_next_leaf_index := Some (saturate U32 (px_next_leaf_index_of s1 + 2))\<rparr>))"
    by (auto simp: px_apply_private_transfer_def Let_def split: if_splits option.splits)
  note c = consume_Inr [OF s1(7)]
  show "a \<in> set (auths E)" "\<not> px_is_nullifier_used s (pt_nullifier t)" "root_exists s (pt_old_root t)"
    "\<exists>v k. px_verifier s = Some v \<and> px_verification_key_hash s = Some k
       \<and> verify E v k (statement_hash sha256 t (next_root_for_transfer sha256 (pt_old_root t) t)) p = Some True"
    using s1 by auto
  show "px_is_nullifier_used s' n \<longleftrightarrow> n = pt_nullifier t \<or> px_is_nullifier_used s n"
    using c(1) by (simp add: s') (simp add: px_is_nullifier_used_def get_or_def)
  show "is_registered_deposit_key s' k \<longleftrightarrow> is_registered_deposit_key s k"
    using c(2) by (simp add: s') (simp add: is_registered_deposit_key_def)
  show "is_deposit_key_spent s' k \<longleftrightarrow> (k = eu_commitment (pt_recipient_update t) \<and> is_registered_deposit_key s k) \<or> is_deposit_key_spent s k"
    using c(5) by (cases "k = eu_commitment (pt_recipient_update t)") (simp_all add: s', simp_all add: is_deposit_key_spent_def get_or_def)
  show "is_registered_deposit_key s (eu_commitment (pt_recipient_update t)) \<Longrightarrow> \<not> is_deposit_key_spent s (eu_commitment (pt_recipient_update t))"
    by (rule c(6))
  show "px_current_root s' = Some (next_root_for_transfer sha256 (pt_old_root t) t)"
    "root_exists s' x \<longleftrightarrow> x = next_root_for_transfer sha256 (pt_old_root t) t \<or> root_exists s x"
    "rc_new_root r = next_root_for_transfer sha256 (pt_old_root t) t"
    using c(4) by (auto simp: s' r write_root_def emit_obfuscated_transfer_def root_exists_def get_or_def)
qed

section \<open>Nothing is spent twice\<close>

lemma apply_spent_once:
  assumes "spent_once (s, l)" "px_apply_private_transfer sha256 verify E s a t p = Inr (s', r)"
  shows "spent_once (s', l @ [\<lparr>pe_transfer = t, pe_registered = is_registered_deposit_key s (eu_commitment (pt_recipient_update t))\<rparr>])"
    and "pt_nullifier t \<notin> set (log_nullifiers l)"
    and "is_registered_deposit_key s (eu_commitment (pt_recipient_update t)) \<Longrightarrow> eu_commitment (pt_recipient_update t) \<notin> set (log_credits l)"
proof -
  note t = apply_Inr [OF assms(2)]
  from assms(1) have inv: "distinct (log_nullifiers l)" "\<forall>n \<in> set (log_nullifiers l). px_is_nullifier_used s n"
    "distinct (log_credits l)" "\<forall>k \<in> set (log_credits l). is_registered_deposit_key s k \<and> is_deposit_key_spent s k"
    by (simp_all add: spent_once_def)
  show new: "pt_nullifier t \<notin> set (log_nullifiers l)" using inv(2) t(2) by blast
  show key: "is_registered_deposit_key s (eu_commitment (pt_recipient_update t)) \<Longrightarrow> eu_commitment (pt_recipient_update t) \<notin> set (log_credits l)"
    using inv(4) t(8) by blast
  show "spent_once (s', l @ [\<lparr>pe_transfer = t, pe_registered = is_registered_deposit_key s (eu_commitment (pt_recipient_update t))\<rparr>])"
    using inv new key t(5,6,7) by (auto simp: spent_once_def)
qed

lemma spent_once_same:
  assumes "spent_once (s, l)" "px_nullifiers s' = px_nullifiers s" "px_deposit_key_owner s' = px_deposit_key_owner s"
    "px_deposit_key_used s' = px_deposit_key_used s"
  shows "spent_once (s', l)"
  using assms by (simp add: spent_once_def px_is_nullifier_used_def is_registered_deposit_key_def is_deposit_key_spent_def)

lemma admin_keeps:
  assumes "px_initialize s a v h r = Inr s' \<or> px_set_verifier E s v h = Inr s' \<or> px_register_stealth_meta E s a k v' = Inr s'"
    and "spent_once (s, l)"
  shows "spent_once (s', l)"
  by (rule spent_once_same [OF assms(2)])
    (use assms(1) in \<open>auto simp: px_initialize_def px_set_verifier_def px_register_stealth_meta_def Let_def write_root_def split: if_splits\<close>)

lemma register_keeps:
  assumes "spent_once (s, l)" "px_register_deposit_key E s a k = Inr s'"
  shows "spent_once (s', l)"
proof -
  have k: "\<not> is_registered_deposit_key s k" and s': "s' = s\<lparr>px_deposit_key_owner := (px_deposit_key_owner s)(k \<mapsto> a),
      px_deposit_key_used := (px_deposit_key_used s)(k \<mapsto> False)\<rparr>"
    using assms(2) by (auto simp: px_register_deposit_key_def)
  have "k \<notin> set (log_credits l)" using assms(1) k by (auto simp: spent_once_def)
  with assms(1) show ?thesis unfolding s'
    by (auto simp: spent_once_def px_is_nullifier_used_def is_registered_deposit_key_def is_deposit_key_spent_def get_or_def)
qed

interpretation shielded: contract_machine "private_step sha256 verify" "\<lambda>E c. True" spent_once for sha256 verify
proof
  fix E c sl sl' v
  assume inv: "spent_once sl" and run: "private_step sha256 verify E sl c = Inr (sl', v)"
  obtain s l where sl: "sl = (s, l)" by (cases sl)
  obtain s' l' where sl': "sl' = (s', l')" by (cases sl')
  show "spent_once sl'"
  proof (cases c)
    case (PxInitialize a v k r)
    with run sl sl' have "px_initialize s a v k r = Inr s'" "l' = l" by auto
    with admin_keeps inv sl sl' show ?thesis by blast
  next
    case (PxSetVerifier v k)
    with run sl sl' have "px_set_verifier E s v k = Inr s'" "l' = l" by auto
    with admin_keeps inv sl sl' show ?thesis by blast
  next
    case (PxRegisterStealthMeta a k v)
    with run sl sl' have "px_register_stealth_meta E s a k v = Inr s'" "l' = l" by auto
    with admin_keeps inv sl sl' show ?thesis by blast
  next
    case (PxRegisterDepositKey a k)
    with run sl sl' inv register_keeps show ?thesis by auto
  next
    case (PxApply a t p)
    with run sl sl' inv apply_spent_once(1) show ?thesis by auto
  qed
qed

text \<open>
  C34. A transfer that completes after any calls spends a nullifier that no transfer before has spent, credits a registered
  deposit key that no transfer has credited since its registration, starts from a root of the history, was authorised by
  the relayer, and carries a proof that the verifier of that time accepted for exactly this transfer and its new root; the
  new root becomes the current one.
\<close>

theorem private_spends_once:
  assumes "run_calls (private_step sha256 verify) cs (empty_private_pool, []) = (s, l)"
    and "px_apply_private_transfer sha256 verify E s relayer t p = Inr (s', r)"
  shows "pt_nullifier t \<notin> set (log_nullifiers l) \<and> distinct (log_nullifiers l) \<and> distinct (log_credits l)
    \<and> (is_registered_deposit_key s (eu_commitment (pt_recipient_update t)) \<longrightarrow> eu_commitment (pt_recipient_update t) \<notin> set (log_credits l))
    \<and> relayer \<in> set (auths E) \<and> root_exists s (pt_old_root t)
    \<and> (\<exists>v k. px_verifier s = Some v \<and> px_verification_key_hash s = Some k
         \<and> verify E v k (statement_hash sha256 t (next_root_for_transfer sha256 (pt_old_root t) t)) p = Some True)
    \<and> px_current_root s' = Some (next_root_for_transfer sha256 (pt_old_root t) t)"
proof -
  have "spent_once (empty_private_pool, [])" by (simp add: spent_once_def)
  from shielded.run_inv [OF this, of cs sha256 verify] assms(1) have inv: "spent_once (s, l)" by simp
  then have "distinct (log_nullifiers l)" "distinct (log_credits l)" by (simp_all add: spent_once_def)
  with apply_spent_once(2,3) [OF inv assms(2)] apply_Inr [OF assms(2)] show ?thesis by blast
qed

text \<open>For examples: a hash that only keeps 32 bytes, and a verifier that accepts proofs of one byte.\<close>

definition short_hash :: "blob \<Rightarrow> blob" where
  "short_hash data = take 32 (rev data @ zero_bytes)"

definition short_verify :: "env \<Rightarrow> address \<Rightarrow> blob \<Rightarrow> blob \<Rightarrow> blob \<Rightarrow> bool option" where
  "short_verify E v k h p = Some (length p = 1)"

definition note_of :: "8 word \<Rightarrow> encrypted_balance_update" where
  "note_of b = \<lparr>eu_commitment = replicate 32 b, eu_ciphertext = [b]\<rparr>"

definition spend_of :: "blob \<Rightarrow> 8 word \<Rightarrow> private_transfer" where
  "spend_of root b = \<lparr>pt_old_root = root, pt_nullifier = replicate 32 b, pt_sender_update = note_of (b + 1), pt_recipient_update = note_of (b + 2)\<rparr>"

definition private_calls :: "(env \<times> private_call) list" where
  "private_calls = [(env0 [], PxInitialize 1 2 [0] zero_bytes), (env0 [3], PxRegisterDepositKey 3 (replicate 32 12)),
     (env0 [4], PxApply 4 (spend_of zero_bytes 10) [0])]"

definition private_state :: logged_pool where
  "private_state = run_calls (private_step short_hash short_verify) private_calls (empty_private_pool, [])"

theorem private_spends_once_witness:
  "\<exists>s' r. px_apply_private_transfer short_hash short_verify (env0 [4]) (fst private_state) 4 (spend_of zero_bytes 20) [0] = Inr (s', r)
     \<and> log_nullifiers (snd private_state) = [replicate 32 10] \<and> log_credits (snd private_state) = [replicate 32 12]
     \<and> px_current_root s' = Some (next_root_for_transfer short_hash zero_bytes (spend_of zero_bytes 20))"
proof -
  have "\<not> isl (px_apply_private_transfer short_hash short_verify (env0 [4]) (fst private_state) 4 (spend_of zero_bytes 20) [0])"
    "log_nullifiers (snd private_state) = [replicate 32 10]" "log_credits (snd private_state) = [replicate 32 12]" by code_simp+
  moreover obtain s' r where
    r: "px_apply_private_transfer short_hash short_verify (env0 [4]) (fst private_state) 4 (spend_of zero_bytes 20) [0] = Inr (s', r)"
    using calculation(1) by (metis isl_def old.sum.exhaust prod.collapse)
  have p: "run_calls (private_step short_hash short_verify) private_calls (empty_private_pool, []) = (fst private_state, snd private_state)"
    by (simp add: private_state_def)
  from private_spends_once [OF p r] have "px_current_root s' = Some (next_root_for_transfer short_hash zero_bytes (spend_of zero_bytes 20))"
    by (simp add: spend_of_def)
  ultimately show ?thesis using r by (intro exI [of _ s'] exI [of _ r] conjI)
qed

end
