(* ===== verification/DidRegistry.thy ===== *)
theory DidRegistry
  imports Prelude
begin

text \<open>
  The registry of decentralised identifiers of \<open>contracts/did_registry/src/contract.rs\<close>, with the types of
  \<open>storage_types.rs\<close>. Every failure is a panic. \<open>String::copy_into_slice\<close> on a slice of four bytes is the parameter
  \<open>copy4\<close>, \<open>None\<close> where it panics. Byte strings are lists of numbers.
\<close>

section \<open>Data\<close>

type_synonym octets = "nat list"

record verification_method =
  vm_id :: string
  vm_type :: string
  vm_controller :: address
  vm_public_key_multibase :: octets

record service =
  sv_id :: string
  sv_type :: string
  sv_service_endpoint :: string

record did_document =
  dd_context :: "string list"
  dd_id :: string
  dd_verification_method :: "verification_method list"
  dd_authentication :: "string list"
  dd_assertion_method :: "string list"
  dd_key_agreement :: "string list"
  dd_capability_invocation :: "string list"
  dd_capability_delegation :: "string list"
  dd_service :: "service list"

record claim =
  cm_key :: string
  cm_value :: string
  cm_issuer :: address
  cm_subject :: address

record attestation =
  at_claim_hash :: octets
  at_attester :: address
  at_signature :: octets
  at_timestamp :: int

record did_metadata =
  dm_expiration_timestamp :: "int option"
  dm_revocation_bitmap :: int

record did_updated =
  du_did :: string
  du_action :: string
  du_timestamp :: int

text \<open>One field per storage key, and the published events.\<close>

record did_registry =
  dr_owner :: "address option"
  dr_index :: "string list option"
  dr_documents :: "string \<rightharpoonup> did_document"
  dr_metadata :: "string \<rightharpoonup> did_metadata"
  dr_claims :: "address \<rightharpoonup> claim list"
  dr_attestations :: "octets \<rightharpoonup> attestation list"
  dr_events :: "did_updated list"

definition empty_did_registry :: did_registry where
  "empty_did_registry = \<lparr>dr_owner = None, dr_index = None, dr_documents = Map.empty, dr_metadata = Map.empty,
     dr_claims = Map.empty, dr_attestations = Map.empty, dr_events = []\<rparr>"

type_synonym 'a dr_res = "(unit, 'a) res"

definition dr_panic :: "string \<Rightarrow> 'a dr_res" where
  "dr_panic msg = Inl (Panic (Message msg))"

section \<open>Helpers\<close>

definition dr_owner_of :: "did_registry \<Rightarrow> address dr_res" where
  "dr_owner_of s = unwrap (dr_owner s)"

definition require_owner_auth :: "env \<Rightarrow> did_registry \<Rightarrow> unit dr_res" where
  "require_owner_auth E s = rbind (dr_owner_of s) (require_auth E)"

definition validate_did_uri :: "(string \<Rightarrow> string option) \<Rightarrow> string \<Rightarrow> unit dr_res" where
  "validate_did_uri copy4 did =
     (if length did < 4 then dr_panic ''invalid DID URI format''
      else
        case copy4 did of
          None \<Rightarrow> Inl (Panic CallFailed)
        | Some buf \<Rightarrow> if buf \<noteq> ''did:'' then dr_panic ''invalid DID URI format'' else Inr ())"

definition emit_did_updated :: "env \<Rightarrow> string \<Rightarrow> string \<Rightarrow> did_registry \<Rightarrow> did_registry" where
  "emit_did_updated E did action s =
     s\<lparr>dr_events := dr_events s @ [\<lparr>du_did = did, du_action = action, du_timestamp = ledger_time E\<rparr>]\<rparr>"

definition append_did_index :: "string \<Rightarrow> did_registry \<Rightarrow> did_registry" where
  "append_did_index did s =
     (let dids = (case dr_index s of None \<Rightarrow> [] | Some d \<Rightarrow> d) in
      if List.member dids did then s else s\<lparr>dr_index := Some (dids @ [did])\<rparr>)"

fun controls_any :: "did_registry \<Rightarrow> address \<Rightarrow> string list \<Rightarrow> bool dr_res" where
  "controls_any s attester [] = Inr False"
| "controls_any s attester (did # rest) =
     rbind (unwrap (dr_documents s did)) (\<lambda>document.
     if list_ex (\<lambda>m. vm_controller m = attester) (dd_verification_method document) then Inr True else controls_any s attester rest)"

definition attester_is_authorized :: "did_registry \<Rightarrow> address \<Rightarrow> bool dr_res" where
  "attester_is_authorized s attester =
     rbind (dr_owner_of s) (\<lambda>owner.
     if attester = owner then Inr True
     else controls_any s attester (case dr_index s of None \<Rightarrow> [] | Some d \<Rightarrow> d))"

definition dr_is_did_valid_ref :: "env \<Rightarrow> did_registry \<Rightarrow> string \<Rightarrow> bool dr_res" where
  "dr_is_did_valid_ref E s did =
     (if dr_documents s did = None then Inr False
      else
        rbind (unwrap (dr_metadata s did)) (\<lambda>metadata.
        if dm_revocation_bitmap metadata \<noteq> 0 then Inr False
        else
          case dm_expiration_timestamp metadata of
            Some expiration \<Rightarrow> if ledger_time E \<ge> expiration then Inr False else Inr True
          | None \<Rightarrow> Inr True))"

section \<open>Entry points\<close>

definition dr_initialize :: "did_registry \<Rightarrow> address \<Rightarrow> did_registry dr_res" where
  "dr_initialize s owner =
     (if dr_owner s \<noteq> None then dr_panic ''already initialized''
      else Inr (s\<lparr>dr_owner := Some owner, dr_index := Some []\<rparr>))"

definition register_did ::
    "(string \<Rightarrow> string option) \<Rightarrow> env \<Rightarrow> did_registry \<Rightarrow> string \<Rightarrow> did_document \<Rightarrow> int option \<Rightarrow> did_registry dr_res" where
  "register_did copy4 E s did document expiration_timestamp =
     rbind (require_owner_auth E s) (\<lambda>_.
     rbind (validate_did_uri copy4 did) (\<lambda>_.
     if dr_documents s did \<noteq> None then dr_panic ''DID already registered''
     else
       let metadata = \<lparr>dm_expiration_timestamp = expiration_timestamp, dm_revocation_bitmap = 0\<rparr>;
           s1 = s\<lparr>dr_documents := (dr_documents s)(did \<mapsto> document), dr_metadata := (dr_metadata s)(did \<mapsto> metadata)\<rparr> in
       Inr (emit_did_updated E did ''register'' (append_did_index did s1))))"

text \<open>\<open>revoke_did\<close> and \<open>set_expiration\<close> change the metadata of a registered identifier.\<close>

definition change_metadata :: "env \<Rightarrow> did_registry \<Rightarrow> string \<Rightarrow> (did_metadata \<Rightarrow> did_metadata) \<Rightarrow> string \<Rightarrow> did_registry dr_res" where
  "change_metadata E s did f action =
     rbind (require_owner_auth E s) (\<lambda>_.
     if dr_documents s did = None then dr_panic ''DID not found''
     else
       rbind (unwrap (dr_metadata s did)) (\<lambda>metadata.
       Inr (emit_did_updated E did action (s\<lparr>dr_metadata := (dr_metadata s)(did \<mapsto> f metadata)\<rparr>))))"

definition revoke_did :: "env \<Rightarrow> did_registry \<Rightarrow> string \<Rightarrow> did_registry dr_res" where
  "revoke_did E s did = change_metadata E s did (\<lambda>m. m\<lparr>dm_revocation_bitmap := 1\<rparr>) ''revoke''"

definition set_expiration :: "env \<Rightarrow> did_registry \<Rightarrow> string \<Rightarrow> int option \<Rightarrow> did_registry dr_res" where
  "set_expiration E s did expiration_timestamp =
     change_metadata E s did (\<lambda>m. m\<lparr>dm_expiration_timestamp := expiration_timestamp\<rparr>) ''set_expiration''"

definition is_did_valid :: "env \<Rightarrow> did_registry \<Rightarrow> string \<Rightarrow> bool dr_res" where
  "is_did_valid E s did = dr_is_did_valid_ref E s did"

definition update_did_document :: "env \<Rightarrow> did_registry \<Rightarrow> string \<Rightarrow> did_document \<Rightarrow> did_registry dr_res" where
  "update_did_document E s did document =
     rbind (require_owner_auth E s) (\<lambda>_.
     if dr_documents s did = None then dr_panic ''DID not found''
     else Inr (emit_did_updated E did ''update'' (s\<lparr>dr_documents := (dr_documents s)(did \<mapsto> document)\<rparr>)))"

definition add_verification_method :: "env \<Rightarrow> did_registry \<Rightarrow> string \<Rightarrow> verification_method \<Rightarrow> did_registry dr_res" where
  "add_verification_method E s did m =
     rbind (require_owner_auth E s) (\<lambda>_.
     rbind (unwrap (dr_documents s did)) (\<lambda>document.
     let document' = document\<lparr>dd_verification_method := dd_verification_method document @ [m]\<rparr> in
     Inr (emit_did_updated E did ''add_verification_method'' (s\<lparr>dr_documents := (dr_documents s)(did \<mapsto> document')\<rparr>))))"

text \<open>The search loops: the list with its first match removed or changed, if there is one.\<close>

fun change_first :: "('a \<Rightarrow> bool) \<Rightarrow> ('a \<Rightarrow> 'a list) \<Rightarrow> 'a list \<Rightarrow> 'a list option" where
  "change_first p f [] = None"
| "change_first p f (x # xs) = (if p x then Some (f x @ xs) else map_option ((#) x) (change_first p f xs))"

definition remove_verification_method :: "env \<Rightarrow> did_registry \<Rightarrow> string \<Rightarrow> string \<Rightarrow> did_registry dr_res" where
  "remove_verification_method E s did method_id =
     rbind (require_owner_auth E s) (\<lambda>_.
     rbind (unwrap (dr_documents s did)) (\<lambda>document.
     case change_first (\<lambda>m. vm_id m = method_id) (\<lambda>m. []) (dd_verification_method document) of
       None \<Rightarrow> dr_panic ''verification method not found''
     | Some ms \<Rightarrow>
         Inr (emit_did_updated E did ''remove_verification_method''
           (s\<lparr>dr_documents := (dr_documents s)(did \<mapsto> document\<lparr>dd_verification_method := ms\<rparr>)\<rparr>))))"

definition rotate_verification_method :: "env \<Rightarrow> did_registry \<Rightarrow> string \<Rightarrow> string \<Rightarrow> octets \<Rightarrow> did_registry dr_res" where
  "rotate_verification_method E s did method_id new_public_key_multibase =
     rbind (require_owner_auth E s) (\<lambda>_.
     rbind (unwrap (dr_documents s did)) (\<lambda>document.
     case change_first (\<lambda>m. vm_id m = method_id) (\<lambda>m. [m\<lparr>vm_public_key_multibase := new_public_key_multibase\<rparr>]) (dd_verification_method document) of
       None \<Rightarrow> dr_panic ''verification method not found''
     | Some ms \<Rightarrow>
         Inr (emit_did_updated E did ''rotate_verification_method''
           (s\<lparr>dr_documents := (dr_documents s)(did \<mapsto> document\<lparr>dd_verification_method := ms\<rparr>)\<rparr>))))"

definition add_service :: "env \<Rightarrow> did_registry \<Rightarrow> string \<Rightarrow> service \<Rightarrow> did_registry dr_res" where
  "add_service E s did service =
     rbind (require_owner_auth E s) (\<lambda>_.
     rbind (unwrap (dr_documents s did)) (\<lambda>document.
     if list_ex (\<lambda>v. sv_id v = sv_id service) (dd_service document) then dr_panic ''service already exists''
     else Inr (s\<lparr>dr_documents := (dr_documents s)(did \<mapsto> document\<lparr>dd_service := dd_service document @ [service]\<rparr>)\<rparr>)))"

definition remove_service :: "env \<Rightarrow> did_registry \<Rightarrow> string \<Rightarrow> string \<Rightarrow> did_registry dr_res" where
  "remove_service E s did service_id =
     rbind (require_owner_auth E s) (\<lambda>_.
     rbind (unwrap (dr_documents s did)) (\<lambda>document.
     case change_first (\<lambda>v. sv_id v = service_id) (\<lambda>v. []) (dd_service document) of
       None \<Rightarrow> dr_panic ''service not found''
     | Some vs \<Rightarrow> Inr (s\<lparr>dr_documents := (dr_documents s)(did \<mapsto> document\<lparr>dd_service := vs\<rparr>)\<rparr>)))"

definition dr_add_claim :: "env \<Rightarrow> did_registry \<Rightarrow> claim \<Rightarrow> did_registry dr_res" where
  "dr_add_claim E s c =
     rbind (require_owner_auth E s) (\<lambda>_.
     Inr (s\<lparr>dr_claims := (dr_claims s)(cm_subject c \<mapsto> get_or (dr_claims s) (cm_subject c) [] @ [c])\<rparr>))"

definition attest_claim :: "env \<Rightarrow> did_registry \<Rightarrow> attestation \<Rightarrow> did_registry dr_res" where
  "attest_claim E s a =
     rbind (require_owner_auth E s) (\<lambda>_.
     Inr (s\<lparr>dr_attestations := (dr_attestations s)(at_claim_hash a \<mapsto> get_or (dr_attestations s) (at_claim_hash a) [] @ [a])\<rparr>))"

definition get_did_document :: "env \<Rightarrow> did_registry \<Rightarrow> string \<Rightarrow> did_document dr_res" where
  "get_did_document E s did =
     rbind (dr_is_did_valid_ref E s did) (\<lambda>valid.
     if \<not> valid then dr_panic ''DID is invalid (expired or revoked)'' else unwrap (dr_documents s did))"

definition get_claims :: "did_registry \<Rightarrow> address \<Rightarrow> claim list" where
  "get_claims s subject = get_or (dr_claims s) subject []"

definition get_attestations :: "did_registry \<Rightarrow> octets \<Rightarrow> attestation list" where
  "get_attestations s claim_hash = get_or (dr_attestations s) claim_hash []"

definition verify_attestation :: "did_registry \<Rightarrow> attestation \<Rightarrow> bool dr_res" where
  "verify_attestation s a =
     (if at_timestamp a = 0 \<or> length (at_signature a) = 0 then Inr False
      else if \<not> List.member (get_attestations s (at_claim_hash a)) a then Inr False
      else attester_is_authorized s (at_attester a))"

end
