(* ===== verification/DidRegistryProperties.thy ===== *)
theory DidRegistryProperties
  imports DidRegistry
begin

text \<open>
  Documents, metadata and index of the registry agree after any calls, a revocation is final, and the verification of an
  attestation is characterised exactly.
\<close>

section \<open>The calls\<close>

datatype did_call =
    DidInitialize address
  | RegisterDid string did_document "int option"
  | RevokeDid string
  | SetExpiration string "int option"
  | UpdateDidDocument string did_document
  | AddVerificationMethod string verification_method
  | RemoveVerificationMethod string string
  | RotateVerificationMethod string string octets
  | AddService string service
  | RemoveService string string
  | AddClaim claim
  | AttestClaim attestation

fun did_exec :: "(string \<Rightarrow> string option) \<Rightarrow> env \<Rightarrow> did_registry \<Rightarrow> did_call \<Rightarrow> did_registry dr_res" where
  "did_exec copy4 E s (DidInitialize a) = dr_initialize s a"
| "did_exec copy4 E s (RegisterDid did d x) = register_did copy4 E s did d x"
| "did_exec copy4 E s (RevokeDid did) = revoke_did E s did"
| "did_exec copy4 E s (SetExpiration did x) = set_expiration E s did x"
| "did_exec copy4 E s (UpdateDidDocument did d) = update_did_document E s did d"
| "did_exec copy4 E s (AddVerificationMethod did m) = add_verification_method E s did m"
| "did_exec copy4 E s (RemoveVerificationMethod did i) = remove_verification_method E s did i"
| "did_exec copy4 E s (RotateVerificationMethod did i k) = rotate_verification_method E s did i k"
| "did_exec copy4 E s (AddService did v) = add_service E s did v"
| "did_exec copy4 E s (RemoveService did i) = remove_service E s did i"
| "did_exec copy4 E s (AddClaim c) = dr_add_claim E s c"
| "did_exec copy4 E s (AttestClaim a) = attest_claim E s a"

definition did_step :: "(string \<Rightarrow> string option) \<Rightarrow> env \<Rightarrow> did_registry \<Rightarrow> did_call \<Rightarrow> (did_registry \<times> unit) dr_res" where
  "did_step copy4 E s c = rbind (did_exec copy4 E s c) (\<lambda>s'. Inr (s', ()))"

section \<open>What a call changes\<close>

lemma dr_panic_not [simp]: "dr_panic m \<noteq> Inr x"
  by (simp add: dr_panic_def)

text \<open>
  Every call leaves documents, metadata and index as they are, or changes one registered document, or the metadata of one
  registered identifier without lifting a revocation, or registers a new identifier.
\<close>

definition did_change :: "did_registry \<Rightarrow> did_registry \<Rightarrow> bool" where
  "did_change s s' \<longleftrightarrow>
     dr_documents s' = dr_documents s \<and> dr_metadata s' = dr_metadata s \<and> get_or (\<lambda>_. dr_index s') () [] = get_or (\<lambda>_. dr_index s) () []
   \<or> (\<exists>did d d'. dr_documents s did = Some d \<and> dr_documents s' = (dr_documents s)(did \<mapsto> d') \<and> dr_metadata s' = dr_metadata s \<and> dr_index s' = dr_index s)
   \<or> (\<exists>did m m'. dr_metadata s did = Some m \<and> dr_documents s' = dr_documents s \<and> dr_metadata s' = (dr_metadata s)(did \<mapsto> m')
        \<and> (dm_revocation_bitmap m \<noteq> 0 \<longrightarrow> dm_revocation_bitmap m' \<noteq> 0) \<and> dr_index s' = dr_index s)
   \<or> (\<exists>did d m. dr_documents s did = None \<and> dr_documents s' = (dr_documents s)(did \<mapsto> d) \<and> dr_metadata s' = (dr_metadata s)(did \<mapsto> m)
        \<and> dr_index s' = dr_index (append_did_index did s))"

lemma document_change:
  "dr_documents s did = Some d \<Longrightarrow> did_change s (s\<lparr>dr_documents := (dr_documents s)(did \<mapsto> d')\<rparr>)"
  "dr_documents s did = Some d \<Longrightarrow> did_change s (s\<lparr>dr_documents := (dr_documents s)(did \<mapsto> d'), dr_events := v\<rparr>)"
  unfolding did_change_def by auto

lemma did_exec_change:
  assumes "did_exec copy4 E s c = Inr s'" "dr_owner s = None \<Longrightarrow> dr_index s = None"
  shows "did_change s s'"
proof (cases c)
  case (DidInitialize a)
  with assms have "s' = s\<lparr>dr_owner := Some a, dr_index := Some []\<rparr>" "dr_index s = None" by (auto simp: dr_initialize_def split: if_splits)
  then show ?thesis by (simp add: did_change_def get_or_def)
next
  case (RegisterDid did d x)
  with assms(1) have "dr_documents s did = None" "dr_documents s' = (dr_documents s)(did \<mapsto> d)"
    "\<exists>m. dr_metadata s' = (dr_metadata s)(did \<mapsto> m)" "dr_index s' = dr_index (append_did_index did s)"
    by (auto simp: register_did_def emit_did_updated_def append_did_index_def Let_def split: if_splits)
  then show ?thesis unfolding did_change_def by blast
next
  case (RevokeDid did)
  with assms(1) obtain m where "dr_metadata s did = Some m" "dr_documents s' = dr_documents s"
    "dr_metadata s' = (dr_metadata s)(did \<mapsto> m\<lparr>dm_revocation_bitmap := 1\<rparr>)" "dr_index s' = dr_index s"
    by (auto simp: revoke_did_def change_metadata_def emit_did_updated_def split: if_splits)
  then show ?thesis unfolding did_change_def by (metis did_metadata.select_convs(2) did_metadata.surjective did_metadata.update_convs(2) one_neq_zero)
next
  case (SetExpiration did x)
  with assms(1) obtain m where "dr_metadata s did = Some m" "dr_documents s' = dr_documents s"
    "dr_metadata s' = (dr_metadata s)(did \<mapsto> m\<lparr>dm_expiration_timestamp := x\<rparr>)" "dr_index s' = dr_index s"
    by (auto simp: set_expiration_def change_metadata_def emit_did_updated_def split: if_splits)
  moreover have "dm_revocation_bitmap (m\<lparr>dm_expiration_timestamp := x\<rparr>) = dm_revocation_bitmap m" by simp
  ultimately show ?thesis unfolding did_change_def by metis
next
  case (AddClaim cl)
  with assms(1) show ?thesis by (auto simp: dr_add_claim_def did_change_def)
next
  case (AttestClaim a)
  with assms(1) show ?thesis by (auto simp: attest_claim_def did_change_def)
qed (use assms(1) in \<open>auto intro: document_change simp: update_did_document_def add_verification_method_def remove_verification_method_def
    rotate_verification_method_def add_service_def remove_service_def emit_did_updated_def Let_def split: if_splits option.splits\<close>)

definition index_of :: "did_registry \<Rightarrow> string list" where
  "index_of s = (case dr_index s of None \<Rightarrow> [] | Some d \<Rightarrow> d)"

text \<open>The three records agree, and nothing is indexed before there is an owner.\<close>

definition did_consistent :: "did_registry \<Rightarrow> bool" where
  "did_consistent s \<longleftrightarrow> dom (dr_metadata s) = dom (dr_documents s) \<and> set (index_of s) = dom (dr_documents s) \<and> distinct (index_of s)
     \<and> (dr_owner s = None \<longrightarrow> dr_index s = None)"

lemma did_exec_owner:
  assumes "did_exec copy4 E s c = Inr s'"
  shows "dr_owner s' \<noteq> None"
  using assms by (cases c) (auto simp: dr_initialize_def register_did_def revoke_did_def set_expiration_def change_metadata_def
      update_did_document_def add_verification_method_def remove_verification_method_def rotate_verification_method_def add_service_def
      remove_service_def dr_add_claim_def attest_claim_def emit_did_updated_def append_did_index_def require_owner_auth_def dr_owner_of_def
      Let_def split: if_splits option.splits)

lemma change_consistent:
  assumes "did_change s s'" "did_consistent s" "dr_owner s' \<noteq> None"
  shows "did_consistent s'"
  using assms unfolding did_change_def did_consistent_def
  by (elim disjE exE conjE)
    (auto simp: index_of_def append_did_index_def get_or_def Let_def dom_def split: if_splits option.splits)

interpretation dids: contract_machine "did_step copy4" "\<lambda>E c. True" did_consistent for copy4
proof
  fix E c s s' v
  assume "did_consistent s" "did_step copy4 E s c = Inr (s', v)"
  then have r: "did_exec copy4 E s c = Inr s'" and "dr_owner s = None \<Longrightarrow> dr_index s = None" by (auto simp: did_step_def did_consistent_def)
  from did_exec_change [OF this] \<open>did_consistent s\<close> did_exec_owner [OF r] show "did_consistent s'" by (rule change_consistent)
qed

section \<open>Revocation\<close>

definition is_revoked :: "string \<Rightarrow> did_registry \<Rightarrow> bool" where
  "is_revoked did s \<longleftrightarrow> (dr_owner s = None \<longrightarrow> dr_index s = None) \<and> dr_documents s did \<noteq> None
     \<and> (\<exists>m. dr_metadata s did = Some m \<and> dm_revocation_bitmap m \<noteq> 0)"

interpretation revoked: contract_machine "did_step copy4" "\<lambda>E c. True" "is_revoked did" for copy4 did
proof
  fix E c s s' v
  assume inv: "is_revoked did s" and run: "did_step copy4 E s c = Inr (s', v)"
  then have r: "did_exec copy4 E s c = Inr s'" by (auto simp: did_step_def)
  have "did_change s s'" by (rule did_exec_change [OF r]) (use inv in \<open>simp add: is_revoked_def\<close>)
  then show "is_revoked did s'" using inv did_exec_owner [OF r]
    unfolding did_change_def is_revoked_def by (elim disjE exE conjE) auto
qed

lemma revoke_revokes: "revoke_did E s did = Inr s' \<Longrightarrow> is_revoked did s'"
  by (auto simp: revoke_did_def change_metadata_def emit_did_updated_def is_revoked_def require_owner_auth_def dr_owner_of_def split: if_splits)

lemma revoked_invalid: "is_revoked did s \<Longrightarrow> dr_is_did_valid_ref E s did = Inr False"
  by (auto simp: is_revoked_def dr_is_did_valid_ref_def)

text \<open>
  C35. A revocation, which only the owner can make, is final: after any further calls, at any time, the identifier is invalid
  and its document is not handed out.
\<close>

theorem did_revocation_final:
  assumes "revoke_did E s did = Inr s'"
  shows "(\<exists>owner. dr_owner s = Some owner \<and> owner \<in> set (auths E))
    \<and> is_did_valid E' (run_calls (did_step copy4) cs s') did = Inr False
    \<and> get_did_document E' (run_calls (did_step copy4) cs s') did = dr_panic ''DID is invalid (expired or revoked)''"
proof -
  have "is_revoked did (run_calls (did_step copy4) cs s')" by (rule revoked.run_inv [OF revoke_revokes [OF assms]]) simp
  from revoked_invalid [OF this, of E'] assms show ?thesis
    by (auto simp: is_did_valid_def get_did_document_def revoke_did_def change_metadata_def require_owner_auth_def dr_owner_of_def)
qed

text \<open>Owner 1 registers an identifier whose method account 5 controls, records an attestation of that account, and revokes.\<close>

definition sample_document :: did_document where
  "sample_document = \<lparr>dd_context = [], dd_id = ''did:example:1'',
     dd_verification_method = [\<lparr>vm_id = ''key-1'', vm_type = ''none'', vm_controller = 5, vm_public_key_multibase = [1]\<rparr>],
     dd_authentication = [], dd_assertion_method = [], dd_key_agreement = [], dd_capability_invocation = [],
     dd_capability_delegation = [], dd_service = []\<rparr>"

definition sample_attestation :: attestation where
  "sample_attestation = \<lparr>at_claim_hash = [9], at_attester = 5, at_signature = [0], at_timestamp = 1\<rparr>"

definition sample_calls :: "(env \<times> did_call) list" where
  "sample_calls = [(env0 [1], DidInitialize 1), (env0 [1], RegisterDid ''did:example:1'' sample_document None),
     (env0 [1], AttestClaim sample_attestation), (env0 [1], RevokeDid ''did:example:1'')]"

definition sample_registry :: did_registry where
  "sample_registry = run_calls (did_step (\<lambda>d. Some (take 4 d))) (butlast sample_calls) empty_did_registry"

theorem did_revocation_final_witness:
  "\<exists>s'. revoke_did (env0 [1]) sample_registry ''did:example:1'' = Inr s'
     \<and> is_did_valid (env0 [1]) sample_registry ''did:example:1'' = Inr True
     \<and> is_did_valid (env0 [1]) (run_calls (did_step Some) [(env0 [1], SetExpiration ''did:example:1'' (Some 5000))] s') ''did:example:1'' = Inr False"
proof -
  have "\<not> isl (revoke_did (env0 [1]) sample_registry ''did:example:1'')"
    and v: "is_did_valid (env0 [1]) sample_registry ''did:example:1'' = Inr True" by code_simp+
  then obtain s' where r: "revoke_did (env0 [1]) sample_registry ''did:example:1'' = Inr s'" by (metis isl_def old.sum.exhaust)
  from did_revocation_final [OF r] r v show ?thesis by blast
qed

section \<open>Attestations\<close>

definition controls_did :: "did_registry \<Rightarrow> address \<Rightarrow> string \<Rightarrow> bool" where
  "controls_did s a did \<longleftrightarrow> (\<exists>d m. dr_documents s did = Some d \<and> m \<in> set (dd_verification_method d) \<and> vm_controller m = a)"

lemma controls_any_iff: "set dids \<subseteq> dom (dr_documents s) \<Longrightarrow> controls_any s a dids = Inr (\<exists>did \<in> set dids. controls_did s a did)"
proof (induction dids)
  case (Cons did dids)
  then obtain d where d: "dr_documents s did = Some d" by auto
  then have "list_ex (\<lambda>m. vm_controller m = a) (dd_verification_method d) = controls_did s a did"
    by (auto simp: list_ex_iff controls_did_def)
  with Cons d show ?case by simp
qed simp

text \<open>
  After any calls the verification of an attestation returns without a trap once there is an owner, and holds exactly if
  the attestation has a time and a signature, is recorded under its hash, and its attester is the owner or the controller of
  a verification method in some registered document. Neither revocation nor expiry of that document counts, and the
  signature is not checked.
\<close>

theorem did_verification_exact:
  assumes "run_calls (did_step copy4) cs empty_did_registry = s" "dr_owner s = Some owner"
  shows "verify_attestation s a = Inr (at_timestamp a \<noteq> 0 \<and> at_signature a \<noteq> [] \<and> a \<in> set (get_attestations s (at_claim_hash a))
    \<and> (at_attester a = owner
       \<or> (\<exists>did d m. dr_documents s did = Some d \<and> m \<in> set (dd_verification_method d) \<and> vm_controller m = at_attester a)))"
proof -
  have "did_consistent empty_did_registry" by (simp add: did_consistent_def empty_did_registry_def index_of_def)
  from dids.run_inv [OF this, of cs copy4] assms(1) have c: "set (index_of s) = dom (dr_documents s)" by (simp add: did_consistent_def)
  then show ?thesis using assms(2) controls_any_iff [of "index_of s" s "at_attester a"]
    by (auto simp: verify_attestation_def attester_is_authorized_def dr_owner_of_def index_of_def controls_did_def)
qed

theorem did_verification_exact_witness:
  "verify_attestation (run_calls (did_step (\<lambda>d. Some (take 4 d))) sample_calls empty_did_registry) sample_attestation = Inr True"
proof -
  let ?s = "run_calls (did_step (\<lambda>d. Some (take 4 d))) sample_calls empty_did_registry"
  have f: "dr_owner ?s = Some 1" "List.member (get_attestations ?s [9]) sample_attestation"
    "map_option dd_verification_method (dr_documents ?s ''did:example:1'') = Some (dd_verification_method sample_document)" by code_simp+
  then obtain d where d: "dr_documents ?s ''did:example:1'' = Some d" "dd_verification_method d = dd_verification_method sample_document" by auto
  then have "\<exists>did d m. dr_documents ?s did = Some d \<and> m \<in> set (dd_verification_method d) \<and> vm_controller m = 5"
    by (intro exI [of _ "''did:example:1''"] exI [of _ d] exI [of _ "hd (dd_verification_method d)"]) (simp add: sample_document_def)
  with did_verification_exact [OF refl f(1), of sample_attestation] f(2) show ?thesis
    by (simp add: sample_attestation_def)
qed

end
