(* ===== verification/FlashVault.thy ===== *)
theory FlashVault
  imports EmergencyGuard TokenInterface
begin

text \<open>
  The flash-loan vault of \<open>contracts/flash_loan_vault/src/lib.rs\<close>. The token is the parameter \<open>xfer\<close> with the balances
  \<open>bal\<close>, \<open>is_contract\<close> that of \<open>Address\<close>, and the callback of a receiver, which is code of others, a function on the state of
  the vault and of the tokens, \<open>None\<close> where it fails. The entry point \<open>borrow\<close> is not modelled: its body ends in nested
  functions and returns nothing, so it has no meaning.
\<close>

section \<open>Data\<close>

datatype flash_error =
    AlreadyInitialized | NotInitialized | Unauthorized | Reentrancy | LoanNotRepaid | InsufficientVaultBalance | InvalidAmount
  | InvalidFee | Paused | InsufficientDeposit | BorrowPaused | InvalidReceiver

datatype flash_event =
    FlashLoanEvent address address int int
  | VaultDepositEvent address int
  | VaultWithdrawEvent address int
  | FeeChangedEvent address int int

record flash_vault =
  fv_admin :: "address option"
  fv_token :: "address option"
  fv_fee_bps :: "int option"
  fv_reentrancy_lock :: "bool option"
  fv_borrow_paused :: "bool option"
  fv_total_deposited :: "int option"
  fv_guard :: guard
  fv_events :: "flash_event list"

definition empty_flash_vault :: flash_vault where
  "empty_flash_vault = \<lparr>fv_admin = None, fv_token = None, fv_fee_bps = None, fv_reentrancy_lock = None, fv_borrow_paused = None,
     fv_total_deposited = None, fv_guard = empty_guard, fv_events = []\<rparr>"

type_synonym 'a fv_res = "(flash_error, 'a) res"

definition FV_MAX_FEE_BPS :: int where "FV_MAX_FEE_BPS = 100"
definition FV_DEFAULT_FEE_BPS :: int where "FV_DEFAULT_FEE_BPS = 0"

section \<open>Helpers\<close>

definition fv_check_not_paused :: "flash_vault \<Rightarrow> u32 \<Rightarrow> unit fv_res" where
  "fv_check_not_paused s operation = (if guard_is_paused (fv_guard s) operation then Inl (Err Paused) else Inr ())"

definition fv_load_admin :: "flash_vault \<Rightarrow> address fv_res" where
  "fv_load_admin s = ok_or NotInitialized (fv_admin s)"

definition fv_load_token :: "flash_vault \<Rightarrow> address fv_res" where
  "fv_load_token s = ok_or NotInitialized (fv_token s)"

definition get_fee_bps :: "flash_vault \<Rightarrow> int" where
  "get_fee_bps s = (case fv_fee_bps s of None \<Rightarrow> FV_DEFAULT_FEE_BPS | Some f \<Rightarrow> f)"

definition calculate_fee :: "env \<Rightarrow> flash_vault \<Rightarrow> int \<Rightarrow> int fv_res" where
  "calculate_fee E s amount =
     (let fee_bps = get_fee_bps s in
      if fee_bps = 0 \<or> amount \<le> 0 then Inr 0
      else rbind (fit E I128 (amount * fee_bps)) (\<lambda>p. rbind (fit E I128 (p + 9999)) (\<lambda>q. quot I128 q 10000)))"

definition is_flash_loan_active :: "flash_vault \<Rightarrow> bool" where
  "is_flash_loan_active s = (case fv_reentrancy_lock s of None \<Rightarrow> False | Some b \<Rightarrow> b)"

definition check_no_flash_loan_active :: "flash_vault \<Rightarrow> unit fv_res" where
  "check_no_flash_loan_active s = (if is_flash_loan_active s then Inl (Err Reentrancy) else Inr ())"

definition set_flash_loan_active :: "bool \<Rightarrow> flash_vault \<Rightarrow> flash_vault" where
  "set_flash_loan_active active s = s\<lparr>fv_reentrancy_lock := Some active\<rparr>"

definition fv_get_total_deposited :: "flash_vault \<Rightarrow> int" where
  "fv_get_total_deposited s = (case fv_total_deposited s of None \<Rightarrow> 0 | Some n \<Rightarrow> n)"

definition fv_set_total_deposited :: "int \<Rightarrow> flash_vault \<Rightarrow> flash_vault" where
  "fv_set_total_deposited amount s = s\<lparr>fv_total_deposited := Some amount\<rparr>"

definition is_borrow_paused :: "flash_vault \<Rightarrow> bool" where
  "is_borrow_paused s = (case fv_borrow_paused s of None \<Rightarrow> False | Some b \<Rightarrow> b)"

definition set_borrow_paused :: "bool \<Rightarrow> flash_vault \<Rightarrow> flash_vault" where
  "set_borrow_paused paused s = s\<lparr>fv_borrow_paused := Some paused\<rparr>"

abbreviation fv_emit :: "flash_event \<Rightarrow> flash_vault \<Rightarrow> flash_vault" where
  "fv_emit ev s \<equiv> s\<lparr>fv_events := fv_events s @ [ev]\<rparr>"

text \<open>A guard operation of which every error becomes \<open>Unauthorized\<close>.\<close>

definition fv_on_guard :: "flash_vault \<Rightarrow> (guard_error, guard) res \<Rightarrow> flash_vault fv_res" where
  "fv_on_guard s r = rbind (map_err (\<lambda>_. Unauthorized) r) (\<lambda>g. Inr (s\<lparr>fv_guard := g\<rparr>))"

section \<open>Administration\<close>

definition fv_initialize :: "flash_vault \<Rightarrow> address \<Rightarrow> address \<Rightarrow> flash_vault fv_res" where
  "fv_initialize s admin token =
     (if fv_admin s \<noteq> None then Inl (Err AlreadyInitialized)
      else Inr (s\<lparr>fv_admin := Some admin, fv_token := Some token, fv_fee_bps := Some FV_DEFAULT_FEE_BPS,
             fv_reentrancy_lock := Some False, fv_borrow_paused := Some False, fv_total_deposited := Some 0\<rparr>))"

definition fv_deposit :: "'w token_xfer \<Rightarrow> env \<Rightarrow> flash_vault \<times> 'w \<Rightarrow> address \<Rightarrow> int \<Rightarrow> (flash_vault \<times> 'w) fv_res" where
  "fv_deposit xfer E sw from_addr amount =
     (let s = fst sw; w = snd sw in
      rbind (check_no_flash_loan_active s) (\<lambda>_.
      if amount \<le> 0 then Inl (Err InvalidAmount)
      else
        rbind (fv_load_admin s) (\<lambda>admin.
        if from_addr \<noteq> admin then Inl (Err Unauthorized)
        else
          rbind (require_auth E from_addr) (\<lambda>_.
          rbind (fv_load_token s) (\<lambda>token.
          rbind (call (xfer E token from_addr (this_contract E) amount w)) (\<lambda>w1.
          rbind (fit E I128 (fv_get_total_deposited s + amount)) (\<lambda>t.
          Inr (fv_emit (VaultDepositEvent from_addr amount) (fv_set_total_deposited t s), w1))))))))"

definition fv_withdraw :: "'w token_xfer \<Rightarrow> env \<Rightarrow> flash_vault \<times> 'w \<Rightarrow> address \<Rightarrow> int \<Rightarrow> (flash_vault \<times> 'w) fv_res" where
  "fv_withdraw xfer E sw to amount =
     (let s = fst sw; w = snd sw in
      rbind (check_no_flash_loan_active s) (\<lambda>_.
      if amount \<le> 0 then Inl (Err InvalidAmount)
      else
        rbind (fv_load_admin s) (\<lambda>admin.
        if to \<noteq> admin then Inl (Err Unauthorized)
        else
          rbind (require_auth E to) (\<lambda>_.
          if amount > fv_get_total_deposited s then Inl (Err InsufficientDeposit)
          else
            rbind (fv_load_token s) (\<lambda>token.
            rbind (call (xfer E token (this_contract E) to amount w)) (\<lambda>w1.
            rbind (fit E I128 (fv_get_total_deposited s - amount)) (\<lambda>t.
            Inr (fv_emit (VaultWithdrawEvent to amount) (fv_set_total_deposited t s), w1))))))))"

definition fv_set_fee :: "env \<Rightarrow> flash_vault \<Rightarrow> int \<Rightarrow> flash_vault fv_res" where
  "fv_set_fee E s fee_bps =
     rbind (check_no_flash_loan_active s) (\<lambda>_.
     if \<not> (0 \<le> fee_bps \<and> fee_bps \<le> FV_MAX_FEE_BPS) then Inl (Err InvalidFee)
     else
       rbind (fv_load_admin s) (\<lambda>admin.
       rbind (require_auth E admin) (\<lambda>_.
       Inr (fv_emit (FeeChangedEvent admin (get_fee_bps s) fee_bps) (s\<lparr>fv_fee_bps := Some fee_bps\<rparr>)))))"

definition fv_set_paused :: "env \<Rightarrow> flash_vault \<Rightarrow> address \<Rightarrow> bool \<Rightarrow> flash_vault fv_res" where
  "fv_set_paused E s admin paused =
     rbind (check_no_flash_loan_active s) (\<lambda>_. fv_on_guard s (guard_set_pause E (fv_guard s) admin BORROW paused))"

definition fv_pause_borrow :: "env \<Rightarrow> flash_vault \<Rightarrow> flash_vault fv_res" where
  "fv_pause_borrow E s = rbind (fv_load_admin s) (\<lambda>admin. rbind (require_auth E admin) (\<lambda>_. Inr (set_borrow_paused True s)))"

definition fv_resume_borrow :: "env \<Rightarrow> flash_vault \<Rightarrow> flash_vault fv_res" where
  "fv_resume_borrow E s = rbind (fv_load_admin s) (\<lambda>admin. rbind (require_auth E admin) (\<lambda>_. Inr (set_borrow_paused False s)))"

definition fv_get_borrow_paused :: "flash_vault \<Rightarrow> bool" where
  "fv_get_borrow_paused s = is_borrow_paused s"

definition fv_emergency_pause :: "env \<Rightarrow> flash_vault \<Rightarrow> address list \<Rightarrow> flash_vault fv_res" where
  "fv_emergency_pause E s approvers =
     rbind (check_no_flash_loan_active s) (\<lambda>_. fv_on_guard s (guard_emergency_pause E (fv_guard s) approvers))"

section \<open>The flash loan\<close>

type_synonym 'w callback = "address \<Rightarrow> int \<Rightarrow> int \<Rightarrow> address \<Rightarrow> flash_vault \<times> 'w \<Rightarrow> (flash_vault \<times> 'w) option"

definition fv_flash_loan ::
    "'w token_xfer \<Rightarrow> (address \<Rightarrow> address \<Rightarrow> 'w \<Rightarrow> int) \<Rightarrow> (address \<Rightarrow> bool) \<Rightarrow> 'w callback \<Rightarrow> env \<Rightarrow> flash_vault \<times> 'w
      \<Rightarrow> address \<Rightarrow> address \<Rightarrow> int \<Rightarrow> ((flash_vault \<times> 'w) \<times> int) fv_res" where
  "fv_flash_loan xfer bal is_contract execute_operation E sw initiator receiver amount =
     (let s = fst sw; w = snd sw; here = this_contract E in
      if is_borrow_paused s then Inl (Err BorrowPaused)
      else
        rbind (fv_check_not_paused s BORROW) (\<lambda>_.
        if amount \<le> 0 then Inl (Err InvalidAmount)
        else
          rbind (check_no_flash_loan_active s) (\<lambda>_.
          rbind (require_auth E initiator) (\<lambda>_.
          if \<not> is_contract receiver then Inl (Err InvalidReceiver)
          else
            rbind (fv_load_token s) (\<lambda>token_addr.
            let pre_balance = bal token_addr here w in
            if amount > pre_balance then Inl (Err InsufficientVaultBalance)
            else
              rbind (calculate_fee E s amount) (\<lambda>fee.
              let s1 = set_flash_loan_active True s in
              rbind (call (xfer E token_addr here receiver amount w)) (\<lambda>w1.
              case execute_operation token_addr amount fee initiator (s1, w1) of
                None \<Rightarrow> Inl (Err InvalidReceiver)
              | Some (s2, w2) \<Rightarrow>
                  rbind (calculate_fee E s2 amount) (\<lambda>expected_fee.
                  rbind (fit E I128 (pre_balance + expected_fee)) (\<lambda>required_balance.
                  let post_balance = bal token_addr here w2 in
                  if post_balance < required_balance then Inl (Err LoanNotRepaid)
                  else
                    let s3 = set_flash_loan_active False s2 in
                    rbind (if fee > 0 then rbind (fit E I128 (fv_get_total_deposited s3 + fee)) (\<lambda>t. Inr (fv_set_total_deposited t s3)) else Inr s3) (\<lambda>s4.
                    Inr ((fv_emit (FlashLoanEvent receiver token_addr amount fee) s4, w2), fee)))))))))))"

end
