(* ===== verification/FlashVaultProperties.thy ===== *)
theory FlashVaultProperties
  imports FlashVault Token
begin

text \<open>
  The vault stays solvent whatever the receivers of its loans do: they are code of others, which may call the vault again,
  borrow again, and move tokens, and only the reentrancy lock and the final balance check stand against them.
\<close>

section \<open>What others can do\<close>

text \<open>A token ledger whose completed transfers have amounts of zero or more.\<close>

locale lending_token = token_ledger +
  assumes xfer_nonneg: "xfer E t f to n w = Some w' \<Longrightarrow> 0 \<le> n"

datatype 'w flash_op =
    FvInitialize address address
  | FvDeposit address int
  | FvWithdraw address int
  | FvSetFee int
  | FvSetPaused address bool
  | FvPauseBorrow
  | FvResumeBorrow
  | FvEmergencyPause "address list"
  | FvFlashLoan "'w callback" address address int

fun fv_exec :: "'w token_xfer \<Rightarrow> (address \<Rightarrow> address \<Rightarrow> 'w \<Rightarrow> int) \<Rightarrow> (address \<Rightarrow> bool) \<Rightarrow> env \<Rightarrow> flash_vault \<times> 'w \<Rightarrow> 'w flash_op
    \<Rightarrow> (flash_vault \<times> 'w) fv_res" where
  "fv_exec xfer bal is_contract E (s, w) (FvInitialize a t) = rbind (fv_initialize s a t) (\<lambda>s'. Inr (s', w))"
| "fv_exec xfer bal is_contract E (s, w) (FvDeposit f n) = fv_deposit xfer E (s, w) f n"
| "fv_exec xfer bal is_contract E (s, w) (FvWithdraw t n) = fv_withdraw xfer E (s, w) t n"
| "fv_exec xfer bal is_contract E (s, w) (FvSetFee f) = rbind (fv_set_fee E s f) (\<lambda>s'. Inr (s', w))"
| "fv_exec xfer bal is_contract E (s, w) (FvSetPaused a p) = rbind (fv_set_paused E s a p) (\<lambda>s'. Inr (s', w))"
| "fv_exec xfer bal is_contract E (s, w) FvPauseBorrow = rbind (fv_pause_borrow E s) (\<lambda>s'. Inr (s', w))"
| "fv_exec xfer bal is_contract E (s, w) FvResumeBorrow = rbind (fv_resume_borrow E s) (\<lambda>s'. Inr (s', w))"
| "fv_exec xfer bal is_contract E (s, w) (FvEmergencyPause as) = rbind (fv_emergency_pause E s as) (\<lambda>s'. Inr (s', w))"
| "fv_exec xfer bal is_contract E (s, w) (FvFlashLoan cb i r n) = rbind (fv_flash_loan xfer bal is_contract cb E (s, w) i r n) (\<lambda>(sw', fee). Inr sw')"

text \<open>
  Sequences of completed calls of the vault at \<open>here\<close>, by anyone but the vault itself, and of transfers that the vault
  neither makes nor authorises. The callback of a loan is again such a sequence, to any depth.
\<close>

inductive outside :: "'w token_xfer \<Rightarrow> (address \<Rightarrow> address \<Rightarrow> 'w \<Rightarrow> int) \<Rightarrow> (address \<Rightarrow> bool) \<Rightarrow> address \<Rightarrow> flash_vault \<times> 'w \<Rightarrow> flash_vault \<times> 'w \<Rightarrow> bool"
  for xfer bal is_contract here where
  outside_none: "outside xfer bal is_contract here x x"
| outside_call: "outside xfer bal is_contract here x y \<Longrightarrow> overflow_checks E \<Longrightarrow> this_contract E = here \<Longrightarrow> here \<notin> set (auths E)
    \<Longrightarrow> \<forall>cb i r n. op = FvFlashLoan cb i r n \<longrightarrow> (\<forall>t k f j u v. cb t k f j u = Some v \<longrightarrow> outside xfer bal is_contract here u v)
    \<Longrightarrow> fv_exec xfer bal is_contract E y op = Inr z \<Longrightarrow> outside xfer bal is_contract here x z"
| outside_move: "outside xfer bal is_contract here x (s, w) \<Longrightarrow> overflow_checks E \<Longrightarrow> this_contract E \<noteq> here \<Longrightarrow> here \<notin> set (auths E)
    \<Longrightarrow> xfer E t f to n w = Some w' \<Longrightarrow> outside xfer bal is_contract here x (s, w')"

section \<open>While the lock is set\<close>

text \<open>The part of the state that a locked vault keeps.\<close>

definition books :: "flash_vault \<Rightarrow> address option \<times> address option \<times> int \<times> int \<times> bool" where
  "books s = (fv_admin s, fv_token s, get_fee_bps s, fv_get_total_deposited s, is_flash_loan_active s)"

lemma fv_on_guard_Inr: "fv_on_guard s r = Inr s' \<Longrightarrow> \<exists>g. s' = s\<lparr>fv_guard := g\<rparr>"
  by (auto simp: fv_on_guard_def)

lemma books_simps [simp]:
  "books (s\<lparr>fv_guard := g\<rparr>) = books s" "books (s\<lparr>fv_borrow_paused := b\<rparr>) = books s" "books (s\<lparr>fv_events := e\<rparr>) = books s"
  by (simp_all add: books_def get_fee_bps_def fv_get_total_deposited_def is_flash_loan_active_def)

lemma locked_exec:
  assumes "fv_exec xfer bal is_contract E (s, w) op = Inr (s', w')" "is_flash_loan_active s" "fv_admin s \<noteq> None"
  shows "books s' = books s \<and> w' = w"
  using assms
  by (cases op) (auto simp: fv_initialize_def fv_deposit_def fv_withdraw_def fv_set_fee_def fv_set_paused_def fv_pause_borrow_def
      fv_resume_borrow_def fv_emergency_pause_def fv_flash_loan_def check_no_flash_loan_active_def set_borrow_paused_def Let_def
      split: if_splits)

text \<open>The invariant: the lock is open, the fee is not negative and the recorded deposits are in the vault.\<close>

definition fv_solvent :: "(address \<Rightarrow> address \<Rightarrow> 'w \<Rightarrow> int) \<Rightarrow> address \<Rightarrow> address \<Rightarrow> flash_vault \<times> 'w \<Rightarrow> bool" where
  "fv_solvent bal here t x \<longleftrightarrow> \<not> is_flash_loan_active (fst x) \<and> fv_admin (fst x) \<noteq> None \<and> fv_token (fst x) = Some t
     \<and> 0 \<le> get_fee_bps (fst x) \<and> 0 \<le> fv_get_total_deposited (fst x) \<and> fv_get_total_deposited (fst x) \<le> bal t here (snd x)"

context lending_token
begin

lemma locked_outside:
  assumes "outside xfer bal is_contract here x y" "is_flash_loan_active (fst x)" "fv_admin (fst x) \<noteq> None"
  shows "books (fst y) = books (fst x) \<and> bal t here (snd x) \<le> bal t here (snd y)"
  using assms
proof (induction rule: outside.induct)
  case (outside_call x y E op z)
  obtain s w where y: "y = (s, w)" by (cases y)
  obtain s' w' where z: "z = (s', w')" by (cases z)
  from outside_call.IH(1) outside_call.prems y have b: "books s = books (fst x)" by simp
  then have same: "is_flash_loan_active s = is_flash_loan_active (fst x)" "fv_admin s = fv_admin (fst x)" by (simp_all add: books_def)
  have l1: "is_flash_loan_active s" unfolding same(1) by (rule outside_call.prems(1))
  have l2: "fv_admin s \<noteq> None" unfolding same(2) by (rule outside_call.prems(2))
  have run: "fv_exec xfer bal is_contract E (s, w) op = Inr (s', w')" using outside_call.hyps y z by simp
  from locked_exec [OF run l1 l2] have "books s' = books s" "w' = w" by simp_all
  with outside_call.IH(1) outside_call.prems y z show ?case by simp
next
  case (outside_move x s w E t' f to n w')
  then have "f \<noteq> here" using xfer_auth by metis
  with outside_move(5) xfer_bal [OF outside_move(2,5)] xfer_nonneg [OF outside_move(5)] outside_move.IH outside_move.prems
  show ?case by (auto simp: delta_def)
qed simp

text \<open>A loan between unlocked states: what is lent comes back with the fee, and the record grows by the fee.\<close>

lemma flash_loan_repaid:
  assumes "fv_flash_loan xfer bal is_contract cb E (s, w) i r n = Inr ((s', w'), fee)"
    and "overflow_checks E" "this_contract E = here" "fv_token s = Some t" "fv_admin s \<noteq> None"
    and cb: "\<forall>t k f j u v. cb t k f j u = Some v \<longrightarrow> outside xfer bal is_contract here u v"
  shows "bal t here w + fee \<le> bal t here w' \<and> fv_get_total_deposited s' = fv_get_total_deposited s + max fee 0 \<and> \<not> is_flash_loan_active s'
    \<and> fv_token s' = Some t \<and> fv_admin s' = fv_admin s \<and> calculate_fee E s n = Inr fee \<and> get_fee_bps s' = get_fee_bps s"
proof -
  let ?s1 = "set_flash_loan_active True s"
  from assms(1,3,4) obtain w1 s2 w2 expected where
    fee: "calculate_fee E s n = Inr fee" and run: "cb t n fee i (?s1, w1) = Some (s2, w2)"
    and e: "calculate_fee E s2 n = Inr expected" and req: "bal t here w + expected \<le> bal t here w2"
    and s': "s' = fv_emit (FlashLoanEvent r t n fee) (if fee > 0
        then fv_set_total_deposited (fv_get_total_deposited (set_flash_loan_active False s2) + fee) (set_flash_loan_active False s2)
        else set_flash_loan_active False s2)" "w' = w2"
    using assms(2) by (auto simp: fv_flash_loan_def fv_load_token_def Let_def not_less split: if_splits option.splits)
  have l: "is_flash_loan_active ?s1" "fv_admin ?s1 \<noteq> None" using assms(5) by (simp_all add: set_flash_loan_active_def is_flash_loan_active_def)
  have "books s2 = books ?s1" using locked_outside [OF cb [rule_format, OF run]] l by simp
  then have b: "fv_admin s2 = fv_admin s" "fv_token s2 = fv_token s" "get_fee_bps s2 = get_fee_bps s" "fv_get_total_deposited s2 = fv_get_total_deposited s"
    by (simp_all add: books_def set_flash_loan_active_def get_fee_bps_def fv_get_total_deposited_def)
  have "expected = fee" using e fee b(3) by (simp add: calculate_fee_def)
  moreover have "fv_get_total_deposited s' = fv_get_total_deposited s + max fee 0" "\<not> is_flash_loan_active s'" "fv_token s' = Some t" "fv_admin s' = fv_admin s" "get_fee_bps s' = get_fee_bps s"
    using s'(1) b assms(4) by (auto simp: set_flash_loan_active_def fv_set_total_deposited_def fv_get_total_deposited_def is_flash_loan_active_def get_fee_bps_def)
  ultimately show ?thesis using req fee s'(2) by simp
qed

lemma solvent_books:
  assumes "fv_solvent bal here t (s, w)" "books s' = books s" "bal t here w \<le> bal t here w'"
  shows "fv_solvent bal here t (s', w')"
  using assms by (simp add: books_def fv_solvent_def)

lemma solvent_deposit:
  assumes "fv_deposit xfer E (s, w) f n = Inr (s', w')" "fv_solvent bal here t (s, w)"
    and E: "overflow_checks E" "this_contract E = here" "here \<notin> set (auths E)"
  shows "fv_solvent bal here t (s', w')"
proof -
  from assms(1,2) have x: "xfer E t f here n w = Some w'" and f: "f \<in> set (auths E)" and n: "0 < n"
    and s': "s' = fv_emit (VaultDepositEvent f n) (fv_set_total_deposited (fv_get_total_deposited s + n) s)"
    using E(1,2) by (auto simp: fv_solvent_def fv_deposit_def fv_load_token_def Let_def split: if_splits)
  from f E(3) have "f \<noteq> here" by auto
  from xfer_in [OF E(1) x this] n assms(2) s' show ?thesis
    by (simp add: fv_solvent_def is_flash_loan_active_def fv_get_total_deposited_def fv_set_total_deposited_def get_fee_bps_def)
qed

lemma solvent_withdraw:
  assumes "fv_withdraw xfer E (s, w) f n = Inr (s', w')" "fv_solvent bal here t (s, w)"
    and E: "overflow_checks E" "this_contract E = here" "here \<notin> set (auths E)"
  shows "fv_solvent bal here t (s', w')"
proof -
  from assms(1,2) have x: "xfer E t here f n w = Some w'" and f: "f \<in> set (auths E)" and n: "0 < n" "n \<le> fv_get_total_deposited s"
    and s': "s' = fv_emit (VaultWithdrawEvent f n) (fv_set_total_deposited (fv_get_total_deposited s - n) s)"
    using E(1,2) by (auto simp: fv_solvent_def fv_withdraw_def fv_load_token_def Let_def not_less split: if_splits)
  from f E(3) have "here \<noteq> f" by auto
  from xfer_out [OF E(1) x this] n assms(2) s' show ?thesis
    by (simp add: fv_solvent_def is_flash_loan_active_def fv_get_total_deposited_def fv_set_total_deposited_def get_fee_bps_def)
qed

lemma solvent_admin:
  assumes "fv_exec xfer bal is_contract E (s, w) op = Inr (s', w')" "fv_solvent bal here t (s, w)"
    and "\<And>f n. op \<noteq> FvDeposit f n" "\<And>f n. op \<noteq> FvWithdraw f n" "\<nexists>cb i r n. op = FvFlashLoan cb i r n"
  shows "fv_solvent bal here t (s', w')"
  using assms
  by (cases op) (auto simp: fv_solvent_def fv_initialize_def fv_set_fee_def fv_set_paused_def fv_pause_borrow_def
      fv_resume_borrow_def fv_emergency_pause_def set_borrow_paused_def is_flash_loan_active_def get_fee_bps_def
      fv_get_total_deposited_def dest!: fv_on_guard_Inr split: if_splits)

lemma calculate_fee_nonneg: "calculate_fee E s n = Inr fee \<Longrightarrow> overflow_checks E \<Longrightarrow> 0 \<le> get_fee_bps s \<Longrightarrow> 0 \<le> fee"
  by (auto simp: calculate_fee_def Let_def quot_pos_Inr pos_imp_zdiv_nonneg_iff split: if_splits)

lemma solvent_flash_loan:
  assumes "fv_flash_loan xfer bal is_contract cb E (s, w) i r n = Inr ((s', w'), fee)" "fv_solvent bal here t (s, w)"
    and E: "overflow_checks E" "this_contract E = here"
    and cb: "\<forall>t k f j u v. cb t k f j u = Some v \<longrightarrow> outside xfer bal is_contract here u v"
  shows "fv_solvent bal here t (s', w') \<and> get_fee_bps s' = get_fee_bps s"
proof -
  from assms(2) have tok: "fv_token s = Some t" and adm: "fv_admin s \<noteq> None" and fb: "0 \<le> get_fee_bps s" by (simp_all add: fv_solvent_def)
  note repaid = flash_loan_repaid [OF assms(1) E tok adm cb]
  have r: "bal t here w + fee \<le> bal t here w'" "fv_get_total_deposited s' = fv_get_total_deposited s + max fee 0"
    "\<not> is_flash_loan_active s'" "fv_token s' = Some t" "fv_admin s' = fv_admin s" "calculate_fee E s n = Inr fee" "get_fee_bps s' = get_fee_bps s"
    using repaid by blast+
  have "0 \<le> fee" by (rule calculate_fee_nonneg [OF r(6) E(1) fb])
  with r assms(2) show ?thesis by (simp add: fv_solvent_def)
qed

lemma solvent_outside:
  assumes "outside xfer bal is_contract here x y" "fv_solvent bal here t x"
  shows "fv_solvent bal here t y"
  using assms
proof (induction rule: outside.induct)
  case (outside_call x y E op z)
  obtain s w where y: "y = (s, w)" by (cases y)
  obtain s' w' where z: "z = (s', w')" by (cases z)
  have I: "fv_solvent bal here t (s, w)" using outside_call.IH(1) outside_call.prems y by simp
  have run: "fv_exec xfer bal is_contract E (s, w) op = Inr (s', w')" using outside_call.hyps y z by simp
  note E = outside_call.hyps(2-4)
  show ?case
  proof (cases op)
    case (FvDeposit f n)
    with run solvent_deposit [OF _ I E] z show ?thesis by simp
  next
    case (FvWithdraw f n)
    with run solvent_withdraw [OF _ I E] z show ?thesis by simp
  next
    case (FvFlashLoan cb i r n)
    then have cb: "\<forall>t k f j u v. cb t k f j u = Some v \<longrightarrow> outside xfer bal is_contract here u v" using outside_call.IH(2) by blast
    note loan = solvent_flash_loan [OF _ I E(1,2) cb]
    from FvFlashLoan run obtain fee where "fv_flash_loan xfer bal is_contract cb E (s, w) i r n = Inr ((s', w'), fee)" by auto
    from loan [OF this] z show ?thesis by simp
  qed (use solvent_admin [OF run I] z in simp_all)
next
  case (outside_move x s w E t' f to n w')
  then have "f \<noteq> here" using xfer_auth by metis
  with outside_move(5) xfer_bal [OF outside_move(2,5)] xfer_nonneg [OF outside_move(5)] outside_move.IH outside_move.prems
  show ?case by (auto simp: delta_def fv_solvent_def)
qed simp

end

section \<open>The interface on the token contract\<close>

text \<open>The token contract's transfers, on ledgers that never grant an amount below zero.\<close>

definition sound_transfer :: "tokens token_xfer" where
  "sound_transfer E t f to n w = (if 0 \<le> n then client_transfer E t f to n w else None)"

interpretation sound_world: lending_token sound_transfer client_balance
  by unfold_locales
    (auto simp: sound_transfer_def token_world.xfer_bal dest: token_world.xfer_funds token_world.xfer_auth split: if_splits)

section \<open>Solvency\<close>


text \<open>A vault at 7 for the token 2 with the administrator 1: a deposit of 100, a fee of half a percent, a loan repaid with its fee.\<close>

definition fv_demo_env :: "address list \<Rightarrow> env" where
  "fv_demo_env as = (env0 as)\<lparr>this_contract := 7\<rparr>"

definition repay :: "tokens callback" where
  "repay t k f j x = map_option (Pair (fst x)) (sound_transfer ((env0 [])\<lparr>this_contract := 5\<rparr>) t 5 7 (k + f) (snd x))"

definition fv_demo :: "(flash_vault \<times> tokens) fv_res" where
  "fv_demo =
     (let exec = fv_exec sound_transfer client_balance (\<lambda>a. a = 5) in
      rbind (fv_initialize empty_flash_vault 1 2) (\<lambda>s.
      rbind (exec (fv_demo_env [1]) (s, [2 \<mapsto> empty_token\<lparr>tk_balances := [1 \<mapsto> 500, 5 \<mapsto> 10]\<rparr>]) (FvDeposit 1 100)) (\<lambda>x.
      rbind (exec (fv_demo_env [1]) x (FvSetFee 50)) (\<lambda>y.
      exec (fv_demo_env [4]) y (FvFlashLoan repay 4 5 100)))))"

lemma fv_demo_env_simps [simp]:
  "overflow_checks (fv_demo_env as)" "this_contract (fv_demo_env as) = 7" "auths (fv_demo_env as) = as"
  by (simp_all add: fv_demo_env_def env0_def)

lemma repay_outside: "repay t k f j u = Some v \<Longrightarrow> outside sound_transfer client_balance ic 7 u v"
  by (cases u) (auto simp: repay_def env0_def intro!: outside_move [OF outside_none])


end
