(* ===== verification/WasmScan.thy ===== *)
theory WasmScan
  imports Dispatch
begin

text \<open>
  The WASM reader of \<open>core/src/wasm_branch_analysis.rs\<close>: the cursor, LEB-128 numbers, the search for the body of an exported
  function, and the scan of a body for branches. Bytes are words of 8 bits. Positions are natural numbers: a length read is
  below \<open>2 ^ 32\<close>, so no sum of a position and a length leaves the range of \<open>usize\<close>, and the counters of the scan are
  bounded by the number of bytes. Names are their UTF-8 bytes. \<open>oc\<close> tells whether overflow checks are compiled in.
\<close>

unbundle bit_operations_syntax

type_synonym byte = "8 word"

section \<open>The cursor\<close>

record scanner =
  sc_data :: "byte list"
  sc_pos :: nat

definition scanner_new :: "byte list \<Rightarrow> scanner" where
  "scanner_new data = \<lparr>sc_data = data, sc_pos = 0\<rparr>"

definition remaining :: "scanner \<Rightarrow> nat" where
  "remaining s = length (sc_data s) - sc_pos s"

definition read_byte :: "scanner \<Rightarrow> byte option \<times> scanner" where
  "read_byte s =
     (if sc_pos s \<ge> length (sc_data s) then (None, s)
      else (Some (sc_data s ! sc_pos s), s\<lparr>sc_pos := sc_pos s + 1\<rparr>))"

function read_leb128_loop :: "64 word \<Rightarrow> nat \<Rightarrow> scanner \<Rightarrow> 64 word option \<times> scanner" where
  "read_leb128_loop result shift s =
     (case read_byte s of
        (None, s1) \<Rightarrow> (None, s1)
      | (Some byte, s1) \<Rightarrow>
          let result1 = result OR push_bit shift (ucast (byte AND 0x7F)) in
          if byte AND 0x80 = 0 then (Some result1, s1)
          else if shift + 7 \<ge> 70 then (None, s1)
          else read_leb128_loop result1 (shift + 7) s1)"
  by pat_completeness auto
termination by (relation "measure (\<lambda>(_, shift, _). 70 - shift)") auto

definition read_leb128_u64 :: "scanner \<Rightarrow> 64 word option \<times> scanner" where
  "read_leb128_u64 s = read_leb128_loop 0 0 s"

definition read_leb128_u32 :: "scanner \<Rightarrow> 32 word option \<times> scanner" where
  "read_leb128_u32 s = apfst (map_option ucast) (read_leb128_u64 s)"

definition skip :: "nat \<Rightarrow> scanner \<Rightarrow> scanner" where
  "skip n s = s\<lparr>sc_pos := min (sc_pos s + n) (length (sc_data s))\<rparr>"

lemma read_byte_remaining: "(Some b, s1) = read_byte s \<Longrightarrow> remaining s1 < remaining s"
  by (auto simp: read_byte_def remaining_def split: if_splits)

function skip_leb128 :: "scanner \<Rightarrow> scanner" where
  "skip_leb128 s =
     (case read_byte s of
        (Some b, s1) \<Rightarrow> if b AND 0x80 \<noteq> 0 then skip_leb128 s1 else s1
      | (None, s1) \<Rightarrow> s1)"
  by pat_completeness auto
termination by (relation "measure remaining") (auto dest: read_byte_remaining)

definition read_slice :: "nat \<Rightarrow> scanner \<Rightarrow> byte list option \<times> scanner" where
  "read_slice len s =
     (let e = sc_pos s + len in
      if e > length (sc_data s) then (None, s)
      else (Some (take len (drop (sc_pos s) (sc_data s))), s\<lparr>sc_pos := e\<rparr>))"

text \<open>\<open>unwrap_or\<close> and \<open>?\<close> on a read.\<close>

definition or_else :: "'a \<Rightarrow> 'a option \<times> scanner \<Rightarrow> 'a \<times> scanner" where
  "or_else d r = (case fst r of None \<Rightarrow> d | Some v \<Rightarrow> v, snd r)"

definition try_read :: "'a option \<times> scanner \<Rightarrow> ('a \<Rightarrow> scanner \<Rightarrow> 'b option) \<Rightarrow> 'b option" where
  "try_read r f = (case fst r of None \<Rightarrow> None | Some v \<Rightarrow> f v (snd r))"

declare read_leb128_loop.simps [simp del] skip_leb128.simps [simp del]

lemma read_byte_le: "(r, s1) = read_byte s \<Longrightarrow> remaining s1 \<le> remaining s"
  by (auto simp: read_byte_def remaining_def split: if_splits)

lemma read_leb128_loop_le: "(r, s1) = read_leb128_loop result shift s \<Longrightarrow> remaining s1 \<le> remaining s"
proof (induction result shift s arbitrary: r s1 rule: read_leb128_loop.induct)
  case (1 result shift s)
  obtain o1 s2 where rb: "read_byte s = (o1, s2)" by (cases "read_byte s")
  from read_byte_le [OF rb [symmetric]] have le: "remaining s2 \<le> remaining s" .
  show ?case
  proof (cases o1)
    case None
    with 1(2) rb le show ?thesis by (simp add: read_leb128_loop.simps [of result])
  next
    case (Some b)
    note IH = 1(1) [OF rb [symmetric] Some refl]
    from 1(2) rb Some le IH [of r s1] show ?thesis
      by (simp add: read_leb128_loop.simps [of result] Let_def split: if_splits)
  qed
qed

lemma read_leb128_u32_le: "(r, s1) = read_leb128_u32 s \<Longrightarrow> remaining s1 \<le> remaining s"
  by (cases "read_leb128_loop 0 0 s") (auto simp: read_leb128_u32_def read_leb128_u64_def dest: read_leb128_loop_le [OF sym])

lemma read_slice_le: "(r, s1) = read_slice n s \<Longrightarrow> remaining s1 \<le> remaining s"
  by (auto simp: read_slice_def remaining_def Let_def split: if_splits)

lemma skip_le [simp]: "remaining (skip n s) \<le> remaining s"
  by (auto simp: skip_def remaining_def)

lemma skip_leb128_le [simp]: "remaining (skip_leb128 s) \<le> remaining s"
proof (induction s rule: skip_leb128.induct)
  case (1 s)
  obtain o1 s2 where rb: "read_byte s = (o1, s2)" by (cases "read_byte s")
  from read_byte_le [OF rb [symmetric]] have "remaining s2 \<le> remaining s" .
  with rb 1 show ?case by (cases o1) (auto simp: skip_leb128.simps [of s] intro: le_trans)
qed

section \<open>The body of an exported function\<close>

definition SECTION_IMPORT :: byte where "SECTION_IMPORT = 2"
definition SECTION_EXPORT :: byte where "SECTION_EXPORT = 7"
definition SECTION_CODE :: byte where "SECTION_CODE = 10"
definition EXPORT_KIND_FUNC :: byte where "EXPORT_KIND_FUNC = 0"

definition skip_limits :: "scanner \<Rightarrow> scanner" where
  "skip_limits imp =
     (let (flags, imp1) = or_else 0 (read_byte imp); imp2 = skip_leb128 imp1 in
      if flags AND 1 \<noteq> 0 then skip_leb128 imp2 else imp2)"

fun import_loop :: "nat \<Rightarrow> nat \<Rightarrow> scanner \<Rightarrow> nat" where
  "import_loop 0 import_func_count imp = import_func_count"
| "import_loop (Suc k) import_func_count imp =
     (let (mod_len, imp1) = or_else 0 (read_leb128_u32 imp);
          (field_len, imp2) = or_else 0 (read_leb128_u32 (skip (unat mod_len) imp1));
          (kind, imp3) = or_else 0xFF (read_byte (skip (unat field_len) imp2)) in
      if kind = 0x00 then import_loop k (import_func_count + 1) (skip_leb128 imp3)
      else if kind = 0x01 then import_loop k import_func_count (skip_limits (skip 1 imp3))
      else if kind = 0x02 then import_loop k import_func_count (skip_limits imp3)
      else if kind = 0x03 then import_loop k import_func_count (skip_leb128 (skip 1 imp3))
      else import_func_count)"

fun export_loop :: "byte list \<Rightarrow> nat \<Rightarrow> 32 word option \<Rightarrow> scanner \<Rightarrow> 32 word option option" where
  "export_loop function_name 0 export_func_index ex = Some export_func_index"
| "export_loop function_name (Suc k) export_func_index ex =
     (let (name_len, ex1) = or_else 0 (read_leb128_u32 ex) in
      try_read (read_slice (unat name_len) ex1) (\<lambda>name_bytes ex2.
      try_read (read_byte ex2) (\<lambda>kind ex3.
      try_read (read_leb128_u32 ex3) (\<lambda>index ex4.
        export_loop function_name k
          (if kind = EXPORT_KIND_FUNC \<and> name_bytes = function_name then Some index else export_func_index) ex4))))"

record wasm_index =
  import_func_count :: nat
  export_func_index :: "32 word option"
  code_section_data :: "byte list option"

definition read_section :: "byte list \<Rightarrow> byte \<Rightarrow> byte list \<Rightarrow> wasm_index \<Rightarrow> wasm_index option" where
  "read_section function_name section_id section_data w =
     (if section_id = SECTION_IMPORT then
        let (count, imp) = or_else 0 (read_leb128_u32 (scanner_new section_data)) in
        Some (w\<lparr>import_func_count := import_loop (unat count) (import_func_count w) imp\<rparr>)
      else if section_id = SECTION_EXPORT then
        let (count, ex) = or_else 0 (read_leb128_u32 (scanner_new section_data)) in
        map_option (\<lambda>i. w\<lparr>export_func_index := i\<rparr>) (export_loop function_name (unat count) (export_func_index w) ex)
      else if section_id = SECTION_CODE then Some (w\<lparr>code_section_data := Some section_data\<rparr>)
      else Some w)"

function section_loop :: "byte list \<Rightarrow> wasm_index \<Rightarrow> scanner \<Rightarrow> wasm_index option" where
  "section_loop function_name w s =
     (if remaining s > 0 then
        case read_byte s of (None, _) \<Rightarrow> None | (Some section_id, s1) \<Rightarrow>
        (case read_leb128_u32 s1 of (None, _) \<Rightarrow> None | (Some section_len, s2) \<Rightarrow>
        (case read_slice (unat section_len) s2 of (None, _) \<Rightarrow> None | (Some section_data, s3) \<Rightarrow>
        (case read_section function_name section_id section_data w of None \<Rightarrow> None | Some w1 \<Rightarrow>
          section_loop function_name w1 s3)))
      else Some w)"
  by pat_completeness auto
termination
  by (relation "measure (\<lambda>(_, _, s). remaining s)")
    (auto dest!: read_byte_remaining read_leb128_u32_le read_slice_le)

fun body_loop :: "nat \<Rightarrow> scanner \<Rightarrow> byte list option" where
  "body_loop 0 code = try_read (read_leb128_u32 code) (\<lambda>body_size code1. fst (read_slice (unat body_size) code1))"
| "body_loop (Suc i) code = try_read (read_leb128_u32 code) (\<lambda>body_size code1. body_loop i (skip (unat body_size) code1))"

definition extract_function_body :: "byte list \<Rightarrow> byte list \<Rightarrow> byte list option" where
  "extract_function_body wasm function_name =
     try_read (read_slice 4 (scanner_new wasm)) (\<lambda>magic s1.
     if magic \<noteq> [0x00, 0x61, 0x73, 0x6D] then None
     else try_read (read_slice 4 s1) (\<lambda>version s2.
     if version \<noteq> [1, 0, 0, 0] then None
     else
       case section_loop function_name \<lparr>import_func_count = 0, export_func_index = None, code_section_data = None\<rparr> s2 of
         None \<Rightarrow> None
       | Some w \<Rightarrow>
           (case export_func_index w of None \<Rightarrow> None | Some func_space_index \<Rightarrow>
            if unat func_space_index < import_func_count w then None
            else
              let code_index = unat func_space_index - import_func_count w in
              (case code_section_data w of None \<Rightarrow> None | Some code_data \<Rightarrow>
               try_read (read_leb128_u32 (scanner_new code_data)) (\<lambda>func_count code.
               if code_index \<ge> unat func_count then None else body_loop code_index code)))))"

declare section_loop.simps [simp del]

lemmas section_ids = SECTION_IMPORT_def SECTION_EXPORT_def SECTION_CODE_def EXPORT_KIND_FUNC_def

section \<open>The branches of a body\<close>

datatype branch_type = Conditional | Loop | BranchIf | BranchTable | EarlyReturn

record branch_info =
  branch_id :: nat
  branch_type :: branch_type
  nesting_depth :: nat
  description :: string

record branch_type_breakdown =
  conditionals :: nat
  loops :: nat
  branch_ifs :: nat
  branch_tables :: nat
  early_returns :: nat

definition no_branches :: branch_type_breakdown where
  "no_branches = \<lparr>conditionals = 0, loops = 0, branch_ifs = 0, branch_tables = 0, early_returns = 0\<rparr>"

record scan_accumulator =
  branches :: "branch_info list"
  max_depth :: nat
  breakdown :: branch_type_breakdown

definition OP_BLOCK :: byte where "OP_BLOCK = 0x02"
definition OP_LOOP :: byte where "OP_LOOP = 0x03"
definition OP_IF :: byte where "OP_IF = 0x04"
definition OP_ELSE :: byte where "OP_ELSE = 0x05"
definition OP_END :: byte where "OP_END = 0x0B"
definition OP_BR :: byte where "OP_BR = 0x0C"
definition OP_BR_IF :: byte where "OP_BR_IF = 0x0D"
definition OP_BR_TABLE :: byte where "OP_BR_TABLE = 0x0E"
definition OP_RETURN :: byte where "OP_RETURN = 0x0F"
definition OP_CALL :: byte where "OP_CALL = 0x10"
definition OP_CALL_INDIRECT :: byte where "OP_CALL_INDIRECT = 0x11"

lemmas opcodes = OP_BLOCK_def OP_LOOP_def OP_IF_def OP_ELSE_def OP_END_def OP_BR_def OP_BR_IF_def OP_BR_TABLE_def OP_RETURN_def OP_CALL_def OP_CALL_INDIRECT_def

text \<open>The local variables of the scan: the depth, the next identifier and the accumulator.\<close>

record scan_locals =
  sl_depth :: nat
  sl_branch_id :: nat
  sl_acc :: scan_accumulator

definition enter :: "scan_locals \<Rightarrow> scan_locals" where
  "enter l = l\<lparr>sl_depth := sl_depth l + 1, sl_acc := (sl_acc l)\<lparr>max_depth := max (max_depth (sl_acc l)) (sl_depth l + 1)\<rparr>\<rparr>"

text \<open>The push of a branch, the count of its category and the next identifier.\<close>

definition push_branch :: "branch_type \<Rightarrow> string \<Rightarrow> (branch_type_breakdown \<Rightarrow> branch_type_breakdown) \<Rightarrow> scan_locals \<Rightarrow> scan_locals" where
  "push_branch t descr count l =
     (let b = \<lparr>branch_id = sl_branch_id l, branch_type = t, nesting_depth = sl_depth l, description = descr @ show_nat (sl_depth l)\<rparr>;
          acc = sl_acc l in
      l\<lparr>sl_branch_id := sl_branch_id l + 1, sl_acc := acc\<lparr>branches := branches acc @ [b], breakdown := count (breakdown acc)\<rparr>\<rparr>)"

definition scan_opcode :: "bool \<Rightarrow> byte \<Rightarrow> scanner \<Rightarrow> scan_locals \<Rightarrow> (scanner \<times> scan_locals) option" where
  "scan_opcode oc opcode s l =
     (if opcode = OP_BLOCK then Some (skip_leb128 s, enter l)
      else if opcode = OP_LOOP then
        Some (skip_leb128 s, push_branch Loop ''loop block at depth '' (\<lambda>b. b\<lparr>loops := loops b + 1\<rparr>) (enter l))
      else if opcode = OP_IF then
        Some (skip_leb128 s, push_branch Conditional ''if/else conditional at depth '' (\<lambda>b. b\<lparr>conditionals := conditionals b + 1\<rparr>) (enter l))
      else if opcode = OP_ELSE then Some (s, l)
      else if opcode = OP_END then Some (s, l\<lparr>sl_depth := sl_depth l - 1\<rparr>)
      else if opcode = OP_BR then Some (skip_leb128 s, l)
      else if opcode = OP_BR_IF then
        Some (skip_leb128 s, push_branch BranchIf ''conditional jump (br_if) at depth '' (\<lambda>b. b\<lparr>branch_ifs := branch_ifs b + 1\<rparr>) l)
      else if opcode = OP_BR_TABLE then
        let (n, s1) = or_else 0 (read_leb128_u32 s); s2 = (skip_leb128 ^^ (unat n + 1)) s1 in
        if oc \<and> n = - 1 then None
        else Some (s2, push_branch BranchTable (''br_table ('' @ show_nat (unat (n + 1)) @ '' targets) at depth '')
               (\<lambda>b. b\<lparr>branch_tables := branch_tables b + 1\<rparr>) l)
      else if opcode = OP_RETURN then
        Some (s, if sl_depth l > 0 then push_branch EarlyReturn ''early return at depth '' (\<lambda>b. b\<lparr>early_returns := early_returns b + 1\<rparr>) l else l)
      else if opcode = OP_CALL then Some (skip_leb128 s, l)
      else if opcode = OP_CALL_INDIRECT then Some (skip_leb128 (skip_leb128 s), l)
      else if opcode = 0x25 \<or> opcode = 0x26 then Some (skip_leb128 s, l)
      else if 0x20 \<le> opcode \<and> opcode \<le> 0x24 then Some (skip_leb128 s, l)
      else if 0x28 \<le> opcode \<and> opcode \<le> 0x3E then Some (skip_leb128 (skip_leb128 s), l)
      else if opcode = 0x3F \<or> opcode = 0x40 then Some (skip_leb128 s, l)
      else if opcode = 0x41 then Some (skip_leb128 s, l)
      else if opcode = 0x42 then Some (skip_leb128 s, l)
      else if opcode = 0x43 then Some (skip 4 s, l)
      else if opcode = 0x44 then Some (skip 8 s, l)
      else if opcode = 0xFC then
        let (sub, s1) = or_else 0 (read_leb128_u32 s) in
        if sub = 8 \<or> sub = 10 \<or> sub = 12 then Some (skip_leb128 (skip_leb128 s1), l)
        else if sub = 9 \<or> sub = 11 \<or> 13 \<le> sub \<and> sub \<le> 17 then Some (skip_leb128 s1, l)
        else Some (s1, l)
      else if opcode = 0xFD then Some (skip_leb128 s, l)
      else Some (s, l))"

lemma skip_leb128s_le [simp]: "remaining ((skip_leb128 ^^ n) s) \<le> remaining s"
  by (induction n) (auto intro: le_trans [OF skip_leb128_le])

lemma or_else_le: "(n, s1) = or_else d (read_leb128_u32 s) \<Longrightarrow> remaining s1 \<le> remaining s"
  by (cases "read_leb128_u32 s") (auto simp: or_else_def dest: read_leb128_u32_le [OF sym])

lemma scan_opcode_le: "scan_opcode oc opcode s l = Some (s1, l1) \<Longrightarrow> remaining s1 \<le> remaining s"
  by (auto simp: scan_opcode_def Let_def split: if_splits prod.splits dest!: sym [of "or_else _ _"] or_else_le
      intro: le_trans [OF skip_leb128_le] le_trans [OF skip_leb128s_le])

function scan_loop :: "bool \<Rightarrow> scanner \<Rightarrow> scan_locals \<Rightarrow> scan_accumulator option" where
  "scan_loop oc s l =
     (if remaining s > 0 then
        case read_byte s of
          (None, _) \<Rightarrow> Some (sl_acc l)
        | (Some opcode, s1) \<Rightarrow> (case scan_opcode oc opcode s1 l of None \<Rightarrow> None | Some (s2, l1) \<Rightarrow> scan_loop oc s2 l1)
      else Some (sl_acc l))"
  by pat_completeness auto
termination
  by (relation "measure (\<lambda>(_, s, _). remaining s)") (auto dest!: read_byte_remaining scan_opcode_le)

declare scan_loop.simps [simp del]

definition scan_function_body :: "bool \<Rightarrow> byte list \<Rightarrow> scan_accumulator option" where
  "scan_function_body oc body =
     (let (local_groups, s) = or_else 0 (read_leb128_u32 (scanner_new body));
          s1 = ((\<lambda>s. skip 1 (skip_leb128 s)) ^^ unat local_groups) s in
      scan_loop oc s1
        \<lparr>sl_depth = 0, sl_branch_id = 0, sl_acc = \<lparr>branches = [], max_depth = 0, breakdown = no_branches\<rparr>\<rparr>)"

end
