(* ===== verification/BranchAnalysis.thy ===== *)
theory BranchAnalysis
  imports WasmScan
begin

text \<open>
  The dynamic part of \<open>core/src/wasm_branch_analysis.rs\<close>: the variations of the arguments, their runs, and the report. A run of
  the sandbox (\<open>profile_contract\<close>, whose behaviour is that of the Soroban host) is the parameter \<open>profile\<close>: what the \<open>k\<close>-th run
  answers on given arguments. The strings are their bytes, and white space is that of ASCII. A panic of the analysis is \<open>None\<close>.
\<close>

section \<open>Variations of the arguments\<close>

definition MAX_PERMUTATIONS :: nat where "MAX_PERMUTATIONS = 24"

text \<open>\<open>str::parse\<close> for the 64-bit integers: digits after an optional sign.\<close>

definition parse_digits :: "string \<Rightarrow> nat option" where
  "parse_digits ds = (if ds = [] then None else digits_value ds 0)"

definition parse_i64 :: "string \<Rightarrow> int option" where
  "parse_i64 t =
     (let n = (case t of
          CHR ''-'' # ds \<Rightarrow> map_option (\<lambda>n. - int n) (parse_digits ds)
        | CHR ''+'' # ds \<Rightarrow> map_option int (parse_digits ds)
        | _ \<Rightarrow> map_option int (parse_digits t)) in
      case n of None \<Rightarrow> None | Some n \<Rightarrow> if - (2 ^ 63) \<le> n \<and> n < 2 ^ 63 then Some n else None)"

definition parse_u64 :: "string \<Rightarrow> int option" where
  "parse_u64 t =
     (let n = (case t of CHR ''+'' # ds \<Rightarrow> parse_digits ds | _ \<Rightarrow> parse_digits t) in
      case n of None \<Rightarrow> None | Some n \<Rightarrow> if n < 2 ^ 64 then Some (int n) else None)"

definition show_int :: "int \<Rightarrow> string" where
  "show_int n = (if n < 0 then CHR ''-'' # show_nat (nat (- n)) else show_nat (nat n))"

definition trim :: "string \<Rightarrow> string" where
  "trim s = trim_end_while is_white (dropWhile is_white s)"

definition probes :: "int list \<Rightarrow> int \<Rightarrow> string list" where
  "probes ps n = map show_int (filter (\<lambda>p. p \<noteq> n) ps)"

definition arg_candidates :: "string \<Rightarrow> string list" where
  "arg_candidates arg =
     (let t = trim arg in
      if t = ''true'' \<or> t = ''false'' then [arg, if t = ''true'' then ''false'' else ''true'']
      else case parse_i64 t of
        Some n \<Rightarrow> arg # probes [0, 1, - 1, 2 ^ 63 - 1, - (2 ^ 63)] n
      | None \<Rightarrow> (case parse_u64 t of
          Some n \<Rightarrow> arg # probes [0, 1, (2 ^ 64 - 1) div 2, 2 ^ 64 - 1] n
        | None \<Rightarrow> [arg]))"

text \<open>The two inner loops with the labelled break, and the loop over the arguments.\<close>

fun extend_one :: "string list \<Rightarrow> string list \<Rightarrow> string list list \<Rightarrow> string list list \<times> bool" where
  "extend_one existing [] acc = (acc, False)"
| "extend_one existing (candidate # cs) acc =
     (let acc1 = acc @ [existing @ [candidate]] in
      if length acc1 \<ge> MAX_PERMUTATIONS then (acc1, True) else extend_one existing cs acc1)"

fun extend_all :: "string list list \<Rightarrow> string list \<Rightarrow> string list list \<Rightarrow> string list list" where
  "extend_all [] candidates acc = acc"
| "extend_all (existing # es) candidates acc =
     (let (acc1, stop) = extend_one existing candidates acc in if stop then acc1 else extend_all es candidates acc1)"

fun product_loop :: "string list list \<Rightarrow> string list list \<Rightarrow> string list list" where
  "product_loop [] result = result"
| "product_loop (candidates # cs) result =
     (let result1 = extend_all result candidates [] in
      if length result1 \<ge> MAX_PERMUTATIONS then take MAX_PERMUTATIONS result1 else product_loop cs result1)"

definition generate_arg_variations :: "string list \<Rightarrow> string list list" where
  "generate_arg_variations args = (if args = [] then [[]] else product_loop (map arg_candidates args) [[]])"

section \<open>The report\<close>

definition is_worse :: "soroban_resources \<Rightarrow> soroban_resources \<Rightarrow> bool" where
  "is_worse a b \<longleftrightarrow> cpu_instructions a > cpu_instructions b
     \<or> cpu_instructions a = cpu_instructions b \<and> ram_bytes a > ram_bytes b"

definition is_better :: "soroban_resources \<Rightarrow> soroban_resources \<Rightarrow> bool" where
  "is_better a b \<longleftrightarrow> cpu_instructions a < cpu_instructions b
     \<or> cpu_instructions a = cpu_instructions b \<and> ram_bytes a < ram_bytes b"

definition fingerprint :: "soroban_resources \<Rightarrow> nat \<times> nat \<times> nat \<times> nat" where
  "fingerprint r = (cpu_instructions r, ram_bytes r, ledger_read_bytes r, ledger_write_bytes r)"

record path_result =
  path_id :: nat
  args_used :: "string list"
  resources :: soroban_resources

record wasm_branch_analysis_result =
  function_name :: string
  total_branch_count :: nat
  max_nesting_depth :: nat
  branch_type_breakdown :: branch_type_breakdown
  estimated_paths :: nat
  branch_list :: "branch_info list"
  simulated_paths :: "path_result list"
  baseline_resources :: soroban_resources
  worst_case_resources :: soroban_resources
  best_case_resources :: soroban_resources
  distinct_profiles :: nat
  coverage_note :: string

datatype run_outcome = Ran soroban_resources | RunFailed simulation_error | RunPanicked

type_synonym profile = "nat \<Rightarrow> string list \<Rightarrow> run_outcome"

fun explore :: "profile \<Rightarrow> string list \<Rightarrow> nat \<Rightarrow> string list list \<Rightarrow> path_result list \<Rightarrow> nat \<Rightarrow> path_result list" where
  "explore profile args k [] paths next_id = paths"
| "explore profile args k (variant_args # vs) paths next_id =
     (if variant_args = args \<and> paths \<noteq> [] then explore profile args k vs paths next_id
      else case profile k variant_args of
        Ran r \<Rightarrow> explore profile args (k + 1) vs (paths @ [\<lparr>path_id = next_id, args_used = variant_args, resources = r\<rparr>]) (next_id + 1)
      | RunFailed _ \<Rightarrow> explore profile args (k + 1) vs paths next_id
      | RunPanicked \<Rightarrow> explore profile args (k + 1) vs paths next_id)"

definition worst_of :: "path_result list \<Rightarrow> soroban_resources \<Rightarrow> soroban_resources" where
  "worst_of paths w = fold (\<lambda>p w. if is_worse (resources p) w then resources p else w) paths w"

definition best_of :: "path_result list \<Rightarrow> soroban_resources \<Rightarrow> soroban_resources" where
  "best_of paths b = fold (\<lambda>p b. if is_better (resources p) b then resources p else b) paths b"

definition estimate_paths :: "nat \<Rightarrow> nat" where
  "estimate_paths found = (if found = 0 then 1 else min (2 ^ min found 6) 64)"

definition branch_note :: "nat \<Rightarrow> nat \<Rightarrow> nat \<Rightarrow> nat \<Rightarrow> string" where
  "branch_note total_variations total_branches runs profiles =
     (if total_variations \<ge> MAX_PERMUTATIONS then
        ''Argument exploration was capped at '' @ show_nat MAX_PERMUTATIONS @ '' permutations. '' @ show_nat total_branches
        @ '' branches were identified statically; some execution paths may not have been exercised. Consider supplying targeted test arguments to improve coverage.''
      else if total_branches = 0 then
        ''No branch instructions were found in the function body (or the function could not be located in the WASM). The analysis reflects a single execution path.''
      else
        show_nat total_branches @ '' branch point(s) identified; '' @ show_nat runs @ '' permutation(s) explored; ''
        @ show_nat profiles @ '' distinct resource profile(s) observed.'')"

definition analyze_wasm_branches ::
    "bool \<Rightarrow> profile \<Rightarrow> byte list \<Rightarrow> string \<Rightarrow> string list \<Rightarrow> (simulation_error + wasm_branch_analysis_result) option" where
  "analyze_wasm_branches oc profile wasm_bytes fname args =
     (case (case extract_function_body wasm_bytes (map of_char fname) of
              Some body \<Rightarrow> scan_function_body oc body
            | None \<Rightarrow> Some \<lparr>branches = [], max_depth = 0, breakdown = no_branches\<rparr>) of
        None \<Rightarrow> None
      | Some acc \<Rightarrow>
          (case profile 0 args of
             RunPanicked \<Rightarrow> None
           | RunFailed e \<Rightarrow> Some (Inl e)
           | Ran baseline \<Rightarrow>
               let found = length (branches acc);
                   variations = generate_arg_variations args;
                   explored = explore profile args 1 variations [] 0;
                   paths = (if explored = [] then [\<lparr>path_id = 0, args_used = args, resources = baseline\<rparr>] else explored);
                   first = resources (hd paths);
                   profiles = length (remdups (map (\<lambda>p. fingerprint (resources p)) paths)) in
               Some (Inr \<lparr>function_name = fname, total_branch_count = found, max_nesting_depth = max_depth acc,
                 branch_type_breakdown = breakdown acc, estimated_paths = estimate_paths found, branch_list = branches acc,
                 simulated_paths = paths, baseline_resources = baseline, worst_case_resources = worst_of paths first,
                 best_case_resources = best_of paths first, distinct_profiles = profiles,
                 coverage_note = branch_note (length variations) found (length paths) profiles\<rparr>)))"

end
