(* ===== verification/WasmProperties.thy ===== *)
theory WasmProperties
  imports WasmScan
begin

text \<open>
  What the WASM reader computes on encoded modules and bodies: LEB-128 numbers read back, the search for a function body
  against a specification on modules, the scan against a specification on instructions, and what the scan keeps on any bytes.
\<close>

section \<open>LEB-128\<close>

text \<open>The cursor stands before \<open>bs\<close>, and the cursor moved.\<close>

definition before :: "scanner \<Rightarrow> byte list \<Rightarrow> bool" where
  "before s bs \<longleftrightarrow> (\<exists>pre. sc_data s = pre @ bs \<and> sc_pos s = length pre)"

definition advance :: "nat \<Rightarrow> scanner \<Rightarrow> scanner" where
  "advance n s = s\<lparr>sc_pos := sc_pos s + n\<rparr>"

lemma before_new [simp]: "before (scanner_new bs) bs"
  by (simp add: before_def scanner_new_def)

lemma before_advance: "before s (xs @ ys) \<Longrightarrow> n = length xs \<Longrightarrow> before (advance n s) ys"
  unfolding before_def advance_def by (elim exE, rule_tac x = "pre @ xs" in exI) simp

lemma before_remaining: "before s bs \<Longrightarrow> remaining s = length bs"
  by (auto simp: before_def remaining_def)

lemma advance_advance [simp]: "advance m (advance n s) = advance (n + m) s"
  by (simp add: advance_def)

lemma read_byte_Cons: "before s (b # bs) \<Longrightarrow> read_byte s = (Some b, advance 1 s)"
  by (auto simp: before_def read_byte_def advance_def)

lemma before_tl: "before s (b # bs) \<Longrightarrow> before (advance 1 s) bs"
  using before_advance [of s "[b]" bs] by simp

lemma skip_append: "before s (xs @ ys) \<Longrightarrow> n = length xs \<Longrightarrow> skip n s = advance n s"
  by (auto simp: before_def skip_def advance_def)

lemma read_slice_append: "before s (xs @ ys) \<Longrightarrow> n = length xs \<Longrightarrow> read_slice n s = (Some xs, advance n s)"
  by (auto simp: before_def read_slice_def advance_def Let_def)

fun leb_group :: "byte list \<Rightarrow> bool" where
  "leb_group [] \<longleftrightarrow> False"
| "leb_group [b] \<longleftrightarrow> b AND 0x80 = 0"
| "leb_group (b # bs) \<longleftrightarrow> b AND 0x80 \<noteq> 0 \<and> leb_group bs"

lemma skip_leb128_group: "leb_group g \<Longrightarrow> before s (g @ bs) \<Longrightarrow> skip_leb128 s = advance (length g) s"
proof (induction g arbitrary: s rule: leb_group.induct)
  case (2 b)
  then show ?case by (simp add: skip_leb128.simps [of s] read_byte_Cons)
next
  case (3 b c cs)
  then have "skip_leb128 (advance 1 s) = advance (length (c # cs)) (advance 1 s)" by (intro 3(1)) (use before_tl [of s b] 3(3) 3(2) in auto)
  with 3(2,3) show ?case by (simp add: skip_leb128.simps [of s] read_byte_Cons)
qed simp

fun leb :: "nat \<Rightarrow> byte list" where
  "leb n = (if n < 128 then [word_of_nat n] else word_of_nat (n mod 128 + 128) # leb (n div 128))"

declare leb.simps [simp del]

lemma high_bit: "(b :: byte) AND 0x80 = 0 \<longleftrightarrow> unat b < 128"
proof -
  have "b AND 0x80 = 0 \<longleftrightarrow> \<not> bit b 7" using and_exp_eq_0_iff_not_bit [of b 7] by simp
  also have "bit b 7 = bit (unat b) 7" by (simp add: bit_unsigned_iff)
  also have "(\<not> \<dots>) \<longleftrightarrow> unat b div 128 mod 2 = 0" by (simp add: bit_iff_odd even_iff_mod_2_eq_zero del: bit_unsigned_iff)
  also have "\<dots> \<longleftrightarrow> unat b < 128"
  proof -
    have "unat b < 256" using unsigned_less [of b, where ?'a = nat] by simp
    then have "unat b div 128 mod 2 = unat b div 128" by (intro mod_less) (simp add: less_mult_imp_div_less)
    then show ?thesis by (simp add: div_eq_0_iff)
  qed
  finally show ?thesis .
qed

lemma low_bits: "(ucast ((word_of_nat k :: byte) AND 0x7F) :: 64 word) = word_of_nat (k mod 128)"
proof -
  have mask: "(x :: byte) AND 0x7F = take_bit 7 x" for x by (simp add: take_bit_eq_mask mask_eq_exp_minus_1)
  have "take_bit 7 (word_of_nat k :: byte) = word_of_nat (k mod 128)"
    by (rule word_unat_eq_iff [THEN iffD2], unfold unsigned_take_bit_eq, unfold take_bit_eq_mod)
      (simp add: unat_of_nat mod_mod_cancel del: of_nat_mod)
  then show ?thesis unfolding mask using mod_less_divisor [of 128 k]
    by (simp add: unsigned_of_nat take_bit_eq_mod del: of_nat_mod)
qed

lemma leb_high: "m < 128 \<Longrightarrow> (word_of_nat m :: byte) AND 0x80 = 0" "m < 128 \<Longrightarrow> (word_of_nat (m + 128) :: byte) AND 0x80 \<noteq> 0"
  by (simp_all add: high_bit unat_of_nat del: of_nat_add)

lemma leb_group_leb [simp]: "leb_group (leb n)"
proof (induction n rule: leb.induct)
  case (1 n)
  show ?case
  proof (cases "n < 128")
    case False
    with 1 have g: "leb_group (leb (n div 128))" by simp
    then obtain c cs where "leb (n div 128) = c # cs" by (cases "leb (n div 128)") auto
    with g False show ?thesis using leb_high(2) [of "n mod 128"] by (simp add: leb.simps [of n] del: of_nat_add)
  qed (simp add: leb.simps [of n] leb_high)
qed

lemma leb_neq_Nil [simp]: "leb n \<noteq> []"
  by (simp add: leb.simps [of n])

lemma leb_split: "(word_of_nat n :: 64 word) = word_of_nat (n mod 128) OR push_bit 7 (word_of_nat (n div 128))"
proof -
  have "n = push_bit 7 (drop_bit 7 n) + take_bit 7 n" by (simp add: bits_ident)
  also have "\<dots> = take_bit 7 n OR push_bit 7 (drop_bit 7 n)"
    by (subst disjunctive_add) (auto simp: bit_simps or.commute)
  finally have "n = take_bit 7 n OR push_bit 7 (drop_bit 7 n)" .
  then have "(word_of_nat n :: 64 word) = word_of_nat (take_bit 7 n OR push_bit 7 (drop_bit 7 n))" by simp
  then show ?thesis by (simp add: of_nat_or_eq of_nat_push_bit take_bit_eq_mod drop_bit_eq_div)
qed

lemma read_leb128_loop_leb:
  "n < 2 ^ (64 - shift) \<Longrightarrow> shift < 64 \<Longrightarrow> before s (leb n @ bs)    \<Longrightarrow> read_leb128_loop r shift s = (Some (r OR push_bit shift (word_of_nat n)), advance (length (leb n)) s)"
proof (induction n arbitrary: r shift s rule: leb.induct)
  case (1 n)
  show ?case
  proof (cases "n < 128")
    case True
    with 1(4) have "read_byte s = (Some (word_of_nat n), advance 1 s)" by (simp add: leb.simps [of n] read_byte_Cons)
    with True show ?thesis by (simp add: read_leb128_loop.simps [of r] leb.simps [of n] leb_high(1) [simplified] low_bits Let_def)
  next
    case False
    then have e: "leb n = word_of_nat (n mod 128 + 128) # leb (n div 128)" by (simp add: leb.simps [of n])
    have sh: "shift < 57"
    proof (rule ccontr)
      assume "\<not> shift < 57"
      then have "(2::nat) ^ (64 - shift) \<le> 2 ^ 7" by (intro power_increasing) auto
      with 1(2) False show False by simp
    qed
    have "n div 128 < 2 ^ (64 - (shift + 7))"
    proof -
      have "(2::nat) ^ (64 - shift) = 2 ^ (64 - (shift + 7)) * 128" using sh
        using power_add [of "2 :: nat" "57 - shift" 7] by simp
      with 1(2) show ?thesis by (simp add: less_mult_imp_div_less)
    qed
    with 1(1) [OF False, of "shift + 7" "advance 1 s"] sh before_tl [of s] 1(4) e
    have IH: "read_leb128_loop r' (shift + 7) (advance 1 s)
        = (Some (r' OR push_bit (shift + 7) (word_of_nat (n div 128))), advance (length (leb (n div 128))) (advance 1 s))" for r'
      by simp
    have rb: "read_byte s = (Some (word_of_nat (n mod 128 + 128)), advance 1 s)" using 1(4) e by (simp add: read_byte_Cons)
    have m: "n mod 128 < 128" by simp
    show ?thesis
      using rb IH sh leb_high(2) [OF m] low_bits [of "n mod 128 + 128"]
      by (simp del: of_nat_add of_nat_mod add: read_leb128_loop.simps [of r] Let_def e leb_split [of n] push_bit_or push_bit_push_bit or.assoc add.commute)
  qed
qed

lemma read_leb128_u32_leb:
  assumes "n < 2 ^ 32" "before s (leb n @ bs)"
  shows "read_leb128_u32 s = (Some (word_of_nat n), advance (length (leb n)) s)"
proof -
  have "read_leb128_loop 0 0 s = (Some (0 OR push_bit 0 (word_of_nat n)), advance (length (leb n)) s)"
    using assms by (intro read_leb128_loop_leb) auto
  moreover have "ucast (word_of_nat n :: 64 word) = (word_of_nat n :: 32 word)" using assms(1)
    by (simp add: unsigned_of_nat take_bit_eq_mod del: of_nat_mod)
  ultimately show ?thesis by (simp add: read_leb128_u32_def read_leb128_u64_def)
qed

lemma or_else_Some [simp]: "or_else d (Some v, s) = (v, s)"
  by (simp add: or_else_def)

lemma try_read_simps [simp]: "try_read (Some v, s) f = f v s" "try_read (None, s) f = None"
  by (simp_all add: try_read_def)

section \<open>Modules\<close>

text \<open>Modules as lists of sections, with their encoding. The payload of the other sections does not matter.\<close>

datatype limits = MinOnly nat | MinMax nat nat

datatype import_desc = ImpFunc nat | ImpTable byte limits | ImpMemory limits | ImpGlobal byte bool

datatype wasm_section =
    Imports "(byte list \<times> byte list \<times> import_desc) list"
  | Exports "(byte list \<times> byte \<times> nat) list"
  | Code "byte list list"
  | OtherSection byte "byte list"

fun limits_bytes :: "limits \<Rightarrow> byte list" where
  "limits_bytes (MinOnly a) = 0 # leb a"
| "limits_bytes (MinMax a b) = 1 # leb a @ leb b"

fun desc_bytes :: "import_desc \<Rightarrow> byte list" where
  "desc_bytes (ImpFunc t) = 0 # leb t"
| "desc_bytes (ImpTable t l) = 1 # t # limits_bytes l"
| "desc_bytes (ImpMemory l) = 2 # limits_bytes l"
| "desc_bytes (ImpGlobal t m) = [3, t, if m then 1 else 0]"

definition name_bytes :: "byte list \<Rightarrow> byte list" where
  "name_bytes n = leb (length n) @ n"

definition import_bytes :: "byte list \<times> byte list \<times> import_desc \<Rightarrow> byte list" where
  "import_bytes = (\<lambda>(m, f, d). name_bytes m @ name_bytes f @ desc_bytes d)"

definition export_bytes :: "byte list \<times> byte \<times> nat \<Rightarrow> byte list" where
  "export_bytes = (\<lambda>(n, k, i). name_bytes n @ k # leb i)"

definition vec_bytes :: "('a \<Rightarrow> byte list) \<Rightarrow> 'a list \<Rightarrow> byte list" where
  "vec_bytes f xs = leb (length xs) @ concat (map f xs)"

fun section_id_of :: "wasm_section \<Rightarrow> byte" where
  "section_id_of (Imports _) = 2"
| "section_id_of (Exports _) = 7"
| "section_id_of (Code _) = 10"
| "section_id_of (OtherSection i _) = i"

fun payload :: "wasm_section \<Rightarrow> byte list" where
  "payload (Imports is) = vec_bytes import_bytes is"
| "payload (Exports es) = vec_bytes export_bytes es"
| "payload (Code bs) = vec_bytes name_bytes bs"
| "payload (OtherSection _ bs) = bs"

definition section_bytes :: "wasm_section \<Rightarrow> byte list" where
  "section_bytes sec = section_id_of sec # name_bytes (payload sec)"

definition module_bytes :: "wasm_section list \<Rightarrow> byte list" where
  "module_bytes secs = [0x00, 0x61, 0x73, 0x6D, 1, 0, 0, 0] @ concat (map section_bytes secs)"

text \<open>Sizes and indices have 32 bits, and only the three kinds of section carry their identifiers.\<close>

fun section_ok :: "wasm_section \<Rightarrow> bool" where
  "section_ok (Exports es) \<longleftrightarrow> length (payload (Exports es)) < 2 ^ 32 \<and> (\<forall>e \<in> set es. snd (snd e) < 2 ^ 32)"
| "section_ok (OtherSection i bs) \<longleftrightarrow> length bs < 2 ^ 32 \<and> i \<notin> {2, 7, 10}"
| "section_ok sec \<longleftrightarrow> length (payload sec) < 2 ^ 32"

text \<open>The function imports, the last export of a name and the last code section; the body they determine.\<close>

fun func_imports :: "wasm_section \<Rightarrow> nat" where
  "func_imports (Imports is) = length (filter (\<lambda>(_, _, d). case d of ImpFunc _ \<Rightarrow> True | _ \<Rightarrow> False) is)"
| "func_imports _ = 0"

fun exports_of :: "wasm_section \<Rightarrow> (byte list \<times> byte \<times> nat) list" where
  "exports_of (Exports es) = es"
| "exports_of _ = []"

fun bodies_of :: "wasm_section \<Rightarrow> byte list list option" where
  "bodies_of (Code bs) = Some bs"
| "bodies_of _ = None"

definition exported_index :: "byte list \<Rightarrow> (byte list \<times> byte \<times> nat) list \<Rightarrow> nat option" where
  "exported_index name es = (let hits = filter (\<lambda>(n, k, _). n = name \<and> k = 0) es in if hits = [] then None else Some (snd (snd (last hits))))"

definition code_bodies :: "wasm_section list \<Rightarrow> byte list list option" where
  "code_bodies secs = (let cs = List.map_filter bodies_of secs in if cs = [] then None else Some (last cs))"

definition function_body :: "byte list \<Rightarrow> wasm_section list \<Rightarrow> byte list option" where
  "function_body name secs =
     (let imported = sum_list (map func_imports secs) in
      case (exported_index name (concat (map exports_of secs)), code_bodies secs) of
        (Some i, Some bodies) \<Rightarrow> if imported \<le> i \<and> i - imported < length bodies then Some (bodies ! (i - imported)) else None
      | _ \<Rightarrow> None)"

section \<open>The search for a body\<close>

lemma read_leb: "before s (leb n @ bs) \<Longrightarrow> n < 2 ^ 32 \<Longrightarrow> \<exists>s1. read_leb128_u32 s = (Some (word_of_nat n), s1) \<and> before s1 bs"
  using read_leb128_u32_leb [of n s bs] before_advance [of s "leb n" bs] by auto

lemma unat_small: "n < 2 ^ 32 \<Longrightarrow> unat (word_of_nat n :: 32 word) = n"
  by (simp add: unsigned_of_nat take_bit_eq_mod)

lemma skip_leb: "before s (leb n @ bs) \<Longrightarrow> before (skip_leb128 s) bs"
  using skip_leb128_group [of "leb n" s bs] before_advance [of s "leb n" bs] by auto

lemma skip_one: "before s (b # bs) \<Longrightarrow> before (skip 1 s) bs"
  using skip_append [of s "[b]" bs 1] before_tl by simp

lemma skip_name: "before s (n @ bs) \<Longrightarrow> before (skip (length n) s) bs"
  using skip_append [of s n bs] before_advance by simp

lemma read_name: "before s (n @ bs) \<Longrightarrow> \<exists>s1. read_slice (length n) s = (Some n, s1) \<and> before s1 bs"
  using read_slice_append [of s n bs] before_advance by simp

lemma read_one: "before s (b # bs) \<Longrightarrow> \<exists>s1. read_byte s = (Some b, s1) \<and> before s1 bs"
  using read_byte_Cons before_tl by blast

lemma skip_limits_bytes: "before s (limits_bytes l @ bs) \<Longrightarrow> before (skip_limits s) bs"
proof (cases l)
  case (MinOnly a)
  moreover assume "before s (limits_bytes l @ bs)"
  ultimately obtain s1 where "read_byte s = (Some 0, s1)" "before s1 (leb a @ bs)" using read_one [of s 0] by auto
  then show ?thesis by (simp add: skip_limits_def skip_leb)
next
  case (MinMax a b)
  moreover assume "before s (limits_bytes l @ bs)"
  ultimately obtain s1 where "read_byte s = (Some 1, s1)" "before s1 (leb a @ leb b @ bs)" using read_one [of s 1] by auto
  then show ?thesis by (simp add: skip_limits_def) (blast intro: skip_leb)
qed

lemma import_loop_bytes:
  "before s (concat (map import_bytes is) @ bs) \<Longrightarrow> \<forall>(m, f, d) \<in> set is. length m < 2 ^ 32 \<and> length f < 2 ^ 32
    \<Longrightarrow> import_loop (length is) c s = c + func_imports (Imports is)"
proof (induction "is" arbitrary: c s)
  case (Cons x "is")
  obtain m f d where x: "x = (m, f, d)" by (metis prod.exhaust)
  let ?rest = "concat (map import_bytes is) @ bs"
  from Cons.prems x have len: "length m < 2 ^ 32" "length f < 2 ^ 32" by auto
  from Cons.prems(1) x have b0: "before s (leb (length m) @ m @ leb (length f) @ f @ desc_bytes d @ ?rest)"
    by (simp add: import_bytes_def name_bytes_def)
  from read_leb [OF this len(1)] obtain s1 where r1: "read_leb128_u32 s = (Some (word_of_nat (length m)), s1)"
    and b1: "before s1 (m @ leb (length f) @ f @ desc_bytes d @ ?rest)" by auto
  from read_leb [OF skip_name [OF b1] len(2)] obtain s2 where
    r2: "read_leb128_u32 (skip (length m) s1) = (Some (word_of_nat (length f)), s2)" and b2: "before s2 (f @ desc_bytes d @ ?rest)" by auto
  note b3 = skip_name [OF b2]
  note IH = Cons.IH [OF _ Cons.prems(2) [unfolded list.set ball_simps, THEN conjunct2]]
  show ?case
  proof (cases d)
    case (ImpFunc t)
    with b3 obtain s3 where "read_byte (skip (length f) s2) = (Some 0, s3)" "before s3 (leb t @ ?rest)"
      using read_one [of _ 0] by auto
    with IH [OF skip_leb] r1 r2 x ImpFunc len show ?thesis by (simp add: unat_small)
  next
    case (ImpTable t l)
    with b3 obtain s3 where "read_byte (skip (length f) s2) = (Some 1, s3)" "before s3 (t # limits_bytes l @ ?rest)"
      using read_one [of _ 1] by auto
    with IH [OF skip_limits_bytes [OF skip_one]] r1 r2 x ImpTable len show ?thesis by (simp add: unat_small)
  next
    case (ImpMemory l)
    with b3 obtain s3 where "read_byte (skip (length f) s2) = (Some 2, s3)" "before s3 (limits_bytes l @ ?rest)"
      using read_one [of _ 2] by auto
    with IH [OF skip_limits_bytes] r1 r2 x ImpMemory len show ?thesis by (simp add: unat_small)
  next
    case (ImpGlobal t mu)
    with b3 obtain s3 where r3: "read_byte (skip (length f) s2) = (Some 3, s3)" and "before s3 (t # (if mu then 1 else 0) # ?rest)"
      using read_one [of _ 3] by auto
    from skip_one [OF this(2)] have "before (skip 1 s3) (leb (if mu then 1 else 0) @ ?rest)" by (cases mu) (simp_all add: leb.simps)
    with r3 IH [OF skip_leb] r1 r2 x ImpGlobal len show ?thesis by (simp add: unat_small)
  qed
qed simp

text \<open>One export, and the index that a list of exports leaves.\<close>

definition pick :: "byte list \<Rightarrow> (byte list \<times> byte \<times> nat) list \<Rightarrow> 32 word option \<Rightarrow> 32 word option" where
  "pick name es found = (case exported_index name es of None \<Rightarrow> found | Some i \<Rightarrow> Some (word_of_nat i))"

lemma pick_simps [simp]:
  "pick name [] found = found"
  "pick name ((n, k, i) # es) found = pick name es (if k = 0 \<and> n = name then Some (word_of_nat i) else found)"
  by (auto simp: pick_def exported_index_def Let_def)

lemma pick_append: "pick name (es @ es') found = pick name es' (pick name es found)"
  by (auto simp: pick_def exported_index_def Let_def)

lemma export_loop_bytes:
  "before s (concat (map export_bytes es) @ bs) \<Longrightarrow> \<forall>(n, k, i) \<in> set es. length n < 2 ^ 32 \<and> i < 2 ^ 32
    \<Longrightarrow> export_loop name (length es) found s = Some (pick name es found)"
proof (induction es arbitrary: found s)
  case (Cons x es)
  obtain n k i where x: "x = (n, k, i)" by (metis prod.exhaust)
  let ?rest = "concat (map export_bytes es) @ bs"
  from Cons.prems x have len: "length n < 2 ^ 32" "i < 2 ^ 32" by auto
  from Cons.prems(1) x have "before s (leb (length n) @ n @ k # leb i @ ?rest)" by (simp add: export_bytes_def name_bytes_def)
  from read_leb [OF this len(1)] obtain s1 where r1: "read_leb128_u32 s = (Some (word_of_nat (length n)), s1)"
    and b1: "before s1 (n @ k # leb i @ ?rest)" by auto
  from read_name [OF b1] obtain s2 where r2: "read_slice (length n) s1 = (Some n, s2)" and b2: "before s2 (k # leb i @ ?rest)" by auto
  from read_one [OF b2] obtain s3 where r3: "read_byte s2 = (Some k, s3)" and b3: "before s3 (leb i @ ?rest)" by auto
  from read_leb [OF b3 len(2)] obtain s4 where r4: "read_leb128_u32 s3 = (Some (word_of_nat i), s4)" and b4: "before s4 ?rest" by auto
  from Cons.IH [OF b4] Cons.prems(2) r1 r2 r3 r4 x len show ?case by (simp add: unat_small EXPORT_KIND_FUNC_def)
qed simp

text \<open>A section as the loop records it.\<close>

definition record_section :: "byte list \<Rightarrow> wasm_section \<Rightarrow> wasm_index \<Rightarrow> wasm_index" where
  "record_section name sec w =
     w\<lparr>import_func_count := import_func_count w + func_imports sec,
       export_func_index := pick name (exports_of sec) (export_func_index w),
       code_section_data := (case sec of Code _ \<Rightarrow> Some (payload sec) | _ \<Rightarrow> code_section_data w)\<rparr>"

lemma length_concat_map: "x \<in> set xs \<Longrightarrow> length (f x) \<le> length (concat (map f xs))"
  by (induction xs) auto

lemma count_le_concat: "\<forall>x \<in> set xs. f x \<noteq> [] \<Longrightarrow> length xs \<le> length (concat (map f xs))"
proof (induction xs)
  case (Cons x xs)
  then have "1 \<le> length (f x)" by (cases "f x") auto
  with Cons show ?case by simp
qed simp

lemma read_vec:
  assumes "length (vec_bytes f xs) < 2 ^ 32" "\<And>x. f x \<noteq> []"
  shows "\<exists>s. read_leb128_u32 (scanner_new (vec_bytes f xs)) = (Some (word_of_nat (length xs)), s) \<and> before s (concat (map f xs))
     \<and> unat (word_of_nat (length xs) :: 32 word) = length xs"
proof -
  have "length xs < 2 ^ 32" using count_le_concat [of xs f] assms by (simp add: vec_bytes_def)
  then show ?thesis using read_leb [of "scanner_new (vec_bytes f xs)" "length xs" "concat (map f xs)"] unat_small
    by (simp add: vec_bytes_def)
qed

lemma read_section_payload:
  assumes "section_ok sec"
  shows "read_section name (section_id_of sec) (payload sec) w = Some (record_section name sec w)"
proof (cases sec)
  case (Imports "is")
  have ne: "import_bytes x \<noteq> []" for x by (cases x) (simp add: import_bytes_def name_bytes_def)
  from assms Imports have size: "length (vec_bytes import_bytes is) < 2 ^ 32" by simp
  from read_vec [OF size ne] obtain s where r: "read_leb128_u32 (scanner_new (vec_bytes import_bytes is)) = (Some (word_of_nat (length is)), s)"
    and b: "before s (concat (map import_bytes is))" and u: "unat (word_of_nat (length is) :: 32 word) = length is" by auto
  have "\<forall>(m, f, d) \<in> set is. length m < 2 ^ 32 \<and> length f < 2 ^ 32"
  proof clarify
    fix m f d assume "(m, f, d) \<in> set is"
    from length_concat_map [OF this, of import_bytes] size show "length m < 2 ^ 32 \<and> length f < 2 ^ 32"
      by (simp add: vec_bytes_def import_bytes_def name_bytes_def)
  qed
  from import_loop_bytes [of s "is" "[]", OF _ this] b r u Imports show ?thesis
    by (simp add: read_section_def section_ids record_section_def)
next
  case (Exports es)
  have ne: "export_bytes x \<noteq> []" for x by (cases x) (simp add: export_bytes_def name_bytes_def)
  from assms Exports have size: "length (vec_bytes export_bytes es) < 2 ^ 32" by simp
  from read_vec [OF size ne] obtain s where r: "read_leb128_u32 (scanner_new (vec_bytes export_bytes es)) = (Some (word_of_nat (length es)), s)"
    and b: "before s (concat (map export_bytes es))" and u: "unat (word_of_nat (length es) :: 32 word) = length es" by auto
  have "\<forall>(n, k, i) \<in> set es. length n < 2 ^ 32 \<and> i < 2 ^ 32"
  proof clarify
    fix n k i assume x: "(n, k, i) \<in> set es"
    from length_concat_map [OF x, of export_bytes] size assms Exports x show "length n < 2 ^ 32 \<and> i < 2 ^ 32"
      by (auto simp: vec_bytes_def export_bytes_def name_bytes_def)
  qed
  from export_loop_bytes [of s es "[]", OF _ this] b r u Exports show ?thesis
    by (simp add: read_section_def section_ids record_section_def)
qed (use assms in \<open>auto simp: read_section_def section_ids record_section_def\<close>)

lemma section_loop_bytes:
  "before s (concat (map section_bytes secs)) \<Longrightarrow> list_all section_ok secs
    \<Longrightarrow> section_loop name w s = Some (fold (record_section name) secs w)"
proof (induction secs arbitrary: s w)
  case Nil
  then show ?case by (simp add: section_loop.simps [of name w s] before_remaining)
next
  case (Cons sec secs)
  let ?rest = "concat (map section_bytes secs)"
  from Cons.prems have ok: "section_ok sec" by simp
  then have len: "length (payload sec) < 2 ^ 32" by (cases sec) auto
  from Cons.prems(1) have b0: "before s (section_id_of sec # leb (length (payload sec)) @ payload sec @ ?rest)"
    by (simp add: section_bytes_def [of sec] name_bytes_def [of "payload sec"])
  from read_one [OF b0] obtain s1 where r1: "read_byte s = (Some (section_id_of sec), s1)"
    and b1: "before s1 (leb (length (payload sec)) @ payload sec @ ?rest)" by auto
  from read_leb [OF b1 len] obtain s2 where r2: "read_leb128_u32 s1 = (Some (word_of_nat (length (payload sec))), s2)"
    and b2: "before s2 (payload sec @ ?rest)" by auto
  from read_name [OF b2] obtain s3 where r3: "read_slice (length (payload sec)) s2 = (Some (payload sec), s3)" and b3: "before s3 ?rest" by auto
  from Cons.IH [OF b3] Cons.prems(2) r1 r2 r3 before_remaining [OF b0] unat_small [OF len] read_section_payload [OF ok] show ?case
    by (simp add: section_loop.simps [of name w s])
qed

lemma body_loop_bytes:
  "before s (concat (map name_bytes bodies)) \<Longrightarrow> \<forall>b \<in> set bodies. length b < 2 ^ 32 \<Longrightarrow> i < length bodies
    \<Longrightarrow> body_loop i s = Some (bodies ! i)"
proof (induction i arbitrary: s bodies)
  case 0
  then obtain b bs where bodies: "bodies = b # bs" by (cases bodies) auto
  with 0 have "before s (leb (length b) @ b @ concat (map name_bytes bs))" and l: "length b < 2 ^ 32" by (simp_all add: name_bytes_def [of b])
  from read_leb [OF this] obtain s1 where "read_leb128_u32 s = (Some (word_of_nat (length b)), s1)"
    and "before s1 (b @ concat (map name_bytes bs))" by auto
  with read_name [OF this(2)] unat_small [OF l] bodies show ?case by auto
next
  case (Suc i)
  then obtain b bs where bodies: "bodies = b # bs" by (cases bodies) auto
  with Suc.prems have "before s (leb (length b) @ b @ concat (map name_bytes bs))" and l: "length b < 2 ^ 32" by (simp_all add: name_bytes_def [of b])
  from read_leb [OF this] obtain s1 where "read_leb128_u32 s = (Some (word_of_nat (length b)), s1)"
    and "before s1 (b @ concat (map name_bytes bs))" by auto
  with Suc.IH [OF skip_name [OF this(2)]] Suc.prems unat_small [OF l] bodies show ?case by auto
qed

lemma code_bodies_simps [simp]:
  "code_bodies [] = None"
  "code_bodies (sec # secs) = (case code_bodies secs of None \<Rightarrow> bodies_of sec | Some bs \<Rightarrow> Some bs)"
  by (auto simp: code_bodies_def Let_def List.map_filter_def split: option.splits)

lemma fold_record_section:
  "fold (record_section name) secs w =
     w\<lparr>import_func_count := import_func_count w + sum_list (map func_imports secs),
       export_func_index := pick name (concat (map exports_of secs)) (export_func_index w),
       code_section_data := (case code_bodies secs of None \<Rightarrow> code_section_data w | Some bs \<Rightarrow> Some (payload (Code bs)))\<rparr>"
proof (induction secs arbitrary: w)
  case (Cons sec secs)
  then show ?case by (cases sec) (simp_all add: record_section_def pick_append split: option.splits)
qed simp

lemma exported_index_bound:
  assumes "list_all section_ok secs" "exported_index name (concat (map exports_of secs)) = Some i"
  shows "i < 2 ^ 32"
proof -
  let ?es = "concat (map exports_of secs)"
  from assms(2) have ne: "filter (\<lambda>(n, k, _). n = name \<and> k = 0) ?es \<noteq> []"
    and i: "i = snd (snd (last (filter (\<lambda>(n, k, _). n = name \<and> k = 0) ?es)))"
    by (auto simp: exported_index_def Let_def split: if_splits)
  have "set (filter (\<lambda>(n, k, _). n = name \<and> k = 0) ?es) \<subseteq> set ?es" by auto
  with last_in_set [OF ne] i obtain x where "x \<in> set ?es" and x: "i = snd (snd x)" by blast
  then obtain sec where "sec \<in> set secs" "x \<in> set (exports_of sec)" by auto
  with assms(1) x show ?thesis by (cases sec) (auto simp: list_all_iff)
qed

lemma code_bodies_mem: "code_bodies secs = Some bs \<Longrightarrow> Code bs \<in> set secs"
proof (induction secs)
  case (Cons sec secs)
  then show ?case by (cases sec) (auto split: option.splits)
qed simp

lemma extract_from_module:
  assumes "list_all section_ok secs"
  shows "extract_function_body (module_bytes secs) name = function_body name secs"
proof -
  let ?enc = "concat (map section_bytes secs)" and ?w = "\<lparr>import_func_count = 0, export_func_index = None, code_section_data = None\<rparr>"
  have b0: "before (scanner_new (module_bytes secs)) ([0x00, 0x61, 0x73, 0x6D] @ [1, 0, 0, 0] @ ?enc)" by (simp add: module_bytes_def)
  from read_slice_append [OF this, of 4] before_advance [OF this, of 4] obtain s1 where r1: "read_slice 4 (scanner_new (module_bytes secs)) = (Some [0x00, 0x61, 0x73, 0x6D], s1)"
    and b1: "before s1 ([1, 0, 0, 0] @ ?enc)" by auto
  from read_slice_append [OF b1, of 4] before_advance [OF b1, of 4] obtain s2 where r2: "read_slice 4 s1 = (Some [1, 0, 0, 0], s2)" and b2: "before s2 ?enc" by auto
  note loop = section_loop_bytes [OF b2 assms, of name ?w, unfolded fold_record_section]
  have start: "extract_function_body (module_bytes secs) name =
    (case pick name (concat (map exports_of secs)) None of None \<Rightarrow> None
     | Some f \<Rightarrow> if unat f < sum_list (map func_imports secs) then None
         else case code_bodies secs of None \<Rightarrow> None
              | Some bs \<Rightarrow> try_read (read_leb128_u32 (scanner_new (payload (Code bs)))) (\<lambda>c code.
                  if unat f - sum_list (map func_imports secs) \<ge> unat c then None
                  else body_loop (unat f - sum_list (map func_imports secs)) code))"
    using r1 r2 loop by (simp add: extract_function_body_def Let_def split: option.splits)
  show ?thesis
  proof (cases "exported_index name (concat (map exports_of secs))")
    case None
    with start show ?thesis by (simp add: pick_def function_body_def)
  next
    case (Some i)
    have i: "unat (word_of_nat i :: 32 word) = i" by (rule unat_small [OF exported_index_bound [OF assms Some]])
    show ?thesis
    proof (cases "code_bodies secs")
      case None
      with Some start show ?thesis by (simp add: pick_def function_body_def)
    next
      case (Some bs)
      from code_bodies_mem [OF this] assms have size: "length (vec_bytes name_bytes bs) < 2 ^ 32" by (auto simp: list_all_iff)
      have "name_bytes b \<noteq> []" for b by (simp add: name_bytes_def)
      from read_vec [OF size this] obtain s where r: "read_leb128_u32 (scanner_new (vec_bytes name_bytes bs)) = (Some (word_of_nat (length bs)), s)"
        and b: "before s (concat (map name_bytes bs))" and u: "unat (word_of_nat (length bs) :: 32 word) = length bs" by auto
      have "length b < 2 ^ 32" if "b \<in> set bs" for b
        using length_concat_map [OF that, of name_bytes] size by (simp add: vec_bytes_def name_bytes_def [of b])
      with body_loop_bytes [OF b] Some \<open>exported_index _ _ = Some i\<close> start i r u show ?thesis
        by (simp add: pick_def function_body_def not_le not_less)
    qed
  qed
qed

section \<open>The scan of any bytes\<close>

text \<open>What every step of the scan keeps: identifiers number the branches, the categories count them, no branch is deeper than the recorded maximum.\<close>

definition tally :: "branch_type \<Rightarrow> branch_info list \<Rightarrow> nat" where
  "tally t bs = length (filter (\<lambda>b. branch_type b = t) bs)"

definition scan_sound :: "scan_accumulator \<Rightarrow> bool" where
  "scan_sound acc \<longleftrightarrow> map branch_id (branches acc) = [0..<length (branches acc)]
     \<and> breakdown acc = \<lparr>conditionals = tally Conditional (branches acc), loops = tally Loop (branches acc), branch_ifs = tally BranchIf (branches acc),
          branch_tables = tally BranchTable (branches acc), early_returns = tally EarlyReturn (branches acc)\<rparr>
     \<and> (\<forall>b \<in> set (branches acc). nesting_depth b \<le> max_depth acc)"

definition locals_sound :: "scan_locals \<Rightarrow> bool" where
  "locals_sound l \<longleftrightarrow> scan_sound (sl_acc l) \<and> sl_branch_id l = length (branches (sl_acc l)) \<and> sl_depth l \<le> max_depth (sl_acc l)"

lemma enter_sound: "locals_sound l \<Longrightarrow> locals_sound (enter l)"
  by (auto simp: locals_sound_def scan_sound_def enter_def)

lemma push_branch_sound:
  assumes "locals_sound l" "count = (case t of Conditional \<Rightarrow> \<lambda>b. b\<lparr>conditionals := conditionals b + 1\<rparr> | Loop \<Rightarrow> \<lambda>b. b\<lparr>loops := loops b + 1\<rparr>
    | BranchIf \<Rightarrow> \<lambda>b. b\<lparr>branch_ifs := branch_ifs b + 1\<rparr> | BranchTable \<Rightarrow> \<lambda>b. b\<lparr>branch_tables := branch_tables b + 1\<rparr>
    | EarlyReturn \<Rightarrow> \<lambda>b. b\<lparr>early_returns := early_returns b + 1\<rparr>)"
  shows "locals_sound (push_branch t d count l)"
  using assms by (cases t) (auto simp: locals_sound_def scan_sound_def push_branch_def tally_def Let_def)

lemma scan_opcode_sound:
  assumes "scan_opcode oc opcode s l = Some (s1, l1)" "locals_sound l"
  shows "locals_sound l1"
proof -
  have "locals_sound (l\<lparr>sl_depth := sl_depth l - 1\<rparr>)" using assms(2) by (auto simp: locals_sound_def)
  with assms(2) enter_sound [OF assms(2)] show ?thesis using assms(1)
    by (auto simp: scan_opcode_def Let_def split: if_splits prod.splits intro!: push_branch_sound)
qed

lemma scan_loop_sound: "scan_loop oc s l = Some acc \<Longrightarrow> locals_sound l \<Longrightarrow> scan_sound acc"
proof (induction oc s l rule: scan_loop.induct)
  case (1 oc s l)
  then show ?case
    by (auto simp: scan_loop.simps [of oc s l] locals_sound_def [of l] split: if_splits option.splits prod.splits dest: scan_opcode_sound)
qed

section \<open>The scan of encoded instructions\<close>

text \<open>
  Instructions as opcode and immediates: LEB-128 groups of any length, the table of a switch, the bytes of a float constant.
  \<open>immediates\<close> is the table of WebAssembly 1.0 with the sign extensions and the accesses to tables.
\<close>

datatype wasm_instr =
    Plain byte "byte list list"
  | Switch "byte list list" "byte list"
  | FloatConst byte "byte list"

definition immediates :: "byte \<Rightarrow> nat option" where
  "immediates op =
     (if op \<in> {0x02, 0x03, 0x04, 0x0C, 0x0D, 0x10, 0x3F, 0x40, 0x41, 0x42} \<or> 0x20 \<le> op \<and> op \<le> 0x26 then Some 1
      else if op = 0x11 \<or> 0x28 \<le> op \<and> op \<le> 0x3E then Some 2
      else if op \<in> {0x00, 0x01, 0x05, 0x0B, 0x0F, 0x1A, 0x1B} \<or> 0x45 \<le> op \<and> op \<le> 0xC4 then Some 0
      else None)"

fun instr_ok :: "wasm_instr \<Rightarrow> bool" where
  "instr_ok (Plain op gs) \<longleftrightarrow> immediates op = Some (length gs) \<and> list_all leb_group gs"
| "instr_ok (Switch ts d) \<longleftrightarrow> length ts < 2 ^ 32 - 1 \<and> list_all leb_group ts \<and> leb_group d"
| "instr_ok (FloatConst op bs) \<longleftrightarrow> op = 0x43 \<and> length bs = 4 \<or> op = 0x44 \<and> length bs = 8"

fun opcode_of :: "wasm_instr \<Rightarrow> byte" where
  "opcode_of (Plain op _) = op"
| "opcode_of (Switch _ _) = 0x0E"
| "opcode_of (FloatConst op _) = op"

fun operand_bytes :: "wasm_instr \<Rightarrow> byte list" where
  "operand_bytes (Plain _ gs) = concat gs"
| "operand_bytes (Switch ts d) = leb (length ts) @ concat ts @ d"
| "operand_bytes (FloatConst _ bs) = bs"

definition instr_bytes :: "wasm_instr \<Rightarrow> byte list" where
  "instr_bytes i = opcode_of i # operand_bytes i"

definition body_bytes :: "(nat \<times> byte) list \<Rightarrow> wasm_instr list \<Rightarrow> byte list" where
  "body_bytes locals is = vec_bytes (\<lambda>(n, t). leb n @ [t]) locals @ concat (map instr_bytes is)"

text \<open>The branches of a body and its depth, from the structure alone.\<close>

definition opens :: "byte \<Rightarrow> bool" where
  "opens op \<longleftrightarrow> op \<in> {0x02, 0x03, 0x04}"

definition depth_after :: "nat \<Rightarrow> byte \<Rightarrow> nat" where
  "depth_after d op = (if opens op then d + 1 else if op = 0x0B then d - 1 else d)"

definition branch_at :: "nat \<Rightarrow> byte \<Rightarrow> (branch_type \<times> nat) list" where
  "branch_at d op =
     (if op = 0x03 then [(Loop, d + 1)] else if op = 0x04 then [(Conditional, d + 1)] else if op = 0x0D then [(BranchIf, d)]
      else if op = 0x0E then [(BranchTable, d)] else if op = 0x0F \<and> d > 0 then [(EarlyReturn, d)] else [])"

fun branch_points :: "nat \<Rightarrow> byte list \<Rightarrow> (branch_type \<times> nat) list" where
  "branch_points d [] = []"
| "branch_points d (op # ops) = branch_at d op @ branch_points (depth_after d op) ops"

fun deepest :: "nat \<Rightarrow> byte list \<Rightarrow> nat" where
  "deepest d [] = 0"
| "deepest d (op # ops) = max (if opens op then d + 1 else 0) (deepest (depth_after d op) ops)"

definition view :: "scan_accumulator \<Rightarrow> (branch_type \<times> nat) list" where
  "view acc = map (\<lambda>b. (branch_type b, nesting_depth b)) (branches acc)"

definition follows :: "byte \<Rightarrow> scan_locals \<Rightarrow> scan_locals \<Rightarrow> bool" where
  "follows op l l1 \<longleftrightarrow> sl_depth l1 = depth_after (sl_depth l) op \<and> view (sl_acc l1) = view (sl_acc l) @ branch_at (sl_depth l) op
     \<and> max_depth (sl_acc l1) = max (max_depth (sl_acc l)) (if opens op then sl_depth l + 1 else 0)"

lemma scan_one_operand:
  assumes "0x20 \<le> op" "op \<le> 0x26"
  shows "scan_opcode oc op s l = Some (skip_leb128 s, l)"
proof -
  have ne: "op \<noteq> 0x02" "op \<noteq> 0x03" "op \<noteq> 0x04" "op \<noteq> 0x05" "op \<noteq> 0x0B" "op \<noteq> 0x0C" "op \<noteq> 0x0D" "op \<noteq> 0x0E" "op \<noteq> 0x0F" "op \<noteq> 0x10" "op \<noteq> 0x11" using assms(1) by auto
  have "op = 0x25 \<or> op = 0x26 \<or> op \<le> 0x24" using assms(2) by (auto simp: word_le_nat_alt word_unat_eq_iff)
  with assms(1) ne show ?thesis by (auto simp: scan_opcode_def opcodes)
qed

lemma scan_two_operands:
  assumes "0x28 \<le> op" "op \<le> 0x3E"
  shows "scan_opcode oc op s l = Some (skip_leb128 (skip_leb128 s), l)"
proof -
  have ne: "op \<noteq> 0x02" "op \<noteq> 0x03" "op \<noteq> 0x04" "op \<noteq> 0x05" "op \<noteq> 0x0B" "op \<noteq> 0x0C" "op \<noteq> 0x0D" "op \<noteq> 0x0E" "op \<noteq> 0x0F" "op \<noteq> 0x10" "op \<noteq> 0x11" "op \<noteq> 0x25" "op \<noteq> 0x26" using assms(1) by auto
  have "\<not> op \<le> 0x24" using assms(1) by (auto dest: order_trans)
  with assms ne show ?thesis by (simp add: scan_opcode_def opcodes)
qed

lemma scan_no_operand:
  assumes "0x45 \<le> op" "op \<le> 0xC4"
  shows "scan_opcode oc op s l = Some (s, l)"
proof -
  have ne: "op \<noteq> 0x02" "op \<noteq> 0x03" "op \<noteq> 0x04" "op \<noteq> 0x05" "op \<noteq> 0x0B" "op \<noteq> 0x0C" "op \<noteq> 0x0D" "op \<noteq> 0x0E" "op \<noteq> 0x0F" "op \<noteq> 0x10" "op \<noteq> 0x11" "op \<noteq> 0x25" "op \<noteq> 0x26" "op \<noteq> 0x3F" "op \<noteq> 0x40" "op \<noteq> 0x41" "op \<noteq> 0x42" "op \<noteq> 0x43" "op \<noteq> 0x44" using assms(1) by auto
  have "op \<noteq> 0xFC" "op \<noteq> 0xFD" using assms(2) by auto
  moreover have "\<not> op \<le> 0x24" "\<not> op \<le> 0x3E" using assms(1) by (auto dest: order_trans)
  ultimately show ?thesis using ne by (simp add: scan_opcode_def opcodes)
qed

lemma follows_same: "0x12 \<le> op \<Longrightarrow> follows op l l"
  by (auto simp: follows_def depth_after_def opens_def branch_at_def)

lemmas follow_defs = follows_def depth_after_def opens_def branch_at_def view_def enter_def push_branch_def Let_def

lemma scan_listed:
  "op \<in> {0x02, 0x03, 0x04, 0x0C, 0x0D, 0x10, 0x3F, 0x40, 0x41, 0x42} \<Longrightarrow> \<exists>l1. scan_opcode oc op s l = Some (skip_leb128 s, l1) \<and> follows op l l1"
  "op \<in> {0x00, 0x01, 0x05, 0x0B, 0x0F, 0x1A, 0x1B} \<Longrightarrow> \<exists>l1. scan_opcode oc op s l = Some (s, l1) \<and> follows op l l1"
  unfolding insert_iff empty_iff by (elim disjE FalseE; simp add: scan_opcode_def opcodes follow_defs word_le_nat_alt)+

lemma scan_plain:
  assumes "immediates op = Some k"
  shows "\<exists>l1. scan_opcode oc op s l = Some ((skip_leb128 ^^ k) s, l1) \<and> follows op l l1"
proof -
  have big: "0x20 \<le> op \<or> 0x28 \<le> op \<or> 0x45 \<le> op \<Longrightarrow> 0x12 \<le> op" by (auto intro: order.trans [rotated])
  have two: "(skip_leb128 ^^ 2) s = skip_leb128 (skip_leb128 s)" by (simp add: numeral_2_eq_2)
  from assms consider "op \<in> {0x02, 0x03, 0x04, 0x0C, 0x0D, 0x10, 0x3F, 0x40, 0x41, 0x42}" "k = 1" | "0x20 \<le> op" "op \<le> 0x26" "k = 1"
    | "op = 0x11" "k = 2" | "0x28 \<le> op" "op \<le> 0x3E" "k = 2"
    | "op \<in> {0x00, 0x01, 0x05, 0x0B, 0x0F, 0x1A, 0x1B}" "k = 0" | "0x45 \<le> op" "op \<le> 0xC4" "k = 0"
    unfolding immediates_def by (auto split: if_split_asm)
  then show ?thesis
  proof cases
    case 1
    with scan_listed(1) [of op oc s l] show ?thesis by simp
  next
    case 2
    with scan_one_operand [of op oc s l] follows_same [OF big] show ?thesis by simp
  next
    case 3
    then show ?thesis by (simp add: scan_opcode_def opcodes follow_defs two)
  next
    case 4
    with scan_two_operands [of op oc s l] follows_same [OF big] show ?thesis by (simp add: two)
  next
    case 5
    with scan_listed(2) [of op oc s l] show ?thesis by simp
  next
    case 6
    with scan_no_operand [of op oc s l] follows_same [OF big] show ?thesis by simp
  qed
qed

lemma skip_groups: "list_all leb_group gs \<Longrightarrow> before s (concat gs @ bs) \<Longrightarrow> before ((skip_leb128 ^^ length gs) s) bs"
proof (induction gs arbitrary: s)
  case (Cons g gs)
  then have "before (skip_leb128 s) (concat gs @ bs)"
    using skip_leb128_group [of g s "concat gs @ bs"] before_advance [of s g "concat gs @ bs"] by simp
  with Cons have "before ((skip_leb128 ^^ length gs) (skip_leb128 s)) bs" by simp
  then show ?case by (simp add: funpow_swap1)
qed simp

lemma scan_step:
  assumes "before s (operand_bytes i @ bs)" "instr_ok i"
  shows "\<exists>s1 l1. scan_opcode oc (opcode_of i) s l = Some (s1, l1) \<and> before s1 bs \<and> follows (opcode_of i) l l1"
proof (cases i)
  case (Plain op gs)
  with assms scan_plain [of op "length gs" oc s l] skip_groups [of gs s bs] show ?thesis by auto
next
  case (Switch ts d)
  with assms have n: "length ts < 2 ^ 32" and ok: "list_all leb_group (ts @ [d])" and b: "before s (leb (length ts) @ concat ts @ d @ bs)" by simp_all
  from read_leb [OF b n] obtain s1 where r: "read_leb128_u32 s = (Some (word_of_nat (length ts)), s1)" and b1: "before s1 (concat (ts @ [d]) @ bs)" by auto
  have ne: "(word_of_nat (length ts) :: 32 word) \<noteq> - 1"
  proof
    assume "(word_of_nat (length ts) :: 32 word) = - 1"
    then have "unat (word_of_nat (length ts) :: 32 word) = 2 ^ 32 - 1" by (simp add: unsigned_minus_1_eq_mask mask_eq_exp_minus_1)
    with unat_small [OF n] assms Switch show False by simp
  qed
  show ?thesis
    using skip_groups [OF ok b1] r ne unat_small [OF n] Switch
    by (auto simp: scan_opcode_def opcodes follows_def depth_after_def opens_def branch_at_def view_def push_branch_def Let_def)
next
  case (FloatConst op fs)
  with assms skip_name [of s fs bs] show ?thesis
    by (auto simp: scan_opcode_def opcodes follows_def depth_after_def opens_def branch_at_def view_def Let_def)
qed

lemma scan_loop_instrs:
  "before s (concat (map instr_bytes is)) \<Longrightarrow> list_all instr_ok is \<Longrightarrow> \<exists>acc. scan_loop oc s l = Some acc
     \<and> view acc = view (sl_acc l) @ branch_points (sl_depth l) (map opcode_of is)
     \<and> max_depth acc = max (max_depth (sl_acc l)) (deepest (sl_depth l) (map opcode_of is))"
proof (induction "is" arbitrary: s l)
  case Nil
  then show ?case by (simp add: scan_loop.simps [of oc s l] before_remaining)
next
  case (Cons i "is")
  then have b: "before s (opcode_of i # operand_bytes i @ concat (map instr_bytes is))" and ok: "instr_ok i" by (simp_all add: instr_bytes_def [of i])
  from read_one [OF b] obtain s0 where r: "read_byte s = (Some (opcode_of i), s0)" and b0: "before s0 (operand_bytes i @ concat (map instr_bytes is))" by auto
  from scan_step [OF b0 ok, of oc l] obtain s1 l1 where st: "scan_opcode oc (opcode_of i) s0 l = Some (s1, l1)"
    and b1: "before s1 (concat (map instr_bytes is))" and f: "follows (opcode_of i) l l1" by auto
  from Cons.IH [OF b1, of l1] Cons.prems(2) f st r before_remaining [OF b] show ?case
    by (auto simp: scan_loop.simps [of oc s l] follows_def max.assoc)
qed

lemma scan_of_body:
  assumes "list_all instr_ok is" "length (vec_bytes (\<lambda>(n, t). leb n @ [t]) locals) < 2 ^ 32"
  shows "\<exists>acc. scan_function_body oc (body_bytes locals is) = Some acc \<and> view acc = branch_points 0 (map opcode_of is)
     \<and> max_depth acc = deepest 0 (map opcode_of is) \<and> scan_sound acc"
proof -
  let ?f = "\<lambda>(n, t). leb n @ [t :: byte]" and ?enc = "concat (map instr_bytes is)"
  have "\<forall>x \<in> set locals. ?f x \<noteq> []" by auto
  from count_le_concat [OF this] assms(2) have n: "length locals < 2 ^ 32" by (simp add: vec_bytes_def)
  have "before (scanner_new (body_bytes locals is)) (leb (length locals) @ concat (map ?f locals) @ ?enc)"
    by (simp add: body_bytes_def vec_bytes_def)
  from read_leb [OF this n] obtain s where r: "read_leb128_u32 (scanner_new (body_bytes locals is)) = (Some (word_of_nat (length locals)), s)"
    and b: "before s (concat (map ?f locals) @ ?enc)" by auto
  have "before (((\<lambda>s. skip 1 (skip_leb128 s)) ^^ length ls) s) bs" if "before s (concat (map ?f ls) @ bs)" for ls s bs
    using that
  proof (induction ls arbitrary: s)
    case (Cons x ls)
    obtain n t where x: "x = (n, t)" by (cases x)
    with Cons.prems have "before s (leb n @ t # concat (map ?f ls) @ bs)" by simp
    from Cons.IH [OF skip_one [OF skip_leb [OF this]]] show ?case
      using funpow_swap1 [of "\<lambda>s. skip 1 (skip_leb128 s)" "length ls" s] by simp
  qed simp
  from this [OF b] have b1: "before (((\<lambda>s. skip 1 (skip_leb128 s)) ^^ length locals) s) ?enc" .
  let ?l = "\<lparr>sl_depth = 0, sl_branch_id = 0, sl_acc = \<lparr>branches = [], max_depth = 0, breakdown = no_branches\<rparr>\<rparr>"
  have l: "locals_sound ?l" by (simp add: locals_sound_def scan_sound_def no_branches_def tally_def)
  from scan_loop_instrs [OF b1 assms(1), of oc ?l] r unat_small [OF n] scan_loop_sound [OF _ l] show ?thesis
    by (auto simp: scan_function_body_def view_def)
qed

end
