(* ===== verification/BranchProperties.thy ===== *)
theory BranchProperties
  imports BranchAnalysis WasmProperties
begin

text \<open>
  What the branch analysis reports: the body it reads, the branches it counts, the variations it tries and the extremes it picks.
\<close>

section \<open>The variations\<close>

text \<open>All choices of one candidate per argument, in the order of the loops.\<close>

fun choices :: "string list list \<Rightarrow> string list list" where
  "choices [] = [[]]"
| "choices (cs # css) = concat (map (\<lambda>c. map (Cons c) (choices css)) cs)"

definition extended :: "string list list \<Rightarrow> string list \<Rightarrow> string list list" where
  "extended es cs = concat (map (\<lambda>e. map (\<lambda>c. e @ [c]) cs) es)"

lemma extend_one_eq:
  "length acc < MAX_PERMUTATIONS \<Longrightarrow> extend_one e cs acc =
     (take MAX_PERMUTATIONS (acc @ map (\<lambda>c. e @ [c]) cs), length acc + length cs \<ge> MAX_PERMUTATIONS)"
proof (induction cs arbitrary: acc)
  case (Cons c cs)
  show ?case
  proof (cases "length acc + 1 \<ge> MAX_PERMUTATIONS")
    case True
    with Cons.prems have "length acc = MAX_PERMUTATIONS - 1" "0 < MAX_PERMUTATIONS" by auto
    then show ?thesis by (auto simp: Let_def take_Cons')
  next
    case False
    with Cons.IH [of "acc @ [e @ [c]]"] show ?thesis by (simp add: Let_def)
  qed
qed simp

lemma extend_all_eq: "length acc < MAX_PERMUTATIONS \<Longrightarrow> extend_all es cs acc = take MAX_PERMUTATIONS (acc @ extended es cs)"
proof (induction es arbitrary: acc)
  case (Cons e es)
  show ?case
  proof (cases "length acc + length cs \<ge> MAX_PERMUTATIONS")
    case True
    then show ?thesis by (simp add: extend_one_eq Cons.prems extended_def)
  next
    case False
    with Cons.IH [of "acc @ map (\<lambda>c. e @ [c]) cs"] show ?thesis by (simp add: extend_one_eq Cons.prems extended_def)
  qed
qed (simp add: extended_def)

lemma max_pos: "0 < MAX_PERMUTATIONS" by (simp add: MAX_PERMUTATIONS_def)

lemma extend_all_Nil [simp]: "extend_all es cs [] = take MAX_PERMUTATIONS (extended es cs)"
  using extend_all_eq [of "[]" es cs] max_pos by simp

lemma length_extended [simp]: "length (extended es cs) = length es * length cs"
  by (induction es) (simp_all add: extended_def)

lemma length_choices [simp]: "length (choices css) = prod_list (map length css)"
  by (induction css) (simp_all add: length_concat o_def sum_list_triv)

text \<open>While the number of choices stays below the cap, the loop computes them all.\<close>

definition prefixed :: "string list list \<Rightarrow> string list list \<Rightarrow> string list list" where
  "prefixed es css = concat (map (\<lambda>e. map (\<lambda>c. e @ c) (choices css)) es)"

lemma prefixed_simps: "prefixed es [] = es" "prefixed es (cs # css) = prefixed (extended es cs) css"
proof -
  have app: "(@) (a @ [x]) = (\<lambda>y. a @ x # y)" for a :: "string list" and x by auto
  show "prefixed es [] = es" by (induction es) (simp_all add: prefixed_def)
  show "prefixed es (cs # css) = prefixed (extended es cs) css"
    by (induction es) (simp_all add: prefixed_def extended_def map_concat o_def app)
qed

lemma candidates_neq_Nil [simp]: "arg_candidates a \<noteq> []"
  by (auto simp: arg_candidates_def Let_def split: option.splits)

lemma product_loop_all:
  "length es * prod_list (map length css) < MAX_PERMUTATIONS \<Longrightarrow> [] \<notin> set css \<Longrightarrow> product_loop css es = prefixed es css"
proof (induction css arbitrary: es)
  case (Cons cs css)
  have "0 \<notin> set (map length css)" using Cons.prems(2) by auto
  then have "1 \<le> prod_list (map length css)" by (induction css) (auto simp: Suc_le_eq)
  then have "length es * length cs * 1 \<le> length es * length cs * prod_list (map length css)" by (rule mult_le_mono2)
  also have "\<dots> < MAX_PERMUTATIONS" using Cons.prems(1) by (simp add: mult.assoc)
  finally have "length (extended es cs) < MAX_PERMUTATIONS" by simp
  with Cons show ?case by (simp add: Let_def prefixed_simps mult.assoc)
qed (simp add: prefixed_simps)

text \<open>Once the cap is reached the loop stops: the remaining arguments are left out.\<close>

lemma product_loop_length: "length es \<le> MAX_PERMUTATIONS \<Longrightarrow> length (product_loop css es) \<le> MAX_PERMUTATIONS"
  by (induction css arbitrary: es) (auto simp: Let_def)

lemma product_loop_short:
  assumes "k \<le> length css" "length es * prod_list (map length (take k css)) \<ge> MAX_PERMUTATIONS" "length es < MAX_PERMUTATIONS"
    and "\<forall>e \<in> set es. length e = n"
  shows "\<forall>v \<in> set (product_loop css es). length v \<le> n + k"
  using assms
proof (induction css arbitrary: es k n)
  case (Cons cs css)
  from Cons.prems(2,3) obtain k' where k: "k = Suc k'" by (cases k) auto
  have ext: "\<forall>e \<in> set (take MAX_PERMUTATIONS (extended es cs)). length e = n + 1"
    using Cons.prems(4) by (auto simp: extended_def dest!: in_set_takeD)
  show ?case
  proof (cases "length es * length cs \<ge> MAX_PERMUTATIONS")
    case True
    then have "product_loop (cs # css) es = take MAX_PERMUTATIONS (extended es cs)" by (simp add: Let_def)
    with ext k show ?thesis by simp
  next
    case False
    then have short: "length (extended es cs) < MAX_PERMUTATIONS" by simp
    have prod: "MAX_PERMUTATIONS \<le> length (extended es cs) * prod_list (map length (take k' css))"
      using Cons.prems(2) k by (simp add: mult.assoc)
    have all: "\<forall>e \<in> set (extended es cs). length e = n + 1" using Cons.prems(4) by (auto simp: extended_def)
    have "\<forall>v \<in> set (product_loop css (extended es cs)). length v \<le> n + 1 + k'"
      using Cons.prems(1) k by (intro Cons.IH [OF _ prod short all]) simp
    with short k show ?thesis by (simp add: Let_def)
  qed
qed simp

lemma hd_choices: "[] \<notin> set css \<Longrightarrow> hd (choices css) = map hd css"
proof (induction css)
  case (Cons cs css)
  then obtain c r where cs: "cs = c # r" by (cases cs) auto
  have "0 \<notin> set (map length css)" using Cons.prems by auto
  then have "choices css \<noteq> []" using length_choices [of css] by (auto simp: prod_list_zero_iff simp del: length_choices)
  with Cons cs show ?case by (simp add: hd_append hd_map)
qed simp

lemma hd_candidates [simp]: "hd (arg_candidates a) = a"
  by (auto simp: arg_candidates_def Let_def split: option.splits)

text \<open>The number of choices for the first \<open>k\<close> arguments.\<close>

definition choice_count :: "string list \<Rightarrow> nat" where
  "choice_count args = prod_list (map (\<lambda>a. length (arg_candidates a)) args)"

lemma variations_below_cap:
  assumes "choice_count args < MAX_PERMUTATIONS"
  shows "generate_arg_variations args = choices (map arg_candidates args)" and "hd (generate_arg_variations args) = args"
proof -
  have ne: "[] \<notin> set (map arg_candidates args)" by (metis candidates_neq_Nil ex_map_conv)
  have "product_loop (map arg_candidates args) [[]] = prefixed [[]] (map arg_candidates args)"
    using assms by (intro product_loop_all [OF _ ne]) (simp add: choice_count_def o_def)
  then show g: "generate_arg_variations args = choices (map arg_candidates args)"
    by (simp add: generate_arg_variations_def prefixed_def map_idI)
  show "hd (generate_arg_variations args) = args" unfolding g hd_choices [OF ne] by (simp add: map_idI)
qed

lemma variations_at_most: "length (generate_arg_variations args) \<le> MAX_PERMUTATIONS"
  using product_loop_length [of "[[]]" "map arg_candidates args"] by (simp add: generate_arg_variations_def MAX_PERMUTATIONS_def)

lemma variations_capped:
  assumes "k < length args" "MAX_PERMUTATIONS \<le> choice_count (take k args)" "v \<in> set (generate_arg_variations args)"
  shows "length v < length args"
proof -
  have "\<forall>v \<in> set (product_loop (map arg_candidates args) [[]]). length v \<le> 0 + k"
    using assms(1,2) by (intro product_loop_short) (simp_all add: choice_count_def take_map o_def MAX_PERMUTATIONS_def)
  moreover have "args \<noteq> []" using assms(1) by auto
  ultimately show ?thesis using assms by (auto simp: generate_arg_variations_def)
qed

section \<open>The runs\<close>

lemma explore_runs:
  "p \<in> set (explore profile args k vs paths i) \<Longrightarrow> p \<in> set paths \<or> args_used p \<in> set vs \<and> (\<exists>j. profile j (args_used p) = Ran (resources p))"
  by (induction profile args k vs paths i rule: explore.induct) (fastforce split: if_splits run_outcome.splits)+

lemma explore_ids:
  "map path_id paths = [0..<i] \<Longrightarrow> map path_id (explore profile args k vs paths i) = [0..<length (explore profile args k vs paths i)]"
proof (induction profile args k vs paths i rule: explore.induct)
  case (1 profile args k paths i)
  then have "length paths = i" by (metis diff_zero length_map length_upt)
  with 1 show ?case by simp
qed (auto split: if_splits run_outcome.splits)

lemma explore_none: "\<forall>v \<in> set vs. \<forall>j. \<nexists>r. profile j v = Ran r \<Longrightarrow> explore profile args k vs paths i = paths"
  by (induction profile args k vs paths i rule: explore.induct) (auto split: run_outcome.splits)

lemma is_worse_order:
  shows is_worse_irrefl: "\<not> is_worse a a" and is_worse_asym: "is_worse a b \<Longrightarrow> \<not> is_worse b a"
    and not_is_worse_trans: "\<not> is_worse a b \<Longrightarrow> \<not> is_worse b c \<Longrightarrow> \<not> is_worse a c"
  by (auto simp: is_worse_def)

lemma is_better_order:
  shows is_better_irrefl: "\<not> is_better a a" and is_better_asym: "is_better a b \<Longrightarrow> \<not> is_better b a"
    and not_is_better_trans: "\<not> is_better a b \<Longrightarrow> \<not> is_better b c \<Longrightarrow> \<not> is_better a c"
  by (auto simp: is_better_def)

lemma worst_of_bound:
  "\<not> is_worse w (worst_of paths w) \<and> (\<forall>p \<in> set paths. \<not> is_worse (resources p) (worst_of paths w)) \<and> worst_of paths w \<in> insert w (resources ` set paths)"
proof (induction paths arbitrary: w)
  case (Cons p paths)
  let ?w = "if is_worse (resources p) w then resources p else w"
  have e: "worst_of (p # paths) w = worst_of paths ?w" by (simp add: worst_of_def)
  from Cons.IH [of ?w] have r: "\<not> is_worse ?w (worst_of paths ?w)" "\<forall>q \<in> set paths. \<not> is_worse (resources q) (worst_of paths ?w)"
    "worst_of paths ?w \<in> insert ?w (resources ` set paths)" by blast+
  have "\<not> is_worse w ?w" "\<not> is_worse (resources p) ?w" using is_worse_asym is_worse_irrefl by (auto split: if_splits)
  then have "\<not> is_worse w (worst_of paths ?w)" "\<not> is_worse (resources p) (worst_of paths ?w)" using not_is_worse_trans r(1) by blast+
  with r show ?case unfolding e by (auto split: if_splits)
qed (simp add: worst_of_def is_worse_irrefl)

lemma best_of_bound:
  "\<not> is_better w (best_of paths w) \<and> (\<forall>p \<in> set paths. \<not> is_better (resources p) (best_of paths w)) \<and> best_of paths w \<in> insert w (resources ` set paths)"
proof (induction paths arbitrary: w)
  case (Cons p paths)
  let ?w = "if is_better (resources p) w then resources p else w"
  have e: "best_of (p # paths) w = best_of paths ?w" by (simp add: best_of_def)
  from Cons.IH [of ?w] have r: "\<not> is_better ?w (best_of paths ?w)" "\<forall>q \<in> set paths. \<not> is_better (resources q) (best_of paths ?w)"
    "best_of paths ?w \<in> insert ?w (resources ` set paths)" by blast+
  have "\<not> is_better w ?w" "\<not> is_better (resources p) ?w" using is_better_asym is_better_irrefl by (auto split: if_splits)
  then have "\<not> is_better w (best_of paths ?w)" "\<not> is_better (resources p) (best_of paths ?w)" using not_is_better_trans r(1) by blast+
  with r show ?case unfolding e by (auto split: if_splits)
qed (simp add: best_of_def is_better_irrefl)

text \<open>A report, from the baseline and the branches found.\<close>

lemma analyze_Inr:
  assumes "analyze_wasm_branches oc profile wasm f args = Some (Inr r)"
  obtains baseline acc where "profile 0 args = Ran baseline" "baseline_resources r = baseline"
    "(case extract_function_body wasm (map of_char f) of Some body \<Rightarrow> scan_function_body oc body
        | None \<Rightarrow> Some \<lparr>branches = [], max_depth = 0, breakdown = no_branches\<rparr>) = Some acc"
    "branch_list r = branches acc" "max_nesting_depth r = max_depth acc" "branch_type_breakdown r = breakdown acc"
    "total_branch_count r = length (branches acc)" "estimated_paths r = estimate_paths (length (branches acc))"
    "simulated_paths r = (let e = explore profile args 1 (generate_arg_variations args) [] 0 in
       if e = [] then [\<lparr>path_id = 0, args_used = args, resources = baseline\<rparr>] else e)"
    "worst_case_resources r = worst_of (simulated_paths r) (resources (hd (simulated_paths r)))"
    "best_case_resources r = best_of (simulated_paths r) (resources (hd (simulated_paths r)))"
    "distinct_profiles r = length (remdups (map (\<lambda>p. fingerprint (resources p)) (simulated_paths r)))"
  using assms by (auto simp: analyze_wasm_branches_def Let_def split: option.splits run_outcome.splits)

lemma tally_view: "tally t bs = count_list (map fst (map (\<lambda>b. (branch_type b, nesting_depth b)) bs)) t"
  by (induction bs) (auto simp: tally_def)

section \<open>The properties\<close>

text \<open>
  C30. The reader finds the right function: on the encoding of any module, with any sections in any order, the search returns the body
  that the exports and imports of the module determine for a name, and nothing where they determine none.
\<close>

theorem wasm_body_found:
  assumes "list_all section_ok secs"
  shows "extract_function_body (module_bytes secs) name = function_body name secs"
  by (rule extract_from_module [OF assms])

definition demo_body :: "wasm_instr list" where
  "demo_body = [Plain 0x20 [leb 0], Plain 0x04 [[0x40]], Plain 0x0F [], Plain 0x0B [], Switch [leb 0] (leb 1), Plain 0x0B []]"

definition demo_module :: "wasm_section list" where
  "demo_module = [Imports [([0x61], [0x62], ImpFunc 0), ([0x61], [0x63], ImpMemory (MinOnly 1))], OtherSection 3 [1, 0],
     Exports [([0x66], 0, 1)], Code [body_bytes [(2, 0x7F)] demo_body]]"

lemma demo_module_ok: "list_all section_ok demo_module"
  by (simp add: demo_module_def demo_body_def vec_bytes_def import_bytes_def export_bytes_def name_bytes_def body_bytes_def instr_bytes_def leb.simps)

lemma demo_function: "function_body [0x66] demo_module = Some (body_bytes [(2, 0x7F)] demo_body)"
  by (simp add: demo_module_def function_body_def exported_index_def Let_def)

theorem wasm_body_found_witness:
  "extract_function_body (module_bytes demo_module) [0x66] = Some (body_bytes [(2, 0x7F)] demo_body)"
  using wasm_body_found [OF demo_module_ok, of "[0x66]"] demo_function by simp



text \<open>
  C32. The extremes of a report are real: every path it lists was run on a variation of the arguments or on the given ones, the worst
  case is a listed path that no other one exceeds in instructions and then memory, the best case likewise, and the number of
  profiles is that of the different measurements.
\<close>

theorem branch_extremes:
  assumes "analyze_wasm_branches oc profile wasm f args = Some (Inr r)"
  shows "let ps = simulated_paths r in ps \<noteq> [] \<and> map path_id ps = [0..<length ps]
     \<and> (\<forall>p \<in> set ps. args_used p \<in> insert args (set (generate_arg_variations args)) \<and> (\<exists>j. profile j (args_used p) = Ran (resources p))
          \<and> \<not> is_worse (resources p) (worst_case_resources r) \<and> \<not> is_better (resources p) (best_case_resources r))
     \<and> worst_case_resources r \<in> resources ` set ps \<and> best_case_resources r \<in> resources ` set ps
     \<and> distinct_profiles r = card ((\<lambda>p. fingerprint (resources p)) ` set ps)"
proof (rule analyze_Inr [OF assms])
  fix baseline acc
  assume base: "profile 0 args = Ran baseline"
    and sim: "simulated_paths r = (let e = explore profile args 1 (generate_arg_variations args) [] 0 in
       if e = [] then [\<lparr>path_id = 0, args_used = args, resources = baseline\<rparr>] else e)"
    and w: "worst_case_resources r = worst_of (simulated_paths r) (resources (hd (simulated_paths r)))"
    and b: "best_case_resources r = best_of (simulated_paths r) (resources (hd (simulated_paths r)))"
    and d: "distinct_profiles r = length (remdups (map (\<lambda>p. fingerprint (resources p)) (simulated_paths r)))"
  let ?ps = "simulated_paths r"
  have ne: "?ps \<noteq> []" using sim by (simp add: Let_def)
  then have hd: "resources (hd ?ps) \<in> resources ` set ?ps" by simp
  have "map path_id ?ps = [0..<length ?ps]"
    using sim explore_ids [of "[]" 0 profile args 1 "generate_arg_variations args"] by (auto simp: Let_def)
  moreover have "args_used p \<in> insert args (set (generate_arg_variations args)) \<and> (\<exists>j. profile j (args_used p) = Ran (resources p))"
    if "p \<in> set ?ps" for p
    using that sim base explore_runs [of p profile args 1 "generate_arg_variations args" "[]" 0] by (auto simp: Let_def split: if_splits)
  moreover have "worst_case_resources r \<in> resources ` set ?ps" "best_case_resources r \<in> resources ` set ?ps"
    using worst_of_bound [of "resources (hd ?ps)" ?ps] best_of_bound [of "resources (hd ?ps)" ?ps] hd unfolding w b by (auto simp: insert_absorb)
  moreover have "\<not> is_worse (resources p) (worst_case_resources r)" "\<not> is_better (resources p) (best_case_resources r)" if "p \<in> set ?ps" for p
    using that worst_of_bound [of "resources (hd ?ps)" ?ps] best_of_bound [of "resources (hd ?ps)" ?ps] unfolding w b by auto
  moreover have "distinct_profiles r = card ((\<lambda>p. fingerprint (resources p)) ` set ?ps)" unfolding d by (simp add: length_remdups_card_conv)
  ultimately show ?thesis using ne by (simp add: Let_def)
qed

text \<open>A run for the examples: it costs as many instructions as the arguments have characters, and fails on any other number of arguments.\<close>

definition demo_profile :: "nat \<Rightarrow> profile" where
  "demo_profile n k args =
     (if length args = n then Ran \<lparr>cpu_instructions = length (concat args), ram_bytes = 2, ledger_read_bytes = 3, ledger_write_bytes = 4, transaction_size_bytes = 5\<rparr>
      else RunFailed (ExecutionFailed ''arguments''))"

lemma no_module: "extract_function_body [] name = None"
  by (simp add: extract_function_body_def read_slice_def scanner_new_def Let_def)

lemma demo_report: "length args = n \<Longrightarrow> \<exists>r. analyze_wasm_branches oc (demo_profile n) [] f args = Some (Inr r)"
  by (simp add: analyze_wasm_branches_def no_module demo_profile_def Let_def)

theorem branch_extremes_witness:
  "\<exists>r. analyze_wasm_branches True (demo_profile 1) [] ''f'' [''true''] = Some (Inr r) \<and> simulated_paths r \<noteq> []
     \<and> (\<forall>p \<in> set (simulated_paths r). args_used p = [''true''] \<or> args_used p = [''false''])"
proof -
  obtain r where r: "analyze_wasm_branches True (demo_profile 1) [] ''f'' [''true''] = Some (Inr r)" using demo_report [of "[''true'']" 1] by auto
  have "set (generate_arg_variations [''true'']) = {[''true''], [''false'']}" by code_simp
  with branch_extremes [OF r] r show ?thesis by (auto simp: Let_def)
qed

text \<open>
  C33. The cap cuts the vectors and not only their number: as soon as the candidates of the first arguments, without the last one, reach
  24 choices, every variation has fewer arguments than the function takes. Where runs with fewer arguments fail, no variation
  is measured and the worst and the best case are both the baseline.
\<close>

theorem branch_search_capped:
  assumes "k < length args" "MAX_PERMUTATIONS \<le> choice_count (take k args)"
    and "\<forall>j v. length v \<noteq> length args \<longrightarrow> (\<forall>q. profile j v \<noteq> Ran q)"
    and "analyze_wasm_branches oc profile wasm f args = Some (Inr r)"
  shows "(\<forall>v \<in> set (generate_arg_variations args). length v < length args)
     \<and> simulated_paths r = [\<lparr>path_id = 0, args_used = args, resources = baseline_resources r\<rparr>]
     \<and> worst_case_resources r = baseline_resources r \<and> best_case_resources r = baseline_resources r \<and> distinct_profiles r = 1"
proof (rule analyze_Inr [OF assms(4)])
  fix baseline acc
  assume base: "baseline_resources r = baseline"
    and sim: "simulated_paths r = (let e = explore profile args 1 (generate_arg_variations args) [] 0 in
       if e = [] then [\<lparr>path_id = 0, args_used = args, resources = baseline\<rparr>] else e)"
    and w: "worst_case_resources r = worst_of (simulated_paths r) (resources (hd (simulated_paths r)))"
    and b: "best_case_resources r = best_of (simulated_paths r) (resources (hd (simulated_paths r)))"
    and d: "distinct_profiles r = length (remdups (map (\<lambda>p. fingerprint (resources p)) (simulated_paths r)))"
  have short: "\<forall>v \<in> set (generate_arg_variations args). length v < length args" using variations_capped [OF assms(1,2)] by blast
  then have "explore profile args 1 (generate_arg_variations args) [] 0 = []" using assms(3) by (intro explore_none) fastforce
  then have "simulated_paths r = [\<lparr>path_id = 0, args_used = args, resources = baseline_resources r\<rparr>]" using sim base by simp
  with short show ?thesis unfolding w b d by (simp add: worst_of_def best_of_def)
qed

lemma choices_of_digits: "length (arg_candidates ''5'') = 6" "length (arg_candidates ''6'') = 6"
  by (simp_all add: arg_candidates_def trim_def trim_end_while_def is_white_def parse_i64_def parse_digits_def probes_def)

theorem branch_search_capped_witness:
  "\<exists>r. analyze_wasm_branches True (demo_profile 3) [] ''f'' [''5'', ''6'', ''7''] = Some (Inr r)
     \<and> length (simulated_paths r) = 1 \<and> worst_case_resources r = best_case_resources r"
proof -
  let ?args = "[''5'', ''6'', ''7'']"
  have k: "2 < length ?args" by simp
  have c: "MAX_PERMUTATIONS \<le> choice_count (take 2 ?args)" by (simp add: choice_count_def choices_of_digits MAX_PERMUTATIONS_def)
  have p: "\<forall>j v. length v \<noteq> length ?args \<longrightarrow> (\<forall>q. demo_profile 3 j v \<noteq> Ran q)" by (simp add: demo_profile_def)
  obtain r where r: "analyze_wasm_branches True (demo_profile 3) [] ''f'' ?args = Some (Inr r)" using demo_report [of ?args 3] by auto
  from branch_search_capped [OF k c p r] r show ?thesis by simp
qed

text \<open>
  Outside that instruction set the scan can lose its place: the function below consists of \<open>ref.func 13\<close>, \<open>drop\<close> and \<open>end\<close>, and
  has no branch; the operand of \<open>ref.func\<close> is taken for the opcode \<open>br_if\<close>.
\<close>

lemma ref_func_miscounted:
  "map_option view (scan_function_body True [0x00, 0xD2, 0x0D, 0x1A, 0x0B]) = Some [(BranchIf, 0)]"
  by code_simp

end
