(* ===== verification/CallTrace.thy ===== *)
theory CallTrace
  imports Dispatch
begin

text \<open>
  The call graphs of \<open>core/src/call_trace_parser.rs\<close> and of \<open>core/src/simulation.rs\<close>. Base64 and XDR are decoded by libraries:
  \<open>decode\<close> gives of an event what the code looks at, \<open>None\<close> where it does not decode, and \<open>show_contract\<close> is the text of a
  contract address.
\<close>

section \<open>Events and graphs\<close>

datatype sc_val = ScSymbol string | ScOther

record diagnostic_event =
  in_successful_contract_call :: bool
  event_contract_id :: "nat option"
  event_topics :: "sc_val list"

datatype call_node = CallNode (node_contract: string) (node_function: string) (node_children: "call_node list")

text \<open>\<open>count_nodes\<close> and \<open>node_depth\<close>, also as \<open>total_calls\<close> and \<open>max_depth\<close> of a graph.\<close>

fun count_nodes :: "call_node \<Rightarrow> nat" where
  "count_nodes (CallNode c f ns) = 1 + sum_list (map count_nodes ns)"

fun node_depth :: "call_node \<Rightarrow> nat" where
  "node_depth (CallNode c f ns) = (if ns = [] then 1 else 1 + fold max (map node_depth ns) 0)"

section \<open>The parser\<close>

text \<open>The stack of open calls, the innermost first, and the last call that was closed at the outermost level.\<close>

record trace_state =
  ts_stack :: "call_node list"
  ts_root :: "call_node option"

definition enter_call :: "string \<Rightarrow> string \<Rightarrow> trace_state \<Rightarrow> trace_state" where
  "enter_call contract_id function s = s\<lparr>ts_stack := CallNode contract_id function [] # ts_stack s\<rparr>"

definition leave_call :: "trace_state \<Rightarrow> trace_state" where
  "leave_call s =
     (case ts_stack s of
        [] \<Rightarrow> s
      | [finished] \<Rightarrow> s\<lparr>ts_stack := [], ts_root := Some finished\<rparr>
      | finished # CallNode c f ns # st \<Rightarrow> s\<lparr>ts_stack := CallNode c f (ns @ [finished]) # st\<rparr>)"

definition trace_event :: "(string \<Rightarrow> diagnostic_event option) \<Rightarrow> (nat \<Rightarrow> string) \<Rightarrow> string \<Rightarrow> trace_state \<Rightarrow> trace_state" where
  "trace_event decode show_contract event_b64 s =
     (case decode event_b64 of
        None \<Rightarrow> s
      | Some diag_event \<Rightarrow>
          if \<not> in_successful_contract_call diag_event then s
          else
            let contract_id = (case event_contract_id diag_event of Some h \<Rightarrow> show_contract h | None \<Rightarrow> ''Host'');
                topics = event_topics diag_event in
            if topics = [] then s
            else case topics ! 0 of
              ScOther \<Rightarrow> s
            | ScSymbol topic0 \<Rightarrow>
                if topic0 = ''fn_call'' \<and> length topics \<ge> 3 then
                  enter_call contract_id (case topics ! 2 of ScSymbol f \<Rightarrow> f | ScOther \<Rightarrow> ''unknown'') s
                else if topic0 = ''fn_return'' then leave_call s
                else s)"

definition parse_call_trace :: "(string \<Rightarrow> diagnostic_event option) \<Rightarrow> (nat \<Rightarrow> string) \<Rightarrow> string list \<Rightarrow> call_node option" where
  "parse_call_trace decode show_contract events =
     (let s = fold (trace_event decode show_contract) events \<lparr>ts_stack = [], ts_root = None\<rparr> in
      case ts_root s of
        Some r \<Rightarrow> Some r
      | None \<Rightarrow> if ts_stack s = [] then None else Some (last (ts_stack s)))"

text \<open>The one of the simulation engine has no use for calls left open.\<close>

definition extract_call_graph :: "(string \<Rightarrow> diagnostic_event option) \<Rightarrow> (nat \<Rightarrow> string) \<Rightarrow> string list \<Rightarrow> call_node option" where
  "extract_call_graph decode show_contract events =
     ts_root (fold (trace_event decode show_contract) events \<lparr>ts_stack = [], ts_root = None\<rparr>)"

section \<open>Mermaid\<close>

fun append_mermaid_nodes :: "call_node \<Rightarrow> string \<Rightarrow> nat \<Rightarrow> string \<times> nat"
and append_children :: "nat \<Rightarrow> call_node list \<Rightarrow> string \<Rightarrow> nat \<Rightarrow> string \<times> nat" where
  "append_mermaid_nodes (CallNode c f ns) mermaid id_gen =
     append_children id_gen ns (mermaid @ ''    n'' @ show_nat id_gen @ ''['' @ [CHR 0x22] @ c @ [CHR 0x5C, CHR ''n''] @ f @ [CHR 0x22, CHR '']'', CHR 0x0A]) id_gen"
| "append_children current_id [] mermaid id_gen = (mermaid, id_gen)"
| "append_children current_id (child # ns) mermaid id_gen =
     (let child_id = id_gen + 1;
          (mermaid1, id_gen1) = append_mermaid_nodes child
            (mermaid @ ''    n'' @ show_nat current_id @ '' --> n'' @ show_nat child_id @ [CHR 0x0A]) child_id in
      append_children current_id ns mermaid1 id_gen1)"

definition to_mermaid :: "call_node \<Rightarrow> string" where
  "to_mermaid root = fst (append_mermaid_nodes root (''graph TD'' @ [CHR 0x0A]) 0)"

section \<open>The trace of a call\<close>

text \<open>The boundaries that a call and its nested calls leave in the log, and what an event says of them.\<close>

datatype boundary = Entered string string | Left

fun boundaries :: "call_node \<Rightarrow> boundary list" where
  "boundaries (CallNode c f ns) = Entered c f # concat (map boundaries ns) @ [Left]"

definition boundary_of :: "(nat \<Rightarrow> string) \<Rightarrow> diagnostic_event \<Rightarrow> boundary option" where
  "boundary_of show_contract d =
     (if \<not> in_successful_contract_call d then None
      else case event_topics d of
        ScSymbol t # ts \<Rightarrow>
          if t = ''fn_call'' then
            (case ts of
               _ # v # _ \<Rightarrow> Some (Entered (case event_contract_id d of None \<Rightarrow> ''Host'' | Some h \<Rightarrow> show_contract h)
                   (case v of ScSymbol f \<Rightarrow> f | ScOther \<Rightarrow> ''unknown''))
             | _ \<Rightarrow> None)
          else if t = ''fn_return'' then Some Left else None
      | _ \<Rightarrow> None)"

fun apply_boundary :: "boundary \<Rightarrow> trace_state \<Rightarrow> trace_state" where
  "apply_boundary (Entered c f) s = enter_call c f s"
| "apply_boundary Left s = leave_call s"

lemma trace_event_boundary:
  "trace_event decode sh e s = (case Option.bind (decode e) (boundary_of sh) of None \<Rightarrow> s | Some b \<Rightarrow> apply_boundary b s)"
  by (auto simp: trace_event_def boundary_of_def Let_def neq_Nil_conv Suc_le_length_iff numeral_3_eq_3 numeral_2_eq_2
      split: option.splits list.splits sc_val.splits)

lemma fold_trace_event:
  "fold (trace_event decode sh) es s = fold apply_boundary (List.map_filter (\<lambda>e. Option.bind (decode e) (boundary_of sh)) es) s"
  by (induction es arbitrary: s) (auto simp: trace_event_boundary List.map_filter_def split: option.splits)

definition under :: "call_node list \<Rightarrow> trace_state \<Rightarrow> trace_state" where
  "under ms s = (case ts_stack s of CallNode c f ns # st \<Rightarrow> s\<lparr>ts_stack := CallNode c f (ns @ ms) # st\<rparr> | [] \<Rightarrow> s)"

lemma fold_boundaries:
  "fold apply_boundary (boundaries n) s = (if ts_stack s = [] then s\<lparr>ts_root := Some n\<rparr> else under [n] s)"
proof (induction n arbitrary: s)
  case (CallNode c f ms)
  have inner: "fold apply_boundary (concat (map boundaries xs)) s = (if xs = [] then s else under xs s)"
    if "set xs \<subseteq> set ms" "ts_stack s \<noteq> []" for xs s
    using that
  proof (induction xs arbitrary: s)
    case (Cons x xs)
    from Cons.prems have "fold apply_boundary (boundaries x) s = under [x] s" by (simp add: CallNode.IH)
    moreover have "ts_stack (under [x] s) \<noteq> []" using Cons.prems by (auto simp: under_def split: list.splits call_node.splits)
    ultimately show ?case using Cons by (auto simp: under_def split: list.splits call_node.splits)
  qed simp
  have "fold apply_boundary (concat (map boundaries ms)) (enter_call c f s) = s\<lparr>ts_stack := CallNode c f ms # ts_stack s\<rparr>"
    using inner [of ms "enter_call c f s"] by (auto simp: enter_call_def under_def)
  then show ?case by (auto simp: leave_call_def under_def split: list.splits call_node.splits)
qed

lemma trace_of_call:
  assumes "List.map_filter (\<lambda>e. Option.bind (decode e) (boundary_of sh)) events = boundaries n"
  shows "parse_call_trace decode sh events = Some n" "extract_call_graph decode sh events = Some n"
  by (simp_all add: parse_call_trace_def extract_call_graph_def fold_trace_event assms fold_boundaries Let_def)

lemma count_boundaries: "length (filter (\<lambda>b. b \<noteq> Left) (boundaries n)) = count_nodes n"
proof (induction n)
  case (CallNode c f ms)
  then have "length (filter (\<lambda>b. b \<noteq> Left) (concat (map boundaries xs))) = sum_list (map count_nodes xs)" if "set xs \<subseteq> set ms" for xs
    using that by (induction xs) auto
  from this [of ms] show ?case by simp
qed

text \<open>The identifiers of a drawing: one per call, in the order in which the calls were entered.\<close>

lemma mermaid_ids: "snd (append_mermaid_nodes n m i) = i + count_nodes n - 1"
  "snd (append_children j ns m i) = i + sum_list (map count_nodes ns)"
proof (induction n m i and j ns m i rule: append_mermaid_nodes_append_children.induct)
  case (1 c f ns m i)
  then show ?case by simp
next
  case (3 j n ns m i)
  then show ?case by (cases n) (auto simp: Let_def split: prod.splits)
qed simp

section \<open>The property\<close>

text \<open>
  C29. The call tree survives the log: from any log whose call boundaries are those of one call, among any other events, events of failed
  calls and undecodable text, both parsers rebuild exactly the tree of that call, with one node for each entered call.
\<close>

theorem call_trace_rebuilt:
  assumes "List.map_filter (\<lambda>e. Option.bind (decode e) (boundary_of show_contract)) events = boundaries n"
  shows "parse_call_trace decode show_contract events = Some n \<and> extract_call_graph decode show_contract events = Some n
     \<and> count_nodes n = length (filter (\<lambda>b. b \<noteq> Left) (boundaries n))"
  using trace_of_call [OF assms] count_boundaries [of n] by simp

definition demo_event :: "string \<Rightarrow> diagnostic_event option" where
  "demo_event e =
     (if e = ''a'' then Some \<lparr>in_successful_contract_call = True, event_contract_id = Some 7, event_topics = [ScSymbol ''fn_call'', ScOther, ScSymbol ''swap'']\<rparr>
      else if e = ''b'' then Some \<lparr>in_successful_contract_call = True, event_contract_id = None, event_topics = [ScSymbol ''fn_call'', ScOther, ScSymbol ''move'']\<rparr>
      else if e = ''r'' then Some \<lparr>in_successful_contract_call = True, event_contract_id = None, event_topics = [ScSymbol ''fn_return'', ScOther]\<rparr>
      else if e = ''f'' then Some \<lparr>in_successful_contract_call = False, event_contract_id = None, event_topics = [ScSymbol ''fn_return'', ScOther]\<rparr>
      else None)"

theorem call_trace_rebuilt_witness:
  "parse_call_trace demo_event (\<lambda>_. ''C'') [''a'', ''?'', ''b'', ''f'', ''r'', ''b'', ''r'', ''r'']
     = Some (CallNode ''C'' ''swap'' [CallNode ''Host'' ''move'' [], CallNode ''Host'' ''move'' []])"
proof -
  have "List.map_filter (\<lambda>e. Option.bind (demo_event e) (boundary_of (\<lambda>_. ''C''))) [''a'', ''?'', ''b'', ''f'', ''r'', ''b'', ''r'', ''r'']
      = boundaries (CallNode ''C'' ''swap'' [CallNode ''Host'' ''move'' [], CallNode ''Host'' ''move'' []])"
    by (simp add: List.map_filter_def demo_event_def boundary_of_def)
  from call_trace_rebuilt [OF this] show ?thesis by blast
qed

text \<open>Of several calls at the outermost level the last one is kept, and of calls left open the outermost, without those inside it.\<close>

lemma last_call_kept:
  "List.map_filter (\<lambda>e. Option.bind (decode e) (boundary_of sh)) events = boundaries m @ boundaries n \<Longrightarrow> parse_call_trace decode sh events = Some n"
  by (simp add: parse_call_trace_def fold_trace_event fold_boundaries Let_def)

lemma open_calls_dropped:
  "List.map_filter (\<lambda>e. Option.bind (decode e) (boundary_of sh)) events = [Entered c f, Entered d g]
    \<Longrightarrow> parse_call_trace decode sh events = Some (CallNode c f [])"
  by (simp add: parse_call_trace_def fold_trace_event enter_call_def Let_def)

end
