(* ===== verification/BatchTransfer.thy ===== *)
theory BatchTransfer
  imports Token
begin

text \<open>
  The batch transfers of \<open>contracts/batch_transfer/src/lib.rs\<close>. The token is a parameter, and \<open>zero_g\<close> and \<open>zero_c\<close> are the two
  addresses of zero keys that the code writes out.
\<close>

section \<open>Data\<close>

datatype batch_error = EmptyBatch | LengthMismatch | InvalidAmount | InsufficientBalance | TooManyRecipients

definition MAX_RECIPIENTS :: nat where "MAX_RECIPIENTS = 100"

datatype execution_mode = AllOrNothing | Partial

datatype transfer_failure = NoFailure | FailInvalidAmount | FailInsufficientBalance

record transfer_result =
  tr_recipient :: address
  tr_amount :: int
  tr_success :: bool
  tr_failure :: transfer_failure

type_synonym 'a bt_res = "(batch_error, 'a) res"

section \<open>The batch\<close>

text \<open>One turn of the loop: the result, the balance that remains and the tokens.\<close>

definition batch_item ::
    "'w token_xfer \<Rightarrow> address \<Rightarrow> address \<Rightarrow> env \<Rightarrow> address \<Rightarrow> address \<Rightarrow> execution_mode \<Rightarrow> bool \<Rightarrow> address \<times> int \<Rightarrow> int \<times> 'w
      \<Rightarrow> (transfer_result \<times> int \<times> 'w) bt_res" where
  "batch_item xfer zero_g zero_c E token sender mode do_transfer item st =
     (let (recipient, amount) = item; (remaining_balance, w) = st in
      if amount \<le> 0 \<or> recipient = zero_g \<or> recipient = zero_c then
        if mode = AllOrNothing then Inl (Err InvalidAmount)
        else Inr (\<lparr>tr_recipient = recipient, tr_amount = amount, tr_success = False, tr_failure = FailInvalidAmount\<rparr>, st)
      else if remaining_balance < amount then
        if mode = AllOrNothing then Inl (Err InsufficientBalance)
        else Inr (\<lparr>tr_recipient = recipient, tr_amount = amount, tr_success = False, tr_failure = FailInsufficientBalance\<rparr>, st)
      else
        rbind (fit E I128 (remaining_balance - amount)) (\<lambda>left.
        rbind (if do_transfer then call (xfer E token sender recipient amount w) else Inr w) (\<lambda>w1.
        Inr (\<lparr>tr_recipient = recipient, tr_amount = amount, tr_success = True, tr_failure = NoFailure\<rparr>, (left, w1)))))"

fun batch_loop ::
    "'w token_xfer \<Rightarrow> address \<Rightarrow> address \<Rightarrow> env \<Rightarrow> address \<Rightarrow> address \<Rightarrow> execution_mode \<Rightarrow> bool \<Rightarrow> (address \<times> int) list \<Rightarrow> int \<times> 'w
      \<Rightarrow> (transfer_result list \<times> 'w) bt_res" where
  "batch_loop xfer zero_g zero_c E token sender mode do_transfer [] st = Inr ([], snd st)"
| "batch_loop xfer zero_g zero_c E token sender mode do_transfer (item # items) st =
     rbind (batch_item xfer zero_g zero_c E token sender mode do_transfer item st) (\<lambda>(r, st1).
     rbind (batch_loop xfer zero_g zero_c E token sender mode do_transfer items st1) (\<lambda>(rs, w1).
     Inr (r # rs, w1)))"

definition process_batch ::
    "'w token_xfer \<Rightarrow> (address \<Rightarrow> address \<Rightarrow> 'w \<Rightarrow> int) \<Rightarrow> address \<Rightarrow> address \<Rightarrow> env \<Rightarrow> 'w \<Rightarrow> address \<Rightarrow> address \<Rightarrow> address list \<Rightarrow> int list
      \<Rightarrow> execution_mode \<Rightarrow> bool \<Rightarrow> (transfer_result list \<times> 'w) bt_res" where
  "process_batch xfer bal zero_g zero_c E w token sender recipients amounts mode do_transfer =
     (let len = length recipients in
      if len = 0 then Inl (Err EmptyBatch)
      else if len > MAX_RECIPIENTS then Inl (Err TooManyRecipients)
      else if len \<noteq> length amounts then Inl (Err LengthMismatch)
      else batch_loop xfer zero_g zero_c E token sender mode do_transfer (zip recipients amounts) (bal token sender w, w))"

definition bt_execute where
  "bt_execute xfer bal zero_g zero_c E w token sender recipients amounts mode =
     rbind (require_auth E sender) (\<lambda>_. process_batch xfer bal zero_g zero_c E w token sender recipients amounts mode True)"

definition bt_quote where
  "bt_quote xfer bal zero_g zero_c E w token sender recipients amounts mode =
     rbind (process_batch xfer bal zero_g zero_c E w token sender recipients amounts mode False) (\<lambda>(rs, _). Inr rs)"

section \<open>What a batch pays\<close>

definition paid :: "transfer_result list \<Rightarrow> int" where
  "paid rs = sum_list (map tr_amount (filter tr_success rs))"

definition paid_to :: "address \<Rightarrow> transfer_result list \<Rightarrow> int" where
  "paid_to a rs = paid (filter (\<lambda>r. tr_recipient r = a) rs)"

lemma paid_simps [simp]:
  "paid [] = 0" "paid_to a [] = 0"
  "paid (r # rs) = (if tr_success r then tr_amount r else 0) + paid rs"
  "paid_to a (r # rs) = (if tr_success r \<and> tr_recipient r = a then tr_amount r else 0) + paid_to a rs"
  by (simp_all add: paid_def paid_to_def)

text \<open>The loop, beside the loop of the quotation on the same balance.\<close>

context token_ledger
begin

lemma batch_loop_pays:
  assumes "batch_loop xfer zg zc E t f mode True items (b, w) = Inr (rs, w')" "overflow_checks E"
  shows "batch_loop xfer zg zc E t f mode False items (b, w0) = Inr (rs, w0)
     \<and> map (\<lambda>r. (tr_recipient r, tr_amount r)) rs = items
     \<and> (mode = AllOrNothing \<longrightarrow> (\<forall>r \<in> set rs. tr_success r)) \<and> (\<forall>r \<in> set rs. tr_success r \<longrightarrow> 0 < tr_amount r \<and> tr_recipient r \<notin> {zg, zc})
     \<and> (rs \<noteq> [] \<longrightarrow> paid rs \<le> max 0 b)
     \<and> bal t' a w' = bal t' a w + (if t' = t then paid_to a rs - (if a = f then paid rs else 0) else 0)"
  using assms(1)
proof (induction items arbitrary: b w rs)
  case (Cons item items)
  obtain p n where item: "item = (p, n)" by (cases item)
  from Cons.prems obtain r b1 w1 rs1 where
    step: "batch_item xfer zg zc E t f mode True (p, n) (b, w) = Inr (r, b1, w1)"
    and more: "batch_loop xfer zg zc E t f mode True items (b1, w1) = Inr (rs1, w')" and rs: "rs = r # rs1"
    by (auto simp: item split: prod.splits)
  note IH = Cons.IH [OF more]
  show ?case
  proof (cases "tr_success r")
    case True
    with step assms(2) have x: "xfer E t f p n w = Some w1" "b1 = b - n" and n: "0 < n" "n \<le> b" "p \<noteq> zg" "p \<noteq> zc"
      and r: "r = \<lparr>tr_recipient = p, tr_amount = n, tr_success = True, tr_failure = NoFailure\<rparr>"
      and q: "batch_item xfer zg zc E t f mode False (p, n) (b, w0) = Inr (r, b1, w0)"
      by (auto simp: batch_item_def Let_def not_le not_less split: if_splits)
    from IH rs r q xfer_bal [OF assms(2) x(1), of t' a] x(2) n item show ?thesis
      by (cases "rs1 = []") (auto simp: delta_def)
  next
    case False
    with step have s: "b1 = b" "w1 = w" "mode = Partial" "tr_recipient r = p" "tr_amount r = n"
      and q: "batch_item xfer zg zc E t f mode False (p, n) (b, w0) = Inr (r, b1, w0)"
      by (cases mode; auto simp: batch_item_def Let_def split: if_splits)+
    from IH rs q s item False show ?thesis by (cases "rs1 = []") auto
  qed
qed simp

end

section \<open>The property\<close>

text \<open>
  C28. An executed batch does what its quotation says: the results are those of \<open>quote\<close> on the same tokens, every address gains what
  the successful transfers to it add up to and the sender loses their total, which its balance covered; only positive amounts are
  paid and never to a zero address, and in the mode \<open>AllOrNothing\<close> every transfer succeeded.
\<close>

theorem batch_as_quoted:
  assumes "token_ledger xfer bal" "overflow_checks E"
    and "bt_execute xfer bal zero_g zero_c E w token sender recipients amounts mode = Inr (rs, w')"
  shows "bt_quote xfer bal zero_g zero_c E w token sender recipients amounts mode = Inr rs \<and> sender \<in> set (auths E)
     \<and> map (\<lambda>r. (tr_recipient r, tr_amount r)) rs = zip recipients amounts \<and> length rs = length recipients
     \<and> (\<forall>a. bal token a w' = bal token a w + paid_to a rs - (if a = sender then paid rs else 0))
     \<and> paid rs \<le> max 0 (bal token sender w) \<and> (\<forall>r \<in> set rs. tr_success r \<longrightarrow> 0 < tr_amount r \<and> tr_recipient r \<notin> {zero_g, zero_c})
     \<and> (mode = AllOrNothing \<longrightarrow> (\<forall>r \<in> set rs. tr_success r))"
proof -
  from assms(3) have auth: "sender \<in> set (auths E)" and len: "recipients \<noteq> []" "length recipients \<le> MAX_RECIPIENTS" "length recipients = length amounts"
    and loop: "batch_loop xfer zero_g zero_c E token sender mode True (zip recipients amounts) (bal token sender w, w) = Inr (rs, w')"
    by (auto simp: bt_execute_def process_batch_def Let_def not_less split: if_splits)
  note pays = token_ledger.batch_loop_pays [OF assms(1) loop assms(2)]
  from len have "amounts \<noteq> []" by auto
  have q: "bt_quote xfer bal zero_g zero_c E w token sender recipients amounts mode = Inr rs"
    using pays [of w token sender] len \<open>amounts \<noteq> []\<close> by (simp add: bt_quote_def process_batch_def Let_def)
  have items: "map (\<lambda>r. (tr_recipient r, tr_amount r)) rs = zip recipients amounts" using pays by blast
  from arg_cong [OF this, of length] len have l: "length rs = length recipients" by simp
  have "bal token a w' = bal token a w + paid_to a rs - (if a = sender then paid rs else 0)" for a using pays [of _ token a] by simp
  moreover have "rs \<noteq> []" using l len(1) by auto
  then have "paid rs \<le> max 0 (bal token sender w)" using pays by blast
  ultimately show ?thesis using q auth items l pays by blast
qed

definition batch_tokens :: tokens where
  "batch_tokens = [2 \<mapsto> empty_token\<lparr>tk_balances := [1 \<mapsto> 100]\<rparr>]"

theorem batch_as_quoted_witness:
  "\<exists>rs w'. bt_execute client_transfer client_balance 98 99 (env0 [1]) batch_tokens 2 1 [5, 98, 6, 7] [60, 1, 50, 40] Partial = Inr (rs, w')
     \<and> map tr_success rs = [True, False, False, True] \<and> client_balance 2 1 w' = 0"
proof -
  let ?run = "bt_execute client_transfer client_balance 98 99 (env0 [1]) batch_tokens 2 1 [5, 98, 6, 7] [60, 1, 50, 40] Partial"
  have "case ?run of Inl _ \<Rightarrow> False | Inr (rs, _) \<Rightarrow> map tr_success rs = [True, False, False, True] \<and> paid rs = 100 \<and> paid_to 1 rs = 0" by code_simp
  then obtain rs w' where run: "?run = Inr (rs, w')" and s: "map tr_success rs = [True, False, False, True]" "paid rs = 100" "paid_to 1 rs = 0"
    by (auto split: sum.splits)
  have "client_balance 2 1 batch_tokens = 100" by code_simp
  with batch_as_quoted [OF token_world.token_ledger_axioms _ run] s run show ?thesis by (simp add: env0_def)
qed

end
