(* ===== verification/Soulbound.thy ===== *)
theory Soulbound
  imports Prelude
begin

text \<open>
  The soulbound badges of \<open>contracts/soulbound_token/src/*\<close>: a badge per identity, bound to its holder. Storage TTLs are not
  modelled.
\<close>

section \<open>State\<close>

datatype soulbound_error = AlreadyInitialized | NotInitialized | Unauthorized | AlreadyMinted | TokenNotFound

record soulbound =
  sb_balances :: "address \<rightharpoonup> int"
  sb_admin :: "address option"
  sb_name_of :: "string option"
  sb_symbol_of :: "string option"
  sb_decimals_of :: "nat option"
  sb_identity :: "address \<rightharpoonup> string"

definition empty_soulbound :: soulbound where
  "empty_soulbound = \<lparr>sb_balances = Map.empty, sb_admin = None, sb_name_of = None, sb_symbol_of = None, sb_decimals_of = None, sb_identity = Map.empty\<rparr>"

type_synonym 'a sb_res = "(soulbound_error, 'a) res"

definition sb_unwrap :: "'a option \<Rightarrow> 'a sb_res" where
  "sb_unwrap v = (case v of None \<Rightarrow> Inl (Panic UnwrapNone) | Some x \<Rightarrow> Inr x)"

section \<open>Balances and metadata\<close>

definition sb_read_balance :: "soulbound \<Rightarrow> address \<Rightarrow> int" where
  "sb_read_balance s a = (case sb_balances s a of None \<Rightarrow> 0 | Some n \<Rightarrow> n)"

definition sb_write_balance :: "address \<Rightarrow> int \<Rightarrow> soulbound \<Rightarrow> soulbound" where
  "sb_write_balance a n s = s\<lparr>sb_balances := (sb_balances s)(a \<mapsto> n)\<rparr>"

definition sb_receive_balance :: "env \<Rightarrow> soulbound \<Rightarrow> address \<Rightarrow> int \<Rightarrow> soulbound sb_res" where
  "sb_receive_balance E s a amount =
     rbind (fit E I128 (sb_read_balance s a + amount)) (\<lambda>n.
     if n > 1 then Inl (Panic (Message ''cannot hold more than one soulbound token''))
     else Inr (sb_write_balance a n s))"

definition sb_spend_balance :: "env \<Rightarrow> soulbound \<Rightarrow> address \<Rightarrow> int \<Rightarrow> soulbound sb_res" where
  "sb_spend_balance E s a amount =
     (if sb_read_balance s a < amount then Inl (Panic (Message ''insufficient balance''))
      else rbind (fit E I128 (sb_read_balance s a - amount)) (\<lambda>n. Inr (sb_write_balance a n s)))"

definition sb_read_identity_metadata :: "soulbound \<Rightarrow> address \<Rightarrow> string" where
  "sb_read_identity_metadata s a = (case sb_identity s a of None \<Rightarrow> [] | Some m \<Rightarrow> m)"

definition sb_write_identity_metadata :: "address \<Rightarrow> string \<Rightarrow> soulbound \<Rightarrow> soulbound" where
  "sb_write_identity_metadata a m s = s\<lparr>sb_identity := (sb_identity s)(a \<mapsto> m)\<rparr>"

definition sb_remove_identity_metadata :: "address \<Rightarrow> soulbound \<Rightarrow> soulbound" where
  "sb_remove_identity_metadata a s = s\<lparr>sb_identity := (sb_identity s)(a := None)\<rparr>"

section \<open>Entry points\<close>

definition sb_initialize :: "soulbound \<Rightarrow> address \<Rightarrow> nat \<Rightarrow> string \<Rightarrow> string \<Rightarrow> soulbound sb_res" where
  "sb_initialize s admin decimal name symbol =
     (if sb_admin s \<noteq> None then Inl (Panic (Message ''already initialized''))
      else Inr (s\<lparr>sb_admin := Some admin, sb_decimals_of := Some decimal, sb_name_of := Some name, sb_symbol_of := Some symbol\<rparr>))"

definition sb_mint_identity :: "env \<Rightarrow> soulbound \<Rightarrow> address \<Rightarrow> string \<Rightarrow> soulbound sb_res" where
  "sb_mint_identity E s to metadata =
     rbind (sb_unwrap (sb_admin s)) (\<lambda>admin. rbind (require_auth E admin) (\<lambda>_.
     rbind (sb_receive_balance E s to 1) (\<lambda>s1. Inr (sb_write_identity_metadata to metadata s1))))"

definition sb_mint :: "env \<Rightarrow> soulbound \<Rightarrow> address \<Rightarrow> soulbound sb_res" where
  "sb_mint E s to =
     rbind (sb_unwrap (sb_admin s)) (\<lambda>admin. rbind (require_auth E admin) (\<lambda>_.
     rbind (sb_receive_balance E s to 1) (\<lambda>s1. Inr (sb_write_identity_metadata to [] s1))))"

definition sb_set_admin :: "env \<Rightarrow> soulbound \<Rightarrow> address \<Rightarrow> soulbound sb_res" where
  "sb_set_admin E s new_admin =
     rbind (sb_unwrap (sb_admin s)) (\<lambda>admin. rbind (require_auth E admin) (\<lambda>_. Inr (s\<lparr>sb_admin := Some new_admin\<rparr>)))"

definition sb_balance :: "soulbound \<Rightarrow> address \<Rightarrow> int" where
  "sb_balance s a = sb_read_balance s a"

definition sb_transfer :: "soulbound \<Rightarrow> address \<Rightarrow> address \<Rightarrow> int \<Rightarrow> soulbound sb_res" where
  "sb_transfer s from_addr to amount = Inl (Err Unauthorized)"

definition sb_transfer_from :: "soulbound \<Rightarrow> address \<Rightarrow> address \<Rightarrow> address \<Rightarrow> int \<Rightarrow> soulbound sb_res" where
  "sb_transfer_from s spender from_addr to amount = Inl (Err Unauthorized)"

definition sb_burn :: "env \<Rightarrow> soulbound \<Rightarrow> address \<Rightarrow> soulbound sb_res" where
  "sb_burn E s from_addr =
     rbind (require_auth E from_addr) (\<lambda>_.
     rbind (sb_spend_balance E s from_addr 1) (\<lambda>s1. Inr (sb_remove_identity_metadata from_addr s1)))"

definition sb_admin_transfer :: "env \<Rightarrow> soulbound \<Rightarrow> address \<Rightarrow> address \<Rightarrow> soulbound sb_res" where
  "sb_admin_transfer E s from_addr to =
     rbind (sb_unwrap (sb_admin s)) (\<lambda>admin. rbind (require_auth E admin) (\<lambda>_.
     let metadata = sb_read_identity_metadata s from_addr in
     rbind (sb_spend_balance E s from_addr 1) (\<lambda>s1.
     let s2 = sb_remove_identity_metadata from_addr s1 in
     rbind (sb_receive_balance E s2 to 1) (\<lambda>s3. Inr (sb_write_identity_metadata to metadata s3)))))"

definition sb_revoke :: "env \<Rightarrow> soulbound \<Rightarrow> address \<Rightarrow> soulbound sb_res" where
  "sb_revoke E s from_addr =
     rbind (sb_unwrap (sb_admin s)) (\<lambda>admin. rbind (require_auth E admin) (\<lambda>_.
     if sb_read_balance s from_addr = 0 then Inl (Panic (Message ''no token to revoke''))
     else rbind (sb_spend_balance E s from_addr 1) (\<lambda>s1. Inr (sb_remove_identity_metadata from_addr s1))))"

definition sb_update_metadata :: "env \<Rightarrow> soulbound \<Rightarrow> address \<Rightarrow> string \<Rightarrow> soulbound sb_res" where
  "sb_update_metadata E s to metadata =
     rbind (sb_unwrap (sb_admin s)) (\<lambda>admin. rbind (require_auth E admin) (\<lambda>_.
     if sb_read_balance s to = 0 then Inl (Panic (Message ''no token to update''))
     else Inr (sb_write_identity_metadata to metadata s)))"

definition sb_identity_metadata :: "soulbound \<Rightarrow> address \<Rightarrow> string" where
  "sb_identity_metadata s a = sb_read_identity_metadata s a"

definition sb_decimals :: "soulbound \<Rightarrow> nat sb_res" where "sb_decimals s = sb_unwrap (sb_decimals_of s)"
definition sb_name :: "soulbound \<Rightarrow> string sb_res" where "sb_name s = sb_unwrap (sb_name_of s)"
definition sb_symbol :: "soulbound \<Rightarrow> string sb_res" where "sb_symbol s = sb_unwrap (sb_symbol_of s)"

section \<open>Calls\<close>

datatype sb_call =
    SInitialize address nat string string
  | SMint address
  | SMintIdentity address string
  | SSetAdmin address
  | STransfer address address int
  | STransferFrom address address address int
  | SBurn address
  | SAdminTransfer address address
  | SRevoke address
  | SUpdateMetadata address string

fun sb_exec :: "env \<Rightarrow> soulbound \<Rightarrow> sb_call \<Rightarrow> (soulbound_error, soulbound \<times> unit) res" where
  "sb_exec E s c = rbind (case c of
       SInitialize a d n y \<Rightarrow> sb_initialize s a d n y
     | SMint a \<Rightarrow> sb_mint E s a
     | SMintIdentity a m \<Rightarrow> sb_mint_identity E s a m
     | SSetAdmin a \<Rightarrow> sb_set_admin E s a
     | STransfer f t n \<Rightarrow> sb_transfer s f t n
     | STransferFrom p f t n \<Rightarrow> sb_transfer_from s p f t n
     | SBurn f \<Rightarrow> sb_burn E s f
     | SAdminTransfer f t \<Rightarrow> sb_admin_transfer E s f t
     | SRevoke f \<Rightarrow> sb_revoke E s f
     | SUpdateMetadata t m \<Rightarrow> sb_update_metadata E s t m) (\<lambda>s'. Inr (s', ()))"

text \<open>Nobody holds more than one badge, and exactly the holders have metadata.\<close>

definition badges :: "soulbound \<Rightarrow> bool" where
  "badges s \<longleftrightarrow> (\<forall>a. sb_read_balance s a \<in> {0, 1} \<and> (sb_identity s a \<noteq> None \<longleftrightarrow> sb_read_balance s a = 1))"

lemma sb_unwrap_Inr [simp]: "sb_unwrap v = Inr x \<longleftrightarrow> v = Some x"
  by (auto simp: sb_unwrap_def split: option.splits)

lemma sb_read_simps [simp]:
  "sb_read_balance (sb_write_balance a n s) b = (if b = a then n else sb_read_balance s b)"
  "sb_read_balance (sb_write_identity_metadata a m s) = sb_read_balance s"
  "sb_read_balance (sb_remove_identity_metadata a s) = sb_read_balance s"
  "sb_read_balance (s\<lparr>sb_admin := x\<rparr>) = sb_read_balance s"
  "sb_identity (sb_write_balance a n s) = sb_identity s"
  "sb_identity (sb_write_identity_metadata a m s) = (sb_identity s)(a \<mapsto> m)"
  "sb_identity (sb_remove_identity_metadata a s) = (sb_identity s)(a := None)"
  "sb_admin (sb_write_balance a n s) = sb_admin s" "sb_admin (sb_write_identity_metadata a m s) = sb_admin s"
  "sb_admin (sb_remove_identity_metadata a s) = sb_admin s"
  by (auto simp: sb_read_balance_def sb_write_balance_def sb_write_identity_metadata_def sb_remove_identity_metadata_def)

lemmas sb_defs = sb_initialize_def sb_mint_def sb_mint_identity_def sb_set_admin_def sb_transfer_def sb_transfer_from_def sb_burn_def
  sb_admin_transfer_def sb_revoke_def sb_update_metadata_def sb_receive_balance_def sb_spend_balance_def

lemma badge_minted:
  assumes "badges s" "overflow_checks E" "sb_receive_balance E s a 1 = Inr s1"
  shows "sb_read_balance s a = 0" "s1 = sb_write_balance a 1 s" "badges (sb_write_identity_metadata a m s1)"
proof -
  from assms(1) have "sb_read_balance s a \<in> {0, 1}" by (simp add: badges_def)
  with assms(2,3) show z: "sb_read_balance s a = 0" "s1 = sb_write_balance a 1 s"
    by (auto simp: sb_receive_balance_def split: if_splits)
  with assms(1) show "badges (sb_write_identity_metadata a m s1)" by (auto simp: badges_def)
qed

lemma badge_spent:
  assumes "badges s" "overflow_checks E" "sb_spend_balance E s a 1 = Inr s1"
  shows "sb_read_balance s a = 1" "s1 = sb_write_balance a 0 s" "badges (sb_remove_identity_metadata a s1)"
proof -
  from assms(1) have "sb_read_balance s a \<in> {0, 1}" by (simp add: badges_def)
  with assms(2,3) show z: "sb_read_balance s a = 1" "s1 = sb_write_balance a 0 s"
    by (auto simp: sb_spend_balance_def split: if_splits)
  with assms(1) show "badges (sb_remove_identity_metadata a s1)" by (auto simp: badges_def)
qed

text \<open>Every call keeps the badges, and only the administrator or the holder itself changes a holding.\<close>

lemma sb_exec_badges:
  assumes "badges s" "overflow_checks E" "sb_exec E s c = Inr (s', v)"
  shows "badges s' \<and> (\<forall>a. sb_read_balance s' a \<noteq> sb_read_balance s a \<longrightarrow>
      (\<exists>ad. sb_admin s = Some ad \<and> ad \<in> set (auths E)) \<or> sb_read_balance s' a = 0 \<and> a \<in> set (auths E))"
proof (cases c)
  case (SInitialize a d n y)
  with assms have "sb_read_balance s' = sb_read_balance s" "sb_identity s' = sb_identity s"
    by (auto simp: sb_initialize_def sb_read_balance_def fun_eq_iff split: if_splits)
  with assms(1) show ?thesis by (simp add: badges_def)
next
  case (SSetAdmin a)
  with assms have "sb_read_balance s' = sb_read_balance s" "sb_identity s' = sb_identity s" by (auto simp: sb_set_admin_def)
  with assms(1) show ?thesis by (simp add: badges_def)
next
  case (SUpdateMetadata t m)
  moreover have "sb_read_balance s t \<in> {0, 1}" using assms(1) by (simp add: badges_def)
  ultimately show ?thesis using assms by (auto simp: sb_update_metadata_def badges_def split: if_splits)
next
  case (SAdminTransfer f t)
  with assms obtain s1 s3 where a: "\<exists>ad. sb_admin s = Some ad \<and> ad \<in> set (auths E)" and sp: "sb_spend_balance E s f 1 = Inr s1"
    and rc: "sb_receive_balance E (sb_remove_identity_metadata f s1) t 1 = Inr s3"
    and s': "s' = sb_write_identity_metadata t (sb_read_identity_metadata s f) s3"
    by (auto simp: sb_admin_transfer_def Let_def)
  from badge_minted(3) [OF badge_spent(3) [OF assms(1,2) sp] assms(2) rc] a s' show ?thesis by auto
next
  case (SBurn f)
  with assms obtain s1 where f: "f \<in> set (auths E)" and sp: "sb_spend_balance E s f 1 = Inr s1" and s': "s' = sb_remove_identity_metadata f s1"
    by (auto simp: sb_burn_def)
  from badge_spent [OF assms(1,2) sp] f s' show ?thesis by auto
qed (use assms badge_minted [OF assms(1,2)] badge_spent [OF assms(1,2)] in
    \<open>auto simp: sb_mint_def sb_mint_identity_def sb_burn_def sb_revoke_def sb_transfer_def sb_transfer_from_def split: if_splits\<close>)

interpretation soulbound_world: contract_machine sb_exec "\<lambda>E _. overflow_checks E" badges
  by unfold_locales (use sb_exec_badges in blast)

lemma soulbound_badges:
  "\<forall>c \<in> set cs. overflow_checks (fst c) \<Longrightarrow> badges (run_calls sb_exec cs empty_soulbound)"
  by (rule soulbound_world.run_inv) (auto simp: badges_def empty_soulbound_def sb_read_balance_def)

end
