(* ===== verification/AuctionFactory.thy ===== *)
theory AuctionFactory
  imports Token
begin

text \<open>
  The auction factory of \<open>contracts/auction_factory/src/lib.rs\<close>. The host deploys a contract and runs its \<open>initialize\<close>: \<open>deploy\<close>
  gives the address of the instance for the salt of seller, item and kind, and \<open>start\<close> initialises it; \<open>None\<close> is a trap.
  The deployed contracts and the tokens are the state \<open>'w\<close>. Administration is that of the emergency guard.
\<close>

section \<open>State\<close>

datatype auction_type = English | Dutch

record deployment_fee =
  df_token :: address
  df_recipient :: address
  df_amount :: int

datatype factory_error = InvalidFee | FeeNotConfigured | Unauthorized

record auction_factory =
  af_auction :: "address \<rightharpoonup> auction_type"
  af_by_index :: "int \<rightharpoonup> address"
  af_count :: "int option"
  af_fee :: "deployment_fee option"
  af_guard :: guard

definition empty_auction_factory :: auction_factory where
  "empty_auction_factory = \<lparr>af_auction = Map.empty, af_by_index = Map.empty, af_count = None, af_fee = None, af_guard = empty_guard\<rparr>"

definition MAX_PAGE_SIZE :: int where "MAX_PAGE_SIZE = 100"

type_synonym 'a af_res = "(factory_error, 'a) res"

text \<open>Seller, item, payment token, the two prices and the duration.\<close>

record auction_args =
  aa_seller :: address
  aa_nft_contract :: address
  aa_token_id :: int
  aa_payment_token :: address
  aa_first_price :: int
  aa_second_price :: int
  aa_duration_ledgers :: int

type_synonym 'w deployer = "env \<Rightarrow> address \<times> address \<times> int \<times> auction_type \<Rightarrow> nat \<Rightarrow> 'w \<Rightarrow> (address \<times> 'w) option"
type_synonym 'w starter = "env \<Rightarrow> address \<Rightarrow> auction_args \<Rightarrow> 'w \<Rightarrow> 'w option"

section \<open>Operations\<close>

definition collect_deployment_fee :: "'w token_xfer \<Rightarrow> env \<Rightarrow> auction_factory \<Rightarrow> 'w \<Rightarrow> address \<Rightarrow> 'w af_res" where
  "collect_deployment_fee xfer E s w seller =
     rbind (ok_or FeeNotConfigured (af_fee s)) (\<lambda>fee.
     rbind (require_auth E seller) (\<lambda>_. call (xfer E (df_token fee) seller (df_recipient fee) (df_amount fee) w)))"

definition register_auction :: "env \<Rightarrow> address \<Rightarrow> auction_type \<Rightarrow> auction_factory \<Rightarrow> auction_factory af_res" where
  "register_auction E address ty s =
     (let index = (case af_count s of None \<Rightarrow> 0 | Some n \<Rightarrow> n) in
      rbind (fit E U32 (index + 1)) (\<lambda>n.
      Inr (s\<lparr>af_auction := (af_auction s)(address \<mapsto> ty), af_by_index := (af_by_index s)(index \<mapsto> address), af_count := Some n\<rparr>)))"

definition af_guarded :: "auction_factory \<Rightarrow> (guard_error, guard) res \<Rightarrow> (guard_error, auction_factory) res" where
  "af_guarded s r = rbind r (\<lambda>g. Inr (s\<lparr>af_guard := g\<rparr>))"

definition af_initialize :: "auction_factory \<Rightarrow> address list \<Rightarrow> nat \<Rightarrow> (guard_error, auction_factory) res" where
  "af_initialize s admins threshold = af_guarded s (guard_initialize (af_guard s) admins threshold)"

definition af_rotate_admin :: "env \<Rightarrow> auction_factory \<Rightarrow> address list \<Rightarrow> address \<Rightarrow> address \<Rightarrow> (guard_error, auction_factory) res" where
  "af_rotate_admin E s approvers old_admin new_admin = af_guarded s (guard_rotate_admin E (af_guard s) approvers old_admin new_admin)"

definition af_add_admin :: "env \<Rightarrow> auction_factory \<Rightarrow> address list \<Rightarrow> address \<Rightarrow> (guard_error, auction_factory) res" where
  "af_add_admin E s approvers new_admin = af_guarded s (guard_add_admin E (af_guard s) approvers new_admin)"

definition af_remove_admin :: "env \<Rightarrow> auction_factory \<Rightarrow> address list \<Rightarrow> address \<Rightarrow> (guard_error, auction_factory) res" where
  "af_remove_admin E s approvers admin = af_guarded s (guard_remove_admin E (af_guard s) approvers admin)"

definition af_get_admins :: "auction_factory \<Rightarrow> address list" where "af_get_admins s = guard_get_admins (af_guard s)"
definition af_get_threshold :: "auction_factory \<Rightarrow> nat" where "af_get_threshold s = guard_get_threshold (af_guard s)"
definition af_is_admin :: "auction_factory \<Rightarrow> address \<Rightarrow> bool" where "af_is_admin s a = guard_is_admin (af_guard s) a"

definition configure_deployment_fee ::
    "env \<Rightarrow> auction_factory \<Rightarrow> address list \<Rightarrow> address \<Rightarrow> address \<Rightarrow> int \<Rightarrow> auction_factory af_res" where
  "configure_deployment_fee E s approvers token recipient amount =
     (if amount \<le> 0 then Inl (Err InvalidFee)
      else rbind (map_err (\<lambda>_. Unauthorized) (guard_validate_multi_sig E (af_guard s) approvers)) (\<lambda>_.
        Inr (s\<lparr>af_fee := Some \<lparr>df_token = token, df_recipient = recipient, df_amount = amount\<rparr>\<rparr>)))"

definition get_deployment_fee :: "auction_factory \<Rightarrow> deployment_fee option" where "get_deployment_fee s = af_fee s"

definition create_english_auction ::
    "'w token_xfer \<Rightarrow> 'w deployer \<Rightarrow> 'w starter \<Rightarrow> env \<Rightarrow> auction_factory \<times> 'w \<Rightarrow> auction_args \<Rightarrow> nat \<Rightarrow> ((auction_factory \<times> 'w) \<times> address) af_res" where
  "create_english_auction xfer deploy start E sw args english_wasm_hash =
     (let (s, w) = sw in
      rbind (collect_deployment_fee xfer E s w (aa_seller args)) (\<lambda>w1.
      rbind (call (deploy E (aa_seller args, aa_nft_contract args, aa_token_id args, English) english_wasm_hash w1)) (\<lambda>(deployed_address, w2).
      rbind (call (start E deployed_address args w2)) (\<lambda>w3.
      rbind (register_auction E deployed_address English s) (\<lambda>s1. Inr ((s1, w3), deployed_address))))))"

definition create_dutch_auction ::
    "'w token_xfer \<Rightarrow> 'w deployer \<Rightarrow> 'w starter \<Rightarrow> env \<Rightarrow> auction_factory \<times> 'w \<Rightarrow> auction_args \<Rightarrow> nat \<Rightarrow> ((auction_factory \<times> 'w) \<times> address) af_res" where
  "create_dutch_auction xfer deploy start E sw args dutch_wasm_hash =
     (let (s, w) = sw in
      rbind (collect_deployment_fee xfer E s w (aa_seller args)) (\<lambda>w1.
      rbind (call (deploy E (aa_seller args, aa_nft_contract args, aa_token_id args, Dutch) dutch_wasm_hash w1)) (\<lambda>(deployed_address, w2).
      rbind (call (start E deployed_address args w2)) (\<lambda>w3.
      rbind (register_auction E deployed_address Dutch s) (\<lambda>s1. Inr ((s1, w3), deployed_address))))))"

definition get_auction_type :: "auction_factory \<Rightarrow> address \<Rightarrow> auction_type option" where "get_auction_type s a = af_auction s a"

definition get_auction_count :: "auction_factory \<Rightarrow> int" where
  "get_auction_count s = (case af_count s of None \<Rightarrow> 0 | Some n \<Rightarrow> n)"

definition get_auction_by_index :: "auction_factory \<Rightarrow> int \<Rightarrow> address option" where "get_auction_by_index s i = af_by_index s i"

definition get_auctions :: "auction_factory \<Rightarrow> int \<Rightarrow> int \<Rightarrow> address list" where
  "get_auctions s start limit =
     (let count = get_auction_count s;
          e = min (saturate U32 (start + min limit MAX_PAGE_SIZE)) count in
      List.map_filter (get_auction_by_index s) [start..e - 1])"

section \<open>The list of auctions\<close>

text \<open>The storage of the factory holds the list \<open>L\<close> of the addresses of its auctions, in the order of their creation.\<close>

definition lists_auctions :: "auction_factory \<Rightarrow> (address \<times> auction_type) list \<Rightarrow> bool" where
  "lists_auctions s L \<longleftrightarrow> get_auction_count s = int (length L) \<and> length L < 2 ^ 32
     \<and> (\<forall>i. af_by_index s i = (if 0 \<le> i \<and> i < int (length L) then Some (fst (L ! nat i)) else None))
     \<and> af_auction s = map_of (rev L)"

lemma lists_empty: "lists_auctions empty_auction_factory []"
  by (simp add: lists_auctions_def empty_auction_factory_def get_auction_count_def)

lemma lists_simps [simp]:
  "lists_auctions (s\<lparr>af_fee := x\<rparr>) L = lists_auctions s L" "lists_auctions (s\<lparr>af_guard := g\<rparr>) L = lists_auctions s L"
  by (simp_all add: lists_auctions_def get_auction_count_def)

lemma register_lists:
  assumes "lists_auctions s L" "overflow_checks E" "register_auction E a ty s = Inr s'"
  shows "lists_auctions s' (L @ [(a, ty)])"
  using assms by (auto simp: lists_auctions_def register_auction_def get_auction_count_def in_range_def nth_append Let_def split: option.splits)

lemma page_of_list:
  assumes "lists_auctions s L" "0 \<le> start" "start < 2 ^ 32" "0 \<le> limit"
  shows "get_auctions s start limit = map fst (take (nat (min limit 100)) (drop (nat start) L))"
proof -
  let ?n = "int (length L)" and ?e = "min (start + min limit 100) (int (length L))"
  have "saturate U32 (start + min limit 100) = min (start + min limit 100) (2 ^ 32 - 1)"
    using assms(2,4) by (auto simp: saturate_def)
  then have e: "min (saturate U32 (start + min limit 100)) (get_auction_count s) = ?e"
    using assms(1) by (auto simp: lists_auctions_def)
  have "List.map_filter (get_auction_by_index s) [start..?e - 1] = map (\<lambda>i. fst (L ! nat i)) [start..?e - 1]"
    using assms(1,2) by (auto simp: List.map_filter_def lists_auctions_def get_auction_by_index_def intro!: map_cong)
  also have "\<dots> = map fst (take (nat (min limit 100)) (drop (nat start) L))"
  proof (rule nth_equalityI)
    fix i assume "i < length (map (\<lambda>i. fst (L ! nat i)) [start..?e - 1])"
    then have "int i < ?e - start" by (simp add: zless_nat_eq_int_zless)
    then have i: "start + int i < ?e" by linarith
    then have "[start..?e - 1] ! i = start + int i" by (intro nth_upto) simp
    moreover have "nat (start + int i) = nat start + i" using assms(2) by (simp add: nat_add_distrib)
    moreover have "i < nat (min limit 100)" "nat start + i < length L" using i assms(2,4) by linarith+
    ultimately show "map (\<lambda>i. fst (L ! nat i)) [start..?e - 1] ! i = map fst (take (nat (min limit 100)) (drop (nat start) L)) ! i"
      using i assms(2,4) by auto
  qed (use assms(2,4) in auto)
  finally show ?thesis by (simp add: get_auctions_def e MAX_PAGE_SIZE_def)
qed

section \<open>Calls\<close>

datatype af_call =
    AfInitialize "address list" nat
  | AfRotateAdmin "address list" address address
  | AfAddAdmin "address list" address
  | AfRemoveAdmin "address list" address
  | AfConfigureFee "address list" address address int
  | AfCreateEnglish auction_args nat
  | AfCreateDutch auction_args nat

text \<open>The errors of the guard are not told apart here.\<close>

fun af_exec :: "'w token_xfer \<Rightarrow> 'w deployer \<Rightarrow> 'w starter \<Rightarrow> env \<Rightarrow> auction_factory \<times> 'w \<Rightarrow> af_call
    \<Rightarrow> (factory_error, (auction_factory \<times> 'w) \<times> address option) res" where
  "af_exec xfer deploy start E (s, w) c =
     (let keep = (\<lambda>s'. Inr ((s', w), None)); guarded = (\<lambda>r. rbind (map_err (\<lambda>_. Unauthorized) r) keep); made = (\<lambda>(sw', a). Inr (sw', Some a)) in
      case c of
        AfInitialize as t \<Rightarrow> guarded (af_initialize s as t)
      | AfRotateAdmin ap a b \<Rightarrow> guarded (af_rotate_admin E s ap a b)
      | AfAddAdmin ap a \<Rightarrow> guarded (af_add_admin E s ap a)
      | AfRemoveAdmin ap a \<Rightarrow> guarded (af_remove_admin E s ap a)
      | AfConfigureFee ap t r n \<Rightarrow> rbind (configure_deployment_fee E s ap t r n) keep
      | AfCreateEnglish args h \<Rightarrow> rbind (create_english_auction xfer deploy start E (s, w) args h) made
      | AfCreateDutch args h \<Rightarrow> rbind (create_dutch_auction xfer deploy start E (s, w) args h) made)"

definition factory_sound :: "auction_factory \<times> 'w \<Rightarrow> bool" where
  "factory_sound sw \<longleftrightarrow> (\<exists>L. lists_auctions (fst sw) L) \<and> (case af_fee (fst sw) of None \<Rightarrow> True | Some f \<Rightarrow> 0 < df_amount f)"

lemma register_fee: "register_auction E a ty s = Inr s' \<Longrightarrow> af_fee s' = af_fee s"
  by (auto simp: register_auction_def Let_def)

lemma create_registers:
  "create_english_auction xfer deploy start E (s, w) args h = Inr ((s', w'), a) \<Longrightarrow> register_auction E a English s = Inr s'
     \<and> aa_seller args \<in> set (auths E) \<and> (\<exists>fee w1. af_fee s = Some fee \<and> xfer E (df_token fee) (aa_seller args) (df_recipient fee) (df_amount fee) w = Some w1)"
  "create_dutch_auction xfer deploy start E (s, w) args h = Inr ((s', w'), a) \<Longrightarrow> register_auction E a Dutch s = Inr s'
     \<and> aa_seller args \<in> set (auths E) \<and> (\<exists>fee w1. af_fee s = Some fee \<and> xfer E (df_token fee) (aa_seller args) (df_recipient fee) (df_amount fee) w = Some w1)"
  by (auto simp: create_english_auction_def create_dutch_auction_def collect_deployment_fee_def split: prod.splits)

lemma af_guarded_keeps: "af_guarded s r = Inr s' \<Longrightarrow> factory_sound (s', w) = factory_sound (s, w)"
  by (auto simp: af_guarded_def factory_sound_def)

lemma af_exec_sound:
  assumes "overflow_checks E" "factory_sound sw" "af_exec xfer deploy start E sw c = Inr (sw', v)"
  shows "factory_sound sw'"
proof -
  obtain s w where sw: "sw = (s, w)" by (cases sw)
  obtain s' w' where sw': "sw' = (s', w')" by (cases sw')
  have reg: "factory_sound (s', w')" if "register_auction E a ty s = Inr s'" for a ty
    using register_lists [OF _ assms(1) that] register_fee [OF that] assms(2) sw by (auto simp: factory_sound_def)
  show ?thesis
  proof (cases c)
    case (AfConfigureFee ap t r n)
    with assms sw sw' show ?thesis
      by (auto simp: configure_deployment_fee_def factory_sound_def Let_def split: if_splits)
  next
    case (AfCreateEnglish args h)
    with assms(3) sw sw' obtain a where "create_english_auction xfer deploy start E (s, w) args h = Inr ((s', w'), a)" by (auto simp: Let_def)
    from create_registers(1) [OF this] reg sw' show ?thesis by blast
  next
    case (AfCreateDutch args h)
    with assms(3) sw sw' obtain a where "create_dutch_auction xfer deploy start E (s, w) args h = Inr ((s', w'), a)" by (auto simp: Let_def)
    from create_registers(2) [OF this] reg sw' show ?thesis by blast
  qed (use assms sw sw' in \<open>auto simp: Let_def af_initialize_def af_rotate_admin_def af_add_admin_def af_remove_admin_def af_guarded_keeps\<close>)
qed

interpretation factory_world: contract_machine "af_exec xfer deploy start" "\<lambda>E _. overflow_checks E" factory_sound for xfer deploy start
  by unfold_locales (rule af_exec_sound)

text \<open>
  After any calls the factory serves pages of one list, to which a completed creation appends the new auction; the seller authorised
  it and paid the fee, which is positive.
\<close>

lemma factory_pages:
  assumes "\<forall>c \<in> set cs. overflow_checks (fst c)" "(s, w) = run_calls (af_exec xfer deploy start) cs (empty_auction_factory, w0)"
  obtains L where "lists_auctions s L"
    "\<And>i n. 0 \<le> i \<Longrightarrow> i < 2 ^ 32 \<Longrightarrow> 0 \<le> n \<Longrightarrow> get_auctions s i n = map fst (take (nat (min n 100)) (drop (nat i) L))"
    "\<And>f. af_fee s = Some f \<Longrightarrow> 0 < df_amount f"
proof -
  have "factory_sound (empty_auction_factory, w0)" using lists_empty by (auto simp: factory_sound_def empty_auction_factory_def)
  from factory_world.run_inv [OF this assms(1), of xfer deploy start] assms(2) have "factory_sound (s, w)" by metis
  then show thesis using that page_of_list by (auto simp: factory_sound_def split: option.splits)
qed

end
