(* ===== verification/LeaderLock.thy ===== *)
theory LeaderLock
  imports Prelude
begin

text \<open>
  The Redis lease by which one of several server instances becomes the leader (\<open>core/src/leader_lock.rs\<close>). Every
  \<open>.await\<close> of the asynchronous functions is a point where other tasks and other instances run, so each function is cut
  there into segments, and a task is the segment to run next with what it holds. Redis is the parameter \<open>api\<close>: its commands
  on one key at the time of the server. Times are milliseconds; a connection error and a failed request are events of their
  own.
\<close>

section \<open>Redis\<close>

record 'w redis_api =
  rd_get :: "int \<Rightarrow> string \<Rightarrow> 'w \<Rightarrow> string option"
  rd_pexpire :: "int \<Rightarrow> string \<Rightarrow> int \<Rightarrow> 'w \<Rightarrow> int \<times> 'w"
  rd_del :: "int \<Rightarrow> string \<Rightarrow> 'w \<Rightarrow> int \<times> 'w"
  rd_set_nx_px :: "int \<Rightarrow> string \<Rightarrow> string \<Rightarrow> int \<Rightarrow> 'w \<Rightarrow> bool \<times> 'w"

text \<open>The two Lua scripts, which the server runs atomically.\<close>

definition RENEW_SCRIPT :: "'w redis_api \<Rightarrow> int \<Rightarrow> string \<Rightarrow> string \<Rightarrow> int \<Rightarrow> 'w \<Rightarrow> int \<times> 'w" where
  "RENEW_SCRIPT api now key token ttl_ms w = (if rd_get api now key w = Some token then rd_pexpire api now key ttl_ms w else (0, w))"

definition RELEASE_SCRIPT :: "'w redis_api \<Rightarrow> int \<Rightarrow> string \<Rightarrow> string \<Rightarrow> 'w \<Rightarrow> int \<times> 'w" where
  "RELEASE_SCRIPT api now key token w = (if rd_get api now key w = Some token then rd_del api now key w else (0, w))"

section \<open>One instance\<close>

record lock_inner =
  li_key :: string
  li_token :: string
  li_ttl_ms :: int
  li_lease_deadline :: "int option"

text \<open>\<open>millis\<close> is \<open>ttl.as_millis()\<close> and \<open>token\<close> the fresh UUID.\<close>

definition lock_new :: "string \<Rightarrow> int \<Rightarrow> string \<Rightarrow> lock_inner" where
  "lock_new key millis token =
     \<lparr>li_key = key, li_token = token, li_ttl_ms = max 1 (if in_range U64 millis then millis else ity_max U64), li_lease_deadline = None\<rparr>"

definition update_lease_deadline :: "int \<Rightarrow> lock_inner \<Rightarrow> lock_inner" where
  "update_lease_deadline now l = l\<lparr>li_lease_deadline := Some (now + li_ttl_ms l)\<rparr>"

definition is_lease_locally_valid :: "int \<Rightarrow> lock_inner \<Rightarrow> bool" where
  "is_lease_locally_valid now l = (case li_lease_deadline l of None \<Rightarrow> False | Some deadline \<Rightarrow> now < deadline)"

text \<open>
  A task between two segments. \<open>...ing\<close> waits for the server to run a command, \<open>...ed\<close> for the reply, which carries the
  server's time for the statements below (the code does not see it).
\<close>

datatype lock_task =
    TryConnecting bool | TryRenewing | TryRenewed int int | TrySetting | TrySet bool int | TryReturned bool
  | KeepConnecting | KeepRenewing | KeepRenewed int int | KeepWaiting
  | RelConnecting | RelDeleting | RelDeleted int | RelReturned

text \<open>The first segments of \<open>try_acquire_or_renew\<close> and \<open>release\<close>, up to the connection.\<close>

definition try_start :: "int \<Rightarrow> lock_inner \<Rightarrow> lock_inner \<times> lock_task" where
  "try_start now l =
     (let expired = (case li_lease_deadline l of None \<Rightarrow> False | Some deadline \<Rightarrow> now \<ge> deadline) in
      (if expired then l\<lparr>li_lease_deadline := None\<rparr> else l, TryConnecting expired))"

definition release_start :: "lock_inner \<Rightarrow> lock_inner \<times> lock_task" where
  "release_start l = (l\<lparr>li_lease_deadline := None\<rparr>, RelConnecting)"

text \<open>What follows a connection attempt, in \<open>try_acquire_or_renew\<close>, the keepalive task and \<open>release\<close>.\<close>

definition try_connected :: "bool \<Rightarrow> bool \<Rightarrow> lock_task" where
  "try_connected ok expired = (if \<not> ok then TryReturned False else if expired then TrySetting else TryRenewing)"

definition keep_connected :: "bool \<Rightarrow> lock_task" where
  "keep_connected ok = (if ok then KeepRenewing else KeepWaiting)"

definition release_connected :: "bool \<Rightarrow> lock_task" where
  "release_connected ok = (if ok then RelDeleting else RelReturned)"

fun connected :: "bool \<Rightarrow> lock_task \<Rightarrow> lock_task option" where
  "connected ok (TryConnecting expired) = Some (try_connected ok expired)"
| "connected ok KeepConnecting = Some (keep_connected ok)"
| "connected ok RelConnecting = Some (release_connected ok)"
| "connected ok _ = None"

text \<open>The server runs the command of a task.\<close>

fun served :: "'w redis_api \<Rightarrow> int \<Rightarrow> lock_inner \<Rightarrow> lock_task \<Rightarrow> 'w \<Rightarrow> (lock_task \<times> 'w) option" where
  "served api now l TryRenewing w = (let (r, w') = RENEW_SCRIPT api now (li_key l) (li_token l) (li_ttl_ms l) w in Some (TryRenewed r now, w'))"
| "served api now l TrySetting w = (let (b, w') = rd_set_nx_px api now (li_key l) (li_token l) (li_ttl_ms l) w in Some (TrySet b now, w'))"
| "served api now l KeepRenewing w = (let (r, w') = RENEW_SCRIPT api now (li_key l) (li_token l) (li_ttl_ms l) w in Some (KeepRenewed r now, w'))"
| "served api now l RelDeleting w = (let (r, w') = RELEASE_SCRIPT api now (li_key l) (li_token l) w in Some (RelDeleted r, w'))"
| "served api now l _ w = None"

text \<open>A request or its reply is lost: \<open>unwrap_or\<close> puts 0 or \<open>false\<close> in its place.\<close>

fun lost :: "int \<Rightarrow> lock_task \<Rightarrow> lock_task option" where
  "lost now TryRenewing = Some (TryRenewed 0 now)"
| "lost now (TryRenewed r at) = Some (TryRenewed 0 now)"
| "lost now TrySetting = Some (TrySet False now)"
| "lost now (TrySet b at) = Some (TrySet False now)"
| "lost now KeepRenewing = Some (KeepRenewed 0 now)"
| "lost now (KeepRenewed r at) = Some (KeepRenewed 0 now)"
| "lost now RelDeleting = Some (RelDeleted 0)"
| "lost now (RelDeleted r) = Some (RelDeleted 0)"
| "lost now _ = None"

text \<open>The segments after a reply.\<close>

definition try_renewed :: "int \<Rightarrow> lock_inner \<Rightarrow> int \<Rightarrow> lock_inner \<times> lock_task" where
  "try_renewed now l renewed = (if renewed = 1 then (update_lease_deadline now l, TryReturned True) else (l, TrySetting))"

definition try_set :: "int \<Rightarrow> lock_inner \<Rightarrow> bool \<Rightarrow> lock_inner \<times> lock_task" where
  "try_set now l acquired = (if acquired then update_lease_deadline now l else l, TryReturned acquired)"

definition keep_renewed :: "int \<Rightarrow> lock_inner \<Rightarrow> int \<Rightarrow> lock_inner \<times> lock_task" where
  "keep_renewed now l renewed = (if renewed = 1 then update_lease_deadline now l else l\<lparr>li_lease_deadline := None\<rparr>, KeepWaiting)"

fun resumed :: "int \<Rightarrow> lock_inner \<Rightarrow> lock_task \<Rightarrow> (lock_inner \<times> lock_task) option" where
  "resumed now l (TryRenewed r at) = Some (try_renewed now l r)"
| "resumed now l (TrySet b at) = Some (try_set now l b)"
| "resumed now l (KeepRenewed r at) = Some (keep_renewed now l r)"
| "resumed now l (RelDeleted r) = Some (l, RelReturned)"
| "resumed now l _ = None"

text \<open>The segments unfold in the proofs by cases on the task.\<close>

lemmas lock_segments [simp] = try_connected_def keep_connected_def release_connected_def try_renewed_def try_set_def keep_renewed_def

section \<open>The cluster\<close>

text \<open>
  An instance has a caller, which calls \<open>try_acquire_or_renew\<close> and \<open>release\<close> one after the other, and the keepalive task.
  As its documentation demands, \<open>release\<close> is called after the keepalive task has been aborted.
\<close>

datatype slot = Caller | Keeper

datatype lock_event =
    Tick int | CallTry nat | CallRelease nat | StartKeepalive nat | KeepTick nat | AbortKeepalive nat
  | Connected nat slot bool | Served nat slot | Lost nat slot | Resumed nat slot

record 'w cluster =
  cl_now :: int
  cl_redis :: 'w
  cl_locks :: "nat \<Rightarrow> lock_inner"
  cl_tasks :: "nat \<times> slot \<Rightarrow> lock_task option"

abbreviation set_task :: "nat \<times> slot \<Rightarrow> lock_task option \<Rightarrow> 'w cluster \<Rightarrow> 'w cluster" where
  "set_task k t c \<equiv> c\<lparr>cl_tasks := (cl_tasks c)(k := t)\<rparr>"

abbreviation set_lock :: "nat \<Rightarrow> lock_inner \<Rightarrow> 'w cluster \<Rightarrow> 'w cluster" where
  "set_lock i l c \<equiv> c\<lparr>cl_locks := (cl_locks c)(i := l)\<rparr>"

fun idle :: "lock_task option \<Rightarrow> bool" where
  "idle None = True"
| "idle (Some (TryReturned b)) = True"
| "idle (Some RelReturned) = True"
| "idle _ = False"

definition releasing :: "lock_task option \<Rightarrow> bool" where
  "releasing t \<longleftrightarrow> t \<in> {Some RelConnecting, Some RelDeleting}"

text \<open>The time at which the server made the reply a task is about to read.\<close>

fun reply_time :: "lock_task \<Rightarrow> int option" where
  "reply_time (TryRenewed r at) = Some at"
| "reply_time (TrySet b at) = Some at"
| "reply_time (KeepRenewed r at) = Some at"
| "reply_time _ = None"

text \<open>One event, if it can happen; \<open>delay\<close> bounds the time from the server's reply to the segment that reads it.\<close>

definition lock_step :: "'w redis_api \<Rightarrow> int \<Rightarrow> 'w cluster \<Rightarrow> lock_event \<Rightarrow> 'w cluster option" where
  "lock_step api delay c e =
     (let now = cl_now c; task = cl_tasks c; lock = cl_locks c in
      case e of
        Tick n \<Rightarrow> if 0 \<le> n then Some (c\<lparr>cl_now := now + n\<rparr>) else None
      | CallTry i \<Rightarrow>
          if idle (task (i, Caller)) then (let (l, t) = try_start now (lock i) in Some (set_lock i l (set_task (i, Caller) (Some t) c))) else None
      | CallRelease i \<Rightarrow>
          if idle (task (i, Caller)) \<and> task (i, Keeper) = None
          then (let (l, t) = release_start (lock i) in Some (set_lock i l (set_task (i, Caller) (Some t) c))) else None
      | StartKeepalive i \<Rightarrow>
          if task (i, Keeper) = None \<and> \<not> releasing (task (i, Caller))
          then Some (set_task (i, Keeper) (Some KeepWaiting) c) else None
      | KeepTick i \<Rightarrow> if task (i, Keeper) = Some KeepWaiting then Some (set_task (i, Keeper) (Some KeepConnecting) c) else None
      | AbortKeepalive i \<Rightarrow> Some (set_task (i, Keeper) None c)
      | Connected i s ok \<Rightarrow>
          (case task (i, s) of None \<Rightarrow> None
           | Some t \<Rightarrow> (case connected ok t of None \<Rightarrow> None | Some t' \<Rightarrow> Some (set_task (i, s) (Some t') c)))
      | Served i s \<Rightarrow>
          (case task (i, s) of None \<Rightarrow> None
           | Some t \<Rightarrow>
               (case served api now (lock i) t (cl_redis c) of None \<Rightarrow> None
                | Some (t', w) \<Rightarrow> Some (set_task (i, s) (Some t') (c\<lparr>cl_redis := w\<rparr>))))
      | Lost i s \<Rightarrow>
          (case task (i, s) of None \<Rightarrow> None
           | Some t \<Rightarrow> (case lost now t of None \<Rightarrow> None | Some t' \<Rightarrow> Some (set_task (i, s) (Some t') c)))
      | Resumed i s \<Rightarrow>
          (case task (i, s) of None \<Rightarrow> None
           | Some t \<Rightarrow>
               if (case reply_time t of None \<Rightarrow> True | Some at \<Rightarrow> now \<le> at + delay)
               then (case resumed now (lock i) t of None \<Rightarrow> None
                     | Some (l, t') \<Rightarrow> Some (set_lock i l (set_task (i, s) (Some t') c)))
               else None))"

definition cluster_start :: "int \<Rightarrow> 'w \<Rightarrow> (nat \<Rightarrow> lock_inner) \<Rightarrow> 'w cluster" where
  "cluster_start now w locks = \<lparr>cl_now = now, cl_redis = w, cl_locks = locks, cl_tasks = \<lambda>k. None\<rparr>"

inductive lock_reach :: "'w redis_api \<Rightarrow> int \<Rightarrow> 'w cluster \<Rightarrow> 'w cluster \<Rightarrow> bool" for api delay c0 where
  reach_start: "lock_reach api delay c0 c0"
| reach_step: "lock_reach api delay c0 c \<Longrightarrow> lock_step api delay c e = Some c' \<Longrightarrow> lock_reach api delay c0 c'"

end
