(* ===== verification/LeaderLockProperties.thy ===== *)
theory LeaderLockProperties
  imports LeaderLock
begin

text \<open>
  How exclusive the lease is. What an instance believes is backed by the key on the server up to the time a reply takes;
  without a bound of zero on that time two instances can believe to be the leader at once.
\<close>

section \<open>Redis\<close>

text \<open>
  The documented behaviour of the four commands on the one key: \<open>lease\<close> is its value with the time at which it expires, of
  which \<open>GET\<close> shows the value until then; \<open>PEXPIRE\<close> renews it, \<open>SET NX PX\<close> sets it when there is none, \<open>DEL\<close> removes it.
\<close>

locale redis_store =
  fixes api :: "'w redis_api" and lease :: "'w \<Rightarrow> (string \<times> int) option" and key :: string
  assumes get_law: "rd_get api t key w = (case lease w of None \<Rightarrow> None | Some (v, e) \<Rightarrow> if t < e then Some v else None)"
    and pexpire_law: "rd_get api t key w = Some v \<Longrightarrow> 0 < n \<Longrightarrow> rd_pexpire api t key n w = (r, w') \<Longrightarrow> r = 1 \<and> lease w' = Some (v, t + n)"
    and set_law: "0 < n \<Longrightarrow> rd_set_nx_px api t key v n w = (b, w')
      \<Longrightarrow> if rd_get api t key w = None then b \<and> lease w' = Some (v, t + n) else \<not> b \<and> lease w' = lease w"
    and del_law: "rd_get api t key w = Some v \<Longrightarrow> rd_del api t key w = (r, w') \<Longrightarrow> lease w' = None"

section \<open>Claims\<close>

text \<open>The success a reply under way reports, by the time of the server.\<close>

fun granted :: "lock_task \<Rightarrow> int option" where
  "granted (TryRenewed r at) = (if r = 1 then Some at else None)"
| "granted (TrySet b at) = (if b then Some at else None)"
| "granted (KeepRenewed r at) = (if r = 1 then Some at else None)"
| "granted _ = None"

text \<open>The deadlines an instance relies on or will rely on once it reads a reply.\<close>

definition claims :: "int \<Rightarrow> 'w cluster \<Rightarrow> nat \<Rightarrow> int set" where
  "claims delay c i =
     {d. li_lease_deadline (cl_locks c i) = Some d}
     \<union> {at + li_ttl_ms (cl_locks c i) + delay | at. \<exists>s t. cl_tasks c (i, s) = Some t \<and> granted t = Some at}"

definition covered :: "int \<Rightarrow> int \<Rightarrow> (string \<times> int) option \<Rightarrow> lock_inner \<Rightarrow> int \<Rightarrow> bool" where
  "covered delay now ls l d \<longleftrightarrow>
     d \<le> now + li_ttl_ms l + delay \<and> (d \<le> now + delay \<or> (\<exists>e. ls = Some (li_token l, e) \<and> d \<le> e + delay))"

definition leases_ok :: "('w \<Rightarrow> (string \<times> int) option) \<Rightarrow> int \<Rightarrow> (nat \<Rightarrow> lock_inner) \<Rightarrow> 'w cluster \<Rightarrow> bool" where
  "leases_ok lease delay locks c \<longleftrightarrow>
     (\<forall>i. cl_locks c i = (locks i)\<lparr>li_lease_deadline := li_lease_deadline (cl_locks c i)\<rparr>
        \<and> (\<forall>d \<in> claims delay c i. covered delay (cl_now c) (lease (cl_redis c)) (locks i) d)
        \<and> (releasing (cl_tasks c (i, Caller)) \<longrightarrow> li_lease_deadline (cl_locks c i) = None \<and> cl_tasks c (i, Keeper) = None)
        \<and> \<not> releasing (cl_tasks c (i, Keeper)))"

lemma covered_later: "covered delay now ls l d \<Longrightarrow> 0 \<le> n \<Longrightarrow> covered delay (now + n) ls l d"
  by (auto simp: covered_def)

lemma covered_less: "covered delay now ls l d \<Longrightarrow> d' \<le> d \<Longrightarrow> covered delay now ls l d'"
  unfolding covered_def by force

text \<open>What an event may change of one instance without adding a claim.\<close>

lemma leases_okD:
  assumes "leases_ok lease delay locks c"
  shows "li_token (cl_locks c i) = li_token (locks i)" "li_ttl_ms (cl_locks c i) = li_ttl_ms (locks i)" "li_key (cl_locks c i) = li_key (locks i)"
    and "d \<in> claims delay c i \<Longrightarrow> covered delay (cl_now c) (lease (cl_redis c)) (locks i) d"
  using assms unfolding leases_ok_def by (metis lock_inner.select_convs lock_inner.surjective lock_inner.update_convs(4))+

context redis_store
begin

text \<open>A command of instance \<open>j\<close> leaves every covered claim covered, but for the deletion of an instance's own key.\<close>

lemma renew_covers:
  assumes "RENEW_SCRIPT api now key (li_token m) (li_ttl_ms m) w = (r, w')" "0 < li_ttl_ms m"
    and "covered delay now (lease w) l d" "l = m \<or> li_token l \<noteq> li_token m"
  shows "covered delay now (lease w') l d"
proof (cases "rd_get api now key w = Some (li_token m)")
  case True
  then obtain e where e: "lease w = Some (li_token m, e)" by (auto simp: get_law split: option.splits if_splits)
  have w': "lease w' = Some (li_token m, now + li_ttl_ms m)"
    using assms(1,2) True pexpire_law [OF True assms(2)] by (simp add: RENEW_SCRIPT_def)
  show ?thesis using assms(3,4) e w' by (auto simp: covered_def)
next
  case False
  with assms show ?thesis by (simp add: RENEW_SCRIPT_def)
qed

lemma renew_grants:
  assumes "RENEW_SCRIPT api now key (li_token m) (li_ttl_ms m) w = (1, w')" "0 < li_ttl_ms m" "0 \<le> delay"
  shows "covered delay now (lease w') m (now + li_ttl_ms m + delay)"
proof -
  have g: "rd_get api now key w = Some (li_token m)" using assms(1) by (simp add: RENEW_SCRIPT_def split: if_splits)
  with assms(1) have "lease w' = Some (li_token m, now + li_ttl_ms m)"
    using pexpire_law [OF g assms(2)] by (simp add: RENEW_SCRIPT_def)
  then show ?thesis by (simp add: covered_def)
qed

lemma set_covers:
  assumes "rd_set_nx_px api now key v n w = (b, w')" "0 < n" "covered delay now (lease w) l d"
  shows "covered delay now (lease w') l d"
proof (cases "rd_get api now key w = None")
  case True
  then have "d \<le> now + delay" using assms(3) by (auto simp: covered_def get_law split: option.splits if_splits)
  with assms(3) show ?thesis by (simp add: covered_def)
next
  case False
  with set_law [OF assms(2,1)] assms(3) show ?thesis by simp
qed

lemma set_grants:
  assumes "rd_set_nx_px api now key (li_token m) (li_ttl_ms m) w = (True, w')" "0 < li_ttl_ms m" "0 \<le> delay"
  shows "covered delay now (lease w') m (now + li_ttl_ms m + delay)"
  using set_law [OF assms(2,1)] by (auto simp: covered_def split: if_splits)

lemma release_covers:
  assumes "RELEASE_SCRIPT api now key (li_token m) w = (r, w')" "covered delay now (lease w) l d" "li_token l \<noteq> li_token m"
  shows "covered delay now (lease w') l d"
proof (cases "rd_get api now key w = Some (li_token m)")
  case True
  then have "lease w \<noteq> Some (li_token l, e)" for e using assms(3) by (auto simp: get_law split: if_splits)
  with assms(2) show ?thesis by (auto simp: covered_def)
next
  case False
  with assms show ?thesis by (simp add: RELEASE_SCRIPT_def)
qed

end

section \<open>Every event keeps the claims covered\<close>

text \<open>All events but the passing of time change one instance, one of its tasks and the store.\<close>

definition moved_to :: "nat \<Rightarrow> slot \<Rightarrow> lock_inner \<Rightarrow> lock_task option \<Rightarrow> 'w \<Rightarrow> 'w cluster \<Rightarrow> 'w cluster" where
  "moved_to j s l t w c = c\<lparr>cl_redis := w, cl_locks := (cl_locks c)(j := l), cl_tasks := (cl_tasks c)((j, s) := t)\<rparr>"

lemma leases_ok_moved:
  assumes inv: "leases_ok lease delay locks c"
    and l: "l = (cl_locks c j)\<lparr>li_lease_deadline := li_lease_deadline l\<rparr>"
    and keep: "\<And>i d. d \<in> claims delay c i \<Longrightarrow> covered delay (cl_now c) (lease (cl_redis c)) (locks i) d \<Longrightarrow> covered delay (cl_now c) (lease w) (locks i) d"
    and deadline: "\<And>d. li_lease_deadline l = Some d \<Longrightarrow> covered delay (cl_now c) (lease w) (locks j) d"
    and grant: "\<And>u at. t = Some u \<Longrightarrow> granted u = Some at \<Longrightarrow> covered delay (cl_now c) (lease w) (locks j) (at + li_ttl_ms (locks j) + delay)"
    and rel: "releasing (if s = Caller then t else cl_tasks c (j, Caller)) \<Longrightarrow>
       li_lease_deadline l = None \<and> (if s = Keeper then t else cl_tasks c (j, Keeper)) = None"
    and rel': "s = Keeper \<Longrightarrow> \<not> releasing t"
  shows "leases_ok lease delay locks (moved_to j s l t w c)"
  unfolding leases_ok_def
proof (intro allI conjI ballI)
  fix i
  let ?c = "moved_to j s l t w c"
  have lj: "cl_locks c j = (locks j)\<lparr>li_lease_deadline := li_lease_deadline (cl_locks c j)\<rparr>" for j
    using inv by (simp add: leases_ok_def)
  then show "cl_locks ?c i = (locks i)\<lparr>li_lease_deadline := li_lease_deadline (cl_locks ?c i)\<rparr>"
    using l by (auto simp: moved_to_def intro: lock_inner.equality) (metis lock_inner.update_convs(4) lock_inner.surjective)+
  fix d assume d: "d \<in> claims delay ?c i"
  have ttl: "li_ttl_ms (cl_locks ?c i) = li_ttl_ms (locks i)" for i
    using leases_okD(2) [OF inv] l by (simp add: moved_to_def) (metis lock_inner.select_convs(3) lock_inner.surjective lock_inner.update_convs(4))
  show "covered delay (cl_now ?c) (lease (cl_redis ?c)) (locks i) d"
  proof -
    have old: "covered delay (cl_now c) (lease w) (locks i) d" if "d \<in> claims delay c i"
      using keep [OF that leases_okD(4) [OF inv that]] .
    have now: "cl_now ?c = cl_now c" "cl_redis ?c = w" by (simp_all add: moved_to_def)
    from d consider "li_lease_deadline (cl_locks ?c i) = Some d"
      | s' u at where "cl_tasks ?c (i, s') = Some u" "granted u = Some at" "d = at + li_ttl_ms (locks i) + delay"
      unfolding claims_def ttl by blast
    then show ?thesis
    proof cases
      case 1
      with deadline old now show ?thesis by (cases "i = j") (auto simp: moved_to_def claims_def)
    next
      case 2
      show ?thesis
      proof (cases "(i, s') = (j, s)")
        case True
        with 2 grant now show ?thesis by (auto simp: moved_to_def)
      next
        case False
        then have "cl_tasks c (i, s') = Some u" using 2(1) by (auto simp: moved_to_def)
        then have "d \<in> claims delay c i" using 2(2,3) leases_okD(2) [OF inv] unfolding claims_def by auto
        with old now show ?thesis by simp
      qed
    qed
  qed
qed (use inv rel rel' in \<open>auto simp: leases_ok_def moved_to_def split: if_splits\<close>)

lemma leases_ok_tick:
  assumes "leases_ok lease delay locks c" "0 \<le> n"
  shows "leases_ok lease delay locks (c\<lparr>cl_now := cl_now c + n\<rparr>)"
  using assms covered_later unfolding leases_ok_def claims_def by fastforce

text \<open>A task that holds no grant, with no new deadline and no command run.\<close>

lemma leases_ok_task:
  assumes inv: "leases_ok lease delay locks c" and l: "l = cl_locks c j \<or> l = (cl_locks c j)\<lparr>li_lease_deadline := None\<rparr>"
    and "\<And>u. t = Some u \<Longrightarrow> granted u = None"
    and rel: "releasing (if s = Caller then t else cl_tasks c (j, Caller)) \<Longrightarrow>
       li_lease_deadline l = None \<and> (if s = Keeper then t else cl_tasks c (j, Keeper)) = None"
    and "s = Keeper \<Longrightarrow> \<not> releasing t"
  shows "leases_ok lease delay locks (moved_to j s l t (cl_redis c) c)"
proof (rule leases_ok_moved [OF inv])
  show "l = (cl_locks c j)\<lparr>li_lease_deadline := li_lease_deadline l\<rparr>" using l by auto
  fix d assume "li_lease_deadline l = Some d"
  then have "d \<in> claims delay c j" using l by (auto simp: claims_def)
  with leases_okD(4) [OF inv] show "covered delay (cl_now c) (lease (cl_redis c)) (locks j) d" .
qed (use assms in auto)

text \<open>Reading a granted reply in time: the new deadline is no later than the claim of the reply.\<close>

lemma leases_ok_granted:
  assumes inv: "leases_ok lease delay locks c" and t: "cl_tasks c (j, s) = Some u" "granted u = Some at" "cl_now c \<le> at + delay"
    and "t = TryReturned True \<or> t = KeepWaiting"
  shows "leases_ok lease delay locks (moved_to j s (update_lease_deadline (cl_now c) (cl_locks c j)) (Some t) (cl_redis c) c)"
proof (rule leases_ok_moved [OF inv])
  have free: "\<not> releasing (cl_tasks c (j, Caller))"
    using inv t(1,2) by (cases s) (auto simp: leases_ok_def releasing_def)
  then show "releasing (if s = Caller then Some t else cl_tasks c (j, Caller)) \<Longrightarrow>
      li_lease_deadline (update_lease_deadline (cl_now c) (cl_locks c j)) = None \<and> (if s = Keeper then Some t else cl_tasks c (j, Keeper)) = None"
    using assms(5) by (auto simp: releasing_def split: if_splits)
  have "at + li_ttl_ms (locks j) + delay \<in> claims delay c j"
    using t leases_okD(2) [OF inv] unfolding claims_def by auto
  then have "covered delay (cl_now c) (lease (cl_redis c)) (locks j) (at + li_ttl_ms (locks j) + delay)" by (rule leases_okD(4) [OF inv])
  moreover fix d assume "li_lease_deadline (update_lease_deadline (cl_now c) (cl_locks c j)) = Some d"
  then have "d \<le> at + li_ttl_ms (locks j) + delay" using t(3) leases_okD(2) [OF inv] by (simp add: update_lease_deadline_def)
  ultimately show "covered delay (cl_now c) (lease (cl_redis c)) (locks j) d" by (rule covered_less)
qed (use assms in \<open>auto simp: releasing_def update_lease_deadline_def split: if_splits\<close>)

lemma served_cases:
  assumes "served api now l u w = Some (t, w')"
  obtains (renew) r where "u = TryRenewing \<or> u = KeepRenewing" "RENEW_SCRIPT api now (li_key l) (li_token l) (li_ttl_ms l) w = (r, w')"
      "granted t = (if r = 1 then Some now else None)" "\<not> releasing (Some t)"
    | (set) b where "u = TrySetting" "rd_set_nx_px api now (li_key l) (li_token l) (li_ttl_ms l) w = (b, w')"
      "granted t = (if b then Some now else None)" "\<not> releasing (Some t)"
    | (release) r where "u = RelDeleting" "RELEASE_SCRIPT api now (li_key l) (li_token l) w = (r, w')" "granted t = None" "\<not> releasing (Some t)"
  using assms by (cases u) (auto simp: releasing_def split: prod.splits)

context redis_store
begin

lemma leases_ok_served:
  assumes inv: "leases_ok lease delay locks c" and u: "cl_tasks c (j, s) = Some u"
    and run: "served api (cl_now c) (cl_locks c j) u (cl_redis c) = Some (t, w)"
    and locks: "\<And>i. li_key (locks i) = key" "\<And>i. 0 < li_ttl_ms (locks i)" "\<And>i k. li_token (locks i) = li_token (locks k) \<Longrightarrow> i = k"
    and "0 \<le> delay"
  shows "leases_ok lease delay locks (moved_to j s (cl_locks c j) (Some t) w c)"
proof -
  note same = leases_okD(1-3) [OF inv]
  have l: "locks i = locks j \<or> li_token (locks i) \<noteq> li_token (locks j)" for i using locks(3) by auto
  have kept: "covered delay (cl_now c) (lease w) (locks i) d"
    if d: "d \<in> claims delay c i" "covered delay (cl_now c) (lease (cl_redis c)) (locks i) d" for i d
    using run
  proof (cases rule: served_cases)
    case (renew r)
    from renew(2) show ?thesis unfolding same locks(1) by (rule renew_covers [OF _ locks(2) d(2) l])
  next
    case (set b)
    from set(2) show ?thesis unfolding same locks(1) by (rule set_covers [OF _ locks(2) d(2)])
  next
    case (release r)
    then have "s = Caller" "releasing (cl_tasks c (j, Caller))" using inv u by (cases s; auto simp: leases_ok_def releasing_def)+
    then have "li_lease_deadline (cl_locks c j) = None" "cl_tasks c (j, Keeper) = None" using inv by (auto simp: leases_ok_def)
    then have "d \<notin> claims delay c j" if "\<And>s' v. cl_tasks c (j, s') = Some v \<Longrightarrow> granted v = None" using that by (auto simp: claims_def)
    moreover have "granted v = None" if "cl_tasks c (j, s') = Some v" for s' v
      using that u release(1) \<open>s = Caller\<close> \<open>cl_tasks c (j, Keeper) = None\<close> by (cases s') auto
    ultimately have "li_token (locks i) \<noteq> li_token (locks j)" using d(1) locks(3) by blast
    with release(2) show ?thesis unfolding same locks(1) by (intro release_covers [OF _ d(2)]) 
  qed
  have grant: "covered delay (cl_now c) (lease w) (locks j) (at + li_ttl_ms (locks j) + delay)" if "granted t = Some at" for at
    using run
  proof (cases rule: served_cases)
    case (renew r)
    with that have "r = 1" "at = cl_now c" by (auto split: if_splits)
    with renew(2) show ?thesis unfolding same locks(1) by (auto intro: renew_grants [OF _ locks(2) assms(7)])
  next
    case (set b)
    with that have "b" "at = cl_now c" by (auto split: if_splits)
    with set(2) show ?thesis unfolding same locks(1) by (auto intro: set_grants [OF _ locks(2) assms(7)])
  qed (use that in simp)
  have quiet: "\<not> releasing (Some t)" using run by (cases rule: served_cases) auto
  show ?thesis
  proof (rule leases_ok_moved [OF inv])
    fix d assume "li_lease_deadline (cl_locks c j) = Some d"
    then have "d \<in> claims delay c j" by (simp add: claims_def)
    with kept leases_okD(4) [OF inv] show "covered delay (cl_now c) (lease w) (locks j) d" by blast
  next
    show "releasing (if s = Caller then Some t else cl_tasks c (j, Caller)) \<Longrightarrow>
      li_lease_deadline (cl_locks c j) = None \<and> (if s = Keeper then Some t else cl_tasks c (j, Keeper)) = None"
      using inv u quiet by (cases s) (auto simp: leases_ok_def)
  qed (use kept grant quiet in auto)
qed

lemma leases_ok_step:
  assumes inv: "leases_ok lease delay locks c" and run: "lock_step api delay c e = Some c'"
    and locks: "\<And>i. li_key (locks i) = key" "\<And>i. 0 < li_ttl_ms (locks i)" "\<And>i k. li_token (locks i) = li_token (locks k) \<Longrightarrow> i = k"
    and "0 \<le> delay"
  shows "leases_ok lease delay locks c'"
proof (cases e)
  case (Tick n)
  with run inv leases_ok_tick show ?thesis by (auto simp: lock_step_def split: if_splits)
next
  case (CallTry i)
  then obtain l t where "idle (cl_tasks c (i, Caller))" "try_start (cl_now c) (cl_locks c i) = (l, t)"
    and c': "c' = moved_to i Caller l (Some t) (cl_redis c) c"
    using run by (auto simp: lock_step_def moved_to_def Let_def split: if_splits prod.splits)
  then show ?thesis unfolding c' by (intro leases_ok_task [OF inv]) (auto simp: try_start_def releasing_def Let_def split: if_splits)
next
  case (CallRelease i)
  then have k: "cl_tasks c (i, Keeper) = None"
    and c': "c' = moved_to i Caller ((cl_locks c i)\<lparr>li_lease_deadline := None\<rparr>) (Some RelConnecting) (cl_redis c) c"
    using run by (auto simp: lock_step_def moved_to_def Let_def release_start_def split: if_splits)
  show ?thesis unfolding c' by (intro leases_ok_task [OF inv]) (use k in auto)
next
  case (StartKeepalive i)
  then have k: "\<not> releasing (cl_tasks c (i, Caller))" and c': "c' = moved_to i Keeper (cl_locks c i) (Some KeepWaiting) (cl_redis c) c"
    using run by (auto simp: lock_step_def moved_to_def Let_def releasing_def split: if_splits)
  show ?thesis unfolding c' by (intro leases_ok_task [OF inv]) (use k in \<open>auto simp: releasing_def\<close>)
next
  case (KeepTick i)
  then have k: "cl_tasks c (i, Keeper) = Some KeepWaiting" and c': "c' = moved_to i Keeper (cl_locks c i) (Some KeepConnecting) (cl_redis c) c"
    using run by (auto simp: lock_step_def moved_to_def Let_def split: if_splits)
  show ?thesis unfolding c' by (intro leases_ok_task [OF inv]) (use k inv in \<open>auto simp: leases_ok_def releasing_def\<close>)
next
  case (AbortKeepalive i)
  then have c': "c' = moved_to i Keeper (cl_locks c i) None (cl_redis c) c" using run by (auto simp: lock_step_def moved_to_def Let_def)
  show ?thesis unfolding c' by (intro leases_ok_task [OF inv]) (use inv in \<open>auto simp: leases_ok_def releasing_def\<close>)
next
  case (Connected i s ok)
  then obtain u t where u: "cl_tasks c (i, s) = Some u" "connected ok u = Some t" and c': "c' = moved_to i s (cl_locks c i) (Some t) (cl_redis c) c"
    using run by (auto simp: lock_step_def moved_to_def Let_def split: option.splits)
  show ?thesis unfolding c'
    by (intro leases_ok_task [OF inv]; cases s; cases u) (use u inv in \<open>auto simp: leases_ok_def releasing_def split: if_splits\<close>)
next
  case (Served i s)
  then obtain u t w where u: "cl_tasks c (i, s) = Some u" "served api (cl_now c) (cl_locks c i) u (cl_redis c) = Some (t, w)"
    and c': "c' = moved_to i s (cl_locks c i) (Some t) w c"
    using run by (auto simp: lock_step_def moved_to_def Let_def split: option.splits)
  show ?thesis unfolding c' by (rule leases_ok_served [OF inv u locks assms(6)])
next
  case (Lost i s)
  then obtain u t where u: "cl_tasks c (i, s) = Some u" "lost (cl_now c) u = Some t" and c': "c' = moved_to i s (cl_locks c i) (Some t) (cl_redis c) c"
    using run by (auto simp: lock_step_def moved_to_def Let_def split: option.splits)
  show ?thesis unfolding c'
    by (intro leases_ok_task [OF inv]; cases s; cases u) (use u inv in \<open>auto simp: leases_ok_def releasing_def\<close>)
next
  case (Resumed i s)
  then obtain u l t where u: "cl_tasks c (i, s) = Some u" "resumed (cl_now c) (cl_locks c i) u = Some (l, t)"
    and prompt: "case reply_time u of None \<Rightarrow> True | Some at \<Rightarrow> cl_now c \<le> at + delay" and c': "c' = moved_to i s l (Some t) (cl_redis c) c"
    using run by (auto simp: lock_step_def moved_to_def Let_def split: option.splits if_splits)
  show ?thesis
  proof (cases "granted u")
    case None
    show ?thesis unfolding c'
      by (intro leases_ok_task [OF inv]; cases s; cases u) (use u inv None in \<open>auto simp: leases_ok_def releasing_def split: if_splits\<close>)
  next
    case (Some at)
    then have "l = update_lease_deadline (cl_now c) (cl_locks c i)" "t = TryReturned True \<or> t = KeepWaiting" "cl_now c \<le> at + delay"
      using u(2) prompt by (cases u; auto split: if_splits)+
    then show ?thesis unfolding c' using leases_ok_granted [OF inv u(1) Some] by blast
  qed
qed

lemma leases_ok_reach:
  assumes "lock_reach api delay (cluster_start now w locks) c" "\<And>i. li_lease_deadline (locks i) = None"
    and "\<And>i. li_key (locks i) = key" "\<And>i. 0 < li_ttl_ms (locks i)" "\<And>i k. li_token (locks i) = li_token (locks k) \<Longrightarrow> i = k" "0 \<le> delay"
  shows "leases_ok lease delay locks c"
  using assms(1)
proof (induction rule: lock_reach.induct)
  case reach_start
  show ?case using assms(2) by (auto simp: leases_ok_def cluster_start_def claims_def releasing_def)
next
  case (reach_step c e c')
  from leases_ok_step [OF this(3,2) assms(3-6)] show ?case .
qed

lemma backed:
  assumes "leases_ok lease delay locks c" "li_lease_deadline (cl_locks c i) = Some d" "cl_now c + delay < d"
    and "\<And>i. li_key (locks i) = key"
  shows "rd_get api (cl_now c) key (cl_redis c) = Some (li_token (locks i))"
proof -
  have "covered delay (cl_now c) (lease (cl_redis c)) (locks i) d"
    by (rule leases_okD(4) [OF assms(1)]) (use assms(2) in \<open>simp add: claims_def\<close>)
  with assms(3) show ?thesis by (auto simp: covered_def get_law)
qed

end

section \<open>A server\<close>

text \<open>A store with one key, for examples.\<close>

definition one_key :: "(string \<times> int) option redis_api" where
  "one_key = (let get = (\<lambda>t w. case w of None \<Rightarrow> None | Some (v, e) \<Rightarrow> if t < e then Some v else None) in
     \<lparr>rd_get = \<lambda>t key w. get t w,
      rd_pexpire = \<lambda>t key n w. (case get t w of None \<Rightarrow> (0, w) | Some v \<Rightarrow> (1, Some (v, t + n))),
      rd_del = \<lambda>t key w. (case get t w of None \<Rightarrow> (0, w) | Some v \<Rightarrow> (1, None)),
      rd_set_nx_px = \<lambda>t key v n w. (case get t w of None \<Rightarrow> (True, Some (v, t + n)) | Some u \<Rightarrow> (False, w))\<rparr>)"

interpretation single_key: redis_store one_key "\<lambda>w. w" key for key
  by unfold_locales (auto simp: one_key_def Let_def split: option.splits if_splits)

text \<open>A run of several events.\<close>

fun lock_run :: "'w redis_api \<Rightarrow> int \<Rightarrow> lock_event list \<Rightarrow> 'w cluster \<Rightarrow> 'w cluster option" where
  "lock_run api delay [] c = Some c"
| "lock_run api delay (e # es) c = (case lock_step api delay c e of None \<Rightarrow> None | Some c' \<Rightarrow> lock_run api delay es c')"

lemma lock_run_reach: "lock_run api delay es c = Some c' \<Longrightarrow> lock_reach api delay c0 c \<Longrightarrow> lock_reach api delay c0 c'"
  by (induction es arbitrary: c) (auto intro: reach_step split: option.splits)

definition two_locks :: "nat \<Rightarrow> lock_inner" where
  "two_locks i = lock_new ''leader'' 1000 (replicate i CHR ''a'')"

text \<open>Instance 0 acquires the lease and reads the reply 50 milliseconds later; when it has expired, instance 1 acquires it.\<close>

definition acquiring :: "nat \<Rightarrow> int \<Rightarrow> lock_event list" where
  "acquiring i n = [CallTry i, Connected i Caller True, Served i Caller, Resumed i Caller, Served i Caller, Tick n, Resumed i Caller]"

definition handover :: "lock_event list" where
  "handover = acquiring 0 50 @ [Tick 950] @ acquiring 1 0"

definition overlap :: "(string \<times> int) option cluster" where
  "overlap = the (lock_run one_key 100 handover (cluster_start 0 None two_locks))"

lemma overlap_run: "lock_run one_key 100 handover (cluster_start 0 None two_locks) = Some overlap"
proof -
  have "lock_run one_key 100 handover (cluster_start 0 None two_locks) \<noteq> None" by code_simp
  then show ?thesis unfolding overlap_def by simp
qed

lemma overlap_reach: "lock_reach one_key 100 (cluster_start 0 None two_locks) overlap"
  using lock_run_reach [OF overlap_run reach_start] .

section \<open>Guarantees\<close>

text \<open>
  C25. For instances of one lock with different tokens, whatever their calls, keepalive tasks, lost connections, lost requests
  and replies, and their interleaving: if the code reads a successful reply at most \<open>delay\<close> after the server made it, then an
  instance whose local deadline is more than \<open>delay\<close> away holds the key on the server, and no other instance believes to hold
  it for longer than \<open>delay\<close>. Redis is assumed to behave as documented, clocks to run at the speed of the server's.
\<close>

theorem leader_backed_by_redis:
  assumes "redis_store api lease key" "lock_reach api delay (cluster_start now w locks) c" "0 \<le> delay"
    and "\<And>i. li_lease_deadline (locks i) = None" "\<And>i. li_key (locks i) = key" "\<And>i. 0 < li_ttl_ms (locks i)"
    and "\<And>i k. li_token (locks i) = li_token (locks k) \<Longrightarrow> i = k"
    and "li_lease_deadline (cl_locks c i) = Some d" "cl_now c + delay < d"
  shows "rd_get api (cl_now c) key (cl_redis c) = Some (li_token (locks i))
    \<and> (\<forall>k d'. k \<noteq> i \<longrightarrow> li_lease_deadline (cl_locks c k) = Some d' \<longrightarrow> d' \<le> cl_now c + delay)"
proof -
  have ok: "leases_ok lease delay locks c" by (rule redis_store.leases_ok_reach [OF assms(1,2,4-7,3)])
  have get: "rd_get api (cl_now c) key (cl_redis c) = Some (li_token (locks k))"
    if "li_lease_deadline (cl_locks c k) = Some e" "cl_now c + delay < e" for k e
    using redis_store.backed [OF assms(1) ok that assms(5)] .
  have "d' \<le> cl_now c + delay" if "k \<noteq> i" "li_lease_deadline (cl_locks c k) = Some d'" for k d'
    using get [OF assms(8,9)] get [OF that(2)] assms(7) that(1) by force
  with get [OF assms(8,9)] show ?thesis by blast
qed

theorem leader_backed_by_redis_witness:
  "rd_get one_key (cl_now overlap) ''leader'' (cl_redis overlap) = Some ''a'' \<and> li_lease_deadline (cl_locks overlap 1) = Some 2000"
proof -
  have d: "li_lease_deadline (cl_locks overlap 1) = Some 2000" "cl_now overlap + 100 < 2000" by code_simp+
  have t: "li_token (two_locks i) = li_token (two_locks k) \<Longrightarrow> i = k" for i k
    by (simp add: two_locks_def lock_new_def)
  from leader_backed_by_redis [OF single_key.redis_store_axioms overlap_reach _ _ _ _ t d, of "''leader''"] d
  show ?thesis by (simp add: two_locks_def lock_new_def in_range_def)
qed


end
