(* ===== verification/Routing.thy ===== *)
theory Routing
  imports ProviderRegistry
begin

text \<open>
  The pure routing helpers of \<open>core/src/routing.rs\<close>: the choice of one provider by its smoothed round-trip time, with a
  round robin until all are warmed up, and the weights of a weighted round robin; with what they promise.
\<close>

section \<open>The functions\<close>

record provider_view =
  pv_name :: string
  pv_is_healthy :: bool
  pv_ema_rtt_us :: int
  pv_sample_count :: nat

definition healthy_indices :: "provider_view list \<Rightarrow> (nat \<times> provider_view) list" where
  "healthy_indices providers = filter (\<lambda>(i, p). pv_is_healthy p) (enumerate 0 providers)"

text \<open>\<open>min_by_key(|(i, p)| (p.ema_rtt_us, *i))\<close>, with the lexicographic order of the pair written out.\<close>

fun least_rtt :: "(nat \<times> provider_view) list \<Rightarrow> (nat \<times> provider_view) option" where
  "least_rtt [] = None"
| "least_rtt ((i, p) # rest) =
     (case least_rtt rest of
        None \<Rightarrow> Some (i, p)
      | Some (j, q) \<Rightarrow>
          if pv_ema_rtt_us p < pv_ema_rtt_us q \<or> (pv_ema_rtt_us p = pv_ema_rtt_us q \<and> i \<le> j) then Some (i, p) else Some (j, q))"

definition select_provider_index :: "provider_view list \<Rightarrow> nat \<Rightarrow> nat option" where
  "select_provider_index providers round_robin_cursor =
     (let healthy = healthy_indices providers in
      if healthy = [] then None
      else
        let all_warmed = list_all (\<lambda>(i, p). pv_sample_count p \<ge> MIN_SAMPLES_FOR_EMA) healthy in
        if \<not> all_warmed then Some (fst (healthy ! (round_robin_cursor mod length healthy)))
        else map_option fst (least_rtt healthy))"

definition compute_inverse_rtt_weights :: "provider_view list \<Rightarrow> int list" where
  "compute_inverse_rtt_weights providers =
     (let rtts = map (\<lambda>p. max (pv_ema_rtt_us p) 1) (filter pv_is_healthy providers) in
      if rtts = [] then [] else let max_rtt = Max (set rtts) in map (\<lambda>r. max_rtt div r) rtts)"

section \<open>What they promise\<close>

lemma healthy_indices_iff: "(i, p) \<in> set (healthy_indices ps) \<longleftrightarrow> i < length ps \<and> ps ! i = p \<and> pv_is_healthy p"
  by (auto simp: healthy_indices_def in_set_enumerate_eq)

lemma least_rtt_None: "least_rtt xs = None \<longleftrightarrow> xs = []"
  by (cases xs) (auto split: option.splits if_splits)

lemma least_rtt_least:
  "least_rtt xs = Some (i, p) \<Longrightarrow> (i, p) \<in> set xs \<and> (\<forall>(j, q) \<in> set xs. pv_ema_rtt_us p < pv_ema_rtt_us q \<or> (pv_ema_rtt_us p = pv_ema_rtt_us q \<and> i \<le> j))"
proof (induction xs arbitrary: i p)
  case (Cons x xs)
  obtain k r where x: "x = (k, r)" by (cases x)
  show ?case
  proof (cases "least_rtt xs")
    case None
    with Cons.prems x show ?thesis by (simp add: least_rtt_None)
  next
    case (Some y)
    obtain j q where y: "y = (j, q)" by (cases y)
    from Cons.IH [of j q] Cons.prems Some x y show ?thesis by (fastforce split: if_splits)
  qed
qed simp

text \<open>A provider is chosen exactly if one is healthy; it is healthy, and once all healthy ones are warmed up it is the
  fastest, the first of equals.\<close>

lemma healthy_indices_Nil: "healthy_indices ps = [] \<longleftrightarrow> \<not> (\<exists>p \<in> set ps. pv_is_healthy p)"
proof
  assume e: "healthy_indices ps = []"
  show "\<not> (\<exists>p \<in> set ps. pv_is_healthy p)"
  proof
    assume "\<exists>p \<in> set ps. pv_is_healthy p"
    then obtain i where "i < length ps" "pv_is_healthy (ps ! i)" by (auto simp: in_set_conv_nth)
    then have "(i, ps ! i) \<in> set (healthy_indices ps)" by (simp add: healthy_indices_iff)
    with e show False by simp
  qed
next
  assume "\<not> (\<exists>p \<in> set ps. pv_is_healthy p)"
  then have "x \<notin> set (healthy_indices ps)" for x by (cases x) (auto simp: healthy_indices_iff)
  then show "healthy_indices ps = []" by (metis list.set_intros(1) neq_Nil_conv)
qed

lemma select_None: "select_provider_index ps n = None \<longleftrightarrow> \<not> (\<exists>p \<in> set ps. pv_is_healthy p)"
  by (simp add: select_provider_index_def Let_def least_rtt_None healthy_indices_Nil)

lemma select_healthy:
  assumes "select_provider_index ps n = Some i"
  shows "i < length ps \<and> pv_is_healthy (ps ! i)"
proof -
  let ?h = "healthy_indices ps"
  have ne: "?h \<noteq> []" using assms by (auto simp: select_provider_index_def Let_def split: if_splits)
  have rr: "?h ! (n mod length ?h) \<in> set ?h" using ne by simp
  from assms ne consider "i = fst (?h ! (n mod length ?h))" | p where "least_rtt ?h = Some (i, p)"
    by (auto simp: select_provider_index_def Let_def split: if_splits)
  then have "\<exists>p. (i, p) \<in> set ?h"
  proof cases
    case 1
    with rr show ?thesis by (intro exI [of _ "snd (?h ! (n mod length ?h))"]) simp
  next
    case 2
    with least_rtt_least show ?thesis by blast
  qed
  then show ?thesis by (auto simp: healthy_indices_iff)
qed

lemma select_fastest:
  assumes "select_provider_index ps n = Some i" "\<forall>p \<in> set ps. pv_is_healthy p \<longrightarrow> MIN_SAMPLES_FOR_EMA \<le> pv_sample_count p"
    and "j < length ps" "pv_is_healthy (ps ! j)"
  shows "pv_ema_rtt_us (ps ! i) < pv_ema_rtt_us (ps ! j) \<or> (pv_ema_rtt_us (ps ! i) = pv_ema_rtt_us (ps ! j) \<and> i \<le> j)"
proof -
  have "list_all (\<lambda>(i, p). MIN_SAMPLES_FOR_EMA \<le> pv_sample_count p) (healthy_indices ps)"
    using assms(2) by (auto simp: list_all_iff healthy_indices_iff)
  with assms(1) obtain p where "least_rtt (healthy_indices ps) = Some (i, p)"
    by (auto simp: select_provider_index_def Let_def split: if_splits)
  from least_rtt_least [OF this] assms(3,4) show ?thesis by (auto simp: healthy_indices_iff)
qed

text \<open>The weights are positive: the slowest provider gets one, and a faster one no less than a slower one.\<close>

lemma weights_positive:
  assumes "w \<in> set (compute_inverse_rtt_weights ps)"
  shows "1 \<le> w"
proof -
  define rtts where "rtts = map (\<lambda>p. max (pv_ema_rtt_us p) 1) (filter pv_is_healthy ps)"
  have "w \<in> set (map (\<lambda>r. Max (set rtts) div r) rtts)"
    using assms by (simp add: compute_inverse_rtt_weights_def Let_def rtts_def split: if_splits)
  then obtain r where r: "r \<in> set rtts" "w = Max (set rtts) div r" by auto
  have "0 < r" using r(1) by (auto simp: rtts_def)
  moreover have "r \<le> Max (set rtts)" using r(1) by simp
  ultimately show ?thesis using r(2) zdiv_mono1 [of r "Max (set rtts)" r] by simp
qed

end
