(* ===== verification/Spec2Isabelle.thy ===== *)
theory Spec2Isabelle
  imports Prelude EmergencyGuard TokenInterface Token LiquidityPool PoolMath PoolProperties PoolDefects
    MerkleProperties EscrowProperties EnglishAuctionProperties FixedMathProperties
    RegistryGuarantees DispatchProperties StakingYield CdpGuarantees OrderBookGuarantees ConcentratedGuarantees
    YieldVaultGuarantees OracleGuarantees DutchAuctionProperties PrivateTransferProperties DidRegistryProperties
    FlashVaultProperties BranchProperties CallTrace BatchTransfer Soulbound AuctionFactory
    LeaderLockProperties Routing
begin

text \<open>
  Verification of the Soroban contracts and of the provider and proof machinery of the SoroScope
  repository. Paths below are relative to \<open>src/\<close>.

  \<^bold>\<open>The program.\<close> The repository holds a set of smart contracts for the Soroban platform
  (\<open>contracts/*\<close>) and a server (\<open>core/\<close>) that simulates contract calls against RPC nodes and reports on
  their resources. The contracts interact by calls: the pool, the escrow and the auction move funds by
  calling token contracts; the pool and the token embed the emergency guard; the guard is administered
  by a set of admins with a threshold. The server sends simulations to a registry of RPC providers,
  which watches their health, exchanges it with peers, and builds Merkle trees over batches of data.

  \<^bold>\<open>Conventions.\<close> An entry point of a contract is a function from the environment of the call and the
  storage to a result: a new storage and a value, an error code, or a trap (\<open>Prelude\<close>). The host rolls a
  failed invocation back, so a failed call leaves the storage of all contracts unchanged. Fixed-width integers are
  mathematical integers kept in their type by explicit operations (plain arithmetic, which traps or
  wraps with the build profile, and the checked and saturating families); words are used where the
  code works on bits. A storage map is a finite map. Server state is passed explicitly; each of its
  operations is one atomic step. The code's loops are structural recursions or recursive functions with
  a termination proof, or \<open>while_option\<close> with a theorem that it returns (the swap of the concentrated pool); no fuel is used except where the code itself bounds a loop (the 128 bits of a
  long division, 24 terms of a series, 8 Newton steps, the bits of a mask).

  \<^bold>\<open>Theories and what they model.\<close>

    \<^item> \<open>Prelude\<close>: environment, results, fixed-width arithmetic, storage maps, and the interface of a
      contract as a transition system with run and invariant lemmas.
    \<^item> \<open>EmergencyGuard\<close> (\<open>contracts/emergency_guard/src/lib.rs\<close>): the pause mask, the admin set and the
      multi-signature check, in the two variants of the crate, \<open>EmergencyGuard\<close> (prefix \<open>guard_\<close>) and
      \<open>DefaultEmergencyGuard\<close> (prefix \<open>dguard_\<close>). Lemmas: the check accepts exactly a quorum of distinct
      authorised admins; every change carries the authority it needs; the default guard never loses its quorum;
      the rotation of the other variant can.
    \<^item> \<open>TokenInterface\<close> and \<open>Token\<close> (\<open>soroscope/contracts/token/src/*\<close>): the interface through which other
      contracts move tokens, as a locale, and the token contract that is interpreted in it. Lemmas:
      conservation of the supply, authority of debits, and the theft that a negative amount allows.
    \<^item> \<open>LiquidityPool\<close>, \<open>PoolMath\<close>, \<open>PoolProperties\<close>, \<open>PoolDefects\<close>
      (\<open>contracts/liquidity_pool/src/lib.rs\<close>): the constant-product pool with its shares, staking, rewards,
      fees and their time lock. Lemmas: the swap formulas and the integer square root; the shares add up, the
      reserves are backed by token balances, the value of a share never falls; two defects.
    \<^item> \<open>Merkle\<close>, \<open>MerkleProperties\<close> (\<open>core/src/merkle_tree.rs\<close>): construction, single and batched
      proofs, verification; round trip, equivalence of the two generators, soundness up to a collision.
    \<^item> \<open>Escrow\<close>, \<open>EscrowProperties\<close> (\<open>contracts/timelocked_escrow/src/*\<close>): the escrow with its guardians;
      quorum and time lock of a release, backing of the amount, finality, the bit count of the approvals.
    \<^item> \<open>EnglishAuction\<close>, \<open>EnglishAuctionProperties\<close> (\<open>contracts/english_auction/src/lib.rs\<close>): bids,
      refunds, the anti-snipe window and settlement.
    \<^item> \<open>FixedMath\<close>, \<open>FixedMathProperties\<close> (\<open>contracts/math/src/lib.rs\<close>): 18-decimal arithmetic; the 256-bit
      multiplication and division are exact, bounds of the exponential and where it wraps.
    \<^item> \<open>Staking\<close>, \<open>StakingProperties\<close>, \<open>StakingYield\<close> (\<open>contracts/staking_rewards/src/lib.rs\<close>): stakes
      with rewards compounded from epoch to epoch, under the guard. Lemmas: the total is the sum of the stakes
      and backed by tokens; rewards only grow at moderate rates, and the lock-up a wrapped exponential causes.
    \<^item> \<open>Cdp\<close>, \<open>CdpProperties\<close>, \<open>CdpGuarantees\<close> (\<open>contracts/cdp/src/lib.rs\<close>): collateralised debt with an
      interest rate, liquidation and liquidation into the reserves. Lemmas: every call has one shape (\<open>moved\<close>), from
      which books and backing follow; withdrawals and mints leave covered positions; liquidations are bounded.
    \<^item> \<open>OrderBook\<close>, \<open>OrderBookProperties\<close>, \<open>OrderBookGuarantees\<close> (\<open>contracts/hybrid_amm_lob/src/lib.rs\<close>): limit
      orders in front of a constant-product pool. Lemmas: what one step of each matching loop did and what the loops keep;
      price-time order, backing of the asks, delivery and bounds of a swap, and the fills of bids that cost nothing.
    \<^item> \<open>ConcentratedMath\<close>, \<open>ConcentratedAmm\<close> (\<open>contracts/concentrated_amm/src/math.rs\<close> and \<open>lib.rs\<close>): the
      concentrated-liquidity pool. Lemmas, in the order of the theories: \<open>ConcentratedProperties\<close> prices of the permitted
      ticks and the search of the bitmap, \<open>ConcentratedSwap\<close> one round of a swap and its end, \<open>ConcentratedBooks\<close> ticks,
      bitmap and active liquidity against the positions, \<open>ConcentratedCalls\<close> whole calls, \<open>ConcentratedCosts\<close> amounts and
      their rounding, \<open>ConcentratedGuarantees\<close> the properties, and the stale tick that lets a minter drain the pool.
    \<^item> \<open>YieldVault\<close>, \<open>YieldVaultProperties\<close>, \<open>YieldVaultGuarantees\<close> (\<open>contracts/multi_yield_vault/src/lib.rs\<close>): deposits
      spread over registered pools by weights. Lemmas: shares, pools and weights stay sound; the split of a deposit is
      exact (\<open>parts\<close> is its specification); a withdrawal takes its part of each holding.
    \<^item> \<open>OracleAggregator\<close>, \<open>TwapOracle\<close>, \<open>OracleProperties\<close>, \<open>OracleGuarantees\<close>
      (\<open>contracts/oracle_aggregator/src/lib.rs\<close>, \<open>contracts/twap_oracle/src/lib.rs\<close>): the median of several sources
      with its rolling average, and the accumulating oracle. Lemmas: the sort sorts, a majority fixes the median, the filter
      stays near it, pruning loses nothing the average needs, both averages stay between the prices.
    \<^item> \<open>DutchAuction\<close>, \<open>DutchAuctionProperties\<close> (\<open>contracts/dutch_auction/src/lib.rs\<close>): the falling price
      against its linear specification \<open>falling_price\<close>, and the one sale.
    \<^item> \<open>FlashVault\<close>, \<open>FlashVaultProperties\<close> (\<open>contracts/flash_loan_vault/src/lib.rs\<close>): the lending vault. The receiver
      of a loan is code of others: \<open>outside\<close> is what it can do, the vault called again and loans within loans included.
      Lemmas: a locked vault keeps its books; a loan comes back with its fee; the recorded deposits stay covered.
    \<^item> \<open>BatchTransfer\<close> (\<open>contracts/batch_transfer/src/lib.rs\<close>): payments to many recipients; an executed batch
      against its quotation. \<open>Soulbound\<close> (\<open>contracts/soulbound_token/src/*\<close>): badges; nobody holds two, and only the
      administrator or the holder changes a holding. \<open>AuctionFactory\<close> (\<open>contracts/auction_factory/src/lib.rs\<close>): the
      registry of deployed auctions, as the list \<open>lists_auctions\<close> that its pages are cut from.
    \<^item> \<open>PrivateTransfer\<close>, \<open>PrivateTransferProperties\<close> (\<open>contracts/private_transfer/src/lib.rs\<close>): shielded transfers;
      no nullifier is spent twice and no registered deposit key credited twice, over a log of the completed transfers.
    \<^item> \<open>DidRegistry\<close>, \<open>DidRegistryProperties\<close> (\<open>contracts/did_registry/src/*\<close>): identifiers, documents and
      attestations; every call is one of four changes (\<open>did_change\<close>), documents, metadata and index agree, a revocation
      is final, and what makes an attestation verify.
    \<^item> \<open>LeaderLock\<close>, \<open>LeaderLockProperties\<close> (\<open>core/src/leader_lock.rs\<close>): the Redis lease that elects a
      leader, each asynchronous function cut into the segments between its \<open>.await\<close>s and run in any interleaving by a step
      function over several instances; the laws of Redis are the locale \<open>redis_store\<close>. Lemmas: every claim to the lease is
      covered by the key on the server up to the delay of a reply, and the overlap that this delay allows.
    \<^item> \<open>WasmScan\<close>, \<open>WasmProperties\<close>, \<open>BranchAnalysis\<close>, \<open>BranchProperties\<close> (\<open>core/src/wasm_branch_analysis.rs\<close>): the
      reader of WASM binaries, the scan of a function for branches, and the exploration of its argument space. Lemmas: LEB-128
      numbers read back; on encoded modules and bodies (\<open>module_bytes\<close>, \<open>body_bytes\<close>) the search and the scan compute what
      \<open>function_body\<close>, \<open>branch_points\<close> and \<open>deepest\<close> say; what the scan keeps on any bytes; the variations below the cap
      and above it; the instructions that the scan misreads.
    \<^item> \<open>CallTrace\<close> (\<open>core/src/call_trace_parser.rs\<close> and the call graph of \<open>core/src/simulation.rs\<close>): the call tree of
      a log of diagnostic events, against the boundaries (\<open>boundaries\<close>) that a call leaves in the log.
    \<^item> \<open>Routing\<close> (\<open>core/src/routing.rs\<close>): the choice of a provider by round-trip time, and weights.
    \<^item> \<open>ProviderRegistry\<close>, \<open>RegistryProperties\<close>, \<open>RegistryGuarantees\<close> (\<open>core/src/rpc_provider.rs\<close>): the
      registry of RPC providers with its circuit breaker, latency statistics and gossip, as a transition system
      over \<open>registry_op\<close>. Lemmas: well-formedness; the breaker refines a specification over the history of
      outcomes; recovery under fair health checks; private providers stay private; the cooldown that does not help.
    \<^item> \<open>Dispatch\<close>, \<open>DispatchProperties\<close> (parts of \<open>core/src/simulation.rs\<close>): failover and consensus over the
      registry and the bisection of resource limits, with their specifications; the retry test that never
      retries an HTTP status.

  \<^bold>\<open>Parameters.\<close> What is not under \<open>src/\<close> is an argument: SHA-256 and hex decoding for the Merkle tree
  (the only law used is the length of a hash); the price oracle of the pool; the two token contracts of a
  pool, escrow or auction as a world in which transfers obey the laws of \<open>TokenInterface\<close>; the bit of the
  constant \<open>CLAIM_REWARDS\<close>, which the pool uses and the guard does not define; the answers of RPC nodes, peers and
  probes; XDR decoding; arithmetic on \<open>f64\<close>; the readings of clocks; and the iteration order of hash tables, which
  may change at any step.

  \<^bold>\<open>Not modelled.\<close> Storage rent (TTL extension and archival) and log output; reentrancy outside the
  flash-loan vault, since the token contracts that the others call do not call back; interleaving inside one operation of the registry;
  the network exchanges and the two scheduling loops of the registry; the HTTP, database and WASM execution parts of the
  server, whose behaviour is mostly that of their libraries. The remaining contracts are listed in the
  manifest with the reason; \<open>contracts/token/src/contract.rs\<close>, \<open>contracts/governance/src/voting.rs\<close> and
  \<open>contract.rs\<close>, and \<open>contracts/cross_chain_verifier/src/lib.rs\<close> hold two versions of the code pasted together
  and do not parse, so they have no behaviour to model.
\<close>

end
